(* ===== verification/Prelude.thy ===== *)
theory Prelude
  imports Complex_Main "HOL-Library.Char_ord" "HOL-Library.List_Lexorder"
begin

text \<open>
  Shared vocabulary of the development: results that are an error or a value, tables of
  database rows addressed by a text key, sums over a table, the decimal digits of a number
  (Python's \<^verbatim>\<open>str\<close> of an int) and the lifting of a one-step invariant to a
  whole run, stated once as a locale that every state machine of the development instantiates.
\<close>

named_theorems result_simps \<open>inversion of sequenced results\<close>
named_theorems table_simps \<open>lookup and update of keyed rows\<close>

section \<open>Results\<close>

definition and_then :: "'e + 'a \<Rightarrow> ('a \<Rightarrow> 'e + 'b) \<Rightarrow> 'e + 'b" where
  "and_then m f = (case m of Inl e \<Rightarrow> Inl e | Inr x \<Rightarrow> f x)"

definition require :: "bool \<Rightarrow> 'e \<Rightarrow> 'e + 'a \<Rightarrow> 'e + 'a" where
  "require ok e m = (if ok then m else Inl e)"

definition of_option :: "'e \<Rightarrow> 'a option \<Rightarrow> 'e + 'a" where
  "of_option e x = (case x of None \<Rightarrow> Inl e | Some v \<Rightarrow> Inr v)"

lemma and_then_simps [simp]:
  "and_then (Inl e) f = Inl e"
  "and_then (Inr x) f = f x"
  by (simp_all add: and_then_def)

lemma and_then_Inr [result_simps]:
  "and_then m f = Inr y \<longleftrightarrow> (\<exists>x. m = Inr x \<and> f x = Inr y)"
  by (cases m) auto

lemma and_then_Inl [result_simps]:
  "and_then m f = Inl e \<longleftrightarrow> m = Inl e \<or> (\<exists>x. m = Inr x \<and> f x = Inl e)"
  by (cases m) auto

lemma require_simps [simp]:
  "require True e m = m"
  "require False e m = Inl e"
  by (simp_all add: require_def)

lemma require_Inr [result_simps]: "require ok e m = Inr y \<longleftrightarrow> ok \<and> m = Inr y"
  by (simp add: require_def)

lemma of_option_simps [simp]:
  "of_option e None = Inl e"
  "of_option e (Some v) = Inr v"
  by (simp_all add: of_option_def)

lemma of_option_Inr [result_simps]: "of_option e x = Inr v \<longleftrightarrow> x = Some v"
  by (cases x) auto

section \<open>Tables of rows\<close>

text \<open>A table is the list of its rows in insertion order; \<open>k\<close> reads a row's primary key.\<close>

definition find_row :: "('r \<Rightarrow> string) \<Rightarrow> string \<Rightarrow> 'r list \<Rightarrow> 'r option" where
  "find_row k i rows = find (\<lambda>r. k r = i) rows"

definition put_row :: "('r \<Rightarrow> string) \<Rightarrow> 'r \<Rightarrow> 'r list \<Rightarrow> 'r list" where
  "put_row k r rows = map (\<lambda>x. if k x = k r then r else x) rows"

lemma find_row_SomeD:
  "find_row k i rows = Some r \<Longrightarrow> k r = i \<and> r \<in> set rows"
  by (auto simp: find_row_def find_Some_iff)

lemma find_row_None: "find_row k i rows = None \<longleftrightarrow> (\<forall>r \<in> set rows. k r \<noteq> i)"
  by (auto simp: find_row_def find_None_iff)

lemma find_row_distinct:
  assumes "distinct (map k rows)" and "r \<in> set rows"
  shows "find_row k (k r) rows = Some r"
  using assms by (induction rows) (auto simp: find_row_def)

lemma put_row_keys [simp]: "map k (put_row k r rows) = map k rows"
  by (simp add: put_row_def)

lemma put_row_length [simp]: "length (put_row k r rows) = length rows"
  by (simp add: put_row_def)

lemma put_row_Nil [simp]: "put_row k r rows = [] \<longleftrightarrow> rows = []"
  by (simp add: put_row_def)

lemma set_put_row: "set (put_row k r rows) \<subseteq> insert r (set rows)"
  by (auto simp: put_row_def)

lemma in_put_rowD: "x \<in> set (put_row k r rows) \<Longrightarrow> x = r \<or> x \<in> set rows \<and> k x \<noteq> k r"
  by (auto simp: put_row_def split: if_splits)

lemma put_row_all:
  "\<lbrakk>\<forall>x \<in> set rows. P x; P r\<rbrakk> \<Longrightarrow> \<forall>x \<in> set (put_row k r rows). P x"
  by (auto dest: in_put_rowD)

lemma find_row_put [table_simps]:
  "find_row k i (put_row k r rows) =
     (if i = k r then map_option (\<lambda>_. r) (find_row k i rows) else find_row k i rows)"
  by (induction rows) (auto simp: find_row_def put_row_def)

lemma find_row_append [table_simps]:
  "find_row k i (xs @ ys) =
     (case find_row k i xs of None \<Rightarrow> find_row k i ys | Some r \<Rightarrow> Some r)"
  by (induction xs) (auto simp: find_row_def)

text \<open>
  Replacing a row changes a sum over the table by the difference of that row's contribution,
  provided keys are unique.
\<close>

lemma put_row_id:
  "\<forall>x \<in> set rows. k x \<noteq> k r \<Longrightarrow> put_row k r rows = rows"
  by (simp add: put_row_def map_idI)

lemma sum_put_row:
  fixes f :: "'r \<Rightarrow> 'a::ab_group_add"
  assumes "distinct (map k rows)" and "find_row k (k r) rows = Some old"
  shows "sum_list (map f (put_row k r rows)) = sum_list (map f rows) + (f r - f old)"
  using assms
proof (induction rows)
  case Nil
  then show ?case by (simp add: find_row_def)
next
  case (Cons x xs)
  show ?case
  proof (cases "k x = k r")
    case True
    with Cons.prems have "old = x" by (simp add: find_row_def)
    moreover have "put_row k r xs = xs"
      using Cons.prems True by (intro put_row_id ballI) (auto simp: image_iff)
    ultimately show ?thesis using True by (simp add: put_row_def)
  next
    case False
    with Cons.prems have "find_row k (k r) xs = Some old" by (simp add: find_row_def)
    with Cons False show ?thesis by (simp add: put_row_def)
  qed
qed

section \<open>Decimal digits\<close>

definition digit_char :: "nat \<Rightarrow> char" where
  "digit_char d = char_of (48 + d)"

definition digit_val :: "char \<Rightarrow> nat" where
  "digit_val c = of_char c - 48"

definition is_digit :: "char \<Rightarrow> bool" where
  "is_digit c = (48 \<le> (of_char c :: nat) \<and> (of_char c :: nat) \<le> 57)"

lemma is_digit_digit_char [simp]: "d < 10 \<Longrightarrow> is_digit (digit_char d)"
  by (simp add: is_digit_def digit_char_def)

lemma digit_val_digit_char [simp]: "d < 10 \<Longrightarrow> digit_val (digit_char d) = d"
  by (simp add: digit_val_def digit_char_def)

fun string_of_nat :: "nat \<Rightarrow> string" where
  "string_of_nat n =
     (if n < 10 then [digit_char n]
      else string_of_nat (n div 10) @ [digit_char (n mod 10)])"

declare string_of_nat.simps [simp del]

definition nat_of_digits :: "string \<Rightarrow> nat" where
  "nat_of_digits s = foldl (\<lambda>a c. 10 * a + digit_val c) 0 s"

definition string_of_int :: "int \<Rightarrow> string" where
  "string_of_int i = (if i < 0 then CHR ''-'' # string_of_nat (nat (- i)) else string_of_nat (nat i))"

lemma string_of_nat_nonempty [simp]: "string_of_nat n \<noteq> []"
  by (subst string_of_nat.simps) simp

lemma string_of_nat_digits: "list_all is_digit (string_of_nat n)"
proof (induction n rule: string_of_nat.induct)
  case (1 n)
  then show ?case by (subst string_of_nat.simps) simp
qed

lemma nat_of_digits_snoc: "nat_of_digits (s @ [c]) = 10 * nat_of_digits s + digit_val c"
  by (simp add: nat_of_digits_def)

lemma nat_of_digits_string_of_nat [simp]: "nat_of_digits (string_of_nat n) = n"
proof (induction n rule: string_of_nat.induct)
  case (1 n)
  show ?case
  proof (cases "n < 10")
    case True
    then show ?thesis by (subst string_of_nat.simps) (simp add: nat_of_digits_def)
  next
    case False
    with 1 show ?thesis
      by (subst string_of_nat.simps) (simp add: nat_of_digits_snoc)
  qed
qed

lemma string_of_nat_inject [simp]: "string_of_nat m = string_of_nat n \<longleftrightarrow> m = n"
  by (metis nat_of_digits_string_of_nat)

lemma string_of_nat_less_10: "n < 10 \<Longrightarrow> string_of_nat n = [digit_char n]"
  by (subst string_of_nat.simps) simp

lemma digit_chars:
  "digit_char 0 = CHR ''0''" "digit_char (Suc 0) = CHR ''1''" "digit_char 2 = CHR ''2''"
  "digit_char 3 = CHR ''3''" "digit_char 4 = CHR ''4''" "digit_char 5 = CHR ''5''" "digit_char 6 = CHR ''6''"
  "digit_char 7 = CHR ''7''" "digit_char 8 = CHR ''8''" "digit_char 9 = CHR ''9''"
  by code_simp+

lemma nat_of_digits_append:
  "nat_of_digits (s @ t) = nat_of_digits s * 10 ^ length t + nat_of_digits t"
proof (induction t rule: rev_induct)
  case Nil
  then show ?case by (simp add: nat_of_digits_def)
next
  case (snoc c t)
  have "nat_of_digits (s @ t @ [c]) = 10 * nat_of_digits (s @ t) + digit_val c"
    using nat_of_digits_snoc [of "s @ t" c] by simp
  with snoc show ?case by (simp add: nat_of_digits_snoc algebra_simps)
qed

lemma nat_of_digits_zeros [simp]: "nat_of_digits (replicate n (CHR ''0'')) = 0"
  by (induction n rule: nat.induct)
    (simp_all add: nat_of_digits_def digit_val_def flip: replicate_append_same)

lemma length_string_of_nat: "n < 10 ^ k \<Longrightarrow> 0 < k \<Longrightarrow> length (string_of_nat n) \<le> k"
proof (induction n arbitrary: k rule: string_of_nat.induct)
  case (1 n)
  show ?case
  proof (cases "n < 10")
    case True
    with "1.prems" show ?thesis by (simp add: string_of_nat_less_10)
  next
    case False
    have "k \<noteq> 1" using "1.prems" False by auto
    with "1.prems" obtain j where j: "k = Suc j" "0 < j" by (cases k) auto
    with "1.prems" have "n div 10 < 10 ^ j" by (simp add: less_mult_imp_div_less mult.commute)
    with 1 False j have "length (string_of_nat (n div 10)) \<le> j" by simp
    with False j show ?thesis by (subst string_of_nat.simps) simp
  qed
qed

section \<open>Invariants of runs\<close>

text \<open>
  A deterministic machine steps from a state under an input. What one step keeps, every run
  keeps; what one step can only move upwards in a preorder, every run moves upwards.
\<close>

locale step_machine =
  fixes step :: "'s \<Rightarrow> 'i \<Rightarrow> 's"
    and good :: "'s \<Rightarrow> bool"
    and below :: "'s \<Rightarrow> 's \<Rightarrow> bool"
  assumes step_good: "good s \<Longrightarrow> good (step s i)"
    and step_below: "good s \<Longrightarrow> below s (step s i)"
    and below_refl: "below s s"
    and below_trans: "below s t \<Longrightarrow> below t u \<Longrightarrow> below s u"
begin

lemma run_good: "good s \<Longrightarrow> good (foldl step s is)"
  by (induction "is" arbitrary: s) (auto intro: step_good)

lemma run_below: "good s \<Longrightarrow> below s (foldl step s is)"
proof (induction "is" arbitrary: s)
  case Nil
  show ?case by (simp add: below_refl)
next
  case (Cons i "is")
  then have "below (step s i) (foldl step (step s i) is)" by (simp add: step_good)
  with Cons.prems show ?case by (auto intro: below_trans step_below)
qed

lemma run_below_append: "good s \<Longrightarrow> below (foldl step s is) (foldl step s (is @ js))"
  by (simp add: run_below run_good)

end

end
