(* ===== verification/PyValues.thy ===== *)
theory PyValues
  imports Prelude
begin

text \<open>
  The Python values the program exchanges over HTTP and the standard-library conversions it
  applies to them: JSON values, \<^verbatim>\<open>dict.get\<close>, \<^verbatim>\<open>str\<close>,
  \<^verbatim>\<open>int(text)\<close>, \<^verbatim>\<open>Decimal(text)\<close>,
  \<^verbatim>\<open>Decimal.quantize(CENT, ROUND_HALF_UP)\<close> and fixed-point formatting.
  Text is a list of characters with code points below 256. A decimal is its exact rational
  value (negative zero is zero); a float is carried as the text Python prints for it, because
  the program only ever refuses floats or prints them. The main result is that a quantized
  amount survives being printed and parsed again.
\<close>

section \<open>JSON values\<close>

datatype json =
    JNull
  | JBool bool
  | JInt int
  | JFloat string
  | JStr string
  | JList "json list"
  | JObj "(string \<times> json) list"

text \<open>\<^verbatim>\<open>value.get(key)\<close> of a mapping, \<^verbatim>\<open>None\<close> when the key is absent.\<close>

fun jget :: "string \<Rightarrow> json \<Rightarrow> json" where
  "jget k (JObj m) = (case map_of m k of None \<Rightarrow> JNull | Some v \<Rightarrow> v)"
| "jget k _ = JNull"

text \<open>\<^verbatim>\<open>value.get(key, default)\<close>.\<close>

fun jget_default :: "string \<Rightarrow> json \<Rightarrow> json \<Rightarrow> json" where
  "jget_default k d (JObj m) = (case map_of m k of None \<Rightarrow> d | Some v \<Rightarrow> v)"
| "jget_default k d _ = d"

fun is_obj :: "json \<Rightarrow> bool" where
  "is_obj (JObj _) = True"
| "is_obj _ = False"

fun py_truthy :: "json \<Rightarrow> bool" where
  "py_truthy JNull = False"
| "py_truthy (JBool b) = b"
| "py_truthy (JInt i) = (i \<noteq> 0)"
| "py_truthy (JFloat t) = (t \<noteq> ''0.0'' \<and> t \<noteq> ''-0.0'')"
| "py_truthy (JStr s) = (s \<noteq> [])"
| "py_truthy (JList xs) = (xs \<noteq> [])"
| "py_truthy (JObj m) = (m \<noteq> [])"

text \<open>
  \<^verbatim>\<open>repr\<close> and \<^verbatim>\<open>str\<close>. A text is quoted with single quotes, or with
  double quotes when it holds a single quote and no double quote.
\<close>

definition quote_char :: "string \<Rightarrow> char" where
  "quote_char s = (if CHR 0x27 \<in> set s \<and> CHR 0x22 \<notin> set s then CHR 0x22 else CHR 0x27)"

definition hex_digit :: "nat \<Rightarrow> char" where
  "hex_digit d = (if d < 10 then char_of (48 + d) else char_of (87 + d))"

definition repr_char :: "char \<Rightarrow> char \<Rightarrow> string" where
  "repr_char q c =
     (let n = (of_char c :: nat) in
      if c = q \<or> n = 92 then [CHR 0x5C, c]
      else if n = 10 then [CHR 0x5C, CHR ''n'']
      else if n = 13 then [CHR 0x5C, CHR ''r'']
      else if n = 9 then [CHR 0x5C, CHR ''t'']
      else if n < 32 \<or> (127 \<le> n \<and> n \<le> 160) \<or> n = 173
        then [CHR 0x5C, CHR ''x'', hex_digit (n div 16), hex_digit (n mod 16)]
      else [c])"

definition repr_text :: "string \<Rightarrow> string" where
  "repr_text s = (let q = quote_char s in [q] @ concat (map (repr_char q) s) @ [q])"

fun join_text :: "string \<Rightarrow> string list \<Rightarrow> string" where
  "join_text sep [] = []"
| "join_text sep [s] = s"
| "join_text sep (s # ss) = s @ sep @ join_text sep ss"

fun py_repr :: "json \<Rightarrow> string" where
  "py_repr JNull = ''None''"
| "py_repr (JBool b) = (if b then ''True'' else ''False'')"
| "py_repr (JInt i) = string_of_int i"
| "py_repr (JFloat t) = t"
| "py_repr (JStr s) = repr_text s"
| "py_repr (JList xs) = ''['' @ join_text '', '' (map py_repr xs) @ '']''"
| "py_repr (JObj m) =
     ''{'' @ join_text '', '' (map (\<lambda>(k, v). repr_text k @ '': '' @ py_repr v) m) @ ''}''"

fun py_str :: "json \<Rightarrow> string" where
  "py_str (JStr s) = s"
| "py_str v = py_repr v"

section \<open>Text to numbers\<close>

definition is_space :: "char \<Rightarrow> bool" where
  "is_space c = (let n = (of_char c :: nat) in
     (9 \<le> n \<and> n \<le> 13) \<or> (28 \<le> n \<and> n \<le> 32) \<or> n = 133 \<or> n = 160)"

definition strip :: "string \<Rightarrow> string" where
  "strip s = rev (dropWhile is_space (rev (dropWhile is_space s)))"

definition take_sign :: "string \<Rightarrow> bool \<times> string" where
  "take_sign s = (case s of
       c # cs \<Rightarrow> (if c = CHR ''-'' then (True, cs) else if c = CHR ''+'' then (False, cs) else (False, s))
     | [] \<Rightarrow> (False, []))"

text \<open>Digits with single underscores between them, as \<^verbatim>\<open>int(text)\<close> accepts.\<close>

fun int_body :: "string \<Rightarrow> bool" where
  "int_body [] = False"
| "int_body [c] = is_digit c"
| "int_body (c # d # cs) =
     (is_digit c \<and> (if d = CHR ''_'' then int_body cs else int_body (d # cs)))"

definition parse_int :: "string \<Rightarrow> int option" where
  "parse_int s =
     (let (neg, body) = take_sign (strip s);
          n = int (nat_of_digits (filter (\<lambda>c. c \<noteq> CHR ''_'') body))
      in if int_body body then Some (if neg then - n else n) else None)"

datatype pydec = DFin rat | DInf bool | DNan | DSNan

definition pow10 :: "int \<Rightarrow> rat" where
  "pow10 e = (if 0 \<le> e then 10 ^ nat e else 1 / 10 ^ nat (- e))"

definition lower_char :: "char \<Rightarrow> char" where
  "lower_char c = (let n = (of_char c :: nat) in if 65 \<le> n \<and> n \<le> 90 then char_of (n + 32) else c)"

definition parse_exponent :: "string \<Rightarrow> int option" where
  "parse_exponent r = (case r of
       [] \<Rightarrow> Some 0
     | e # cs \<Rightarrow>
         (let (neg, body) = take_sign cs; n = int (nat_of_digits body) in
          if lower_char e = CHR ''e'' \<and> body \<noteq> [] \<and> list_all is_digit body
          then Some (if neg then - n else n) else None))"

definition parse_finite :: "bool \<Rightarrow> string \<Rightarrow> rat option" where
  "parse_finite neg body =
     (let ip = takeWhile is_digit body; r1 = dropWhile is_digit body;
          dot = (r1 \<noteq> [] \<and> hd r1 = CHR ''.'');
          fp = (if dot then takeWhile is_digit (tl r1) else []);
          r2 = (if dot then dropWhile is_digit (tl r1) else r1)
      in if ip = [] \<and> fp = [] then None
         else map_option (\<lambda>e.
                (if neg then - 1 else 1) * of_nat (nat_of_digits (ip @ fp)) * pow10 (e - int (length fp)))
              (parse_exponent r2))"

definition parse_decimal :: "string \<Rightarrow> pydec option" where
  "parse_decimal s =
     (let (neg, body) = take_sign (filter (\<lambda>c. c \<noteq> CHR ''_'') (strip s));
          low = map lower_char body;
          word = takeWhile (\<lambda>c. \<not> is_digit c) low;
          payload = dropWhile (\<lambda>c. \<not> is_digit c) low
      in if low = ''inf'' \<or> low = ''infinity'' then Some (DInf neg)
         else if word = ''nan'' \<and> list_all is_digit payload then Some DNan
         else if word = ''snan'' \<and> list_all is_digit payload then Some DSNan
         else map_option DFin (parse_finite neg body))"

section \<open>Rounding and printing amounts\<close>

text \<open>\<^verbatim>\<open>quantize(CENT, ROUND_HALF_UP)\<close>: halves are rounded away from zero.\<close>

definition cents_of :: "rat \<Rightarrow> int" where
  "cents_of x = (if x < 0 then - \<lfloor>- x * 100 + 1 / 2\<rfloor> else \<lfloor>x * 100 + 1 / 2\<rfloor>)"

definition quantize :: "rat \<Rightarrow> rat" where
  "quantize x = of_int (cents_of x) / 100"

definition is_cents :: "rat \<Rightarrow> bool" where
  "is_cents x = (quantize x = x)"

text \<open>
  \<^verbatim>\<open>quantize\<close> raises \<^verbatim>\<open>InvalidOperation\<close> when the result needs more than
  the 28 digits of the default context.
\<close>

definition quantize_checked :: "rat \<Rightarrow> rat option" where
  "quantize_checked x = (if \<bar>cents_of x\<bar> < 10 ^ 28 then Some (quantize x) else None)"

definition padded :: "nat \<Rightarrow> nat \<Rightarrow> string" where
  "padded n m = replicate (n - length (string_of_nat m)) (CHR ''0'') @ string_of_nat m"

text \<open>A coefficient printed with \<open>n\<close> decimal places.\<close>

definition fixed_text :: "nat \<Rightarrow> int \<Rightarrow> string" where
  "fixed_text n c =
     (if c < 0 then ''-'' else []) @ string_of_nat (nat \<bar>c\<bar> div 10 ^ n)
       @ (if n = 0 then [] else CHR ''.'' # padded n (nat \<bar>c\<bar> mod 10 ^ n))"

definition amount_text :: "rat \<Rightarrow> string" where
  "amount_text x = fixed_text 2 (cents_of x)"

section \<open>Facts about cents\<close>

lemma cents_of_of_int [simp]: "cents_of (of_int c / 100) = c"
proof -
  have "\<lfloor>(of_int c :: rat) + 1 / 2\<rfloor> = c" and "\<lfloor>(- of_int c :: rat) + 1 / 2\<rfloor> = - c"
    by linarith+
  then show ?thesis by (simp add: cents_of_def field_simps)
qed

lemma cents_of_int: "cents_of (of_int k) = k * 100"
proof -
  have "(of_int k :: rat) = of_int (k * 100) / 100" by simp
  then show ?thesis by (simp only: cents_of_of_int)
qed

lemma cents_of_numeral: "cents_of (numeral n) = numeral n * 100" "cents_of 0 = 0"
  using cents_of_int [of "numeral n"] cents_of_int [of 0] by simp_all

lemma quantize_numeral: "quantize (numeral n) = numeral n" "quantize 0 = 0"
  by (simp_all add: quantize_def cents_of_numeral)

lemma quantize_quantize [simp]: "quantize (quantize x) = quantize x"
  by (simp add: quantize_def)

lemma is_cents_quantize [simp, intro]: "is_cents (quantize x)"
  by (simp add: is_cents_def)

lemma is_cents_iff: "is_cents x \<longleftrightarrow> (\<exists>c. x = of_int c / 100)"
proof
  show "is_cents x \<Longrightarrow> \<exists>c. x = of_int c / 100"
    unfolding is_cents_def quantize_def by metis
  show "\<exists>c. x = of_int c / 100 \<Longrightarrow> is_cents x"
    by (auto simp only: is_cents_def quantize_def cents_of_of_int)
qed

lemma is_cents_cents_of: "is_cents x \<Longrightarrow> of_int (cents_of x) / 100 = x"
  by (simp add: is_cents_def quantize_def)

lemma quantize_cents [simp]: "is_cents x \<Longrightarrow> quantize x = x"
  by (simp add: is_cents_def)

lemma is_cents_0 [simp, intro]: "is_cents 0"
  unfolding is_cents_iff by (rule exI [of _ 0]) simp

lemma is_cents_add [simp, intro]: "\<lbrakk>is_cents x; is_cents y\<rbrakk> \<Longrightarrow> is_cents (x + y)"
  unfolding is_cents_iff by (auto simp: add_divide_distrib [symmetric] simp flip: of_int_add)

lemma is_cents_diff [simp, intro]: "\<lbrakk>is_cents x; is_cents y\<rbrakk> \<Longrightarrow> is_cents (x - y)"
  unfolding is_cents_iff by (auto simp: diff_divide_distrib [symmetric] simp flip: of_int_diff)

lemma is_cents_min [simp, intro]: "\<lbrakk>is_cents x; is_cents y\<rbrakk> \<Longrightarrow> is_cents (min x y)"
  by (simp add: min_def)

lemma is_cents_cent [simp, intro]: "is_cents (1 / 100)"
  unfolding is_cents_iff by (rule exI [of _ 1]) simp

lemma quantize_half_up:
  assumes "0 \<le> x"
  shows "quantize x - 1 / 200 \<le> x \<and> x < quantize x + 1 / 200"
proof -
  have "of_int \<lfloor>x * 100 + 1 / 2\<rfloor> \<le> x * 100 + 1 / 2" and "x * 100 + 1 / 2 < of_int \<lfloor>x * 100 + 1 / 2\<rfloor> + 1"
    by linarith+
  with assms show ?thesis by (simp add: quantize_def cents_of_def field_simps)
qed

lemma quantize_nonneg: "0 \<le> x \<Longrightarrow> 0 \<le> quantize x"
  by (simp add: quantize_def cents_of_def)

section \<open>Printing and parsing round trip\<close>

lemma takeWhile_digits:
  "\<lbrakk>list_all is_digit s; r = [] \<or> \<not> is_digit (hd r)\<rbrakk> \<Longrightarrow> takeWhile is_digit (s @ r) = s"
  "\<lbrakk>list_all is_digit s; r = [] \<or> \<not> is_digit (hd r)\<rbrakk> \<Longrightarrow> dropWhile is_digit (s @ r) = r"
  by (induction s; cases r; simp)+

lemma not_digit_chars [simp]:
  "\<not> is_digit (CHR ''.'')" "\<not> is_digit (CHR ''-'')" "\<not> is_digit (CHR ''_'')" "\<not> is_digit (CHR ''+'')"
  "is_digit (CHR ''0'')"
  by (simp_all add: is_digit_def)

lemma minus_not_space [simp]: "\<not> is_space (CHR ''-'')"
  by (simp add: is_space_def)

lemma digit_not_space: "is_digit c \<Longrightarrow> \<not> is_space c"
  by (auto simp: is_digit_def is_space_def Let_def)

lemma padded_digits [simp]: "list_all is_digit (padded n m)"
  by (auto simp: padded_def list_all_iff string_of_nat_digits [unfolded list_all_iff, rule_format])

lemma padded_length: "m < 10 ^ n \<Longrightarrow> 0 < n \<Longrightarrow> length (padded n m) = n"
  using length_string_of_nat [of m n] by (simp add: padded_def)

lemma padded_value [simp]: "nat_of_digits (padded n m) = m"
  by (simp add: padded_def nat_of_digits_append)

lemma strip_id:
  assumes "s \<noteq> []" and "\<not> is_space (hd s)" and "\<not> is_space (last s)"
  shows "strip s = s"
proof -
  have "dropWhile is_space s = s" using assms(1,2) by (cases s) auto
  moreover have "dropWhile is_space (rev s) = rev s"
    using assms(1,3) by (cases s rule: rev_cases) auto
  ultimately show ?thesis by (simp add: strip_def)
qed

lemma list_all_hdD: "\<lbrakk>list_all P s; s \<noteq> []\<rbrakk> \<Longrightarrow> P (hd s)"
  and list_all_lastD: "\<lbrakk>list_all P s; s \<noteq> []\<rbrakk> \<Longrightarrow> P (last s)"
  by (simp_all add: list_all_iff)

lemma filter_digits: "list_all is_digit s \<Longrightarrow> filter (\<lambda>c. c \<noteq> CHR ''_'') s = s"
  by (rule filter_True) (auto simp: list_all_iff is_digit_def)

lemma parse_finite_fixed:
  assumes ip: "list_all is_digit ip" "ip \<noteq> []" and fp: "list_all is_digit fp"
  shows "parse_finite neg (ip @ CHR ''.'' # fp) =
    Some ((if neg then - 1 else 1) * of_nat (nat_of_digits (ip @ fp)) * pow10 (- int (length fp)))"
proof -
  have 1: "takeWhile is_digit (ip @ CHR ''.'' # fp) = ip" "dropWhile is_digit (ip @ CHR ''.'' # fp) = CHR ''.'' # fp"
    using ip by (simp_all add: takeWhile_digits)
  have 2: "takeWhile is_digit fp = fp" "dropWhile is_digit fp = []"
    using takeWhile_digits [OF fp, of "[]"] by simp_all
  show ?thesis using ip by (simp add: parse_finite_def 1 2 parse_exponent_def Let_def)
qed

lemma lower_digit_hd:
  assumes "is_digit c"
  shows "is_digit (lower_char c)" and "lower_char c \<noteq> CHR ''i''"
  using assms by (auto simp: is_digit_def lower_char_def Let_def)

lemma parse_decimal_digits:
  assumes "list_all is_digit ip" "ip \<noteq> []" and body: "body = ip @ CHR ''.'' # fp" and "list_all is_digit fp" "fp \<noteq> []"
  shows "parse_decimal ((if neg then ''-'' else []) @ body) = map_option DFin (parse_finite neg body)"
proof -
  let ?s = "(if neg then ''-'' else []) @ body"
  have hd: "is_digit (hd body)" and last: "is_digit (last body)"
    using assms by (auto simp: hd_append list_all_hdD list_all_lastD)
  have ne: "body \<noteq> []" using body by simp
  have "strip ?s = ?s"
    using hd last ne by (intro strip_id) (auto simp: digit_not_space)
  moreover have "filter (\<lambda>c. c \<noteq> CHR ''_'') body = body"
    using assms by (simp add: filter_digits)
  moreover have "take_sign ?s = (neg, body)"
    using hd ne by (cases body) (auto simp: take_sign_def is_digit_def)
  moreover obtain c cs where "body = c # cs" "is_digit c" using hd ne by (cases body) auto
  ultimately show ?thesis
    by (auto simp: parse_decimal_def Let_def lower_digit_hd split: prod.splits)
qed

lemma parse_fixed_text:
  assumes "0 < n"
  shows "parse_decimal (fixed_text n c) = Some (DFin (of_int c / 10 ^ n))"
proof -
  let ?a = "nat \<bar>c\<bar>"
  let ?ip = "string_of_nat (?a div 10 ^ n)" and ?fp = "padded n (?a mod 10 ^ n)"
  have len: "length ?fp = n" using assms by (intro padded_length) simp_all
  then have ne: "?fp \<noteq> []" using assms by auto
  have "nat_of_digits (?ip @ ?fp) = ?a"
    by (simp add: nat_of_digits_append len mult.commute)
  then have "parse_finite (c < 0) (?ip @ CHR ''.'' # ?fp) =
      Some ((if c < 0 then - 1 else 1) * of_nat ?a * pow10 (- int n))"
    by (simp add: parse_finite_fixed string_of_nat_digits len)
  also have "(if c < 0 then - 1 else 1) * of_nat ?a * pow10 (- int n) = of_int c / (10 ^ n :: rat)"
    using assms by (simp add: pow10_def of_nat_nat)
  finally show ?thesis
    using assms ne parse_decimal_digits [of ?ip _ ?fp "c < 0"]
    by (simp add: fixed_text_def string_of_nat_digits)
qed

lemma parse_amount_text: "parse_decimal (amount_text x) = Some (DFin (quantize x))"
  by (simp add: amount_text_def parse_fixed_text quantize_def)

lemma parse_int_string_of_int [simp]: "parse_int (string_of_int i) = Some i"
proof -
  have body: "int_body s" if "list_all is_digit s" "s \<noteq> []" for s
    using that by (induction s rule: int_body.induct) (auto simp: is_digit_def)
  have digs: "list_all is_digit (string_of_nat n)" for n by (rule string_of_nat_digits)
  have hd: "is_digit (hd (string_of_nat n))" "is_digit (last (string_of_nat n))" for n
    by (simp_all add: list_all_hdD list_all_lastD digs)
  have strip: "strip (string_of_nat n) = string_of_nat n"
    "strip (CHR ''-'' # string_of_nat n) = CHR ''-'' # string_of_nat n" for n
    using hd by (auto intro!: strip_id simp: digit_not_space)
  have sign: "take_sign (string_of_nat n) = (False, string_of_nat n)" for n
    using hd(1) [of n] by (cases "string_of_nat n") (auto simp: take_sign_def is_digit_def)
  have neg: "take_sign (CHR ''-'' # s) = (True, s)" for s by (simp add: take_sign_def)
  show ?thesis
    by (simp add: parse_int_def string_of_int_def strip sign neg body digs filter_digits)
qed

end
