(* ===== verification/Contracts.thy ===== *)
theory Contracts
  imports PyValues
begin

text \<open>
  The closed vocabularies and value types shared by every package
  (\<^verbatim>\<open>packages/domain_contracts\<close> and \<^verbatim>\<open>packages/policy_schema\<close>):
  action types, defect axes and the scenarios they are reachable in, business event types,
  money, the rules of a frozen RuleSpec and the validators Pydantic runs on them.
\<close>

section \<open>Enumerations\<close>

datatype currency = CNY | USD

datatype scenario_type = PROMOTION | REFUND_POINTS | MEMBERSHIP_ENTITLEMENT

datatype action_type =
    CREATE_USER | ISSUE_COUPON | CREATE_ORDER | APPLY_COUPON | PAY_ORDER | CANCEL_ORDER
  | REFUND_ORDER | REDEEM_POINTS | ACTIVATE_MEMBERSHIP | CONSUME_ENTITLEMENT
  | CANCEL_MEMBERSHIP | INSPECT_STATE

datatype action_status = SUCCEEDED | REJECTED | UNKNOWN_STATUS

datatype defect_axis =
    COUPON_RESTORED_ON_REFUND | REFUND_AGAINST_ORIGINAL | REFUND_ACK_LOST
  | POINTS_GRANTED_AGAIN_ON_REFUND | POINTS_OVERREDEMPTION
  | FULL_REFUND_AFTER_CONSUMPTION | ENTITLEMENT_LEFT_AFTER_REFUND | ENTITLEMENT_OVERCONSUMPTION

datatype business_event =
    USER_CREATED | COUPON_ISSUED | COUPON_RESERVED | COUPON_USED | COUPON_RESTORED
  | ORDER_CREATED | PAYMENT_CAPTURED | ORDER_CANCELLED | REFUND_ISSUED | POINTS_GRANTED
  | POINTS_REVOKED | POINTS_REDEEMED | MEMBERSHIP_ACTIVATED | ENTITLEMENT_GRANTED
  | ENTITLEMENT_CONSUMED | ENTITLEMENT_REVOKED | MEMBERSHIP_CANCELLED | MEMBERSHIP_REFUNDED

fun currency_name :: "currency \<Rightarrow> string" where
  "currency_name CNY = ''CNY''"
| "currency_name USD = ''USD''"

definition currency_of :: "string \<Rightarrow> currency option" where
  "currency_of s = (if s = ''CNY'' then Some CNY else if s = ''USD'' then Some USD else None)"

lemma currency_of_name [simp]: "currency_of (currency_name c) = Some c"
  by (cases c) (simp_all add: currency_of_def)

fun scenario_name :: "scenario_type \<Rightarrow> string" where
  "scenario_name PROMOTION = ''PROMOTION''"
| "scenario_name REFUND_POINTS = ''REFUND_POINTS''"
| "scenario_name MEMBERSHIP_ENTITLEMENT = ''MEMBERSHIP_ENTITLEMENT''"

text \<open>\<^verbatim>\<open>ActionType(...).value\<close>; the sandbox's \<^verbatim>\<open>ActionName\<close> is its lower case.\<close>

fun action_name :: "action_type \<Rightarrow> string" where
  "action_name CREATE_USER = ''CREATE_USER''"
| "action_name ISSUE_COUPON = ''ISSUE_COUPON''"
| "action_name CREATE_ORDER = ''CREATE_ORDER''"
| "action_name APPLY_COUPON = ''APPLY_COUPON''"
| "action_name PAY_ORDER = ''PAY_ORDER''"
| "action_name CANCEL_ORDER = ''CANCEL_ORDER''"
| "action_name REFUND_ORDER = ''REFUND_ORDER''"
| "action_name REDEEM_POINTS = ''REDEEM_POINTS''"
| "action_name ACTIVATE_MEMBERSHIP = ''ACTIVATE_MEMBERSHIP''"
| "action_name CONSUME_ENTITLEMENT = ''CONSUME_ENTITLEMENT''"
| "action_name CANCEL_MEMBERSHIP = ''CANCEL_MEMBERSHIP''"
| "action_name INSPECT_STATE = ''INSPECT_STATE''"

fun status_name :: "action_status \<Rightarrow> string" where
  "status_name SUCCEEDED = ''SUCCEEDED''"
| "status_name REJECTED = ''REJECTED''"
| "status_name UNKNOWN_STATUS = ''UNKNOWN''"

fun event_name :: "business_event \<Rightarrow> string" where
  "event_name USER_CREATED = ''USER_CREATED''"
| "event_name COUPON_ISSUED = ''COUPON_ISSUED''"
| "event_name COUPON_RESERVED = ''COUPON_RESERVED''"
| "event_name COUPON_USED = ''COUPON_USED''"
| "event_name COUPON_RESTORED = ''COUPON_RESTORED''"
| "event_name ORDER_CREATED = ''ORDER_CREATED''"
| "event_name PAYMENT_CAPTURED = ''PAYMENT_CAPTURED''"
| "event_name ORDER_CANCELLED = ''ORDER_CANCELLED''"
| "event_name REFUND_ISSUED = ''REFUND_ISSUED''"
| "event_name POINTS_GRANTED = ''POINTS_GRANTED''"
| "event_name POINTS_REVOKED = ''POINTS_REVOKED''"
| "event_name POINTS_REDEEMED = ''POINTS_REDEEMED''"
| "event_name MEMBERSHIP_ACTIVATED = ''MEMBERSHIP_ACTIVATED''"
| "event_name ENTITLEMENT_GRANTED = ''ENTITLEMENT_GRANTED''"
| "event_name ENTITLEMENT_CONSUMED = ''ENTITLEMENT_CONSUMED''"
| "event_name ENTITLEMENT_REVOKED = ''ENTITLEMENT_REVOKED''"
| "event_name MEMBERSHIP_CANCELLED = ''MEMBERSHIP_CANCELLED''"
| "event_name MEMBERSHIP_REFUNDED = ''MEMBERSHIP_REFUNDED''"

text \<open>Which defects a scenario's flows can reach, and what a request may therefore not name.\<close>

fun axes_by_scenario :: "scenario_type \<Rightarrow> defect_axis list" where
  "axes_by_scenario PROMOTION =
     [COUPON_RESTORED_ON_REFUND, REFUND_AGAINST_ORIGINAL, REFUND_ACK_LOST]"
| "axes_by_scenario REFUND_POINTS =
     [POINTS_GRANTED_AGAIN_ON_REFUND, POINTS_OVERREDEMPTION, REFUND_ACK_LOST]"
| "axes_by_scenario MEMBERSHIP_ENTITLEMENT =
     [FULL_REFUND_AFTER_CONSUMPTION, ENTITLEMENT_LEFT_AFTER_REFUND, ENTITLEMENT_OVERCONSUMPTION]"

definition unreachable_axes :: "scenario_type \<Rightarrow> defect_axis list \<Rightarrow> defect_axis set" where
  "unreachable_axes scenario axes =
     set (filter (\<lambda>a. a \<notin> set (axes_by_scenario scenario)) axes)"

definition transport_defect_axes :: "defect_axis set" where
  "transport_defect_axes = {REFUND_ACK_LOST}"

section \<open>Money\<close>

text \<open>
  \<open>m_scale\<close> is the number of decimal places the amount was written with; it only matters
  when the amount is printed.
\<close>

record money =
  m_currency :: currency
  m_amount :: rat
  m_scale :: nat

text \<open>\<^verbatim>\<open>MoneyAmount\<close>: not negative, at most 18 digits of which 4 are decimals.\<close>

definition money_valid :: "money \<Rightarrow> bool" where
  "money_valid m \<longleftrightarrow> 0 \<le> m_amount m \<and> m_amount m < 10 ^ 14
     \<and> m_amount m * 10 ^ 4 = of_int \<lfloor>m_amount m * 10 ^ 4\<rfloor>"

definition money_text :: "money \<Rightarrow> string" where
  "money_text m = fixed_text (m_scale m) \<lfloor>m_amount m * 10 ^ m_scale m\<rfloor>"

section \<open>Rules\<close>

record promotion_rule =
  minimum_order_amount :: money
  discount_amount :: money
  new_users_only :: bool
  restore_on_full_refund :: bool

record refund_rule =
  allow_partial_refund :: bool
  maximum_refunds_per_order :: int

record points_rule =
  spend_amount :: money
  rule_points_granted :: int
  revoke_on_refund :: bool

datatype refund_policy = UNUSED_ONLY | PRORATED | NON_REFUNDABLE

record membership_rule =
  price :: money
  entitlement_quantity :: int
  rule_refund_policy :: refund_policy

datatype rule =
    PromotionRule promotion_rule
  | RefundRule refund_rule
  | PointsRule points_rule
  | MembershipRule membership_rule

datatype rule_kind = KPromotion | KRefund | KPoints | KMembership

fun kind_of_rule :: "rule \<Rightarrow> rule_kind" where
  "kind_of_rule (PromotionRule _) = KPromotion"
| "kind_of_rule (RefundRule _) = KRefund"
| "kind_of_rule (PointsRule _) = KPoints"
| "kind_of_rule (MembershipRule _) = KMembership"

text \<open>The field constraints and model validators of the four rule classes.\<close>

fun rule_valid :: "rule \<Rightarrow> bool" where
  "rule_valid (PromotionRule r) \<longleftrightarrow>
     money_valid (minimum_order_amount r) \<and> money_valid (discount_amount r)
     \<and> m_currency (minimum_order_amount r) = m_currency (discount_amount r)"
| "rule_valid (RefundRule r) \<longleftrightarrow> 1 \<le> maximum_refunds_per_order r"
| "rule_valid (PointsRule r) \<longleftrightarrow>
     money_valid (spend_amount r) \<and> 0 < m_amount (spend_amount r) \<and> 0 \<le> rule_points_granted r"
| "rule_valid (MembershipRule r) \<longleftrightarrow>
     money_valid (price r) \<and> 0 < m_amount (price r) \<and> 1 \<le> entitlement_quantity r"

record participant =
  participant_id :: string
  participant_is_system :: bool

datatype asset_kind = BALANCE | COUPON | POINTS | MEMBERSHIP | ENTITLEMENT

record asset =
  asset_id :: string
  kind_of_asset :: asset_kind
  initial_money :: "money option"
  initial_quantity :: "int option"

record ambiguity =
  ambiguity_id :: string
  field_path :: string
  question :: string

record rule_spec =
  spec_scenario :: scenario_type
  participants :: "participant list"
  assets :: "asset list"
  rules :: "rule list"
  spec_invariant_ids :: "string list"
  ambiguities :: "ambiguity list"

fun allowed_kinds :: "scenario_type \<Rightarrow> rule_kind list" where
  "allowed_kinds PROMOTION = [KPromotion, KRefund]"
| "allowed_kinds REFUND_POINTS = [KRefund, KPoints]"
| "allowed_kinds MEMBERSHIP_ENTITLEMENT = [KMembership]"

fun primary_kind :: "scenario_type \<Rightarrow> rule_kind" where
  "primary_kind PROMOTION = KPromotion"
| "primary_kind REFUND_POINTS = KPoints"
| "primary_kind MEMBERSHIP_ENTITLEMENT = KMembership"

text \<open>
  \<^verbatim>\<open>RuleSpec.require_rules_for_scenario\<close>: the first complaint, or none.
\<close>

datatype spec_error = RULE_NOT_IN_SCENARIO | PRIMARY_RULE_MISSING | DUPLICATE_RULE_TYPE

definition require_rules_for_scenario :: "rule_spec \<Rightarrow> spec_error + rule_spec" where
  "require_rules_for_scenario spec =
     (let kinds = map kind_of_rule (rules spec) in
      if \<exists>k \<in> set kinds. k \<notin> set (allowed_kinds (spec_scenario spec)) then Inl RULE_NOT_IN_SCENARIO
      else if primary_kind (spec_scenario spec) \<notin> set kinds then Inl PRIMARY_RULE_MISSING
      else if \<not> distinct kinds then Inl DUPLICATE_RULE_TYPE
      else Inr spec)"

definition spec_valid :: "rule_spec \<Rightarrow> bool" where
  "spec_valid spec \<longleftrightarrow>
     list_all rule_valid (rules spec) \<and> require_rules_for_scenario spec = Inr spec"

fun as_promotion :: "rule \<Rightarrow> promotion_rule option" where
  "as_promotion (PromotionRule r) = Some r"
| "as_promotion _ = None"

fun as_refund :: "rule \<Rightarrow> refund_rule option" where
  "as_refund (RefundRule r) = Some r"
| "as_refund _ = None"

fun as_points :: "rule \<Rightarrow> points_rule option" where
  "as_points (PointsRule r) = Some r"
| "as_points _ = None"

fun as_membership :: "rule \<Rightarrow> membership_rule option" where
  "as_membership (MembershipRule r) = Some r"
| "as_membership _ = None"

text \<open>\<^verbatim>\<open>next((r for r in rules if isinstance(r, C)), None)\<close>.\<close>

fun first_some :: "('a \<Rightarrow> 'b option) \<Rightarrow> 'a list \<Rightarrow> 'b option" where
  "first_some f [] = None"
| "first_some f (x # xs) = (case f x of None \<Rightarrow> first_some f xs | Some y \<Rightarrow> Some y)"

lemma first_some_Some: "first_some f xs = Some y \<Longrightarrow> \<exists>x \<in> set xs. f x = Some y"
  by (induction xs) (auto split: option.splits)

lemma first_some_None: "first_some f xs = None \<longleftrightarrow> (\<forall>x \<in> set xs. f x = None)"
  by (induction xs) (auto split: option.splits)

end
