(* ===== verification/Sandbox_State.thy ===== *)
theory Sandbox_State
  imports Contracts
begin

text \<open>
  The Commerce Sandbox's persistent state (\<^verbatim>\<open>services/commerce_sandbox\<close>:
  \<^verbatim>\<open>models.py\<close>, \<^verbatim>\<open>profiles.py\<close>, \<^verbatim>\<open>schemas.py\<close> and the helpers of
  \<^verbatim>\<open>service.py\<close>). Every query of the service filters by run id, so the rows of one run
  are kept inside its \<open>run_space\<close>. Row ids drawn by \<^verbatim>\<open>uuid4()\<close> and the clock are
  given by an \<open>ambient\<close> record per request.
\<close>

section \<open>Rows\<close>

datatype membership_flag = INACTIVE | ACTIVE

datatype coupon_status = AVAILABLE | RESERVED | USED | RESTORED

datatype order_status = DRAFT | PENDING_PAYMENT | PAID | PARTIALLY_REFUNDED | REFUNDED | CANCELLED

datatype membership_status = MActive | MCancelled | MRefunded

datatype entitlement_status = GRANTED | PARTIALLY_CONSUMED | CONSUMED | REVOKED

datatype ledger_type = GRANT | REVOKE | REDEEM

fun flag_name :: "membership_flag \<Rightarrow> string" where
  "flag_name INACTIVE = ''INACTIVE''"
| "flag_name ACTIVE = ''ACTIVE''"

fun coupon_status_name :: "coupon_status \<Rightarrow> string" where
  "coupon_status_name AVAILABLE = ''AVAILABLE''"
| "coupon_status_name RESERVED = ''RESERVED''"
| "coupon_status_name USED = ''USED''"
| "coupon_status_name RESTORED = ''RESTORED''"

fun order_status_name :: "order_status \<Rightarrow> string" where
  "order_status_name DRAFT = ''DRAFT''"
| "order_status_name PENDING_PAYMENT = ''PENDING_PAYMENT''"
| "order_status_name PAID = ''PAID''"
| "order_status_name PARTIALLY_REFUNDED = ''PARTIALLY_REFUNDED''"
| "order_status_name REFUNDED = ''REFUNDED''"
| "order_status_name CANCELLED = ''CANCELLED''"

fun membership_status_name :: "membership_status \<Rightarrow> string" where
  "membership_status_name MActive = ''ACTIVE''"
| "membership_status_name MCancelled = ''CANCELLED''"
| "membership_status_name MRefunded = ''REFUNDED''"

fun entitlement_status_name :: "entitlement_status \<Rightarrow> string" where
  "entitlement_status_name GRANTED = ''GRANTED''"
| "entitlement_status_name PARTIALLY_CONSUMED = ''PARTIALLY_CONSUMED''"
| "entitlement_status_name CONSUMED = ''CONSUMED''"
| "entitlement_status_name REVOKED = ''REVOKED''"

record user_row =
  us_id :: string
  us_balance :: rat
  us_currency :: currency
  us_points :: int
  us_new :: bool
  us_membership :: membership_flag
  us_version :: nat

record coupon_row =
  cp_id :: string
  cp_owner :: string
  cp_face :: rat
  cp_threshold :: rat
  cp_currency :: currency
  cp_status :: coupon_status
  cp_reserved :: "string option"
  cp_used :: "string option"
  cp_usage :: int
  cp_version :: nat

record order_row =
  od_id :: string
  od_user :: string
  od_original :: rat
  od_discount :: rat
  od_paid :: rat
  od_refunded :: rat
  od_points :: int
  od_currency :: currency
  od_status :: order_status
  od_coupon :: "string option"
  od_version :: nat

record refund_row =
  rf_id :: string
  rf_order :: string
  rf_amount :: rat
  rf_key :: string
  rf_at :: int

record ledger_row =
  lg_id :: string
  lg_user :: string
  lg_order :: "string option"
  lg_type :: ledger_type
  lg_amount :: int
  lg_key :: string
  lg_at :: int

record membership_row =
  mb_id :: string
  mb_user :: string
  mb_paid :: rat
  mb_currency :: currency
  mb_status :: membership_status
  mb_version :: nat

record entitlement_row =
  en_id :: string
  en_membership :: string
  en_type :: string
  en_granted :: int
  en_consumed :: int
  en_revoked :: int
  en_status :: entitlement_status
  en_version :: nat

record event_row =
  ev_id :: string
  ev_epoch :: nat
  ev_seq :: nat
  ev_aggregate :: string
  ev_aggregate_id :: string
  ev_type :: business_event
  ev_payload :: json
  ev_key :: "string option"
  ev_at :: string

record receipt_row =
  rc_id :: string
  rc_epoch :: nat
  rc_key :: string
  rc_action :: action_type
  rc_status :: action_status
  rc_effects :: "money list"
  rc_result :: json
  rc_error :: "string option"
  rc_at :: int

datatype sandbox_version = FIXED | VULNERABLE

record run_space =
  rs_id :: string
  rs_scenario :: scenario_type
  rs_version :: sandbox_version
  rs_axes :: "defect_axis list option"
  rs_epoch :: nat
  rs_snapshot_version :: nat
  rs_users :: "user_row list"
  rs_coupons :: "coupon_row list"
  rs_orders :: "order_row list"
  rs_refunds :: "refund_row list"
  rs_ledger :: "ledger_row list"
  rs_memberships :: "membership_row list"
  rs_entitlements :: "entitlement_row list"
  rs_events :: "event_row list"
  rs_receipts :: "receipt_row list"

text \<open>What the clock and \<^verbatim>\<open>uuid4()\<close> give during one request.\<close>

record ambient =
  amb_now :: int
  amb_iso :: string
  amb_run :: string
  amb_inspect :: string
  amb_receipt :: string
  amb_ledger :: string
  amb_event :: "nat \<Rightarrow> string"

record command =
  cmd_action :: action_type
  cmd_actor :: string
  cmd_target :: "string option"
  cmd_arguments :: "(string \<times> json) list"
  cmd_key :: "string option"

text \<open>
  A handler fails with a \<^verbatim>\<open>DomainError\<close>, of which the code is kept (each code has one
  fixed message), or lets another exception escape.
\<close>

datatype failure = DomainError string | Unhandled

section \<open>Profiles\<close>

definition all_axes :: "defect_axis set" where
  "all_axes = {COUPON_RESTORED_ON_REFUND, REFUND_AGAINST_ORIGINAL, POINTS_GRANTED_AGAIN_ON_REFUND,
     POINTS_OVERREDEMPTION, FULL_REFUND_AFTER_CONSUMPTION, ENTITLEMENT_LEFT_AFTER_REFUND,
     ENTITLEMENT_OVERCONSUMPTION}"

fun profile_for_version :: "sandbox_version \<Rightarrow> defect_axis set" where
  "profile_for_version VULNERABLE = all_axes"
| "profile_for_version FIXED = {}"

definition profile_for_run :: "sandbox_version \<Rightarrow> defect_axis list option \<Rightarrow> defect_axis set" where
  "profile_for_run version stored = (case stored of
       None \<Rightarrow> profile_for_version version
     | Some axes \<Rightarrow> set axes)"

definition run_profile :: "run_space \<Rightarrow> defect_axis set" where
  "run_profile run = profile_for_run (rs_version run) (rs_axes run)"

section \<open>Row access\<close>

definition fetch_user :: "run_space \<Rightarrow> string \<Rightarrow> failure + user_row" where
  "fetch_user run i = of_option (DomainError ''USER_NOT_FOUND'') (find_row us_id i (rs_users run))"

definition fetch_order :: "run_space \<Rightarrow> string \<Rightarrow> failure + order_row" where
  "fetch_order run i = of_option (DomainError ''ORDER_NOT_FOUND'') (find_row od_id i (rs_orders run))"

definition fetch_coupon :: "run_space \<Rightarrow> string \<Rightarrow> failure + coupon_row" where
  "fetch_coupon run i = of_option (DomainError ''COUPON_NOT_FOUND'') (find_row cp_id i (rs_coupons run))"

definition fetch_membership :: "run_space \<Rightarrow> string \<Rightarrow> failure + membership_row" where
  "fetch_membership run i =
     of_option (DomainError ''MEMBERSHIP_NOT_FOUND'') (find_row mb_id i (rs_memberships run))"

definition fetch_entitlement :: "run_space \<Rightarrow> string \<Rightarrow> failure + entitlement_row" where
  "fetch_entitlement run i =
     of_option (DomainError ''ENTITLEMENT_NOT_FOUND'') (find_row en_id i (rs_entitlements run))"

definition fetch_entitlement_by_membership :: "run_space \<Rightarrow> string \<Rightarrow> failure + entitlement_row" where
  "fetch_entitlement_by_membership run i =
     of_option (DomainError ''ENTITLEMENT_NOT_FOUND'') (find_row en_membership i (rs_entitlements run))"

definition put_user :: "user_row \<Rightarrow> run_space \<Rightarrow> run_space" where
  "put_user r run = run\<lparr>rs_users := put_row us_id r (rs_users run)\<rparr>"

definition put_order :: "order_row \<Rightarrow> run_space \<Rightarrow> run_space" where
  "put_order r run = run\<lparr>rs_orders := put_row od_id r (rs_orders run)\<rparr>"

definition put_coupon :: "coupon_row \<Rightarrow> run_space \<Rightarrow> run_space" where
  "put_coupon r run = run\<lparr>rs_coupons := put_row cp_id r (rs_coupons run)\<rparr>"

definition put_membership :: "membership_row \<Rightarrow> run_space \<Rightarrow> run_space" where
  "put_membership r run = run\<lparr>rs_memberships := put_row mb_id r (rs_memberships run)\<rparr>"

definition put_entitlement :: "entitlement_row \<Rightarrow> run_space \<Rightarrow> run_space" where
  "put_entitlement r run = run\<lparr>rs_entitlements := put_row en_id r (rs_entitlements run)\<rparr>"

text \<open>\<^verbatim>\<open>_next_id\<close>: the number of rows plus one.\<close>

definition next_id :: "'r list \<Rightarrow> string \<Rightarrow> string" where
  "next_id rows prefix = prefix @ ''-'' @ string_of_nat (length rows + 1)"

text \<open>\<^verbatim>\<open>_event\<close>: the sequence continues the current epoch's.\<close>

definition last_sequence :: "run_space \<Rightarrow> nat" where
  "last_sequence run = fold max (map ev_seq (filter (\<lambda>e. ev_epoch e = rs_epoch run) (rs_events run))) 0"

definition add_event ::
  "ambient \<Rightarrow> string \<Rightarrow> string \<Rightarrow> business_event \<Rightarrow> json \<Rightarrow> string \<Rightarrow> run_space \<Rightarrow> run_space" where
  "add_event amb aggregate aggregate_id type payload key run =
     (let seq = last_sequence run + 1 in
      run\<lparr>rs_events := rs_events run @
        [\<lparr>ev_id = amb_event amb seq, ev_epoch = rs_epoch run, ev_seq = seq,
          ev_aggregate = aggregate, ev_aggregate_id = aggregate_id, ev_type = type,
          ev_payload = payload, ev_key = Some key, ev_at = amb_iso amb\<rparr>]\<rparr>)"

definition add_ledger ::
  "ambient \<Rightarrow> string \<Rightarrow> string option \<Rightarrow> ledger_type \<Rightarrow> int \<Rightarrow> string \<Rightarrow> run_space \<Rightarrow> run_space" where
  "add_ledger amb user_id order_id type amount ledger_key run =
     run\<lparr>rs_ledger := rs_ledger run @
       [\<lparr>lg_id = amb_ledger amb, lg_user = user_id, lg_order = order_id, lg_type = type,
         lg_amount = amount, lg_key = ledger_key, lg_at = amb_now amb\<rparr>]\<rparr>"

section \<open>Argument parsing\<close>

text \<open>\<^verbatim>\<open>command.target_id or command.actor_id\<close>: an empty target counts as absent.\<close>

definition target_or_actor :: "command \<Rightarrow> string" where
  "target_or_actor cmd = (case cmd_target cmd of
       None \<Rightarrow> cmd_actor cmd
     | Some t \<Rightarrow> if t = [] then cmd_actor cmd else t)"

definition require_target :: "command \<Rightarrow> failure + string" where
  "require_target cmd = (case cmd_target cmd of
       None \<Rightarrow> Inl (DomainError ''TARGET_REQUIRED'')
     | Some t \<Rightarrow> if t = [] then Inl (DomainError ''TARGET_REQUIRED'') else Inr t)"

definition check_args :: "command \<Rightarrow> string list \<Rightarrow> string list \<Rightarrow> failure + unit" where
  "check_args cmd allowed required =
     (let given = map fst (cmd_arguments cmd) in
      if \<exists>a \<in> set given. a \<notin> set allowed then Inl (DomainError ''UNKNOWN_ARGUMENT'')
      else if \<exists>r \<in> set required. r \<notin> set given then Inl (DomainError ''MISSING_ARGUMENT'')
      else Inr ())"

text \<open>\<^verbatim>\<open>command.arguments[name]\<close>, after the presence check.\<close>

definition arg :: "command \<Rightarrow> string \<Rightarrow> json" where
  "arg cmd name = (case map_of (cmd_arguments cmd) name of None \<Rightarrow> JNull | Some v \<Rightarrow> v)"

fun nonempty_string :: "json \<Rightarrow> failure + string" where
  "nonempty_string (JStr s) = (if s = [] then Inl (DomainError ''INVALID_ARGUMENT'') else Inr s)"
| "nonempty_string _ = Inl (DomainError ''INVALID_ARGUMENT'')"

fun strict_bool :: "json \<Rightarrow> failure + bool" where
  "strict_bool (JBool b) = Inr b"
| "strict_bool _ = Inl (DomainError ''INVALID_ARGUMENT'')"

text \<open>
  \<^verbatim>\<open>_positive_int\<close>. A float never prints as an integer does; converting an infinite one
  raises \<^verbatim>\<open>OverflowError\<close>, which is not caught.
\<close>

fun positive_int :: "json \<Rightarrow> failure + int" where
  "positive_int (JInt i) = (if i \<le> 0 then Inl (DomainError ''INVALID_ARGUMENT'') else Inr i)"
| "positive_int (JStr s) = (case parse_int s of
       None \<Rightarrow> Inl (DomainError ''INVALID_ARGUMENT'')
     | Some i \<Rightarrow> if i \<le> 0 \<or> s \<noteq> string_of_int i then Inl (DomainError ''INVALID_ARGUMENT'') else Inr i)"
| "positive_int (JFloat t) =
     (if t = ''inf'' \<or> t = ''-inf'' then Inl Unhandled else Inl (DomainError ''INVALID_ARGUMENT''))"
| "positive_int _ = Inl (DomainError ''INVALID_ARGUMENT'')"

text \<open>\<^verbatim>\<open>Decimal(raw)\<close> of the accepted argument types, and the finite value it quantizes to.\<close>

fun raw_decimal :: "json \<Rightarrow> pydec option" where
  "raw_decimal (JInt i) = Some (DFin (of_int i))"
| "raw_decimal (JStr s) = parse_decimal s"
| "raw_decimal _ = None"

definition raw_amount :: "json \<Rightarrow> rat option" where
  "raw_amount v = (case raw_decimal v of Some (DFin x) \<Rightarrow> quantize_checked x | _ \<Rightarrow> None)"

definition raw_currency :: "json \<Rightarrow> currency option" where
  "raw_currency v = (case v of JStr s \<Rightarrow> currency_of s | _ \<Rightarrow> None)"

definition money_of :: "json \<Rightarrow> failure + rat \<times> currency" where
  "money_of value =
     (let malformed = (case value of
          JObj m \<Rightarrow> (\<exists>k \<in> fst ` set m. k \<noteq> ''amount'' \<and> k \<noteq> ''currency'') \<or> ''amount'' \<notin> fst ` set m
        | _ \<Rightarrow> False);
          raw = (case value of JObj m \<Rightarrow> jget ''amount'' value | _ \<Rightarrow> value);
          cur = (case value of JObj m \<Rightarrow> jget_default ''currency'' (JStr ''CNY'') value | _ \<Rightarrow> JStr ''CNY'')
      in if malformed then Inl (DomainError ''INVALID_MONEY'')
         else (case (raw_amount raw, raw_currency cur) of
             (Some amount, Some currency) \<Rightarrow>
               if amount < 0 then Inl (DomainError ''INVALID_MONEY'') else Inr (amount, currency)
           | _ \<Rightarrow> Inl (DomainError ''INVALID_MONEY'')))"

text \<open>\<^verbatim>\<open>Money(currency=..., amount=...)\<close>: Pydantic's error is not a \<^verbatim>\<open>DomainError\<close>.\<close>

definition make_money :: "currency \<Rightarrow> rat \<Rightarrow> failure + money" where
  "make_money c a =
     (let m = \<lparr>m_currency = c, m_amount = a, m_scale = 2\<rparr> in
      if money_valid m then Inr m else Inl Unhandled)"

definition points_for :: "rat \<Rightarrow> int" where
  "points_for amount = \<lfloor>amount\<rfloor>"

section \<open>Facts about the helpers\<close>

lemmas fetch_defs = fetch_user_def fetch_order_def fetch_coupon_def fetch_membership_def
  fetch_entitlement_def fetch_entitlement_by_membership_def

lemmas put_defs = put_user_def put_order_def put_coupon_def put_membership_def put_entitlement_def

lemma run_profile_cong:
  "\<lbrakk>rs_version run' = rs_version run; rs_axes run' = rs_axes run\<rbrakk> \<Longrightarrow> run_profile run' = run_profile run"
  by (simp add: run_profile_def)

lemma money_of_InrD:
  "money_of v = Inr (a, c) \<Longrightarrow> is_cents a \<and> 0 \<le> a"
  by (auto simp: money_of_def raw_amount_def quantize_checked_def Let_def
      split: if_splits option.splits pydec.splits)

lemma positive_int_Inr: "positive_int v = Inr i \<Longrightarrow> 0 < i"
  by (cases v) (auto split: if_splits option.splits)

lemma make_money_Inr [result_simps]:
  "make_money c a = Inr m \<longleftrightarrow>
     m = \<lparr>m_currency = c, m_amount = a, m_scale = 2\<rparr> \<and> money_valid m"
  by (auto simp: make_money_def Let_def)

text \<open>Adding an event or a ledger entry touches its own table only.\<close>

lemma add_event_frame [simp]:
  "rs_id (add_event amb ag ai ty pl k run) = rs_id run"
  "rs_scenario (add_event amb ag ai ty pl k run) = rs_scenario run"
  "rs_version (add_event amb ag ai ty pl k run) = rs_version run"
  "rs_axes (add_event amb ag ai ty pl k run) = rs_axes run"
  "rs_epoch (add_event amb ag ai ty pl k run) = rs_epoch run"
  "rs_snapshot_version (add_event amb ag ai ty pl k run) = rs_snapshot_version run"
  "rs_users (add_event amb ag ai ty pl k run) = rs_users run"
  "rs_coupons (add_event amb ag ai ty pl k run) = rs_coupons run"
  "rs_orders (add_event amb ag ai ty pl k run) = rs_orders run"
  "rs_refunds (add_event amb ag ai ty pl k run) = rs_refunds run"
  "rs_ledger (add_event amb ag ai ty pl k run) = rs_ledger run"
  "rs_memberships (add_event amb ag ai ty pl k run) = rs_memberships run"
  "rs_entitlements (add_event amb ag ai ty pl k run) = rs_entitlements run"
  "rs_receipts (add_event amb ag ai ty pl k run) = rs_receipts run"
  by (simp_all add: add_event_def Let_def)

lemma add_ledger_frame [simp]:
  "rs_id (add_ledger amb u od ty n k run) = rs_id run"
  "rs_scenario (add_ledger amb u od ty n k run) = rs_scenario run"
  "rs_version (add_ledger amb u od ty n k run) = rs_version run"
  "rs_axes (add_ledger amb u od ty n k run) = rs_axes run"
  "rs_epoch (add_ledger amb u od ty n k run) = rs_epoch run"
  "rs_snapshot_version (add_ledger amb u od ty n k run) = rs_snapshot_version run"
  "rs_users (add_ledger amb u od ty n k run) = rs_users run"
  "rs_coupons (add_ledger amb u od ty n k run) = rs_coupons run"
  "rs_orders (add_ledger amb u od ty n k run) = rs_orders run"
  "rs_refunds (add_ledger amb u od ty n k run) = rs_refunds run"
  "rs_memberships (add_ledger amb u od ty n k run) = rs_memberships run"
  "rs_entitlements (add_ledger amb u od ty n k run) = rs_entitlements run"
  "rs_events (add_ledger amb u od ty n k run) = rs_events run"
  "rs_receipts (add_ledger amb u od ty n k run) = rs_receipts run"
  by (simp_all add: add_ledger_def)

end
