(* ===== verification/Sandbox_Ops.thy ===== *)
theory Sandbox_Ops
  imports Sandbox_State
begin

text \<open>
  The operations of \<^verbatim>\<open>SandboxService\<close> (\<^verbatim>\<open>service.py\<close>): one definition
  per action handler, the dispatch by scenario, and the transaction around them, with its
  savepoint, idempotent replay, receipts and lost acknowledgements. SHA-256 over the canonical
  snapshot text is the parameter \<open>D\<close>.
\<close>

section \<open>Snapshot\<close>

definition opt_text :: "string option \<Rightarrow> json" where
  "opt_text x = (case x of None \<Rightarrow> JNull | Some s \<Rightarrow> JStr s)"

definition user_json :: "user_row \<Rightarrow> json" where
  "user_json u = JObj [
     (''id'', JStr (us_id u)),
     (''balance'', JStr (amount_text (us_balance u))),
     (''currency'', JStr (currency_name (us_currency u))),
     (''points_balance'', JInt (us_points u)),
     (''is_new_user'', JBool (us_new u)),
     (''membership_status'', JStr (flag_name (us_membership u)))]"

definition coupon_json :: "coupon_row \<Rightarrow> json" where
  "coupon_json c = JObj [
     (''id'', JStr (cp_id c)),
     (''owner_id'', JStr (cp_owner c)),
     (''face_value'', JStr (amount_text (cp_face c))),
     (''threshold'', JStr (amount_text (cp_threshold c))),
     (''currency'', JStr (currency_name (cp_currency c))),
     (''status'', JStr (coupon_status_name (cp_status c))),
     (''reserved_order_id'', opt_text (cp_reserved c)),
     (''used_order_id'', opt_text (cp_used c)),
     (''usage_count'', JInt (cp_usage c))]"

definition order_json :: "order_row \<Rightarrow> json" where
  "order_json d = JObj [
     (''id'', JStr (od_id d)),
     (''user_id'', JStr (od_user d)),
     (''original_amount'', JStr (amount_text (od_original d))),
     (''discount_amount'', JStr (amount_text (od_discount d))),
     (''paid_amount'', JStr (amount_text (od_paid d))),
     (''refunded_amount'', JStr (amount_text (od_refunded d))),
     (''points_granted'', JInt (od_points d)),
     (''currency'', JStr (currency_name (od_currency d))),
     (''status'', JStr (order_status_name (od_status d))),
     (''coupon_id'', opt_text (od_coupon d))]"

definition membership_json :: "membership_row \<Rightarrow> json" where
  "membership_json m = JObj [
     (''id'', JStr (mb_id m)),
     (''user_id'', JStr (mb_user m)),
     (''paid_amount'', JStr (amount_text (mb_paid m))),
     (''currency'', JStr (currency_name (mb_currency m))),
     (''status'', JStr (membership_status_name (mb_status m)))]"

definition entitlement_json :: "entitlement_row \<Rightarrow> json" where
  "entitlement_json e = JObj [
     (''id'', JStr (en_id e)),
     (''membership_id'', JStr (en_membership e)),
     (''entitlement_type'', JStr (en_type e)),
     (''granted_quantity'', JInt (en_granted e)),
     (''consumed_quantity'', JInt (en_consumed e)),
     (''revoked_quantity'', JInt (en_revoked e)),
     (''status'', JStr (entitlement_status_name (en_status e)))]"

definition state_json :: "run_space \<Rightarrow> json" where
  "state_json run = JObj [
     (''users'', JList (map user_json (sort_key us_id (rs_users run)))),
     (''coupons'', JList (map coupon_json (sort_key cp_id (rs_coupons run)))),
     (''orders'', JList (map order_json (sort_key od_id (rs_orders run)))),
     (''memberships'', JList (map membership_json (sort_key mb_id (rs_memberships run)))),
     (''entitlements'', JList (map entitlement_json (sort_key en_id (rs_entitlements run))))]"

definition snapshot :: "(json \<Rightarrow> string) \<Rightarrow> ambient \<Rightarrow> run_space \<Rightarrow> json" where
  "snapshot D amb run =
     (let state = state_json run in
      JObj [
        (''schema_version'', JStr ''1.0''),
        (''run_id'', JStr (rs_id run)),
        (''snapshot_version'', JInt (int (rs_snapshot_version run))),
        (''state_hash'', JStr (D state)),
        (''state'', state),
        (''captured_at'', JStr (amb_iso amb))])"

section \<open>Handlers\<close>

text \<open>
  A handler takes the clock, the command, the idempotency key and the run's rows, and returns
  the result payload, the monetary effects and the new rows, or fails. A failure drops the rows:
  the caller's savepoint is rolled back.
\<close>

type_synonym handled = "failure + (json \<times> money list) \<times> run_space"

definition create_user :: "ambient \<Rightarrow> command \<Rightarrow> string \<Rightarrow> run_space \<Rightarrow> handled" where
  "create_user amb cmd key run =
     and_then (check_args cmd [''initial_balance''] [''initial_balance'']) (\<lambda>_.
     and_then (money_of (arg cmd ''initial_balance'')) (\<lambda>(amount, currency).
     require (0 \<le> amount) (DomainError ''INVALID_AMOUNT'') (
     require (rs_users run = []) (DomainError ''USER_ALREADY_EXISTS'') (
     let user = \<lparr>us_id = ''user-1'', us_balance = amount, us_currency = currency, us_points = 0,
           us_new = True, us_membership = INACTIVE, us_version = 0\<rparr>;
         run1 = run\<lparr>rs_users := rs_users run @ [user]\<rparr>;
         run2 = add_event amb ''USER'' (us_id user) USER_CREATED
           (JObj [(''user_id'', JStr (us_id user))]) key run1
     in and_then (make_money currency amount) (\<lambda>effect.
        Inr ((JObj [(''user_id'', JStr (us_id user)), (''balance'', JStr (amount_text amount))],
              [effect]), run2))))))"

definition issue_coupon :: "ambient \<Rightarrow> command \<Rightarrow> string \<Rightarrow> run_space \<Rightarrow> handled" where
  "issue_coupon amb cmd key run =
     and_then (check_args cmd [''value'', ''threshold''] [''value'', ''threshold'']) (\<lambda>_.
     and_then (fetch_user run (target_or_actor cmd)) (\<lambda>user.
     and_then (money_of (arg cmd ''value'')) (\<lambda>(amount, currency).
     and_then (money_of (arg cmd ''threshold'')) (\<lambda>(threshold, threshold_currency).
     require (\<not> (amount \<le> 0 \<or> threshold < 0)) (DomainError ''INVALID_AMOUNT'') (
     require (\<not> (currency \<noteq> threshold_currency \<or> currency \<noteq> us_currency user))
       (DomainError ''CURRENCY_MISMATCH'') (
     let coupon = \<lparr>cp_id = next_id (rs_coupons run) ''coupon'', cp_owner = us_id user,
           cp_face = amount, cp_threshold = threshold, cp_currency = currency,
           cp_status = AVAILABLE, cp_reserved = None, cp_used = None, cp_usage = 0,
           cp_version = 0\<rparr>;
         run1 = run\<lparr>rs_coupons := rs_coupons run @ [coupon]\<rparr>;
         run2 = add_event amb ''COUPON'' (cp_id coupon) COUPON_ISSUED
           (JObj [(''coupon_id'', JStr (cp_id coupon)), (''owner_id'', JStr (cp_owner coupon))])
           key run1
     in and_then (make_money currency amount) (\<lambda>effect.
        Inr ((JObj [(''coupon_id'', JStr (cp_id coupon)), (''value'', JStr (amount_text amount)),
                (''threshold'', JStr (amount_text threshold))],
              [effect]), run2))))))))"

definition create_order :: "ambient \<Rightarrow> command \<Rightarrow> string \<Rightarrow> run_space \<Rightarrow> handled" where
  "create_order amb cmd key run =
     and_then (check_args cmd [''amount''] [''amount'']) (\<lambda>_.
     and_then (fetch_user run (target_or_actor cmd)) (\<lambda>user.
     and_then (money_of (arg cmd ''amount'')) (\<lambda>(amount, currency).
     require (\<not> amount \<le> 0) (DomainError ''INVALID_AMOUNT'') (
     require (currency = us_currency user) (DomainError ''CURRENCY_MISMATCH'') (
     let order = \<lparr>od_id = next_id (rs_orders run) ''order'', od_user = us_id user,
           od_original = amount, od_discount = 0, od_paid = 0, od_refunded = 0, od_points = 0,
           od_currency = currency, od_status = PENDING_PAYMENT, od_coupon = None,
           od_version = 0\<rparr>;
         run1 = run\<lparr>rs_orders := rs_orders run @ [order]\<rparr>;
         run2 = add_event amb ''ORDER'' (od_id order) ORDER_CREATED
           (JObj [(''order_id'', JStr (od_id order)), (''user_id'', JStr (us_id user))]) key run1
     in and_then (make_money currency amount) (\<lambda>effect.
        Inr ((JObj [(''order_id'', JStr (od_id order)), (''amount'', JStr (amount_text amount))],
              [effect]), run2)))))))"

definition apply_coupon :: "ambient \<Rightarrow> command \<Rightarrow> string \<Rightarrow> run_space \<Rightarrow> handled" where
  "apply_coupon amb cmd key run =
     and_then (check_args cmd [''coupon_id''] [''coupon_id'']) (\<lambda>_.
     and_then (require_target cmd) (\<lambda>order_id.
     and_then (fetch_order run order_id) (\<lambda>order.
     require (od_coupon order = None) (DomainError ''COUPON_ALREADY_APPLIED'') (
     and_then (nonempty_string (arg cmd ''coupon_id'')) (\<lambda>coupon_id.
     and_then (fetch_coupon run coupon_id) (\<lambda>coupon.
     require (od_status order = PENDING_PAYMENT) (DomainError ''ORDER_NOT_PENDING'') (
     require (cp_status coupon = AVAILABLE \<or> cp_status coupon = RESTORED)
       (DomainError ''COUPON_NOT_AVAILABLE'') (
     require (cp_owner coupon = od_user order) (DomainError ''COUPON_OWNER_MISMATCH'') (
     require (\<not> (cp_currency coupon \<noteq> od_currency order \<or> od_original order < cp_threshold coupon))
       (DomainError ''COUPON_CONDITION_FAILED'') (
     let discount = min (cp_face coupon) (od_original order);
         order' = order\<lparr>od_discount := discount, od_coupon := Some (cp_id coupon),
           od_version := od_version order + 1\<rparr>;
         coupon' = coupon\<lparr>cp_status := RESERVED, cp_reserved := Some (od_id order),
           cp_version := cp_version coupon + 1\<rparr>;
         run1 = put_coupon coupon' (put_order order' run);
         run2 = add_event amb ''COUPON'' (cp_id coupon) COUPON_RESERVED
           (JObj [(''coupon_id'', JStr (cp_id coupon)), (''order_id'', JStr (od_id order))]) key run1
     in and_then (make_money (od_currency order) discount) (\<lambda>effect.
        Inr ((JObj [(''order_id'', JStr (od_id order)), (''coupon_id'', JStr (cp_id coupon)),
                (''discount'', JStr (amount_text discount))],
              [effect]), run2))))))))))))"

text \<open>The coupon a paid order reserved becomes used.\<close>

definition use_reserved_coupon :: "ambient \<Rightarrow> string \<Rightarrow> order_row \<Rightarrow> run_space \<Rightarrow> failure + run_space" where
  "use_reserved_coupon amb key order run = (case od_coupon order of
       None \<Rightarrow> Inr run
     | Some coupon_id \<Rightarrow>
         and_then (fetch_coupon run coupon_id) (\<lambda>coupon.
         require (\<not> (cp_status coupon \<noteq> RESERVED \<or> cp_reserved coupon \<noteq> Some (od_id order)))
           (DomainError ''COUPON_STATE_INVALID'') (
         let coupon' = coupon\<lparr>cp_status := USED, cp_reserved := None, cp_used := Some (od_id order),
               cp_usage := cp_usage coupon + 1, cp_version := cp_version coupon + 1\<rparr>
         in Inr (add_event amb ''COUPON'' (cp_id coupon) COUPON_USED
              (JObj [(''coupon_id'', JStr (cp_id coupon)), (''order_id'', JStr (od_id order))]) key
              (put_coupon coupon' run)))))"

definition pay_order :: "ambient \<Rightarrow> command \<Rightarrow> string \<Rightarrow> run_space \<Rightarrow> handled" where
  "pay_order amb cmd key run =
     and_then (check_args cmd [] []) (\<lambda>_.
     and_then (require_target cmd) (\<lambda>order_id.
     and_then (fetch_order run order_id) (\<lambda>order.
     require (od_status order = PENDING_PAYMENT)
       (DomainError (if od_status order = CANCELLED then ''ORDER_CANCELLED'' else ''ORDER_NOT_PENDING'')) (
     and_then (fetch_user run (od_user order)) (\<lambda>user.
     let paid = quantize (od_original order - od_discount order) in
     require (\<not> paid \<le> 0) (DomainError ''INVALID_PAYMENT'') (
     require (\<not> us_balance user < paid) (DomainError ''INSUFFICIENT_BALANCE'') (
     let user1 = user\<lparr>us_balance := quantize (us_balance user - paid),
           us_version := us_version user + 1\<rparr>;
         order1 = order\<lparr>od_paid := paid, od_status := PAID, od_version := od_version order + 1\<rparr>;
         run1 = put_order order1 (put_user user1 run)
     in and_then (use_reserved_coupon amb key order1 run1) (\<lambda>run2.
        let run3 = add_event amb ''ORDER'' (od_id order) PAYMENT_CAPTURED
              (JObj [(''order_id'', JStr (od_id order)), (''paid_amount'', JStr (amount_text paid))])
              key run2;
            fields = [(''order_id'', JStr (od_id order)), (''paid_amount'', JStr (amount_text paid))]
        in and_then (make_money (od_currency order) paid) (\<lambda>effect.
           if rs_scenario run = REFUND_POINTS then
             let points = points_for paid;
                 order2 = order1\<lparr>od_points := points\<rparr>;
                 user2 = user1\<lparr>us_points := us_points user1 + points\<rparr>;
                 run4 = add_ledger amb (us_id user) (Some (od_id order)) GRANT points
                   (key @ '':points-grant'') (put_order order2 (put_user user2 run3));
                 run5 = add_event amb ''USER'' (us_id user) POINTS_GRANTED
                   (JObj [(''user_id'', JStr (us_id user)), (''order_id'', JStr (od_id order)),
                      (''amount'', JInt points)]) key run4
             in Inr ((JObj (fields @ [(''points_granted'', JInt points)]), [effect]), run5)
           else Inr ((JObj fields, [effect]), run3))))))))))"

text \<open>The coupon a cancelled order reserved is given back.\<close>

definition release_coupon :: "ambient \<Rightarrow> string \<Rightarrow> order_row \<Rightarrow> run_space \<Rightarrow> failure + run_space" where
  "release_coupon amb key order run = (case od_coupon order of
       None \<Rightarrow> Inr run
     | Some coupon_id \<Rightarrow>
         and_then (fetch_coupon run coupon_id) (\<lambda>coupon.
         if cp_status coupon = RESERVED \<and> cp_reserved coupon = Some (od_id order) then
           let coupon' = coupon\<lparr>cp_status := RESTORED, cp_reserved := None,
                 cp_version := cp_version coupon + 1\<rparr>
           in Inr (add_event amb ''COUPON'' (cp_id coupon) COUPON_RESTORED
                (JObj [(''coupon_id'', JStr (cp_id coupon)), (''order_id'', JStr (od_id order))]) key
                (put_coupon coupon' run))
         else Inr run))"

definition cancel_order :: "ambient \<Rightarrow> command \<Rightarrow> string \<Rightarrow> run_space \<Rightarrow> handled" where
  "cancel_order amb cmd key run =
     and_then (check_args cmd [] []) (\<lambda>_.
     and_then (require_target cmd) (\<lambda>order_id.
     and_then (fetch_order run order_id) (\<lambda>order.
     require (od_status order = DRAFT \<or> od_status order = PENDING_PAYMENT)
       (DomainError ''ORDER_NOT_CANCELLABLE'') (
     and_then (release_coupon amb key order run) (\<lambda>run1.
     let order' = order\<lparr>od_status := CANCELLED, od_version := od_version order + 1\<rparr>;
         run2 = add_event amb ''ORDER'' (od_id order) ORDER_CANCELLED
           (JObj [(''order_id'', JStr (od_id order))]) key (put_order order' run1)
     in Inr ((JObj [(''order_id'', JStr (od_id order)),
                (''status'', JStr (order_status_name (od_status order')))], []), run2))))))"

text \<open>
  \<^verbatim>\<open>_revoke_points\<close> works on the user and the order as the refund left them. Dividing by
  a paid amount of zero raises an exception of \<^verbatim>\<open>decimal\<close>.
\<close>

definition already_revoked :: "run_space \<Rightarrow> string \<Rightarrow> int" where
  "already_revoked run order_id =
     - sum_list (map lg_amount
         (filter (\<lambda>l. lg_order l = Some order_id \<and> lg_type l = REVOKE) (rs_ledger run)))"

definition revoke_points ::
  "ambient \<Rightarrow> string \<Rightarrow> user_row \<Rightarrow> order_row \<Rightarrow> bool \<Rightarrow> run_space \<Rightarrow> failure + run_space" where
  "revoke_points amb key user order full_refund run =
     require (full_refund \<or> od_paid order \<noteq> 0) Unhandled (
     let target_revoke = (if full_refund then od_points order
           else \<lfloor>of_int (od_points order) * od_refunded order / od_paid order\<rfloor>);
         delta = max (target_revoke - already_revoked run (od_id order)) 0
     in if delta = 0 then Inr run
        else require (\<not> us_points user < delta) (DomainError ''POINTS_ALREADY_REDEEMED'') (
          let user' = user\<lparr>us_points := us_points user - delta, us_version := us_version user + 1\<rparr>;
              run1 = add_ledger amb (us_id user) (Some (od_id order)) REVOKE (- delta)
                (key @ '':points-revoke'') (put_user user' run)
          in Inr (add_event amb ''USER'' (us_id user) POINTS_REVOKED
               (JObj [(''user_id'', JStr (us_id user)), (''order_id'', JStr (od_id order)),
                  (''amount'', JInt delta)]) key run1)))"

text \<open>What a refund does to the points of a \<^verbatim>\<open>REFUND_POINTS\<close> run.\<close>

definition refund_points ::
  "ambient \<Rightarrow> string \<Rightarrow> rat \<Rightarrow> user_row \<Rightarrow> order_row \<Rightarrow> run_space \<Rightarrow> failure + run_space" where
  "refund_points amb key amount user order run =
     (if rs_scenario run \<noteq> REFUND_POINTS then Inr run
      else if POINTS_GRANTED_AGAIN_ON_REFUND \<in> run_profile run then
        let extra = points_for amount;
            run1 = add_ledger amb (us_id user) (Some (od_id order)) GRANT extra
              (key @ '':refund-points-grant'')
              (put_user (user\<lparr>us_points := us_points user + extra\<rparr>) run)
        in Inr (add_event amb ''USER'' (us_id user) POINTS_GRANTED
             (JObj [(''user_id'', JStr (us_id user)), (''order_id'', JStr (od_id order)),
                (''amount'', JInt extra)]) key run1)
      else revoke_points amb key user order (od_paid order \<le> od_refunded order) run)"

text \<open>What a full refund does to the coupon of a \<^verbatim>\<open>PROMOTION\<close> run.\<close>

definition refund_coupon :: "ambient \<Rightarrow> string \<Rightarrow> order_row \<Rightarrow> run_space \<Rightarrow> failure + run_space" where
  "refund_coupon amb key order run =
     (if rs_scenario run = PROMOTION \<and> od_status order = REFUNDED
         \<and> COUPON_RESTORED_ON_REFUND \<in> run_profile run
      then (case od_coupon order of
          None \<Rightarrow> Inr run
        | Some coupon_id \<Rightarrow>
            and_then (fetch_coupon run coupon_id) (\<lambda>coupon.
            Inr (add_event amb ''COUPON'' (cp_id coupon) COUPON_RESTORED
              (JObj [(''coupon_id'', JStr (cp_id coupon)), (''order_id'', JStr (od_id order))]) key
              (put_coupon (coupon\<lparr>cp_status := AVAILABLE, cp_used := None,
                 cp_version := cp_version coupon + 1\<rparr>) run))))
      else Inr run)"

definition refund_limit :: "run_space \<Rightarrow> order_row \<Rightarrow> rat" where
  "refund_limit run order =
     (if REFUND_AGAINST_ORIGINAL \<in> run_profile run \<and> rs_scenario run = PROMOTION
      then od_paid order else quantize (od_paid order - od_refunded order))"

definition refund_order :: "ambient \<Rightarrow> command \<Rightarrow> string \<Rightarrow> run_space \<Rightarrow> handled" where
  "refund_order amb cmd key run =
     and_then (check_args cmd [''amount''] [''amount'']) (\<lambda>_.
     and_then (require_target cmd) (\<lambda>order_id.
     and_then (fetch_order run order_id) (\<lambda>order.
     require (od_status order = PAID \<or> od_status order = PARTIALLY_REFUNDED)
       (DomainError ''ORDER_NOT_REFUNDABLE'') (
     and_then (money_of (arg cmd ''amount'')) (\<lambda>(amount, currency).
     require (\<not> (amount \<le> 0 \<or> currency \<noteq> od_currency order)) (DomainError ''INVALID_REFUND'') (
     require (\<not> refund_limit run order < amount) (DomainError ''REFUND_EXCEEDS_PAID'') (
     and_then (fetch_user run (od_user order)) (\<lambda>user.
     let user1 = user\<lparr>us_balance := quantize (us_balance user + amount),
           us_version := us_version user + 1\<rparr>;
         total = quantize (od_refunded order + amount);
         order1 = order\<lparr>od_refunded := total,
           od_status := (if od_paid order \<le> total then REFUNDED else PARTIALLY_REFUNDED),
           od_version := od_version order + 1\<rparr>;
         refund_id = next_id (rs_refunds run) ''refund'';
         refund = \<lparr>rf_id = refund_id, rf_order = od_id order, rf_amount = amount, rf_key = key,
           rf_at = amb_now amb\<rparr>;
         run1 = put_order order1 (put_user user1 run);
         run2 = run1\<lparr>rs_refunds := rs_refunds run1 @ [refund]\<rparr>;
         run3 = add_event amb ''ORDER'' (od_id order) REFUND_ISSUED
           (JObj [(''order_id'', JStr (od_id order)), (''amount'', JStr (amount_text amount))]) key run2
     in and_then (refund_points amb key amount user1 order1 run3) (\<lambda>run4.
        and_then (refund_coupon amb key order1 run4) (\<lambda>run5.
        and_then (make_money currency amount) (\<lambda>effect.
        Inr ((JObj [(''refund_id'', JStr refund_id), (''order_id'', JStr (od_id order)),
                (''refunded_amount'', JStr (amount_text amount)),
                (''order_refunded_total'', JStr (amount_text total))],
              [effect]), run5))))))))))))"

definition redeem_points :: "ambient \<Rightarrow> command \<Rightarrow> string \<Rightarrow> run_space \<Rightarrow> handled" where
  "redeem_points amb cmd key run =
     and_then (check_args cmd [''amount''] [''amount'']) (\<lambda>_.
     and_then (positive_int (arg cmd ''amount'')) (\<lambda>amount.
     and_then (fetch_user run (target_or_actor cmd)) (\<lambda>user.
     require (\<not> (us_points user < amount
         \<and> \<not> (rs_scenario run = REFUND_POINTS \<and> POINTS_OVERREDEMPTION \<in> run_profile run)))
       (DomainError ''INSUFFICIENT_POINTS'') (
     let user' = user\<lparr>us_points := us_points user - amount, us_version := us_version user + 1\<rparr>;
         run1 = add_ledger amb (us_id user) None REDEEM (- amount) (key @ '':points-redeem'')
           (put_user user' run);
         run2 = add_event amb ''USER'' (us_id user) POINTS_REDEEMED
           (JObj [(''user_id'', JStr (us_id user)), (''amount'', JInt amount)]) key run1
     in Inr ((JObj [(''user_id'', JStr (us_id user)), (''redeemed_points'', JInt amount)], []), run2)))))"

definition activate_membership :: "ambient \<Rightarrow> command \<Rightarrow> string \<Rightarrow> run_space \<Rightarrow> handled" where
  "activate_membership amb cmd key run =
     and_then (check_args cmd [''paid_amount'', ''quantity''] [''paid_amount'', ''quantity'']) (\<lambda>_.
     and_then (fetch_user run (target_or_actor cmd)) (\<lambda>user.
     and_then (money_of (arg cmd ''paid_amount'')) (\<lambda>(paid_amount, currency).
     and_then (positive_int (arg cmd ''quantity'')) (\<lambda>quantity.
     require (\<not> (paid_amount \<le> 0 \<or> currency \<noteq> us_currency user)) (DomainError ''INVALID_MEMBERSHIP'') (
     require (us_membership user = INACTIVE) (DomainError ''MEMBERSHIP_ALREADY_ACTIVE'') (
     require (\<not> us_balance user < paid_amount) (DomainError ''INSUFFICIENT_BALANCE'') (
     let user' = user\<lparr>us_balance := quantize (us_balance user - paid_amount),
           us_membership := ACTIVE, us_version := us_version user + 1\<rparr>;
         membership = \<lparr>mb_id = next_id (rs_memberships run) ''membership'', mb_user = us_id user,
           mb_paid = paid_amount, mb_currency = currency, mb_status = MActive, mb_version = 0\<rparr>;
         entitlement = \<lparr>en_id = next_id (rs_entitlements run) ''entitlement'',
           en_membership = mb_id membership, en_type = ''USAGE'', en_granted = quantity,
           en_consumed = 0, en_revoked = 0, en_status = GRANTED, en_version = 0\<rparr>;
         run1 = put_user user' run;
         run2 = run1\<lparr>rs_memberships := rs_memberships run1 @ [membership],
           rs_entitlements := rs_entitlements run1 @ [entitlement]\<rparr>;
         run3 = add_event amb ''MEMBERSHIP'' (mb_id membership) MEMBERSHIP_ACTIVATED
           (JObj [(''membership_id'', JStr (mb_id membership)), (''user_id'', JStr (us_id user))]) key run2;
         run4 = add_event amb ''ENTITLEMENT'' (en_id entitlement) ENTITLEMENT_GRANTED
           (JObj [(''entitlement_id'', JStr (en_id entitlement)), (''quantity'', JInt quantity)]) key run3
     in and_then (make_money currency paid_amount) (\<lambda>effect.
        Inr ((JObj [(''membership_id'', JStr (mb_id membership)),
                (''entitlement_id'', JStr (en_id entitlement)), (''quantity'', JInt quantity)],
              [effect]), run4)))))))))"

definition available_quantity :: "entitlement_row \<Rightarrow> int" where
  "available_quantity e = en_granted e - en_consumed e - en_revoked e"

definition consume_entitlement :: "ambient \<Rightarrow> command \<Rightarrow> string \<Rightarrow> run_space \<Rightarrow> handled" where
  "consume_entitlement amb cmd key run =
     and_then (check_args cmd [''quantity''] [''quantity'']) (\<lambda>_.
     and_then (positive_int (arg cmd ''quantity'')) (\<lambda>quantity.
     and_then (require_target cmd) (\<lambda>entitlement_id.
     and_then (fetch_entitlement run entitlement_id) (\<lambda>entitlement.
     require (\<not> (en_status entitlement = REVOKED \<or> en_status entitlement = CONSUMED))
       (DomainError ''ENTITLEMENT_NOT_AVAILABLE'') (
     require (\<not> (ENTITLEMENT_OVERCONSUMPTION \<notin> run_profile run
         \<and> available_quantity entitlement < quantity))
       (DomainError ''INSUFFICIENT_ENTITLEMENT'') (
     let consumed = en_consumed entitlement + quantity;
         entitlement' = entitlement\<lparr>en_consumed := consumed,
           en_status := (if en_granted entitlement \<le> consumed then CONSUMED else PARTIALLY_CONSUMED),
           en_version := en_version entitlement + 1\<rparr>;
         run1 = add_event amb ''ENTITLEMENT'' (en_id entitlement) ENTITLEMENT_CONSUMED
           (JObj [(''entitlement_id'', JStr (en_id entitlement)), (''quantity'', JInt quantity)]) key
           (put_entitlement entitlement' run)
     in Inr ((JObj [(''entitlement_id'', JStr (en_id entitlement)),
                (''consumed_quantity'', JInt consumed)], []), run1)))))))"

text \<open>What is left of the entitlement is revoked, when there is any.\<close>

definition revoke_available :: "ambient \<Rightarrow> string \<Rightarrow> entitlement_row \<Rightarrow> run_space \<Rightarrow> run_space" where
  "revoke_available amb key entitlement run =
     (let available = available_quantity entitlement in
      if available > 0 then
        add_event amb ''ENTITLEMENT'' (en_id entitlement) ENTITLEMENT_REVOKED
          (JObj [(''entitlement_id'', JStr (en_id entitlement)), (''quantity'', JInt available)]) key
          (put_entitlement (entitlement\<lparr>en_revoked := en_revoked entitlement + available,
             en_status := REVOKED, en_version := en_version entitlement + 1\<rparr>) run)
      else run)"

definition cancel_membership :: "ambient \<Rightarrow> command \<Rightarrow> string \<Rightarrow> run_space \<Rightarrow> handled" where
  "cancel_membership amb cmd key run =
     and_then (check_args cmd [''refund_requested''] [''refund_requested'']) (\<lambda>_.
     and_then (strict_bool (arg cmd ''refund_requested'')) (\<lambda>refund_requested.
     and_then (require_target cmd) (\<lambda>membership_id.
     and_then (fetch_membership run membership_id) (\<lambda>membership.
     require (mb_status membership = MActive) (DomainError ''MEMBERSHIP_NOT_ACTIVE'') (
     and_then (fetch_user run (mb_user membership)) (\<lambda>user.
     and_then (fetch_entitlement_by_membership run (mb_id membership)) (\<lambda>entitlement.
     if refund_requested then
       require (\<not> (0 < en_consumed entitlement \<and> FULL_REFUND_AFTER_CONSUMPTION \<notin> run_profile run))
         (DomainError ''ENTITLEMENT_CONSUMED'') (
       let user' = user\<lparr>us_balance := quantize (us_balance user + mb_paid membership),
             us_membership := INACTIVE\<rparr>;
           membership' = membership\<lparr>mb_status := MRefunded, mb_version := mb_version membership + 1\<rparr>;
           run1 = put_membership membership' (put_user user' run);
           run2 = (if ENTITLEMENT_LEFT_AFTER_REFUND \<notin> run_profile run
             then revoke_available amb key entitlement run1 else run1);
           run3 = add_event amb ''MEMBERSHIP'' (mb_id membership) MEMBERSHIP_REFUNDED
             (JObj [(''membership_id'', JStr (mb_id membership)),
                (''amount'', JStr (amount_text (mb_paid membership)))]) key run2
       in and_then (make_money (mb_currency membership) (mb_paid membership)) (\<lambda>effect.
          Inr ((JObj [(''membership_id'', JStr (mb_id membership)),
                  (''status'', JStr (membership_status_name (mb_status membership'))),
                  (''refunded_amount'', JStr (amount_text (mb_paid membership)))],
                [effect]), run3)))
     else
       let user' = user\<lparr>us_membership := INACTIVE\<rparr>;
           membership' = membership\<lparr>mb_status := MCancelled, mb_version := mb_version membership + 1\<rparr>;
           run1 = revoke_available amb key entitlement (put_membership membership' (put_user user' run));
           run2 = add_event amb ''MEMBERSHIP'' (mb_id membership) MEMBERSHIP_CANCELLED
             (JObj [(''membership_id'', JStr (mb_id membership))]) key run1
       in Inr ((JObj [(''membership_id'', JStr (mb_id membership)),
                  (''status'', JStr (membership_status_name (mb_status membership')))], []), run2))))))))"

text \<open>
  The scope is looked up in a set, which raises \<^verbatim>\<open>TypeError\<close> for a list or an object.
\<close>

definition inspect_state ::
  "(json \<Rightarrow> string) \<Rightarrow> ambient \<Rightarrow> command \<Rightarrow> string \<Rightarrow> run_space \<Rightarrow> handled" where
  "inspect_state D amb cmd key run =
     and_then (check_args cmd [''scope''] []) (\<lambda>_.
     let scope = (case map_of (cmd_arguments cmd) ''scope'' of None \<Rightarrow> JStr ''RUN'' | Some v \<Rightarrow> v) in
     require (case scope of JList _ \<Rightarrow> False | JObj _ \<Rightarrow> False | _ \<Rightarrow> True) Unhandled (
     require (scope \<in> {JStr ''RUN'', JStr ''USER'', JStr ''ORDER'', JStr ''MEMBERSHIP''})
       (DomainError ''INVALID_SCOPE'') (
     Inr ((JObj [(''scope'', scope), (''snapshot'', snapshot D amb run)], []), run))))"

section \<open>Dispatch\<close>

fun scenario_actions :: "scenario_type \<Rightarrow> action_type set" where
  "scenario_actions PROMOTION =
     {ISSUE_COUPON, CREATE_ORDER, APPLY_COUPON, PAY_ORDER, CANCEL_ORDER, REFUND_ORDER}"
| "scenario_actions REFUND_POINTS = {CREATE_ORDER, PAY_ORDER, CANCEL_ORDER, REFUND_ORDER, REDEEM_POINTS}"
| "scenario_actions MEMBERSHIP_ENTITLEMENT = {ACTIVATE_MEMBERSHIP, CONSUME_ENTITLEMENT, CANCEL_MEMBERSHIP}"

fun handler ::
  "(json \<Rightarrow> string) \<Rightarrow> action_type \<Rightarrow> ambient \<Rightarrow> command \<Rightarrow> string \<Rightarrow> run_space \<Rightarrow> handled" where
  "handler D CREATE_USER = create_user"
| "handler D ISSUE_COUPON = issue_coupon"
| "handler D CREATE_ORDER = create_order"
| "handler D APPLY_COUPON = apply_coupon"
| "handler D PAY_ORDER = pay_order"
| "handler D CANCEL_ORDER = cancel_order"
| "handler D REFUND_ORDER = refund_order"
| "handler D REDEEM_POINTS = redeem_points"
| "handler D ACTIVATE_MEMBERSHIP = activate_membership"
| "handler D CONSUME_ENTITLEMENT = consume_entitlement"
| "handler D CANCEL_MEMBERSHIP = cancel_membership"
| "handler D INSPECT_STATE = inspect_state D"

definition dispatch ::
  "(json \<Rightarrow> string) \<Rightarrow> ambient \<Rightarrow> command \<Rightarrow> string \<Rightarrow> run_space \<Rightarrow> handled" where
  "dispatch D amb cmd key run =
     require (cmd_action cmd \<in> {CREATE_USER, INSPECT_STATE} \<union> scenario_actions (rs_scenario run))
       (DomainError ''ACTION_NOT_SUPPORTED'')
       (handler D (cmd_action cmd) amb cmd key run)"

section \<open>Transactions\<close>

type_synonym database = "string \<Rightarrow> run_space option"

datatype outcome = Answered receipt_row | Refused string | Lost receipt_row | Crashed

definition starts_with :: "string \<Rightarrow> string \<Rightarrow> bool" where
  "starts_with p s = (take (length p) s = p)"

text \<open>
  \<^verbatim>\<open>requires_idempotency_key() and not command.idempotency_key\<close>; an empty key counts as
  none.
\<close>

definition key_missing :: "command \<Rightarrow> bool" where
  "key_missing cmd \<longleftrightarrow> cmd_action cmd \<noteq> INSPECT_STATE \<and> (cmd_key cmd = None \<or> cmd_key cmd = Some [])"

definition effective_key :: "ambient \<Rightarrow> command \<Rightarrow> string" where
  "effective_key amb cmd = (case cmd_key cmd of
       None \<Rightarrow> ''inspect:'' @ amb_inspect amb
     | Some k \<Rightarrow> if k = [] then ''inspect:'' @ amb_inspect amb else k)"

definition find_receipt :: "run_space \<Rightarrow> action_type \<Rightarrow> string \<Rightarrow> receipt_row option" where
  "find_receipt run action key =
     find (\<lambda>r. rc_epoch r = rs_epoch run \<and> rc_action r = action \<and> rc_key r = key) (rs_receipts run)"

definition make_receipt ::
  "ambient \<Rightarrow> command \<Rightarrow> string \<Rightarrow> run_space \<Rightarrow> action_status \<Rightarrow> json \<Rightarrow> money list \<Rightarrow> string option \<Rightarrow> receipt_row" where
  "make_receipt amb cmd key run status result effects err =
     \<lparr>rc_id = amb_receipt amb, rc_epoch = rs_epoch run, rc_key = key, rc_action = cmd_action cmd,
      rc_status = status, rc_effects = effects, rc_result = result, rc_error = err,
      rc_at = amb_now amb\<rparr>"

definition add_receipt :: "receipt_row \<Rightarrow> run_space \<Rightarrow> run_space" where
  "add_receipt r run = run\<lparr>rs_receipts := rs_receipts run @ [r]\<rparr>"

text \<open>
  The body of the transaction on the locked run: the durable receipt and the run it commits, or
  nothing when an exception that is no \<^verbatim>\<open>DomainError\<close> escapes.
\<close>

definition transact ::
  "(json \<Rightarrow> string) \<Rightarrow> ambient \<Rightarrow> command \<Rightarrow> run_space \<Rightarrow> (receipt_row \<times> run_space) option" where
  "transact D amb cmd run =
     (let key = effective_key amb cmd in
      case find_receipt run (cmd_action cmd) key of
        Some r \<Rightarrow> Some (r, run)
      | None \<Rightarrow>
          (case dispatch D amb cmd key run of
             Inr ((result, effects), run1) \<Rightarrow>
               let run2 = (if cmd_action cmd = INSPECT_STATE then run1
                     else run1\<lparr>rs_snapshot_version := rs_snapshot_version run1 + 1\<rparr>);
                   r = make_receipt amb cmd key run SUCCEEDED result effects None
               in Some (r, add_receipt r run2)
           | Inl (DomainError code) \<Rightarrow>
               let r = make_receipt amb cmd key run REJECTED (JObj []) [] (Some code)
               in Some (r, add_receipt r run)
           | Inl Unhandled \<Rightarrow> None))"

definition loses_ack :: "command \<Rightarrow> run_space \<Rightarrow> bool" where
  "loses_ack cmd run \<longleftrightarrow> cmd_action cmd = REFUND_ORDER \<and> REFUND_ACK_LOST \<in> run_profile run"

definition execute ::
  "(json \<Rightarrow> string) \<Rightarrow> ambient \<Rightarrow> string \<Rightarrow> command \<Rightarrow> database \<Rightarrow> outcome \<times> database" where
  "execute D amb run_id cmd db =
     (if key_missing cmd then (Refused ''IDEMPOTENCY_KEY_REQUIRED'', db)
      else case db run_id of
        None \<Rightarrow> (Refused ''RUN_NOT_FOUND'', db)
      | Some run \<Rightarrow>
          (case transact D amb cmd run of
             None \<Rightarrow> (Crashed, db)
           | Some (r, run') \<Rightarrow>
               (if loses_ack cmd run' then Lost r else Answered r, db(run_id \<mapsto> run'))))"

text \<open>
  \<^verbatim>\<open>create_run\<close>: \<open>known\<close> says whether the scenario version is seeded, with its version
  label; the run starts without rows.
\<close>

definition empty_run :: "string \<Rightarrow> scenario_type \<Rightarrow> sandbox_version \<Rightarrow> defect_axis list option \<Rightarrow> run_space" where
  "empty_run i scenario version axes =
     \<lparr>rs_id = i, rs_scenario = scenario, rs_version = version, rs_axes = axes, rs_epoch = 0,
      rs_snapshot_version = 0, rs_users = [], rs_coupons = [], rs_orders = [], rs_refunds = [],
      rs_ledger = [], rs_memberships = [], rs_entitlements = [], rs_events = [], rs_receipts = []\<rparr>"

text \<open>\<^verbatim>\<open>validate_defect_axes\<close>: a request may only name axes its scenario reaches.\<close>

definition axes_request_valid :: "scenario_type \<Rightarrow> defect_axis list option \<Rightarrow> bool" where
  "axes_request_valid scenario axes \<longleftrightarrow>
     unreachable_axes scenario (case axes of None \<Rightarrow> [] | Some xs \<Rightarrow> xs) = {}"

definition create_run ::
  "(json \<Rightarrow> string) \<Rightarrow> (scenario_type \<Rightarrow> sandbox_version \<Rightarrow> string option) \<Rightarrow> ambient \<Rightarrow> scenario_type
   \<Rightarrow> sandbox_version \<Rightarrow> defect_axis list option \<Rightarrow> database \<Rightarrow> (failure + json) \<times> database" where
  "create_run D known amb scenario version axes db =
     (case known scenario version of
        None \<Rightarrow> (Inl (DomainError ''SCENARIO_NOT_FOUND''), db)
      | Some label \<Rightarrow>
          let run = empty_run (amb_run amb) scenario version axes in
          (Inr (JObj [(''run_id'', JStr (rs_id run)),
             (''scenario_type'', JStr (scenario_name (rs_scenario run))),
             (''scenario_version'', JStr label),
             (''snapshot'', snapshot D amb run)]), db(amb_run amb \<mapsto> run)))"

text \<open>\<^verbatim>\<open>reset_run\<close> deletes the business rows; events and receipts of past epochs stay.\<close>

definition delete_state :: "run_space \<Rightarrow> run_space" where
  "delete_state run = run\<lparr>rs_entitlements := [], rs_memberships := [], rs_ledger := [],
     rs_refunds := [], rs_orders := [], rs_coupons := [], rs_users := []\<rparr>"

definition reset_space :: "run_space \<Rightarrow> run_space" where
  "reset_space run = (delete_state run)\<lparr>rs_epoch := rs_epoch run + 1, rs_snapshot_version := 0\<rparr>"

definition fetch_run :: "database \<Rightarrow> string \<Rightarrow> failure + run_space" where
  "fetch_run db i = of_option (DomainError ''RUN_NOT_FOUND'') (db i)"

definition reset_run ::
  "(json \<Rightarrow> string) \<Rightarrow> ambient \<Rightarrow> string \<Rightarrow> database \<Rightarrow> (failure + json) \<times> database" where
  "reset_run D amb i db = (case fetch_run db i of
       Inl e \<Rightarrow> (Inl e, db)
     | Inr run \<Rightarrow> (Inr (snapshot D amb (reset_space run)), db(i \<mapsto> reset_space run)))"

definition get_snapshot :: "(json \<Rightarrow> string) \<Rightarrow> ambient \<Rightarrow> string \<Rightarrow> database \<Rightarrow> failure + json" where
  "get_snapshot D amb i db = and_then (fetch_run db i) (\<lambda>run. Inr (snapshot D amb run))"

definition event_json :: "string \<Rightarrow> event_row \<Rightarrow> json" where
  "event_json run_id e = JObj [
     (''schema_version'', JStr ''1.0''),
     (''event_id'', JStr (ev_id e)),
     (''run_id'', JStr run_id),
     (''sequence'', JInt (int (ev_seq e))),
     (''aggregate_type'', JStr (ev_aggregate e)),
     (''aggregate_id'', JStr (ev_aggregate_id e)),
     (''event_type'', JStr (event_name (ev_type e))),
     (''payload'', ev_payload e),
     (''idempotency_key'', opt_text (ev_key e)),
     (''occurred_at'', JStr (ev_at e))]"

definition epoch_events :: "run_space \<Rightarrow> event_row list" where
  "epoch_events run = sort_key ev_seq (filter (\<lambda>e. ev_epoch e = rs_epoch run) (rs_events run))"

definition get_events :: "string \<Rightarrow> database \<Rightarrow> failure + json list" where
  "get_events i db = and_then (fetch_run db i) (\<lambda>run. Inr (map (event_json (rs_id run)) (epoch_events run)))"

definition lookup_receipt :: "run_space \<Rightarrow> string \<Rightarrow> receipt_row option" where
  "lookup_receipt run key =
     (case sort_key rc_at (filter (\<lambda>r. rc_epoch r = rs_epoch run \<and> rc_key r = key) (rs_receipts run)) of
        [] \<Rightarrow> None | r # _ \<Rightarrow> Some r)"

definition get_receipt :: "string \<Rightarrow> string \<Rightarrow> database \<Rightarrow> failure + receipt_row" where
  "get_receipt i key db = and_then (fetch_run db i) (\<lambda>run.
     of_option (DomainError ''RECEIPT_NOT_FOUND'') (lookup_receipt run key))"

text \<open>The receipt's key as callers see it: reads carry none.\<close>

definition public_key :: "receipt_row \<Rightarrow> string option" where
  "public_key r = (if starts_with ''inspect:'' (rc_key r) then None else Some (rc_key r))"

definition money_json :: "money \<Rightarrow> json" where
  "money_json m = JObj [
     (''currency'', JStr (currency_name (m_currency m))),
     (''amount'', JStr (amount_text (m_amount m)))]"

lemmas handler_defs = create_user_def issue_coupon_def create_order_def apply_coupon_def
  pay_order_def cancel_order_def refund_order_def redeem_points_def activate_membership_def
  consume_entitlement_def cancel_membership_def inspect_state_def

end
