(* ===== verification/Sandbox_Books.thy ===== *)
theory Sandbox_Books
  imports Sandbox_Ops
begin

text \<open>
  The abstract specification of the sandbox: its books (the business rows of a run, without
  events and receipts) and the moves that may change them, with each injected defect as the guard
  of the rule it relaxes. The well-formedness of the books and what a move does to each account
  are proved here by rule induction; \<^verbatim>\<open>Sandbox_Refinement\<close> shows that every action handler
  is a sequence of moves.
\<close>

section \<open>Books\<close>

definition books :: "run_space \<Rightarrow> run_space" where
  "books run = run\<lparr>rs_snapshot_version := 0, rs_events := [], rs_receipts := []\<rparr>"

definition capture_books ::
  "ambient \<Rightarrow> string \<Rightarrow> rat \<Rightarrow> order_row \<Rightarrow> user_row \<Rightarrow> run_space \<Rightarrow> run_space" where
  "capture_books amb k paid order user b =
     (let points = (if rs_scenario b = REFUND_POINTS then points_for paid else 0);
          b1 = put_order (order\<lparr>od_paid := paid, od_status := PAID, od_version := od_version order + 1,
                 od_points := od_points order + points\<rparr>)
               (put_user (user\<lparr>us_balance := us_balance user - paid, us_version := us_version user + 1,
                 us_points := us_points user + points\<rparr>) b)
      in if rs_scenario b = REFUND_POINTS
         then add_ledger amb (us_id user) (Some (od_id order)) GRANT points k b1 else b1)"

definition refund_status :: "order_row \<Rightarrow> rat \<Rightarrow> order_status" where
  "refund_status order after = (if od_paid order \<le> after then REFUNDED else PARTIALLY_REFUNDED)"

text \<open>The part of a refund that all scenarios share; \<open>dp\<close> is the change of the user's points.\<close>

definition refund_books ::
  "ambient \<Rightarrow> string \<Rightarrow> rat \<Rightarrow> int \<Rightarrow> nat \<Rightarrow> order_row \<Rightarrow> user_row \<Rightarrow> run_space \<Rightarrow> run_space" where
  "refund_books amb k amount dp bumps order user b =
     (let b1 = put_order (order\<lparr>od_refunded := od_refunded order + amount,
                 od_status := refund_status order (od_refunded order + amount),
                 od_version := od_version order + 1\<rparr>)
               (put_user (user\<lparr>us_balance := us_balance user + amount,
                 us_version := us_version user + bumps, us_points := us_points user + dp\<rparr>) b)
      in b1\<lparr>rs_refunds := rs_refunds b1 @
           [\<lparr>rf_id = next_id (rs_refunds b1) ''refund'', rf_order = od_id order, rf_amount = amount,
             rf_key = k, rf_at = amb_now amb\<rparr>]\<rparr>)"

text \<open>How many points a refund up to \<open>after\<close> takes back.\<close>

definition points_due :: "run_space \<Rightarrow> order_row \<Rightarrow> rat \<Rightarrow> int" where
  "points_due b order after =
     max ((if od_paid order \<le> after then od_points order
           else \<lfloor>of_int (od_points order) * after / od_paid order\<rfloor>) - already_revoked b (od_id order)) 0"

definition refundable :: "run_space \<Rightarrow> order_row \<Rightarrow> rat \<Rightarrow> bool" where
  "refundable b order amount \<longleftrightarrow>
     (od_status order = PAID \<or> od_status order = PARTIALLY_REFUNDED)
     \<and> is_cents amount \<and> 0 < amount
     \<and> (if REFUND_AGAINST_ORIGINAL \<in> run_profile b \<and> rs_scenario b = PROMOTION
        then amount \<le> od_paid order else amount \<le> od_paid order - od_refunded order)"

inductive move :: "run_space \<Rightarrow> run_space \<Rightarrow> bool" where
  open_account:
    "\<lbrakk>rs_users b = []; is_cents a; 0 \<le> a\<rbrakk> \<Longrightarrow>
     move b (b\<lparr>rs_users := [\<lparr>us_id = ''user-1'', us_balance = a, us_currency = c, us_points = 0,
       us_new = True, us_membership = INACTIVE, us_version = 0\<rparr>]\<rparr>)"
| issue:
    "\<lbrakk>user \<in> set (rs_users b); is_cents v; 0 < v; is_cents t; 0 \<le> t\<rbrakk> \<Longrightarrow>
     move b (b\<lparr>rs_coupons := rs_coupons b @ [\<lparr>cp_id = next_id (rs_coupons b) ''coupon'',
       cp_owner = us_id user, cp_face = v, cp_threshold = t, cp_currency = us_currency user,
       cp_status = AVAILABLE, cp_reserved = None, cp_used = None, cp_usage = 0, cp_version = 0\<rparr>]\<rparr>)"
| order:
    "\<lbrakk>user \<in> set (rs_users b); is_cents a; 0 < a\<rbrakk> \<Longrightarrow>
     move b (b\<lparr>rs_orders := rs_orders b @ [\<lparr>od_id = next_id (rs_orders b) ''order'',
       od_user = us_id user, od_original = a, od_discount = 0, od_paid = 0, od_refunded = 0,
       od_points = 0, od_currency = us_currency user, od_status = PENDING_PAYMENT, od_coupon = None,
       od_version = 0\<rparr>]\<rparr>)"
| reserve:
    "\<lbrakk>d \<in> set (rs_orders b); coupon \<in> set (rs_coupons b); od_coupon d = None;
      od_status d = PENDING_PAYMENT; cp_status coupon = AVAILABLE \<or> cp_status coupon = RESTORED\<rbrakk> \<Longrightarrow>
     move b (put_coupon (coupon\<lparr>cp_status := RESERVED, cp_reserved := Some (od_id d),
         cp_version := cp_version coupon + 1\<rparr>)
       (put_order (d\<lparr>od_discount := min (cp_face coupon) (od_original d), od_coupon := Some (cp_id coupon),
         od_version := od_version d + 1\<rparr>) b))"
| use_coupon:
    "\<lbrakk>coupon \<in> set (rs_coupons b); cp_status coupon = RESERVED; cp_reserved coupon = Some i\<rbrakk> \<Longrightarrow>
     move b (put_coupon (coupon\<lparr>cp_status := USED, cp_reserved := None, cp_used := Some i,
         cp_usage := cp_usage coupon + 1, cp_version := cp_version coupon + 1\<rparr>) b)"
| release:
    "\<lbrakk>coupon \<in> set (rs_coupons b); cp_status coupon = RESERVED\<rbrakk> \<Longrightarrow>
     move b (put_coupon (coupon\<lparr>cp_status := RESTORED, cp_reserved := None,
         cp_version := cp_version coupon + 1\<rparr>) b)"
| restore:
    "\<lbrakk>coupon \<in> set (rs_coupons b); rs_scenario b = PROMOTION; COUPON_RESTORED_ON_REFUND \<in> run_profile b\<rbrakk> \<Longrightarrow>
     move b (put_coupon (coupon\<lparr>cp_status := AVAILABLE, cp_used := None,
         cp_version := cp_version coupon + 1\<rparr>) b)"
| capture:
    "\<lbrakk>d \<in> set (rs_orders b); od_status d = PENDING_PAYMENT; user \<in> set (rs_users b);
      us_id user = od_user d; paid = od_original d - od_discount d; 0 < paid; paid \<le> us_balance user\<rbrakk> \<Longrightarrow>
     move b (capture_books amb k paid d user b)"
| cancel:
    "\<lbrakk>d \<in> set (rs_orders b); od_status d = DRAFT \<or> od_status d = PENDING_PAYMENT\<rbrakk> \<Longrightarrow>
     move b (put_order (d\<lparr>od_status := CANCELLED, od_version := od_version d + 1\<rparr>) b)"
| refund:
    "\<lbrakk>d \<in> set (rs_orders b); refundable b d amount; user \<in> set (rs_users b); us_id user = od_user d;
      rs_scenario b \<noteq> REFUND_POINTS\<rbrakk> \<Longrightarrow>
     move b (refund_books amb k amount 0 1 d user b)"
| refund_revoke:
    "\<lbrakk>d \<in> set (rs_orders b); refundable b d amount; user \<in> set (rs_users b); us_id user = od_user d;
      rs_scenario b = REFUND_POINTS; POINTS_GRANTED_AGAIN_ON_REFUND \<notin> run_profile b;
      due = points_due b d (od_refunded d + amount); 0 < due; due \<le> us_points user\<rbrakk> \<Longrightarrow>
     move b (add_ledger amb (us_id user) (Some (od_id d)) REVOKE (- due) k'
       (refund_books amb k amount (- due) 2 d user b))"
| refund_keep:
    "\<lbrakk>d \<in> set (rs_orders b); refundable b d amount; user \<in> set (rs_users b); us_id user = od_user d;
      rs_scenario b = REFUND_POINTS; POINTS_GRANTED_AGAIN_ON_REFUND \<notin> run_profile b;
      points_due b d (od_refunded d + amount) = 0\<rbrakk> \<Longrightarrow>
     move b (refund_books amb k amount 0 1 d user b)"
| refund_regrant:
    "\<lbrakk>d \<in> set (rs_orders b); refundable b d amount; user \<in> set (rs_users b); us_id user = od_user d;
      rs_scenario b = REFUND_POINTS; POINTS_GRANTED_AGAIN_ON_REFUND \<in> run_profile b;
      extra = points_for amount\<rbrakk> \<Longrightarrow>
     move b (add_ledger amb (us_id user) (Some (od_id d)) GRANT extra k'
       (refund_books amb k amount extra 1 d user b))"
| redeem:
    "\<lbrakk>user \<in> set (rs_users b); 0 < n;
      n \<le> us_points user \<or> (rs_scenario b = REFUND_POINTS \<and> POINTS_OVERREDEMPTION \<in> run_profile b)\<rbrakk> \<Longrightarrow>
     move b (add_ledger amb (us_id user) None REDEEM (- n) k
       (put_user (user\<lparr>us_points := us_points user - n, us_version := us_version user + 1\<rparr>) b))"
| join:
    "\<lbrakk>user \<in> set (rs_users b); us_membership user = INACTIVE; is_cents p; 0 < p; p \<le> us_balance user; 0 < q\<rbrakk> \<Longrightarrow>
     move b ((put_user (user\<lparr>us_balance := us_balance user - p, us_membership := ACTIVE,
         us_version := us_version user + 1\<rparr>) b)
       \<lparr>rs_memberships := rs_memberships b @ [\<lparr>mb_id = next_id (rs_memberships b) ''membership'',
           mb_user = us_id user, mb_paid = p, mb_currency = us_currency user, mb_status = MActive,
           mb_version = 0\<rparr>],
        rs_entitlements := rs_entitlements b @ [\<lparr>en_id = next_id (rs_entitlements b) ''entitlement'',
           en_membership = next_id (rs_memberships b) ''membership'', en_type = ''USAGE'',
           en_granted = q, en_consumed = 0, en_revoked = 0, en_status = GRANTED, en_version = 0\<rparr>]\<rparr>)"
| consume:
    "\<lbrakk>e \<in> set (rs_entitlements b); en_status e \<noteq> REVOKED; en_status e \<noteq> CONSUMED; 0 < q;
      q \<le> available_quantity e \<or> ENTITLEMENT_OVERCONSUMPTION \<in> run_profile b\<rbrakk> \<Longrightarrow>
     move b (put_entitlement (e\<lparr>en_consumed := en_consumed e + q,
         en_status := (if en_granted e \<le> en_consumed e + q then CONSUMED else PARTIALLY_CONSUMED),
         en_version := en_version e + 1\<rparr>) b)"
| revoke:
    "\<lbrakk>e \<in> set (rs_entitlements b); 0 < available_quantity e\<rbrakk> \<Longrightarrow>
     move b (put_entitlement (e\<lparr>en_revoked := en_revoked e + available_quantity e,
         en_status := REVOKED, en_version := en_version e + 1\<rparr>) b)"
| leave_refunded:
    "\<lbrakk>m \<in> set (rs_memberships b); mb_status m = MActive; user \<in> set (rs_users b); us_id user = mb_user m;
      e \<in> set (rs_entitlements b); en_membership e = mb_id m;
      0 < en_consumed e \<longrightarrow> FULL_REFUND_AFTER_CONSUMPTION \<in> run_profile b;
      ENTITLEMENT_LEFT_AFTER_REFUND \<in> run_profile b \<or> available_quantity e \<le> 0\<rbrakk> \<Longrightarrow>
     move b (put_membership (m\<lparr>mb_status := MRefunded, mb_version := mb_version m + 1\<rparr>)
       (put_user (user\<lparr>us_balance := us_balance user + mb_paid m, us_membership := INACTIVE\<rparr>) b))"
| leave_cancelled:
    "\<lbrakk>m \<in> set (rs_memberships b); mb_status m = MActive; user \<in> set (rs_users b); us_id user = mb_user m;
      e \<in> set (rs_entitlements b); en_membership e = mb_id m; available_quantity e \<le> 0\<rbrakk> \<Longrightarrow>
     move b (put_membership (m\<lparr>mb_status := MCancelled, mb_version := mb_version m + 1\<rparr>)
       (put_user (user\<lparr>us_membership := INACTIVE\<rparr>) b))"

section \<open>Numbered tables\<close>

definition numbered :: "('r \<Rightarrow> string) \<Rightarrow> string \<Rightarrow> 'r list \<Rightarrow> bool" where
  "numbered k prefix rows \<longleftrightarrow>
     map k rows = map (\<lambda>n. prefix @ ''-'' @ string_of_nat n) [1..<Suc (length rows)]"

lemma numbered_Nil [simp]: "numbered k prefix []"
  by (simp add: numbered_def)

lemma numbered_append [simp]:
  "\<lbrakk>numbered k prefix rows; k r = next_id rows prefix\<rbrakk> \<Longrightarrow> numbered k prefix (rows @ [r])"
  by (simp add: numbered_def next_id_def)

lemma numbered_put [simp]: "numbered k prefix (put_row k r rows) = numbered k prefix rows"
  by (simp add: numbered_def)

lemma numbered_distinct: "numbered k prefix rows \<Longrightarrow> distinct (map k rows)"
  by (simp add: numbered_def distinct_map inj_on_def)

lemma numbered_fresh:
  assumes "numbered k prefix rows" and "r \<in> set rows"
  shows "k r \<noteq> next_id rows prefix"
proof
  assume eq: "k r = next_id rows prefix"
  have "k r \<in> set (map k rows)" using assms(2) by simp
  then have "k r \<in> set (map (\<lambda>n. prefix @ ''-'' @ string_of_nat n) [1..<Suc (length rows)])"
    using assms(1) unfolding numbered_def by (simp only:)
  with eq show False by (auto simp: next_id_def)
qed

lemma map_put_row:
  assumes "distinct (map k rows)" and "x \<in> set rows" and "k r = k x" and "f r = f x"
  shows "map f (put_row k r rows) = map f rows"
proof -
  have "y = x" if "y \<in> set rows" "k y = k r" for y
    using that assms by (metis distinct_map inj_onD)
  with assms(4) show ?thesis by (auto simp: put_row_def)
qed

lemma sum_put_member:
  fixes f :: "'r \<Rightarrow> 'a::ab_group_add"
  assumes "distinct (map k rows)" and "x \<in> set rows" and "k r = k x"
  shows "sum_list (map f (put_row k r rows)) = sum_list (map f rows) + (f r - f x)"
  using assms sum_put_row [of k rows r x f] find_row_distinct [of k rows x] by simp

section \<open>Identifiers\<close>

definition one_account :: "run_space \<Rightarrow> bool" where
  "one_account b \<longleftrightarrow> rs_users b = [] \<or> (\<exists>u. rs_users b = [u] \<and> us_id u = ''user-1'')"

definition wf_ids :: "run_space \<Rightarrow> bool" where
  "wf_ids b \<longleftrightarrow> one_account b \<and> numbered cp_id ''coupon'' (rs_coupons b)
     \<and> numbered od_id ''order'' (rs_orders b) \<and> numbered rf_id ''refund'' (rs_refunds b)
     \<and> numbered mb_id ''membership'' (rs_memberships b) \<and> numbered en_id ''entitlement'' (rs_entitlements b)
     \<and> map en_membership (rs_entitlements b) = map mb_id (rs_memberships b)"

lemmas books_updates = put_defs add_ledger_def capture_books_def refund_books_def Let_def

lemma put_single: "one_account b \<Longrightarrow> user \<in> set (rs_users b) \<Longrightarrow> us_id r = us_id user \<Longrightarrow>
    put_row us_id r (rs_users b) = [r] \<and> rs_users b = [user] \<and> us_id r = ''user-1''"
  by (auto simp: one_account_def put_row_def)

lemma one_account_put [simp]:
  "one_account b \<Longrightarrow> user \<in> set (rs_users b) \<Longrightarrow> us_id r = us_id user \<Longrightarrow>
   rs_users b' = put_row us_id r (rs_users b) \<Longrightarrow> one_account b'"
  using put_single [of b user r] by (auto simp: one_account_def)

lemma move_ids: "\<lbrakk>move b b'; wf_ids b\<rbrakk> \<Longrightarrow> wf_ids b'"
proof (induction rule: move.induct)
  case (consume e b q)
  then show ?case
    by (auto simp: wf_ids_def books_updates one_account_def numbered_distinct
        intro: trans [OF map_put_row [where x = e]])
next
  case (revoke e b)
  then show ?case
    by (auto simp: wf_ids_def books_updates one_account_def numbered_distinct
        intro: trans [OF map_put_row [where x = e]])
qed (auto simp: wf_ids_def books_updates one_account_def put_row_def [of us_id] numbered_distinct)

section \<open>Rows\<close>

text \<open>What each row keeps to, with the defects that waive it.\<close>

definition overredeems :: "run_space \<Rightarrow> bool" where
  "overredeems b \<longleftrightarrow> rs_scenario b = REFUND_POINTS \<and> POINTS_OVERREDEMPTION \<in> run_profile b"

definition overrefunds :: "run_space \<Rightarrow> bool" where
  "overrefunds b \<longleftrightarrow> rs_scenario b = PROMOTION \<and> REFUND_AGAINST_ORIGINAL \<in> run_profile b"

definition restores_coupons :: "run_space \<Rightarrow> bool" where
  "restores_coupons b \<longleftrightarrow> rs_scenario b = PROMOTION \<and> COUPON_RESTORED_ON_REFUND \<in> run_profile b"

definition user_ok :: "run_space \<Rightarrow> user_row \<Rightarrow> bool" where
  "user_ok b u \<longleftrightarrow> is_cents (us_balance u) \<and> 0 \<le> us_balance u \<and> (0 \<le> us_points u \<or> overredeems b)"

definition coupon_ok :: "run_space \<Rightarrow> coupon_row \<Rightarrow> bool" where
  "coupon_ok b c \<longleftrightarrow> is_cents (cp_face c) \<and> 0 < cp_face c \<and> is_cents (cp_threshold c) \<and> 0 \<le> cp_threshold c
     \<and> 0 \<le> cp_usage c
     \<and> (cp_usage c = (if cp_status c = USED then 1 else 0) \<or> restores_coupons b)"

definition order_ok :: "run_space \<Rightarrow> order_row \<Rightarrow> bool" where
  "order_ok b d \<longleftrightarrow>
     is_cents (od_original d) \<and> is_cents (od_discount d) \<and> is_cents (od_paid d) \<and> is_cents (od_refunded d)
     \<and> 0 < od_original d \<and> 0 \<le> od_discount d \<and> od_discount d \<le> od_original d
     \<and> (od_refunded d \<le> od_paid d \<or> overrefunds b)
     \<and> od_points d = (if rs_scenario b = REFUND_POINTS then points_for (od_paid d) else 0)
     \<and> (case od_status d of
          PAID \<Rightarrow> 0 < od_paid d \<and> od_paid d = od_original d - od_discount d \<and> od_refunded d = 0
        | PARTIALLY_REFUNDED \<Rightarrow> od_paid d = od_original d - od_discount d \<and> 0 < od_refunded d \<and> od_refunded d < od_paid d
        | REFUNDED \<Rightarrow> 0 < od_paid d \<and> od_paid d = od_original d - od_discount d \<and> od_paid d \<le> od_refunded d
        | _ \<Rightarrow> od_paid d = 0 \<and> od_refunded d = 0)"

definition membership_ok :: "membership_row \<Rightarrow> bool" where
  "membership_ok m \<longleftrightarrow> is_cents (mb_paid m) \<and> 0 < mb_paid m"

definition entitlement_ok :: "run_space \<Rightarrow> entitlement_row \<Rightarrow> bool" where
  "entitlement_ok b e \<longleftrightarrow> 0 < en_granted e \<and> 0 \<le> en_consumed e \<and> 0 \<le> en_revoked e
     \<and> (if en_status e = REVOKED then available_quantity e = 0
        else en_revoked e = 0 \<and> (en_status e = CONSUMED \<longleftrightarrow> en_granted e \<le> en_consumed e))
     \<and> (0 \<le> available_quantity e \<or> ENTITLEMENT_OVERCONSUMPTION \<in> run_profile b)"

definition refund_ok :: "refund_row \<Rightarrow> bool" where
  "refund_ok r \<longleftrightarrow> is_cents (rf_amount r) \<and> 0 < rf_amount r"

definition wf_rows :: "run_space \<Rightarrow> bool" where
  "wf_rows b \<longleftrightarrow>
     (\<forall>u \<in> set (rs_users b). user_ok b u) \<and> (\<forall>c \<in> set (rs_coupons b). coupon_ok b c)
     \<and> (\<forall>d \<in> set (rs_orders b). order_ok b d) \<and> (\<forall>r \<in> set (rs_refunds b). refund_ok r)
     \<and> (\<forall>m \<in> set (rs_memberships b). membership_ok m)
     \<and> (\<forall>e \<in> set (rs_entitlements b). entitlement_ok b e)"

text \<open>The conditions depend on the run's scenario and profile only, which no move changes.\<close>

lemma move_fixed:
  "move b b' \<Longrightarrow> rs_scenario b' = rs_scenario b \<and> rs_version b' = rs_version b \<and> rs_axes b' = rs_axes b
     \<and> rs_id b' = rs_id b \<and> rs_epoch b' = rs_epoch b"
  by (induction rule: move.induct) (auto simp: books_updates)

lemma ok_cong:
  assumes "rs_scenario b' = rs_scenario b" "rs_version b' = rs_version b" "rs_axes b' = rs_axes b"
  shows "user_ok b' = user_ok b" "coupon_ok b' = coupon_ok b" "order_ok b' = order_ok b"
    "entitlement_ok b' = entitlement_ok b" "run_profile b' = run_profile b"
    "overredeems b' = overredeems b" "overrefunds b' = overrefunds b"
  using assms
  by (simp_all add: fun_eq_iff user_ok_def coupon_ok_def order_ok_def entitlement_ok_def overredeems_def
      overrefunds_def restores_coupons_def run_profile_def)

lemma wf_rowsI:
  assumes "move b b'" and "wf_rows b"
    and "\<forall>u \<in> set (rs_users b'). user_ok b u" and "\<forall>c \<in> set (rs_coupons b'). coupon_ok b c"
    and "\<forall>d \<in> set (rs_orders b'). order_ok b d" and "\<forall>r \<in> set (rs_refunds b'). refund_ok r"
    and "\<forall>m \<in> set (rs_memberships b'). membership_ok m" and "\<forall>e \<in> set (rs_entitlements b'). entitlement_ok b e"
  shows "wf_rows b'"
  using assms move_fixed [OF assms(1)] ok_cong [of b' b] by (simp add: wf_rows_def)

lemma points_for_nonneg: "0 \<le> a \<Longrightarrow> 0 \<le> points_for a"
  by (simp add: points_for_def)

lemma points_for_0 [simp]: "points_for 0 = 0"
  by (simp add: points_for_def)

lemma wf_rowsD:
  assumes "wf_rows b"
  shows "user \<in> set (rs_users b) \<Longrightarrow> user_ok b user" "c \<in> set (rs_coupons b) \<Longrightarrow> coupon_ok b c"
    "d \<in> set (rs_orders b) \<Longrightarrow> order_ok b d" "e \<in> set (rs_entitlements b) \<Longrightarrow> entitlement_ok b e"
    "m \<in> set (rs_memberships b) \<Longrightarrow> membership_ok m" "r \<in> set (rs_refunds b) \<Longrightarrow> refund_ok r"
  using assms by (auto simp: wf_rows_def)

lemma wf_rows_All:
  assumes "wf_rows b"
  shows "\<forall>u \<in> set (rs_users b). user_ok b u" "\<forall>c \<in> set (rs_coupons b). coupon_ok b c"
    "\<forall>d \<in> set (rs_orders b). order_ok b d" "\<forall>r \<in> set (rs_refunds b). refund_ok r"
    "\<forall>m \<in> set (rs_memberships b). membership_ok m" "\<forall>e \<in> set (rs_entitlements b). entitlement_ok b e"
  using assms by (auto simp: wf_rows_def)

text \<open>A written row keeps the table good when the row is.\<close>

lemma put_users_ok: "wf_rows b \<Longrightarrow> user_ok b r \<Longrightarrow> \<forall>u \<in> set (put_row us_id r (rs_users b)). user_ok b u"
  and put_orders_ok: "wf_rows b \<Longrightarrow> order_ok b d \<Longrightarrow> \<forall>d \<in> set (put_row od_id d (rs_orders b)). order_ok b d"
  and put_coupons_ok: "wf_rows b \<Longrightarrow> coupon_ok b c \<Longrightarrow> \<forall>c \<in> set (put_row cp_id c (rs_coupons b)). coupon_ok b c"
  and put_entitlements_ok: "wf_rows b \<Longrightarrow> entitlement_ok b e \<Longrightarrow>
    \<forall>e \<in> set (put_row en_id e (rs_entitlements b)). entitlement_ok b e"
  and put_memberships_ok: "wf_rows b \<Longrightarrow> membership_ok m \<Longrightarrow>
    \<forall>m \<in> set (put_row mb_id m (rs_memberships b)). membership_ok m"
  by (rule put_row_all; simp add: wf_rows_All)+

lemmas put_ok = put_users_ok put_orders_ok put_coupons_ok put_entitlements_ok put_memberships_ok

lemma refund_books_tables [simp]:
  "rs_users (refund_books amb k a dp n d u b) = put_row us_id (u\<lparr>us_balance := us_balance u + a,
     us_version := us_version u + n, us_points := us_points u + dp\<rparr>) (rs_users b)"
  "rs_orders (refund_books amb k a dp n d u b) = put_row od_id (d\<lparr>od_refunded := od_refunded d + a,
     od_status := refund_status d (od_refunded d + a), od_version := od_version d + 1\<rparr>) (rs_orders b)"
  "rs_coupons (refund_books amb k a dp n d u b) = rs_coupons b"
  "rs_memberships (refund_books amb k a dp n d u b) = rs_memberships b"
  "rs_entitlements (refund_books amb k a dp n d u b) = rs_entitlements b"
  "rs_ledger (refund_books amb k a dp n d u b) = rs_ledger b"
  "rs_refunds (refund_books amb k a dp n d u b) = rs_refunds b @
     [\<lparr>rf_id = next_id (rs_refunds b) ''refund'', rf_order = od_id d, rf_amount = a, rf_key = k, rf_at = amb_now amb\<rparr>]"
  by (simp_all add: refund_books_def put_defs Let_def)

lemma capture_books_tables [simp]:
  "rs_users (capture_books amb k p d u b) = put_row us_id (u\<lparr>us_balance := us_balance u - p,
     us_version := us_version u + 1,
     us_points := us_points u + (if rs_scenario b = REFUND_POINTS then points_for p else 0)\<rparr>) (rs_users b)"
  "rs_orders (capture_books amb k p d u b) = put_row od_id (d\<lparr>od_paid := p, od_status := PAID,
     od_version := od_version d + 1,
     od_points := od_points d + (if rs_scenario b = REFUND_POINTS then points_for p else 0)\<rparr>) (rs_orders b)"
  "rs_coupons (capture_books amb k p d u b) = rs_coupons b"
  "rs_memberships (capture_books amb k p d u b) = rs_memberships b"
  "rs_entitlements (capture_books amb k p d u b) = rs_entitlements b"
  "rs_refunds (capture_books amb k p d u b) = rs_refunds b"
  "rs_ledger (capture_books amb k p d u b) = rs_ledger b @
     (if rs_scenario b = REFUND_POINTS then [\<lparr>lg_id = amb_ledger amb, lg_user = us_id u,
       lg_order = Some (od_id d), lg_type = GRANT, lg_amount = points_for p, lg_key = k, lg_at = amb_now amb\<rparr>]
      else [])"
  by (simp_all add: capture_books_def put_defs Let_def add_ledger_def)

lemma order_ok_nonneg:
  assumes "order_ok b d"
  shows "0 \<le> od_paid d \<and> 0 \<le> od_refunded d \<and> 0 \<le> od_points d"
  using assms by (auto simp: order_ok_def points_for_nonneg split: order_status.splits)

lemma move_users_ok: "\<lbrakk>move b b'; wf_rows b\<rbrakk> \<Longrightarrow> \<forall>u \<in> set (rs_users b'). user_ok b u"
proof (induction rule: move.induct)
  case (open_account b a c)
  then show ?case by (simp add: user_ok_def)
next
  case (capture d b user paid amb k)
  then have "user_ok b user" "order_ok b d" by (simp_all add: wf_rowsD)
  with capture show ?case
    by - (simp add: put_defs add_ledger_def split del: if_split, rule put_users_ok, assumption, auto simp: user_ok_def order_ok_def points_for_nonneg)
next
  case (refund d b amount user amb k)
  then have "user_ok b user" by (simp add: wf_rowsD)
  with refund show ?case
    by - (simp add: put_defs add_ledger_def split del: if_split, rule put_users_ok, assumption, auto simp: user_ok_def refundable_def)
next
  case (refund_revoke d b amount user due amb k' k)
  then have "user_ok b user" by (simp add: wf_rowsD)
  with refund_revoke show ?case
    by - (simp add: put_defs add_ledger_def split del: if_split, rule put_users_ok, assumption, auto simp: user_ok_def refundable_def)
next
  case (refund_keep d b amount user amb k)
  then have "user_ok b user" by (simp add: wf_rowsD)
  with refund_keep show ?case
    by - (simp add: put_defs add_ledger_def split del: if_split, rule put_users_ok, assumption, auto simp: user_ok_def refundable_def)
next
  case (refund_regrant d b amount user extra amb k' k)
  then have "user_ok b user" by (simp add: wf_rowsD)
  with refund_regrant show ?case
    by - (simp add: put_defs add_ledger_def split del: if_split, rule put_users_ok, assumption, auto simp: user_ok_def refundable_def points_for_nonneg)
next
  case (redeem user b n amb k)
  then have "user_ok b user" by (simp add: wf_rowsD)
  with redeem show ?case
    by - (simp add: put_defs add_ledger_def split del: if_split, rule put_users_ok, assumption, auto simp: user_ok_def overredeems_def)
next
  case (join user b p q)
  then have "user_ok b user" by (simp add: wf_rowsD)
  with join show ?case
    by - (simp add: put_defs add_ledger_def split del: if_split, rule put_users_ok, assumption, auto simp: user_ok_def)
next
  case (leave_refunded m b user e)
  then have "user_ok b user" "membership_ok m" by (simp_all add: wf_rowsD)
  with leave_refunded show ?case
    by - (simp add: put_defs add_ledger_def split del: if_split, rule put_users_ok, assumption, auto simp: user_ok_def membership_ok_def)
next
  case (leave_cancelled m b user e)
  then have "user_ok b user" by (simp add: wf_rowsD)
  with leave_cancelled show ?case
    by - (simp add: put_defs add_ledger_def split del: if_split, rule put_users_ok, assumption, auto simp: user_ok_def)
qed (simp_all add: put_defs wf_rows_All)

lemma move_coupons_ok: "\<lbrakk>move b b'; wf_rows b\<rbrakk> \<Longrightarrow> \<forall>c \<in> set (rs_coupons b'). coupon_ok b c"
proof (induction rule: move.induct)
  case (issue user b v t)
  then show ?case by (simp add: wf_rows_All ball_Un) (simp add: coupon_ok_def)
next
  case (reserve d b coupon)
  then have "coupon_ok b coupon" by (simp add: wf_rowsD)
  with reserve show ?case
    by - (simp add: put_defs, rule put_coupons_ok, assumption, auto simp: coupon_ok_def)
next
  case (use_coupon coupon b i)
  then have "coupon_ok b coupon" by (simp add: wf_rowsD)
  with use_coupon show ?case
    by - (simp add: put_defs, rule put_coupons_ok, assumption, auto simp: coupon_ok_def)
next
  case (release coupon b)
  then have "coupon_ok b coupon" by (simp add: wf_rowsD)
  with release show ?case
    by - (simp add: put_defs, rule put_coupons_ok, assumption, auto simp: coupon_ok_def)
next
  case (restore coupon b)
  then have "coupon_ok b coupon" by (simp add: wf_rowsD)
  with restore show ?case
    by - (simp add: put_defs, rule put_coupons_ok, assumption, auto simp: coupon_ok_def restores_coupons_def)
qed (simp_all add: put_defs add_ledger_def wf_rows_All)

lemma move_entitlements_ok: "\<lbrakk>move b b'; wf_rows b\<rbrakk> \<Longrightarrow> \<forall>e \<in> set (rs_entitlements b'). entitlement_ok b e"
proof (induction rule: move.induct)
  case (join user b p q)
  then show ?case
    by (simp add: put_defs wf_rows_All ball_Un) (simp add: entitlement_ok_def available_quantity_def)
next
  case (consume e b q)
  then have "entitlement_ok b e" by (simp add: wf_rowsD)
  with consume show ?case
    by - (simp add: put_defs split del: if_split, rule put_entitlements_ok, assumption,
          auto simp: entitlement_ok_def available_quantity_def)
next
  case (revoke e b)
  then have "entitlement_ok b e" by (simp add: wf_rowsD)
  with revoke show ?case
    by - (simp add: put_defs, rule put_entitlements_ok, assumption,
          auto simp: entitlement_ok_def available_quantity_def)
qed (simp_all add: put_defs add_ledger_def wf_rows_All)

lemma move_memberships_ok: "\<lbrakk>move b b'; wf_rows b\<rbrakk> \<Longrightarrow> \<forall>m \<in> set (rs_memberships b'). membership_ok m"
proof (induction rule: move.induct)
  case (leave_refunded m b user e)
  then have "membership_ok m" by (simp add: wf_rowsD)
  with leave_refunded show ?case
    by - (simp add: put_defs, rule put_memberships_ok, assumption, auto simp: membership_ok_def)
next
  case (leave_cancelled m b user e)
  then have "membership_ok m" by (simp add: wf_rowsD)
  with leave_cancelled show ?case
    by - (simp add: put_defs, rule put_memberships_ok, assumption, auto simp: membership_ok_def)
next
  case (join user b p q)
  then show ?case by (simp add: put_defs wf_rows_All ball_Un) (simp add: membership_ok_def)
qed (simp_all add: put_defs add_ledger_def wf_rows_All)

lemma refundable_ok: "refundable b d a \<Longrightarrow> refund_ok \<lparr>rf_id = i, rf_order = j, rf_amount = a, rf_key = k, rf_at = t\<rparr>"
  by (simp add: refundable_def refund_ok_def)

lemma move_refunds_ok: "\<lbrakk>move b b'; wf_rows b\<rbrakk> \<Longrightarrow> \<forall>r \<in> set (rs_refunds b'). refund_ok r"
  by (induction rule: move.induct)
    (simp_all add: put_defs add_ledger_def wf_rows_All ball_Un refundable_ok)

lemma order_ok_refunded:
  assumes "order_ok b d" and "refundable b d amount"
  shows "order_ok b (d\<lparr>od_refunded := od_refunded d + amount,
     od_status := refund_status d (od_refunded d + amount), od_version := v\<rparr>)"
  using assms
  by (auto simp: order_ok_def refundable_def refund_status_def overrefunds_def split: if_splits)

lemma move_orders_ok: "\<lbrakk>move b b'; wf_rows b\<rbrakk> \<Longrightarrow> \<forall>d \<in> set (rs_orders b'). order_ok b d"
proof (induction rule: move.induct)
  case (order user b a)
  then show ?case by (simp add: wf_rows_All ball_Un) (simp add: order_ok_def)
next
  case (reserve d b coupon)
  then have "order_ok b d" "coupon_ok b coupon" by (simp_all add: wf_rowsD)
  with reserve show ?case
    by - (simp add: put_defs, rule put_orders_ok, assumption, auto simp: order_ok_def coupon_ok_def)
next
  case (capture d b user paid amb k)
  then have "order_ok b d" by (simp add: wf_rowsD)
  with capture show ?case
    by - (simp split del: if_split, rule put_orders_ok, assumption, auto simp: order_ok_def)
next
  case (cancel d b)
  then have "order_ok b d" by (simp add: wf_rowsD)
  with cancel show ?case
    by - (simp add: put_defs, rule put_orders_ok, assumption, auto simp: order_ok_def)
next
  case (refund d b amount user amb k)
  then have "order_ok b d" by (simp add: wf_rowsD)
  with refund show ?case by - (simp, rule put_orders_ok, assumption, simp add: order_ok_refunded)
next
  case (refund_revoke d b amount user due amb k' k)
  then have "order_ok b d" by (simp add: wf_rowsD)
  with refund_revoke show ?case
    by - (simp add: add_ledger_def, rule put_orders_ok, assumption, simp add: order_ok_refunded)
next
  case (refund_keep d b amount user amb k)
  then have "order_ok b d" by (simp add: wf_rowsD)
  with refund_keep show ?case by - (simp, rule put_orders_ok, assumption, simp add: order_ok_refunded)
next
  case (refund_regrant d b amount user extra amb k' k)
  then have "order_ok b d" by (simp add: wf_rowsD)
  with refund_regrant show ?case
    by - (simp add: add_ledger_def, rule put_orders_ok, assumption, simp add: order_ok_refunded)
qed (simp_all add: put_defs add_ledger_def wf_rows_All)

lemma move_rows: "\<lbrakk>move b b'; wf_rows b\<rbrakk> \<Longrightarrow> wf_rows b'"
  using wf_rowsI [of b b'] move_users_ok move_coupons_ok move_orders_ok move_refunds_ok move_memberships_ok
    move_entitlements_ok by blast

end
