(* ===== verification/Sandbox_Accounts.thy ===== *)
theory Sandbox_Accounts
  imports Sandbox_Books
begin

text \<open>
  What moves do to the accounts of a run: no move creates or destroys money, the points balance is
  the sum of the ledger, an order's refunded amount is the sum of its refund rows, points are
  revoked in step with refunds, and a closed membership leaves no usable entitlement.
\<close>

lemma wf_ids_distinct:
  assumes "wf_ids b"
  shows "distinct (map us_id (rs_users b))" "distinct (map cp_id (rs_coupons b))"
    "distinct (map od_id (rs_orders b))" "distinct (map mb_id (rs_memberships b))"
    "distinct (map en_id (rs_entitlements b))" "distinct (map en_membership (rs_entitlements b))"
  using assms numbered_distinct by (auto simp: wf_ids_def one_account_def)

section \<open>Money\<close>

definition held :: "membership_row \<Rightarrow> rat" where
  "held m = (if mb_status m = MRefunded then 0 else mb_paid m)"

definition wealth :: "run_space \<Rightarrow> rat" where
  "wealth b = sum_list (map us_balance (rs_users b))
     + sum_list (map (\<lambda>d. od_paid d - od_refunded d) (rs_orders b)) + sum_list (map held (rs_memberships b))"

lemma wealth_refund:
  assumes "wf_ids b" "user \<in> set (rs_users b)" "d \<in> set (rs_orders b)"
  shows "wealth (refund_books amb k a dp n d user b) = wealth b"
  using assms
  by (simp add: wealth_def wf_ids_distinct sum_put_member [where x = user] sum_put_member [where x = d])

lemma wealth_add_ledger [simp]: "wealth (add_ledger amb u od ty n k b) = wealth b"
  by (simp add: wealth_def)

lemma move_wealth:
  "\<lbrakk>move b b'; wf_ids b; wf_rows b; rs_users b \<noteq> []\<rbrakk> \<Longrightarrow> wealth b' = wealth b"
proof (induction rule: move.induct)
  case (reserve d b coupon)
  then show ?case by (simp add: wealth_def put_defs wf_ids_distinct sum_put_member [where x = d])
next
  case (capture d b user paid amb k)
  then have "order_ok b d" by (simp add: wf_rowsD)
  with capture show ?case
    by (simp add: wealth_def wf_ids_distinct sum_put_member [where x = d] sum_put_member [where x = user] order_ok_def)
next
  case (cancel d b)
  then show ?case by (simp add: wealth_def put_defs wf_ids_distinct sum_put_member [where x = d])
next
  case (redeem user b n amb k)
  then show ?case by (simp add: wealth_def put_defs wf_ids_distinct sum_put_member [where x = user])
next
  case (join user b p q)
  then show ?case by (simp add: wealth_def put_defs wf_ids_distinct sum_put_member [where x = user] held_def)
next
  case (leave_refunded m b user e)
  then show ?case
    by (simp add: wealth_def put_defs wf_ids_distinct sum_put_member [where x = user]
        sum_put_member [where x = m] held_def)
next
  case (leave_cancelled m b user e)
  then show ?case
    by (simp add: wealth_def put_defs wf_ids_distinct sum_put_member [where x = user]
        sum_put_member [where x = m] held_def)
qed (simp_all add: wealth_refund, simp_all add: wealth_def put_defs)

section \<open>Refund rows\<close>

definition refund_total :: "run_space \<Rightarrow> string \<Rightarrow> rat" where
  "refund_total b i = sum_list (map rf_amount (filter (\<lambda>r. rf_order r = i) (rs_refunds b)))"

definition refunds_match :: "run_space \<Rightarrow> bool" where
  "refunds_match b \<longleftrightarrow> (\<forall>d \<in> set (rs_orders b). od_refunded d = refund_total b (od_id d))
     \<and> (\<forall>r \<in> set (rs_refunds b). rf_order r \<in> od_id ` set (rs_orders b))"

lemma set_put_keys: "k ` set (put_row k r rows) = k ` set rows"
  by (metis put_row_keys set_map)

lemma refund_total_fresh:
  assumes "refunds_match b" and "wf_ids b"
  shows "refund_total b (next_id (rs_orders b) ''order'') = 0"
proof -
  have "rf_order r \<noteq> next_id (rs_orders b) ''order''" if "r \<in> set (rs_refunds b)" for r
    using assms that numbered_fresh [of od_id "''order''" "rs_orders b"]
    by (auto simp: refunds_match_def wf_ids_def image_iff)
  then have "filter (\<lambda>r. rf_order r = next_id (rs_orders b) ''order'') (rs_refunds b) = []"
    by (simp add: filter_empty_conv)
  then show ?thesis by (simp only: refund_total_def list.map sum_list.Nil)
qed

lemma refunds_match_put:
  assumes "refunds_match b" "d \<in> set (rs_orders b)" "rs_orders b' = put_row od_id d' (rs_orders b)"
    "rs_refunds b' = rs_refunds b" "od_id d' = od_id d" "od_refunded d' = od_refunded d"
  shows "refunds_match b'"
  using assms by (auto simp: refunds_match_def refund_total_def set_put_keys dest: in_put_rowD)

lemma refunds_match_refund:
  assumes "refunds_match b" "d \<in> set (rs_orders b)"
  shows "refunds_match (refund_books amb k a dp n d user b)"
  using assms by (auto simp: refunds_match_def refund_total_def set_put_keys dest!: in_put_rowD)

lemma refunds_match_add_ledger [simp]: "refunds_match (add_ledger amb u od ty n k b) = refunds_match b"
  by (simp add: refunds_match_def refund_total_def)

lemma move_refunds_match: "\<lbrakk>move b b'; wf_ids b; refunds_match b\<rbrakk> \<Longrightarrow> refunds_match b'"
proof (induction rule: move.induct)
  case (order user b a)
  then show ?case
    using refund_total_fresh [of b] by (auto simp: refunds_match_def refund_total_def)
next
  case (reserve d b coupon)
  then show ?case by (simp add: put_defs refunds_match_put [of b d])
next
  case (capture d b user paid amb k)
  then show ?case by (simp add: refunds_match_put [of b d])
next
  case (cancel d b)
  then show ?case by (simp add: put_defs refunds_match_put [of b d])
qed (simp_all add: refunds_match_refund,
     simp_all add: put_defs refunds_match_def refund_total_def)

section \<open>Points\<close>

definition points_match :: "run_space \<Rightarrow> bool" where
  "points_match b \<longleftrightarrow> sum_list (map us_points (rs_users b)) = sum_list (map lg_amount (rs_ledger b))"

lemma move_points_match: "\<lbrakk>move b b'; wf_ids b; points_match b\<rbrakk> \<Longrightarrow> points_match b'"
proof (induction rule: move.induct)
  case (capture d b user paid amb k)
  then show ?case
    by (auto simp: points_match_def wf_ids_distinct sum_put_member [where x = user])
next
  case (refund d b amount user amb k)
  then show ?case by (simp add: points_match_def wf_ids_distinct sum_put_member [where x = user])
next
  case (refund_revoke d b amount user due amb k' k)
  then show ?case
    by (simp add: points_match_def add_ledger_def wf_ids_distinct sum_put_member [where x = user])
next
  case (refund_keep d b amount user amb k)
  then show ?case by (simp add: points_match_def wf_ids_distinct sum_put_member [where x = user])
next
  case (refund_regrant d b amount user extra amb k' k)
  then show ?case
    by (simp add: points_match_def add_ledger_def wf_ids_distinct sum_put_member [where x = user])
next
  case (redeem user b n amb k)
  then show ?case
    by (simp add: points_match_def put_defs add_ledger_def wf_ids_distinct sum_put_member [where x = user])
next
  case (join user b p q)
  then show ?case by (simp add: points_match_def put_defs wf_ids_distinct sum_put_member [where x = user])
next
  case (leave_refunded m b user e)
  then show ?case by (simp add: points_match_def put_defs wf_ids_distinct sum_put_member [where x = user])
next
  case (leave_cancelled m b user e)
  then show ?case by (simp add: points_match_def put_defs wf_ids_distinct sum_put_member [where x = user])
qed (simp_all add: points_match_def put_defs)


text \<open>
  In a \<^verbatim>\<open>REFUND_POINTS\<close> run without the re-granting defect, the ledger holds what each
  order granted, and takes back no more than that, all of it once the order is fully refunded.
\<close>

definition granted :: "run_space \<Rightarrow> string \<Rightarrow> int" where
  "granted b i = sum_list (map lg_amount
     (filter (\<lambda>l. lg_order l = Some i \<and> lg_type l = GRANT) (rs_ledger b)))"

definition regrants :: "run_space \<Rightarrow> bool" where
  "regrants b \<longleftrightarrow> rs_scenario b = REFUND_POINTS \<and> POINTS_GRANTED_AGAIN_ON_REFUND \<in> run_profile b"

definition order_points_ok :: "run_space \<Rightarrow> order_row \<Rightarrow> bool" where
  "order_points_ok b d \<longleftrightarrow> granted b (od_id d) = od_points d
     \<and> 0 \<le> already_revoked b (od_id d) \<and> already_revoked b (od_id d) \<le> od_points d
     \<and> (od_status d = REFUNDED \<longrightarrow> already_revoked b (od_id d) = od_points d)"

definition order_points_match :: "run_space \<Rightarrow> bool" where
  "order_points_match b \<longleftrightarrow> (\<forall>d \<in> set (rs_orders b). order_points_ok b d)
     \<and> (\<forall>l \<in> set (rs_ledger b). \<forall>i. lg_order l = Some i \<longrightarrow> i \<in> od_id ` set (rs_orders b))"

lemma ledger_fresh:
  assumes "order_points_match b" and "wf_ids b"
  shows "granted b (next_id (rs_orders b) ''order'') = 0" (is "?g = 0")
    and "already_revoked b (next_id (rs_orders b) ''order'') = 0"
proof -
  have "lg_order l \<noteq> Some (next_id (rs_orders b) ''order'')" if l: "l \<in> set (rs_ledger b)" for l
  proof
    assume "lg_order l = Some (next_id (rs_orders b) ''order'')"
    then obtain d where "d \<in> set (rs_orders b)" "od_id d = next_id (rs_orders b) ''order''"
      using assms(1) l by (fastforce simp: order_points_match_def)
    with assms(2) show False by (auto simp: wf_ids_def dest: numbered_fresh)
  qed
  then have empty: "filter (\<lambda>l. lg_order l = Some (next_id (rs_orders b) ''order'') \<and> lg_type l = ty) (rs_ledger b) = []"
    for ty by (auto simp: filter_empty_conv)
  show "?g = 0" and "already_revoked b (next_id (rs_orders b) ''order'') = 0"
    by (simp_all only: granted_def already_revoked_def empty list.map sum_list.Nil minus_zero)
qed

lemma order_points_put:
  assumes "order_points_match b" "d \<in> set (rs_orders b)" "rs_orders b' = put_row od_id d' (rs_orders b)"
    "rs_ledger b' = rs_ledger b" "od_id d' = od_id d" "od_points d' = od_points d"
    "od_status d' = REFUNDED \<Longrightarrow> already_revoked b (od_id d) = od_points d"
  shows "order_points_match b'"
proof -
  have same: "granted b' = granted b" "already_revoked b' = already_revoked b"
    using assms(4) by (simp_all add: fun_eq_iff granted_def already_revoked_def)
  have "order_points_ok b d" using assms(1,2) by (simp add: order_points_match_def)
  then have "order_points_ok b d'" using assms(5-7) by (simp add: order_points_ok_def)
  then show ?thesis
    using assms(1,3,4) by (auto simp: order_points_match_def order_points_ok_def same set_put_keys dest!: in_put_rowD)
qed

lemma order_points_ledger:
  assumes "order_points_match b" "d \<in> set (rs_orders b)" "rs_orders b' = put_row od_id d' (rs_orders b)"
    "rs_ledger b' = rs_ledger b @ [l]" "od_id d' = od_id d" "lg_order l = Some (od_id d)"
    "order_points_ok b' d'"
  shows "order_points_match b'"
proof -
  have other: "granted b' i = granted b i" "already_revoked b' i = already_revoked b i" if "i \<noteq> od_id d" for i
    using assms(4,6) that by (auto simp: granted_def already_revoked_def)
  show ?thesis unfolding order_points_match_def
  proof (intro conjI ballI)
    fix x assume "x \<in> set (rs_orders b')"
    then have "x = d' \<or> (x \<in> set (rs_orders b) \<and> od_id x \<noteq> od_id d)"
      using assms(3,5) by (auto dest: in_put_rowD)
    then show "order_points_ok b' x"
      using assms(1,7) other by (auto simp: order_points_match_def order_points_ok_def)
  next
    fix x assume "x \<in> set (rs_ledger b')"
    moreover have "od_id ` set (rs_orders b') = od_id ` set (rs_orders b)"
      by (simp add: assms(3) set_put_keys)
    ultimately show "\<forall>i. lg_order x = Some i \<longrightarrow> i \<in> od_id ` set (rs_orders b')"
      using assms(1,2,4,6) by (auto simp: order_points_match_def)
  qed
qed

lemma order_points_cong:
  "\<lbrakk>rs_orders b' = rs_orders b; rs_ledger b' = rs_ledger b; order_points_match b\<rbrakk> \<Longrightarrow> order_points_match b'"
  by (simp add: order_points_match_def order_points_ok_def granted_def already_revoked_def)

lemma move_order_points:
  "\<lbrakk>move b b'; wf_ids b; wf_rows b; rs_scenario b = REFUND_POINTS; \<not> regrants b; order_points_match b\<rbrakk>
   \<Longrightarrow> order_points_match b'"
proof (induction rule: move.induct)
  case (order user b a)
  then show ?case
    using ledger_fresh [of b]
    by (auto simp: order_points_match_def order_points_ok_def granted_def already_revoked_def)
next
  case (reserve d b coupon)
  then show ?case by - (rule order_points_put [where b = b and d = d], assumption, assumption, simp add: put_defs, simp_all add: put_defs)
next
  case (cancel d b)
  then show ?case by - (rule order_points_put [where b = b and d = d], assumption, assumption, simp add: put_defs, simp_all add: put_defs)
next
  case (capture d b user paid amb k)
  have "order_points_ok b d" "order_ok b d"
    using capture by (simp_all add: order_points_match_def wf_rowsD)
  then have z: "granted b (od_id d) = 0" "already_revoked b (od_id d) = 0" "od_points d = 0"
    using capture by (auto simp: order_points_ok_def order_ok_def)
  have "0 \<le> points_for paid" using capture by (simp add: points_for_nonneg)
  with z have "order_points_ok (capture_books amb k paid d user b)
     (d\<lparr>od_paid := paid, od_status := PAID, od_version := od_version d + 1, od_points := od_points d + points_for paid\<rparr>)"
    using capture.hyps(2) capture.prems(3)
    by (simp add: order_points_ok_def granted_def already_revoked_def)
  with capture show ?case
    by - (rule order_points_ledger [where b = b and d = d], assumption, assumption, simp, simp, simp_all)
next
  case (refund_revoke d b amount user due amb k' k)
  have ok: "order_points_ok b d" "order_ok b d"
    using refund_revoke by (simp_all add: order_points_match_def wf_rowsD)
  have paid: "0 < od_paid d" "0 \<le> od_points d" "od_refunded d + amount \<le> od_paid d"
    using refund_revoke ok(2) by (auto simp: order_ok_def refundable_def points_for_nonneg)
  then have "of_int (od_points d) * (od_refunded d + amount) \<le> of_int (od_points d) * od_paid d"
    by (intro mult_left_mono) simp_all
  then have "of_int (od_points d) * (od_refunded d + amount) / od_paid d \<le> of_int (od_points d)"
    using paid(1) by (simp add: divide_le_eq)
  then have "\<lfloor>of_int (od_points d) * (od_refunded d + amount) / od_paid d\<rfloor> \<le> od_points d"
    by (metis floor_mono floor_of_int)
  then have due: "due \<le> od_points d - already_revoked b (od_id d)"
    "od_paid d \<le> od_refunded d + amount \<Longrightarrow> due = od_points d - already_revoked b (od_id d)"
    using refund_revoke ok(1) by (auto simp: points_due_def order_points_ok_def)
  have "order_points_ok (add_ledger amb (us_id user) (Some (od_id d)) REVOKE (- due) k'
       (refund_books amb k amount (- due) 2 d user b))
     (d\<lparr>od_refunded := od_refunded d + amount, od_status := refund_status d (od_refunded d + amount),
        od_version := od_version d + 1\<rparr>)"
    using ok(1) due refund_revoke
    by (auto simp: order_points_ok_def granted_def already_revoked_def add_ledger_def refund_status_def split: if_splits)
  with refund_revoke show ?case
    by - (rule order_points_ledger [where b = b and d = d], assumption, assumption, simp add: add_ledger_def, simp add: add_ledger_def,
          simp_all)
next
  case (refund_keep d b amount user amb k)
  have ok: "order_points_ok b d" using refund_keep by (simp add: order_points_match_def)
  have "od_paid d \<le> od_refunded d + amount \<Longrightarrow> already_revoked b (od_id d) = od_points d"
    using refund_keep ok by (auto simp: points_due_def order_points_ok_def)
  with refund_keep show ?case
    by - (rule order_points_put [where b = b and d = d], assumption, assumption, simp, simp_all add: refund_status_def split: if_splits)
next
  case (redeem user b n amb k)
  then show ?case
    by (auto simp: put_defs add_ledger_def order_points_match_def order_points_ok_def granted_def already_revoked_def)
qed (simp_all add: put_defs regrants_def, simp_all add: order_points_match_def order_points_ok_def granted_def already_revoked_def)

section \<open>Memberships\<close>

definition closed :: "entitlement_row \<Rightarrow> bool" where
  "closed e \<longleftrightarrow> en_status e = REVOKED \<or> en_status e = CONSUMED"

definition active_count :: "run_space \<Rightarrow> int" where
  "active_count b = sum_list (map (\<lambda>m. if mb_status m = MActive then 1 else 0) (rs_memberships b))"

definition flag_count :: "run_space \<Rightarrow> int" where
  "flag_count b = sum_list (map (\<lambda>u. if us_membership u = ACTIVE then 1 else 0) (rs_users b))"

definition counts_match :: "run_space \<Rightarrow> bool" where
  "counts_match b \<longleftrightarrow> active_count b = flag_count b"

lemma flag_count_single:
  assumes "wf_ids b" "user \<in> set (rs_users b)"
  shows "flag_count b = (if us_membership user = ACTIVE then 1 else 0)"
  using assms by (auto simp: wf_ids_def one_account_def flag_count_def)

lemma active_count_member:
  assumes "m \<in> set (rs_memberships b)" and "mb_status m = MActive"
  shows "0 < active_count b"
proof -
  have nonneg: "0 \<le> sum_list (map (\<lambda>m. if mb_status m = MActive then 1 else 0 :: int) ms)" for ms
    by (rule sum_list_nonneg) auto
  obtain xs ys where "rs_memberships b = xs @ m # ys" using assms(1) split_list by fast
  then show ?thesis using nonneg [of xs] nonneg [of ys] assms(2) by (simp add: active_count_def)
qed

lemma flag_count_put:
  assumes "wf_ids b" "user \<in> set (rs_users b)" "us_id u' = us_id user" "us_membership u' = us_membership user"
    "rs_users b' = put_row us_id u' (rs_users b)"
  shows "flag_count b' = flag_count b"
  using assms by (simp add: flag_count_def wf_ids_distinct sum_put_member [where x = user])

lemma flag_count_refund [simp]:
  "wf_ids b \<Longrightarrow> user \<in> set (rs_users b) \<Longrightarrow> flag_count (refund_books amb k a dp n d user b) = flag_count b"
  "wf_ids b \<Longrightarrow> user \<in> set (rs_users b) \<Longrightarrow> flag_count (capture_books amb k a d user b) = flag_count b"
  by (auto simp: flag_count_def wf_ids_distinct sum_put_member [where x = user])

lemma leaving_member_active:
  assumes "wf_ids b" "counts_match b" "m \<in> set (rs_memberships b)" "mb_status m = MActive"
    "user \<in> set (rs_users b)"
  shows "us_membership user = ACTIVE"
  using assms active_count_member [of m b] flag_count_single [of b user]
  by (auto simp: counts_match_def split: if_splits)

lemma move_counts_match: "\<lbrakk>move b b'; wf_ids b; counts_match b\<rbrakk> \<Longrightarrow> counts_match b'"
proof (induction rule: move.induct)
  case (redeem user b n amb k)
  then show ?case
    by (simp add: counts_match_def active_count_def flag_count_def put_defs wf_ids_distinct sum_put_member [where x = user])
next
  case (join user b p q)
  then show ?case
    by (simp add: counts_match_def active_count_def flag_count_def put_defs wf_ids_distinct sum_put_member [where x = user])
next
  case (leave_refunded m b user e)
  then have "us_membership user = ACTIVE" by (intro leaving_member_active)
  with leave_refunded show ?case
    by (simp add: counts_match_def active_count_def flag_count_def put_defs wf_ids_distinct
        sum_put_member [where x = user] sum_put_member [where x = m])
next
  case (leave_cancelled m b user e)
  then have "us_membership user = ACTIVE" by (intro leaving_member_active)
  with leave_cancelled show ?case
    by (simp add: counts_match_def active_count_def flag_count_def put_defs wf_ids_distinct
        sum_put_member [where x = user] sum_put_member [where x = m])
next
  case (refund_revoke d b amount user due amb k' k)
  then show ?case
    using flag_count_refund(1) [of b user amb k amount "- due" 2 d]
    by (simp add: counts_match_def active_count_def flag_count_def)
next
  case (refund_regrant d b amount user extra amb k' k)
  then show ?case
    using flag_count_refund(1) [of b user amb k amount extra 1 d]
    by (simp add: counts_match_def active_count_def flag_count_def)
qed (simp_all add: counts_match_def, simp_all add: active_count_def flag_count_def put_defs)

text \<open>
  A membership that is no longer active leaves its entitlement shut, unless the defect that
  leaves it after a refund is injected.
\<close>

definition shut :: "entitlement_row \<Rightarrow> bool" where
  "shut e \<longleftrightarrow> en_status e = REVOKED \<or> en_status e = CONSUMED"

definition leaves_shut :: "defect_axis set \<Rightarrow> membership_row \<Rightarrow> entitlement_row \<Rightarrow> bool" where
  "leaves_shut P m e \<longleftrightarrow> (en_membership e = mb_id m \<and> mb_status m \<noteq> MActive \<longrightarrow>
     shut e \<or> (mb_status m = MRefunded \<and> ENTITLEMENT_LEFT_AFTER_REFUND \<in> P))"

definition entitlements_shut :: "run_space \<Rightarrow> bool" where
  "entitlements_shut b \<longleftrightarrow>
     (\<forall>m \<in> set (rs_memberships b). \<forall>e \<in> set (rs_entitlements b). leaves_shut (run_profile b) m e)"

lemma exhausted_shut: "\<lbrakk>entitlement_ok b e; available_quantity e \<le> 0\<rbrakk> \<Longrightarrow> shut e"
  by (auto simp: entitlement_ok_def shut_def available_quantity_def split: if_splits)

lemma same_entitlement:
  assumes "wf_ids b" "e \<in> set (rs_entitlements b)" "e' \<in> set (rs_entitlements b)"
    "en_membership e = en_membership e'"
  shows "e = e'"
  using assms wf_ids_distinct(6) [of b] by (auto simp: distinct_map dest: inj_onD)

lemma entitlement_not_new:
  assumes "wf_ids b" "e \<in> set (rs_entitlements b)"
  shows "en_membership e \<noteq> next_id (rs_memberships b) ''membership''"
proof -
  have "en_membership e \<in> mb_id ` set (rs_memberships b)"
    using assms by (metis wf_ids_def image_eqI set_map)
  moreover have "\<forall>m \<in> set (rs_memberships b). mb_id m \<noteq> next_id (rs_memberships b) ''membership''"
    using assms(1) numbered_fresh [of mb_id "''membership''" "rs_memberships b"] by (simp add: wf_ids_def)
  ultimately show ?thesis by auto
qed

lemma entitlements_shut_frame:
  "\<lbrakk>rs_memberships b' = rs_memberships b; rs_entitlements b' = rs_entitlements b;
    rs_version b' = rs_version b; rs_axes b' = rs_axes b\<rbrakk> \<Longrightarrow> entitlements_shut b' = entitlements_shut b"
  by (simp add: entitlements_shut_def run_profile_def)

lemma run_profile_put [simp]:
  "run_profile (put_user u b) = run_profile b" "run_profile (put_order d b) = run_profile b"
  "run_profile (put_coupon c b) = run_profile b" "run_profile (put_membership m b) = run_profile b"
  "run_profile (put_entitlement e b) = run_profile b"
  by (simp_all add: run_profile_def put_defs)

lemma move_entitlements_shut:
  "\<lbrakk>move b b'; wf_ids b; wf_rows b; entitlements_shut b\<rbrakk> \<Longrightarrow> entitlements_shut b'"
proof (induction rule: move.induct)
  case (join user b p q)
  have "\<forall>e \<in> set (rs_entitlements b). en_membership e \<noteq> next_id (rs_memberships b) ''membership''"
    "\<forall>m \<in> set (rs_memberships b). mb_id m \<noteq> next_id (rs_memberships b) ''membership''"
    using join.prems(1) entitlement_not_new [of b] numbered_fresh [of mb_id "''membership''" "rs_memberships b"]
    by (auto simp: wf_ids_def)
  with join show ?case
    by (auto simp: entitlements_shut_def put_defs leaves_shut_def wf_ids_def run_profile_def)
next
  case (consume e b q)
  then have "leaves_shut P m e \<Longrightarrow> leaves_shut P m (e\<lparr>en_consumed := c, en_status := st, en_version := v\<rparr>)"
    for P m c st v by (auto simp: leaves_shut_def shut_def)
  with consume show ?case
    by (auto simp: entitlements_shut_def put_entitlement_def run_profile_def dest!: in_put_rowD)
next
  case (revoke e b)
  have "leaves_shut P m (e\<lparr>en_revoked := c, en_status := REVOKED, en_version := v\<rparr>)" for P m c v
    by (simp add: leaves_shut_def shut_def)
  with revoke show ?case
    by (auto simp: entitlements_shut_def put_entitlement_def run_profile_def dest!: in_put_rowD)
next
  case (leave_refunded m b user e)
  then have "ENTITLEMENT_LEFT_AFTER_REFUND \<in> run_profile b \<or> shut e"
    using exhausted_shut [of b e] wf_rowsD(4) by blast
  moreover have "e' = e" if "e' \<in> set (rs_entitlements b)" "en_membership e' = mb_id m" for e'
    using that leave_refunded same_entitlement [of b e' e] by simp
  ultimately show ?case
    using leave_refunded.prems(3)
    by (auto simp: entitlements_shut_def put_defs leaves_shut_def run_profile_def dest!: in_put_rowD)
next
  case (leave_cancelled m b user e)
  then have "shut e" using exhausted_shut [of b e] wf_rowsD(4) by blast
  moreover have "e' = e" if "e' \<in> set (rs_entitlements b)" "en_membership e' = mb_id m" for e'
    using that leave_cancelled same_entitlement [of b e' e] by simp
  ultimately show ?case
    using leave_cancelled.prems(3)
    by (auto simp: entitlements_shut_def put_defs leaves_shut_def run_profile_def dest!: in_put_rowD)
qed (simp_all add: entitlements_shut_def run_profile_def refund_books_def capture_books_def Let_def put_defs)


section \<open>Well-formed books\<close>

definition wf_books :: "run_space \<Rightarrow> bool" where
  "wf_books b \<longleftrightarrow> wf_ids b \<and> wf_rows b \<and> refunds_match b \<and> points_match b \<and> counts_match b
     \<and> entitlements_shut b \<and> (rs_scenario b = REFUND_POINTS \<and> \<not> regrants b \<longrightarrow> order_points_match b)"

lemma wf_books_facts:
  assumes "wf_books b"
  shows "wf_ids b" "wf_rows b" "refunds_match b" "points_match b" "counts_match b" "entitlements_shut b"
    "rs_scenario b = REFUND_POINTS \<Longrightarrow> \<not> regrants b \<Longrightarrow> order_points_match b"
  using assms by (simp_all add: wf_books_def)

lemma move_wf: "move b b' \<Longrightarrow> wf_books b \<Longrightarrow> wf_books b'"
  using move_ids [of b b'] move_rows [of b b'] move_refunds_match [of b b'] move_points_match [of b b']
    move_counts_match [of b b'] move_entitlements_shut [of b b'] move_order_points [of b b'] move_fixed [of b b']
  by (auto simp: wf_books_def regrants_def run_profile_def)

lemma moves_wf: "move\<^sup>*\<^sup>* b b' \<Longrightarrow> wf_books b \<Longrightarrow> wf_books b'"
  by (induction rule: rtranclp_induct) (auto intro: move_wf)

lemma move_users_stay: "move b b' \<Longrightarrow> rs_users b \<noteq> [] \<Longrightarrow> rs_users b' \<noteq> []"
  by (induction rule: move.induct) (simp_all add: put_defs add_ledger_def)

lemma moves_wealth:
  "\<lbrakk>move\<^sup>*\<^sup>* b b'; wf_books b; rs_users b \<noteq> []\<rbrakk> \<Longrightarrow> wealth b' = wealth b \<and> rs_users b' \<noteq> []"
proof (induction rule: rtranclp_induct)
  case base
  then show ?case by simp
next
  case (step y z)
  then have "wf_books y" using moves_wf by blast
  with step show ?case using move_wealth [of y z] move_users_stay [of y z] by (simp add: wf_books_facts)
qed

section \<open>The life of an order\<close>

fun stage :: "order_status \<Rightarrow> nat" where
  "stage DRAFT = 0"
| "stage PENDING_PAYMENT = 1"
| "stage PAID = 2"
| "stage PARTIALLY_REFUNDED = 3"
| "stage REFUNDED = 4"
| "stage CANCELLED = 5"

instantiation order_status :: linorder
begin

definition less_eq_order_status :: "order_status \<Rightarrow> order_status \<Rightarrow> bool" where
  "s \<le> t \<longleftrightarrow> stage s \<le> stage t"

definition less_order_status :: "order_status \<Rightarrow> order_status \<Rightarrow> bool" where
  "s < t \<longleftrightarrow> stage s < stage t"

instance
proof
  fix s t u :: order_status
  show "s < t \<longleftrightarrow> s \<le> t \<and> \<not> t \<le> s" by (auto simp: less_eq_order_status_def less_order_status_def)
  show "s \<le> s" by (simp add: less_eq_order_status_def)
  show "s \<le> t \<Longrightarrow> t \<le> u \<Longrightarrow> s \<le> u" by (simp add: less_eq_order_status_def)
  show "s \<le> t \<Longrightarrow> t \<le> s \<Longrightarrow> s = t" by (cases s; cases t) (simp_all add: less_eq_order_status_def)
  show "s \<le> t \<or> t \<le> s" by (auto simp: less_eq_order_status_def)
qed

end

text \<open>
  \<open>advanced d d'\<close>: the same order later. A closed order never changes again, a paid one keeps
  what it was charged, and refunds only add up.
\<close>

definition advanced :: "order_row \<Rightarrow> order_row \<Rightarrow> bool" where
  "advanced d d' \<longleftrightarrow> od_id d' = od_id d \<and> od_user d' = od_user d \<and> od_original d' = od_original d
     \<and> od_currency d' = od_currency d \<and> od_status d \<le> od_status d' \<and> od_refunded d \<le> od_refunded d'
     \<and> (od_status d = REFUNDED \<or> od_status d = CANCELLED \<longrightarrow> d' = d)
     \<and> (od_status d = PAID \<or> od_status d = PARTIALLY_REFUNDED \<longrightarrow>
          od_status d' \<noteq> CANCELLED \<and> od_paid d' = od_paid d \<and> od_discount d' = od_discount d
          \<and> od_points d' = od_points d)"

definition orders_advanced :: "run_space \<Rightarrow> run_space \<Rightarrow> bool" where
  "orders_advanced b b' \<longleftrightarrow> (\<forall>d \<in> set (rs_orders b). \<exists>d' \<in> set (rs_orders b'). advanced d d')"

lemma advanced_refl [simp]: "advanced d d"
  by (auto simp: advanced_def)

lemma advanced_trans: "advanced d e \<Longrightarrow> advanced e f \<Longrightarrow> advanced d f"
  unfolding advanced_def
  by (cases "od_status d"; cases "od_status e"; auto simp: less_eq_order_status_def)

lemma orders_advanced_refl [simp]: "orders_advanced b b"
  by (auto simp: orders_advanced_def intro: advanced_refl)

lemma orders_advanced_trans: "orders_advanced b c \<Longrightarrow> orders_advanced c d \<Longrightarrow> orders_advanced b d"
  unfolding orders_advanced_def by (meson advanced_trans)

lemma orders_advanced_same: "rs_orders b' = rs_orders b @ xs \<Longrightarrow> orders_advanced b b'"
  by (auto simp: orders_advanced_def intro: advanced_refl)

lemma orders_advanced_put:
  assumes "wf_ids b" "d \<in> set (rs_orders b)" "rs_orders b' = put_row od_id d' (rs_orders b)" "advanced d d'"
  shows "orders_advanced b b'"
  unfolding orders_advanced_def
proof
  fix x assume x: "x \<in> set (rs_orders b)"
  have id: "od_id d' = od_id d" using assms(4) by (simp add: advanced_def)
  show "\<exists>y \<in> set (rs_orders b'). advanced x y"
  proof (cases "od_id x = od_id d")
    case True
    then have "x = d" using x assms(2) wf_ids_distinct(3) [OF assms(1)] by (auto simp: distinct_map dest: inj_onD)
    moreover have "d' \<in> set (rs_orders b')" using assms(2) by (auto simp: assms(3) put_row_def id)
    ultimately show ?thesis using assms(4) by blast
  next
    case False
    then have "x \<in> set (rs_orders b')" using x by (force simp: assms(3) put_row_def id)
    then show ?thesis using advanced_refl by blast
  qed
qed

lemma move_orders_advanced: "\<lbrakk>move b b'; wf_ids b; wf_rows b\<rbrakk> \<Longrightarrow> orders_advanced b b'"
proof (induction rule: move.induct)
  case (reserve d b coupon)
  then show ?case
    by - (rule orders_advanced_put [where d = d], assumption, assumption, simp add: put_defs, simp add: advanced_def)
next
  case (capture d b user paid amb k)
  then have "order_ok b d" by (simp add: wf_rowsD)
  with capture show ?case
    by - (rule orders_advanced_put [where d = d], assumption, assumption, simp,
          simp add: advanced_def order_ok_def less_eq_order_status_def)
next
  case (cancel d b)
  then show ?case
    by - (rule orders_advanced_put [where d = d], assumption, assumption, simp add: put_defs,
          auto simp: advanced_def less_eq_order_status_def)
next
  case (refund d b amount user amb k)
  then show ?case
    by - (rule orders_advanced_put [where d = d], assumption, assumption, simp,
          auto simp: advanced_def less_eq_order_status_def refundable_def refund_status_def)
next
  case (refund_revoke d b amount user due amb k' k)
  then show ?case
    by - (rule orders_advanced_put [where d = d], assumption, assumption, simp add: add_ledger_def,
          auto simp: advanced_def less_eq_order_status_def refundable_def refund_status_def)
next
  case (refund_keep d b amount user amb k)
  then show ?case
    by - (rule orders_advanced_put [where d = d], assumption, assumption, simp,
          auto simp: advanced_def less_eq_order_status_def refundable_def refund_status_def)
next
  case (refund_regrant d b amount user extra amb k' k)
  then show ?case
    by - (rule orders_advanced_put [where d = d], assumption, assumption, simp add: add_ledger_def,
          auto simp: advanced_def less_eq_order_status_def refundable_def refund_status_def)
qed (rule orders_advanced_same, simp add: put_defs add_ledger_def)+

lemma moves_orders_advanced: "\<lbrakk>move\<^sup>*\<^sup>* b b'; wf_books b\<rbrakk> \<Longrightarrow> orders_advanced b b'"
proof (induction rule: rtranclp_induct)
  case base
  then show ?case by simp
next
  case (step y z)
  then have "wf_books y" using moves_wf by blast
  with step show ?case
    using move_orders_advanced [of y z] orders_advanced_trans by (blast dest: wf_books_facts)
qed

end
