(* ===== verification/Sandbox_Refinement.thy ===== *)
theory Sandbox_Refinement
  imports Sandbox_Accounts
begin

text \<open>
  Every handler that succeeds is a sequence of moves of the books, so each account the moves keep
  is kept by the service. Failing handlers change nothing: the savepoint is rolled back.
\<close>

section \<open>Erasing events and receipts\<close>

lemma books_fields [simp]:
  "rs_id (books r) = rs_id r" "rs_scenario (books r) = rs_scenario r" "rs_version (books r) = rs_version r"
  "rs_axes (books r) = rs_axes r" "rs_epoch (books r) = rs_epoch r" "rs_users (books r) = rs_users r"
  "rs_coupons (books r) = rs_coupons r" "rs_orders (books r) = rs_orders r" "rs_refunds (books r) = rs_refunds r"
  "rs_ledger (books r) = rs_ledger r" "rs_memberships (books r) = rs_memberships r"
  "rs_entitlements (books r) = rs_entitlements r" "run_profile (books r) = run_profile r"
  by (simp_all add: books_def run_profile_def)

lemma books_erase [simp]:
  "books (add_event amb ag ai ty pl k r) = books r"
  "books (add_receipt rc r) = books r"
  "books (r\<lparr>rs_snapshot_version := n\<rparr>) = books r"
  "books (put_user u r) = put_user u (books r)" "books (put_order d r) = put_order d (books r)"
  "books (put_coupon c r) = put_coupon c (books r)" "books (put_membership m r) = put_membership m (books r)"
  "books (put_entitlement e r) = put_entitlement e (books r)"
  "books (add_ledger amb ui oo lt am lk r) = add_ledger amb ui oo lt am lk (books r)"
  "books (r\<lparr>rs_users := us\<rparr>) = (books r)\<lparr>rs_users := us\<rparr>"
  "books (r\<lparr>rs_coupons := cs\<rparr>) = (books r)\<lparr>rs_coupons := cs\<rparr>"
  "books (r\<lparr>rs_orders := ds\<rparr>) = (books r)\<lparr>rs_orders := ds\<rparr>"
  "books (r\<lparr>rs_refunds := fs\<rparr>) = (books r)\<lparr>rs_refunds := fs\<rparr>"
  "books (r\<lparr>rs_memberships := ms, rs_entitlements := es\<rparr>) = (books r)\<lparr>rs_memberships := ms, rs_entitlements := es\<rparr>"
  by (simp_all add: books_def add_event_def add_receipt_def put_defs add_ledger_def Let_def)

lemma wf_books_books [simp]: "wf_books (books r) = wf_books r"
proof -
  have "wf_ids (books r) = wf_ids r" by (simp add: wf_ids_def one_account_def)
  moreover have "wf_rows (books r) = wf_rows r"
    using ok_cong [of "books r" r] by (simp add: wf_rows_def)
  moreover have "refunds_match (books r) = refunds_match r" by (simp add: refunds_match_def refund_total_def)
  moreover have "points_match (books r) = points_match r" by (simp add: points_match_def)
  moreover have "counts_match (books r) = counts_match r"
    by (simp add: counts_match_def active_count_def flag_count_def)
  moreover have "entitlements_shut (books r) = entitlements_shut r" by (simp add: entitlements_shut_def)
  moreover have "order_points_match (books r) = order_points_match r"
    by (simp add: order_points_match_def order_points_ok_def granted_def already_revoked_def)
  ultimately show ?thesis by (simp add: wf_books_def regrants_def)
qed

lemma put_row_twice: "k r = k s \<Longrightarrow> put_row k r (put_row k s rows) = put_row k r rows"
  by (simp add: put_row_def)

section \<open>Handlers\<close>

lemmas handler_simps = result_simps fetch_defs Let_def require_def

lemma create_user_refines:
  assumes "create_user amb cmd key run = Inr (out, run')"
  shows "move\<^sup>*\<^sup>* (books run) (books run')"
proof -
  from assms obtain a c where *: "money_of (arg cmd ''initial_balance'') = Inr (a, c)" "rs_users run = []"
    by (auto simp: create_user_def result_simps Let_def)
  then have "books run' = (books run)\<lparr>rs_users := [\<lparr>us_id = ''user-1'', us_balance = a, us_currency = c,
       us_points = 0, us_new = True, us_membership = INACTIVE, us_version = 0\<rparr>]\<rparr>"
    using assms by (auto simp: create_user_def result_simps Let_def)
  with * money_of_InrD [OF *(1)] show ?thesis
    using move.open_account [of "books run" a c] by (simp add: r_into_rtranclp)
qed

lemma issue_coupon_refines:
  assumes "issue_coupon amb cmd key run = Inr (out, run')"
  shows "move\<^sup>*\<^sup>* (books run) (books run')"
proof -
  from assms obtain user v c t where *: "find_row us_id (target_or_actor cmd) (rs_users run) = Some user"
      "money_of (arg cmd ''value'') = Inr (v, c)" "money_of (arg cmd ''threshold'') = Inr (t, c)"
      "0 < v" "c = us_currency user"
    by (auto simp: issue_coupon_def result_simps fetch_defs Let_def)
  then have "books run' = (books run)\<lparr>rs_coupons := rs_coupons run @ [\<lparr>cp_id = next_id (rs_coupons run) ''coupon'',
       cp_owner = us_id user, cp_face = v, cp_threshold = t, cp_currency = us_currency user,
       cp_status = AVAILABLE, cp_reserved = None, cp_used = None, cp_usage = 0, cp_version = 0\<rparr>]\<rparr>"
    using assms by (auto simp: issue_coupon_def result_simps fetch_defs Let_def)
  with * money_of_InrD [OF *(2)] money_of_InrD [OF *(3)] find_row_SomeD [OF *(1)] show ?thesis
    using move.issue [of user "books run" v t] by (simp add: r_into_rtranclp)
qed

lemma create_order_refines:
  assumes "create_order amb cmd key run = Inr (out, run')"
  shows "move\<^sup>*\<^sup>* (books run) (books run')"
proof -
  from assms obtain user a where *: "find_row us_id (target_or_actor cmd) (rs_users run) = Some user"
      "money_of (arg cmd ''amount'') = Inr (a, us_currency user)" "0 < a"
    by (auto simp: create_order_def result_simps fetch_defs Let_def)
  then have "books run' = (books run)\<lparr>rs_orders := rs_orders run @ [\<lparr>od_id = next_id (rs_orders run) ''order'',
       od_user = us_id user, od_original = a, od_discount = 0, od_paid = 0, od_refunded = 0,
       od_points = 0, od_currency = us_currency user, od_status = PENDING_PAYMENT, od_coupon = None,
       od_version = 0\<rparr>]\<rparr>"
    using assms by (auto simp: create_order_def result_simps fetch_defs Let_def)
  with * money_of_InrD [OF *(2)] find_row_SomeD [OF *(1)] show ?thesis
    using move.order [of user "books run" a] by (simp add: r_into_rtranclp)
qed

lemma apply_coupon_refines:
  assumes "apply_coupon amb cmd key run = Inr (out, run')"
  shows "move\<^sup>*\<^sup>* (books run) (books run')"
proof -
  from assms obtain i d j coupon where *: "require_target cmd = Inr i" "find_row od_id i (rs_orders run) = Some d"
      "nonempty_string (arg cmd ''coupon_id'') = Inr j" "find_row cp_id j (rs_coupons run) = Some coupon"
    and c: "od_coupon d = None" "od_status d = PENDING_PAYMENT" "cp_status coupon = AVAILABLE \<or> cp_status coupon = RESTORED"
    by (auto simp: apply_coupon_def result_simps fetch_defs Let_def)
  then have "books run' = put_coupon (coupon\<lparr>cp_status := RESERVED, cp_reserved := Some (od_id d),
         cp_version := cp_version coupon + 1\<rparr>)
       (put_order (d\<lparr>od_discount := min (cp_face coupon) (od_original d), od_coupon := Some (cp_id coupon),
         od_version := od_version d + 1\<rparr>) (books run))"
    using assms c by (auto simp: apply_coupon_def result_simps fetch_defs Let_def)
  with c find_row_SomeD [OF *(2)] find_row_SomeD [OF *(4)] show ?thesis
    using move.reserve [of d "books run" coupon] by (simp add: r_into_rtranclp)
qed


text \<open>What the handlers do to a coupon is a move of any books with the same coupons and profile.\<close>

definition coupon_steps :: "run_space \<Rightarrow> coupon_row list \<Rightarrow> bool" where
  "coupon_steps run cs \<longleftrightarrow> (\<forall>b. rs_coupons b = rs_coupons run \<and> rs_scenario b = rs_scenario run
     \<and> run_profile b = run_profile run \<longrightarrow> move\<^sup>*\<^sup>* b (b\<lparr>rs_coupons := cs\<rparr>))"

lemma coupon_steps_refl [simp]: "coupon_steps run (rs_coupons run)"
  unfolding coupon_steps_def
proof (intro allI impI)
  fix b :: run_space assume "rs_coupons b = rs_coupons run \<and> rs_scenario b = rs_scenario run \<and> run_profile b = run_profile run"
  then have "b\<lparr>rs_coupons := rs_coupons run\<rparr> = b" by (cases b) simp
  then show "move\<^sup>*\<^sup>* b (b\<lparr>rs_coupons := rs_coupons run\<rparr>)" by simp
qed

lemma books_same_coupons: "books run = (books run)\<lparr>rs_coupons := rs_coupons run\<rparr>"
  by (cases run) (simp add: books_def)

lemma use_reserved_coupon_refines:
  assumes "use_reserved_coupon amb key d run = Inr run'"
  shows "\<exists>cs. books run' = (books run)\<lparr>rs_coupons := cs\<rparr> \<and> coupon_steps run cs
     \<and> rs_scenario run' = rs_scenario run"
proof (cases "od_coupon d")
  case None
  with assms have "run' = run" by (simp add: use_reserved_coupon_def)
  then show ?thesis using coupon_steps_refl books_same_coupons by blast
next
  case (Some j)
  with assms obtain c where c: "find_row cp_id j (rs_coupons run) = Some c"
      "cp_status c = RESERVED" "cp_reserved c = Some (od_id d)"
    by (auto simp: use_reserved_coupon_def result_simps fetch_defs Let_def)
  let ?c = "c\<lparr>cp_status := USED, cp_reserved := None, cp_used := Some (od_id d),
         cp_usage := cp_usage c + 1, cp_version := cp_version c + 1\<rparr>"
  have "coupon_steps run (put_row cp_id ?c (rs_coupons run))"
    using c(2,3) find_row_SomeD [OF c(1)] move.use_coupon [of c _ "od_id d"]
    by (auto simp: coupon_steps_def put_coupon_def intro!: r_into_rtranclp) metis
  moreover have "books run' = (books run)\<lparr>rs_coupons := put_row cp_id ?c (rs_coupons run)\<rparr>"
    using assms Some c by (auto simp: use_reserved_coupon_def result_simps fetch_defs Let_def put_coupon_def)
  moreover have "rs_scenario run' = rs_scenario run"
    using assms Some c by (auto simp: use_reserved_coupon_def result_simps fetch_defs Let_def put_coupon_def)
  ultimately show ?thesis by blast
qed

lemma release_coupon_refines:
  assumes "release_coupon amb key d run = Inr run'"
  shows "\<exists>cs. books run' = (books run)\<lparr>rs_coupons := cs\<rparr> \<and> coupon_steps run cs"
proof (cases "od_coupon d")
  case None
  with assms have "run' = run" by (simp add: release_coupon_def)
  then show ?thesis using coupon_steps_refl books_same_coupons by blast
next
  case (Some j)
  with assms obtain c where c: "find_row cp_id j (rs_coupons run) = Some c"
    by (auto simp: release_coupon_def result_simps fetch_defs Let_def)
  show ?thesis
  proof (cases "cp_status c = RESERVED \<and> cp_reserved c = Some (od_id d)")
    case True
    let ?c = "c\<lparr>cp_status := RESTORED, cp_reserved := None, cp_version := cp_version c + 1\<rparr>"
    have "coupon_steps run (put_row cp_id ?c (rs_coupons run))"
      using True find_row_SomeD [OF c(1)] move.release [of c]
      by (auto simp: coupon_steps_def put_coupon_def intro!: r_into_rtranclp) metis
    moreover have "books run' = (books run)\<lparr>rs_coupons := put_row cp_id ?c (rs_coupons run)\<rparr>"
      using assms Some c True by (auto simp: release_coupon_def result_simps fetch_defs Let_def put_coupon_def)
    ultimately show ?thesis by blast
  next
    case False
    with assms Some c have "run' = run" by (auto simp: release_coupon_def result_simps fetch_defs)
    then show ?thesis using coupon_steps_refl books_same_coupons by blast
  qed
qed

lemma refund_coupon_refines:
  assumes "refund_coupon amb key d run = Inr run'"
  shows "\<exists>cs. books run' = (books run)\<lparr>rs_coupons := cs\<rparr> \<and> coupon_steps run cs"
proof (cases "rs_scenario run = PROMOTION \<and> od_status d = REFUNDED \<and> COUPON_RESTORED_ON_REFUND \<in> run_profile run
    \<and> od_coupon d \<noteq> None")
  case False
  with assms have "run' = run" by (auto simp: refund_coupon_def split: if_splits)
  then show ?thesis using coupon_steps_refl books_same_coupons by blast
next
  case True
  with assms obtain j c where c: "od_coupon d = Some j" "find_row cp_id j (rs_coupons run) = Some c"
    by (auto simp: refund_coupon_def result_simps fetch_defs)
  let ?c = "c\<lparr>cp_status := AVAILABLE, cp_used := None, cp_version := cp_version c + 1\<rparr>"
  have "coupon_steps run (put_row cp_id ?c (rs_coupons run))"
    using True find_row_SomeD [OF c(2)] move.restore [of c]
    by (auto simp: coupon_steps_def put_coupon_def intro!: r_into_rtranclp) metis
  moreover have "books run' = (books run)\<lparr>rs_coupons := put_row cp_id ?c (rs_coupons run)\<rparr>"
    using assms True c by (auto simp: refund_coupon_def result_simps fetch_defs put_coupon_def)
  ultimately show ?thesis by blast
qed


lemma books_of_rows:
  assumes "wf_books run"
  shows "user \<in> set (rs_users run) \<Longrightarrow> user_ok run user" "d \<in> set (rs_orders run) \<Longrightarrow> order_ok run d"
    "m \<in> set (rs_memberships run) \<Longrightarrow> membership_ok m"
  using wf_books_facts(2) [OF assms] by (simp_all add: wf_rowsD)

lemma capture_books_two_steps:
  fixes d :: order_row and u :: user_row
  defines "d1 p \<equiv> d\<lparr>od_paid := p, od_status := PAID, od_version := od_version d + 1\<rparr>"
    and "u1 p \<equiv> u\<lparr>us_balance := us_balance u - p, us_version := us_version u + 1\<rparr>"
  assumes "od_points d = 0"
  shows "capture_books amb k p d u (b\<lparr>rs_coupons := cs\<rparr>) =
    (if rs_scenario b = REFUND_POINTS
     then add_ledger amb (us_id u) (Some (od_id d)) GRANT (points_for p) k
       (put_order (d1 p\<lparr>od_points := points_for p\<rparr>) (put_user (u1 p\<lparr>us_points := us_points u + points_for p\<rparr>)
         ((put_order (d1 p) (put_user (u1 p) b))\<lparr>rs_coupons := cs\<rparr>)))
     else (put_order (d1 p) (put_user (u1 p) b))\<lparr>rs_coupons := cs\<rparr>)"
  using assms(3)
  by (cases b; cases d; cases u)
    (simp add: d1_def u1_def capture_books_def put_defs put_row_twice add_ledger_def Let_def)

lemma pay_order_refines:
  assumes pay: "pay_order amb cmd key run = Inr (out, run')" and wf: "wf_books run"
  shows "move\<^sup>*\<^sup>* (books run) (books run')"
proof -
  from pay obtain i d user where i: "require_target cmd = Inr i" and d: "find_row od_id i (rs_orders run) = Some d"
      and u: "find_row us_id (od_user d) (rs_users run) = Some user" and st: "od_status d = PENDING_PAYMENT"
    by (auto simp: pay_order_def result_simps fetch_defs Let_def)
  note rows = find_row_SomeD [OF d] find_row_SomeD [OF u]
  have ok: "order_ok run d" "user_ok run user" using rows books_of_rows [OF wf] by auto
  let ?paid = "od_original d - od_discount d"
  have q: "quantize ?paid = ?paid" "quantize (us_balance user - ?paid) = us_balance user - ?paid"
    using ok by (auto simp: order_ok_def user_ok_def)
  let ?u1 = "user\<lparr>us_balance := us_balance user - ?paid, us_version := us_version user + 1\<rparr>"
  let ?d1 = "d\<lparr>od_paid := ?paid, od_status := PAID, od_version := od_version d + 1\<rparr>"
  from pay i d u st q obtain run2 where amounts: "0 < ?paid" "?paid \<le> us_balance user"
      and run2: "use_reserved_coupon amb key ?d1 (put_order ?d1 (put_user ?u1 run)) = Inr run2"
    by (auto simp: pay_order_def result_simps fetch_defs Let_def)
  from use_reserved_coupon_refines [OF run2] obtain cs where
      cs: "books run2 = (put_order ?d1 (put_user ?u1 (books run)))\<lparr>rs_coupons := cs\<rparr>"
      "coupon_steps (put_order ?d1 (put_user ?u1 run)) cs" by auto
  have "move\<^sup>*\<^sup>* (books run) ((books run)\<lparr>rs_coupons := cs\<rparr>)"
    using cs(2) by (simp add: coupon_steps_def) (simp add: put_defs)
  moreover have "move ((books run)\<lparr>rs_coupons := cs\<rparr>)
      (capture_books amb (key @ '':points-grant'') ?paid d user ((books run)\<lparr>rs_coupons := cs\<rparr>))"
    using rows st amounts by (intro move.capture) simp_all
  ultimately have moves: "move\<^sup>*\<^sup>* (books run)
      (capture_books amb (key @ '':points-grant'') ?paid d user ((books run)\<lparr>rs_coupons := cs\<rparr>))"
    by (rule rtranclp.rtrancl_into_rtrancl)
  have "od_points d = 0" using ok(1) st by (auto simp: order_ok_def)
  moreover have "books run' = (if rs_scenario run = REFUND_POINTS
       then add_ledger amb (us_id user) (Some (od_id d)) GRANT (points_for ?paid) (key @ '':points-grant'')
         (put_order (?d1\<lparr>od_points := points_for ?paid\<rparr>)
           (put_user (?u1\<lparr>us_points := us_points user + points_for ?paid\<rparr>) (books run2)))
       else books run2)"
    using pay i d u st q amounts run2
    by (auto simp: pay_order_def result_simps fetch_defs Let_def split: if_splits)
  ultimately have "books run' = capture_books amb (key @ '':points-grant'') ?paid d user ((books run)\<lparr>rs_coupons := cs\<rparr>)"
    unfolding cs(1) by (simp add: capture_books_two_steps)
  with moves show ?thesis by simp
qed

lemma cancel_order_refines:
  assumes c: "cancel_order amb cmd key run = Inr (out, run')"
  shows "move\<^sup>*\<^sup>* (books run) (books run')"
proof -
  from c obtain i d run1 where i: "require_target cmd = Inr i" and d: "find_row od_id i (rs_orders run) = Some d"
      and st: "od_status d = DRAFT \<or> od_status d = PENDING_PAYMENT" and run1: "release_coupon amb key d run = Inr run1"
    by (auto simp: cancel_order_def result_simps fetch_defs Let_def)
  from release_coupon_refines [OF run1] obtain cs where
    cs: "books run1 = (books run)\<lparr>rs_coupons := cs\<rparr>" "coupon_steps run cs" by auto
  have "move\<^sup>*\<^sup>* (books run) (books run1)" using cs by (simp add: coupon_steps_def)
  moreover have "move (books run1) (put_order (d\<lparr>od_status := CANCELLED, od_version := od_version d + 1\<rparr>) (books run1))"
    using st find_row_SomeD [OF d] cs(1) by (intro move.cancel) simp_all
  moreover have "books run' = put_order (d\<lparr>od_status := CANCELLED, od_version := od_version d + 1\<rparr>) (books run1)"
    using c i d st run1 by (auto simp: cancel_order_def result_simps fetch_defs Let_def)
  ultimately show ?thesis by simp
qed

lemma redeem_points_refines:
  assumes r: "redeem_points amb cmd key run = Inr (out, run')"
  shows "move\<^sup>*\<^sup>* (books run) (books run')"
proof -
  from r obtain n user where n: "positive_int (arg cmd ''amount'') = Inr n"
      and u: "find_row us_id (target_or_actor cmd) (rs_users run) = Some user"
      and ok: "n \<le> us_points user \<or> (rs_scenario run = REFUND_POINTS \<and> POINTS_OVERREDEMPTION \<in> run_profile run)"
    by (auto simp: redeem_points_def result_simps fetch_defs Let_def)
  then have "books run' = add_ledger amb (us_id user) None REDEEM (- n) (key @ '':points-redeem'')
       (put_user (user\<lparr>us_points := us_points user - n, us_version := us_version user + 1\<rparr>) (books run))"
    using r by (auto simp: redeem_points_def result_simps fetch_defs Let_def)
  with ok positive_int_Inr [OF n] find_row_SomeD [OF u] show ?thesis
    using move.redeem [of user "books run" n amb "key @ '':points-redeem''"] by (simp add: r_into_rtranclp)
qed

lemma activate_membership_refines:
  assumes a: "activate_membership amb cmd key run = Inr (out, run')" and wf: "wf_books run"
  shows "move\<^sup>*\<^sup>* (books run) (books run')"
proof -
  from a obtain user p n where u: "find_row us_id (target_or_actor cmd) (rs_users run) = Some user"
      and p: "money_of (arg cmd ''paid_amount'') = Inr (p, us_currency user)"
      and n: "positive_int (arg cmd ''quantity'') = Inr n"
      and ok: "0 < p" "us_membership user = INACTIVE" "p \<le> us_balance user"
    by (auto simp: activate_membership_def result_simps fetch_defs Let_def)
  have "is_cents (us_balance user)" "is_cents p"
    using find_row_SomeD [OF u] books_of_rows(1) [OF wf] money_of_InrD [OF p] by (auto simp: user_ok_def)
  then have q: "quantize (us_balance user - p) = us_balance user - p" by simp
  have "books run' = ((put_user (user\<lparr>us_balance := us_balance user - p, us_membership := ACTIVE,
         us_version := us_version user + 1\<rparr>) (books run))
       \<lparr>rs_memberships := rs_memberships run @ [\<lparr>mb_id = next_id (rs_memberships run) ''membership'',
           mb_user = us_id user, mb_paid = p, mb_currency = us_currency user, mb_status = MActive,
           mb_version = 0\<rparr>],
        rs_entitlements := rs_entitlements run @ [\<lparr>en_id = next_id (rs_entitlements run) ''entitlement'',
           en_membership = next_id (rs_memberships run) ''membership'', en_type = ''USAGE'',
           en_granted = n, en_consumed = 0, en_revoked = 0, en_status = GRANTED, en_version = 0\<rparr>]\<rparr>)"
    using a u p n ok q
    by (auto simp: activate_membership_def result_simps fetch_defs Let_def) (simp add: put_defs)
  with ok money_of_InrD [OF p] positive_int_Inr [OF n] find_row_SomeD [OF u] show ?thesis
    using move.join [of user "books run" p n] by (simp add: r_into_rtranclp)
qed

lemma consume_entitlement_refines:
  assumes c: "consume_entitlement amb cmd key run = Inr (out, run')"
  shows "move\<^sup>*\<^sup>* (books run) (books run')"
proof -
  from c obtain n i e where n: "positive_int (arg cmd ''quantity'') = Inr n" and i: "require_target cmd = Inr i"
      and e: "find_row en_id i (rs_entitlements run) = Some e"
      and st: "en_status e \<noteq> REVOKED" "en_status e \<noteq> CONSUMED"
      and ok: "n \<le> available_quantity e \<or> ENTITLEMENT_OVERCONSUMPTION \<in> run_profile run"
    by (auto simp: consume_entitlement_def result_simps fetch_defs Let_def)
  then have "books run' = put_entitlement (e\<lparr>en_consumed := en_consumed e + n,
         en_status := (if en_granted e \<le> en_consumed e + n then CONSUMED else PARTIALLY_CONSUMED),
         en_version := en_version e + 1\<rparr>) (books run)"
    using c by (auto simp: consume_entitlement_def result_simps fetch_defs Let_def)
  with ok st positive_int_Inr [OF n] find_row_SomeD [OF e] show ?thesis
    using move.consume [of e "books run" n] by (simp add: r_into_rtranclp)
qed

lemma inspect_state_refines: "inspect_state D amb cmd key run = Inr (out, run') \<Longrightarrow> run' = run"
  by (auto simp: inspect_state_def result_simps Let_def)


lemma refund_books_plain:
  "(put_order (d\<lparr>od_refunded := od_refunded d + a, od_status := refund_status d (od_refunded d + a),
       od_version := od_version d + 1\<rparr>)
     (put_user (u\<lparr>us_balance := us_balance u + a, us_version := us_version u + 1\<rparr>) b))
   \<lparr>rs_refunds := rs_refunds b @ [\<lparr>rf_id = next_id (rs_refunds b) ''refund'', rf_order = od_id d,
      rf_amount = a, rf_key = k, rf_at = amb_now amb\<rparr>]\<rparr> = refund_books amb k a 0 1 d u b"
  by (cases u) (simp add: refund_books_def put_defs Let_def)

lemma refund_books_points:
  "put_user (u\<lparr>us_balance := us_balance u + a, us_version := n, us_points := us_points u + dp\<rparr>)
     (refund_books amb k a 0 1 d u b) =
   (put_order (d\<lparr>od_refunded := od_refunded d + a, od_status := refund_status d (od_refunded d + a),
       od_version := od_version d + 1\<rparr>)
     (put_user (u\<lparr>us_balance := us_balance u + a, us_version := n, us_points := us_points u + dp\<rparr>) b))
   \<lparr>rs_refunds := rs_refunds b @ [\<lparr>rf_id = next_id (rs_refunds b) ''refund'', rf_order = od_id d,
      rf_amount = a, rf_key = k, rf_at = amb_now amb\<rparr>]\<rparr>"
  by (cases b; cases u) (simp add: refund_books_def put_defs put_row_twice Let_def)

lemma refund_books_points':
  "put_user (u\<lparr>us_balance := us_balance u + a, us_version := us_version u + m, us_points := us_points u + dp\<rparr>)
     (refund_books amb k a 0 1 d u b) = refund_books amb k a dp m d u b"
  unfolding refund_books_points by (cases u) (simp add: refund_books_def put_defs Let_def)

lemma refund_points_refines:
  fixes d :: order_row and user :: user_row and amount :: rat
  defines "u1 \<equiv> user\<lparr>us_balance := us_balance user + amount, us_version := us_version user + 1\<rparr>"
    and "d1 \<equiv> d\<lparr>od_refunded := od_refunded d + amount, od_status := refund_status d (od_refunded d + amount),
       od_version := od_version d + 1\<rparr>"
  assumes pts: "refund_points amb key amount u1 d1 run3 = Inr run4"
    and run3: "books run3 = refund_books amb key amount 0 1 d user (books run)"
    and rows: "d \<in> set (rs_orders run)" "refundable run d amount" "user \<in> set (rs_users run)" "us_id user = od_user d"
  shows "move (books run) (books run4)"
proof -
  have same: "rs_scenario run3 = rs_scenario run" "run_profile run3 = run_profile run" "rs_ledger run3 = rs_ledger run"
  proof -
    have "rs_scenario (books run3) = rs_scenario run" "rs_version (books run3) = rs_version run"
      "rs_axes (books run3) = rs_axes run" "rs_ledger (books run3) = rs_ledger run"
      unfolding run3 by (simp_all add: refund_books_def put_defs Let_def)
    then show "rs_scenario run3 = rs_scenario run" "run_profile run3 = run_profile run" "rs_ledger run3 = rs_ledger run"
      by (simp_all add: run_profile_def)
  qed
  have ref: "refundable (books run) d amount" using rows(2) by (simp add: refundable_def)
  consider "rs_scenario run \<noteq> REFUND_POINTS"
    | "rs_scenario run = REFUND_POINTS" "POINTS_GRANTED_AGAIN_ON_REFUND \<in> run_profile run"
    | "rs_scenario run = REFUND_POINTS" "POINTS_GRANTED_AGAIN_ON_REFUND \<notin> run_profile run" by blast
  then show ?thesis
  proof cases
    case 1
    with pts have "run4 = run3" by (simp add: refund_points_def same)
    with 1 rows ref run3 show ?thesis
      using move.refund [of d "books run" amount user amb key] by simp
  next
    case 2
    then have "books run4 = add_ledger amb (us_id user) (Some (od_id d)) GRANT (points_for amount)
        (key @ '':refund-points-grant'') (refund_books amb key amount (points_for amount) 1 d user (books run))"
      using pts refund_books_points' [where u = user and a = amount and m = 1 and dp = "points_for amount"
          and amb = amb and k = key and d = d and b = "books run"]
      by (auto simp: refund_points_def same u1_def d1_def run3 Let_def)
    with 2 rows ref show ?thesis
      using move.refund_regrant [where d = d and b = "books run" and amount = amount and user = user and amb = amb
          and k' = "key @ '':refund-points-grant''" and k = key]
      by simp
  next
    case 3
    let ?due = "points_due run d (od_refunded d + amount)"
    have due: "points_due (books run) d (od_refunded d + amount) = ?due"
      by (simp add: points_due_def already_revoked_def)
    have rev: "revoke_points amb key u1 d1 (od_paid d \<le> od_refunded d + amount) run3 = Inr run4"
      using 3 pts by (simp add: refund_points_def same d1_def)
    have ar: "already_revoked run3 (od_id d) = already_revoked run (od_id d)" by (simp add: already_revoked_def same)
    show ?thesis
    proof (cases "?due = 0")
      case True
      then have "run4 = run3"
        using rev by (auto simp: revoke_points_def require_def Let_def d1_def ar points_due_def split: if_splits)
      with 3 True rows ref due run3 show ?thesis
        using move.refund_keep [of d "books run" amount user amb key] by simp
    next
      case False
      then have "0 < ?due" by (simp add: points_due_def)
      moreover have "?due \<le> us_points user" and run4: "\<exists>ag ai ty pl. run4 = add_event amb ag ai ty pl key
          (add_ledger amb (us_id user) (Some (od_id d)) REVOKE (- ?due) (key @ '':points-revoke'')
            (put_user (u1\<lparr>us_points := us_points u1 - ?due, us_version := us_version u1 + 1\<rparr>) run3))"
        using False rev unfolding u1_def
        by (auto simp: revoke_points_def require_def Let_def d1_def ar points_due_def split: if_splits)
      moreover have "u1\<lparr>us_points := us_points u1 - ?due, us_version := us_version u1 + 1\<rparr> =
          user\<lparr>us_balance := us_balance user + amount, us_version := us_version user + 2,
            us_points := us_points user + - ?due\<rparr>" by (cases user) (simp add: u1_def)
      then have "books run4 = add_ledger amb (us_id user) (Some (od_id d)) REVOKE (- ?due)
          (key @ '':points-revoke'') (refund_books amb key amount (- ?due) 2 d user (books run))"
        using run4 by (elim exE) (simp only: books_erase run3 refund_books_points')
      ultimately show ?thesis
        using 3 rows ref due move.refund_revoke [where d = d and b = "books run" and amount = amount and user = user
          and amb = amb and k' = "key @ '':points-revoke''" and k = key]
        by simp
    qed
  qed
qed


lemma refund_order_refines:
  assumes r: "refund_order amb cmd key run = Inr (out, run')" and wf: "wf_books run"
  shows "move\<^sup>*\<^sup>* (books run) (books run')"
proof -
  from r obtain i d a user where i: "require_target cmd = Inr i" and d: "find_row od_id i (rs_orders run) = Some d"
      and a: "money_of (arg cmd ''amount'') = Inr (a, od_currency d)"
      and u: "find_row us_id (od_user d) (rs_users run) = Some user"
      and st: "od_status d = PAID \<or> od_status d = PARTIALLY_REFUNDED" "0 < a" "a \<le> refund_limit run d"
    by (auto simp: refund_order_def result_simps fetch_defs Let_def)
  note rows = find_row_SomeD [OF d] find_row_SomeD [OF u]
  have ok: "order_ok run d" "user_ok run user" "is_cents a"
    using rows books_of_rows [OF wf] money_of_InrD [OF a] by auto
  have q: "quantize (us_balance user + a) = us_balance user + a"
    "quantize (od_refunded d + a) = od_refunded d + a" "quantize (od_paid d - od_refunded d) = od_paid d - od_refunded d"
    using ok by (auto simp: order_ok_def user_ok_def)
  have ref: "refundable run d a"
    using st ok q(3) by (auto simp: refundable_def refund_limit_def split: if_splits)
  let ?u1 = "user\<lparr>us_balance := us_balance user + a, us_version := us_version user + 1\<rparr>"
  let ?d1 = "d\<lparr>od_refunded := od_refunded d + a, od_status := refund_status d (od_refunded d + a),
       od_version := od_version d + 1\<rparr>"
  let ?run2 = "(put_order ?d1 (put_user ?u1 run))\<lparr>rs_refunds := rs_refunds run @
       [\<lparr>rf_id = next_id (rs_refunds run) ''refund'', rf_order = od_id d, rf_amount = a, rf_key = key, rf_at = amb_now amb\<rparr>]\<rparr>"
  let ?run3 = "add_event amb ''ORDER'' (od_id d) REFUND_ISSUED
       (JObj [(''order_id'', JStr (od_id d)), (''amount'', JStr (amount_text a))]) key ?run2"
  have run3: "books ?run3 = refund_books amb key a 0 1 d user (books run)"
    using refund_books_plain [where u = user and a = a and d = d and b = "books run" and k = key and amb = amb] by simp
  have tables: "rs_refunds (put_order d' (put_user u' run)) = rs_refunds run" for d' u'
    by (simp add: put_defs)
  from r i d a u st q obtain run4 where run4: "refund_points amb key a ?u1 ?d1 ?run3 = Inr run4"
      and run5: "refund_coupon amb key ?d1 run4 = Inr run'"
    by (auto simp: refund_order_def result_simps fetch_defs Let_def tables refund_status_def)
  have "move (books run) (books run4)"
    using refund_points_refines [OF run4 run3] rows ref by simp
  moreover from refund_coupon_refines [OF run5] obtain cs where
    "books run' = (books run4)\<lparr>rs_coupons := cs\<rparr>" "coupon_steps run4 cs" by auto
  then have "move\<^sup>*\<^sup>* (books run4) (books run')" by (simp add: coupon_steps_def)
  ultimately show ?thesis by (rule converse_rtranclp_into_rtranclp)
qed

lemma revoke_available_refines:
  assumes "e \<in> set (rs_entitlements run)"
  shows "move\<^sup>*\<^sup>* (books run) (books (revoke_available amb key e run))"
    and "\<exists>e'. e' \<in> set (rs_entitlements (revoke_available amb key e run)) \<and> en_id e' = en_id e
      \<and> en_membership e' = en_membership e \<and> en_consumed e' = en_consumed e \<and> available_quantity e' \<le> 0"
proof -
  show "move\<^sup>*\<^sup>* (books run) (books (revoke_available amb key e run))"
    using move.revoke [of e "books run"] assms by (auto simp: revoke_available_def Let_def)
  show "\<exists>e'. e' \<in> set (rs_entitlements (revoke_available amb key e run)) \<and> en_id e' = en_id e
      \<and> en_membership e' = en_membership e \<and> en_consumed e' = en_consumed e \<and> available_quantity e' \<le> 0"
  proof (cases "0 < available_quantity e")
    case True
    let ?e = "e\<lparr>en_revoked := en_revoked e + available_quantity e, en_status := REVOKED, en_version := en_version e + 1\<rparr>"
    have "?e \<in> set (rs_entitlements (revoke_available amb key e run))"
      using assms True by (auto simp: revoke_available_def Let_def put_defs put_row_def intro: image_eqI [of _ _ e])
    then show ?thesis by (intro exI [of _ ?e]) (simp add: available_quantity_def)
  next
    case False
    then show ?thesis using assms by (intro exI [of _ e]) (simp add: revoke_available_def)
  qed
qed

lemma revoke_available_frame [simp]:
  "rs_users (revoke_available amb key e run) = rs_users run"
  "rs_memberships (revoke_available amb key e run) = rs_memberships run"
  "run_profile (revoke_available amb key e run) = run_profile run"
  by (simp_all add: revoke_available_def put_defs Let_def run_profile_def)

lemma revoke_available_commute:
  "books (revoke_available amb key e (put_membership m (put_user u run))) =
     put_membership m (put_user u (books (revoke_available amb key e run)))"
  by (cases run) (simp add: revoke_available_def Let_def put_defs books_def add_event_def)

lemma cancel_membership_refines:
  assumes c: "cancel_membership amb cmd key run = Inr (out, run')" and wf: "wf_books run"
  shows "move\<^sup>*\<^sup>* (books run) (books run')"
proof -
  from c obtain asked i m user e where asked: "strict_bool (arg cmd ''refund_requested'') = Inr asked"
      and i: "require_target cmd = Inr i" and m: "find_row mb_id i (rs_memberships run) = Some m"
      and st: "mb_status m = MActive" and u: "find_row us_id (mb_user m) (rs_users run) = Some user"
      and e: "find_row en_membership (mb_id m) (rs_entitlements run) = Some e"
      and full: "asked \<Longrightarrow> 0 < en_consumed e \<Longrightarrow> FULL_REFUND_AFTER_CONSUMPTION \<in> run_profile run"
    by (auto simp: cancel_membership_def result_simps fetch_defs Let_def split: if_splits)
  note rows = find_row_SomeD [OF m] find_row_SomeD [OF u] find_row_SomeD [OF e]
  have q: "quantize (us_balance user + mb_paid m) = us_balance user + mb_paid m"
    using rows books_of_rows [OF wf] by (auto simp: user_ok_def membership_ok_def)
  define rv where "rv = revoke_available amb key e run"
  have rv: "move\<^sup>*\<^sup>* (books run) (books rv)"
    unfolding rv_def using rows by (intro revoke_available_refines) simp
  obtain e' where e': "e' \<in> set (rs_entitlements rv)" "en_membership e' = mb_id m" "en_consumed e' = en_consumed e"
      "available_quantity e' \<le> 0"
    using rows revoke_available_refines(2) [of e run amb key] by (auto simp: rv_def)
  have frame: "rs_users rv = rs_users run" "rs_memberships rv = rs_memberships run" "run_profile rv = run_profile run"
    by (simp_all add: rv_def)
  let ?mc = "m\<lparr>mb_status := MCancelled, mb_version := mb_version m + 1\<rparr>"
  let ?uc = "user\<lparr>us_membership := INACTIVE\<rparr>"
  let ?mr = "m\<lparr>mb_status := MRefunded, mb_version := mb_version m + 1\<rparr>"
  let ?ur = "user\<lparr>us_balance := us_balance user + mb_paid m, us_membership := INACTIVE\<rparr>"
  consider "\<not> asked" | "asked" "ENTITLEMENT_LEFT_AFTER_REFUND \<notin> run_profile run"
    | "asked" "ENTITLEMENT_LEFT_AFTER_REFUND \<in> run_profile run" by blast
  then show ?thesis
  proof cases
    case 1
    then have "books run' = put_membership ?mc (put_user ?uc (books rv))"
      using c asked i m st u e unfolding rv_def
      by (auto simp: cancel_membership_def result_simps fetch_defs Let_def revoke_available_commute)
    moreover have "move (books rv) (put_membership ?mc (put_user ?uc (books rv)))"
      using rows st e' frame by (intro move.leave_cancelled [where e = e']) simp_all
    ultimately show ?thesis using rv by simp
  next
    case 2
    then have "books run' = put_membership ?mr (put_user ?ur (books rv))"
      using c asked i m st u e q unfolding rv_def
      by (auto simp: cancel_membership_def result_simps fetch_defs Let_def revoke_available_commute)
    moreover have "move (books rv) (put_membership ?mr (put_user ?ur (books rv)))"
      using rows st e' frame full 2 by (intro move.leave_refunded [where e = e']) simp_all
    ultimately show ?thesis using rv by simp
  next
    case 3
    then have "books run' = put_membership ?mr (put_user ?ur (books run))"
      using c asked i m st u e q
      by (auto simp: cancel_membership_def result_simps fetch_defs Let_def)
    moreover have "move (books run) (put_membership ?mr (put_user ?ur (books run)))"
      using rows st full 3 by (intro move.leave_refunded [where e = e]) simp_all
    ultimately show ?thesis by simp
  qed
qed

section \<open>Dispatch and transactions\<close>

lemma dispatch_refines:
  assumes "dispatch D amb cmd key run = Inr (out, run')" and "wf_books run"
  shows "move\<^sup>*\<^sup>* (books run) (books run')"
proof -
  have "handler D (cmd_action cmd) amb cmd key run = Inr (out, run')"
    using assms(1) by (simp add: dispatch_def require_def split: if_splits)
  then show ?thesis
    using assms(2)
    by (cases "cmd_action cmd")
      (auto dest: create_user_refines issue_coupon_refines create_order_refines apply_coupon_refines
        pay_order_refines cancel_order_refines refund_order_refines redeem_points_refines
        activate_membership_refines consume_entitlement_refines cancel_membership_refines inspect_state_refines)
qed

end
