(* ===== verification/Sandbox_Service.thy ===== *)
theory Sandbox_Service
  imports Sandbox_Refinement
begin

text \<open>
  The service as a state machine on one run: a request is an action or a reset, and its effect is
  the transaction it commits. The event log and the receipts are append-only and unique, refund
  rows answer successful refund receipts one to one, and the invariants of the books carry over to
  every state a sequence of requests reaches.
\<close>

section \<open>Requests\<close>

datatype request = Act ambient command | Reset

definition serve :: "(json \<Rightarrow> string) \<Rightarrow> run_space \<Rightarrow> request \<Rightarrow> run_space" where
  "serve D run req = (case req of
       Reset \<Rightarrow> reset_space run
     | Act amb cmd \<Rightarrow>
         if key_missing cmd then run
         else (case transact D amb cmd run of None \<Rightarrow> run | Some (_, run') \<Rightarrow> run'))"

lemma serve_Reset [simp]: "serve D run Reset = reset_space run"
  by (simp add: serve_def)

text \<open>The database operations are this machine on the addressed run and leave the others alone.\<close>

lemma execute_serves:
  assumes "db i = Some run"
  shows "snd (execute D amb i cmd db) j = (if j = i then Some (serve D run (Act amb cmd)) else db j)"
  using assms by (auto simp: execute_def serve_def split: option.splits)

lemma reset_serves:
  assumes "db i = Some run"
  shows "snd (reset_run D amb i db) j = (if j = i then Some (serve D run Reset) else db j)"
  using assms by (auto simp: reset_run_def fetch_run_def of_option_def split: sum.splits)

section \<open>The log\<close>

definition epoch_log :: "run_space \<Rightarrow> nat \<Rightarrow> event_row list" where
  "epoch_log run ep = filter (\<lambda>e. ev_epoch e = ep) (rs_events run)"

definition events_ok :: "run_space \<Rightarrow> bool" where
  "events_ok run \<longleftrightarrow> (\<forall>ep. map ev_seq (epoch_log run ep) = [1..<Suc (length (epoch_log run ep))])
     \<and> (\<forall>e \<in> set (rs_events run). ev_epoch e \<le> rs_epoch run)"

lemma fold_max_upt: "fold max [1..<Suc n] 0 = n"
  by (induction n) (simp_all add: upt_Suc_append)

lemma last_sequence_length:
  assumes "events_ok run"
  shows "last_sequence run = length (epoch_log run (rs_epoch run))"
proof -
  have "map ev_seq (epoch_log run (rs_epoch run)) = [1..<Suc (length (epoch_log run (rs_epoch run)))]"
    using assms by (simp add: events_ok_def)
  then show ?thesis
    unfolding last_sequence_def epoch_log_def [symmetric] by (simp only: fold_max_upt)
qed

text \<open>\<open>logs run run'\<close>: same identity, clock and receipts, and a log that only grew.\<close>

definition logs :: "run_space \<Rightarrow> run_space \<Rightarrow> bool" where
  "logs run run' \<longleftrightarrow> rs_receipts run' = rs_receipts run \<and> rs_epoch run' = rs_epoch run
     \<and> rs_snapshot_version run' = rs_snapshot_version run \<and> rs_id run' = rs_id run
     \<and> (\<exists>evs. rs_events run' = rs_events run @ evs) \<and> (events_ok run \<longrightarrow> events_ok run')"

lemma logs_refl [simp, intro]: "logs run run"
  by (simp add: logs_def)

lemma events_ok_cong: "\<lbrakk>rs_events b = rs_events a; rs_epoch b = rs_epoch a\<rbrakk> \<Longrightarrow> events_ok b = events_ok a"
  by (simp add: events_ok_def epoch_log_def)

lemma logs_frame:
  assumes "logs run x" "rs_receipts y = rs_receipts x" "rs_epoch y = rs_epoch x"
    "rs_snapshot_version y = rs_snapshot_version x" "rs_id y = rs_id x" "rs_events y = rs_events x"
  shows "logs run y"
  using assms events_ok_cong [of y x] by (simp add: logs_def)

lemma logs_puts [intro]:
  assumes "logs run x"
  shows "logs run (put_user u x)" "logs run (put_order d x)" "logs run (put_coupon c x)"
    "logs run (put_membership m x)" "logs run (put_entitlement e x)"
    "logs run (add_ledger amb ui oo lt am lk x)"
    "logs run (x\<lparr>rs_users := us\<rparr>)" "logs run (x\<lparr>rs_coupons := cs\<rparr>)" "logs run (x\<lparr>rs_orders := ds\<rparr>)"
    "logs run (x\<lparr>rs_refunds := fs\<rparr>)" "logs run (x\<lparr>rs_memberships := ms, rs_entitlements := es\<rparr>)"
  by (rule logs_frame [OF assms]; simp add: put_defs)+

lemma logs_event [intro]:
  assumes "logs run x"
  shows "logs run (add_event amb ag ai ty pl k x)"
proof -
  let ?y = "add_event amb ag ai ty pl k x"
  obtain e where e: "rs_events ?y = rs_events x @ [e]" "ev_epoch e = rs_epoch x" "ev_seq e = last_sequence x + 1"
    by (simp add: add_event_def Let_def)
  have "events_ok ?y" if ok: "events_ok x"
  proof -
    have "map ev_seq (epoch_log ?y ep) = [1..<Suc (length (epoch_log ?y ep))]" for ep
    proof (cases "ep = rs_epoch x")
      case True
      then have "epoch_log ?y ep = epoch_log x ep @ [e]" using e by (simp add: epoch_log_def)
      with True ok e(3) last_sequence_length [OF ok] show ?thesis by (simp add: events_ok_def)
    next
      case False
      then have "epoch_log ?y ep = epoch_log x ep" using e by (simp add: epoch_log_def)
      with ok show ?thesis by (simp add: events_ok_def)
    qed
    with ok e show ?thesis by (auto simp: events_ok_def)
  qed
  with assms e show ?thesis by (auto simp: logs_def)
qed

lemma use_reserved_coupon_logs: "\<lbrakk>use_reserved_coupon amb key d x = Inr y; logs run x\<rbrakk> \<Longrightarrow> logs run y"
  by (auto simp: use_reserved_coupon_def result_simps Let_def split: option.splits)

lemma release_coupon_logs: "\<lbrakk>release_coupon amb key d x = Inr y; logs run x\<rbrakk> \<Longrightarrow> logs run y"
  by (auto simp: release_coupon_def result_simps Let_def split: option.splits if_splits)

lemma refund_coupon_logs: "\<lbrakk>refund_coupon amb key d x = Inr y; logs run x\<rbrakk> \<Longrightarrow> logs run y"
  by (auto simp: refund_coupon_def result_simps Let_def split: option.splits if_splits)

lemma revoke_points_logs: "\<lbrakk>revoke_points amb key u d full x = Inr y; logs run x\<rbrakk> \<Longrightarrow> logs run y"
  by (auto simp: revoke_points_def result_simps Let_def split: if_splits)

lemma refund_points_logs: "\<lbrakk>refund_points amb key a u d x = Inr y; logs run x\<rbrakk> \<Longrightarrow> logs run y"
  by (auto simp: refund_points_def Let_def split: if_splits dest: revoke_points_logs)

lemma revoke_available_logs [intro]: "logs run x \<Longrightarrow> logs run (revoke_available amb key e x)"
  by (auto simp: revoke_available_def Let_def)

lemmas logs_intros = logs_puts logs_event revoke_available_logs logs_refl

lemma handler_logs:
  assumes "handler D act amb cmd key run = Inr (out, run')"
  shows "logs run run'"
proof (cases act)
  case PAY_ORDER
  then show ?thesis
    using assms by (auto simp: pay_order_def result_simps Let_def split: if_splits intro!: logs_intros
        dest!: use_reserved_coupon_logs [where run = run])
next
  case CANCEL_ORDER
  then show ?thesis
    using assms by (auto simp: cancel_order_def result_simps Let_def intro!: logs_intros
        dest!: release_coupon_logs [where run = run])
next
  case REFUND_ORDER
  then show ?thesis
    using assms
    by (auto simp: refund_order_def result_simps Let_def split del: if_split intro!: logs_intros
        dest!: refund_points_logs [where run = run] refund_coupon_logs [where run = run])
next
  case CANCEL_MEMBERSHIP
  then show ?thesis
    using assms by (auto simp: cancel_membership_def result_simps Let_def split: if_splits intro!: logs_intros)
qed (use assms in \<open>auto simp: handler_defs result_simps Let_def intro!: logs_intros\<close>)

lemma dispatch_logs: "dispatch D amb cmd key run = Inr (out, run') \<Longrightarrow> logs run run'"
  by (auto simp: dispatch_def result_simps dest: handler_logs)


section \<open>Transactions\<close>

lemma transact_cases:
  assumes "transact D amb cmd run = Some (r, run')"
  obtains (replay) "find_receipt run (cmd_action cmd) (effective_key amb cmd) = Some r" "run' = run"
  | (committed) result effects run1 where
      "find_receipt run (cmd_action cmd) (effective_key amb cmd) = None"
      "dispatch D amb cmd (effective_key amb cmd) run = Inr ((result, effects), run1)"
      "r = make_receipt amb cmd (effective_key amb cmd) run SUCCEEDED result effects None"
      "run' = add_receipt r (if cmd_action cmd = INSPECT_STATE then run1
          else run1\<lparr>rs_snapshot_version := rs_snapshot_version run1 + 1\<rparr>)"
  | (rejected) code where
      "find_receipt run (cmd_action cmd) (effective_key amb cmd) = None"
      "dispatch D amb cmd (effective_key amb cmd) run = Inl (DomainError code)"
      "r = make_receipt amb cmd (effective_key amb cmd) run REJECTED (JObj []) [] (Some code)"
      "run' = add_receipt r run"
  using assms
  by (auto simp: transact_def Let_def split: option.splits sum.splits failure.splits prod.splits)

lemma find_receipt_SomeD:
  "find_receipt run act key = Some r \<Longrightarrow>
     r \<in> set (rs_receipts run) \<and> rc_epoch r = rs_epoch run \<and> rc_action r = act \<and> rc_key r = key"
  by (auto simp: find_receipt_def find_Some_iff)

lemma find_receipt_None:
  "find_receipt run act key = None \<longleftrightarrow>
     (\<forall>r \<in> set (rs_receipts run). \<not> (rc_epoch r = rs_epoch run \<and> rc_action r = act \<and> rc_key r = key))"
  by (auto simp: find_receipt_def find_None_iff)

definition receipts_ok :: "run_space \<Rightarrow> bool" where
  "receipts_ok run \<longleftrightarrow> distinct (map (\<lambda>c. (rc_epoch c, rc_action c, rc_key c)) (rs_receipts run))
     \<and> (\<forall>c \<in> set (rs_receipts run). rc_epoch c \<le> rs_epoch run)"

definition settled :: "run_space \<Rightarrow> action_type \<Rightarrow> receipt_row list" where
  "settled run act = filter (\<lambda>c. rc_epoch c = rs_epoch run \<and> rc_action c = act \<and> rc_status c = SUCCEEDED)
     (rs_receipts run)"

definition refund_rows_ok :: "run_space \<Rightarrow> bool" where
  "refund_rows_ok run \<longleftrightarrow> map (\<lambda>f. (rf_key f, [rf_amount f])) (rs_refunds run)
     = map (\<lambda>c. (rc_key c, map m_amount (rc_effects c))) (settled run REFUND_ORDER)"

definition version_ok :: "run_space \<Rightarrow> bool" where
  "version_ok run \<longleftrightarrow> rs_snapshot_version run = length (filter (\<lambda>c. rc_epoch c = rs_epoch run
     \<and> rc_action c \<noteq> INSPECT_STATE \<and> rc_status c = SUCCEEDED) (rs_receipts run))"

definition run_ok :: "run_space \<Rightarrow> bool" where
  "run_ok run \<longleftrightarrow> wf_books run \<and> events_ok run \<and> receipts_ok run \<and> refund_rows_ok run \<and> version_ok run"

text \<open>Only a refund writes refund rows, and exactly one, under its key and for its effect.\<close>

lemma rs_refunds_frame [simp]:
  "rs_refunds (put_user u b) = rs_refunds b" "rs_refunds (put_order d b) = rs_refunds b"
  "rs_refunds (put_coupon c b) = rs_refunds b" "rs_refunds (put_membership m b) = rs_refunds b"
  "rs_refunds (put_entitlement e b) = rs_refunds b" "rs_refunds (revoke_available amb key e b) = rs_refunds b"
  by (simp_all add: put_defs revoke_available_def Let_def)

lemma sub_refunds:
  "use_reserved_coupon amb key d x = Inr y \<Longrightarrow> rs_refunds y = rs_refunds x"
  "release_coupon amb key d x = Inr y \<Longrightarrow> rs_refunds y = rs_refunds x"
  "refund_coupon amb key d x = Inr y \<Longrightarrow> rs_refunds y = rs_refunds x"
  "refund_points amb key a u d x = Inr y \<Longrightarrow> rs_refunds y = rs_refunds x"
  by (auto simp: use_reserved_coupon_def release_coupon_def refund_coupon_def refund_points_def revoke_points_def
      result_simps Let_def split: option.splits if_splits)

lemma handler_refunds:
  assumes "handler D act amb cmd key run = Inr ((result, effects), run')"
  shows "act \<noteq> REFUND_ORDER \<Longrightarrow> rs_refunds run' = rs_refunds run"
    and "act = REFUND_ORDER \<Longrightarrow> \<exists>f. rs_refunds run' = rs_refunds run @ [f] \<and> rf_key f = key
      \<and> map m_amount effects = [rf_amount f]"
proof -
  show "rs_refunds run' = rs_refunds run" if "act \<noteq> REFUND_ORDER"
    using assms that
  proof (cases act)
    case PAY_ORDER
    with assms show ?thesis by (auto simp: pay_order_def result_simps Let_def split: if_splits dest!: sub_refunds)
  next
    case CANCEL_ORDER
    with assms show ?thesis by (auto simp: cancel_order_def result_simps Let_def dest!: sub_refunds)
  next
    case CANCEL_MEMBERSHIP
    with assms show ?thesis by (auto simp: cancel_membership_def result_simps Let_def split: if_splits)
  qed (auto simp: handler_defs result_simps Let_def)
  show "\<exists>f. rs_refunds run' = rs_refunds run @ [f] \<and> rf_key f = key \<and> map m_amount effects = [rf_amount f]"
    if "act = REFUND_ORDER"
    using assms that
    by - (simp add: refund_order_def result_simps Let_def split_beta split del: if_split, elim exE conjE,
          drule sub_refunds, drule sub_refunds, auto)
qed

lemma dispatch_handler: "dispatch D amb cmd key run = Inr x \<Longrightarrow> handler D (cmd_action cmd) amb cmd key run = Inr x"
  by (simp add: dispatch_def result_simps)

lemma wf_books_cong: "books r' = books r \<Longrightarrow> wf_books r' = wf_books r"
  by (metis wf_books_books)

lemma transact_ok:
  assumes "transact D amb cmd run = Some (r, run')" and ok: "run_ok run"
  shows "run_ok run'"
  using assms(1)
proof (cases rule: transact_cases)
  case replay
  then show ?thesis using ok by simp
next
  case (committed result effects run1)
  have logs: "logs run run1" using committed(2) by (rule dispatch_logs)
  have h: "handler D (cmd_action cmd) amb cmd (effective_key amb cmd) run = Inr ((result, effects), run1)"
    using committed(2) by (rule dispatch_handler)
  have "wf_books run1"
    using dispatch_refines [OF committed(2)] ok moves_wf [of "books run" "books run1"] by (simp add: run_ok_def)
  then have "wf_books run'" using committed(4) wf_books_cong [of run' run1] by simp
  moreover have "events_ok run'"
    using logs ok committed(4) events_ok_cong [of run' run1] by (simp add: run_ok_def logs_def add_receipt_def)
  moreover have "receipts_ok run'"
    using logs ok committed(1,3,4)
    by (auto simp: run_ok_def receipts_ok_def logs_def add_receipt_def make_receipt_def find_receipt_None)
  moreover have "refund_rows_ok run'"
  proof -
    have "rs_refunds run' = rs_refunds run1" using committed(4) by (simp add: add_receipt_def)
    moreover have "settled run' REFUND_ORDER = settled run REFUND_ORDER @ (if cmd_action cmd = REFUND_ORDER then [r] else [])"
      using logs committed(3,4) by (simp add: settled_def logs_def add_receipt_def make_receipt_def)
    moreover have "rc_key r = effective_key amb cmd" "rc_effects r = effects"
      using committed(3) by (simp_all add: make_receipt_def)
    ultimately show ?thesis
      using handler_refunds [OF h] ok by (cases "cmd_action cmd = REFUND_ORDER") (auto simp: run_ok_def refund_rows_ok_def)
  qed
  moreover have "version_ok run'"
    using logs ok committed(3,4) by (auto simp: run_ok_def version_ok_def logs_def add_receipt_def make_receipt_def)
  ultimately show ?thesis by (simp add: run_ok_def)
next
  case (rejected code)
  have "wf_books run'" using ok rejected(4) wf_books_cong [of run' run] by (simp add: run_ok_def)
  moreover have "events_ok run'"
    using ok rejected(4) events_ok_cong [of run' run] by (simp add: run_ok_def add_receipt_def)
  moreover have "receipts_ok run'"
    using ok rejected(1,3,4) by (auto simp: run_ok_def receipts_ok_def add_receipt_def make_receipt_def find_receipt_None)
  moreover have "refund_rows_ok run'"
    using ok rejected(3,4) by (simp add: run_ok_def refund_rows_ok_def settled_def add_receipt_def make_receipt_def)
  moreover have "version_ok run'"
    using ok rejected(3,4) by (simp add: run_ok_def version_ok_def add_receipt_def make_receipt_def)
  ultimately show ?thesis by (simp add: run_ok_def)
qed

lemma empty_books_wf:
  assumes "rs_users b = []" "rs_coupons b = []" "rs_orders b = []" "rs_refunds b = []" "rs_ledger b = []"
    "rs_memberships b = []" "rs_entitlements b = []"
  shows "wf_books b"
  using assms
  by (simp add: wf_books_def wf_ids_def one_account_def wf_rows_def refunds_match_def points_match_def
      counts_match_def active_count_def flag_count_def entitlements_shut_def order_points_match_def)

lemma reset_ok:
  assumes "run_ok run"
  shows "run_ok (reset_space run)"
proof -
  have "receipts_ok run" "events_ok run" using assms by (simp_all add: run_ok_def)
  then have "receipts_ok (reset_space run)" "events_ok (reset_space run)"
    and none: "\<forall>c \<in> set (rs_receipts run). rc_epoch c \<noteq> Suc (rs_epoch run)"
    by (fastforce simp: receipts_ok_def events_ok_def epoch_log_def reset_space_def delete_state_def)+
  moreover have "wf_books (reset_space run)"
    by (rule empty_books_wf) (simp_all add: reset_space_def delete_state_def)
  ultimately show ?thesis
    using none by (simp add: run_ok_def refund_rows_ok_def settled_def version_ok_def reset_space_def delete_state_def
        filter_empty_conv)
qed

lemma empty_run_ok: "run_ok (empty_run i sc v axes)"
  by (simp add: run_ok_def empty_books_wf empty_run_def events_ok_def epoch_log_def receipts_ok_def
      refund_rows_ok_def settled_def version_ok_def)

lemma serve_ok: "run_ok run \<Longrightarrow> run_ok (serve D run req)"
  by (auto simp: serve_def reset_ok transact_ok split: request.splits option.splits)

end
