(* ===== verification/Sandbox_Demo.thy ===== *)
theory Sandbox_Demo
  imports Sandbox_Service
begin

text \<open>
  Runs of the service from an empty run, the machine's invariant lifted to them, and one concrete
  run (an account, an order, its payment, a partial refund) evaluated step by step.
\<close>

section \<open>Reached states\<close>

text \<open>What a request never undoes: the run's identity, its receipts and its log.\<close>

definition later :: "run_space \<Rightarrow> run_space \<Rightarrow> bool" where
  "later run run' \<longleftrightarrow> rs_id run' = rs_id run \<and> rs_scenario run' = rs_scenario run
     \<and> rs_version run' = rs_version run \<and> rs_axes run' = rs_axes run \<and> rs_epoch run \<le> rs_epoch run'
     \<and> (\<exists>rs. rs_receipts run' = rs_receipts run @ rs) \<and> (\<exists>es. rs_events run' = rs_events run @ es)"

lemma later_refl: "later run run"
  by (simp add: later_def)

lemma later_trans: "later a b \<Longrightarrow> later b c \<Longrightarrow> later a c"
  by (fastforce simp: later_def)

lemma dispatch_fixed:
  assumes "dispatch D amb cmd key run = Inr (out, run')" and "wf_books run"
  shows "rs_scenario run' = rs_scenario run \<and> rs_version run' = rs_version run \<and> rs_axes run' = rs_axes run
    \<and> rs_id run' = rs_id run \<and> rs_epoch run' = rs_epoch run"
proof -
  have "rs_scenario b' = rs_scenario b \<and> rs_version b' = rs_version b \<and> rs_axes b' = rs_axes b \<and> rs_id b' = rs_id b
    \<and> rs_epoch b' = rs_epoch b" if "move\<^sup>*\<^sup>* b b'" for b b'
    using that by (induction rule: rtranclp_induct) (auto dest: move_fixed)
  from this [OF dispatch_refines [OF assms]] show ?thesis by simp
qed

lemma transact_later:
  assumes "transact D amb cmd run = Some (r, run')" and "run_ok run"
  shows "later run run' \<and> rs_epoch run' = rs_epoch run"
  using assms(1)
proof (cases rule: transact_cases)
  case (committed result effects run1)
  then show ?thesis
    using dispatch_logs [OF committed(2)] dispatch_fixed [OF committed(2)] assms(2)
    by (auto simp: later_def logs_def add_receipt_def run_ok_def)
qed (simp_all add: later_refl, simp add: later_def add_receipt_def)

lemma serve_later: "run_ok run \<Longrightarrow> later run (serve D run req)"
  by (auto simp: serve_def reset_space_def delete_state_def dest: transact_later
      split: request.splits option.splits intro: later_refl) (auto simp: later_def)

interpretation sandbox: step_machine "serve D" run_ok later for D :: "json \<Rightarrow> string"
  by unfold_locales (auto intro: serve_ok serve_later later_refl later_trans)

definition reached ::
  "(json \<Rightarrow> string) \<Rightarrow> string \<Rightarrow> scenario_type \<Rightarrow> sandbox_version \<Rightarrow> defect_axis list option
   \<Rightarrow> request list \<Rightarrow> run_space" where
  "reached D i sc v axes reqs = foldl (serve D) (empty_run i sc v axes) reqs"

lemma reached_ok: "run_ok (reached D i sc v axes reqs)"
  unfolding reached_def by (rule sandbox.run_good) (rule empty_run_ok)

lemma reached_append: "reached D i sc v axes (reqs @ rest) = foldl (serve D) (reached D i sc v axes reqs) rest"
  by (simp add: reached_def)

lemma reached_later: "later (reached D i sc v axes reqs) (reached D i sc v axes (reqs @ rest))"
  unfolding reached_append by (rule sandbox.run_below) (rule reached_ok)

lemma reached_fixed:
  "rs_scenario (reached D i sc v axes reqs) = sc" "run_profile (reached D i sc v axes reqs) = profile_for_run v axes"
proof -
  have "later (empty_run i sc v axes) (reached D i sc v axes reqs)"
    unfolding reached_def by (rule sandbox.run_below) (rule empty_run_ok)
  then show "rs_scenario (reached D i sc v axes reqs) = sc"
    and "run_profile (reached D i sc v axes reqs) = profile_for_run v axes"
    by (simp_all add: later_def empty_run_def run_profile_def)
qed

text \<open>A request other than a reset keeps the epoch and moves the books.\<close>

lemma serve_moves:
  assumes "run_ok run" and "req \<noteq> Reset"
  shows "rs_epoch (serve D run req) = rs_epoch run \<and> move\<^sup>*\<^sup>* (books run) (books (serve D run req))"
proof -
  obtain amb cmd where req: "req = Act amb cmd" using assms(2) by (cases req) auto
  show ?thesis
  proof (cases "key_missing cmd \<or> transact D amb cmd run = None")
    case True
    then have "serve D run req = run" by (auto simp: serve_def req)
    then show ?thesis by simp
  next
    case False
    then obtain r run' where t: "transact D amb cmd run = Some (r, run')" by auto
    with False have s: "serve D run req = run'" by (simp add: serve_def req)
    have "rs_epoch run' = rs_epoch run" using transact_later [OF t assms(1)] by simp
    moreover from t have "move\<^sup>*\<^sup>* (books run) (books run')"
    proof (cases rule: transact_cases)
      case (committed result effects run1)
      then show ?thesis using dispatch_refines [OF committed(2)] assms(1) by (simp add: run_ok_def)
    qed simp_all
    ultimately show ?thesis by (simp add: s)
  qed
qed

lemma serves_moves:
  "\<lbrakk>run_ok run; Reset \<notin> set rest\<rbrakk> \<Longrightarrow>
     rs_epoch (foldl (serve D) run rest) = rs_epoch run \<and> move\<^sup>*\<^sup>* (books run) (books (foldl (serve D) run rest))"
proof (induction rest arbitrary: run)
  case Nil
  then show ?case by simp
next
  case (Cons req rest)
  have "run_ok (serve D run req)" using Cons.prems(1) by (rule serve_ok)
  with Cons.IH [of "serve D run req"] Cons.prems serve_moves [of run req D]
  show ?case by (auto intro: rtranclp_trans)
qed

section \<open>Concrete runs\<close>

definition demo_amb :: ambient where
  "demo_amb = \<lparr>amb_now = 0, amb_iso = ''t'', amb_run = ''run'', amb_inspect = ''i'', amb_receipt = ''r'',
     amb_ledger = ''l'', amb_event = (\<lambda>n. ''e'')\<rparr>"

definition demo_act :: "action_type \<Rightarrow> string option \<Rightarrow> (string \<times> json) list \<Rightarrow> string \<Rightarrow> request" where
  "demo_act act target args key = Act demo_amb \<lparr>cmd_action = act, cmd_actor = ''user-1'', cmd_target = target,
     cmd_arguments = args, cmd_key = Some key\<rparr>"

definition demo_digest :: "json \<Rightarrow> string" where
  "demo_digest j = ''digest''"

definition demo_event ::
  "nat \<Rightarrow> string \<Rightarrow> string \<Rightarrow> business_event \<Rightarrow> (string \<times> json) list \<Rightarrow> string \<Rightarrow> event_row" where
  "demo_event n ag i ty pl k = \<lparr>ev_id = ''e'', ev_epoch = 0, ev_seq = n, ev_aggregate = ag, ev_aggregate_id = i,
     ev_type = ty, ev_payload = JObj pl, ev_key = Some k, ev_at = ''t''\<rparr>"

definition demo_receipt :: "string \<Rightarrow> action_type \<Rightarrow> rat list \<Rightarrow> (string \<times> json) list \<Rightarrow> receipt_row" where
  "demo_receipt k act effs res = \<lparr>rc_id = ''r'', rc_epoch = 0, rc_key = k, rc_action = act, rc_status = SUCCEEDED,
     rc_effects = map (\<lambda>a. \<lparr>m_currency = CNY, m_amount = a, m_scale = 2\<rparr>) effs, rc_result = JObj res,
     rc_error = None, rc_at = 0\<rparr>"

definition demo_user :: "rat \<Rightarrow> int \<Rightarrow> membership_flag \<Rightarrow> nat \<Rightarrow> user_row" where
  "demo_user a p f v = \<lparr>us_id = ''user-1'', us_balance = a, us_currency = CNY, us_points = p, us_new = True,
     us_membership = f, us_version = v\<rparr>"

definition demo_order :: "rat \<Rightarrow> rat \<Rightarrow> int \<Rightarrow> order_status \<Rightarrow> nat \<Rightarrow> order_row" where
  "demo_order p r n st v = \<lparr>od_id = ''order-1'', od_user = ''user-1'', od_original = 40, od_discount = 0, od_paid = p,
     od_refunded = r, od_points = n, od_currency = CNY, od_status = st, od_coupon = None, od_version = v\<rparr>"

definition demo_refund :: "rat \<Rightarrow> refund_row" where
  "demo_refund a = \<lparr>rf_id = ''refund-1'', rf_order = ''order-1'', rf_amount = a, rf_key = ''k4'', rf_at = 0\<rparr>"

definition demo_entry :: "ledger_type \<Rightarrow> int \<Rightarrow> string \<Rightarrow> ledger_row" where
  "demo_entry ty n k = \<lparr>lg_id = ''l'', lg_user = ''user-1'', lg_order = Some ''order-1'', lg_type = ty,
     lg_amount = n, lg_key = k, lg_at = 0\<rparr>"

definition demo_coupon :: "coupon_status \<Rightarrow> string option \<Rightarrow> string option \<Rightarrow> int \<Rightarrow> nat \<Rightarrow> coupon_row" where
  "demo_coupon st res used n v = \<lparr>cp_id = ''coupon-1'', cp_owner = ''user-1'', cp_face = 10, cp_threshold = 30,
     cp_currency = CNY, cp_status = st, cp_reserved = res, cp_used = used, cp_usage = n, cp_version = v\<rparr>"

text \<open>The tables of the demonstration runs: the log and the receipts fill up one request at a time.\<close>

definition demo_space ::
  "scenario_type \<Rightarrow> event_row list \<Rightarrow> receipt_row list \<Rightarrow> user_row list \<Rightarrow> order_row list \<Rightarrow> run_space" where
  "demo_space sc evs rcs us ds = (empty_run ''run'' sc FIXED None)\<lparr>rs_snapshot_version := length rcs,
     rs_users := us, rs_orders := ds, rs_events := evs, rs_receipts := rcs\<rparr>"

lemmas eval_simps = demo_space_def demo_user_def demo_order_def demo_refund_def demo_entry_def demo_coupon_def
  demo_event_def demo_receipt_def demo_amb_def demo_act_def serve_def key_missing_def transact_def effective_key_def
  find_receipt_def dispatch_def require_def Let_def check_args_def money_of_def raw_amount_def arg_def
  raw_currency_def quantize_checked_def empty_run_def currency_of_def make_money_def money_valid_def
  make_receipt_def add_receipt_def add_event_def add_ledger_def last_sequence_def fetch_defs put_defs find_row_def
  put_row_def target_or_actor_def require_target_def next_id_def string_of_nat_less_10 digit_chars
  cents_of_numeral quantize_numeral use_reserved_coupon_def refund_points_def refund_coupon_def refund_limit_def
  revoke_points_def already_revoked_def points_for_def run_profile_def profile_for_run_def

definition demo_events :: "event_row list" where
  "demo_events =
     [demo_event 1 ''USER'' ''user-1'' USER_CREATED [(''user_id'', JStr ''user-1'')] ''k1'',
      demo_event 2 ''ORDER'' ''order-1'' ORDER_CREATED
        [(''order_id'', JStr ''order-1''), (''user_id'', JStr ''user-1'')] ''k2'']"

definition demo_receipts :: "receipt_row list" where
  "demo_receipts =
     [demo_receipt ''k1'' CREATE_USER [100] [(''user_id'', JStr ''user-1''), (''balance'', JStr (amount_text 100))],
      demo_receipt ''k2'' CREATE_ORDER [40] [(''order_id'', JStr ''order-1''), (''amount'', JStr (amount_text 40))]]"

definition first_requests :: "request list" where
  "first_requests = [demo_act CREATE_USER None [(''initial_balance'', JInt 100)] ''k1'',
     demo_act CREATE_ORDER None [(''amount'', JInt 40)] ''k2'']"

lemma demo_opened:
  assumes "sc \<noteq> MEMBERSHIP_ENTITLEMENT"
  shows "reached demo_digest ''run'' sc FIXED None first_requests =
    demo_space sc demo_events demo_receipts [demo_user 100 0 INACTIVE 0] [demo_order 0 0 0 PENDING_PAYMENT 0]"
proof -
  have 1: "serve demo_digest (empty_run ''run'' sc FIXED None)
      (demo_act CREATE_USER None [(''initial_balance'', JInt 100)] ''k1'') =
    demo_space sc (take 1 demo_events) (take 1 demo_receipts) [demo_user 100 0 INACTIVE 0] []"
    by (simp add: eval_simps demo_events_def demo_receipts_def create_user_def)
  have 2: "serve demo_digest (demo_space sc (take 1 demo_events) (take 1 demo_receipts) [demo_user 100 0 INACTIVE 0] [])
      (demo_act CREATE_ORDER None [(''amount'', JInt 40)] ''k2'') =
    demo_space sc demo_events demo_receipts [demo_user 100 0 INACTIVE 0] [demo_order 0 0 0 PENDING_PAYMENT 0]"
    using assms by (cases sc) (simp_all add: eval_simps demo_events_def demo_receipts_def create_order_def)
  show ?thesis using 1 2 by (simp only: reached_def first_requests_def foldl.simps)
qed

text \<open>A promotion: the order is paid and partly refunded.\<close>

definition settle_events :: "rat \<Rightarrow> event_row list" where
  "settle_events a = demo_events @
     [demo_event 3 ''ORDER'' ''order-1'' PAYMENT_CAPTURED
        [(''order_id'', JStr ''order-1''), (''paid_amount'', JStr (amount_text 40))] ''k3'',
      demo_event 4 ''ORDER'' ''order-1'' REFUND_ISSUED
        [(''order_id'', JStr ''order-1''), (''amount'', JStr (amount_text a))] ''k4'']"

definition settle_receipts :: "rat \<Rightarrow> receipt_row list" where
  "settle_receipts a = demo_receipts @
     [demo_receipt ''k3'' PAY_ORDER [40] [(''order_id'', JStr ''order-1''), (''paid_amount'', JStr (amount_text 40))],
      demo_receipt ''k4'' REFUND_ORDER [a] [(''refund_id'', JStr ''refund-1''), (''order_id'', JStr ''order-1''),
        (''refunded_amount'', JStr (amount_text a)), (''order_refunded_total'', JStr (amount_text a))]]"

definition promotion_requests :: "request list" where
  "promotion_requests = first_requests @ [demo_act PAY_ORDER (Some ''order-1'') [] ''k3'',
     demo_act REFUND_ORDER (Some ''order-1'') [(''amount'', JInt 15)] ''k4'']"

definition promotion_run :: run_space where
  "promotion_run = (demo_space PROMOTION (settle_events 15) (settle_receipts 15)
     [demo_user 75 0 INACTIVE 2] [demo_order 40 15 0 PARTIALLY_REFUNDED 2])\<lparr>rs_refunds := [demo_refund 15]\<rparr>"

lemma promotion_reached: "reached demo_digest ''run'' PROMOTION FIXED None promotion_requests = promotion_run"
proof -
  have 1: "serve demo_digest (demo_space PROMOTION demo_events demo_receipts [demo_user 100 0 INACTIVE 0]
      [demo_order 0 0 0 PENDING_PAYMENT 0]) (demo_act PAY_ORDER (Some ''order-1'') [] ''k3'') =
    demo_space PROMOTION (take 3 (settle_events 15)) (take 3 (settle_receipts 15)) [demo_user 60 0 INACTIVE 1]
      [demo_order 40 0 0 PAID 1]"
    by (simp add: eval_simps settle_events_def settle_receipts_def demo_events_def demo_receipts_def pay_order_def)
  have 2: "serve demo_digest (demo_space PROMOTION (take 3 (settle_events 15)) (take 3 (settle_receipts 15))
      [demo_user 60 0 INACTIVE 1] [demo_order 40 0 0 PAID 1])
      (demo_act REFUND_ORDER (Some ''order-1'') [(''amount'', JInt 15)] ''k4'') = promotion_run"
    by (simp add: eval_simps promotion_run_def settle_events_def settle_receipts_def demo_events_def demo_receipts_def
        refund_order_def)
  show ?thesis
    using demo_opened [of PROMOTION] 1 2
    by (simp only: promotion_requests_def reached_append foldl.simps scenario_type.simps not_False_eq_True)
qed


text \<open>A points run: the payment grants forty points, the full refund revokes them.\<close>

definition points_log :: "event_row list" where
  "points_log = take 3 (settle_events 40) @
     [demo_event 4 ''USER'' ''user-1'' POINTS_GRANTED
        [(''user_id'', JStr ''user-1''), (''order_id'', JStr ''order-1''), (''amount'', JInt 40)] ''k3'',
      demo_event 5 ''ORDER'' ''order-1'' REFUND_ISSUED
        [(''order_id'', JStr ''order-1''), (''amount'', JStr (amount_text 40))] ''k4'',
      demo_event 6 ''USER'' ''user-1'' POINTS_REVOKED
        [(''user_id'', JStr ''user-1''), (''order_id'', JStr ''order-1''), (''amount'', JInt 40)] ''k4'']"

definition points_receipts :: "receipt_row list" where
  "points_receipts = demo_receipts @
     [demo_receipt ''k3'' PAY_ORDER [40] [(''order_id'', JStr ''order-1''), (''paid_amount'', JStr (amount_text 40)),
        (''points_granted'', JInt 40)]] @ drop 3 (settle_receipts 40)"

definition points_requests :: "request list" where
  "points_requests = first_requests @ [demo_act PAY_ORDER (Some ''order-1'') [] ''k3'',
     demo_act REFUND_ORDER (Some ''order-1'') [(''amount'', JInt 40)] ''k4'']"

definition points_run :: run_space where
  "points_run = (demo_space REFUND_POINTS points_log points_receipts [demo_user 100 0 INACTIVE 3]
     [demo_order 40 40 40 REFUNDED 2])\<lparr>rs_refunds := [demo_refund 40],
     rs_ledger := [demo_entry GRANT 40 ''k3:points-grant'', demo_entry REVOKE (-40) ''k4:points-revoke'']\<rparr>"

lemma points_reached: "reached demo_digest ''run'' REFUND_POINTS FIXED None points_requests = points_run"
proof -
  let ?paid = "(demo_space REFUND_POINTS (take 4 points_log) (take 3 points_receipts) [demo_user 60 40 INACTIVE 1]
     [demo_order 40 0 40 PAID 1])\<lparr>rs_ledger := [demo_entry GRANT 40 ''k3:points-grant'']\<rparr>"
  have 1: "serve demo_digest (demo_space REFUND_POINTS demo_events demo_receipts [demo_user 100 0 INACTIVE 0]
      [demo_order 0 0 0 PENDING_PAYMENT 0]) (demo_act PAY_ORDER (Some ''order-1'') [] ''k3'') = ?paid"
    by (simp add: eval_simps points_log_def points_receipts_def settle_events_def demo_events_def demo_receipts_def
        pay_order_def)
  have 2: "serve demo_digest ?paid (demo_act REFUND_ORDER (Some ''order-1'') [(''amount'', JInt 40)] ''k4'') = points_run"
    by (simp add: eval_simps points_run_def points_log_def points_receipts_def settle_events_def settle_receipts_def
        demo_events_def demo_receipts_def refund_order_def)
  show ?thesis
    using demo_opened [of REFUND_POINTS] 1 2
    by (simp only: points_requests_def reached_append foldl.simps scenario_type.simps not_False_eq_True)
qed

text \<open>A promotion where the order is paid with a coupon.\<close>

definition coupon_log :: "event_row list" where
  "coupon_log = demo_events @
     [demo_event 3 ''COUPON'' ''coupon-1'' COUPON_ISSUED
        [(''coupon_id'', JStr ''coupon-1''), (''owner_id'', JStr ''user-1'')] ''k3'',
      demo_event 4 ''COUPON'' ''coupon-1'' COUPON_RESERVED
        [(''coupon_id'', JStr ''coupon-1''), (''order_id'', JStr ''order-1'')] ''k4'',
      demo_event 5 ''COUPON'' ''coupon-1'' COUPON_USED
        [(''coupon_id'', JStr ''coupon-1''), (''order_id'', JStr ''order-1'')] ''k5'',
      demo_event 6 ''ORDER'' ''order-1'' PAYMENT_CAPTURED
        [(''order_id'', JStr ''order-1''), (''paid_amount'', JStr (amount_text 30))] ''k5'']"

definition coupon_receipts :: "receipt_row list" where
  "coupon_receipts = demo_receipts @
     [demo_receipt ''k3'' ISSUE_COUPON [10] [(''coupon_id'', JStr ''coupon-1''), (''value'', JStr (amount_text 10)),
        (''threshold'', JStr (amount_text 30))],
      demo_receipt ''k4'' APPLY_COUPON [10] [(''order_id'', JStr ''order-1''), (''coupon_id'', JStr ''coupon-1''),
        (''discount'', JStr (amount_text 10))],
      demo_receipt ''k5'' PAY_ORDER [30] [(''order_id'', JStr ''order-1''), (''paid_amount'', JStr (amount_text 30))]]"

definition coupon_requests :: "request list" where
  "coupon_requests = first_requests @
     [demo_act ISSUE_COUPON None [(''value'', JInt 10), (''threshold'', JInt 30)] ''k3'',
      demo_act APPLY_COUPON (Some ''order-1'') [(''coupon_id'', JStr ''coupon-1'')] ''k4'',
      demo_act PAY_ORDER (Some ''order-1'') [] ''k5'']"

definition coupon_order :: "rat \<Rightarrow> order_status \<Rightarrow> nat \<Rightarrow> order_row" where
  "coupon_order p st v = (demo_order p 0 0 st v)\<lparr>od_discount := 10, od_coupon := Some ''coupon-1''\<rparr>"

definition coupon_run :: run_space where
  "coupon_run = (demo_space PROMOTION coupon_log coupon_receipts [demo_user 70 0 INACTIVE 1] [coupon_order 30 PAID 2])
     \<lparr>rs_coupons := [demo_coupon USED None (Some ''order-1'') 1 2]\<rparr>"

lemma coupon_reached: "reached demo_digest ''run'' PROMOTION FIXED None coupon_requests = coupon_run"
proof -
  let ?issued = "(demo_space PROMOTION (take 3 coupon_log) (take 3 coupon_receipts) [demo_user 100 0 INACTIVE 0]
     [demo_order 0 0 0 PENDING_PAYMENT 0])\<lparr>rs_coupons := [demo_coupon AVAILABLE None None 0 0]\<rparr>"
  let ?applied = "(demo_space PROMOTION (take 4 coupon_log) (take 4 coupon_receipts) [demo_user 100 0 INACTIVE 0]
     [coupon_order 0 PENDING_PAYMENT 1])\<lparr>rs_coupons := [demo_coupon RESERVED (Some ''order-1'') None 0 1]\<rparr>"
  have 1: "serve demo_digest (demo_space PROMOTION demo_events demo_receipts [demo_user 100 0 INACTIVE 0]
      [demo_order 0 0 0 PENDING_PAYMENT 0])
      (demo_act ISSUE_COUPON None [(''value'', JInt 10), (''threshold'', JInt 30)] ''k3'') = ?issued"
    by (simp add: eval_simps coupon_log_def coupon_receipts_def demo_events_def demo_receipts_def issue_coupon_def)
  have 2: "serve demo_digest ?issued (demo_act APPLY_COUPON (Some ''order-1'') [(''coupon_id'', JStr ''coupon-1'')] ''k4'')
      = ?applied"
    by (simp add: eval_simps coupon_log_def coupon_receipts_def coupon_order_def demo_events_def demo_receipts_def
        apply_coupon_def)
  have 3: "serve demo_digest ?applied (demo_act PAY_ORDER (Some ''order-1'') [] ''k5'') = coupon_run"
    by (simp add: eval_simps coupon_run_def coupon_log_def coupon_receipts_def coupon_order_def demo_events_def
        demo_receipts_def pay_order_def)
  show ?thesis
    using demo_opened [of PROMOTION] 1 2 3
    by (simp only: coupon_requests_def reached_append foldl.simps scenario_type.simps not_False_eq_True)
qed

text \<open>A membership: three uses are bought, one is consumed, the rest is revoked on cancellation.\<close>

definition demo_membership :: "membership_status \<Rightarrow> nat \<Rightarrow> membership_row" where
  "demo_membership st v = \<lparr>mb_id = ''membership-1'', mb_user = ''user-1'', mb_paid = 30, mb_currency = CNY,
     mb_status = st, mb_version = v\<rparr>"

definition demo_entitlement :: "int \<Rightarrow> int \<Rightarrow> entitlement_status \<Rightarrow> nat \<Rightarrow> entitlement_row" where
  "demo_entitlement c r st v = \<lparr>en_id = ''entitlement-1'', en_membership = ''membership-1'', en_type = ''USAGE'',
     en_granted = 3, en_consumed = c, en_revoked = r, en_status = st, en_version = v\<rparr>"

definition membership_log :: "event_row list" where
  "membership_log = take 1 demo_events @
     [demo_event 2 ''MEMBERSHIP'' ''membership-1'' MEMBERSHIP_ACTIVATED
        [(''membership_id'', JStr ''membership-1''), (''user_id'', JStr ''user-1'')] ''k2'',
      demo_event 3 ''ENTITLEMENT'' ''entitlement-1'' ENTITLEMENT_GRANTED
        [(''entitlement_id'', JStr ''entitlement-1''), (''quantity'', JInt 3)] ''k2'',
      demo_event 4 ''ENTITLEMENT'' ''entitlement-1'' ENTITLEMENT_CONSUMED
        [(''entitlement_id'', JStr ''entitlement-1''), (''quantity'', JInt 1)] ''k3'',
      demo_event 5 ''ENTITLEMENT'' ''entitlement-1'' ENTITLEMENT_REVOKED
        [(''entitlement_id'', JStr ''entitlement-1''), (''quantity'', JInt 2)] ''k4'',
      demo_event 6 ''MEMBERSHIP'' ''membership-1'' MEMBERSHIP_CANCELLED
        [(''membership_id'', JStr ''membership-1'')] ''k4'']"

definition membership_receipts :: "receipt_row list" where
  "membership_receipts = take 1 demo_receipts @
     [demo_receipt ''k2'' ACTIVATE_MEMBERSHIP [30] [(''membership_id'', JStr ''membership-1''),
        (''entitlement_id'', JStr ''entitlement-1''), (''quantity'', JInt 3)],
      demo_receipt ''k3'' CONSUME_ENTITLEMENT [] [(''entitlement_id'', JStr ''entitlement-1''),
        (''consumed_quantity'', JInt 1)],
      demo_receipt ''k4'' CANCEL_MEMBERSHIP [] [(''membership_id'', JStr ''membership-1''), (''status'', JStr ''CANCELLED'')]]"

definition membership_requests :: "request list" where
  "membership_requests =
     [demo_act CREATE_USER None [(''initial_balance'', JInt 100)] ''k1'',
      demo_act ACTIVATE_MEMBERSHIP None [(''paid_amount'', JInt 30), (''quantity'', JInt 3)] ''k2'',
      demo_act CONSUME_ENTITLEMENT (Some ''entitlement-1'') [(''quantity'', JInt 1)] ''k3'',
      demo_act CANCEL_MEMBERSHIP (Some ''membership-1'') [(''refund_requested'', JBool False)] ''k4'']"

definition membership_space :: "nat \<Rightarrow> nat \<Rightarrow> user_row \<Rightarrow> membership_row \<Rightarrow> entitlement_row \<Rightarrow> run_space" where
  "membership_space n k u m e = (demo_space MEMBERSHIP_ENTITLEMENT (take n membership_log) (take k membership_receipts)
     [u] [])\<lparr>rs_memberships := [m], rs_entitlements := [e]\<rparr>"

definition membership_run :: run_space where
  "membership_run = membership_space 6 4 (demo_user 70 0 INACTIVE 1) (demo_membership MCancelled 1)
     (demo_entitlement 1 2 REVOKED 2)"

lemmas membership_simps = membership_space_def membership_log_def membership_receipts_def demo_membership_def
  demo_entitlement_def available_quantity_def demo_events_def demo_receipts_def

lemma membership_reached:
  "reached demo_digest ''run'' MEMBERSHIP_ENTITLEMENT FIXED None membership_requests = membership_run"
proof -
  let ?s1 = "demo_space MEMBERSHIP_ENTITLEMENT (take 1 demo_events) (take 1 demo_receipts) [demo_user 100 0 INACTIVE 0] []"
  let ?s2 = "membership_space 3 2 (demo_user 70 0 ACTIVE 1) (demo_membership MActive 0) (demo_entitlement 0 0 GRANTED 0)"
  let ?s3 = "membership_space 4 3 (demo_user 70 0 ACTIVE 1) (demo_membership MActive 0)
     (demo_entitlement 1 0 PARTIALLY_CONSUMED 1)"
  have 1: "serve demo_digest (empty_run ''run'' MEMBERSHIP_ENTITLEMENT FIXED None)
      (demo_act CREATE_USER None [(''initial_balance'', JInt 100)] ''k1'') = ?s1"
    by (simp add: eval_simps demo_events_def demo_receipts_def create_user_def)
  have 2: "serve demo_digest ?s1
      (demo_act ACTIVATE_MEMBERSHIP None [(''paid_amount'', JInt 30), (''quantity'', JInt 3)] ''k2'') = ?s2"
    by (simp add: eval_simps membership_simps activate_membership_def)
  have 3: "serve demo_digest ?s2 (demo_act CONSUME_ENTITLEMENT (Some ''entitlement-1'') [(''quantity'', JInt 1)] ''k3'') = ?s3"
    by (simp add: eval_simps membership_simps consume_entitlement_def)
  have 4: "serve demo_digest ?s3
      (demo_act CANCEL_MEMBERSHIP (Some ''membership-1'') [(''refund_requested'', JBool False)] ''k4'') = membership_run"
    by (simp add: eval_simps membership_simps membership_run_def cancel_membership_def revoke_available_def)
  show ?thesis using 1 2 3 4 by (simp only: membership_requests_def reached_def foldl.simps)
qed

end
