(* ===== verification/Sandbox_Properties.thy ===== *)
theory Sandbox_Properties
  imports Sandbox_Demo
begin

text \<open>
  What the Commerce Sandbox guarantees about every state that requests can bring a run to, with
  the injected defects as the named exceptions, and concrete runs where the hypotheses hold.
\<close>

section \<open>Books\<close>

lemma reached_books: "wf_books (reached D i sc v axes reqs)"
  using reached_ok by (simp add: run_ok_def)

text \<open>C1: Unless the run injects REFUND_AGAINST_ORIGINAL in a promotion, no order is ever refunded more
  than was paid for it, and the refunded amount is the sum of the order's refund rows.\<close>

theorem refunds_bounded:
  assumes "d \<in> set (rs_orders (reached D i sc v axes reqs))"
    and "sc \<noteq> PROMOTION \<or> REFUND_AGAINST_ORIGINAL \<notin> profile_for_run v axes"
  shows "0 \<le> od_refunded d \<and> od_refunded d \<le> od_paid d
    \<and> od_refunded d = refund_total (reached D i sc v axes reqs) (od_id d)"
proof -
  have "order_ok (reached D i sc v axes reqs) d"
    using assms(1) wf_books_facts(2) [OF reached_books] by (simp add: wf_rowsD)
  moreover have "\<not> overrefunds (reached D i sc v axes reqs)"
    using assms(2) by (auto simp: overrefunds_def reached_fixed)
  ultimately show ?thesis
    using assms(1) wf_books_facts(3) [OF reached_books, of D i sc v axes reqs]
      order_ok_nonneg [of "reached D i sc v axes reqs" d]
    by (simp add: order_ok_def refunds_match_def)
qed

theorem refunds_bounded_witness:
  "(0::rat) \<le> 15 \<and> (15::rat) \<le> 40
    \<and> 15 = refund_total (reached demo_digest ''run'' PROMOTION FIXED None promotion_requests) ''order-1''"
  using refunds_bounded [of "demo_order 40 15 0 PARTIALLY_REFUNDED 2" demo_digest "''run''" PROMOTION FIXED None
      promotion_requests]
  by (simp add: promotion_reached promotion_run_def demo_space_def demo_order_def profile_for_run_def)

text \<open>C3: Requests other than a reset neither create nor destroy money: once the account exists, balance plus
  what orders hold and memberships cost stays constant, whatever defects are injected.\<close>

theorem money_conserved:
  assumes "rs_users (reached D i sc v axes reqs) \<noteq> []" and "Reset \<notin> set rest"
  shows "wealth (reached D i sc v axes (reqs @ rest)) = wealth (reached D i sc v axes reqs)"
proof -
  let ?r = "reached D i sc v axes reqs" and ?s = "reached D i sc v axes (reqs @ rest)"
  have "move\<^sup>*\<^sup>* (books ?r) (books ?s)"
    unfolding reached_append using serves_moves [OF reached_ok assms(2)] by simp
  then have "wealth (books ?s) = wealth (books ?r)"
    using moves_wealth [of "books ?r" "books ?s"] assms(1) reached_books by simp
  then show ?thesis by (simp add: wealth_def)
qed

theorem money_conserved_witness:
  "wealth (reached demo_digest ''run'' PROMOTION FIXED None (promotion_requests @ promotion_requests)) = 100"
proof -
  have "rs_users promotion_run \<noteq> []" "Reset \<notin> set promotion_requests" "wealth promotion_run = 100"
    by (simp_all add: promotion_run_def demo_space_def promotion_requests_def first_requests_def demo_act_def wealth_def
        demo_user_def demo_order_def empty_run_def)
  then show ?thesis
    using money_conserved [of demo_digest "''run''" PROMOTION FIXED None promotion_requests promotion_requests]
    by (simp add: promotion_reached)
qed

text \<open>The points balance is the sum of the points ledger, in every reached state.\<close>

theorem points_are_ledger_sum:
  "sum_list (map us_points (rs_users (reached D i sc v axes reqs)))
     = sum_list (map lg_amount (rs_ledger (reached D i sc v axes reqs)))"
  using wf_books_facts(4) [OF reached_books] by (simp add: points_match_def)



text \<open>Without the restoring defect of promotions, a coupon is used at most once, and exactly when its status says so.\<close>

theorem coupon_used_once:
  assumes "c \<in> set (rs_coupons (reached D i sc v axes reqs))"
    and "sc \<noteq> PROMOTION \<or> COUPON_RESTORED_ON_REFUND \<notin> profile_for_run v axes"
  shows "cp_usage c = (if cp_status c = USED then 1 else 0)"
proof -
  have "coupon_ok (reached D i sc v axes reqs) c"
    using assms(1) wf_books_facts(2) [OF reached_books] by (simp add: wf_rowsD)
  with assms(2) show ?thesis by (auto simp: coupon_ok_def restores_coupons_def reached_fixed)
qed

theorem coupon_used_once_witness:
  "cp_usage (demo_coupon USED None (Some ''order-1'') 1 2) = 1"
  using coupon_used_once [of "demo_coupon USED None (Some ''order-1'') 1 2" demo_digest "''run''" PROMOTION FIXED None
      coupon_requests]
  by (simp add: coupon_reached coupon_run_def demo_space_def demo_coupon_def profile_for_run_def)

text \<open>Without ENTITLEMENT_OVERCONSUMPTION no entitlement is consumed and revoked beyond what was granted, and
  without the defect that leaves entitlements after a refund, a membership that is no longer active
  has no usable entitlement left.\<close>

theorem entitlements_kept:
  assumes "e \<in> set (rs_entitlements (reached D i sc v axes reqs))"
    and "ENTITLEMENT_OVERCONSUMPTION \<notin> profile_for_run v axes"
    and "ENTITLEMENT_LEFT_AFTER_REFUND \<notin> profile_for_run v axes"
  shows "0 \<le> available_quantity e
    \<and> (\<forall>m \<in> set (rs_memberships (reached D i sc v axes reqs)).
         en_membership e = mb_id m \<longrightarrow> mb_status m \<noteq> MActive \<longrightarrow> available_quantity e = 0)"
proof (intro conjI ballI impI)
  let ?r = "reached D i sc v axes reqs"
  have ok: "entitlement_ok ?r e"
    using assms(1) wf_books_facts(2) [OF reached_books] by (simp add: wf_rowsD)
  then show nonneg: "0 \<le> available_quantity e" using assms(2) by (simp add: entitlement_ok_def reached_fixed)
  fix m assume "m \<in> set (rs_memberships ?r)" "en_membership e = mb_id m" "mb_status m \<noteq> MActive"
  then have "shut e"
    using assms(1,3) wf_books_facts(6) [OF reached_books, of D i sc v axes reqs]
    by (auto simp: entitlements_shut_def leaves_shut_def reached_fixed)
  then show "available_quantity e = 0"
    using ok nonneg by (auto simp: entitlement_ok_def shut_def available_quantity_def split: if_splits)
qed


theorem entitlements_kept_witness: "available_quantity (demo_entitlement 1 2 REVOKED 2) = 0"
  using entitlements_kept [of "demo_entitlement 1 2 REVOKED 2" demo_digest "''run''" MEMBERSHIP_ENTITLEMENT FIXED None
      membership_requests]
  by (simp add: membership_reached membership_run_def membership_space_def demo_space_def demo_entitlement_def
      demo_membership_def profile_for_run_def)

text \<open>An order only moves forward: whatever requests follow, short of a reset, it is still there with its
  price, a refunded or cancelled order is exactly as it was, and a paid one keeps what was charged
  while its refunds only add up.\<close>

theorem orders_only_advance:
  assumes "Reset \<notin> set rest" and "d \<in> set (rs_orders (reached D i sc v axes reqs))"
  shows "\<exists>d' \<in> set (rs_orders (reached D i sc v axes (reqs @ rest))). advanced d d'"
proof -
  let ?r = "reached D i sc v axes reqs" and ?s = "reached D i sc v axes (reqs @ rest)"
  have "move\<^sup>*\<^sup>* (books ?r) (books ?s)"
    unfolding reached_append using serves_moves [OF reached_ok assms(1)] by simp
  then have "orders_advanced (books ?r) (books ?s)"
    using moves_orders_advanced [of "books ?r" "books ?s"] reached_books by simp
  with assms(2) show ?thesis by (simp add: orders_advanced_def)
qed

theorem orders_only_advance_witness:
  "\<exists>d' \<in> set (rs_orders (reached demo_digest ''run'' REFUND_POINTS FIXED None (points_requests @ first_requests))).
     advanced (demo_order 40 40 40 REFUNDED 2) d'"
  using orders_only_advance [of first_requests "demo_order 40 40 40 REFUNDED 2" demo_digest "''run''" REFUND_POINTS FIXED None
      points_requests]
  by (simp add: points_reached points_run_def demo_space_def first_requests_def demo_act_def)

section \<open>Transactions\<close>

text \<open>A paid order in a run whose refund acknowledgements are lost.\<close>

definition lossy_run :: run_space where
  "lossy_run = (demo_space PROMOTION (take 3 (settle_events 15)) (take 3 (settle_receipts 15)) [demo_user 60 0 INACTIVE 1]
      [demo_order 40 0 0 PAID 1])\<lparr>rs_axes := Some [REFUND_ACK_LOST]\<rparr>"

lemma lossy_reached:
  "reached demo_digest ''run'' PROMOTION FIXED (Some [REFUND_ACK_LOST])
     (first_requests @ [demo_act PAY_ORDER (Some ''order-1'') [] ''k3'']) = lossy_run"
proof -
  have 1: "serve demo_digest (empty_run ''run'' PROMOTION FIXED (Some [REFUND_ACK_LOST]))
      (demo_act CREATE_USER None [(''initial_balance'', JInt 100)] ''k1'') =
    (demo_space PROMOTION (take 1 demo_events) (take 1 demo_receipts) [demo_user 100 0 INACTIVE 0] [])
      \<lparr>rs_axes := Some [REFUND_ACK_LOST]\<rparr>"
    by (simp add: eval_simps demo_events_def demo_receipts_def create_user_def)
  have 2: "serve demo_digest ((demo_space PROMOTION (take 1 demo_events) (take 1 demo_receipts)
        [demo_user 100 0 INACTIVE 0] [])\<lparr>rs_axes := Some [REFUND_ACK_LOST]\<rparr>)
      (demo_act CREATE_ORDER None [(''amount'', JInt 40)] ''k2'') =
    (demo_space PROMOTION demo_events demo_receipts [demo_user 100 0 INACTIVE 0] [demo_order 0 0 0 PENDING_PAYMENT 0])
      \<lparr>rs_axes := Some [REFUND_ACK_LOST]\<rparr>"
    by (simp add: eval_simps demo_events_def demo_receipts_def create_order_def)
  have 3: "serve demo_digest ((demo_space PROMOTION demo_events demo_receipts [demo_user 100 0 INACTIVE 0]
        [demo_order 0 0 0 PENDING_PAYMENT 0])\<lparr>rs_axes := Some [REFUND_ACK_LOST]\<rparr>)
      (demo_act PAY_ORDER (Some ''order-1'') [] ''k3'') = lossy_run"
    by (simp add: eval_simps lossy_run_def settle_events_def settle_receipts_def demo_events_def demo_receipts_def
        pay_order_def)
  show ?thesis using 1 2 3 by (simp only: first_requests_def reached_def foldl.simps append.simps)
qed

lemma distinct_filter_singleton:
  assumes "distinct xs" "x \<in> set xs" "P x" "\<And>y. y \<in> set xs \<Longrightarrow> P y \<Longrightarrow> y = x"
  shows "filter P xs = [x]"
proof -
  obtain ys zs where xs: "xs = ys @ x # zs" using assms(2) split_list by fast
  then have "x \<notin> set ys" "x \<notin> set zs" using assms(1) by auto
  then have "\<not> P y" if "y \<in> set ys \<union> set zs" for y using assms(4) [of y] that xs by auto
  then have "filter P ys = []" "filter P zs = []" by (simp_all add: filter_empty_conv)
  with assms(3) show ?thesis by (simp add: xs)
qed

lemma refund_keys:
  assumes "run_ok run"
  shows "map rf_key (rs_refunds run) = map rc_key (settled run REFUND_ORDER)"
proof -
  have "map (\<lambda>f. (rf_key f, [rf_amount f])) (rs_refunds run)
      = map (\<lambda>c. (rc_key c, map m_amount (rc_effects c))) (settled run REFUND_ORDER)"
    using assms by (simp add: run_ok_def refund_rows_ok_def)
  from arg_cong [OF this, of "map fst"] show ?thesis by (simp add: comp_def)
qed

lemma receipt_found:
  assumes "receipts_ok run" "r \<in> set (rs_receipts run)" "rc_epoch r = rs_epoch run"
  shows "find_receipt run (rc_action r) (rc_key r) = Some r"
proof (cases "find_receipt run (rc_action r) (rc_key r)")
  case None
  with assms show ?thesis by (auto simp: find_receipt_None)
next
  case (Some c)
  have inj: "inj_on (\<lambda>c. (rc_epoch c, rc_action c, rc_key c)) (set (rs_receipts run))"
    using assms(1) by (simp add: receipts_ok_def distinct_map)
  have "c = r" using find_receipt_SomeD [OF Some] assms by (intro inj_onD [OF inj]) simp_all
  with Some show ?thesis by simp
qed

text \<open>The receipt a transaction returns is durable: it stands among the receipts it commits.\<close>

lemma transact_receipt:
  assumes t: "transact D amb cmd run = Some (r, run')" and ok: "run_ok run"
  shows "r \<in> set (rs_receipts run') \<and> rc_epoch r = rs_epoch run' \<and> rc_action r = cmd_action cmd
      \<and> rc_key r = effective_key amb cmd"
  using t
proof (cases rule: transact_cases)
  case replay
  then show ?thesis using find_receipt_SomeD by auto
next
  case (committed result effects run1)
  then show ?thesis using transact_later [OF t ok] by (simp add: add_receipt_def make_receipt_def)
next
  case (rejected code)
  then show ?thesis by (simp add: add_receipt_def make_receipt_def)
qed

lemma replayed:
  assumes t: "transact D amb cmd run = Some (r, run')" and ok: "run_ok run"
    and later: "later run' run''" "rs_epoch run'' = rs_epoch run'"
    and same: "cmd_action cmd' = cmd_action cmd" "effective_key amb' cmd' = effective_key amb cmd" "run_ok run''"
  shows "transact D amb' cmd' run'' = Some (r, run'')"
proof -
  note r = transact_receipt [OF t ok]
  then have "r \<in> set (rs_receipts run'')" using later(1) by (auto simp: later_def)
  then have "find_receipt run'' (cmd_action cmd) (effective_key amb cmd) = Some r"
    using r later(2) receipt_found [of run'' r] same(3) by (simp add: run_ok_def)
  with same show ?thesis by (simp add: transact_def)
qed

text \<open>C2: A request repeated under its key is answered from its receipt: whatever happened since, short of a reset,
  and whatever else the repeated command says, the same receipt comes back and nothing changes.\<close>

theorem replay_returns_receipt:
  assumes "transact D amb cmd (reached D i sc v axes reqs) = Some (r, run')" and "Reset \<notin> set rest"
    and "cmd_action cmd' = cmd_action cmd" and "effective_key amb' cmd' = effective_key amb cmd"
  shows "transact D amb' cmd' (foldl (serve D) run' rest) = Some (r, foldl (serve D) run' rest)"
proof (rule replayed [OF assms(1) reached_ok])
  have ok: "run_ok run'" using assms(1) reached_ok by (rule transact_ok)
  show "later run' (foldl (serve D) run' rest)" "run_ok (foldl (serve D) run' rest)"
    using ok by (rule sandbox.run_below, rule sandbox.run_good)
  show "rs_epoch (foldl (serve D) run' rest) = rs_epoch run'" using serves_moves [OF ok assms(2)] by simp
qed (use assms in auto)

theorem replay_returns_receipt_witness:
  "\<exists>r run'. transact demo_digest demo_amb \<lparr>cmd_action = REFUND_ORDER, cmd_actor = ''user-1'', cmd_target = None,
      cmd_arguments = [], cmd_key = Some ''k4''\<rparr> promotion_run = Some (r, run')
    \<and> transact demo_digest demo_amb \<lparr>cmd_action = REFUND_ORDER, cmd_actor = ''user-2'', cmd_target = None,
      cmd_arguments = [(''amount'', JInt 99)], cmd_key = Some ''k4''\<rparr> (foldl (serve demo_digest) run' first_requests)
      = Some (r, foldl (serve demo_digest) run' first_requests)"
proof -
  let ?cmd = "\<lparr>cmd_action = REFUND_ORDER, cmd_actor = ''user-1'', cmd_target = None, cmd_arguments = [],
    cmd_key = Some ''k4''\<rparr>"
  have "transact demo_digest demo_amb ?cmd promotion_run = Some (last (settle_receipts 15), promotion_run)"
    by (simp add: transact_def effective_key_def find_receipt_def promotion_run_def demo_space_def settle_receipts_def
        demo_receipts_def demo_receipt_def empty_run_def Let_def)
  then show ?thesis
    using replay_returns_receipt [of demo_digest demo_amb ?cmd "''run''" PROMOTION FIXED None promotion_requests _ _ first_requests
        "\<lparr>cmd_action = REFUND_ORDER, cmd_actor = ''user-2'', cmd_target = None, cmd_arguments = [(''amount'', JInt 99)],
           cmd_key = Some ''k4''\<rparr>" demo_amb]
    by (simp add: promotion_reached effective_key_def first_requests_def demo_act_def)
qed

text \<open>Refund rows and successful refund receipts of the epoch correspond one to one, in order, with the same
  keys and amounts, and no two refunds share a key.\<close>

theorem refunds_have_receipts:
  "map (\<lambda>f. (rf_key f, [rf_amount f])) (rs_refunds (reached D i sc v axes reqs))
     = map (\<lambda>c. (rc_key c, map m_amount (rc_effects c))) (settled (reached D i sc v axes reqs) REFUND_ORDER)
   \<and> distinct (map rf_key (rs_refunds (reached D i sc v axes reqs)))"
proof -
  let ?r = "reached D i sc v axes reqs"
  have eq: "map (\<lambda>f. (rf_key f, [rf_amount f])) (rs_refunds ?r)
      = map (\<lambda>c. (rc_key c, map m_amount (rc_effects c))) (settled ?r REFUND_ORDER)"
    using reached_ok [of D i sc v axes reqs] by (simp add: run_ok_def refund_rows_ok_def)
  have "distinct (map (\<lambda>c. (rc_epoch c, rc_action c, rc_key c)) (settled ?r REFUND_ORDER))"
    using reached_ok [of D i sc v axes reqs] unfolding settled_def
    by (intro distinct_map_filter) (simp add: run_ok_def receipts_ok_def)
  then have "distinct (map rc_key (settled ?r REFUND_ORDER))"
    by (auto simp: distinct_map inj_on_def settled_def)
  moreover have "map rf_key (rs_refunds ?r) = map rc_key (settled ?r REFUND_ORDER)"
    using reached_ok by (rule refund_keys)
  ultimately show ?thesis using eq by simp
qed

text \<open>The event log of each epoch is numbered 1, 2, 3 and so on without gaps, and further requests, resets
  included, only append to it.\<close>

theorem event_log_append_only:
  "map ev_seq (epoch_log (reached D i sc v axes reqs) ep) = [1..<Suc (length (epoch_log (reached D i sc v axes reqs) ep))]
   \<and> (\<exists>evs. rs_events (reached D i sc v axes (reqs @ rest)) = rs_events (reached D i sc v axes reqs) @ evs)"
  using reached_ok [of D i sc v axes reqs] reached_later [of D i sc v axes reqs rest]
  by (simp add: run_ok_def events_ok_def later_def)

text \<open>C5: The handlers implement the abstract moves: a committed action takes the books of the run from where they were
  to where a sequence of moves leads, and the invariant of the run survives.\<close>

theorem actions_refine_moves:
  assumes "db i = Some run" and "run_ok run"
    and "execute D amb i cmd db = (out, db')" and "db' i = Some run'"
  shows "move\<^sup>*\<^sup>* (books run) (books run') \<and> run_ok run'"
proof -
  have "run' = serve D run (Act amb cmd)"
    using execute_serves [of db i run D amb cmd i] assms by simp
  then show ?thesis using serve_moves [of run "Act amb cmd" D] serve_ok assms(2) by auto
qed

theorem actions_refine_moves_witness:
  "move\<^sup>*\<^sup>* (books promotion_run)
     (books (serve demo_digest promotion_run (demo_act REFUND_ORDER (Some ''order-1'') [(''amount'', JInt 5)] ''k5'')))"
proof -
  let ?cmd = "\<lparr>cmd_action = REFUND_ORDER, cmd_actor = ''user-1'', cmd_target = Some ''order-1'',
    cmd_arguments = [(''amount'', JInt 5)], cmd_key = Some ''k5''\<rparr>"
  let ?db = "[''run'' \<mapsto> promotion_run]"
  have "run_ok promotion_run" using reached_ok by (metis promotion_reached)
  moreover have "snd (execute demo_digest demo_amb ''run'' ?cmd ?db) ''run''
      = Some (serve demo_digest promotion_run (Act demo_amb ?cmd))"
    using execute_serves [of ?db "''run''" promotion_run] by simp
  ultimately show ?thesis
    using actions_refine_moves [of ?db "''run''" promotion_run demo_digest demo_amb ?cmd
        "fst (execute demo_digest demo_amb ''run'' ?cmd ?db)" "snd (execute demo_digest demo_amb ''run'' ?cmd ?db)"]
    by (simp add: demo_act_def)
qed


text \<open>A lost acknowledgement is a committed refund: the receipt is found under its key afterwards, provided no
  other kind of action used that key, and a receipt of success comes with exactly one refund row under
  it.\<close>

theorem lost_acknowledgement_is_durable:
  assumes "db i = Some run" and "run_ok run" and "execute D amb i cmd db = (Lost r, db')"
    and "\<forall>c \<in> set (rs_receipts run). rc_key c = rc_key r \<longrightarrow> rc_action c = REFUND_ORDER"
  shows "cmd_action cmd = REFUND_ORDER \<and> get_receipt i (rc_key r) db' = Inr r
    \<and> (rc_status r = SUCCEEDED \<longrightarrow>
        (\<exists>run'. db' i = Some run' \<and> length (filter (\<lambda>f. rf_key f = rc_key r) (rs_refunds run')) = 1))"
proof -
  obtain run' where t: "transact D amb cmd run = Some (r, run')" and act: "cmd_action cmd = REFUND_ORDER"
      and db': "db' = db(i \<mapsto> run')"
    using assms(1,3) by (auto simp: execute_def loses_ack_def split: if_splits option.splits)
  note r = transact_receipt [OF t assms(2)]
  have ok: "run_ok run'" using t assms(2) by (rule transact_ok)
  then have rok: "receipts_ok run'" by (simp add: run_ok_def)
  have only: "c = r" if c: "c \<in> set (rs_receipts run')" "rc_epoch c = rs_epoch run'" "rc_key c = rc_key r" for c
  proof -
    have "rc_action c = REFUND_ORDER"
      using t c(1,3) assms(4) act r
      by (cases rule: transact_cases)
        (auto simp: add_receipt_def make_receipt_def dest!: dispatch_logs split: if_splits, auto simp: logs_def)
    then have "find_receipt run' (rc_action r) (rc_key r) = Some c"
      using receipt_found [OF rok c(1,2)] r act c(3) by simp
    then show ?thesis using receipt_found [OF rok, of r] r by simp
  qed
  have "set (filter (\<lambda>c. rc_epoch c = rs_epoch run' \<and> rc_key c = rc_key r) (rs_receipts run')) = {r}"
    using only r by auto
  then have "set (sort_key rc_at (filter (\<lambda>c. rc_epoch c = rs_epoch run' \<and> rc_key c = rc_key r) (rs_receipts run'))) = {r}"
    by (simp only: set_sort)
  then have "lookup_receipt run' (rc_key r) = Some r"
    unfolding lookup_receipt_def
    by (cases "sort_key rc_at (filter (\<lambda>c. rc_epoch c = rs_epoch run' \<and> rc_key c = rc_key r) (rs_receipts run'))") auto
  then have "get_receipt i (rc_key r) db' = Inr r"
    by (simp add: get_receipt_def fetch_run_def db')
  moreover have "length (filter (\<lambda>f. rf_key f = rc_key r) (rs_refunds run')) = 1" if "rc_status r = SUCCEEDED"
  proof -
    have eq: "map rf_key (rs_refunds run') = map rc_key (settled run' REFUND_ORDER)"
      using ok by (rule refund_keys)
    have "r \<in> set (settled run' REFUND_ORDER)" using r act that by (simp add: settled_def)
    moreover have "distinct (settled run' REFUND_ORDER)"
      using rok by (simp add: settled_def receipts_ok_def distinct_map distinct_filter)
    ultimately have "filter (\<lambda>c. rc_key c = rc_key r) (settled run' REFUND_ORDER) = [r]"
      using only by (intro distinct_filter_singleton) (auto simp: settled_def)
    moreover have "length (filter (\<lambda>f. rf_key f = rc_key r) (rs_refunds run'))
        = length (filter (\<lambda>c. rc_key c = rc_key r) (settled run' REFUND_ORDER))"
      using arg_cong [OF eq, of "\<lambda>ks. length (filter (\<lambda>k. k = rc_key r) ks)"] by (simp add: filter_map comp_def)
    ultimately show ?thesis by simp
  qed
  ultimately show ?thesis using act db' by auto
qed


theorem lost_acknowledgement_is_durable_witness:
  "\<exists>r. get_receipt ''run'' ''k4'' (snd (execute demo_digest demo_amb ''run'' \<lparr>cmd_action = REFUND_ORDER,
        cmd_actor = ''user-1'', cmd_target = Some ''order-1'', cmd_arguments = [(''amount'', JInt 15)],
        cmd_key = Some ''k4''\<rparr> [''run'' \<mapsto> lossy_run])) = Inr r
     \<and> rc_status r = SUCCEEDED"
proof -
  let ?cmd = "\<lparr>cmd_action = REFUND_ORDER, cmd_actor = ''user-1'', cmd_target = Some ''order-1'',
     cmd_arguments = [(''amount'', JInt 15)], cmd_key = Some ''k4''\<rparr>"
  let ?r = "demo_receipt ''k4'' REFUND_ORDER [15] [(''refund_id'', JStr ''refund-1''), (''order_id'', JStr ''order-1''),
        (''refunded_amount'', JStr (amount_text 15)), (''order_refunded_total'', JStr (amount_text 15))]"
  have "fst (execute demo_digest demo_amb ''run'' ?cmd [''run'' \<mapsto> lossy_run]) = Lost ?r"
    by (simp add: eval_simps execute_def loses_ack_def lossy_run_def settle_events_def settle_receipts_def
        demo_events_def demo_receipts_def refund_order_def)
  moreover have "run_ok lossy_run" using reached_ok by (metis lossy_reached)
  moreover have "\<forall>c \<in> set (rs_receipts lossy_run). rc_key c \<noteq> rc_key ?r"
    by (simp add: lossy_run_def demo_space_def settle_receipts_def demo_receipts_def demo_receipt_def)
  ultimately show ?thesis
    using lost_acknowledgement_is_durable [of "[''run'' \<mapsto> lossy_run]" "''run''" lossy_run demo_digest demo_amb ?cmd ?r
        "snd (execute demo_digest demo_amb ''run'' ?cmd [''run'' \<mapsto> lossy_run])"]
    by (cases "execute demo_digest demo_amb ''run'' ?cmd [''run'' \<mapsto> lossy_run]") (auto simp: demo_receipt_def)
qed



text \<open>A reset empties the books, keeps every receipt and event, and opens an epoch in which no old key is
  answered from an old receipt.\<close>

theorem reset_starts_over:
  "wf_books (serve D (reached D i sc v axes reqs) Reset) \<and> rs_users (serve D (reached D i sc v axes reqs) Reset) = []
   \<and> rs_orders (serve D (reached D i sc v axes reqs) Reset) = [] \<and> rs_refunds (serve D (reached D i sc v axes reqs) Reset) = []
   \<and> later (reached D i sc v axes reqs) (serve D (reached D i sc v axes reqs) Reset)
   \<and> find_receipt (serve D (reached D i sc v axes reqs) Reset) act key = None"
proof -
  let ?r = "reached D i sc v axes reqs"
  have "\<forall>c \<in> set (rs_receipts ?r). rc_epoch c \<le> rs_epoch ?r"
    using reached_ok [of D i sc v axes reqs] by (simp add: run_ok_def receipts_ok_def)
  then have "find_receipt (reset_space ?r) act key = None"
    by (fastforce simp: find_receipt_None reset_space_def delete_state_def)
  moreover have "wf_books (reset_space ?r)" using reset_ok [OF reached_ok] by (simp add: run_ok_def)
  ultimately show ?thesis
    using serve_later [OF reached_ok, of D i sc v axes reqs D Reset] by (simp add: reset_space_def delete_state_def)
qed

text \<open>The snapshot version of a run counts the actions that changed it in the current epoch.\<close>

theorem snapshot_version_counts_actions:
  "rs_snapshot_version (reached D i sc v axes reqs) = length (filter (\<lambda>c. rc_epoch c = rs_epoch (reached D i sc v axes reqs)
     \<and> rc_action c \<noteq> INSPECT_STATE \<and> rc_status c = SUCCEEDED) (rs_receipts (reached D i sc v axes reqs)))"
  using reached_ok [of D i sc v axes reqs] by (simp add: run_ok_def version_ok_def)

end
