(* ===== verification/Sandbox_Http.thy ===== *)
theory Sandbox_Http
  imports Sandbox_Demo
begin

text \<open>
  The sandbox's HTTP surface (\<^verbatim>\<open>app.py\<close>: status codes, bodies, the delayed answer of a
  lost acknowledgement) and the network between it and a client. Every exchange happens under
  conditions that the model takes as given: the clock, whether the request or the reply is lost
  and what the client sees then, and how many requests still in flight from earlier exchanges
  reach the service first. Bodies carry the fields the clients of this repository read; error
  messages, details and the receipt's time are left out.
\<close>

section \<open>Replies\<close>

text \<open>
  What an HTTP client gets: a status with a JSON body, a status with a body that is no JSON, a
  timeout, or another transport error under the name of its exception.
\<close>

datatype reply = Reply nat json | Garbled nat | Silent | Severed string

definition receipt_json :: "string \<Rightarrow> receipt_row \<Rightarrow> json" where
  "receipt_json run_id r = JObj [
     (''schema_version'', JStr ''1.0''),
     (''receipt_id'', JStr (rc_id r)),
     (''run_id'', JStr run_id),
     (''idempotency_key'', opt_text (public_key r)),
     (''action_type'', JStr (action_name (rc_action r))),
     (''status'', JStr (status_name (rc_status r))),
     (''monetary_effects'', JList (map money_json (rc_effects r))),
     (''result'', rc_result r),
     (''error'', (case rc_error r of None \<Rightarrow> JNull | Some code \<Rightarrow> JObj [(''code'', JStr code)]))]"

definition domain_status :: "string \<Rightarrow> nat" where
  "domain_status code =
     (if code = ''RUN_NOT_FOUND'' \<or> code = ''RECEIPT_NOT_FOUND'' \<or> code = ''SCENARIO_NOT_FOUND'' then 404
      else if code = ''IDEMPOTENCY_KEY_REQUIRED'' then 422
      else 409)"

definition domain_http_error :: "string \<Rightarrow> reply" where
  "domain_http_error code = Reply (domain_status code) (JObj [(''detail'', JObj [(''code'', JStr code)])])"

fun failure_reply :: "failure \<Rightarrow> reply" where
  "failure_reply (DomainError code) = domain_http_error code"
| "failure_reply Unhandled = Garbled 500"

text \<open>\<^verbatim>\<open>ActionCommand\<close>'s field constraints; a request that breaks them is answered by the framework.\<close>

definition valid_command :: "command \<Rightarrow> bool" where
  "valid_command cmd \<longleftrightarrow> cmd_actor cmd \<noteq> [] \<and> length (cmd_actor cmd) \<le> 128
     \<and> (case cmd_target cmd of None \<Rightarrow> True | Some t \<Rightarrow> length t \<le> 128)
     \<and> (case cmd_key cmd of None \<Rightarrow> True | Some k \<Rightarrow> k \<noteq> [] \<and> length k \<le> 256)"

definition execute_action ::
  "(json \<Rightarrow> string) \<Rightarrow> ambient \<Rightarrow> string \<Rightarrow> command \<Rightarrow> database \<Rightarrow> reply \<times> database" where
  "execute_action D amb run_id cmd db =
     (if \<not> valid_command cmd then (Reply 422 (JObj [(''detail'', JList [JObj []])]), db)
      else case execute D amb run_id cmd db of
        (Answered r, db') \<Rightarrow> (Reply 200 (receipt_json run_id r), db')
      | (Refused code, db') \<Rightarrow> (domain_http_error code, db')
      | (Lost r, db') \<Rightarrow> (Garbled 504, db')
      | (Crashed, db') \<Rightarrow> (Garbled 500, db'))"

definition http_snapshot :: "(json \<Rightarrow> string) \<Rightarrow> string \<Rightarrow> ambient \<Rightarrow> database \<Rightarrow> reply" where
  "http_snapshot D run_id amb db = (case get_snapshot D amb run_id db of
       Inr body \<Rightarrow> Reply 200 body
     | Inl e \<Rightarrow> failure_reply e)"

definition http_receipt :: "string \<Rightarrow> string \<Rightarrow> ambient \<Rightarrow> database \<Rightarrow> reply" where
  "http_receipt run_id key amb db = (case get_receipt run_id key db of
       Inr r \<Rightarrow> Reply 200 (receipt_json run_id r)
     | Inl e \<Rightarrow> failure_reply e)"

section \<open>The network\<close>

text \<open>
  A failed exchange looks to the client like silence, a broken connection, or an answer of the
  proxy or the server framework in the 5xx range.
\<close>

datatype glitch = Silence | Broken string | Internal_error | Bad_gateway | Unavailable | Gateway_timeout

fun glitch_reply :: "glitch \<Rightarrow> reply" where
  "glitch_reply Silence = Silent"
| "glitch_reply (Broken e) = Severed e"
| "glitch_reply Internal_error = Garbled 500"
| "glitch_reply Bad_gateway = Garbled 502"
| "glitch_reply Unavailable = Garbled 503"
| "glitch_reply Gateway_timeout = Garbled 504"

text \<open>
  The request never arrives, or it is served and its reply is lost, or it stays in flight and
  may be served during a later exchange, after the client has given up on it.
\<close>

datatype delivery = Deliver | Lost_request glitch | Lost_reply glitch | Late glitch

record conditions =
  cn_amb :: ambient
  cn_delivery :: delivery
  cn_arrivals :: nat

record world =
  w_db :: database
  w_flight :: "(string \<times> command) list"
  w_conditions :: "nat \<Rightarrow> conditions"
  w_tick :: nat

definition current :: "world \<Rightarrow> conditions" where
  "current w = w_conditions w (w_tick w)"

definition arrivals :: "(json \<Rightarrow> string) \<Rightarrow> world \<Rightarrow> database" where
  "arrivals D w = foldl (\<lambda>db (i, cmd). snd (execute_action D (cn_amb (current w)) i cmd db)) (w_db w)
     (take (cn_arrivals (current w)) (w_flight w))"

definition next_world :: "(json \<Rightarrow> string) \<Rightarrow> world \<Rightarrow> world" where
  "next_world D w = w\<lparr>w_db := arrivals D w, w_flight := drop (cn_arrivals (current w)) (w_flight w),
     w_tick := Suc (w_tick w)\<rparr>"

definition send_post ::
  "(json \<Rightarrow> string) \<Rightarrow> string \<Rightarrow> command \<Rightarrow> world \<Rightarrow> reply \<times> world" where
  "send_post D run_id cmd w =
     (let w1 = next_world D w;
          (answer, db') = execute_action D (cn_amb (current w)) run_id cmd (w_db w1)
      in case cn_delivery (current w) of
           Deliver \<Rightarrow> (answer, w1\<lparr>w_db := db'\<rparr>)
         | Lost_request g \<Rightarrow> (glitch_reply g, w1)
         | Lost_reply g \<Rightarrow> (glitch_reply g, w1\<lparr>w_db := db'\<rparr>)
         | Late g \<Rightarrow> (glitch_reply g, w1\<lparr>w_flight := w_flight w1 @ [(run_id, cmd)]\<rparr>))"

definition send_get :: "(json \<Rightarrow> string) \<Rightarrow> (ambient \<Rightarrow> database \<Rightarrow> reply) \<Rightarrow> world \<Rightarrow> reply \<times> world" where
  "send_get D answer w =
     (let w1 = next_world D w in
      case cn_delivery (current w) of
        Deliver \<Rightarrow> (answer (cn_amb (current w)) (w_db w1), w1)
      | Lost_request g \<Rightarrow> (glitch_reply g, w1)
      | Lost_reply g \<Rightarrow> (glitch_reply g, w1)
      | Late g \<Rightarrow> (glitch_reply g, w1))"

text \<open>Nothing is in flight and no request will be: what is not served at once is never served.\<close>

definition punctual :: "world \<Rightarrow> bool" where
  "punctual w \<longleftrightarrow> w_flight w = [] \<and> (\<forall>n g. cn_delivery (w_conditions w n) \<noteq> Late g)"

section \<open>Clients\<close>

text \<open>A client's step talks to the world and returns a value, or an exception escapes from it.\<close>

type_synonym 'a client = "world \<Rightarrow> 'a option \<times> world"

definition give :: "'a \<Rightarrow> 'a client" where
  "give x w = (Some x, w)"

definition raise_exn :: "'a client" where
  "raise_exn w = (None, w)"

definition chain :: "'a client \<Rightarrow> ('a \<Rightarrow> 'b client) \<Rightarrow> 'b client" where
  "chain m f w = (case m w of (None, w') \<Rightarrow> (None, w') | (Some x, w') \<Rightarrow> f x w')"

definition lift_reply :: "(world \<Rightarrow> reply \<times> world) \<Rightarrow> (reply \<Rightarrow> 'a) \<Rightarrow> 'a client" where
  "lift_reply send f w = (let (r, w') = send w in (Some (f r), w'))"

lemma give_simp [simp]: "give x w = (y, w') \<longleftrightarrow> y = Some x \<and> w' = w"
  by (auto simp: give_def)

lemma raise_exn_simp [simp]: "raise_exn w = (y, w') \<longleftrightarrow> y = None \<and> w' = w"
  by (auto simp: raise_exn_def)

lemma chain_Some:
  "chain m f w = (Some y, w') \<longleftrightarrow> (\<exists>x w1. m w = (Some x, w1) \<and> f x w1 = (Some y, w'))"
  by (auto simp: chain_def split: prod.splits option.splits)

lemma chain_cases:
  assumes "chain m f w = (y, w')"
  obtains (escapes) "m w = (None, w')" "y = None"
  | (goes_on) x w1 where "m w = (Some x, w1)" "f x w1 = (y, w')"
  using assms by (auto simp: chain_def split: prod.splits option.splits)

lemma lift_reply_simp:
  "lift_reply send f w = (y, w') \<longleftrightarrow> (\<exists>r. send w = (r, w') \<and> y = Some (f r))"
  by (auto simp: lift_reply_def Let_def split: prod.splits)

section \<open>Facts about exchanges\<close>

lemma arrivals_none [simp]: "w_flight w = [] \<Longrightarrow> arrivals D w = w_db w"
  by (simp add: arrivals_def)

lemma next_world_punctual:
  assumes "punctual w"
  shows "w_db (next_world D w) = w_db w" and "punctual (next_world D w)"
  using assms by (simp_all add: punctual_def next_world_def)

lemma send_get_punctual:
  assumes "send_get D answer w = (r, w')" and "punctual w"
  shows "w_db w' = w_db w \<and> punctual w'
    \<and> (r = answer (cn_amb (current w)) (w_db w) \<or> (\<exists>g. r = glitch_reply g))"
  using assms next_world_punctual [OF assms(2), of D]
  by (auto simp: send_get_def Let_def split: delivery.splits)

text \<open>A post on a punctual network is served once or not at all.\<close>

lemma send_post_punctual:
  assumes "send_post D i cmd w = (r, w')" and "punctual w"
  obtains (delivered) amb where "(r, w_db w') = execute_action D amb i cmd (w_db w)" "punctual w'"
  | (unanswered) amb g where "w_db w' = snd (execute_action D amb i cmd (w_db w))" "r = glitch_reply g" "punctual w'"
  | (dropped) g where "w_db w' = w_db w" "r = glitch_reply g" "punctual w'"
proof -
  let ?w1 = "next_world D w"
  have w1: "w_db ?w1 = w_db w" "punctual ?w1" using next_world_punctual [OF assms(2)] by simp_all
  have upd: "punctual (?w1\<lparr>w_db := x\<rparr>)" for x using w1(2) by (simp add: punctual_def)
  have "cn_delivery (current w) \<noteq> Late g" for g using assms(2) by (simp add: punctual_def current_def)
  moreover obtain a db where x: "execute_action D (cn_amb (current w)) i cmd (w_db w) = (a, db)" by force
  ultimately show ?thesis
    using assms(1) w1 upd delivered [of "cn_amb (current w)"] unanswered [of "cn_amb (current w)"] dropped
    by (cases "cn_delivery (current w)") (auto simp: send_post_def Let_def)
qed

end
