(* ===== verification/Sim_Action.thy ===== *)
theory Sim_Action
  imports Sandbox_State "HOL-Library.AList"
begin

text \<open>
  The action value the simulator, the refund agent and the runner share
  (\<^verbatim>\<open>packages/reference_simulator/models.py\<close>, \<^verbatim>\<open>SimAction\<close>), with the HTTP
  payload it is sent as, and Python's \<^verbatim>\<open>dict(pairs)\<close>.
\<close>

section \<open>Dictionaries from pairs\<close>

text \<open>A later pair replaces the value of an earlier one and keeps its place.\<close>

definition py_dict :: "('k \<times> 'v) list \<Rightarrow> ('k \<times> 'v) list" where
  "py_dict ps = foldl (\<lambda>d (k, v). AList.update k v d) [] ps"

lemma map_of_py_dict_aux:
  "map_of (foldl (\<lambda>d (k, v). AList.update k v d) d ps) = map_of d ++ map_of (rev ps)"
proof (induction ps arbitrary: d)
  case Nil
  then show ?case by simp
next
  case (Cons p ps)
  obtain k v where p: "p = (k, v)" by force
  show ?case by (simp add: p Cons update_conv' map_add_upd_left fun_eq_iff map_add_def split: option.splits)
qed

lemma map_of_py_dict: "map_of (py_dict ps) k = map_of (rev ps) k"
  by (simp add: py_dict_def map_of_py_dict_aux)

lemma py_dict_single [simp]: "py_dict [(k, v)] = [(k, v)]" "py_dict [] = []"
  by (simp_all add: py_dict_def)

lemma map_of_py_dict_distinct: "distinct (map fst ps) \<Longrightarrow> map_of (py_dict ps) k = map_of ps k"
  using map_of_inject_set [of "rev ps" ps] by (simp add: map_of_py_dict rev_map [symmetric])

section \<open>Actions\<close>

record sim_action =
  sa_action :: action_type
  sa_actor :: string
  sa_target :: "string option"
  sa_arguments :: "(string \<times> json) list"
  sa_key :: "string option"

text \<open>\<^verbatim>\<open>SimAction.build\<close>, for arguments named by distinct keywords: they are kept sorted.\<close>

definition build_action ::
  "action_type \<Rightarrow> string option \<Rightarrow> string option \<Rightarrow> (string \<times> json) list \<Rightarrow> sim_action" where
  "build_action act target key args =
     \<lparr>sa_action = act, sa_actor = ''user-1'', sa_target = target, sa_arguments = sort_key fst args, sa_key = key\<rparr>"

definition argument :: "sim_action \<Rightarrow> string \<Rightarrow> json" where
  "argument a name = jget name (JObj (py_dict (sa_arguments a)))"

text \<open>The payload, as the service reads it back into its command.\<close>

definition to_command :: "sim_action \<Rightarrow> command" where
  "to_command a = \<lparr>cmd_action = sa_action a, cmd_actor = sa_actor a, cmd_target = sa_target a,
     cmd_arguments = py_dict (sa_arguments a), cmd_key = sa_key a\<rparr>"

lemma argument_arg: "argument a name = arg (to_command a) name"
  by (simp add: argument_def arg_def to_command_def)

end
