(* ===== verification/Gate.thy ===== *)
theory Gate
  imports Sandbox_Http Sim_Action
begin

text \<open>
  The runtime gate (\<^verbatim>\<open>packages/runtime_gate/gate.py\<close>): three checks over the sandbox's
  own snapshot and receipts. A decision keeps its verdict, its reason and the cached receipt; the
  free-form detail is left out. An exception that escapes a check (\<^verbatim>\<open>quantize\<close> beyond 28
  digits, an unhashable status) is a client step without a value.
\<close>

section \<open>Decisions\<close>

datatype gate_verdict = Allow | Block | Undecided

datatype gate_reason =
    NOT_A_REFUND_WRITE | WITHIN_REFUND_BUDGET | REFUND_BUDGET_EXCEEDED | ORDER_NOT_REFUNDABLE
  | NO_SUCH_ORDER | REFUND_AMOUNT_UNREADABLE | SNAPSHOT_UNAVAILABLE | SNAPSHOT_UNREADABLE
  | CACHED_RECEIPT | RETRY_SAFE | RECEIPT_LOOKUP_FAILED | EFFECT_OBSERVED | EFFECT_NOT_OBSERVED
  | STALE_VIEW

record gate_decision =
  gd_decision :: gate_verdict
  gd_reason :: gate_reason
  gd_cached :: "json option"

fun verdict_name :: "gate_verdict \<Rightarrow> string" where
  "verdict_name Allow = ''ALLOW''"
| "verdict_name Block = ''BLOCK''"
| "verdict_name Undecided = ''UNKNOWN''"

fun reason_name :: "gate_reason \<Rightarrow> string" where
  "reason_name NOT_A_REFUND_WRITE = ''NOT_A_REFUND_WRITE''"
| "reason_name WITHIN_REFUND_BUDGET = ''WITHIN_REFUND_BUDGET''"
| "reason_name REFUND_BUDGET_EXCEEDED = ''REFUND_BUDGET_EXCEEDED''"
| "reason_name ORDER_NOT_REFUNDABLE = ''ORDER_NOT_REFUNDABLE''"
| "reason_name NO_SUCH_ORDER = ''ORDER_NOT_FOUND''"
| "reason_name REFUND_AMOUNT_UNREADABLE = ''REFUND_AMOUNT_UNREADABLE''"
| "reason_name SNAPSHOT_UNAVAILABLE = ''SNAPSHOT_UNAVAILABLE''"
| "reason_name SNAPSHOT_UNREADABLE = ''SNAPSHOT_UNREADABLE''"
| "reason_name CACHED_RECEIPT = ''CACHED_RECEIPT''"
| "reason_name RETRY_SAFE = ''RETRY_SAFE''"
| "reason_name RECEIPT_LOOKUP_FAILED = ''RECEIPT_LOOKUP_FAILED''"
| "reason_name EFFECT_OBSERVED = ''EFFECT_OBSERVED''"
| "reason_name EFFECT_NOT_OBSERVED = ''EFFECT_NOT_OBSERVED''"
| "reason_name STALE_VIEW = ''STALE_VIEW''"

definition decided :: "gate_verdict \<Rightarrow> gate_reason \<Rightarrow> gate_decision" where
  "decided v r = \<lparr>gd_decision = v, gd_reason = r, gd_cached = None\<rparr>"

section \<open>Reading values\<close>

text \<open>
  \<^verbatim>\<open>_money\<close>: the outer option is missing when \<^verbatim>\<open>quantize\<close> raises, which happens
  outside the guarded parse; the inner one when the amount is refused.
\<close>

definition gate_money :: "json \<Rightarrow> rat option option" where
  "gate_money value =
     (let raw = (if is_obj value then jget ''amount'' value else value) in
      case raw_decimal raw of
        Some (DFin x) \<Rightarrow>
          map_option (\<lambda>q. if 0 < q then Some q else None) (quantize_checked x)
      | _ \<Rightarrow> Some None)"

definition gate_decimal :: "json \<Rightarrow> rat option" where
  "gate_decimal value = (case raw_decimal value of Some (DFin x) \<Rightarrow> Some x | _ \<Rightarrow> None)"

text \<open>\<^verbatim>\<open>_orders\<close>: the orders keyed by id; entries without a text id are skipped.\<close>

definition keyed_orders :: "json list \<Rightarrow> (string \<times> json) list" where
  "keyed_orders items =
     py_dict (concat (map (\<lambda>d. case jget ''id'' d of JStr i \<Rightarrow> [(i, d)] | _ \<Rightarrow> []) items))"

definition snapshot_orders :: "json \<Rightarrow> (string \<times> json) list option" where
  "snapshot_orders snap = (let state = jget ''state'' snap in
     if \<not> is_obj state then None
     else case jget ''orders'' state of
       JList items \<Rightarrow> (if list_all is_obj items then Some (keyed_orders items) else None)
     | _ \<Rightarrow> None)"

definition snapshot_hash :: "json \<Rightarrow> string option" where
  "snapshot_hash snap = (case jget ''state_hash'' snap of
       JStr s \<Rightarrow> if s = [] then None else Some s
     | _ \<Rightarrow> None)"

section \<open>Checks\<close>

text \<open>\<^verbatim>\<open>_snapshot\<close>: anything but a 200 with an object counts as no snapshot.\<close>

fun read_snapshot :: "reply \<Rightarrow> json option" where
  "read_snapshot (Reply n body) = (if n = 200 \<and> is_obj body then Some body else None)"
| "read_snapshot _ = None"

definition gate_snapshot :: "(json \<Rightarrow> string) \<Rightarrow> string \<Rightarrow> json option client" where
  "gate_snapshot D run_id = lift_reply (send_get D (http_snapshot D run_id)) read_snapshot"

text \<open>
  Membership in the set of refundable states raises \<^verbatim>\<open>TypeError\<close> for a list or an object;
  the outer option is missing then.
\<close>

definition hashable :: "json \<Rightarrow> bool" where
  "hashable v = (case v of JList _ \<Rightarrow> False | JObj _ \<Rightarrow> False | _ \<Rightarrow> True)"

definition refundable_states :: "json set" where
  "refundable_states = {JStr ''PAID'', JStr ''PARTIALLY_REFUNDED''}"

definition budget_decision :: "json \<Rightarrow> string \<Rightarrow> rat \<Rightarrow> gate_decision option" where
  "budget_decision snap order_id amount = (case snapshot_orders snap of
       None \<Rightarrow> Some (decided Undecided SNAPSHOT_UNREADABLE)
     | Some orders \<Rightarrow> (case map_of orders order_id of
           None \<Rightarrow> Some (decided Block NO_SUCH_ORDER)
         | Some order \<Rightarrow>
             let status = jget ''status'' order in
             if \<not> hashable status then None
             else if status \<notin> refundable_states then Some (decided Block ORDER_NOT_REFUNDABLE)
             else (case (gate_decimal (jget ''paid_amount'' order), gate_decimal (jget ''refunded_amount'' order)) of
                 (Some paid, Some refunded) \<Rightarrow>
                   if paid < refunded + amount then Some (decided Block REFUND_BUDGET_EXCEEDED)
                   else Some (decided Allow WITHIN_REFUND_BUDGET)
               | _ \<Rightarrow> Some (decided Undecided SNAPSHOT_UNREADABLE))))"

definition or_raise :: "'a option \<Rightarrow> 'a client" where
  "or_raise x = (case x of None \<Rightarrow> raise_exn | Some v \<Rightarrow> give v)"

definition pre_check :: "(json \<Rightarrow> string) \<Rightarrow> string \<Rightarrow> sim_action \<Rightarrow> gate_decision client" where
  "pre_check D run_id action =
     (if sa_action action \<noteq> REFUND_ORDER then give (decided Allow NOT_A_REFUND_WRITE)
      else chain (or_raise (gate_money (argument action ''amount''))) (\<lambda>amount.
        case (amount, sa_target action) of
          (Some a, Some order_id) \<Rightarrow>
            chain (gate_snapshot D run_id) (\<lambda>snap. case snap of
              None \<Rightarrow> give (decided Undecided SNAPSHOT_UNAVAILABLE)
            | Some s \<Rightarrow> or_raise (budget_decision s order_id a))
        | _ \<Rightarrow> give (decided Undecided REFUND_AMOUNT_UNREADABLE)))"

fun receipt_decision :: "reply \<Rightarrow> gate_decision" where
  "receipt_decision (Reply n body) =
     (if n = 404 then decided Allow RETRY_SAFE
      else if n = 200 \<and> is_obj body
        then \<lparr>gd_decision = Allow, gd_reason = CACHED_RECEIPT, gd_cached = Some body\<rparr>
      else decided Undecided RECEIPT_LOOKUP_FAILED)"
| "receipt_decision (Garbled n) =
     (if n = 404 then decided Allow RETRY_SAFE else decided Undecided RECEIPT_LOOKUP_FAILED)"
| "receipt_decision _ = decided Undecided RECEIPT_LOOKUP_FAILED"

definition retry_check :: "(json \<Rightarrow> string) \<Rightarrow> string \<Rightarrow> string \<Rightarrow> gate_decision client" where
  "retry_check D run_id key = lift_reply (send_get D (http_receipt run_id key)) receipt_decision"

definition effect_decision :: "json \<Rightarrow> json \<Rightarrow> json \<Rightarrow> gate_decision" where
  "effect_decision authoritative before after =
     (case (snapshot_hash authoritative, snapshot_hash after, snapshot_hash before) of
        (Some h, Some ha, Some hb) \<Rightarrow>
          if h \<noteq> ha then decided Undecided STALE_VIEW
          else if h = hb then decided Block EFFECT_NOT_OBSERVED
          else decided Allow EFFECT_OBSERVED
      | _ \<Rightarrow> decided Undecided SNAPSHOT_UNREADABLE)"

definition post_check :: "(json \<Rightarrow> string) \<Rightarrow> string \<Rightarrow> json \<Rightarrow> json \<Rightarrow> gate_decision client" where
  "post_check D run_id before after =
     chain (gate_snapshot D run_id) (\<lambda>snap. case snap of
       None \<Rightarrow> give (decided Undecided SNAPSHOT_UNAVAILABLE)
     | Some s \<Rightarrow> give (effect_decision s before after))"

section \<open>The snapshot as the gate reads it\<close>

lemma gate_money_money_of:
  assumes "gate_money v = Some (Some q)" and "money_of v = Inr (a, c)"
  shows "q = a"
  using assms
  by (auto simp: gate_money_def money_of_def raw_amount_def Let_def
      split: json.splits option.splits pydec.splits if_splits)

lemma gate_money_positive: "gate_money v = Some (Some q) \<Longrightarrow> 0 < q \<and> is_cents q"
  by (auto simp: gate_money_def Let_def quantize_checked_def split: option.splits pydec.splits if_splits)

lemma gate_decimal_amount: "is_cents x \<Longrightarrow> gate_decimal (JStr (amount_text x)) = Some x"
  by (simp add: gate_decimal_def parse_amount_text)

lemma order_json_fields:
  "jget ''id'' (order_json d) = JStr (od_id d)"
  "jget ''status'' (order_json d) = JStr (order_status_name (od_status d))"
  "jget ''paid_amount'' (order_json d) = JStr (amount_text (od_paid d))"
  "jget ''refunded_amount'' (order_json d) = JStr (amount_text (od_refunded d))"
  "is_obj (order_json d)"
  by (simp_all add: order_json_def)

lemma snapshot_fields:
  "is_obj (snapshot D amb run)" "jget ''state'' (snapshot D amb run) = state_json run"
  "jget ''state_hash'' (snapshot D amb run) = JStr (D (state_json run))"
  by (simp_all add: snapshot_def Let_def)

lemma keyed_orders_lookup:
  assumes "distinct (map od_id ds)"
  shows "map_of (keyed_orders (map order_json ds)) i = map_option order_json (find_row od_id i ds)"
proof -
  have "concat (map (\<lambda>d. case jget ''id'' d of JStr i \<Rightarrow> [(i, d)] | _ \<Rightarrow> []) (map order_json ds))
      = map (\<lambda>d. (od_id d, order_json d)) ds"
    by (induction ds) (simp_all add: order_json_fields)
  moreover have "map_of (map (\<lambda>d. (od_id d, order_json d)) ds) i = map_option order_json (find_row od_id i ds)"
    by (induction ds) (simp_all add: find_row_def)
  moreover have "distinct (map fst (map (\<lambda>d. (od_id d, order_json d)) ds))"
    using assms by (simp add: comp_def)
  ultimately show ?thesis by (simp only: keyed_orders_def map_of_py_dict_distinct)
qed

lemma find_row_sorted:
  assumes "distinct (map k rows)"
  shows "find_row k i (sort_key k rows) = find_row k i rows"
proof (cases "find_row k i rows")
  case None
  then have "find_row k i (sort_key k rows) = None" by (simp add: find_row_None)
  with None show ?thesis by simp
next
  case (Some r)
  then have "k r = i" "r \<in> set rows" by (auto dest: find_row_SomeD)
  moreover have "distinct (map k (sort_key k rows))"
    using assms by (simp add: distinct_map)
  ultimately show ?thesis using Some find_row_distinct [of k "sort_key k rows" r] by auto
qed

lemma snapshot_orders_lookup:
  assumes "distinct (map od_id (rs_orders run))"
  shows "\<exists>orders. snapshot_orders (snapshot D amb run) = Some orders
    \<and> (\<forall>i. map_of orders i = map_option order_json (find_row od_id i (rs_orders run)))"
proof -
  let ?ds = "sort_key od_id (rs_orders run)"
  have "distinct (map od_id ?ds)" using assms by (simp add: distinct_map)
  then show ?thesis
    using assms find_row_sorted [of od_id "rs_orders run"] keyed_orders_lookup [of ?ds]
    by (simp add: snapshot_orders_def snapshot_fields state_json_def list_all_iff order_json_fields)
qed

end
