(* ===== verification/Gateway.thy ===== *)
theory Gateway
  imports Gate
begin

text \<open>
  The refund agent's only outbound channel (\<^verbatim>\<open>packages/refund_agent/gateway.py\<close>): one
  HTTP gateway bound to a run and an optional guard behind it. The guard is a record of three
  client steps; what a gateway may rely on is the locale \<open>write_guard\<close>, and the
  runtime gate is its interpretation. Elapsed times and error messages are left out.
\<close>

section \<open>Results and verdicts\<close>

datatype tool_outcome = Tool_Succeeded | Tool_Failed | Tool_Timeout | Tool_Refused | Tool_Unknown

record tool_result =
  tr_outcome :: tool_outcome
  tr_action :: action_type
  tr_key :: "string option"
  tr_receipt :: "json option"
  tr_error :: "string option"

definition succeeded :: "tool_result \<Rightarrow> bool" where
  "succeeded r \<longleftrightarrow> tr_outcome r = Tool_Succeeded"

definition retryable :: "tool_result \<Rightarrow> bool" where
  "retryable r \<longleftrightarrow> tr_outcome r \<in> {Tool_Failed, Tool_Timeout}"

text \<open>What a guard returned, seen through \<^verbatim>\<open>getattr\<close>, and the gateway's reading of it.\<close>

record answer =
  an_decision :: "string option"
  an_reason :: "string option"
  an_cached :: json

record guard_verdict =
  vd_decision :: string
  vd_reason :: string
  vd_cached :: "json option"

record guard =
  g_pre :: "sim_action \<Rightarrow> answer client"
  g_retry :: "string \<Rightarrow> answer client"
  g_post :: "json \<Rightarrow> json \<Rightarrow> answer client"

record trace =
  tc_decision :: "string option"
  tc_reason :: "string option"
  tc_checks :: nat

record tool_call =
  tl_action :: action_type
  tl_target :: "string option"
  tl_arguments :: "(string \<times> json) list"
  tl_key :: "string option"
  tl_outcome :: tool_outcome
  tl_decision :: "string option"
  tl_reason :: "string option"
  tl_checks :: nat

definition upper_char :: "char \<Rightarrow> char" where
  "upper_char c = (let n = (of_char c :: nat) in if 97 \<le> n \<and> n \<le> 122 then char_of (n - 32) else c)"

definition read_verdict :: "answer \<Rightarrow> guard_verdict option" where
  "read_verdict a = (case (an_decision a, an_reason a) of
       (Some d, Some r) \<Rightarrow> Some \<lparr>vd_decision = map upper_char d, vd_reason = r,
         vd_cached = (if is_obj (an_cached a) then Some (an_cached a) else None)\<rparr>
     | _ \<Rightarrow> None)"

section \<open>Reading replies\<close>

definition error_from :: "json \<Rightarrow> string option" where
  "error_from payload = (if \<not> is_obj payload then None
     else let detail = jget_default ''detail'' payload payload in
       case jget ''code'' detail of JStr c \<Rightarrow> Some c | _ \<Rightarrow> None)"

definition tool_result_of :: "sim_action \<Rightarrow> tool_outcome \<Rightarrow> string \<Rightarrow> tool_result" where
  "tool_result_of a outcome err =
     \<lparr>tr_outcome = outcome, tr_action = sa_action a, tr_key = sa_key a, tr_receipt = None, tr_error = Some err\<rparr>"

definition from_receipt :: "json \<Rightarrow> sim_action \<Rightarrow> tool_result" where
  "from_receipt receipt a =
     (let status = jget ''status'' receipt;
          code = jget ''code'' (jget ''error'' receipt);
          outcome = (if status = JStr ''SUCCEEDED'' then Tool_Succeeded
            else if status = JStr ''REJECTED'' then Tool_Failed else Tool_Unknown)
      in \<lparr>tr_outcome = outcome, tr_action = sa_action a, tr_key = sa_key a,
           tr_receipt = (if outcome = Tool_Succeeded then Some receipt else None),
           tr_error = (if py_truthy code then Some (py_str code)
             else if outcome = Tool_Succeeded then None else Some (py_str status))\<rparr>)"

definition by_status :: "nat \<Rightarrow> string option \<Rightarrow> sim_action \<Rightarrow> tool_result" where
  "by_status n code a =
     (let err = (case code of Some c \<Rightarrow> (if c = [] then string_of_nat n else c) | None \<Rightarrow> string_of_nat n)
      in tool_result_of a
        (if n \<in> {502, 503, 504} then Tool_Timeout else if 500 \<le> n then Tool_Unknown else Tool_Failed) err)"

fun interpret_reply :: "reply \<Rightarrow> sim_action \<Rightarrow> tool_result" where
  "interpret_reply (Reply n body) a =
     (if n = 200 then
        (if is_obj body then from_receipt body a else tool_result_of a Tool_Unknown ''UNPARSEABLE_RECEIPT'')
      else by_status n (error_from body) a)"
| "interpret_reply (Garbled n) a =
     (if n = 200 then tool_result_of a Tool_Unknown ''UNPARSEABLE_RECEIPT'' else by_status n None a)"
| "interpret_reply Silent a = tool_result_of a Tool_Timeout ''TIMEOUT''"
| "interpret_reply (Severed e) a = tool_result_of a Tool_Unknown e"

definition send_action :: "(json \<Rightarrow> string) \<Rightarrow> string \<Rightarrow> sim_action \<Rightarrow> tool_result client" where
  "send_action D run_id a = lift_reply (send_post D run_id (to_command a)) (\<lambda>r. interpret_reply r a)"

text \<open>\<^verbatim>\<open>inspect\<close> raises \<^verbatim>\<open>ToolUnavailable\<close>, with the situation it names.\<close>

datatype tool_unavailable = Request_failed | Returned_status nat | Not_json | Not_object

fun read_inspection :: "reply \<Rightarrow> tool_unavailable + json" where
  "read_inspection (Reply n body) =
     (if n \<noteq> 200 then Inl (Returned_status n) else if is_obj body then Inr body else Inl Not_object)"
| "read_inspection (Garbled n) = (if n \<noteq> 200 then Inl (Returned_status n) else Inl Not_json)"
| "read_inspection Silent = Inl Request_failed"
| "read_inspection (Severed e) = Inl Request_failed"

definition inspect_run :: "(json \<Rightarrow> string) \<Rightarrow> string \<Rightarrow> (tool_unavailable + json) client" where
  "inspect_run D run_id = lift_reply (send_get D (http_snapshot D run_id)) read_inspection"

definition snapshot_or_none :: "(json \<Rightarrow> string) \<Rightarrow> string \<Rightarrow> json option client" where
  "snapshot_or_none D run_id =
     chain (inspect_run D run_id) (\<lambda>x. give (case x of Inl _ \<Rightarrow> None | Inr j \<Rightarrow> Some j))"

section \<open>The guarded write\<close>

definition checked :: "trace \<Rightarrow> trace" where
  "checked t = t\<lparr>tc_checks := tc_checks t + 1\<rparr>"

definition noted :: "trace \<Rightarrow> string \<Rightarrow> string \<Rightarrow> trace" where
  "noted t decision reason = t\<lparr>tc_decision := Some decision, tc_reason := Some reason\<rparr>"

definition unknown_result :: "sim_action \<Rightarrow> trace \<Rightarrow> string \<Rightarrow> tool_result \<times> trace" where
  "unknown_result a t reason =
     (tool_result_of a Tool_Unknown ''OUTCOME_UNKNOWN'', noted t ''UNKNOWN'' reason)"

text \<open>\<^verbatim>\<open>_refusal\<close>: no result means allowed to proceed.\<close>

definition refusal :: "guard_verdict option \<Rightarrow> sim_action \<Rightarrow> trace \<Rightarrow> tool_result option \<times> trace" where
  "refusal verdict a t = (case verdict of
       None \<Rightarrow> (let (r, t') = unknown_result a t ''VERDICT_UNREADABLE'' in (Some r, t'))
     | Some v \<Rightarrow>
         let t' = noted t (vd_decision v) (vd_reason v) in
         if vd_decision v = ''ALLOW'' then (None, t')
         else if vd_decision v = ''BLOCK'' then (Some (tool_result_of a Tool_Refused ''CALL_NOT_MADE''), t')
         else (Some (tool_result_of a Tool_Unknown ''OUTCOME_UNKNOWN''), t'))"

definition recover :: "guard \<Rightarrow> sim_action \<Rightarrow> string \<Rightarrow> trace \<Rightarrow> (tool_result option \<times> trace) client" where
  "recover g a key t =
     chain (g_retry g key) (\<lambda>ans. let t1 = checked t in
       case read_verdict ans of
         None \<Rightarrow> (let (r, t') = unknown_result a t1 ''VERDICT_UNREADABLE'' in give (Some r, t'))
       | Some v \<Rightarrow>
           if vd_decision v \<noteq> ''ALLOW''
           then (let (r, t') = unknown_result a t1 (vd_reason v) in give (Some r, t'))
           else let t2 = noted t1 (vd_decision v) (vd_reason v) in
             case vd_cached v of
               None \<Rightarrow> give (None, t2)
             | Some c \<Rightarrow> give (Some (from_receipt c a), t2))"

text \<open>The confirmation of a write that reported success.\<close>

definition confirm ::
  "(json \<Rightarrow> string) \<Rightarrow> string \<Rightarrow> guard \<Rightarrow> sim_action \<Rightarrow> json \<Rightarrow> tool_result \<Rightarrow> trace \<Rightarrow> (tool_result \<times> trace) client" where
  "confirm D run_id g a before result t =
     chain (snapshot_or_none D run_id) (\<lambda>after. let t1 = checked t in
       case after of
         None \<Rightarrow> give (unknown_result a t1 ''SNAPSHOT_UNAVAILABLE'')
       | Some s \<Rightarrow>
           chain (g_post g before s) (\<lambda>ans. let t2 = checked t1 in
             case read_verdict ans of
               None \<Rightarrow> give (unknown_result a t2 ''VERDICT_UNREADABLE'')
             | Some v \<Rightarrow>
                 if vd_decision v \<noteq> ''ALLOW'' then give (unknown_result a t2 (vd_reason v))
                 else give (result, t2)))"

definition write_and_confirm ::
  "(json \<Rightarrow> string) \<Rightarrow> string \<Rightarrow> guard \<Rightarrow> sim_action \<Rightarrow> string \<Rightarrow> json \<Rightarrow> trace \<Rightarrow> (tool_result \<times> trace) client" where
  "write_and_confirm D run_id g a key before t =
     chain (send_action D run_id a) (\<lambda>result.
     chain (if tr_outcome result = Tool_Timeout then recover g a key t else give (None, t)) (\<lambda>(recovered, t1).
       let final = (case recovered of None \<Rightarrow> result | Some r \<Rightarrow> r) in
       if \<not> succeeded final then give (final, t1)
       else confirm D run_id g a before final t1))"

definition guarded_dispatch ::
  "(json \<Rightarrow> string) \<Rightarrow> string \<Rightarrow> guard \<Rightarrow> sim_action \<Rightarrow> string \<Rightarrow> trace \<Rightarrow> (tool_result \<times> trace) client" where
  "guarded_dispatch D run_id g a key t =
     chain (g_retry g key) (\<lambda>ans. let t1 = checked t in
       case read_verdict ans of
         None \<Rightarrow> give (unknown_result a t1 ''VERDICT_UNREADABLE'')
       | Some existing \<Rightarrow>
           let t2 = noted t1 (vd_decision existing) (vd_reason existing) in
           if vd_decision existing \<noteq> ''ALLOW'' then give (unknown_result a t2 (vd_reason existing))
           else case vd_cached existing of
             Some c \<Rightarrow> give (from_receipt c a, t2)
           | None \<Rightarrow>
               chain (g_pre g a) (\<lambda>ans. case refusal (read_verdict ans) a (checked t2) of
                 (Some r, t3) \<Rightarrow> give (r, t3)
               | (None, t3) \<Rightarrow>
                   chain (snapshot_or_none D run_id) (\<lambda>before. case before of
                     None \<Rightarrow> give (unknown_result a (checked t3) ''SNAPSHOT_UNAVAILABLE'')
                   | Some s \<Rightarrow> write_and_confirm D run_id g a key s (checked t3))))"

definition no_trace :: trace where
  "no_trace = \<lparr>tc_decision = None, tc_reason = None, tc_checks = 0\<rparr>"

definition gateway_dispatch ::
  "(json \<Rightarrow> string) \<Rightarrow> string \<Rightarrow> guard option \<Rightarrow> sim_action \<Rightarrow> (tool_result \<times> trace) client" where
  "gateway_dispatch D run_id guard a =
     (case (guard, sa_action a \<noteq> INSPECT_STATE, sa_key a) of
        (Some g, True, Some key) \<Rightarrow> guarded_dispatch D run_id g a key no_trace
      | _ \<Rightarrow> chain (send_action D run_id a) (\<lambda>r. give (r, no_trace)))"

definition keyless :: "sim_action \<Rightarrow> bool" where
  "keyless a \<longleftrightarrow> sa_action a \<noteq> INSPECT_STATE \<and> (sa_key a = None \<or> sa_key a = Some [])"

definition gateway_call ::
  "(json \<Rightarrow> string) \<Rightarrow> string \<Rightarrow> guard option \<Rightarrow> sim_action \<Rightarrow> (tool_result \<times> tool_call) client" where
  "gateway_call D run_id guard a =
     (if keyless a then raise_exn
      else chain (gateway_dispatch D run_id guard a) (\<lambda>(result, t). give (result,
        \<lparr>tl_action = sa_action a, tl_target = sa_target a, tl_arguments = py_dict (sa_arguments a),
         tl_key = sa_key a, tl_outcome = tr_outcome result, tl_decision = tc_decision t,
         tl_reason = tc_reason t, tl_checks = tc_checks t\<rparr>)))"

section \<open>The runtime gate as a guard\<close>

definition gate_answer :: "gate_decision \<Rightarrow> answer" where
  "gate_answer d = \<lparr>an_decision = Some (verdict_name (gd_decision d)), an_reason = Some (reason_name (gd_reason d)),
     an_cached = (case gd_cached d of None \<Rightarrow> JNull | Some c \<Rightarrow> c)\<rparr>"

definition answering :: "gate_decision client \<Rightarrow> answer client" where
  "answering m = chain m (\<lambda>d. give (gate_answer d))"

definition gate_guard :: "(json \<Rightarrow> string) \<Rightarrow> string \<Rightarrow> guard" where
  "gate_guard D run_id = \<lparr>g_pre = (\<lambda>a. answering (pre_check D run_id a)),
     g_retry = (\<lambda>key. answering (retry_check D run_id key)),
     g_post = (\<lambda>before after. answering (post_check D run_id before after))\<rparr>"

lemma gate_verdict_read:
  "read_verdict (gate_answer d) = Some \<lparr>vd_decision = verdict_name (gd_decision d),
     vd_reason = reason_name (gd_reason d),
     vd_cached = (case gd_cached d of None \<Rightarrow> None | Some c \<Rightarrow> if is_obj c then Some c else None)\<rparr>"
proof -
  have "map upper_char (verdict_name v) = verdict_name v" for v
    by (cases v) (simp_all add: upper_char_def)
  then show ?thesis by (auto simp: read_verdict_def gate_answer_def split: option.splits)
qed

lemma verdict_allow: "verdict_name v = ''ALLOW'' \<longleftrightarrow> v = Allow"
  by (cases v) simp_all

end
