(* ===== verification/Guarded_Writes.thy ===== *)
theory Guarded_Writes
  imports Gateway
begin

text \<open>
  What a guard must promise for a guarded refund to be safe, stated as the locale
  \<open>write_guard\<close>; what a gateway that holds such a guard then guarantees about the refund
  rows and budgets of the run; and the runtime gate's interpretation of the locale.
\<close>

section \<open>Serving one refund\<close>

definition over_refunded :: "run_space \<Rightarrow> string set" where
  "over_refunded run = {i. \<exists>d. find_row od_id i (rs_orders run) = Some d \<and> od_paid d < od_refunded d}"

definition within_budget :: "run_space \<Rightarrow> sim_action \<Rightarrow> bool" where
  "within_budget run a \<longleftrightarrow> (\<exists>i d q. sa_target a = Some i \<and> find_row od_id i (rs_orders run) = Some d
     \<and> gate_money (argument a ''amount'') = Some (Some q) \<and> od_refunded d + q \<le> od_paid d)"

lemma sub_orders:
  "refund_coupon amb key d x = Inr y \<Longrightarrow> rs_orders y = rs_orders x"
  "refund_points amb key a u d x = Inr y \<Longrightarrow> rs_orders y = rs_orders x"
  by (auto simp: refund_coupon_def refund_points_def revoke_points_def result_simps Let_def put_defs
      split: option.splits if_splits)

lemma refund_order_writes:
  assumes "refund_order amb cmd key run = Inr (out, run')"
  shows "\<exists>i d a c st v. require_target cmd = Inr i \<and> fetch_order run i = Inr d
    \<and> money_of (arg cmd ''amount'') = Inr (a, c)
    \<and> rs_orders run' = put_row od_id
       (d\<lparr>od_refunded := quantize (od_refunded d + a), od_status := st, od_version := v\<rparr>) (rs_orders run)"
  using assms
  by - (simp add: refund_order_def result_simps Let_def split_beta split del: if_split, elim exE conjE,
      drule sub_orders, drule sub_orders, intro exI conjI, assumption, assumption, assumption,
      simp add: put_defs)

text \<open>Serving a refund command adds its one refund row together with a successful receipt, or no row.\<close>

lemma serve_refund:
  fixes D amb run
  assumes cmd: "cmd_action cmd = REFUND_ORDER" "cmd_key cmd = Some k" "k \<noteq> []"
  defines "run' \<equiv> serve D run (Act amb cmd)"
  shows "rs_refunds run' = rs_refunds run \<and> rs_orders run' = rs_orders run
    \<or> (\<exists>f r out. rs_refunds run' = rs_refunds run @ [f] \<and> rf_key f = k
        \<and> rs_receipts run' = rs_receipts run @ [r] \<and> rc_key r = k \<and> rc_status r = SUCCEEDED
        \<and> rc_epoch r = rs_epoch run \<and> rs_epoch run' = rs_epoch run
        \<and> transact D amb cmd run = Some (r, run')
        \<and> (\<exists>run1. refund_order amb cmd k run = Inr (out, run1) \<and> rs_orders run' = rs_orders run1))"
proof -
  have key: "\<not> key_missing cmd" "effective_key amb cmd = k" using cmd by (simp_all add: key_missing_def effective_key_def)
  show ?thesis
  proof (cases "transact D amb cmd run")
    case None
    then show ?thesis by (simp add: run'_def serve_def)
  next
    case (Some rr)
    obtain r run2 where rr: "rr = (r, run2)" by force
    have run2: "run' = run2" using Some rr key by (simp add: run'_def serve_def)
    from Some [unfolded rr] show ?thesis
    proof (cases rule: transact_cases)
      case replay
      then show ?thesis by (simp add: run2)
    next
      case (committed result effects run1)
      have h: "handler D REFUND_ORDER amb cmd k run = Inr ((result, effects), run1)"
        using committed(2) key(2) cmd(1) dispatch_handler by fastforce
      have logs: "logs run run1" using committed(2) by (rule dispatch_logs)
      obtain f where "rs_refunds run1 = rs_refunds run @ [f]" "rf_key f = k" using handler_refunds(2) [OF h] by auto
      then show ?thesis
        using committed(3,4) logs key h Some rr by (auto simp: run2 cmd add_receipt_def logs_def make_receipt_def)
    next
      case (rejected code)
      then show ?thesis by (simp add: run2 add_receipt_def)
    qed
  qed
qed

lemma over_refunded_cong: "rs_orders run' = rs_orders run \<Longrightarrow> over_refunded run' = over_refunded run"
  by (simp add: over_refunded_def)

lemma serve_refund_within:
  assumes ok: "run_ok run" and a: "sa_action a = REFUND_ORDER" "sa_key a = Some k" "k \<noteq> []"
    and within: "within_budget run a"
  shows "over_refunded (serve D run (Act amb (to_command a))) \<subseteq> over_refunded run"
proof -
  let ?run' = "serve D run (Act amb (to_command a))"
  have cmd: "cmd_action (to_command a) = REFUND_ORDER" "cmd_key (to_command a) = Some k"
    using a by (simp_all add: to_command_def)
  show ?thesis
    using serve_refund [OF cmd a(3), of D run amb]
  proof (elim disjE exE conjE)
    assume "rs_orders ?run' = rs_orders run"
    then show ?thesis by (rule over_refunded_cong [THEN equalityD1])
  next
    fix out run1
    assume r: "refund_order amb (to_command a) k run = Inr (out, run1)" and eq: "rs_orders ?run' = rs_orders run1"
    obtain i d q where w: "sa_target a = Some i" "find_row od_id i (rs_orders run) = Some d"
      "gate_money (argument a ''amount'') = Some (Some q)" "od_refunded d + q \<le> od_paid d"
      using within by (auto simp: within_budget_def)
    obtain i' d' a' c st v where x: "require_target (to_command a) = Inr i'" "fetch_order run i' = Inr d'"
      "money_of (arg (to_command a) ''amount'') = Inr (a', c)"
      "rs_orders run1 = put_row od_id
         (d'\<lparr>od_refunded := quantize (od_refunded d' + a'), od_status := st, od_version := v\<rparr>) (rs_orders run)"
      using refund_order_writes [OF r] by blast
    have i: "i' = i"
      using x(1) w(1) by (simp add: to_command_def require_target_def split: if_splits)
    then have d: "d' = d" using x(2) w(2) by (simp add: fetch_order_def)
    note id = i d
    have q: "a' = q" using gate_money_money_of [OF w(3) x(3) [folded argument_arg]] by simp
    have d: "d \<in> set (rs_orders run)" "od_id d = i" using find_row_SomeD [OF w(2)] by auto
    then have "order_ok run d" using ok wf_rowsD(3) by (auto simp: run_ok_def wf_books_def)
    then have "is_cents (od_refunded d + q)"
      using gate_money_positive [OF w(3)] by (auto simp: order_ok_def)
    then have "\<not> od_paid d < quantize (od_refunded d + q)" using w(4) by simp
    then have "find_row od_id j (rs_orders ?run') = Some e \<Longrightarrow> od_paid e < od_refunded e \<Longrightarrow>
        find_row od_id j (rs_orders run) = Some e" for j e
      unfolding eq x(4) id q using w(2) d(2) by (cases "j = i") (auto simp: find_row_put)
    then show ?thesis by (auto simp: over_refunded_def)
  qed
qed

section \<open>Sending one refund\<close>

definition recorded :: "run_space \<Rightarrow> string \<Rightarrow> bool" where
  "recorded run k \<longleftrightarrow> (\<exists>r \<in> set (rs_receipts run). rc_key r = k \<and> rc_status r = SUCCEEDED \<and> rc_epoch r = rs_epoch run)"

lemma from_receipt_outcome:
  "tr_outcome (from_receipt (receipt_json i r) a) = (case rc_status r of
     SUCCEEDED \<Rightarrow> Tool_Succeeded | REJECTED \<Rightarrow> Tool_Failed | UNKNOWN_STATUS \<Rightarrow> Tool_Unknown)"
  by (cases "rc_status r") (simp_all add: from_receipt_def receipt_json_def Let_def)

lemma receipt_json_obj [simp]: "is_obj (receipt_json i r)"
  by (simp add: receipt_json_def)

lemma by_status_outcome:
  "tr_outcome (by_status n code a) =
     (if n \<in> {502, 503, 504} then Tool_Timeout else if 500 \<le> n then Tool_Unknown else Tool_Failed)"
  by (simp add: by_status_def tool_result_of_def Let_def)

lemma glitch_outcome: "tr_outcome (interpret_reply (glitch_reply g) a) \<in> {Tool_Timeout, Tool_Unknown}"
  by (cases g) (simp_all add: by_status_outcome tool_result_of_def)

lemma domain_status_values: "domain_status code \<in> {404, 409, 422}"
  by (simp add: domain_status_def)

lemma domain_outcome: "tr_outcome (interpret_reply (domain_http_error code) a) = Tool_Failed"
  using domain_status_values [of code] by (auto simp: domain_http_error_def by_status_outcome)

text \<open>
  How an exchange leaves the run, with the outcome the client reads: a definite failure means no
  refund was written, and a success that a receipt is recorded.
\<close>

definition sent :: "(json \<Rightarrow> string) \<Rightarrow> sim_action \<Rightarrow> run_space \<Rightarrow> run_space \<Rightarrow> bool" where
  "sent D a run run' \<longleftrightarrow> run' = run \<or> (\<exists>amb. run' = serve D run (Act amb (to_command a)))"

definition honest :: "string \<Rightarrow> run_space \<Rightarrow> run_space \<Rightarrow> tool_outcome \<Rightarrow> bool" where
  "honest k run run' outcome \<longleftrightarrow> (outcome = Tool_Failed \<longrightarrow> rs_refunds run' = rs_refunds run)
     \<and> (outcome = Tool_Succeeded \<longrightarrow> recorded run' k) \<and> outcome \<noteq> Tool_Refused"

lemma transact_recorded:
  assumes "transact D amb cmd run = Some (r, run')" "rc_status r = SUCCEEDED" "run_ok run"
  shows "rc_key r = effective_key amb cmd \<and> r \<in> set (rs_receipts run') \<and> rc_epoch r = rs_epoch run'"
  using assms(1)
proof (cases rule: transact_cases)
  case replay
  then show ?thesis by (auto dest: find_receipt_SomeD)
next
  case (committed result effects run1)
  then show ?thesis
    using dispatch_logs [OF committed(2)] by (auto simp: add_receipt_def make_receipt_def logs_def)
next
  case (rejected code)
  then show ?thesis using assms(2) by (simp add: make_receipt_def)
qed

lemma execute_refund:
  assumes "execute_action D amb i (to_command a) db = (reply, db')" "db i = Some run" "run_ok run"
    and a: "sa_action a = REFUND_ORDER" "sa_key a = Some k" "k \<noteq> []"
  shows "\<exists>run'. db' i = Some run' \<and> sent D a run run' \<and> honest k run run' (tr_outcome (interpret_reply reply a))"
proof -
  let ?cmd = "to_command a"
  have cmd: "cmd_action ?cmd = REFUND_ORDER" "cmd_key ?cmd = Some k" using a by (simp_all add: to_command_def)
  have key: "\<not> key_missing ?cmd" "effective_key amb ?cmd = k"
    using a by (simp_all add: key_missing_def effective_key_def cmd)
  consider (invalid) "\<not> valid_command ?cmd"
    | (crashed) "valid_command ?cmd" "transact D amb ?cmd run = None"
    | (served) r run' where "valid_command ?cmd" "transact D amb ?cmd run = Some (r, run')" by fastforce
  then show ?thesis
  proof cases
    case invalid
    then show ?thesis using assms(1,2)
      by (auto simp: execute_action_def sent_def honest_def by_status_outcome error_from_def)
  next
    case crashed
    then show ?thesis using assms(1,2) key(1)
      by (auto simp: execute_action_def execute_def sent_def honest_def by_status_outcome)
  next
    case served
    then have run': "run' = serve D run (Act amb ?cmd)" using key(1) by (simp add: serve_def)
    have db: "db' i = Some run'" "reply = (if loses_ack ?cmd run' then Garbled 504 else Reply 200 (receipt_json i r))"
      using served assms(1,2) key(1) by (auto simp: execute_action_def execute_def split: if_splits)
    have "rs_refunds run' = rs_refunds run" if "rc_status r \<noteq> SUCCEEDED"
      using serve_refund [OF cmd a(3), of D run amb] served(2) that by (auto simp flip: run')
    moreover have "recorded run' k" if "rc_status r = SUCCEEDED"
      using transact_recorded [OF served(2) that assms(3)] key(2) that by (auto simp: recorded_def)
    ultimately have "honest k run run' (tr_outcome (interpret_reply reply a))"
      using db(2) by (auto simp: honest_def by_status_outcome from_receipt_outcome split: action_status.splits)
    then show ?thesis using db(1) run' by (auto simp: sent_def)
  qed
qed

lemma sent_refund:
  assumes "send_action D i a w = (x, w')" "punctual w" "w_db w i = Some run" "run_ok run"
    and a: "sa_action a = REFUND_ORDER" "sa_key a = Some k" "k \<noteq> []"
  shows "punctual w' \<and> (\<exists>res run'. x = Some res \<and> w_db w' i = Some run' \<and> sent D a run run'
    \<and> honest k run run' (tr_outcome res))"
proof -
  obtain reply where r: "send_post D i (to_command a) w = (reply, w')" "x = Some (interpret_reply reply a)"
    using assms(1) by (auto simp: send_action_def lift_reply_simp)
  have glitch: "honest k run run' (tr_outcome (interpret_reply (glitch_reply g) a))" for run' g
    using glitch_outcome [of g a] by (auto simp: honest_def)
  from r(1) assms(2) show ?thesis
  proof (cases rule: send_post_punctual)
    case (delivered amb)
    then show ?thesis using execute_refund [of D amb i a "w_db w" reply "w_db w'"] assms(3-) r(2) by auto
  next
    case (unanswered amb g)
    obtain rep db where x: "execute_action D amb i (to_command a) (w_db w) = (rep, db)" by force
    show ?thesis using execute_refund [OF x assms(3,4) a] unanswered x glitch r(2) by auto
  next
    case (dropped g)
    then show ?thesis using assms(3) glitch r(2) by (auto simp: sent_def)
  qed
qed

lemma sent_ok: "sent D a run run' \<Longrightarrow> run_ok run \<Longrightarrow> run_ok run'"
  by (auto simp: sent_def serve_ok)

end
