(* ===== verification/Write_Guard.thy ===== *)
theory Write_Guard
  imports Guarded_Writes
begin

text \<open>
  The seam between the gateway and its guard: the locale \<open>write_guard\<close> states what a
  guard owes a gateway, the gateway's guarantees are proved inside it, and the runtime gate over
  the sandbox's HTTP surface is interpreted as such a guard.
\<close>

section \<open>The contract\<close>

locale write_guard =
  fixes D :: "json \<Rightarrow> string" and run_id :: string and g :: guard
  assumes retry_reads: "\<lbrakk>g_retry g key w = (x, w'); punctual w\<rbrakk> \<Longrightarrow> w_db w' = w_db w \<and> punctual w'"
    and pre_reads: "\<lbrakk>g_pre g a w = (x, w'); punctual w\<rbrakk> \<Longrightarrow> w_db w' = w_db w \<and> punctual w'"
    and post_reads: "\<lbrakk>g_post g before after w = (x, w'); punctual w\<rbrakk> \<Longrightarrow> w_db w' = w_db w \<and> punctual w'"
    and retry_miss: "\<lbrakk>g_retry g key w = (Some ans, w'); punctual w; w_db w run_id = Some run;
      read_verdict ans = Some v; vd_decision v = ''ALLOW''; vd_cached v = None\<rbrakk> \<Longrightarrow> lookup_receipt run key = None"
    and retry_hit: "\<lbrakk>g_retry g key w = (Some ans, w'); punctual w; w_db w run_id = Some run;
      read_verdict ans = Some v; vd_decision v = ''ALLOW''; vd_cached v = Some c\<rbrakk>
      \<Longrightarrow> \<exists>r. lookup_receipt run key = Some r \<and> c = receipt_json run_id r"
    and pre_budget: "\<lbrakk>g_pre g a w = (Some ans, w'); punctual w; w_db w run_id = Some run; run_ok run;
      sa_action a = REFUND_ORDER; read_verdict ans = Some v; vd_decision v = ''ALLOW''\<rbrakk> \<Longrightarrow> within_budget run a"

section \<open>Receipts under a key\<close>

lemma head_in_set: "(case xs of [] \<Rightarrow> None | x # _ \<Rightarrow> Some x) = Some y \<Longrightarrow> y \<in> set xs"
  by (cases xs) auto

lemma lookup_receipt_SomeD:
  assumes "lookup_receipt run k = Some r"
  shows "r \<in> set (rs_receipts run) \<and> rc_key r = k \<and> rc_epoch r = rs_epoch run"
  using head_in_set [OF assms [unfolded lookup_receipt_def]] by (simp only: set_sort set_filter mem_Collect_eq)

lemma lookup_receipt_None:
  "lookup_receipt run k = None \<longleftrightarrow> (\<forall>r \<in> set (rs_receipts run). rc_epoch r = rs_epoch run \<longrightarrow> rc_key r \<noteq> k)"
proof -
  let ?rs = "filter (\<lambda>r. rc_epoch r = rs_epoch run \<and> rc_key r = k) (rs_receipts run)"
  have "lookup_receipt run k = None \<longleftrightarrow> sort_key rc_at ?rs = []"
    by (simp add: lookup_receipt_def split: list.splits)
  also have "\<dots> \<longleftrightarrow> ?rs = []" by (simp only: length_0_conv [symmetric] length_sort)
  finally show ?thesis by (auto simp: filter_empty_conv)
qed

text \<open>A refund served under a fresh key is what the lookup of that key then finds.\<close>

lemma fresh_refund_lookup:
  assumes "lookup_receipt run k = None" and "sent D a run run'" and "rs_refunds run' \<noteq> rs_refunds run"
    and a: "sa_action a = REFUND_ORDER" "sa_key a = Some k" "k \<noteq> []"
  shows "\<exists>r. lookup_receipt run' k = Some r \<and> rc_status r = SUCCEEDED"
proof -
  obtain amb where s: "run' = serve D run (Act amb (to_command a))" using assms(2,3) by (auto simp: sent_def)
  have cmd: "cmd_action (to_command a) = REFUND_ORDER" "cmd_key (to_command a) = Some k"
    using a by (simp_all add: to_command_def)
  obtain r where r: "rs_receipts run' = rs_receipts run @ [r]" "rc_key r = k" "rc_status r = SUCCEEDED"
    "rc_epoch r = rs_epoch run" "rs_epoch run' = rs_epoch run"
    using serve_refund [OF cmd a(3), of D run amb] assms(3) s by auto
  have "filter (\<lambda>r. rc_epoch r = rs_epoch run' \<and> rc_key r = k) (rs_receipts run') = [r]"
    using r assms(1) by (auto simp: lookup_receipt_None filter_empty_conv)
  then have "lookup_receipt run' k = Some r" by (simp add: lookup_receipt_def)
  with r(3) show ?thesis by blast
qed

section \<open>A guarded refund\<close>

text \<open>
  What a call may do to the run: at most one refund row under its key, no order newly refunded
  beyond what was paid; a result that invites a retry leaves the refunds alone, a refusal leaves
  everything alone, and a success has its receipt.
\<close>

definition safe_call :: "string \<Rightarrow> run_space \<Rightarrow> run_space \<Rightarrow> tool_outcome option \<Rightarrow> bool" where
  "safe_call k run run' outcome \<longleftrightarrow> run_ok run' \<and> over_refunded run' \<subseteq> over_refunded run
     \<and> (rs_refunds run' = rs_refunds run \<or> (\<exists>f. rs_refunds run' = rs_refunds run @ [f] \<and> rf_key f = k))
     \<and> (outcome \<in> {Some Tool_Failed, Some Tool_Timeout} \<longrightarrow> rs_refunds run' = rs_refunds run)
     \<and> (outcome = Some Tool_Refused \<longrightarrow> run' = run)
     \<and> (outcome = Some Tool_Succeeded \<longrightarrow> recorded run' k)"

lemma safe_idle:
  "\<lbrakk>run_ok run; outcome = Some Tool_Succeeded \<Longrightarrow> recorded run k\<rbrakk> \<Longrightarrow> safe_call k run run outcome"
  by (auto simp: safe_call_def)

lemma safe_sent:
  assumes "sent D a run run'" "run_ok run" "within_budget run a"
    and a: "sa_action a = REFUND_ORDER" "sa_key a = Some k" "k \<noteq> []"
    and "outcome \<in> {Some Tool_Failed, Some Tool_Timeout} \<Longrightarrow> rs_refunds run' = rs_refunds run"
    and "outcome \<noteq> Some Tool_Refused" and "outcome = Some Tool_Succeeded \<Longrightarrow> recorded run' k"
  shows "safe_call k run run' outcome"
proof (cases "run' = run")
  case True
  then show ?thesis using assms by (auto simp: safe_call_def)
next
  case False
  then obtain amb where s: "run' = serve D run (Act amb (to_command a))" using assms(1) by (auto simp: sent_def)
  have cmd: "cmd_action (to_command a) = REFUND_ORDER" "cmd_key (to_command a) = Some k"
    using a by (simp_all add: to_command_def)
  have "over_refunded run' \<subseteq> over_refunded run" unfolding s using assms(2,3) a by (intro serve_refund_within)
  moreover have "rs_refunds run' = rs_refunds run \<or> (\<exists>f. rs_refunds run' = rs_refunds run @ [f] \<and> rf_key f = k)"
    using serve_refund [OF cmd a(3), of D run amb] s by blast
  ultimately show ?thesis using assms sent_ok [OF assms(1,2)] by (auto simp: safe_call_def)
qed

lemma from_receipt_succeeded:
  assumes "lookup_receipt run k = Some r" "tr_outcome (from_receipt (receipt_json i r) a) = Tool_Succeeded"
  shows "recorded run k"
  using lookup_receipt_SomeD [OF assms(1)] assms(2)
  by (auto simp: from_receipt_outcome recorded_def split: action_status.splits)

lemma snapshot_or_none_reads:
  "\<lbrakk>snapshot_or_none D i w = (x, w'); punctual w\<rbrakk> \<Longrightarrow> w_db w' = w_db w \<and> punctual w' \<and> x \<noteq> None"
  by (auto simp: snapshot_or_none_def inspect_run_def chain_def lift_reply_def give_def Let_def
      split: prod.splits option.splits dest!: send_get_punctual)

lemma unknown_result_outcome [simp]: "tr_outcome (fst (unknown_result a t reason)) = Tool_Unknown"
  by (simp add: unknown_result_def tool_result_of_def)

lemma tool_result_of_outcome [simp]: "tr_outcome (tool_result_of a out err) = out"
  by (simp add: tool_result_of_def)

context write_guard
begin

lemma confirm_outcome:
  assumes "confirm D run_id g a before result t w = (x, w')" and "punctual w"
  shows "w_db w' = w_db w \<and> punctual w' \<and> (x = None \<or> (\<exists>res t'. x = Some (res, t')
    \<and> (tr_outcome res = Tool_Unknown \<or> res = result)))"
  using assms(1)[unfolded confirm_def]
proof (cases rule: chain_cases)
  case escapes
  then show ?thesis using snapshot_or_none_reads [OF _ assms(2)] by blast
next
  case (goes_on s w1)
  then have w1: "w_db w1 = w_db w" "punctual w1" using snapshot_or_none_reads [OF _ assms(2)] by blast+
  show ?thesis
  proof (cases s)
    case None
    then show ?thesis using goes_on(2) w1 by (simp add: Let_def unknown_result_def)
  next
    case (Some after)
    from goes_on(2) have "chain (g_post g before after) (\<lambda>ans. case read_verdict ans of
         None \<Rightarrow> give (unknown_result a (checked (checked t)) ''VERDICT_UNREADABLE'')
       | Some v \<Rightarrow> if vd_decision v \<noteq> ''ALLOW'' then give (unknown_result a (checked (checked t)) (vd_reason v))
           else give (result, checked (checked t))) w1 = (x, w')"
      by (simp add: Some Let_def)
    then show ?thesis
    proof (cases rule: chain_cases)
      case escapes
      then show ?thesis using post_reads [OF _ w1(2)] w1 by fastforce
    next
      case (goes_on ans w2)
      then have "w_db w2 = w_db w1" "punctual w2" using post_reads [OF _ w1(2)] by blast+
      then show ?thesis
        using goes_on(2) w1 by (simp add: unknown_result_def split: option.splits if_splits)
    qed
  qed
qed

text \<open>A timed-out refund is looked up: it is either reported with its receipt or was never written.\<close>

lemma recover_outcome:
  assumes "recover g a k t w = (x, w')" and "punctual w" and "w_db w run_id = Some run"
  shows "w_db w' = w_db w \<and> punctual w' \<and> (x = None \<or> (\<exists>r t'. x = Some (r, t')
    \<and> (case r of None \<Rightarrow> lookup_receipt run k = None
        | Some res \<Rightarrow> tr_outcome res = Tool_Unknown
            \<or> (\<exists>c. lookup_receipt run k = Some c \<and> res = from_receipt (receipt_json run_id c) a))))"
  using assms(1)[unfolded recover_def]
proof (cases rule: chain_cases)
  case escapes
  then show ?thesis using retry_reads [OF _ assms(2)] by blast
next
  case (goes_on ans w1)
  have w1: "w_db w1 = w_db w" "punctual w1" using retry_reads [OF goes_on(1) assms(2)] by blast+
  show ?thesis
  proof (cases "read_verdict ans")
    case None
    then show ?thesis using goes_on(2) w1 by (simp add: Let_def unknown_result_def)
  next
    case (Some v)
    show ?thesis
    proof (cases "vd_decision v = ''ALLOW''")
      case False
      then show ?thesis using goes_on(2) w1 Some by (simp add: Let_def unknown_result_def)
    next
      case True
      then show ?thesis
        using goes_on(2) w1 Some retry_miss [OF goes_on(1) assms(2,3) Some True] retry_hit [OF goes_on(1) assms(2,3) Some True]
        by (cases "vd_cached v") (auto simp: Let_def)
    qed
  qed
qed

lemma write_outcome:
  assumes step: "write_and_confirm D run_id g a k before t w = (x, w')" and "punctual w"
    and run: "w_db w run_id = Some run" "run_ok run" "within_budget run a" "lookup_receipt run k = None"
    and a: "sa_action a = REFUND_ORDER" "sa_key a = Some k" "k \<noteq> []"
  shows "punctual w' \<and> (\<exists>run'. w_db w' run_id = Some run'
    \<and> safe_call k run run' (map_option (\<lambda>(res, _). tr_outcome res) x))"
  using step [unfolded write_and_confirm_def]
proof (cases rule: chain_cases)
  case escapes
  then show ?thesis using sent_refund [OF _ assms(2) run(1,2) a] by blast
next
  case (goes_on res w1)
  obtain run1 where w1: "punctual w1" "w_db w1 run_id = Some run1" and s: "sent D a run run1"
    and h: "honest k run run1 (tr_outcome res)"
    using sent_refund [OF goes_on(1) assms(2) run(1,2) a] by auto
  let ?final = "\<lambda>r. case r of None \<Rightarrow> res | Some r' \<Rightarrow> r'"
  note safe = safe_sent [OF s run(2,3) a]
  have known: "tr_outcome (?final r) \<in> {Tool_Failed, Tool_Timeout} \<Longrightarrow> rs_refunds run1 = rs_refunds run"
    "tr_outcome (?final r) = Tool_Succeeded \<Longrightarrow> recorded run1 k"
    "tr_outcome (?final r) \<noteq> Tool_Refused"
    if r: "case r of None \<Rightarrow> tr_outcome res = Tool_Timeout \<longrightarrow> lookup_receipt run1 k = None
      | Some res' \<Rightarrow> tr_outcome res' = Tool_Unknown
          \<or> (\<exists>c. lookup_receipt run1 k = Some c \<and> res' = from_receipt (receipt_json run_id c) a)" for r
    using r h fresh_refund_lookup [OF run(4) s _ a] from_receipt_succeeded
    by (cases r; fastforce simp: honest_def from_receipt_outcome split: action_status.splits)+
  from goes_on(2) show ?thesis
  proof (cases rule: chain_cases)
    case escapes
    then have "recover g a k t w1 = (None, w')" by (auto split: if_splits)
    from recover_outcome [OF this w1] show ?thesis using w1 escapes(2) safe [of None] by auto
  next
    case (goes_on rt w2)
    obtain r t1 where rt: "rt = (r, t1)" by force
    have w2: "w_db w2 = w_db w1 \<and> punctual w2 \<and> (case r of
        None \<Rightarrow> tr_outcome res = Tool_Timeout \<longrightarrow> lookup_receipt run1 k = None
      | Some res' \<Rightarrow> tr_outcome res' = Tool_Unknown
          \<or> (\<exists>c. lookup_receipt run1 k = Some c \<and> res' = from_receipt (receipt_json run_id c) a))"
    proof (cases "tr_outcome res = Tool_Timeout")
      case True
      then have "recover g a k t w1 = (Some (r, t1), w2)" using goes_on(1) by (simp add: rt)
      from recover_outcome [OF this w1] show ?thesis by (cases r) auto
    next
      case False
      then show ?thesis using goes_on(1) w1 by (simp add: rt)
    qed
    then have r: "case r of None \<Rightarrow> tr_outcome res = Tool_Timeout \<longrightarrow> lookup_receipt run1 k = None
      | Some res' \<Rightarrow> tr_outcome res' = Tool_Unknown
          \<or> (\<exists>c. lookup_receipt run1 k = Some c \<and> res' = from_receipt (receipt_json run_id c) a)" by simp
    show ?thesis
    proof (cases "succeeded (?final r)")
      case False
      then have "x = Some (?final r, t1)" "w' = w2" using goes_on(2) by (simp_all add: rt Let_def)
      then show ?thesis using w1 w2 safe [of "Some (tr_outcome (?final r))"] known [OF r] by simp
    next
      case True
      then have "confirm D run_id g a before (?final r) t1 w2 = (x, w')" using goes_on(2) by (simp add: rt Let_def)
      from confirm_outcome [OF this conjunct1 [OF conjunct2 [OF w2]]] show ?thesis
        using w1 w2 known [OF r] True safe [of None] safe [of "Some Tool_Unknown"] safe [of "Some (tr_outcome (?final r))"]
        by (auto simp: succeeded_def)
    qed
  qed
qed

lemma dispatch_outcome:
  assumes step: "guarded_dispatch D run_id g a k t w = (x, w')" and "punctual w"
    and run: "w_db w run_id = Some run" "run_ok run"
    and a: "sa_action a = REFUND_ORDER" "sa_key a = Some k" "k \<noteq> []"
  shows "punctual w' \<and> (\<exists>run'. w_db w' run_id = Some run'
    \<and> safe_call k run run' (map_option (\<lambda>(res, _). tr_outcome res) x))"
  using step [unfolded guarded_dispatch_def]
proof (cases rule: chain_cases)
  case escapes
  then show ?thesis using retry_reads [OF _ assms(2)] run safe_idle [of run None k] by auto
next
  case (goes_on ans w1)
  have w1: "w_db w1 run_id = Some run" "punctual w1" using retry_reads [OF goes_on(1) assms(2)] run by auto
  have idle: "safe_call k run run (Some Tool_Unknown)" "safe_call k run run None" "safe_call k run run (Some Tool_Refused)"
    using run(2) by (auto intro: safe_idle)
  show ?thesis
  proof (cases "read_verdict ans")
    case None
    then show ?thesis using goes_on(2) w1 idle by (auto simp: Let_def unknown_result_def)
  next
    case (Some v)
    show ?thesis
    proof (cases "vd_decision v = ''ALLOW''")
      case False
      then show ?thesis using goes_on(2) w1 Some idle by (auto simp: Let_def unknown_result_def)
    next
      case True
      show ?thesis
      proof (cases "vd_cached v")
        case (Some c)
        then obtain r where r: "lookup_receipt run k = Some r" "c = receipt_json run_id r"
          using retry_hit [OF goes_on(1) assms(2) run(1) \<open>read_verdict ans = Some v\<close> True] by blast
        then show ?thesis
          using goes_on(2) w1 True Some \<open>read_verdict ans = Some v\<close> run(2) from_receipt_succeeded [OF r(1)]
          by (auto simp: Let_def intro!: safe_idle)
      next
        case None
        then have miss: "lookup_receipt run k = None"
          using retry_miss [OF goes_on(1) assms(2) run(1) Some True] by simp
        let ?t = "checked (noted (checked t) (vd_decision v) (vd_reason v))"
        have "chain (g_pre g a) (\<lambda>ans. case refusal (read_verdict ans) a ?t of
            (Some r, t3) \<Rightarrow> give (r, t3)
          | (None, t3) \<Rightarrow> chain (snapshot_or_none D run_id) (\<lambda>before. case before of
              None \<Rightarrow> give (unknown_result a (checked t3) ''SNAPSHOT_UNAVAILABLE'')
            | Some s \<Rightarrow> write_and_confirm D run_id g a k s (checked t3))) w1 = (x, w')"
          using goes_on(2) by (simp add: Some True None Let_def)
        then show ?thesis
        proof (cases rule: chain_cases)
          case escapes
          then show ?thesis using pre_reads [OF _ w1(2)] w1(1) idle by auto
        next
          case (goes_on ans' w2)
          have w2: "w_db w2 run_id = Some run" "punctual w2" using pre_reads [OF goes_on(1) w1(2)] w1(1) by auto
          obtain rr t3 where rr: "refusal (read_verdict ans') a ?t = (rr, t3)" by force
          show ?thesis
          proof (cases rr)
            case (Some r)
            then have "tr_outcome r = Tool_Unknown \<or> tr_outcome r = Tool_Refused"
              using rr by (auto simp: refusal_def unknown_result_def Let_def split: option.splits if_splits)
            then show ?thesis using goes_on(2) rr Some w2 idle by auto
          next
            case None
            then obtain v' where "read_verdict ans' = Some v'" "vd_decision v' = ''ALLOW''"
              using rr by (auto simp: refusal_def unknown_result_def Let_def split: option.splits if_splits)
            then have within: "within_budget run a"
              using pre_budget [OF goes_on(1) w1(2,1) run(2) a(1)] by simp
            have "chain (snapshot_or_none D run_id) (\<lambda>before. case before of
                None \<Rightarrow> give (unknown_result a (checked t3) ''SNAPSHOT_UNAVAILABLE'')
              | Some s \<Rightarrow> write_and_confirm D run_id g a k s (checked t3)) w2 = (x, w')"
              using goes_on(2) by (simp add: rr None)
            then show ?thesis
            proof (cases rule: chain_cases)
              case escapes
              then show ?thesis using snapshot_or_none_reads [OF _ w2(2)] by blast
            next
              case (goes_on before w3)
              have w3: "w_db w3 run_id = Some run" "punctual w3"
                using snapshot_or_none_reads [OF goes_on(1) w2(2)] w2(1) by auto
              show ?thesis
              proof (cases before)
                case None
                then show ?thesis using goes_on(2) w3 idle by (auto simp: unknown_result_def)
              next
                case (Some s)
                with goes_on(2) show ?thesis
                  using write_outcome [OF _ w3(2,1) run(2) within miss a] by simp
              qed
            qed
          qed
        qed
      qed
    qed
  qed
qed

theorem guarded_call_safe:
  assumes "gateway_call D run_id (Some g) a w = (x, w')" "punctual w" "w_db w run_id = Some run" "run_ok run"
    and a: "sa_action a = REFUND_ORDER" "sa_key a = Some k" "k \<noteq> []"
  shows "punctual w' \<and> (\<exists>run'. w_db w' run_id = Some run'
    \<and> safe_call k run run' (map_option (\<lambda>(res, _). tr_outcome res) x))"
proof -
  obtain y where "guarded_dispatch D run_id g a k no_trace w = (y, w')"
    "map_option (\<lambda>(res, _). tr_outcome res) x = map_option (\<lambda>(res, _). tr_outcome res) y"
    using assms(1) a by (auto simp: gateway_call_def keyless_def gateway_dispatch_def chain_def give_def
        split: prod.splits option.splits)
  with dispatch_outcome [OF _ assms(2-4) a] show ?thesis by fastforce
qed

end

section \<open>The runtime gate keeps the contract\<close>

lemma answering_Some: "answering m w = (Some ans, w') \<longleftrightarrow> (\<exists>d. m w = (Some d, w') \<and> ans = gate_answer d)"
  by (auto simp: answering_def chain_Some)

lemma answering_world: "answering m w = (x, w') \<Longrightarrow> \<exists>y. m w = (y, w')"
  by (auto simp: answering_def chain_def give_def split: prod.splits option.splits)

lemma gate_snapshot_reads:
  "\<lbrakk>gate_snapshot D i w = (x, w'); punctual w\<rbrakk> \<Longrightarrow> w_db w' = w_db w \<and> punctual w'"
  by (auto simp: gate_snapshot_def lift_reply_simp dest!: send_get_punctual)

lemma gate_snapshot_true:
  assumes "gate_snapshot D i w = (Some (Some s), w')" "punctual w" "w_db w i = Some run"
  shows "\<exists>amb. s = snapshot D amb run"
proof -
  obtain r where r: "send_get D (http_snapshot D i) w = (r, w')" "read_snapshot r = Some s"
    using assms(1) by (auto simp: gate_snapshot_def lift_reply_simp)
  have "read_snapshot (glitch_reply gl) = None" for gl by (cases gl) simp_all
  then have "r = http_snapshot D i (cn_amb (current w)) (w_db w)"
    using send_get_punctual [OF r(1) assms(2)] r(2) by auto
  with r(2) assms(3) show ?thesis
    by (auto simp: http_snapshot_def get_snapshot_def fetch_run_def split: if_splits)
qed

lemma pre_check_reads: "\<lbrakk>pre_check D i a w = (x, w'); punctual w\<rbrakk> \<Longrightarrow> w_db w' = w_db w \<and> punctual w'"
  by (auto simp: pre_check_def or_raise_def elim!: chain_cases dest!: gate_snapshot_reads
      split: option.splits if_splits)

lemma post_check_reads: "\<lbrakk>post_check D i b af w = (x, w'); punctual w\<rbrakk> \<Longrightarrow> w_db w' = w_db w \<and> punctual w'"
  by (auto simp: post_check_def elim!: chain_cases dest!: gate_snapshot_reads split: option.splits)

lemma retry_check_reads: "\<lbrakk>retry_check D i k w = (x, w'); punctual w\<rbrakk> \<Longrightarrow> w_db w' = w_db w \<and> punctual w'"
  by (auto simp: retry_check_def lift_reply_simp dest!: send_get_punctual)

lemma run_ok_orders:
  assumes "run_ok run"
  shows "distinct (map od_id (rs_orders run))"
    and "find_row od_id i (rs_orders run) = Some d \<Longrightarrow> is_cents (od_paid d) \<and> is_cents (od_refunded d)"
  using assms wf_rowsD(3) [of run d] find_row_SomeD [of od_id i "rs_orders run" d]
  by (auto simp: run_ok_def wf_books_def wf_ids_def numbered_distinct order_ok_def)

text \<open>On a run's own snapshot the budget decision is the comparison it stands for.\<close>

lemma budget_decision_snapshot:
  assumes "run_ok run"
  shows "budget_decision (snapshot D amb run) i q = Some (case find_row od_id i (rs_orders run) of
      None \<Rightarrow> decided Block NO_SUCH_ORDER
    | Some d \<Rightarrow>
        if od_status d \<notin> {PAID, PARTIALLY_REFUNDED} then decided Block ORDER_NOT_REFUNDABLE
        else if od_paid d < od_refunded d + q then decided Block REFUND_BUDGET_EXCEEDED
        else decided Allow WITHIN_REFUND_BUDGET)"
proof -
  obtain orders where o: "snapshot_orders (snapshot D amb run) = Some orders"
    "\<And>i. map_of orders i = map_option order_json (find_row od_id i (rs_orders run))"
    using snapshot_orders_lookup [OF run_ok_orders(1) [OF assms]] by blast
  show ?thesis
  proof (cases "find_row od_id i (rs_orders run)")
    case None
    then show ?thesis by (simp add: budget_decision_def o)
  next
    case (Some d)
    then show ?thesis
      using run_ok_orders(2) [OF assms Some]
      by (cases "od_status d")
        (simp_all add: budget_decision_def o order_json_fields hashable_def refundable_states_def gate_decimal_amount Let_def)
  qed
qed

lemma receipt_decision_glitch: "receipt_decision (glitch_reply gl) = decided Undecided RECEIPT_LOOKUP_FAILED"
  by (cases gl) simp_all

lemma receipt_decision_true:
  assumes "retry_check D i k w = (Some d, w')" "punctual w" "w_db w i = Some run" "gd_decision d = Allow"
  shows "case lookup_receipt run k of None \<Rightarrow> d = decided Allow RETRY_SAFE
    | Some r \<Rightarrow> d = \<lparr>gd_decision = Allow, gd_reason = CACHED_RECEIPT, gd_cached = Some (receipt_json i r)\<rparr>"
proof -
  obtain r where r: "send_get D (http_receipt i k) w = (r, w')" "d = receipt_decision r"
    using assms(1) by (auto simp: retry_check_def lift_reply_simp)
  then have "r = http_receipt i k (cn_amb (current w)) (w_db w)"
    using send_get_punctual [OF r(1) assms(2)] assms(4) receipt_decision_glitch by (auto simp: decided_def)
  with r(2) assms(3) show ?thesis
    by (auto simp: http_receipt_def get_receipt_def fetch_run_def domain_http_error_def domain_status_def
        split: option.splits)
qed

lemma pre_check_budget:
  assumes "pre_check D i a w = (Some d, w')" "punctual w" "w_db w i = Some run" "run_ok run"
    "sa_action a = REFUND_ORDER" "gd_decision d = Allow"
  shows "within_budget run a"
proof -
  obtain q order_id s w1 where *: "gate_money (argument a ''amount'') = Some (Some q)" "sa_target a = Some order_id"
    "gate_snapshot D i w = (Some (Some s), w1)" "budget_decision s order_id q = Some d"
    using assms(1,5,6)
    by (auto simp: pre_check_def or_raise_def decided_def chain_Some split: option.splits if_splits)
  obtain amb where "s = snapshot D amb run" using gate_snapshot_true [OF *(3) assms(2,3)] by blast
  then show ?thesis
    using *(1,2,4) assms(6) budget_decision_snapshot [OF assms(4), of D amb order_id q]
    by (auto simp: within_budget_def decided_def split: option.splits if_splits)
qed

interpretation runtime_gate: write_guard D i "gate_guard D i" for D :: "json \<Rightarrow> string" and i :: string
proof unfold_locales
  show "w_db w' = w_db w \<and> punctual w'" if "g_retry (gate_guard D i) key w = (x, w')" "punctual w" for key w x w'
    using that answering_world [of "retry_check D i key" w x w'] retry_check_reads [of D i key w] by (simp add: gate_guard_def, blast)
  show "w_db w' = w_db w \<and> punctual w'" if "g_pre (gate_guard D i) a w = (x, w')" "punctual w" for a w x w'
    using that answering_world [of "pre_check D i a" w x w'] pre_check_reads [of D i a w] by (simp add: gate_guard_def, blast)
  show "w_db w' = w_db w \<and> punctual w'" if "g_post (gate_guard D i) b af w = (x, w')" "punctual w" for b af w x w'
    using that answering_world [of "post_check D i b af" w x w'] post_check_reads [of D i b af w] by (simp add: gate_guard_def, blast)
next
  fix key w ans w' run v
  assume *: "g_retry (gate_guard D i) key w = (Some ans, w')" "punctual w" "w_db w i = Some run"
    "read_verdict ans = Some v" "vd_decision v = ''ALLOW''"
  then obtain d where d: "retry_check D i key w = (Some d, w')" "ans = gate_answer d"
    by (auto simp: gate_guard_def answering_Some)
  then have "gd_decision d = Allow" using *(4,5) by (auto simp: gate_verdict_read verdict_allow)
  note true = receipt_decision_true [OF d(1) *(2,3) this]
  show "lookup_receipt run key = None" if "vd_cached v = None"
    using true that *(4) by (auto simp: d(2) gate_verdict_read decided_def split: option.splits)
  show "\<exists>r. lookup_receipt run key = Some r \<and> c = receipt_json i r" if "vd_cached v = Some c" for c
    using true that *(4) by (auto simp: d(2) gate_verdict_read decided_def split: option.splits)
next
  fix a w ans w' run v
  assume *: "g_pre (gate_guard D i) a w = (Some ans, w')" "punctual w" "w_db w i = Some run" "run_ok run"
    "sa_action a = REFUND_ORDER" "read_verdict ans = Some v" "vd_decision v = ''ALLOW''"
  then obtain d where d: "pre_check D i a w = (Some d, w')" "ans = gate_answer d"
    by (auto simp: gate_guard_def answering_Some)
  then have "gd_decision d = Allow" using *(6,7) by (auto simp: gate_verdict_read verdict_allow)
  then show "within_budget run a" by (rule pre_check_budget [OF d(1) *(2-5)])
qed

end
