(* ===== verification/Agent.thy ===== *)
theory Agent
  imports Write_Guard
begin

text \<open>
  The deterministic refund agent (\<^verbatim>\<open>packages/refund_agent/agent.py\<close> and
  \<^verbatim>\<open>models.py\<close>): reading a ticket, deciding on a snapshot, and the loop that retries an
  unanswered refund under a fresh key. A ticket's text is its list of code points, so that its
  Chinese phrases are what the source writes; whether a code point outside ASCII is a decimal digit
  or a word character for \<^verbatim>\<open>re\<close> comes from the Unicode tables given as an argument.
  Escalation reasons are kept as the situation they name and the length of their text, which the
  decision's schema bounds by 500.
\<close>

section \<open>Tickets\<close>

type_synonym code_text = "nat list"

record ticket =
  tk_id :: string
  tk_user :: string
  tk_text :: code_text

definition ticket_valid :: "ticket \<Rightarrow> bool" where
  "ticket_valid t \<longleftrightarrow> tk_id t \<noteq> [] \<and> length (tk_id t) \<le> 128 \<and> tk_user t \<noteq> [] \<and> length (tk_user t) \<le> 128
     \<and> tk_text t \<noteq> [] \<and> length (tk_text t) \<le> 2000"

record refund_request =
  rq_order :: code_text
  rq_amount :: "string option"

text \<open>The classes \<^verbatim>\<open>\d\<close> and \<^verbatim>\<open>\w\<close> beyond ASCII.\<close>

record unicode =
  u_digit :: "nat \<Rightarrow> bool"
  u_alnum :: "nat \<Rightarrow> bool"

definition ascii_digit :: "nat \<Rightarrow> bool" where
  "ascii_digit c \<longleftrightarrow> 48 \<le> c \<and> c \<le> 57"

definition digit_class :: "unicode \<Rightarrow> nat \<Rightarrow> bool" where
  "digit_class u c \<longleftrightarrow> (if c < 128 then ascii_digit c else u_digit u c)"

definition word_class :: "unicode \<Rightarrow> nat \<Rightarrow> bool" where
  "word_class u c \<longleftrightarrow> (if c < 128
     then ascii_digit c \<or> (65 \<le> c \<and> c \<le> 90) \<or> (97 \<le> c \<and> c \<le> 122) \<or> c = 95
     else u_alnum u c)"

definition space_class :: "nat \<Rightarrow> bool" where
  "space_class c \<longleftrightarrow> (9 \<le> c \<and> c \<le> 13) \<or> (28 \<le> c \<and> c \<le> 32) \<or> c = 133 \<or> c = 160 \<or> c = 5760
     \<or> (8192 \<le> c \<and> c \<le> 8202) \<or> c = 8232 \<or> c = 8233 \<or> c = 8239 \<or> c = 8287 \<or> c = 12288"

definition codes :: "string \<Rightarrow> code_text" where
  "codes s = map of_char s"

text \<open>
  \<^verbatim>\<open>\border-\d+\b\<close> at the head of a text: the digits are taken greedily, and giving one
  back would leave a digit before a digit, where there is no word boundary.
\<close>

definition order_at :: "unicode \<Rightarrow> code_text \<Rightarrow> code_text option" where
  "order_at u s =
     (let prefix = codes ''order-''; rest = drop (length prefix) s;
          ds = takeWhile (digit_class u) rest; after = dropWhile (digit_class u) rest
      in if take (length prefix) s = prefix \<and> ds \<noteq> [] \<and> (after = [] \<or> \<not> word_class u (hd after))
         then Some (prefix @ ds) else None)"

fun search_order :: "unicode \<Rightarrow> bool \<Rightarrow> code_text \<Rightarrow> code_text option" where
  "search_order u inword [] = None"
| "search_order u inword (c # cs) =
     (case (if inword then None else order_at u (c # cs)) of
        Some i \<Rightarrow> Some i
      | None \<Rightarrow> search_order u (word_class u c) cs)"

definition refund_word :: code_text where
  "refund_word = [36864, 27454]"

definition full_refund_markers :: "code_text list" where
  "full_refund_markers = [[20840, 39069], [20840, 27454], [25972, 21333]]"

fun contains_text :: "code_text \<Rightarrow> code_text \<Rightarrow> bool" where
  "contains_text m [] = (m = [])"
| "contains_text m (c # cs) = (take (length m) (c # cs) = m \<or> contains_text m cs)"

definition amount_at :: "code_text \<Rightarrow> string option" where
  "amount_at s =
     (let rest = dropWhile space_class (drop (length refund_word) s);
          ip = takeWhile ascii_digit rest; r1 = dropWhile ascii_digit rest;
          fp = (if r1 \<noteq> [] \<and> hd r1 = 46 then take 2 (takeWhile ascii_digit (tl r1)) else [])
      in if take (length refund_word) s = refund_word \<and> ip \<noteq> []
         then Some (map char_of (ip @ (if fp = [] then [] else 46 # fp))) else None)"

fun search_amount :: "code_text \<Rightarrow> string option" where
  "search_amount [] = None"
| "search_amount (c # cs) = (case amount_at (c # cs) of Some a \<Rightarrow> Some a | None \<Rightarrow> search_amount cs)"

definition parse_refund_request :: "unicode \<Rightarrow> code_text \<Rightarrow> refund_request option" where
  "parse_refund_request u s = (case search_order u False s of
       None \<Rightarrow> None
     | Some i \<Rightarrow>
         if \<exists>m \<in> set full_refund_markers. contains_text m s then Some \<lparr>rq_order = i, rq_amount = None\<rparr>
         else (case search_amount s of
             None \<Rightarrow> None
           | Some a \<Rightarrow> Some \<lparr>rq_order = i, rq_amount = Some a\<rparr>))"

section \<open>Deciding\<close>

definition agent_decimal :: "json \<Rightarrow> rat option" where
  "agent_decimal value = (case raw_decimal value of Some (DFin x) \<Rightarrow> Some x | _ \<Rightarrow> None)"

definition agent_orders :: "json \<Rightarrow> (string \<times> json) list option" where
  "agent_orders snap = (let state = jget ''state'' snap in
     if \<not> is_obj state then None
     else case jget ''orders'' state of
       JList items \<Rightarrow>
         (if list_all is_obj items
          then Some (py_dict (concat (map (\<lambda>d. case jget ''id'' d of JStr i \<Rightarrow> [(i, d)] | _ \<Rightarrow> []) items)))
          else None)
     | _ \<Rightarrow> None)"

datatype reason =
    NoRequest | NoOrders | OrderNotVisible code_text | OrderNotRefundable code_text json | AmountUnclear code_text
  | SnapshotUnreadable | BranchStopped tool_outcome "string option" | AttemptsExhausted nat

text \<open>The length of a decision's reason text, whose fixed parts are the source's phrases.\<close>

fun reason_length :: "reason \<Rightarrow> nat" where
  "reason_length NoRequest = 24"
| "reason_length NoOrders = 17"
| "reason_length (OrderNotVisible i) = 13 + length i"
| "reason_length (OrderNotRefundable i status) = 16 + length i + length (py_str status)"
| "reason_length (AmountUnclear i) = 11 + length i"
| "reason_length _ = 0"

datatype decision = Act_on sim_action | Escalate reason

text \<open>A decision whose reason is too long fails validation: an exception escapes.\<close>

definition escalate :: "reason \<Rightarrow> decision option" where
  "escalate r = (if reason_length r \<le> 500 then Some (Escalate r) else None)"

definition decide :: "unicode \<Rightarrow> ticket \<Rightarrow> json \<Rightarrow> decision option" where
  "decide u t snap = (case parse_refund_request u (tk_text t) of
       None \<Rightarrow> escalate NoRequest
     | Some rq \<Rightarrow> (case agent_orders snap of
         None \<Rightarrow> escalate NoOrders
       | Some orders \<Rightarrow> (case find (\<lambda>(i, d). codes i = rq_order rq) orders of
           None \<Rightarrow> escalate (OrderNotVisible (rq_order rq))
         | Some (order_id, order) \<Rightarrow>
             let status = jget ''status'' order;
                 amount = (case rq_amount rq of Some a \<Rightarrow> JStr a | None \<Rightarrow> jget ''paid_amount'' order)
             in if \<not> hashable status then None
                else if status \<notin> refundable_states then escalate (OrderNotRefundable (rq_order rq) status)
                else if agent_decimal amount = None then escalate (AmountUnclear (rq_order rq))
                else if 500 < 11 + length (rq_order rq) + length (py_str amount) then None
                else Some (Act_on
                  \<lparr>sa_action = REFUND_ORDER, sa_actor = ''user-1'', sa_target = Some order_id,
                   sa_arguments = [(''amount'', JStr (py_str amount))], sa_key = None\<rparr>))))"

section \<open>Handling a ticket\<close>

datatype agent_outcome = Completed | Escalated

record agent_step =
  as_action :: "action_type option"
  as_key :: "string option"
  as_outcome :: "tool_outcome option"
  as_error :: "string option"

record agent_report =
  rp_ticket :: string
  rp_outcome :: agent_outcome
  rp_claimed :: bool
  rp_reason :: "reason option"
  rp_steps :: "agent_step list"
  rp_calls :: "tool_call list"

definition escalated :: "ticket \<Rightarrow> agent_step list \<Rightarrow> tool_call list \<Rightarrow> reason \<Rightarrow> agent_report" where
  "escalated t steps calls r = \<lparr>rp_ticket = tk_id t, rp_outcome = Escalated, rp_claimed = False,
     rp_reason = Some r, rp_steps = steps, rp_calls = calls\<rparr>"

definition call_step :: "sim_action \<Rightarrow> tool_result \<Rightarrow> agent_step" where
  "call_step a r = \<lparr>as_action = Some (sa_action a), as_key = sa_key a, as_outcome = Some (tr_outcome r),
     as_error = tr_error r\<rparr>"

definition refund_key :: "ticket \<Rightarrow> nat \<Rightarrow> string" where
  "refund_key t n = tk_id t @ '':refund:'' @ string_of_nat n"

fun attempt_refund ::
  "(json \<Rightarrow> string) \<Rightarrow> string \<Rightarrow> guard option \<Rightarrow> ticket \<Rightarrow> sim_action \<Rightarrow> nat \<Rightarrow> nat
   \<Rightarrow> agent_step list \<Rightarrow> tool_call list \<Rightarrow> agent_report client" where
  "attempt_refund D run_id guard t a attempt 0 steps calls =
     give (escalated t steps calls (AttemptsExhausted (attempt - 1)))"
| "attempt_refund D run_id guard t a attempt (Suc left) steps calls =
     (let keyed = a\<lparr>sa_key := Some (refund_key t attempt)\<rparr> in
      chain (gateway_call D run_id guard keyed) (\<lambda>(r, rec).
        let steps' = steps @ [call_step keyed r]; calls' = calls @ [rec] in
        if succeeded r then give \<lparr>rp_ticket = tk_id t, rp_outcome = Completed, rp_claimed = True,
            rp_reason = None, rp_steps = steps', rp_calls = calls'\<rparr>
        else if \<not> retryable r then give (escalated t steps' calls' (BranchStopped (tr_outcome r) (tr_error r)))
        else attempt_refund D run_id guard t a (attempt + 1) left steps' calls'))"

definition inspect_action :: sim_action where
  "inspect_action = build_action INSPECT_STATE None None [(''scope'', JStr ''RUN'')]"

definition received_snapshot :: "tool_result \<Rightarrow> json option" where
  "received_snapshot r = (case (succeeded r, tr_receipt r) of
       (True, Some receipt) \<Rightarrow>
         (let snap = jget ''snapshot'' (jget ''result'' receipt) in if is_obj snap then Some snap else None)
     | _ \<Rightarrow> None)"

definition handle ::
  "unicode \<Rightarrow> (json \<Rightarrow> string) \<Rightarrow> string \<Rightarrow> guard option \<Rightarrow> nat \<Rightarrow> ticket \<Rightarrow> agent_report client" where
  "handle u D run_id guard max_attempts t =
     chain (gateway_call D run_id guard inspect_action) (\<lambda>(r, rec).
       let steps = [call_step inspect_action r]; calls = [rec] in
       case received_snapshot r of
         None \<Rightarrow> give (escalated t steps calls SnapshotUnreadable)
       | Some snap \<Rightarrow> (case decide u t snap of
           None \<Rightarrow> raise_exn
         | Some (Escalate reason) \<Rightarrow>
             give (escalated t (steps @ [\<lparr>as_action = None, as_key = None, as_outcome = None, as_error = None\<rparr>])
               calls reason)
         | Some (Act_on a) \<Rightarrow> attempt_refund D run_id guard t a 1 max_attempts steps calls))"

section \<open>The loop over a safe gateway\<close>

definition one_more_refund :: "ticket \<Rightarrow> run_space \<Rightarrow> run_space \<Rightarrow> bool" where
  "one_more_refund t run run' \<longleftrightarrow> rs_refunds run' = rs_refunds run
     \<or> (\<exists>f n. rs_refunds run' = rs_refunds run @ [f] \<and> rf_key f = refund_key t n)"

lemma refund_key_nonempty [simp]: "refund_key t n \<noteq> []"
  by (simp add: refund_key_def)

lemma gated_attempts:
  assumes "attempt_refund D i (Some (gate_guard D i)) t a n left steps calls w = (x, w')"
    and "punctual w" "w_db w i = Some run" "run_ok run" and a: "sa_action a = REFUND_ORDER"
  shows "punctual w' \<and> (\<exists>run'. w_db w' i = Some run' \<and> run_ok run' \<and> over_refunded run' \<subseteq> over_refunded run
    \<and> one_more_refund t run run'
    \<and> (\<forall>rep. x = Some rep \<longrightarrow> rp_claimed rep \<longrightarrow> (\<exists>n. recorded run' (refund_key t n))))"
  using assms(1-4)
proof (induction left arbitrary: n steps calls w run)
  case 0
  then show ?case by (auto simp: one_more_refund_def escalated_def)
next
  case (Suc left)
  let ?keyed = "a\<lparr>sa_key := Some (refund_key t n)\<rparr>"
  have keyed: "sa_action ?keyed = REFUND_ORDER" "sa_key ?keyed = Some (refund_key t n)" using a by simp_all
  note safe = runtime_gate.guarded_call_safe [OF _ Suc.prems(2-4) keyed refund_key_nonempty]
  from Suc.prems(1) [unfolded attempt_refund.simps Let_def] show ?case
  proof (cases rule: chain_cases)
    case escapes
    from safe [OF this(1)] this(2) show ?thesis by (auto simp: safe_call_def one_more_refund_def)
  next
    case (goes_on y w1)
    obtain r rec where y: "y = (r, rec)" by force
    obtain run1 where w1: "punctual w1" "w_db w1 i = Some run1"
      and s: "safe_call (refund_key t n) run run1 (Some (tr_outcome r))"
      using safe [OF goes_on(1)] by (auto simp: y)
    have one: "one_more_refund t run run1" using s by (auto simp: safe_call_def one_more_refund_def)
    consider (finished) "succeeded r" | (stop) "\<not> succeeded r" "\<not> retryable r" | (again) "\<not> succeeded r" "retryable r" by blast
    then show ?thesis
    proof cases
      case finished
      then show ?thesis using goes_on(2) w1 s one by (auto simp: y safe_call_def succeeded_def)
    next
      case stop
      then show ?thesis using goes_on(2) w1 s one by (auto simp: y safe_call_def escalated_def)
    next
      case again
      then have same: "rs_refunds run1 = rs_refunds run" and sub: "over_refunded run1 \<subseteq> over_refunded run"
        and ok: "run_ok run1"
        using s by (auto simp: safe_call_def retryable_def)
      have "attempt_refund D i (Some (gate_guard D i)) t a (n + 1) left (steps @ [call_step ?keyed r]) (calls @ [rec]) w1
          = (x, w')" using goes_on(2) again by (simp add: y)
      from Suc.IH [OF this w1 ok] same sub show ?thesis by (fastforce simp: one_more_refund_def)
    qed
  qed
qed

text \<open>Reading the state writes nothing but the read's receipt.\<close>

lemma serve_inspect:
  assumes "cmd_action cmd = INSPECT_STATE"
  shows "rs_refunds (serve D run (Act amb cmd)) = rs_refunds run \<and> rs_orders (serve D run (Act amb cmd)) = rs_orders run"
proof (cases "transact D amb cmd run")
  case None
  then show ?thesis by (simp add: serve_def)
next
  case (Some rr)
  obtain r run' where rr: "rr = (r, run')" by force
  from Some [unfolded rr] have "rs_refunds run' = rs_refunds run \<and> rs_orders run' = rs_orders run"
  proof (cases rule: transact_cases)
    case (committed result effects run1)
    then show ?thesis using assms dispatch_handler [OF committed(2)]
      by (auto simp: inspect_state_def result_simps Let_def add_receipt_def split: if_splits)
  qed (simp_all add: add_receipt_def)
  then show ?thesis using Some rr by (simp add: serve_def)
qed

lemma execute_action_serves:
  assumes "db i = Some run"
  shows "\<exists>run'. snd (execute_action D amb i cmd db) i = Some run' \<and> (run' = run \<or> run' = serve D run (Act amb cmd))"
  using execute_serves [of db i run D amb cmd i] assms
  by (auto simp: execute_action_def split: prod.splits outcome.splits)

lemma inspect_call:
  assumes "gateway_call D i guard inspect_action w = (x, w')" "punctual w" "w_db w i = Some run" "run_ok run"
  shows "x \<noteq> None \<and> punctual w' \<and> (\<exists>run'. w_db w' i = Some run' \<and> run_ok run' \<and> rs_refunds run' = rs_refunds run
    \<and> rs_orders run' = rs_orders run)"
proof -
  have act: "sa_action inspect_action = INSPECT_STATE" "cmd_action (to_command inspect_action) = INSPECT_STATE"
    by (simp_all add: inspect_action_def build_action_def to_command_def)
  obtain r where r: "send_post D i (to_command inspect_action) w = (r, w')" "x \<noteq> None"
    using assms(1) act
    by (auto simp: gateway_call_def keyless_def gateway_dispatch_def chain_def send_action_def lift_reply_def give_def
        split: option.splits prod.splits)
  have good: "\<exists>run'. snd (execute_action D amb i (to_command inspect_action) (w_db w)) i = Some run' \<and> run_ok run'
      \<and> rs_refunds run' = rs_refunds run \<and> rs_orders run' = rs_orders run" for amb
    using execute_action_serves [of "w_db w" i run D amb "to_command inspect_action"] assms(3) serve_inspect [OF act(2)]
      assms(4) serve_ok by fastforce
  from r(1) assms(2) show ?thesis
  proof (cases rule: send_post_punctual)
    case (delivered amb)
    then show ?thesis using good [of amb] r(2) by (metis snd_conv)
  next
    case (unanswered amb g)
    then show ?thesis using good [of amb] r(2) by auto
  next
    case (dropped g)
    then show ?thesis using assms(3,4) r(2) by auto
  qed
qed

lemma decide_refund: "decide u t snap = Some (Act_on a) \<Longrightarrow> sa_action a = REFUND_ORDER"
  by (auto simp: decide_def escalate_def Let_def split: option.splits if_splits prod.splits)

lemma gated_handle:
  assumes "handle u D i (Some (gate_guard D i)) n t w = (x, w')" "punctual w" "w_db w i = Some run" "run_ok run"
  shows "punctual w' \<and> (\<exists>run'. w_db w' i = Some run' \<and> run_ok run' \<and> over_refunded run' \<subseteq> over_refunded run
    \<and> one_more_refund t run run'
    \<and> (\<forall>rep. x = Some rep \<longrightarrow> rp_claimed rep \<longrightarrow> (\<exists>n. recorded run' (refund_key t n))))"
  using assms(1) [unfolded handle_def]
proof (cases rule: chain_cases)
  case escapes
  then show ?thesis using inspect_call [OF _ assms(2-4)] by blast
next
  case (goes_on y w1)
  obtain r rec where y: "y = (r, rec)" by force
  obtain run1 where w1: "punctual w1" "w_db w1 i = Some run1" "run_ok run1" "rs_refunds run1 = rs_refunds run"
    "rs_orders run1 = rs_orders run"
    using inspect_call [OF goes_on(1) assms(2-4)] by blast
  have over: "over_refunded run1 = over_refunded run" using w1(5) by (rule over_refunded_cong)
  show ?thesis
  proof (cases "\<exists>snap a. received_snapshot r = Some snap \<and> decide u t snap = Some (Act_on a)")
    case True
    then obtain snap a where "received_snapshot r = Some snap" and a: "decide u t snap = Some (Act_on a)" by blast
    then have "attempt_refund D i (Some (gate_guard D i)) t a 1 n [call_step inspect_action r] [rec] w1 = (x, w')"
      using goes_on(2) by (simp add: y)
    from gated_attempts [OF this w1(1-3) decide_refund [OF a]] over w1(4)
    show ?thesis by (simp add: one_more_refund_def)
  next
    case False
    then have "w' = w1 \<and> (\<forall>rep. x = Some rep \<longrightarrow> \<not> rp_claimed rep)"
      using goes_on(2) by (auto simp: y Let_def escalated_def split: option.splits decision.splits)
    then show ?thesis using w1 over by (auto simp: one_more_refund_def)
  qed
qed

end
