(* ===== verification/Agent_Demo.thy ===== *)
theory Agent_Demo
  imports Agent
begin

text \<open>
  Concrete tickets on a concrete run: one paid order of forty, and a ticket that asks for fifteen
  back, handled over networks that lose a reply or deliver a request late.
\<close>

section \<open>The run and the ticket\<close>

definition paid_run :: run_space where
  "paid_run = demo_space PROMOTION (take 3 (settle_events 15)) (take 3 (settle_receipts 15)) [demo_user 60 0 INACTIVE 1]
     [demo_order 40 0 0 PAID 1]"

lemma paid_reached: "reached demo_digest ''run'' PROMOTION FIXED None (first_requests @ [demo_act PAY_ORDER (Some ''order-1'') [] ''k3'']) = paid_run"
  using demo_opened [of PROMOTION]
  by (simp only: reached_append foldl.simps scenario_type.simps not_False_eq_True)
    (simp add: paid_run_def eval_simps settle_events_def settle_receipts_def demo_events_def demo_receipts_def pay_order_def)

lemma paid_ok: "run_ok paid_run"
  using reached_ok paid_reached by metis

definition ascii :: unicode where
  "ascii = \<lparr>u_digit = (\<lambda>_. False), u_alnum = (\<lambda>_. True)\<rparr>"

definition demo_ticket :: ticket where
  "demo_ticket = \<lparr>tk_id = ''t'', tk_user = ''user-1'', tk_text = codes ''order-1 '' @ refund_word @ codes '' 15.00''\<rparr>"

lemma char_of_codes: "char_of (46 :: nat) = CHR ''.''" "char_of (48 :: nat) = CHR ''0''" "char_of (49 :: nat) = CHR ''1''"
    "char_of (53 :: nat) = CHR ''5''"
  by code_simp+

lemma demo_request: "parse_refund_request ascii (tk_text demo_ticket) = Some \<lparr>rq_order = codes ''order-1'', rq_amount = Some ''15.00''\<rparr>"
  by (simp add: parse_refund_request_def demo_ticket_def codes_def refund_word_def order_at_def digit_class_def
      word_class_def ascii_digit_def Let_def full_refund_markers_def amount_at_def space_class_def char_of_codes)

lemma demo_amount: "raw_decimal (JStr ''15.00'') = Some (DFin 15)"
  using parse_amount_text [of 15]
  by (simp add: amount_text_def fixed_text_def cents_of_numeral quantize_numeral padded_def string_of_nat.simps digit_chars)

definition network :: "(nat \<Rightarrow> delivery) \<Rightarrow> (nat \<Rightarrow> nat) \<Rightarrow> nat \<Rightarrow> conditions" where
  "network dl arr n = \<lparr>cn_amb = demo_amb, cn_delivery = dl n, cn_arrivals = arr n\<rparr>"

definition demo_world :: "(nat \<Rightarrow> delivery) \<Rightarrow> (nat \<Rightarrow> nat) \<Rightarrow> run_space \<Rightarrow> (string \<times> command) list \<Rightarrow> nat \<Rightarrow> world" where
  "demo_world dl arr run fl n =
     \<lparr>w_db = [''run'' \<mapsto> run], w_flight = fl, w_conditions = network dl arr, w_tick = n\<rparr>"

section \<open>A partial refund that goes through\<close>

definition refunded :: "order_row \<Rightarrow> rat \<Rightarrow> order_row" where
  "refunded d q = d\<lparr>od_refunded := od_refunded d + q, od_status := PARTIALLY_REFUNDED, od_version := od_version d + 1\<rparr>"

text \<open>What a partial refund needs: a promotion run without defects, a refundable order with room, its account.\<close>

definition refund_ready :: "run_space \<Rightarrow> order_row \<Rightarrow> rat \<Rightarrow> bool" where
  "refund_ready run d q \<longleftrightarrow> rs_scenario run = PROMOTION \<and> run_profile run = {}
     \<and> find_row od_id (od_id d) (rs_orders run) = Some d \<and> od_id d \<noteq> []
     \<and> (od_status d = PAID \<or> od_status d = PARTIALLY_REFUNDED) \<and> od_refunded d + q < od_paid d
     \<and> is_cents (od_refunded d) \<and> is_cents (od_paid d) \<and> find_row us_id (od_user d) (rs_users run) \<noteq> None"

lemma refund_goes_through:
  assumes ready: "refund_ready run d q" and money: "money_of v = Inr (q, od_currency d)" "0 < q" "q < 10 ^ 14"
    and cmd: "cmd_action cmd = REFUND_ORDER" "cmd_target cmd = Some (od_id d)" "cmd_arguments cmd = [(''amount'', v)]"
      "cmd_key cmd = Some k" "k \<noteq> []"
    and fresh: "find_receipt run REFUND_ORDER k = None"
  shows "\<exists>r run' f. transact D amb cmd run = Some (r, run') \<and> rc_status r = SUCCEEDED \<and> rc_key r = k
    \<and> rs_receipts run' = rs_receipts run @ [r] \<and> rs_refunds run' = rs_refunds run @ [f] \<and> rf_key f = k \<and> rf_amount f = q
    \<and> rs_scenario run' = rs_scenario run \<and> run_profile run' = run_profile run \<and> rs_epoch run' = rs_epoch run
    \<and> rs_orders run' = put_row od_id (refunded d q) (rs_orders run)
    \<and> (\<forall>i. find_row us_id i (rs_users run) \<noteq> None \<longrightarrow> find_row us_id i (rs_users run') \<noteq> None)"
proof -
  obtain user where user: "find_row us_id (od_user d) (rs_users run) = Some user"
    using ready by (auto simp: refund_ready_def)
  have cents: "is_cents q" using money_of_InrD [OF money(1)] by simp
  have valid: "money_valid \<lparr>m_currency = od_currency d, m_amount = q, m_scale = 2\<rparr>"
  proof -
    obtain c where "q = of_int c / 100" using cents by (auto simp: is_cents_iff)
    then have "q * 10 ^ 4 = of_int (c * 100)" by simp
    then have "q * 10 ^ 4 = of_int \<lfloor>q * 10 ^ 4\<rfloor>" by (simp only: floor_of_int)
    then show ?thesis using money(2,3) by (simp only: money_valid_def money.select_convs) simp
  qed
  have cents': "is_cents (od_refunded d + q)" "is_cents (od_paid d - od_refunded d)"
    using cents ready by (auto simp: refund_ready_def)
  let ?c = "od_currency d"
  have pos: "\<not> q \<le> 0" using money(2) by simp
  have t: "od_refunded d + q < od_paid d" using ready by (simp add: refund_ready_def)
  have "\<exists>result run1 f. refund_order amb cmd k run = Inr ((result, [\<lparr>m_currency = ?c, m_amount = q, m_scale = 2\<rparr>]), run1)
      \<and> rs_refunds run1 = rs_refunds run @ [f] \<and> rf_key f = k \<and> rf_amount f = q \<and> rs_scenario run1 = rs_scenario run
      \<and> run_profile run1 = run_profile run \<and> rs_epoch run1 = rs_epoch run \<and> rs_receipts run1 = rs_receipts run
      \<and> rs_orders run1 = put_row od_id (refunded d q) (rs_orders run)
      \<and> rs_users run1 = put_row us_id (user\<lparr>us_balance := quantize (us_balance user + q),
          us_version := us_version user + 1\<rparr>) (rs_users run)"
    using ready user t cents' cents pos
    by (auto simp: refund_ready_def require_def refund_order_def cmd check_args_def arg_def require_target_def fetch_defs money valid
        refund_limit_def refund_points_def refund_coupon_def make_money_def put_defs refunded_def run_profile_def Let_def)
  moreover have "effective_key amb cmd = k" using cmd by (simp add: effective_key_def)
  moreover have "cmd_action cmd \<in> scenario_actions (rs_scenario run)" using ready cmd by (simp add: refund_ready_def)
  ultimately show ?thesis
    using fresh cmd(1)
    by (auto simp: transact_def dispatch_def add_receipt_def make_receipt_def run_profile_def find_row_put Let_def)
qed

section \<open>Exchanges on a working network\<close>

lemma next_world_quiet: "cn_arrivals (current w) = 0 \<Longrightarrow> next_world D w = w\<lparr>w_tick := Suc (w_tick w)\<rparr>"
  by (simp add: next_world_def arrivals_def)

definition works :: "world \<Rightarrow> bool" where
  "works w \<longleftrightarrow> cn_arrivals (current w) = 0 \<and> cn_delivery (current w) = Deliver"

lemma send_get_works:
  "works w \<Longrightarrow> send_get D answer w = (answer (cn_amb (current w)) (w_db w), w\<lparr>w_tick := Suc (w_tick w)\<rparr>)"
  by (simp add: works_def send_get_def next_world_quiet)

lemma gate_snapshot_works:
  assumes "works w" "w_db w i = Some run"
  shows "gate_snapshot D i w = (Some (Some (snapshot D (cn_amb (current w)) run)), w\<lparr>w_tick := Suc (w_tick w)\<rparr>)"
  using assms by (simp add: gate_snapshot_def lift_reply_def send_get_works http_snapshot_def get_snapshot_def
      fetch_run_def snapshot_fields)

lemma snapshot_or_none_works:
  assumes "works w" "w_db w i = Some run"
  shows "snapshot_or_none D i w = (Some (Some (snapshot D (cn_amb (current w)) run)), w\<lparr>w_tick := Suc (w_tick w)\<rparr>)"
  using assms by (simp add: snapshot_or_none_def inspect_run_def chain_def lift_reply_def send_get_works http_snapshot_def
      get_snapshot_def fetch_run_def snapshot_fields give_def)

lemma retry_check_miss:
  assumes "works w" "w_db w i = Some run" "lookup_receipt run k = None"
  shows "retry_check D i k w = (Some (decided Allow RETRY_SAFE), w\<lparr>w_tick := Suc (w_tick w)\<rparr>)"
  using assms by (simp add: retry_check_def lift_reply_def send_get_works http_receipt_def get_receipt_def fetch_run_def
      domain_http_error_def domain_status_def)

lemma pre_check_allows:
  assumes "works w" "w_db w i = Some run" "run_ok run" "refund_ready run d q" "sa_action a = REFUND_ORDER"
    "sa_target a = Some (od_id d)" "gate_money (argument a ''amount'') = Some (Some q)"
  shows "pre_check D i a w = (Some (decided Allow WITHIN_REFUND_BUDGET), w\<lparr>w_tick := Suc (w_tick w)\<rparr>)"
  using assms
  by (auto simp: pre_check_def or_raise_def chain_def give_def gate_snapshot_works budget_decision_snapshot refund_ready_def)

lemma gate_guard_steps:
  "g_retry (gate_guard D i) k w = chain (retry_check D i k) (\<lambda>d. give (gate_answer d)) w"
  "g_pre (gate_guard D i) a w = chain (pre_check D i a) (\<lambda>d. give (gate_answer d)) w"
  by (simp_all add: gate_guard_def answering_def)

text \<open>A guarded refund whose lookup, budget check and snapshot pass comes down to its post.\<close>

lemma guarded_refund_posts:
  assumes net: "works w" "works (w\<lparr>w_tick := Suc (w_tick w)\<rparr>)" "works (w\<lparr>w_tick := Suc (Suc (w_tick w))\<rparr>)"
    and run: "w_db w i = Some run" "run_ok run" "refund_ready run d q" "lookup_receipt run k = None"
    and a: "sa_action a = REFUND_ORDER" "sa_target a = Some (od_id d)" "sa_key a = Some k" "k \<noteq> []"
      "gate_money (argument a ''amount'') = Some (Some q)"
  shows "\<exists>s t. gateway_dispatch D i (Some (gate_guard D i)) a w
    = write_and_confirm D i (gate_guard D i) a k s t (w\<lparr>w_tick := Suc (Suc (Suc (w_tick w)))\<rparr>)"
  using assms retry_check_miss [OF net(1) run(1,4), of D]
    pre_check_allows [of "w\<lparr>w_tick := Suc (w_tick w)\<rparr>" i run d q a D]
    snapshot_or_none_works [of "w\<lparr>w_tick := Suc (Suc (w_tick w))\<rparr>" i run D]
  by (simp add: gateway_dispatch_def guarded_dispatch_def chain_def gate_guard_steps give_def gate_verdict_read
      decided_def refusal_def Let_def) (rule exI, rule exI, rule refl)


lemma ready_again:
  assumes "refund_ready run d q" and "is_cents q" and "od_refunded d + 2 * q < od_paid d"
    and "rs_scenario run' = rs_scenario run" "run_profile run' = run_profile run"
    and "rs_orders run' = put_row od_id (refunded d q) (rs_orders run)"
    and "\<forall>i. find_row us_id i (rs_users run) \<noteq> None \<longrightarrow> find_row us_id i (rs_users run') \<noteq> None"
  shows "refund_ready run' (refunded d q) q"
  using assms by (auto simp: refund_ready_def refunded_def find_row_put)

section \<open>Reading and deciding\<close>

lemma codes_inject [simp]: "codes s = codes t \<longleftrightarrow> s = t"
  by (simp add: codes_def inj_map_eq_map inj_on_def)

lemma length_codes [simp]: "length (codes s) = length s"
  by (simp add: codes_def)

lemma find_codes: "find (\<lambda>(i, d). i = j) orders = map_option (Pair j) (map_of orders j)"
  by (induction orders) auto

lemma decide_snapshot:
  assumes "run_ok run" and "find_row od_id i (rs_orders run) = Some d" and "od_status d \<in> {PAID, PARTIALLY_REFUNDED}"
    and "parse_refund_request u (tk_text t) = Some \<lparr>rq_order = codes i, rq_amount = Some m\<rparr>"
    and "raw_decimal (JStr m) = Some (DFin x)" and "length i + length m \<le> 489"
  shows "decide u t (snapshot D amb run) = Some (Act_on \<lparr>sa_action = REFUND_ORDER, sa_actor = ''user-1'',
     sa_target = Some i, sa_arguments = [(''amount'', JStr m)], sa_key = None\<rparr>)"
proof -
  have same: "agent_orders s = snapshot_orders s" for s
    by (simp add: agent_orders_def snapshot_orders_def keyed_orders_def Let_def split: json.split)
  obtain orders where "snapshot_orders (snapshot D amb run) = Some orders"
    "map_of orders i = Some (order_json d)"
    using snapshot_orders_lookup [OF run_ok_orders(1) [OF assms(1)]] assms(2) by fastforce
  then show ?thesis
    using assms(3-6)
    by (auto simp: decide_def same find_codes order_json_fields hashable_def refundable_states_def agent_decimal_def
        Let_def)
qed

lemma inspect_goes_through:
  assumes "find_receipt run INSPECT_STATE (''inspect:'' @ amb_inspect amb) = None"
  shows "\<exists>r. transact D amb (to_command inspect_action) run = Some (r, add_receipt r run) \<and> rc_status r = SUCCEEDED
    \<and> rc_key r = ''inspect:'' @ amb_inspect amb \<and> rc_result r = JObj [(''scope'', JStr ''RUN''), (''snapshot'', snapshot D amb run)]"
  using assms
  by (simp add: transact_def inspect_action_def build_action_def to_command_def effective_key_def dispatch_def
      inspect_state_def check_args_def make_receipt_def Let_def)

lemma inspect_works:
  assumes "works w" "w_db w i = Some run" "find_receipt run INSPECT_STATE (''inspect:'' @ amb_inspect (cn_amb (current w))) = None"
  shows "\<exists>r res rec. gateway_call D i guard inspect_action w = (Some (res, rec),
      w\<lparr>w_db := (w_db w)(i \<mapsto> add_receipt r run), w_tick := Suc (w_tick w)\<rparr>)
    \<and> rc_key r = ''inspect:'' @ amb_inspect (cn_amb (current w)) \<and> (run_ok run \<longrightarrow> run_ok (add_receipt r run))
    \<and> received_snapshot res = Some (snapshot D (cn_amb (current w)) run)"
proof -
  let ?amb = "cn_amb (current w)"
  obtain r where r: "transact D ?amb (to_command inspect_action) run = Some (r, add_receipt r run)"
    "rc_status r = SUCCEEDED" "rc_key r = ''inspect:'' @ amb_inspect ?amb"
    "rc_result r = JObj [(''scope'', JStr ''RUN''), (''snapshot'', snapshot D ?amb run)]"
    using inspect_goes_through [OF assms(3)] by blast
  have cmd: "cmd_action (to_command inspect_action) = INSPECT_STATE" "valid_command (to_command inspect_action)"
    "\<not> key_missing (to_command inspect_action)" "sa_action inspect_action = INSPECT_STATE"
    by (simp_all add: inspect_action_def build_action_def to_command_def valid_command_def key_missing_def)
  then have post: "send_post D i (to_command inspect_action) w =
      (Reply 200 (receipt_json i r), w\<lparr>w_db := (w_db w)(i \<mapsto> add_receipt r run), w_tick := Suc (w_tick w)\<rparr>)"
    using assms(1,2) r(1)
    by (simp add: send_post_def works_def next_world_quiet execute_action_def execute_def loses_ack_def)
  have "received_snapshot (from_receipt (receipt_json i r) inspect_action) = Some (snapshot D ?amb run)"
    using r by (simp add: received_snapshot_def succeeded_def from_receipt_def receipt_json_def snapshot_fields Let_def)
  then show ?thesis
    using r(3) transact_ok [OF r(1)] by (cases guard) (auto simp: gateway_call_def keyless_def gateway_dispatch_def cmd chain_def send_action_def lift_reply_def post give_def)
qed


section \<open>Two refunds for one ticket\<close>

text \<open>
  A ticket that asks a part of what an order was paid, twice of which still fits, on a run that has
  not seen its keys.
\<close>

definition repeatable :: "unicode \<Rightarrow> ticket \<Rightarrow> run_space \<Rightarrow> order_row \<Rightarrow> rat \<Rightarrow> string \<Rightarrow> bool" where
  "repeatable u t run d q m \<longleftrightarrow> refund_ready run d q \<and> od_refunded d + 2 * q < od_paid d
     \<and> parse_refund_request u (tk_text t) = Some \<lparr>rq_order = codes (od_id d), rq_amount = Some m\<rparr>
     \<and> money_of (JStr m) = Inr (q, od_currency d) \<and> raw_decimal (JStr m) = Some (DFin q) \<and> 0 < q \<and> q < 10 ^ 14
     \<and> length (od_id d) \<le> 128 \<and> length m \<le> 128 \<and> length (tk_id t) \<le> 128
     \<and> (\<forall>r \<in> set (rs_receipts run). \<not> starts_with ''inspect:'' (rc_key r) \<and> (\<forall>n. rc_key r \<noteq> refund_key t n))
     \<and> \<not> starts_with ''inspect:'' (tk_id t @ '':'')"

definition asked :: "ticket \<Rightarrow> order_row \<Rightarrow> string \<Rightarrow> nat \<Rightarrow> sim_action" where
  "asked t d m n = \<lparr>sa_action = REFUND_ORDER, sa_actor = ''user-1'', sa_target = Some (od_id d),
     sa_arguments = [(''amount'', JStr m)], sa_key = Some (refund_key t n)\<rparr>"

lemma asked_fields:
  "sa_action (asked t d m n) = REFUND_ORDER" "sa_target (asked t d m n) = Some (od_id d)"
  "sa_key (asked t d m n) = Some (refund_key t n)" "argument (asked t d m n) ''amount'' = JStr m"
  "cmd_action (to_command (asked t d m n)) = REFUND_ORDER" "cmd_target (to_command (asked t d m n)) = Some (od_id d)"
  "cmd_arguments (to_command (asked t d m n)) = [(''amount'', JStr m)]"
  "cmd_key (to_command (asked t d m n)) = Some (refund_key t n)"
  by (simp_all add: asked_def argument_def to_command_def)

lemma asked_valid:
  assumes "repeatable u t run d q m" "n < 10"
  shows "valid_command (to_command (asked t d m n)) \<and> \<not> key_missing (to_command (asked t d m n))"
  using assms
  by (simp add: repeatable_def valid_command_def asked_def to_command_def key_missing_def refund_key_def
      string_of_nat_less_10)

lemma asked_money:
  assumes "repeatable u t run d q m"
  shows "gate_money (argument (asked t d m n) ''amount'') = Some (Some q)"
proof -
  have "is_cents q" "raw_decimal (JStr m) = Some (DFin q)" "0 < q" "q < 10 ^ 14"
    using assms money_of_InrD by (auto simp: repeatable_def)
  moreover have "quantize_checked q = Some q"
    using assms by (auto simp: repeatable_def money_of_def raw_amount_def Let_def split: option.splits if_splits)
  ultimately show ?thesis by (simp add: asked_fields gate_money_def Let_def)
qed

text \<open>One of the ticket's refunds is served and commits.\<close>

lemma asked_served:
  assumes rep: "repeatable u t run d q m" and n: "n < 10"
    and ready: "refund_ready run' d' q" "od_id d' = od_id d" "od_currency d' = od_currency d"
    and fresh: "\<forall>r \<in> set (rs_receipts run'). rc_key r \<noteq> refund_key t n" and db: "db i = Some run'" "run_ok run'"
  shows "\<exists>r run2 f. execute_action D amb i (to_command (asked t d m n)) db = (Reply 200 (receipt_json i r), db(i \<mapsto> run2))
    \<and> rc_status r = SUCCEEDED \<and> rc_key r = refund_key t n \<and> run_ok run2
    \<and> rs_receipts run2 = rs_receipts run' @ [r] \<and> rs_refunds run2 = rs_refunds run' @ [f]
    \<and> rf_key f = refund_key t n \<and> rf_amount f = q
    \<and> (od_refunded d' + 2 * q < od_paid d' \<longrightarrow> refund_ready run2 (refunded d' q) q)"
proof -
  have m: "money_of (JStr m) = Inr (q, od_currency d')" "0 < q" "q < 10 ^ 14" "is_cents q"
    using rep ready(3) money_of_InrD by (auto simp: repeatable_def)
  have "find_receipt run' REFUND_ORDER (refund_key t n) = None" using fresh by (auto simp: find_receipt_None)
  then obtain r run2 f where t: "transact D amb (to_command (asked t d m n)) run' = Some (r, run2)"
    and x: "rc_status r = SUCCEEDED" "rc_key r = refund_key t n" "rs_receipts run2 = rs_receipts run' @ [r]"
      "rs_refunds run2 = rs_refunds run' @ [f]" "rf_key f = refund_key t n" "rf_amount f = q"
    and y: "rs_scenario run2 = rs_scenario run'" "run_profile run2 = run_profile run'"
      "rs_orders run2 = put_row od_id (refunded d' q) (rs_orders run')"
      "\<forall>i. find_row us_id i (rs_users run') \<noteq> None \<longrightarrow> find_row us_id i (rs_users run2) \<noteq> None"
    using refund_goes_through [OF ready(1) m(1-3), of "to_command (asked t d m n)" "refund_key t n" D amb] ready(2)
    by (auto simp: asked_fields)
  have "\<not> loses_ack (to_command (asked t d m n)) run2"
    using ready(1) y(2) by (simp add: loses_ack_def refund_ready_def)
  then have "execute_action D amb i (to_command (asked t d m n)) db = (Reply 200 (receipt_json i r), db(i \<mapsto> run2))"
    using t asked_valid [OF rep n] db(1) by (simp add: execute_action_def execute_def)
  moreover have "run_ok run2" using transact_ok [OF t db(2)] .
  moreover have "od_refunded d' + 2 * q < od_paid d' \<Longrightarrow> refund_ready run2 (refunded d' q) q"
    using ready_again [OF ready(1) m(4) _ y] .
  ultimately show ?thesis using x by blast
qed


lemma bare_call:
  assumes "sa_action a \<noteq> INSPECT_STATE" "sa_key a = Some k" "k \<noteq> []" "send_post D i (to_command a) w = (r, w')"
  shows "\<exists>rec. gateway_call D i None a w = (Some (interpret_reply r a, rec), w')"
  using assms by (simp add: gateway_call_def keyless_def gateway_dispatch_def chain_def send_action_def lift_reply_def give_def)

lemma receipt_reply_succeeds:
  "rc_status r = SUCCEEDED \<Longrightarrow> tr_outcome (interpret_reply (Reply 200 (receipt_json i r)) a) = Tool_Succeeded"
  by (simp add: from_receipt_outcome)

text \<open>The state after the agent has read the run: its receipt added, the decision to refund taken.\<close>

lemma repeatable_read:
  assumes rep: "repeatable u t run d q m" and "run_ok run" and "works w" "w_db w i = Some run"
  shows "\<exists>r res rec. gateway_call D i guard inspect_action w = (Some (res, rec),
      w\<lparr>w_db := (w_db w)(i \<mapsto> add_receipt r run), w_tick := Suc (w_tick w)\<rparr>)
    \<and> run_ok (add_receipt r run) \<and> (\<forall>n. rc_key r \<noteq> refund_key t n)
    \<and> (\<exists>snap. received_snapshot res = Some snap
        \<and> decide u t snap = Some (Act_on (asked t d m 0\<lparr>sa_key := None\<rparr>)))"
proof -
  have "find_receipt run INSPECT_STATE (''inspect:'' @ amb_inspect (cn_amb (current w))) = None"
    using rep by (auto simp: repeatable_def find_receipt_None starts_with_def)
  then obtain r res rec where r: "gateway_call D i guard inspect_action w = (Some (res, rec),
      w\<lparr>w_db := (w_db w)(i \<mapsto> add_receipt r run), w_tick := Suc (w_tick w)\<rparr>)"
    "rc_key r = ''inspect:'' @ amb_inspect (cn_amb (current w))" "run_ok (add_receipt r run)"
    "received_snapshot res = Some (snapshot D (cn_amb (current w)) run)"
    using inspect_works [OF assms(3,4)] assms(2) by blast
  have "rc_key r \<noteq> refund_key t n" for n
  proof
    assume "rc_key r = refund_key t n"
    then have eq: "''inspect:'' @ amb_inspect (cn_amb (current w)) = (tk_id t @ '':'') @ ''refund:'' @ string_of_nat n"
      using r(2) by (simp add: refund_key_def)
    show False
    proof (cases "length (tk_id t @ '':'') \<ge> 8")
      case True
      then have "take 8 ((tk_id t @ '':'') @ ''refund:'' @ string_of_nat n) = take 8 (tk_id t @ '':'')"
        by (subst take_append, subst diff_is_0_eq [THEN iffD2, OF True], simp only: take_0 append_Nil2)
      moreover have "take 8 (''inspect:'' @ amb_inspect (cn_amb (current w))) = ''inspect:''" by simp
      ultimately have "take 8 (tk_id t @ '':'') = ''inspect:''" using arg_cong [OF eq, of "take 8"] by (simp only:)
      moreover have "length ''inspect:'' = 8" by simp
      ultimately have "starts_with ''inspect:'' (tk_id t @ '':'')" by (simp only: starts_with_def)
      then show False using rep by (simp only: repeatable_def simp_thms)
    next
      case False
      have at: "(''inspect:'' @ amb_inspect (cn_amb (current w))) ! length (tk_id t) = CHR '':''"
        unfolding eq by (simp add: nth_append)
      from False have "length (tk_id t) < 7" by simp
      then have "length (tk_id t) = 0 \<or> length (tk_id t) = 1 \<or> length (tk_id t) = 2 \<or> length (tk_id t) = 3
          \<or> length (tk_id t) = 4 \<or> length (tk_id t) = 5 \<or> length (tk_id t) = 6" by arith
      then show False by (elim disjE) (use at in simp_all)
    qed
  qed
  moreover have "decide u t (snapshot D (cn_amb (current w)) run) = Some (Act_on (asked t d m 0\<lparr>sa_key := None\<rparr>))"
    using decide_snapshot [OF assms(2), of "od_id d" d u t m q D "cn_amb (current w)"] rep
    by (auto simp: repeatable_def refund_ready_def asked_def)
  ultimately show ?thesis using r by blast
qed

lemma bare_agent_twice:
  assumes rep: "repeatable u t run d q m" and ok: "run_ok run" and w: "w_db w i = Some run" "w_tick w = 0"
    and net: "\<And>n. cn_delivery (w_conditions w n) = (if n = 1 then Lost_reply Silence else Deliver)"
      "\<And>n. cn_arrivals (w_conditions w n) = 0"
  shows "\<exists>x w' run' f1 f2. handle u D i None 2 t w = (Some x, w') \<and> rp_claimed x \<and> w_db w' i = Some run'
    \<and> rs_refunds run' = rs_refunds run @ [f1, f2] \<and> map rf_amount [f1, f2] = [q, q]"
proof -
  have ready: "refund_ready run d q" "od_refunded d + 2 * q < od_paid d"
    and keys: "\<forall>r \<in> set (rs_receipts run). \<forall>n. rc_key r \<noteq> refund_key t n"
    using rep by (simp_all add: repeatable_def)
  have "works w" using w net by (simp add: works_def current_def)
  then obtain r res rec snap where r: "gateway_call D i None inspect_action w = (Some (res, rec),
      w\<lparr>w_db := (w_db w)(i \<mapsto> add_receipt r run), w_tick := 1\<rparr>)" "run_ok (add_receipt r run)"
    "\<forall>n. rc_key r \<noteq> refund_key t n" "received_snapshot res = Some snap"
    "decide u t snap = Some (Act_on (asked t d m 0\<lparr>sa_key := None\<rparr>))"
    using repeatable_read [OF rep ok _ w(1)] w(2) by fastforce
  let ?run1 = "add_receipt r run" and ?w1 = "w\<lparr>w_db := (w_db w)(i \<mapsto> add_receipt r run), w_tick := 1\<rparr>"
  have ready1: "refund_ready ?run1 d q" using ready(1) by (simp add: refund_ready_def add_receipt_def run_profile_def)
  have fresh1: "\<forall>x \<in> set (rs_receipts ?run1). rc_key x \<noteq> refund_key t 1" using keys r(3) by (simp add: add_receipt_def)
  obtain r1 run2 f1 where s1: "execute_action D (cn_amb (current ?w1)) i (to_command (asked t d m 1)) (w_db ?w1)
      = (Reply 200 (receipt_json i r1), (w_db ?w1)(i \<mapsto> run2))" "rc_key r1 = refund_key t 1" "run_ok run2"
    "rs_receipts run2 = rs_receipts ?run1 @ [r1]" "rs_refunds run2 = rs_refunds ?run1 @ [f1]" "rf_amount f1 = q"
    "refund_ready run2 (refunded d q) q"
    using asked_served [OF rep _ ready1 refl refl fresh1 _ r(2), of "w_db ?w1" i D "cn_amb (current ?w1)"] ready(2) by auto
  let ?w2 = "?w1\<lparr>w_db := (w_db ?w1)(i \<mapsto> run2), w_tick := 2\<rparr>"
  have p1: "send_post D i (to_command (asked t d m 1)) ?w1 = (Silent, ?w2)"
    using s1(1) net by (simp add: send_post_def current_def next_world_quiet numeral_2_eq_2)
  have fresh2: "\<forall>x \<in> set (rs_receipts run2). rc_key x \<noteq> refund_key t 2"
    using keys r(3) s1(2,4) by (auto simp: add_receipt_def refund_key_def)
  obtain r2 run3 f2 where s2: "execute_action D (cn_amb (current ?w2)) i (to_command (asked t d m 2)) (w_db ?w2)
      = (Reply 200 (receipt_json i r2), (w_db ?w2)(i \<mapsto> run3))" "rc_status r2 = SUCCEEDED"
    "rs_refunds run3 = rs_refunds run2 @ [f2]" "rf_amount f2 = q"
    using asked_served [OF rep _ s1(7) _ _ fresh2 _ s1(3), of "w_db ?w2" i D "cn_amb (current ?w2)"]
    by (auto simp: refunded_def)
  let ?w3 = "?w2\<lparr>w_db := (w_db ?w2)(i \<mapsto> run3), w_tick := 3\<rparr>"
  have p2: "send_post D i (to_command (asked t d m 2)) ?w2 = (Reply 200 (receipt_json i r2), ?w3)"
    using s2(1) net by (simp add: send_post_def current_def next_world_quiet numeral_2_eq_2 numeral_3_eq_3)
  obtain rec1 rec2 where c: "gateway_call D i None (asked t d m 1) ?w1 = (Some (interpret_reply Silent (asked t d m 1), rec1), ?w2)"
    "gateway_call D i None (asked t d m 2) ?w2
      = (Some (interpret_reply (Reply 200 (receipt_json i r2)) (asked t d m 2), rec2), ?w3)"
    using bare_call [OF _ _ _ p1] bare_call [OF _ _ _ p2] by (auto simp: asked_fields)
  have keyed: "asked t d m 0\<lparr>sa_key := Some (refund_key t n)\<rparr> = asked t d m n" for n by (simp add: asked_def)
  have "\<exists>x. handle u D i None 2 t w = (Some x, ?w3) \<and> rp_claimed x"
    using r c receipt_reply_succeeds [OF s2(2), of i "asked t d m 2"]
    by (simp add: handle_def chain_def Let_def keyed numeral_2_eq_2 succeeded_def retryable_def del: interpret_reply.simps(1))
  then show ?thesis using s1 s2 by (auto simp: add_receipt_def)
qed


lemma gated_call_dispatch:
  assumes "sa_action a = REFUND_ORDER" "sa_key a = Some k" "k \<noteq> []"
    "gateway_dispatch D i (Some g) a w = (Some (res, tr), w')"
  shows "\<exists>rec. gateway_call D i (Some g) a w = (Some (res, rec), w')"
  using assms by (simp add: gateway_call_def keyless_def chain_def give_def)

text \<open>A guarded refund that stays in flight is looked up, not found, and reported as a timeout.\<close>

lemma late_write:
  assumes "cn_arrivals (current w) = 0" "cn_delivery (current w) = Late Silence"
    and nxt: "works (w\<lparr>w_tick := Suc (w_tick w)\<rparr>)" and run: "w_db w i = Some run" "lookup_receipt run k = None"
  shows "\<exists>tr. write_and_confirm D i (gate_guard D i) a k s t w = (Some (tool_result_of a Tool_Timeout ''TIMEOUT'', tr),
    w\<lparr>w_flight := w_flight w @ [(i, to_command a)], w_tick := Suc (Suc (w_tick w))\<rparr>)"
proof -
  let ?w1 = "w\<lparr>w_flight := w_flight w @ [(i, to_command a)], w_tick := Suc (w_tick w)\<rparr>"
  have "send_action D i a w = (Some (tool_result_of a Tool_Timeout ''TIMEOUT''), ?w1)"
    using assms(1,2) by (simp add: send_action_def lift_reply_def send_post_def next_world_quiet Let_def split: prod.splits)
  moreover have "works ?w1" using nxt by (simp add: works_def current_def)
  then have "retry_check D i k ?w1 = (Some (decided Allow RETRY_SAFE), ?w1\<lparr>w_tick := Suc (Suc (w_tick w))\<rparr>)"
    using retry_check_miss [of ?w1 i run k D] run by simp
  ultimately show ?thesis
    by (simp add: write_and_confirm_def chain_def recover_def gate_guard_steps give_def gate_verdict_read decided_def
        succeeded_def Let_def)
qed

text \<open>Confirming on a working network leaves the database as it is.\<close>

lemma confirm_works:
  assumes "works w" "works (w\<lparr>w_tick := Suc (w_tick w)\<rparr>)" "w_db w i = Some run"
  shows "\<exists>res tr. confirm D i (gate_guard D i) a before result t w = (Some (res, tr), w\<lparr>w_tick := Suc (Suc (w_tick w))\<rparr>)
    \<and> (succeeded res \<or> \<not> retryable res \<or> res = result)"
proof -
  let ?w1 = "w\<lparr>w_tick := Suc (w_tick w)\<rparr>"
  obtain s1 s2 where "snapshot_or_none D i w = (Some (Some s1), ?w1)"
    "gate_snapshot D i ?w1 = (Some (Some s2), ?w1\<lparr>w_tick := Suc (Suc (w_tick w))\<rparr>)"
    using snapshot_or_none_works [OF assms(1,3)] gate_snapshot_works [OF assms(2), of i run D] assms(3) by simp
  then show ?thesis
    by (simp add: confirm_def chain_def gate_guard_def answering_def post_check_def give_def gate_verdict_read
        unknown_result_def tool_result_of_def retryable_def Let_def)
qed

lemma gated_agent_twice_when_late:
  assumes rep: "repeatable u t run d q m" and ok: "run_ok run"
    and w: "w_db w i = Some run" "w_tick w = 0" "w_flight w = []"
    and net: "\<And>n. cn_delivery (w_conditions w n) = (if n = 4 then Late Silence else Deliver)"
      "\<And>n. cn_arrivals (w_conditions w n) = (if n = 9 then 1 else 0)"
  shows "\<exists>x w' run' f1 f2. handle u D i (Some (gate_guard D i)) 2 t w = (Some x, w') \<and> w_db w' i = Some run'
    \<and> rs_refunds run' = rs_refunds run @ [f1, f2] \<and> map rf_amount [f1, f2] = [q, q]"
proof -
  have ready: "refund_ready run d q" "od_refunded d + 2 * q < od_paid d"
    and keys: "\<forall>r \<in> set (rs_receipts run). \<forall>n. rc_key r \<noteq> refund_key t n"
    using rep by (simp_all add: repeatable_def)
  let ?at = "\<lambda>run fl n. w\<lparr>w_db := (w_db w)(i \<mapsto> run), w_flight := fl, w_tick := n\<rparr>"
  have works: "works (?at r fl n)" if "n \<noteq> 4" "n \<noteq> 9" for r fl n
    using that net by (simp add: works_def current_def)
  have "works w" using w net by (simp add: works_def current_def)
  then obtain r res rec snap where r: "gateway_call D i (Some (gate_guard D i)) inspect_action w
      = (Some (res, rec), w\<lparr>w_db := (w_db w)(i \<mapsto> add_receipt r run), w_tick := 1\<rparr>)" "run_ok (add_receipt r run)"
    "\<forall>n. rc_key r \<noteq> refund_key t n" "received_snapshot res = Some snap"
    "decide u t snap = Some (Act_on (asked t d m 0\<lparr>sa_key := None\<rparr>))"
    using repeatable_read [OF rep ok _ w(1)] w(2) by fastforce
  have fl: "w\<lparr>w_db := db, w_tick := n\<rparr> = w\<lparr>w_db := db, w_flight := [], w_tick := n\<rparr>" for db n
    using w(3) by (cases w) simp
  let ?run1 = "add_receipt r run" and ?a1 = "asked t d m 1" and ?a2 = "asked t d m 2"
  have ready1: "refund_ready ?run1 d q" using ready(1) by (simp add: refund_ready_def add_receipt_def run_profile_def)
  have fresh: "\<forall>x \<in> set (rs_receipts ?run1). rc_key x \<noteq> refund_key t n" for n
    using keys r(3) by (simp add: add_receipt_def)
  then have miss: "lookup_receipt ?run1 (refund_key t n) = None" for n by (simp add: lookup_receipt_None)
  obtain s t1 where d1: "gateway_dispatch D i (Some (gate_guard D i)) ?a1 (?at ?run1 [] 1)
      = write_and_confirm D i (gate_guard D i) ?a1 (refund_key t 1) s t1 (?at ?run1 [] 4)"
    using guarded_refund_posts [of "?at ?run1 [] 1" i ?run1 d q "refund_key t 1" ?a1 D] works r(2) ready1 miss
      asked_money [OF rep, of 1] by (auto simp: asked_fields eval_nat_numeral)
  let ?fl = "[(i, to_command ?a1)]"
  obtain tr1 where e1: "write_and_confirm D i (gate_guard D i) ?a1 (refund_key t 1) s t1 (?at ?run1 [] 4)
      = (Some (tool_result_of ?a1 Tool_Timeout ''TIMEOUT'', tr1), ?at ?run1 ?fl 6)"
    using late_write [of "?at ?run1 [] 4" i ?run1 "refund_key t 1" D ?a1 s t1] works [of 5 "[]" ?run1] net miss
    by (auto simp: current_def eval_nat_numeral)
  obtain rec1 where c1: "gateway_call D i (Some (gate_guard D i)) ?a1 (?at ?run1 [] 1)
      = (Some (tool_result_of ?a1 Tool_Timeout ''TIMEOUT'', rec1), ?at ?run1 ?fl 6)"
    using gated_call_dispatch [OF _ _ _ trans [OF d1 e1]] by (auto simp: asked_fields)
  obtain s' t2 where d2: "gateway_dispatch D i (Some (gate_guard D i)) ?a2 (?at ?run1 ?fl 6)
      = write_and_confirm D i (gate_guard D i) ?a2 (refund_key t 2) s' t2 (?at ?run1 ?fl 9)"
    using guarded_refund_posts [of "?at ?run1 ?fl 6" i ?run1 d q "refund_key t 2" ?a2 D] works r(2) ready1 miss
      asked_money [OF rep, of 2] by (auto simp: asked_fields eval_nat_numeral)
  let ?w9 = "?at ?run1 ?fl 9"
  obtain r1 run2 f1 where s1: "execute_action D (cn_amb (current ?w9)) i (to_command ?a1) (w_db ?w9)
      = (Reply 200 (receipt_json i r1), (w_db ?w9)(i \<mapsto> run2))" "rc_key r1 = refund_key t 1" "run_ok run2"
    "rs_receipts run2 = rs_receipts ?run1 @ [r1]" "rs_refunds run2 = rs_refunds ?run1 @ [f1]" "rf_amount f1 = q"
    "refund_ready run2 (refunded d q) q"
    using asked_served [OF rep _ ready1 refl refl fresh _ r(2), of 1 "w_db ?w9" i D "cn_amb (current ?w9)"] ready(2) by auto
  have fresh2: "\<forall>x \<in> set (rs_receipts run2). rc_key x \<noteq> refund_key t 2"
    using fresh [of 2] s1(2,4) by (auto simp: refund_key_def)
  obtain r2 run3 f2 where s2: "execute_action D (cn_amb (current ?w9)) i (to_command ?a2) ((w_db ?w9)(i \<mapsto> run2))
      = (Reply 200 (receipt_json i r2), (w_db ?w9)(i \<mapsto> run3))" "rc_status r2 = SUCCEEDED"
    "rs_refunds run3 = rs_refunds run2 @ [f2]" "rf_amount f2 = q"
    using asked_served [OF rep _ s1(7) _ _ fresh2 _ s1(3), of "(w_db ?w9)(i \<mapsto> run2)" i D "cn_amb (current ?w9)"]
    by (auto simp: refunded_def)
  have "send_post D i (to_command ?a2) ?w9 = (Reply 200 (receipt_json i r2), ?at run3 [] 10)"
    using s1(1) s2(1) net by (simp add: send_post_def next_world_def arrivals_def current_def Let_def)
  then have send: "send_action D i ?a2 ?w9 = (Some (from_receipt (receipt_json i r2) ?a2), ?at run3 [] 10)"
    by (simp add: send_action_def lift_reply_def)
  have ok2: "tr_outcome (from_receipt (receipt_json i r2) ?a2) = Tool_Succeeded" using s2(2) by (simp add: from_receipt_outcome)
  obtain res2 tr2 where "write_and_confirm D i (gate_guard D i) ?a2 (refund_key t 2) s' t2 ?w9 = (Some (res2, tr2), ?at run3 [] 12)"
    "succeeded res2 \<or> \<not> retryable res2"
    using confirm_works [of "?at run3 [] 10" i run3 D ?a2 s' "from_receipt (receipt_json i r2) ?a2" t2] works ok2 send
    by (auto simp: write_and_confirm_def chain_def give_def succeeded_def retryable_def eval_nat_numeral)
  then obtain rec2 where c2: "gateway_call D i (Some (gate_guard D i)) ?a2 (?at ?run1 ?fl 6)
      = (Some (res2, rec2), ?at run3 [] 12)" "succeeded res2 \<or> \<not> retryable res2"
    using gated_call_dispatch [of ?a2 _ D i "gate_guard D i"] d2 by (fastforce simp: asked_fields)
  have keyed: "asked t d m 0\<lparr>sa_key := Some (refund_key t n)\<rparr> = asked t d m n" for n by (simp add: asked_def)
  have "\<exists>x. handle u D i (Some (gate_guard D i)) 2 t w = (Some x, ?at run3 [] 12)"
    using r(1,4,5) c1 c2
    by (cases "succeeded res2") (simp_all add: handle_def chain_def Let_def keyed fl numeral_2_eq_2 succeeded_def retryable_def give_def)
  then show ?thesis using s1 s2 by (auto simp: add_receipt_def)
qed

end
