(* ===== verification/Gate_Properties.thy ===== *)
theory Gate_Properties
  imports Agent_Demo
begin

text \<open>
  The properties of the refund agent behind the runtime gate, each with the witness that applies
  it to the concrete run and ticket of \<open>Agent_Demo\<close>.
\<close>

lemma demo_repeatable: "repeatable ascii demo_ticket paid_run (demo_order 40 0 0 PAID 1) 15 ''15.00''"
proof -
  have cents: "is_cents 40" "is_cents 15" using quantize_numeral by (simp_all add: is_cents_def)
  have money: "money_of (JStr ''15.00'') = Inr (15, CNY)"
    using demo_amount by (simp add: money_of_def raw_amount_def raw_currency_def currency_of_def quantize_checked_def
        cents_of_numeral quantize_numeral)
  have receipts: "rs_receipts paid_run = take 3 (settle_receipts 15)" by (simp add: paid_run_def demo_space_def)
  show ?thesis
    using demo_amount demo_request money cents
    by (simp add: repeatable_def receipts refund_ready_def paid_run_def demo_space_def empty_run_def demo_order_def
        demo_user_def run_profile_def profile_for_run_def find_row_def demo_ticket_def settle_receipts_def
        demo_receipts_def demo_receipt_def starts_with_def refund_key_def)
qed

definition demo_net :: "(nat \<Rightarrow> delivery) \<Rightarrow> (nat \<Rightarrow> nat) \<Rightarrow> world" where
  "demo_net dl arr = demo_world dl arr paid_run [] 0"

lemma demo_net_simps [simp]:
  "w_db (demo_net dl arr) ''run'' = Some paid_run" "w_tick (demo_net dl arr) = 0" "w_flight (demo_net dl arr) = []"
  "cn_delivery (w_conditions (demo_net dl arr) n) = dl n" "cn_arrivals (w_conditions (demo_net dl arr) n) = arr n"
  by (simp_all add: demo_net_def demo_world_def network_def)

section \<open>At most one refund\<close>

text \<open>C7: On a network that may lose requests and replies but serves none late, the gated agent adds at
  most one refund to a run when it handles a ticket, under one of the ticket's own keys, refunds no order beyond
  what was paid that was not so before, whatever defects the sandbox has, and claims completion only
  when the sandbox holds a successful receipt under one of the ticket's keys.\<close>

theorem gated_agent_refunds_once:
  assumes "punctual w" and "w_db w i = Some (reached D j sc v axes reqs)"
  defines "run \<equiv> reached D j sc v axes reqs"
  shows "\<exists>run'. w_db (snd (handle u D i (Some (gate_guard D i)) n t w)) i = Some run'
    \<and> (rs_refunds run' = rs_refunds run \<or> (\<exists>f m. rs_refunds run' = rs_refunds run @ [f] \<and> rf_key f = refund_key t m))
    \<and> over_refunded run' \<subseteq> over_refunded run
    \<and> (\<forall>rep. fst (handle u D i (Some (gate_guard D i)) n t w) = Some rep \<longrightarrow> rp_claimed rep
         \<longrightarrow> (\<exists>m. recorded run' (refund_key t m)))"
  using gated_handle [where u = u and n = n and t = t, OF prod.collapse [symmetric] assms(1,2) reached_ok]
  unfolding run_def one_more_refund_def by blast

theorem gated_agent_refunds_once_witness:
  "\<exists>run'. w_db (snd (handle ascii demo_digest ''run'' (Some (gate_guard demo_digest ''run'')) 2 demo_ticket
      (demo_net (\<lambda>n. if n = 4 then Lost_reply Silence else Deliver) (\<lambda>n. 0)))) ''run'' = Some run'
    \<and> (rs_refunds run' = [] \<or> (\<exists>f m. rs_refunds run' = [f] \<and> rf_key f = refund_key demo_ticket m))"
proof -
  let ?w = "demo_net (\<lambda>n. if n = 4 then Lost_reply Silence else Deliver) (\<lambda>n. 0)"
  have "punctual ?w" by (simp add: punctual_def)
  moreover have "w_db ?w ''run'' = Some (reached demo_digest ''run'' PROMOTION FIXED None
      (first_requests @ [demo_act PAY_ORDER (Some ''order-1'') [] ''k3'']))"
    by (simp only: paid_reached demo_net_simps)
  moreover have "rs_refunds paid_run = []" by (simp add: paid_run_def demo_space_def empty_run_def)
  ultimately show ?thesis
    using gated_agent_refunds_once [of ?w "''run''" demo_digest "''run''" PROMOTION FIXED None
        "first_requests @ [demo_act PAY_ORDER (Some ''order-1'') [] ''k3'']" ascii 2 demo_ticket]
    unfolding paid_reached by auto
qed

text \<open>Without the gate one lost reply is enough for two refunds: the agent retries the unanswered
  refund under a fresh key, the sandbox serves both, and the agent claims completion.\<close>

theorem bare_agent_refunds_twice:
  assumes "repeatable u t (reached D j sc v axes reqs) d q m" and "w_db w i = Some (reached D j sc v axes reqs)"
    and "w_tick w = 0" and "\<And>n. cn_delivery (w_conditions w n) = (if n = 1 then Lost_reply Silence else Deliver)"
    and "\<And>n. cn_arrivals (w_conditions w n) = 0"
  shows "\<exists>x w' run' f1 f2. handle u D i None 2 t w = (Some x, w') \<and> rp_claimed x \<and> w_db w' i = Some run'
    \<and> rs_refunds run' = rs_refunds (reached D j sc v axes reqs) @ [f1, f2] \<and> map rf_amount [f1, f2] = [q, q]"
  using bare_agent_twice [OF assms(1) reached_ok assms(2-5)] .

theorem bare_agent_refunds_twice_witness:
  "\<exists>x w' run' f1 f2. handle ascii demo_digest ''run'' None 2 demo_ticket
      (demo_net (\<lambda>n. if n = 1 then Lost_reply Silence else Deliver) (\<lambda>n. 0)) = (Some x, w') \<and> rp_claimed x
    \<and> w_db w' ''run'' = Some run' \<and> rs_refunds run' = [f1, f2] \<and> map rf_amount [f1, f2] = [15, 15]"
proof -
  let ?w = "demo_net (\<lambda>n. if n = 1 then Lost_reply Silence else Deliver) (\<lambda>n. 0)"
  have "rs_refunds paid_run = []" by (simp add: paid_run_def demo_space_def empty_run_def)
  then show ?thesis
    using bare_agent_refunds_twice [of ascii demo_ticket demo_digest "''run''" PROMOTION FIXED None
        "first_requests @ [demo_act PAY_ORDER (Some ''order-1'') [] ''k3'']" _ 15 "''15.00''" ?w "''run''",
        unfolded paid_reached, OF demo_repeatable] by simp
qed

text \<open>C10: The gate does not protect from a request that is served late: when the first refund is still
  in flight while its receipt is looked up, the lookup finds none, the agent retries under a fresh
  key, and both refunds are served.\<close>

theorem late_delivery_refunds_twice:
  assumes "repeatable u t (reached D j sc v axes reqs) d q m" and "w_db w i = Some (reached D j sc v axes reqs)"
    and "w_tick w = 0" and "w_flight w = []"
    and "\<And>n. cn_delivery (w_conditions w n) = (if n = 4 then Late Silence else Deliver)"
    and "\<And>n. cn_arrivals (w_conditions w n) = (if n = 9 then 1 else 0)"
  shows "\<exists>x w' run' f1 f2. handle u D i (Some (gate_guard D i)) 2 t w = (Some x, w') \<and> w_db w' i = Some run'
    \<and> rs_refunds run' = rs_refunds (reached D j sc v axes reqs) @ [f1, f2] \<and> map rf_amount [f1, f2] = [q, q]"
  using gated_agent_twice_when_late [OF assms(1) reached_ok assms(2-6)] .

theorem late_delivery_refunds_twice_witness:
  "\<exists>x w' run' f1 f2. handle ascii demo_digest ''run'' (Some (gate_guard demo_digest ''run'')) 2 demo_ticket
      (demo_net (\<lambda>n. if n = 4 then Late Silence else Deliver) (\<lambda>n. if n = 9 then 1 else 0)) = (Some x, w')
    \<and> w_db w' ''run'' = Some run' \<and> rs_refunds run' = [f1, f2] \<and> map rf_amount [f1, f2] = [15, 15]"
proof -
  let ?w = "demo_net (\<lambda>n. if n = 4 then Late Silence else Deliver) (\<lambda>n. if n = 9 then 1 else 0)"
  have "rs_refunds paid_run = []" by (simp add: paid_run_def demo_space_def empty_run_def)
  then show ?thesis
    using late_delivery_refunds_twice [of ascii demo_ticket demo_digest "''run''" PROMOTION FIXED None
        "first_requests @ [demo_act PAY_ORDER (Some ''order-1'') [] ''k3'']" _ 15 "''15.00''" ?w "''run''",
        unfolded paid_reached, OF demo_repeatable] by simp
qed

section \<open>The gate's decisions\<close>

text \<open>On a run's own snapshot the pre-check of a refund allows exactly the refunds of an existing,
  refundable order that keep its refunds within what was paid, and names why it blocks the others.\<close>

theorem pre_check_decides:
  assumes "works w" and "w_db w i = Some (reached D j sc v axes reqs)" and "sa_action a = REFUND_ORDER"
    and "sa_target a = Some order_id" and "gate_money (argument a ''amount'') = Some (Some q)"
  shows "fst (pre_check D i a w) = Some (case find_row od_id order_id (rs_orders (reached D j sc v axes reqs)) of
      None \<Rightarrow> decided Block NO_SUCH_ORDER
    | Some d \<Rightarrow>
        if od_status d \<noteq> PAID \<and> od_status d \<noteq> PARTIALLY_REFUNDED then decided Block ORDER_NOT_REFUNDABLE
        else if od_paid d < od_refunded d + q then decided Block REFUND_BUDGET_EXCEEDED
        else decided Allow WITHIN_REFUND_BUDGET)"
proof -
  have gate: "gate_snapshot D i w = (Some (Some (snapshot D (cn_amb (current w)) (reached D j sc v axes reqs))),
      w\<lparr>w_tick := Suc (w_tick w)\<rparr>)" by (rule gate_snapshot_works [OF assms(1,2)])
  show ?thesis
    using budget_decision_snapshot [OF reached_ok, of D "cn_amb (current w)" D j sc v axes reqs order_id q]
    by (simp add: pre_check_def assms or_raise_def chain_def give_def gate split: option.split)
qed

theorem pre_check_decides_witness:
  "fst (pre_check demo_digest ''run'' (asked demo_ticket (demo_order 40 0 0 PAID 1) ''15.00'' 1)
      (demo_net (\<lambda>n. Deliver) (\<lambda>n. 0))) = Some (decided Allow WITHIN_REFUND_BUDGET)"
proof -
  let ?w = "demo_net (\<lambda>n. Deliver) (\<lambda>n. 0)"
  have "works ?w" by (simp add: works_def current_def)
  moreover have "find_row od_id ''order-1'' (rs_orders paid_run) = Some (demo_order 40 0 0 PAID 1)"
    by (simp add: paid_run_def demo_space_def find_row_def demo_order_def)
  ultimately show ?thesis
    using pre_check_decides [of ?w "''run''" demo_digest "''run''" PROMOTION FIXED None
        "first_requests @ [demo_act PAY_ORDER (Some ''order-1'') [] ''k3'']"
        "asked demo_ticket (demo_order 40 0 0 PAID 1) ''15.00'' 1" "''order-1''" 15]
      asked_money [OF demo_repeatable, of 1]
    unfolding paid_reached by (simp add: asked_fields demo_order_def)
qed

text \<open>C9: A refund beyond what was paid is refused by the gated gateway before it reaches the sandbox,
  even when the sandbox would accept it: the call reports a refusal and the run is unchanged.\<close>

theorem gate_refuses_overrun:
  assumes "works w" and "works (w\<lparr>w_tick := Suc (w_tick w)\<rparr>)" and "w_db w i = Some (reached D j sc v axes reqs)"
    and "sa_action a = REFUND_ORDER" and "sa_target a = Some order_id" and "sa_key a = Some k" and "k \<noteq> []"
    and "gate_money (argument a ''amount'') = Some (Some q)"
    and "lookup_receipt (reached D j sc v axes reqs) k = None"
    and "find_row od_id order_id (rs_orders (reached D j sc v axes reqs)) = Some d" and "od_paid d < od_refunded d + q"
  shows "\<exists>res rec w'. gateway_call D i (Some (gate_guard D i)) a w = (Some (res, rec), w')
    \<and> tr_outcome res = Tool_Refused \<and> w_db w' = w_db w"
proof -
  let ?run = "reached D j sc v axes reqs" and ?w1 = "w\<lparr>w_tick := Suc (w_tick w)\<rparr>"
  have retry: "retry_check D i k w = (Some (decided Allow RETRY_SAFE), ?w1)"
    by (rule retry_check_miss [OF assms(1,3,9)])
  have "gate_snapshot D i ?w1 = (Some (Some (snapshot D (cn_amb (current ?w1)) ?run)), ?w1\<lparr>w_tick := Suc (Suc (w_tick w))\<rparr>)"
    using gate_snapshot_works [OF assms(2), of i ?run D] assms(3) by simp
  then have "\<exists>reason. pre_check D i a ?w1 = (Some (decided Block reason), ?w1\<lparr>w_tick := Suc (Suc (w_tick w))\<rparr>)"
    using budget_decision_snapshot [OF reached_ok, of D "cn_amb (current ?w1)" D j sc v axes reqs order_id q] assms
    by (auto simp: pre_check_def or_raise_def chain_def give_def)
  then obtain reason where pre: "pre_check D i a ?w1 = (Some (decided Block reason), ?w1\<lparr>w_tick := Suc (Suc (w_tick w))\<rparr>)" ..
  show ?thesis
    using assms(4,6,7) retry pre
    by (simp add: gateway_call_def keyless_def gateway_dispatch_def guarded_dispatch_def chain_def gate_guard_steps give_def
        gate_verdict_read decided_def refusal_def Let_def)
qed

theorem gate_refuses_overrun_witness:
  "\<exists>res rec w'. gateway_call demo_digest ''run'' (Some (gate_guard demo_digest ''run''))
      \<lparr>sa_action = REFUND_ORDER, sa_actor = ''user-1'', sa_target = Some ''order-1'',
       sa_arguments = [(''amount'', JInt 50)], sa_key = Some ''k''\<rparr> (demo_net (\<lambda>n. Deliver) (\<lambda>n. 0)) = (Some (res, rec), w')
    \<and> tr_outcome res = Tool_Refused \<and> w_db w' ''run'' = Some paid_run"
proof -
  let ?w = "demo_net (\<lambda>n. Deliver) (\<lambda>n. 0)"
  let ?a = "\<lparr>sa_action = REFUND_ORDER, sa_actor = ''user-1'', sa_target = Some ''order-1'',
       sa_arguments = [(''amount'', JInt 50)], sa_key = Some ''k''\<rparr>"
  have "works ?w" "works (?w\<lparr>w_tick := 1\<rparr>)"
    by (simp_all add: works_def current_def)
  moreover have "find_row od_id ''order-1'' (rs_orders paid_run) = Some (demo_order 40 0 0 PAID 1)"
    by (simp add: paid_run_def demo_space_def find_row_def demo_order_def)
  moreover have "gate_money (argument ?a ''amount'') = Some (Some 50)"
    by (simp add: argument_def gate_money_def quantize_checked_def cents_of_numeral quantize_numeral)
  moreover have "lookup_receipt paid_run ''k'' = None"
    by (simp add: lookup_receipt_None paid_run_def demo_space_def settle_receipts_def demo_receipts_def demo_receipt_def)
  ultimately show ?thesis
    using gate_refuses_overrun [of ?w "''run''" demo_digest "''run''" PROMOTION FIXED None
        "first_requests @ [demo_act PAY_ORDER (Some ''order-1'') [] ''k3'']" ?a "''order-1''" "''k''" 50 "demo_order 40 0 0 PAID 1"]
    unfolding paid_reached by (fastforce simp: demo_order_def)
qed

section \<open>Tickets\<close>

lemma contains_text_Cons_eq: "contains_text m (c # cs) \<longleftrightarrow> take (length m) (c # cs) = m \<or> contains_text m cs"
  by simp

lemma marker_absent: "\<lbrakk>x \<in> set m; x \<notin> set s\<rbrakk> \<Longrightarrow> \<not> contains_text m s"
proof (induction s)
  case Nil
  then show ?case by auto
next
  case (Cons c cs)
  have "take (length m) (c # cs) \<noteq> m"
    using Cons.prems set_take_subset [of "length m" "c # cs"] by auto
  with Cons show ?case by simp
qed

lemma codes_append [simp]: "codes (s @ t) = codes s @ codes t"
  by (simp add: codes_def)

lemma codes_Cons [simp]: "codes (c # s) = of_char c # codes s" "codes [] = []"
  by (simp_all add: codes_def)

lemma codes_small: "x \<in> set (codes s) \<Longrightarrow> x < 256"
  by (auto simp: codes_def)

lemma codes_digits: "list_all is_digit s \<Longrightarrow> list_all ascii_digit (codes s)"
  by (simp add: codes_def list_all_iff is_digit_def ascii_digit_def)

lemma takeWhile_all: "list_all P s \<Longrightarrow> \<not> P c \<Longrightarrow> takeWhile P (s @ c # r) = s"
  "list_all P s \<Longrightarrow> \<not> P c \<Longrightarrow> dropWhile P (s @ c # r) = c # r"
  by (induction s) auto

lemma takeWhile_whole: "list_all P s \<Longrightarrow> takeWhile P s = s"
  by (induction s) auto

lemma search_amount_skip: "search_amount (codes s @ r) = search_amount r"
proof (induction s)
  case Nil
  then show ?case by (simp add: codes_def)
next
  case (Cons c cs)
  have "(of_char c :: nat) < 256" using codes_small [of "of_char c" "[c]"] by (simp add: codes_def)
  then have "(of_char c :: nat) \<noteq> 36864" by (rule contrapos_pn) simp
  then have "amount_at (codes (c # cs) @ r) = None"
    by (simp add: amount_at_def refund_word_def codes_def Let_def)
  with Cons show ?case by (simp add: codes_def)
qed

lemma char_of_codes_id [simp]: "map char_of (codes s) = s"
  by (simp add: codes_def comp_def)

lemma amount_at_text:
  assumes "0 \<le> a"
  shows "amount_at (refund_word @ codes ('' '' @ amount_text a)) = Some (amount_text a)"
proof -
  let ?c = "nat \<bar>cents_of a\<bar>"
  let ?ip = "string_of_nat (?c div 100)" and ?fp = "padded 2 (?c mod 100)"
  have "\<not> cents_of a < 0" using assms by (simp add: cents_of_def)
  then have shape: "amount_text a = ?ip @ CHR ''.'' # ?fp" by (simp add: amount_text_def fixed_text_def)
  have ip: "list_all ascii_digit (codes ?ip)" "codes ?ip \<noteq> []"
    using codes_digits [OF string_of_nat_digits] by (simp_all add: codes_def)
  have fp: "list_all ascii_digit (codes ?fp)" "length (codes ?fp) = 2" "codes ?fp \<noteq> []"
    using codes_digits [OF padded_digits] padded_length [of "?c mod 100" 2] by (auto simp flip: length_0_conv)
  have dot: "codes (CHR ''.'' # s) = 46 # codes s" "codes (CHR '' '' # s) = 32 # codes s" for s by (simp_all add: codes_def)
  have head: "dropWhile space_class (codes (amount_text a)) = codes (amount_text a)"
  proof -
    obtain x xs where x: "codes ?ip = x # xs" using ip(2) by (cases "codes ?ip") auto
    then have "\<not> space_class x" using ip(1) by (auto simp: space_class_def ascii_digit_def)
    then show ?thesis by (simp add: shape dot x)
  qed
  have blank: "space_class 32" by (simp add: space_class_def)
  have take: "takeWhile ascii_digit (codes (amount_text a)) = codes ?ip"
    "dropWhile ascii_digit (codes (amount_text a)) = 46 # codes ?fp"
    using takeWhile_all [OF ip(1), of 46 "codes ?fp"] by (simp_all add: shape dot ascii_digit_def)
  have whole: "map char_of (codes ?ip @ 46 # codes ?fp) = amount_text a"
    using char_of_codes_id [of "amount_text a"] by (simp only: shape codes_append dot)
  show ?thesis
    using ip fp(2,3) whole
    by (simp add: amount_at_def refund_word_def dot head blank take takeWhile_whole [OF fp(1)] Let_def)
qed

text \<open>A ticket that names an order and a partial amount is read back as written: the order number, and
  an amount whose decimal value is the amount in cents.\<close>

theorem ticket_round_trip:
  assumes "0 \<le> a"
  shows "parse_refund_request u (codes (''order-'' @ string_of_nat n @ '' '') @ refund_word @ codes ('' '' @ amount_text a))
      = Some \<lparr>rq_order = codes (''order-'' @ string_of_nat n), rq_amount = Some (amount_text a)\<rparr>
    \<and> agent_decimal (JStr (amount_text a)) = Some (quantize a)"
proof -
  let ?tail = "refund_word @ codes ('' '' @ amount_text a)"
  let ?text = "codes (''order-'' @ string_of_nat n @ '' '') @ ?tail"
  have digits: "list_all (digit_class u) (codes (string_of_nat n))"
    using codes_digits [OF string_of_nat_digits [of n]] by (auto simp: list_all_iff digit_class_def ascii_digit_def)
  have space: "codes '' '' = [32]" "\<not> digit_class u 32" "\<not> word_class u 32"
    by (simp_all add: codes_def digit_class_def word_class_def ascii_digit_def)
  have ne: "codes (string_of_nat n) \<noteq> []" by (simp add: codes_def)
  have "order_at u ?text = Some (codes (''order-'' @ string_of_nat n))"
    using takeWhile_all [OF digits space(2), of ?tail] ne space by (simp add: order_at_def Let_def)
  moreover have "search_order u False s = Some i" if "order_at u s = Some i" for s i
    using that by (cases s) (simp_all add: order_at_def codes_def)
  ultimately have "search_order u False ?text = Some (codes (''order-'' @ string_of_nat n))" by blast
  moreover have "\<not> contains_text m ?text" if "m \<in> set full_refund_markers" for m
  proof -
    have "20840 \<in> set m \<or> 25972 \<in> set m" using that by (auto simp: full_refund_markers_def)
    then obtain x where "x \<in> set m" "x \<in> {20840, 25972}" by blast
    moreover have "x \<notin> set ?text" using calculation(2) codes_small by (fastforce simp: refund_word_def)
    ultimately show ?thesis using marker_absent [of x m ?text] by blast
  qed
  moreover have "search_amount ?text = Some (amount_text a)"
    using search_amount_skip [of "''order-'' @ string_of_nat n @ '' ''" ?tail] amount_at_text [OF assms]
    by (simp add: refund_word_def)
  ultimately show ?thesis
    by (auto simp: parse_refund_request_def agent_decimal_def parse_amount_text)
qed

theorem ticket_round_trip_witness:
  "parse_refund_request ascii (codes (''order-'' @ string_of_nat 1 @ '' '') @ refund_word @ codes ('' '' @ amount_text 15))
      = Some \<lparr>rq_order = codes (''order-'' @ string_of_nat 1), rq_amount = Some (amount_text 15)\<rparr>"
  using ticket_round_trip [of 15 ascii 1] by simp

end
