(* ===== verification/Sim_State.thy ===== *)
theory Sim_State
  imports Sim_Action
begin

text \<open>
  The reference simulator's state (\<^verbatim>\<open>packages/reference_simulator/models.py\<close>) and the
  conversions its rule model applies to action arguments. Status texts are the datatypes of the
  statuses the program uses. Conversions that raise are told apart: what \<^verbatim>\<open>transition\<close>
  catches becomes \<open>Caught\<close>, what escapes from it \<open>Uncaught\<close>. Arguments are texts, integers
  or booleans, as the action's type says.
\<close>

section \<open>State\<close>

datatype sim_flag = SimNone | SimActive | SimInactive

datatype sim_coupon_status = SimAvailable | SimReserved | SimUsed

datatype sim_order_status = SimCreated | SimPaid | SimPartiallyRefunded | SimRefunded

datatype sim_membership_status = SimMActive | SimMRefunded | SimMCancelled

record sim_user =
  su_id :: string
  su_balance :: rat
  su_currency :: currency
  su_points :: int
  su_membership :: sim_flag
  su_new :: bool

record sim_coupon =
  sc_id :: string
  sc_owner :: string
  sc_face :: rat
  sc_threshold :: rat
  sc_currency :: currency
  sc_status :: sim_coupon_status
  sc_reserved :: "string option"
  sc_used :: "string option"
  sc_usage :: nat

record sim_order =
  so_id :: string
  so_user :: string
  so_original :: rat
  so_currency :: currency
  so_discount :: rat
  so_paid :: rat
  so_refunded :: rat
  so_points :: int
  so_revoked :: int
  so_refunds :: nat
  so_status :: sim_order_status
  so_coupon :: "string option"

record sim_membership =
  sm_id :: string
  sm_user :: string
  sm_paid :: rat
  sm_currency :: currency
  sm_status :: sim_membership_status
  sm_refunded :: rat

record sim_entitlement =
  se_id :: string
  se_membership :: string
  se_granted :: int
  se_consumed :: int
  se_revoked :: int

definition sim_available :: "sim_entitlement \<Rightarrow> int" where
  "sim_available e = se_granted e - se_consumed e - se_revoked e"

record sim_event =
  sv_type :: business_event
  sv_aggregate :: string
  sv_id :: string
  sv_payload :: "(string \<times> json) list"

record sim_state =
  ss_scenario :: scenario_type
  ss_users :: "sim_user list"
  ss_coupons :: "sim_coupon list"
  ss_orders :: "sim_order list"
  ss_memberships :: "sim_membership list"
  ss_entitlements :: "sim_entitlement list"
  ss_seen :: "(action_type \<times> string) set"

datatype transition_status = Applied | Rejected | Unsupported

record transition_result =
  tn_status :: transition_status
  tn_state :: sim_state
  tn_events :: "sim_event list"
  tn_code :: "string option"

datatype sim_exn = Caught | Uncaught

type_synonym sim_handled = "sim_exn + transition_result"

definition applied :: "sim_state \<Rightarrow> sim_event list \<Rightarrow> sim_handled" where
  "applied st evs = Inr \<lparr>tn_status = Applied, tn_state = st, tn_events = evs, tn_code = None\<rparr>"

definition rejected_result :: "sim_state \<Rightarrow> string \<Rightarrow> transition_result" where
  "rejected_result st code = \<lparr>tn_status = Rejected, tn_state = st, tn_events = [], tn_code = Some code\<rparr>"

definition reject :: "sim_state \<Rightarrow> string \<Rightarrow> sim_handled" where
  "reject st code = Inr (rejected_result st code)"

definition unsupported :: "sim_state \<Rightarrow> string \<Rightarrow> transition_result" where
  "unsupported st code = \<lparr>tn_status = Unsupported, tn_state = st, tn_events = [], tn_code = Some code\<rparr>"

definition event :: "business_event \<Rightarrow> string \<Rightarrow> string \<Rightarrow> (string \<times> json) list \<Rightarrow> sim_event" where
  "event ty ag i payload = \<lparr>sv_type = ty, sv_aggregate = ag, sv_id = i, sv_payload = payload\<rparr>"

section \<open>Arguments\<close>

text \<open>\<^verbatim>\<open>action.argument(name, default)\<close>.\<close>

definition argument_or :: "sim_action \<Rightarrow> string \<Rightarrow> json \<Rightarrow> json" where
  "argument_or a name d = jget_default name d (JObj (py_dict (sa_arguments a)))"

text \<open>
  \<^verbatim>\<open>_money\<close>: quantizing an infinity, a signalling NaN or too many digits raises; a quiet NaN
  stays one, and comparing it with an order relation raises.
\<close>

datatype sim_number = Number rat | NotANumber

definition sim_quantize :: "pydec option \<Rightarrow> sim_exn + sim_number" where
  "sim_quantize d = (case d of
       Some (DFin x) \<Rightarrow> (case quantize_checked x of Some q \<Rightarrow> Inr (Number q) | None \<Rightarrow> Inl Caught)
     | Some DNan \<Rightarrow> Inr NotANumber
     | _ \<Rightarrow> Inl Caught)"

definition sim_money :: "json \<Rightarrow> sim_exn + sim_number" where
  "sim_money v = sim_quantize (parse_decimal (py_str v))"

text \<open>The argument, or the rule's amount when it is absent.\<close>

definition money_argument :: "sim_action \<Rightarrow> string \<Rightarrow> rat \<Rightarrow> sim_exn + sim_number" where
  "money_argument a name d =
     (if name \<in> fst ` set (sa_arguments a) then sim_money (argument a name) else sim_quantize (Some (DFin d)))"

definition compared :: "sim_number \<Rightarrow> sim_exn + rat" where
  "compared n = (case n of Number q \<Rightarrow> Inr q | NotANumber \<Rightarrow> Inl Caught)"

definition currency_argument :: "sim_action \<Rightarrow> sim_exn + currency" where
  "currency_argument a = of_option Caught (currency_of (py_str (argument_or a ''currency'' (JStr ''CNY''))))"

text \<open>\<^verbatim>\<open>int(argument)\<close>.\<close>

fun sim_int :: "json \<Rightarrow> sim_exn + int" where
  "sim_int (JInt i) = Inr i"
| "sim_int (JBool b) = Inr (if b then 1 else 0)"
| "sim_int (JStr s) = of_option Caught (parse_int s)"
| "sim_int _ = Inl Caught"

definition owner_of :: "sim_action \<Rightarrow> string" where
  "owner_of a = (case sa_target a of None \<Rightarrow> sa_actor a | Some t \<Rightarrow> if t = [] then sa_actor a else t)"

text \<open>\<^verbatim>\<open>next(i for i, item in enumerate(items) if ...)\<close>, or minus one.\<close>

fun index_of :: "('a \<Rightarrow> bool) \<Rightarrow> 'a list \<Rightarrow> nat option" where
  "index_of P [] = None"
| "index_of P (x # xs) = (if P x then Some 0 else map_option Suc (index_of P xs))"

lemma index_of_Some: "index_of P xs = Some i \<Longrightarrow> i < length xs \<and> P (xs ! i)"
  by (induction xs arbitrary: i) (auto split: if_splits)

lemma index_of_None: "index_of P xs = None \<longleftrightarrow> (\<forall>x \<in> set xs. \<not> P x)"
  by (induction xs) auto

section \<open>The canonical text of an action\<close>

definition escape_char :: "char \<Rightarrow> string" where
  "escape_char c =
     (let n = (of_char c :: nat) in
      if n = 34 \<or> n = 92 then [CHR 0x5C, c]
      else if n = 8 then [CHR 0x5C, CHR ''b''] else if n = 9 then [CHR 0x5C, CHR ''t'']
      else if n = 10 then [CHR 0x5C, CHR ''n''] else if n = 12 then [CHR 0x5C, CHR ''f'']
      else if n = 13 then [CHR 0x5C, CHR ''r'']
      else if n < 32 \<or> 126 < n
        then [CHR 0x5C, CHR ''u'', CHR ''0'', CHR ''0'', hex_digit (n div 16), hex_digit (n mod 16)]
      else [c])"

definition json_string :: "string \<Rightarrow> string" where
  "json_string s = CHR 0x22 # concat (map escape_char s) @ [CHR 0x22]"

text \<open>\<^verbatim>\<open>json.dumps(value, sort_keys=True, separators=(",", ":"))\<close>.\<close>

fun json_text :: "json \<Rightarrow> string" where
  "json_text JNull = ''null''"
| "json_text (JBool b) = (if b then ''true'' else ''false'')"
| "json_text (JInt i) = string_of_int i"
| "json_text (JFloat t) = t"
| "json_text (JStr s) = json_string s"
| "json_text (JList xs) = ''['' @ join_text '','' (map json_text xs) @ '']''"
| "json_text (JObj m) =
     ''{'' @ join_text '','' (map (\<lambda>(k, t). json_string k @ '':'' @ t)
       (sort_key fst (map (\<lambda>(k, v). (k, json_text v)) m))) @ ''}''"

definition lower_text :: "string \<Rightarrow> string" where
  "lower_text s = map lower_char s"

definition http_payload :: "sim_action \<Rightarrow> json" where
  "http_payload a = JObj [
     (''schema_version'', JStr ''1.0''),
     (''action'', JStr (lower_text (action_name (sa_action a)))),
     (''actor_id'', JStr (sa_actor a)),
     (''target_id'', (case sa_target a of None \<Rightarrow> JNull | Some t \<Rightarrow> JStr t)),
     (''arguments'', JObj (py_dict (sa_arguments a))),
     (''idempotency_key'', (case sa_key a of None \<Rightarrow> JNull | Some k \<Rightarrow> JStr k))]"

definition canonical_key :: "sim_action \<Rightarrow> string" where
  "canonical_key a = json_text (http_payload a)"

end
