(* ===== verification/Sim_Ops.thy ===== *)
theory Sim_Ops
  imports Sim_State
begin

text \<open>
  The reference simulator (\<^verbatim>\<open>packages/reference_simulator/simulator.py\<close>): one definition
  per action of the rule model, the transition around them, and the actions it offers to a search.
  Decimal arithmetic is exact: the 28-digit rounding of a quotient before it is floored or quantized
  is not modelled.
\<close>

section \<open>The rule model\<close>

record simulator =
  sr_scenario :: scenario_type
  sr_promotion :: "promotion_rule option"
  sr_refund :: "refund_rule option"
  sr_points :: "points_rule option"
  sr_membership :: "membership_rule option"

definition reference_simulator :: "rule_spec \<Rightarrow> simulator" where
  "reference_simulator spec =
     \<lparr>sr_scenario = spec_scenario spec,
      sr_promotion = first_some as_promotion (rules spec),
      sr_refund = first_some as_refund (rules spec),
      sr_points = first_some as_points (rules spec),
      sr_membership = first_some as_membership (rules spec)\<rparr>"

definition initial_state :: "simulator \<Rightarrow> sim_state" where
  "initial_state sim =
     \<lparr>ss_scenario = sr_scenario sim, ss_users = [], ss_coupons = [], ss_orders = [], ss_memberships = [],
      ss_entitlements = [], ss_seen = {}\<rparr>"

section \<open>Actions\<close>

definition do_create_user :: "sim_state \<Rightarrow> sim_action \<Rightarrow> sim_handled" where
  "do_create_user st a =
     (if ss_users st \<noteq> [] then reject st ''USER_EXISTS''
      else and_then (currency_argument a) (\<lambda>currency.
        and_then (sim_money (argument_or a ''initial_balance'' (JStr ''0''))) (\<lambda>n.
        and_then (compared n) (\<lambda>balance.
        if balance < 0 then reject st ''INVALID_AMOUNT''
        else
          let user = \<lparr>su_id = sa_actor a, su_balance = balance, su_currency = currency, su_points = 0,
                su_membership = SimNone, su_new = True\<rparr>
          in applied (st\<lparr>ss_users := [user]\<rparr>) [event USER_CREATED ''USER'' (su_id user) []]))))"

definition do_issue_coupon :: "simulator \<Rightarrow> sim_state \<Rightarrow> sim_action \<Rightarrow> sim_handled" where
  "do_issue_coupon sim st a = (case sr_promotion sim of
       None \<Rightarrow> reject st ''PRECONDITION_FAILED''
     | Some rule \<Rightarrow>
         if ss_users st = [] then reject st ''PRECONDITION_FAILED''
         else if \<not> (\<exists>u \<in> set (ss_users st). su_id u = owner_of a) then reject st ''USER_NOT_FOUND''
         else and_then (money_argument a ''value'' (m_amount (discount_amount rule))) (\<lambda>vn.
           and_then (money_argument a ''threshold'' (m_amount (minimum_order_amount rule))) (\<lambda>tn.
           and_then (currency_argument a) (\<lambda>currency.
           and_then (compared vn) (\<lambda>face.
           if face \<le> 0 then reject st ''INVALID_COUPON''
           else and_then (compared tn) (\<lambda>threshold.
             if threshold < 0 \<or> currency \<noteq> m_currency (discount_amount rule) then reject st ''INVALID_COUPON''
             else
               let coupon = \<lparr>sc_id = next_id (ss_coupons st) ''coupon'', sc_owner = owner_of a, sc_face = face,
                     sc_threshold = threshold, sc_currency = currency, sc_status = SimAvailable,
                     sc_reserved = None, sc_used = None, sc_usage = 0\<rparr>
               in applied (st\<lparr>ss_coupons := ss_coupons st @ [coupon]\<rparr>)
                    [event COUPON_ISSUED ''COUPON'' (sc_id coupon) []]))))))"

definition do_create_order :: "sim_state \<Rightarrow> sim_action \<Rightarrow> sim_handled" where
  "do_create_order st a =
     (if ss_users st = [] then reject st ''USER_NOT_FOUND''
      else if \<not> (\<exists>u \<in> set (ss_users st). su_id u = owner_of a) then reject st ''USER_NOT_FOUND''
      else and_then (sim_money (argument_or a ''amount'' JNull)) (\<lambda>n.
        and_then (currency_argument a) (\<lambda>currency.
        and_then (compared n) (\<lambda>amount.
        if amount \<le> 0 then reject st ''INVALID_AMOUNT''
        else
          let order = \<lparr>so_id = next_id (ss_orders st) ''order'', so_user = owner_of a, so_original = amount,
                so_currency = currency, so_discount = 0, so_paid = 0, so_refunded = 0, so_points = 0,
                so_revoked = 0, so_refunds = 0, so_status = SimCreated, so_coupon = None\<rparr>
          in applied (st\<lparr>ss_orders := ss_orders st @ [order]\<rparr>) [event ORDER_CREATED ''ORDER'' (so_id order) []]))))"

definition has_coupon :: "sim_order \<Rightarrow> bool" where
  "has_coupon d \<longleftrightarrow> (case so_coupon d of None \<Rightarrow> False | Some c \<Rightarrow> c \<noteq> [])"

definition do_apply_coupon :: "sim_state \<Rightarrow> sim_action \<Rightarrow> sim_handled" where
  "do_apply_coupon st a =
     (let coupon_id = py_str (argument_or a ''coupon_id'' (JStr [])) in
      case (index_of (\<lambda>d. Some (so_id d) = sa_target a) (ss_orders st),
            index_of (\<lambda>c. sc_id c = coupon_id) (ss_coupons st)) of
        (Some oi, Some ci) \<Rightarrow>
          (let order = ss_orders st ! oi; coupon = ss_coupons st ! ci in
           if so_status order \<noteq> SimCreated \<or> has_coupon order \<or> sc_status coupon \<noteq> SimAvailable
             \<or> sc_owner coupon \<noteq> so_user order \<or> sc_currency coupon \<noteq> so_currency order
             \<or> so_original order < sc_threshold coupon
           then reject st ''COUPON_NOT_APPLICABLE''
           else
             let order' = order\<lparr>so_coupon := Some coupon_id,
                   so_discount := min (sc_face coupon) (so_original order)\<rparr>;
                 coupon' = coupon\<lparr>sc_status := SimReserved, sc_reserved := sa_target a\<rparr>
             in applied (st\<lparr>ss_orders := (ss_orders st)[oi := order'], ss_coupons := (ss_coupons st)[ci := coupon']\<rparr>)
                  [event COUPON_RESERVED ''COUPON'' coupon_id []])
      | _ \<Rightarrow> reject st ''ASSET_NOT_FOUND'')"

text \<open>\<^verbatim>\<open>int(amount // spend_amount) * points_granted\<close>.\<close>

definition granted_points :: "simulator \<Rightarrow> rat \<Rightarrow> int" where
  "granted_points sim amount = (case sr_points sim of
       None \<Rightarrow> 0
     | Some rule \<Rightarrow>
         if 0 < m_amount (spend_amount rule)
         then \<lfloor>amount / m_amount (spend_amount rule)\<rfloor> * rule_points_granted rule else 0)"

text \<open>The coupon a paid order names becomes used; a missing one raises \<^verbatim>\<open>StopIteration\<close>.\<close>

definition use_coupon :: "sim_order \<Rightarrow> sim_coupon list \<Rightarrow> sim_exn + (sim_coupon list \<times> sim_event list)" where
  "use_coupon order coupons =
     (if \<not> has_coupon order then Inr (coupons, [])
      else case index_of (\<lambda>c. Some (sc_id c) = so_coupon order) coupons of
        None \<Rightarrow> Inl Caught
      | Some ci \<Rightarrow> Inr (coupons[ci := (coupons ! ci)\<lparr>sc_status := SimUsed, sc_used := Some (so_id order),
            sc_usage := sc_usage (coupons ! ci) + 1\<rparr>],
          [event COUPON_USED ''COUPON'' (the (so_coupon order)) []]))"

definition do_pay_order :: "simulator \<Rightarrow> sim_state \<Rightarrow> sim_action \<Rightarrow> sim_handled" where
  "do_pay_order sim st a = (case index_of (\<lambda>d. Some (so_id d) = sa_target a) (ss_orders st) of
       None \<Rightarrow> reject st ''ORDER_NOT_PAYABLE''
     | Some oi \<Rightarrow>
         let order = ss_orders st ! oi in
         if so_status order \<noteq> SimCreated then reject st ''ORDER_NOT_PAYABLE''
         else
           let amount = so_original order - so_discount order in
           and_then (of_option Caught (index_of (\<lambda>u. su_id u = so_user order) (ss_users st))) (\<lambda>ui.
           let user = ss_users st ! ui in
           if su_balance user < amount then reject st ''INSUFFICIENT_BALANCE''
           else
             let granted = granted_points sim amount;
                 user' = user\<lparr>su_balance := su_balance user - amount, su_points := su_points user + granted,
                   su_new := False\<rparr>;
                 order' = order\<lparr>so_paid := amount, so_points := granted, so_status := SimPaid\<rparr>
             in and_then (use_coupon order' (ss_coupons st)) (\<lambda>(coupons, used).
                applied (st\<lparr>ss_users := (ss_users st)[ui := user'], ss_orders := (ss_orders st)[oi := order'],
                    ss_coupons := coupons\<rparr>)
                  ([event PAYMENT_CAPTURED ''ORDER'' (so_id order) []] @ used @
                   (if granted = 0 then [] else
                     [event POINTS_GRANTED ''USER'' (su_id user)
                        [(''amount'', JInt granted), (''order_id'', JStr (so_id order))]])))))"

text \<open>
  \<^verbatim>\<open>target_revoke\<close> is bound only when the order granted points; reading it otherwise raises
  \<^verbatim>\<open>UnboundLocalError\<close>, which \<^verbatim>\<open>transition\<close> does not catch.
\<close>

definition revokes :: "simulator \<Rightarrow> bool" where
  "revokes sim \<longleftrightarrow> (case sr_points sim of None \<Rightarrow> False | Some rule \<Rightarrow> revoke_on_refund rule)"

definition revoke_target :: "sim_order \<Rightarrow> rat \<Rightarrow> int" where
  "revoke_target order sum_refunded =
     (if sum_refunded = so_paid order then so_points order else \<lfloor>of_int (so_points order) * sum_refunded / so_paid order\<rfloor>)"

definition restores :: "simulator \<Rightarrow> bool" where
  "restores sim \<longleftrightarrow> (case sr_promotion sim of None \<Rightarrow> False | Some rule \<Rightarrow> restore_on_full_refund rule)"

definition restore_coupon ::
  "simulator \<Rightarrow> bool \<Rightarrow> sim_order \<Rightarrow> sim_coupon list \<Rightarrow> sim_exn + (sim_coupon list \<times> sim_event list)" where
  "restore_coupon sim full order coupons =
     (if \<not> (full \<and> has_coupon order \<and> restores sim) then Inr (coupons, [])
      else case index_of (\<lambda>c. Some (sc_id c) = so_coupon order) coupons of
        None \<Rightarrow> Inl Caught
      | Some ci \<Rightarrow> Inr (coupons[ci := (coupons ! ci)\<lparr>sc_status := SimAvailable, sc_reserved := None,
            sc_used := None\<rparr>],
          [event COUPON_RESTORED ''COUPON'' (the (so_coupon order)) []]))"

definition do_refund_order :: "simulator \<Rightarrow> sim_state \<Rightarrow> sim_action \<Rightarrow> sim_handled" where
  "do_refund_order sim st a = (case index_of (\<lambda>d. Some (so_id d) = sa_target a) (ss_orders st) of
       None \<Rightarrow> reject st ''ORDER_NOT_FOUND''
     | Some oi \<Rightarrow>
         let order = ss_orders st ! oi in
         and_then (sim_money (argument_or a ''amount'' JNull)) (\<lambda>n.
         if so_status order \<noteq> SimPaid \<and> so_status order \<noteq> SimPartiallyRefunded then reject st ''INVALID_REFUND''
         else and_then (compared n) (\<lambda>amount.
         if amount \<le> 0 \<or> so_paid order < so_refunded order + amount then reject st ''INVALID_REFUND''
         else if (case sr_refund sim of None \<Rightarrow> False | Some rule \<Rightarrow>
             (\<not> allow_partial_refund rule \<and> amount \<noteq> so_paid order - so_refunded order)
             \<or> maximum_refunds_per_order rule \<le> int (so_refunds order))
         then reject st ''REFUND_POLICY_REJECTED''
         else and_then (of_option Caught (index_of (\<lambda>u. su_id u = so_user order) (ss_users st))) (\<lambda>ui.
           let user = ss_users st ! ui;
               user1 = user\<lparr>su_balance := su_balance user + amount\<rparr>;
               sum_refunded = so_refunded order + amount;
               full = (sum_refunded = so_paid order);
               revoking = revokes sim \<and> so_points order \<noteq> 0;
               target = revoke_target order sum_refunded;
               delta = (if revoking then max (target - so_revoked order) 0 else 0)
           in if revoking \<and> su_points user1 < delta then reject st ''POINTS_ALREADY_REDEEMED''
           else if revokes sim \<and> \<not> revoking then Inl Uncaught
           else
             let user2 = user1\<lparr>su_points := su_points user1 - delta\<rparr>;
                 order' = order\<lparr>so_refunded := sum_refunded,
                   so_revoked := (if revokes sim then target else so_revoked order),
                   so_refunds := so_refunds order + 1,
                   so_status := (if full then SimRefunded else SimPartiallyRefunded)\<rparr>
             in and_then (restore_coupon sim full order' (ss_coupons st)) (\<lambda>(coupons, restored).
                applied (st\<lparr>ss_users := (ss_users st)[ui := user2], ss_orders := (ss_orders st)[oi := order'],
                    ss_coupons := coupons\<rparr>)
                  ([event REFUND_ISSUED ''ORDER'' (so_id order) [(''amount'', JStr (amount_text amount))]] @
                   (if delta = 0 then [] else [event POINTS_REVOKED ''USER'' (su_id user)
                      [(''amount'', JInt delta), (''order_id'', JStr (so_id order))]]) @ restored))))))"

definition do_redeem_points :: "sim_state \<Rightarrow> sim_action \<Rightarrow> sim_handled" where
  "do_redeem_points st a = (case ss_users st of
       [] \<Rightarrow> reject st ''USER_NOT_FOUND''
     | user # rest \<Rightarrow>
         and_then (sim_int (argument_or a ''amount'' (JInt 0))) (\<lambda>amount.
         if amount \<le> 0 \<or> su_points user < amount then reject st ''INSUFFICIENT_POINTS''
         else applied (st\<lparr>ss_users := user\<lparr>su_points := su_points user - amount\<rparr> # rest\<rparr>)
           [event POINTS_REDEEMED ''USER'' (su_id user) [(''amount'', JInt amount)]]))"

definition do_activate_membership :: "simulator \<Rightarrow> sim_state \<Rightarrow> sim_action \<Rightarrow> sim_handled" where
  "do_activate_membership sim st a = (case sr_membership sim of
       None \<Rightarrow> reject st ''PRECONDITION_FAILED''
     | Some rule \<Rightarrow>
         if ss_users st = [] \<or> ss_memberships st \<noteq> [] then reject st ''PRECONDITION_FAILED''
         else (case index_of (\<lambda>u. su_id u = owner_of a) (ss_users st) of
             None \<Rightarrow> reject st ''USER_NOT_FOUND''
           | Some ui \<Rightarrow>
               and_then (money_argument a ''paid_amount'' (m_amount (price rule))) (\<lambda>paid.
               and_then (sim_int (argument_or a ''quantity'' (JInt (entitlement_quantity rule)))) (\<lambda>quantity.
               let user = ss_users st ! ui in
               if paid \<noteq> Number (m_amount (price rule)) \<or> quantity \<noteq> entitlement_quantity rule
                 \<or> su_balance user < m_amount (price rule)
               then reject st ''MEMBERSHIP_RULE_MISMATCH''
               else
                 let membership = \<lparr>sm_id = ''membership-1'', sm_user = su_id user, sm_paid = m_amount (price rule),
                       sm_currency = m_currency (price rule), sm_status = SimMActive, sm_refunded = 0\<rparr>;
                     entitlement = \<lparr>se_id = ''entitlement-1'', se_membership = sm_id membership,
                       se_granted = quantity, se_consumed = 0, se_revoked = 0\<rparr>;
                     user' = user\<lparr>su_balance := su_balance user - m_amount (price rule),
                       su_membership := SimActive\<rparr>
                 in applied (st\<lparr>ss_users := (ss_users st)[ui := user'], ss_memberships := [membership],
                        ss_entitlements := [entitlement]\<rparr>)
                      [event MEMBERSHIP_ACTIVATED ''MEMBERSHIP'' (sm_id membership) [],
                       event ENTITLEMENT_GRANTED ''ENTITLEMENT'' (se_id entitlement)
                         [(''quantity'', JInt quantity)]]))))"

definition do_consume_entitlement :: "sim_state \<Rightarrow> sim_action \<Rightarrow> sim_handled" where
  "do_consume_entitlement st a =
     (if ss_entitlements st = [] then reject st ''ENTITLEMENT_NOT_FOUND''
      else and_then (sim_int (argument_or a ''quantity'' (JInt 0))) (\<lambda>quantity.
        case index_of (\<lambda>e. Some (se_id e) = sa_target a) (ss_entitlements st) of
          None \<Rightarrow> reject st ''ENTITLEMENT_NOT_FOUND''
        | Some ei \<Rightarrow>
            let entitlement = ss_entitlements st ! ei in
            if quantity \<le> 0 \<or> sim_available entitlement < quantity then reject st ''INSUFFICIENT_ENTITLEMENT''
            else applied (st\<lparr>ss_entitlements := (ss_entitlements st)
                [ei := entitlement\<lparr>se_consumed := se_consumed entitlement + quantity\<rparr>]\<rparr>)
              [event ENTITLEMENT_CONSUMED ''ENTITLEMENT'' (se_id entitlement) [(''quantity'', JInt quantity)]]))"

text \<open>
  The prorated refund divides by the granted quantity. Zero is no refund: the membership is then
  only cancelled. Entitlements and users are read at index zero, which raises \<^verbatim>\<open>IndexError\<close>
  (not caught) when there is none.
\<close>

definition membership_refund :: "membership_rule \<Rightarrow> bool \<Rightarrow> sim_membership \<Rightarrow> sim_entitlement \<Rightarrow> rat" where
  "membership_refund rule requested m e =
     (if \<not> (requested \<and> rule_refund_policy rule \<noteq> NON_REFUNDABLE) then 0
      else if rule_refund_policy rule = PRORATED
        then quantize (sm_paid m * of_int (sim_available e) / of_int (se_granted e))
      else sm_paid m)"

definition do_cancel_membership :: "simulator \<Rightarrow> sim_state \<Rightarrow> sim_action \<Rightarrow> sim_handled" where
  "do_cancel_membership sim st a = (case (ss_memberships st, sr_membership sim) of
       (m # ms, Some rule) \<Rightarrow>
         if sm_status m \<noteq> SimMActive then reject st ''MEMBERSHIP_NOT_ACTIVE''
         else (case (ss_entitlements st, ss_users st) of
             (e # es, u # us) \<Rightarrow>
               let requested = py_truthy (argument_or a ''refund_requested'' (JBool False)) in
               if requested \<and> rule_refund_policy rule = UNUSED_ONLY \<and> se_consumed e \<noteq> 0
               then reject st ''ENTITLEMENT_CONSUMED''
               else if requested \<and> rule_refund_policy rule = PRORATED \<and> se_granted e = 0 then Inl Caught
               else
                 let refund = membership_refund rule requested m e;
                     m' = m\<lparr>sm_status := (if refund = 0 then SimMCancelled else SimMRefunded), sm_refunded := refund\<rparr>;
                     e' = e\<lparr>se_revoked := se_revoked e + sim_available e\<rparr>;
                     u' = u\<lparr>su_balance := su_balance u + refund, su_membership := SimInactive\<rparr>
                 in applied (st\<lparr>ss_users := u' # us, ss_memberships := m' # ms, ss_entitlements := e' # es\<rparr>)
                      [event MEMBERSHIP_CANCELLED ''MEMBERSHIP'' (sm_id m) [],
                       event ENTITLEMENT_REVOKED ''ENTITLEMENT'' (se_id e) []]
           | _ \<Rightarrow> Inl Uncaught)
     | _ \<Rightarrow> reject st ''MEMBERSHIP_NOT_ACTIVE'')"

section \<open>Transitions\<close>

text \<open>\<^verbatim>\<open>getattr(self, "_do_...", None)\<close>: there is no handler for cancelling an order.\<close>

fun sim_handler :: "simulator \<Rightarrow> action_type \<Rightarrow> (sim_state \<Rightarrow> sim_action \<Rightarrow> sim_handled) option" where
  "sim_handler sim CREATE_USER = Some do_create_user"
| "sim_handler sim ISSUE_COUPON = Some (do_issue_coupon sim)"
| "sim_handler sim CREATE_ORDER = Some do_create_order"
| "sim_handler sim APPLY_COUPON = Some do_apply_coupon"
| "sim_handler sim PAY_ORDER = Some (do_pay_order sim)"
| "sim_handler sim CANCEL_ORDER = None"
| "sim_handler sim REFUND_ORDER = Some (do_refund_order sim)"
| "sim_handler sim REDEEM_POINTS = Some do_redeem_points"
| "sim_handler sim ACTIVATE_MEMBERSHIP = Some (do_activate_membership sim)"
| "sim_handler sim CONSUME_ENTITLEMENT = Some do_consume_entitlement"
| "sim_handler sim CANCEL_MEMBERSHIP = Some (do_cancel_membership sim)"
| "sim_handler sim INSPECT_STATE = None"

fun sim_scenario_actions :: "scenario_type \<Rightarrow> action_type set" where
  "sim_scenario_actions PROMOTION =
     {ISSUE_COUPON, CREATE_ORDER, APPLY_COUPON, PAY_ORDER, CANCEL_ORDER, REFUND_ORDER}"
| "sim_scenario_actions REFUND_POINTS = {CREATE_ORDER, PAY_ORDER, CANCEL_ORDER, REFUND_ORDER, REDEEM_POINTS}"
| "sim_scenario_actions MEMBERSHIP_ENTITLEMENT = {ACTIVATE_MEMBERSHIP, CONSUME_ENTITLEMENT, CANCEL_MEMBERSHIP}"

definition marker :: "sim_action \<Rightarrow> (action_type \<times> string) option" where
  "marker a = (case sa_key a of None \<Rightarrow> None | Some k \<Rightarrow> if k = [] then None else Some (sa_action a, k))"

definition remember :: "sim_action \<Rightarrow> transition_result \<Rightarrow> transition_result" where
  "remember a r = (case marker a of
       None \<Rightarrow> r
     | Some m \<Rightarrow>
         if tn_status r = Applied then r\<lparr>tn_state := (tn_state r)\<lparr>ss_seen := insert m (ss_seen (tn_state r))\<rparr>\<rparr> else r)"

text \<open>No result when an exception escapes.\<close>

definition transition :: "simulator \<Rightarrow> sim_state \<Rightarrow> sim_action \<Rightarrow> transition_result option" where
  "transition sim st a =
     (if sa_action a \<notin> {CREATE_USER} \<union> sim_scenario_actions (ss_scenario st)
      then Some (unsupported st ''ACTION_NOT_SUPPORTED'')
      else if (case marker a of None \<Rightarrow> False | Some m \<Rightarrow> m \<in> ss_seen st)
      then Some \<lparr>tn_status = Applied, tn_state = st, tn_events = [], tn_code = None\<rparr>
      else (case sim_handler sim (sa_action a) of
          None \<Rightarrow> Some (unsupported st ''UNSUPPORTED_ACTION'')
        | Some h \<Rightarrow> (case h st a of
              Inl Caught \<Rightarrow> Some (rejected_result st ''INVALID_ARGUMENT'')
            | Inl Uncaught \<Rightarrow> None
            | Inr r \<Rightarrow> Some (remember a r))))"

section \<open>Offers\<close>

definition refund_offers :: "sim_order \<Rightarrow> sim_action list" where
  "refund_offers order =
     (if so_paid order \<le> 0 then []
      else let remaining = so_paid order - so_refunded order in
        [build_action REFUND_ORDER (Some (so_id order)) None
           [(''amount'', JStr (amount_text (if 0 < remaining then remaining else so_paid order)))],
         build_action REFUND_ORDER (Some (so_id order)) None [(''amount'', JStr (amount_text (remaining + 1 / 100)))]])"

definition promotion_offers :: "promotion_rule \<Rightarrow> sim_user \<Rightarrow> sim_state \<Rightarrow> sim_action list" where
  "promotion_offers rule user st =
     [build_action ISSUE_COUPON (Some (su_id user)) None
        [(''value'', JStr (money_text (discount_amount rule))),
         (''threshold'', JStr (money_text (minimum_order_amount rule)))],
      build_action CREATE_ORDER (Some (su_id user)) None
        [(''amount'', JStr (money_text (minimum_order_amount rule)))]]
     @ concat (map (\<lambda>order.
         map (\<lambda>coupon. build_action APPLY_COUPON (Some (so_id order)) None [(''coupon_id'', JStr (sc_id coupon))])
           (ss_coupons st)
         @ [build_action PAY_ORDER (Some (so_id order)) None []]
         @ refund_offers order) (ss_orders st))"

definition points_offers :: "sim_user \<Rightarrow> sim_state \<Rightarrow> sim_action list" where
  "points_offers user st =
     [build_action CREATE_ORDER (Some (su_id user)) None [(''amount'', JStr ''200.00'')]]
     @ concat (map (\<lambda>order. build_action PAY_ORDER (Some (so_id order)) None [] # refund_offers order) (ss_orders st))
     @ [build_action REDEEM_POINTS (Some (su_id user)) None [(''amount'', JInt (su_points user))],
        build_action REDEEM_POINTS (Some (su_id user)) None [(''amount'', JInt (su_points user + 1))]]"

definition membership_offers :: "membership_rule \<Rightarrow> sim_user \<Rightarrow> sim_state \<Rightarrow> sim_action list" where
  "membership_offers rule user st =
     [build_action ACTIVATE_MEMBERSHIP (Some (su_id user)) None
        [(''paid_amount'', JStr (money_text (price rule))), (''quantity'', JInt (entitlement_quantity rule))]]
     @ concat (map (\<lambda>e.
         [build_action CONSUME_ENTITLEMENT (Some (se_id e)) None [(''quantity'', JInt 1)],
          build_action CONSUME_ENTITLEMENT (Some (se_id e)) None [(''quantity'', JInt (max (sim_available e) 0 + 1))]])
         (ss_entitlements st))
     @ map (\<lambda>m. build_action CANCEL_MEMBERSHIP (Some (sm_id m)) None [(''refund_requested'', JBool True)])
         (ss_memberships st)"

definition legal_actions :: "simulator \<Rightarrow> sim_state \<Rightarrow> sim_action list" where
  "legal_actions sim st = (case ss_users st of
       [] \<Rightarrow> [build_action CREATE_USER None None [(''initial_balance'', JStr ''500.00'')]]
     | user # _ \<Rightarrow> sort_key canonical_key (case (ss_scenario st, sr_promotion sim, sr_membership sim) of
           (PROMOTION, Some rule, _) \<Rightarrow> promotion_offers rule user st
         | (REFUND_POINTS, _, _) \<Rightarrow> points_offers user st
         | (MEMBERSHIP_ENTITLEMENT, _, Some rule) \<Rightarrow> membership_offers rule user st
         | _ \<Rightarrow> []))"

lemmas sim_handler_defs = do_create_user_def do_issue_coupon_def do_create_order_def do_apply_coupon_def
  do_pay_order_def do_refund_order_def do_redeem_points_def do_activate_membership_def do_consume_entitlement_def
  do_cancel_membership_def

end
