(* ===== verification/Sim_Facts.thy ===== *)
theory Sim_Facts
  imports Sim_Ops Sandbox_Books
begin

text \<open>
  What the states of the rule model keep to (ids, cents, budgets, refund limits, points, coupons,
  entitlements), what no transition undoes (wealth, the progress of orders), and the inversion of each
  handler of \<^verbatim>\<open>simulator.py\<close>: what it wrote when it applied.
\<close>

section \<open>Updating by index\<close>

lemma sum_map_update:
  fixes f :: "'a \<Rightarrow> 'b::ab_group_add"
  assumes "i < length xs"
  shows "sum_list (map f (xs[i := x])) = sum_list (map f xs) + (f x - f (xs ! i))"
  using assms by (induction xs arbitrary: i) (auto split: nat.splits)

lemma map_update_same: "i < length xs \<Longrightarrow> k x = k (xs ! i) \<Longrightarrow> map k (xs[i := x]) = map k xs"
  by (simp add: map_update list_update_same_conv)

lemma numbered_update [simp]:
  "\<lbrakk>numbered k prefix xs; i < length xs; k x = k (xs ! i)\<rbrakk> \<Longrightarrow> numbered k prefix (xs[i := x])"
  by (simp add: numbered_def map_update_same)

lemma all_update: "\<lbrakk>\<forall>y \<in> set xs. P y; P x\<rbrakk> \<Longrightarrow> \<forall>y \<in> set (xs[i := x]). P y"
  using set_update_subset_insert [of xs i x] by auto

lemma ids_update [simp]: "\<lbrakk>i < length xs; k x = k (xs ! i)\<rbrakk> \<Longrightarrow> k ` set (xs[i := x]) = k ` set xs"
  using arg_cong [OF map_update_same [of i xs k x], of set] by simp

section \<open>What the states keep to\<close>

definition sim_valid :: "simulator \<Rightarrow> bool" where
  "sim_valid sim \<longleftrightarrow> (\<forall>r. sr_points sim = Some r \<longrightarrow> 0 < m_amount (spend_amount r) \<and> 0 \<le> rule_points_granted r)
     \<and> (\<forall>r. sr_refund sim = Some r \<longrightarrow> 1 \<le> maximum_refunds_per_order r)
     \<and> (\<forall>r. sr_membership sim = Some r \<longrightarrow> 0 < m_amount (price r) \<and> 1 \<le> entitlement_quantity r)"

lemma spec_sim_valid:
  assumes "spec_valid spec"
  shows "sim_valid (reference_simulator spec)"
proof -
  have valid: "rule_valid r" if "r \<in> set (rules spec)" for r
    using assms that by (auto simp: spec_valid_def list_all_iff)
  have "first_some as_points (rules spec) = Some p \<Longrightarrow> rule_valid (PointsRule p)" for p
    using valid [of "PointsRule p"] by (auto dest!: first_some_Some elim!: as_points.elims)
  moreover have "first_some as_refund (rules spec) = Some p \<Longrightarrow> rule_valid (RefundRule p)" for p
    using valid [of "RefundRule p"] by (auto dest!: first_some_Some elim!: as_refund.elims)
  moreover have "first_some as_membership (rules spec) = Some p \<Longrightarrow> rule_valid (MembershipRule p)" for p
    using valid [of "MembershipRule p"] by (auto dest!: first_some_Some elim!: as_membership.elims)
  ultimately show ?thesis by (auto simp: sim_valid_def reference_simulator_def)
qed

definition sim_order_ok :: "simulator \<Rightarrow> sim_order \<Rightarrow> bool" where
  "sim_order_ok sim d \<longleftrightarrow> is_cents (so_original d) \<and> is_cents (so_discount d) \<and> is_cents (so_paid d) \<and> is_cents (so_refunded d)
     \<and> 0 < so_original d \<and> 0 \<le> so_discount d \<and> so_discount d \<le> so_original d
     \<and> 0 \<le> so_revoked d \<and> so_revoked d \<le> so_points d \<and> 0 \<le> so_refunded d \<and> so_refunded d \<le> so_paid d
     \<and> (case so_status d of
          SimCreated \<Rightarrow> so_paid d = 0 \<and> so_points d = 0 \<and> so_refunds d = 0
        | SimPaid \<Rightarrow> so_refunded d = 0 \<and> so_refunds d = 0
        | SimPartiallyRefunded \<Rightarrow> 0 < so_refunded d \<and> so_refunded d < so_paid d
        | SimRefunded \<Rightarrow> 0 < so_refunded d \<and> so_refunded d = so_paid d)
     \<and> (so_status d \<noteq> SimCreated \<longrightarrow> so_paid d = so_original d - so_discount d
         \<and> so_points d = granted_points sim (so_paid d))
     \<and> (revokes sim \<and> 0 < so_refunds d \<longrightarrow> so_revoked d = revoke_target d (so_refunded d))
     \<and> (so_refunds d = 0 \<longrightarrow> so_revoked d = 0)
     \<and> (\<forall>r. sr_refund sim = Some r \<longrightarrow> int (so_refunds d) \<le> maximum_refunds_per_order r)"

definition sim_entitlement_ok :: "sim_entitlement \<Rightarrow> bool" where
  "sim_entitlement_ok e \<longleftrightarrow> 1 \<le> se_granted e \<and> 0 \<le> se_consumed e \<and> 0 \<le> se_revoked e \<and> 0 \<le> sim_available e"

definition sim_users_ok :: "sim_user list \<Rightarrow> bool" where
  "sim_users_ok us \<longleftrightarrow> us = [] \<or> (\<exists>u. us = [u] \<and> is_cents (su_balance u) \<and> 0 \<le> su_balance u \<and> 0 \<le> su_points u)"

definition sim_coupons_ok :: "sim_coupon list \<Rightarrow> bool" where
  "sim_coupons_ok cs \<longleftrightarrow> numbered sc_id ''coupon'' cs \<and> (\<forall>c \<in> set cs. is_cents (sc_face c) \<and> 0 < sc_face c \<and> 0 \<le> sc_threshold c)"

definition sim_orders_ok :: "simulator \<Rightarrow> sim_user list \<Rightarrow> sim_coupon list \<Rightarrow> sim_order list \<Rightarrow> bool" where
  "sim_orders_ok sim us cs ds \<longleftrightarrow> numbered so_id ''order'' ds \<and> (\<forall>d \<in> set ds. sim_order_ok sim d
     \<and> so_user d \<in> su_id ` set us \<and> (has_coupon d \<longrightarrow> so_coupon d \<in> Some ` sc_id ` set cs))"

definition sim_membership_ok :: "sim_membership \<Rightarrow> sim_entitlement \<Rightarrow> bool" where
  "sim_membership_ok m e \<longleftrightarrow> is_cents (sm_paid m) \<and> is_cents (sm_refunded m) \<and> 0 \<le> sm_paid m \<and> 0 \<le> sm_refunded m \<and> sm_refunded m \<le> sm_paid m \<and> sim_entitlement_ok e
     \<and> (if sm_status m = SimMActive then sm_refunded m = 0 \<and> se_revoked e = 0 else sim_available e = 0)"

definition sim_members_ok :: "sim_user list \<Rightarrow> sim_membership list \<Rightarrow> sim_entitlement list \<Rightarrow> bool" where
  "sim_members_ok us ms es \<longleftrightarrow> ms = [] \<and> es = []
     \<or> us \<noteq> [] \<and> (\<exists>m e. ms = [m] \<and> es = [e] \<and> sim_membership_ok m e)"

definition sim_ok :: "simulator \<Rightarrow> sim_state \<Rightarrow> bool" where
  "sim_ok sim st \<longleftrightarrow> sim_valid sim \<and> ss_scenario st = sr_scenario sim
     \<and> (\<forall>m \<in> ss_seen st. sim_handler sim (fst m) \<noteq> None) \<and> sim_users_ok (ss_users st) \<and> sim_coupons_ok (ss_coupons st)
     \<and> sim_orders_ok sim (ss_users st) (ss_coupons st) (ss_orders st)
     \<and> sim_members_ok (ss_users st) (ss_memberships st) (ss_entitlements st)"

definition sim_wealth :: "sim_state \<Rightarrow> rat" where
  "sim_wealth st = sum_list (map su_balance (ss_users st)) + sum_list (map (\<lambda>d. so_paid d - so_refunded d) (ss_orders st))
     + sum_list (map (\<lambda>m. sm_paid m - sm_refunded m) (ss_memberships st))"

fun sim_stage :: "sim_order_status \<Rightarrow> nat" where
  "sim_stage SimCreated = 0"
| "sim_stage SimPaid = 1"
| "sim_stage SimPartiallyRefunded = 2"
| "sim_stage SimRefunded = 3"

text \<open>What a transition never undoes.\<close>

definition sim_later :: "sim_state \<Rightarrow> sim_state \<Rightarrow> bool" where
  "sim_later st st' \<longleftrightarrow> ss_scenario st' = ss_scenario st \<and> (ss_users st \<noteq> [] \<longrightarrow> ss_users st' \<noteq> [] \<and> sim_wealth st' = sim_wealth st)
     \<and> length (ss_orders st) \<le> length (ss_orders st')
     \<and> (\<forall>i < length (ss_orders st). so_id (ss_orders st' ! i) = so_id (ss_orders st ! i)
          \<and> sim_stage (so_status (ss_orders st ! i)) \<le> sim_stage (so_status (ss_orders st' ! i))
          \<and> so_refunded (ss_orders st ! i) \<le> so_refunded (ss_orders st' ! i)
          \<and> so_refunds (ss_orders st ! i) \<le> so_refunds (ss_orders st' ! i))
     \<and> ss_seen st \<subseteq> ss_seen st'"

lemma sim_later_refl [simp, intro]: "sim_later st st"
  by (simp add: sim_later_def)

lemma sim_later_trans: "sim_later a b \<Longrightarrow> sim_later b c \<Longrightarrow> sim_later a c"
  unfolding sim_later_def by (auto intro: order_trans)

text \<open>An update of one order by a later version of it.\<close>

lemma sim_later_order:
  assumes "oi < length (ss_orders st)" "ss_orders st' = (ss_orders st)[oi := ss_orders st' ! oi]"
    and "so_id (ss_orders st' ! oi) = so_id (ss_orders st ! oi)"
    and "sim_stage (so_status (ss_orders st ! oi)) \<le> sim_stage (so_status (ss_orders st' ! oi))"
    and "so_refunded (ss_orders st ! oi) \<le> so_refunded (ss_orders st' ! oi)"
    and "so_refunds (ss_orders st ! oi) \<le> so_refunds (ss_orders st' ! oi)"
    and "ss_scenario st' = ss_scenario st"
    and "ss_users st \<noteq> [] \<longrightarrow> ss_users st' \<noteq> [] \<and> sim_wealth st' = sim_wealth st" "ss_seen st' = ss_seen st"
  shows "sim_later st st'"
proof -
  have "length (ss_orders st') = length (ss_orders st)" by (subst assms(2)) simp
  moreover have "ss_orders st' ! i = ss_orders st ! i" if "i \<noteq> oi" for i by (subst assms(2)) (simp add: that [symmetric])
  ultimately show ?thesis using assms(3-) unfolding sim_later_def by (metis order_refl)
qed

lemma sim_later_other:
  assumes "ss_orders st' = ss_orders st"
    and "ss_scenario st' = ss_scenario st" "ss_users st \<noteq> [] \<longrightarrow> ss_users st' \<noteq> [] \<and> sim_wealth st' = sim_wealth st" "ss_seen st' = ss_seen st"
  shows "sim_later st st'"
  using assms by (simp add: sim_later_def)

section \<open>Handlers keep it\<close>

definition keeps :: "simulator \<Rightarrow> sim_state \<Rightarrow> transition_result \<Rightarrow> bool" where
  "keeps sim st r \<longleftrightarrow> (tn_status r \<noteq> Applied \<longrightarrow> tn_state r = st) \<and> sim_ok sim (tn_state r) \<and> sim_later st (tn_state r)
     \<and> ss_seen (tn_state r) = ss_seen st"

lemma keeps_rejected: "sim_ok sim st \<Longrightarrow> keeps sim st (rejected_result st code)"
  by (simp add: rejected_result_def keeps_def)

definition writes :: "transition_result \<Rightarrow> sim_state \<Rightarrow> bool" where
  "writes r st' \<longleftrightarrow> tn_state r = st' \<and> tn_status r = Applied"

lemma keepsI: "\<lbrakk>writes r st'; ss_seen st' = ss_seen st; sim_ok sim st'; sim_later st st'\<rbrakk> \<Longrightarrow> keeps sim st r"
  by (simp add: keeps_def writes_def)

lemma handled_simps:
  "reject st code = Inr r \<longleftrightarrow> r = rejected_result st code"
  "reject st code \<noteq> Inl e" "applied st' evs \<noteq> Inl e"
  by (auto simp: reject_def applied_def)

lemma rejected_status [simp]: "tn_status (rejected_result st code) = Rejected" "tn_state (rejected_result st code) = st"
  by (simp_all add: rejected_result_def)

lemma applied_writes: "applied st' evs = Inr r \<Longrightarrow> writes r st'"
  by (auto simp: applied_def writes_def)

lemma compared_Inr [simp]: "compared n = Inr q \<longleftrightarrow> n = Number q"
  by (auto simp: compared_def split: sim_number.splits)

lemma quantize_checked_cents: "quantize_checked x = Some q \<Longrightarrow> is_cents q"
  by (auto simp: quantize_checked_def split: if_splits)

lemma sim_quantize_cents: "sim_quantize d = Inr (Number q) \<Longrightarrow> is_cents q"
  by (auto simp: sim_quantize_def split: option.splits pydec.splits dest: quantize_checked_cents)

lemma sim_money_cents: "sim_money v = Inr (Number q) \<Longrightarrow> is_cents q"
  by (auto simp: sim_money_def dest: sim_quantize_cents)

lemma money_argument_cents: "money_argument a name d = Inr (Number q) \<Longrightarrow> is_cents q"
  by (auto simp: money_argument_def split: if_splits dest: sim_quantize_cents sim_money_cents)

lemma guard_simps:
  assumes "tn_status r = Applied"
  shows "reject st code \<noteq> Inr r" "(if c then reject st code else x) = Inr r \<longleftrightarrow> \<not> c \<and> x = Inr r"
    "(if c then Inl e else x) = Inr r \<longleftrightarrow> \<not> c \<and> x = Inr r"
    "(case opt of None \<Rightarrow> reject st code | Some i \<Rightarrow> f i) = Inr r \<longleftrightarrow> (\<exists>i. opt = Some i \<and> f i = Inr r)"
    "(case opt' of None \<Rightarrow> False | Some rule \<Rightarrow> P rule) \<longleftrightarrow> (\<exists>rule. opt' = Some rule \<and> P rule)"
  using assms by (auto simp: reject_def rejected_result_def split: option.splits)

lemma create_user_cases:
  "do_create_user st a = Inr r \<Longrightarrow> tn_status r = Applied \<Longrightarrow> (\<exists>u. writes r (st\<lparr>ss_users := [u]\<rparr>) \<and> ss_users st = [] \<and> is_cents (su_balance u) \<and> 0 \<le> su_balance u \<and> su_points u = 0)"
  by (auto simp: do_create_user_def result_simps handled_simps Let_def split: if_splits dest!: applied_writes)
    (intro exI conjI, assumption, auto dest: sim_money_cents)

lemma issue_coupon_cases:
  "do_issue_coupon sim st a = Inr r \<Longrightarrow> tn_status r = Applied \<Longrightarrow> (\<exists>c. writes r (st\<lparr>ss_coupons := ss_coupons st @ [c]\<rparr>) \<and> sc_id c = next_id (ss_coupons st) ''coupon''
        \<and> is_cents (sc_face c) \<and> 0 < sc_face c \<and> 0 \<le> sc_threshold c)"
  by (auto simp: do_issue_coupon_def result_simps handled_simps Let_def split: if_splits option.splits dest!: applied_writes)
    (intro exI conjI, assumption, auto dest: money_argument_cents)

lemma create_order_cases:
  "do_create_order st a = Inr r \<Longrightarrow> tn_status r = Applied \<Longrightarrow> (\<exists>d. writes r (st\<lparr>ss_orders := ss_orders st @ [d]\<rparr>) \<and> so_id d = next_id (ss_orders st) ''order''
        \<and> is_cents (so_original d) \<and> 0 < so_original d \<and> so_discount d = 0 \<and> so_paid d = 0
        \<and> so_refunded d = 0 \<and> so_points d = 0 \<and> so_revoked d = 0 \<and> so_refunds d = 0 \<and> so_status d = SimCreated
        \<and> so_coupon d = None \<and> so_user d \<in> su_id ` set (ss_users st))"
  by (auto simp: do_create_order_def result_simps handled_simps Let_def split: if_splits dest!: applied_writes)
    (intro exI conjI, assumption, simp_all add: sim_money_cents, metis image_eqI)

lemma apply_coupon_cases:
  "do_apply_coupon st a = Inr r \<Longrightarrow> tn_status r = Applied \<Longrightarrow> (\<exists>oi ci res. writes r (st\<lparr>ss_orders := (ss_orders st)[oi := (ss_orders st ! oi)\<lparr>so_coupon := Some (py_str (argument_or a ''coupon_id'' (JStr []))),
              so_discount := min (sc_face (ss_coupons st ! ci)) (so_original (ss_orders st ! oi))\<rparr>],
            ss_coupons := (ss_coupons st)[ci := (ss_coupons st ! ci)\<lparr>sc_status := SimReserved, sc_reserved := res\<rparr>]\<rparr>)
        \<and> oi < length (ss_orders st) \<and> ci < length (ss_coupons st) \<and> so_status (ss_orders st ! oi) = SimCreated
        \<and> \<not> has_coupon (ss_orders st ! oi) \<and> sc_id (ss_coupons st ! ci) = py_str (argument_or a ''coupon_id'' (JStr [])))"
  by (auto simp: do_apply_coupon_def handled_simps Let_def split: if_splits option.splits dest!: index_of_Some applied_writes)

lemma use_coupon_ids:
  "use_coupon d cs = Inr (cs', evs) \<Longrightarrow> length cs' = length cs \<and> map sc_id cs' = map sc_id cs \<and> map sc_face cs' = map sc_face cs
    \<and> map sc_threshold cs' = map sc_threshold cs"
  by (auto simp: use_coupon_def map_update_same split: if_splits option.splits dest!: index_of_Some)

lemma restore_coupon_ids:
  "restore_coupon sim full d cs = Inr (cs', evs) \<Longrightarrow> length cs' = length cs \<and> map sc_id cs' = map sc_id cs
    \<and> map sc_face cs' = map sc_face cs \<and> map sc_threshold cs' = map sc_threshold cs"
  by (auto simp: restore_coupon_def map_update_same split: if_splits option.splits dest!: index_of_Some)

definition paid_order :: "simulator \<Rightarrow> sim_order \<Rightarrow> sim_order" where
  "paid_order sim d = d\<lparr>so_paid := so_original d - so_discount d,
     so_points := granted_points sim (so_original d - so_discount d), so_status := SimPaid\<rparr>"

lemma pay_order_cases:
  "do_pay_order sim st a = Inr r \<Longrightarrow> tn_status r = Applied \<Longrightarrow> (\<exists>oi ui cs u'. writes r (st\<lparr>ss_users := (ss_users st)[ui := u'],
            ss_orders := (ss_orders st)[oi := paid_order sim (ss_orders st ! oi)], ss_coupons := cs\<rparr>)
        \<and> oi < length (ss_orders st) \<and> ui < length (ss_users st) \<and> so_status (ss_orders st ! oi) = SimCreated
        \<and> 0 \<le> su_balance u' \<and> su_id u' = su_id (ss_users st ! ui)
        \<and> su_balance u' = su_balance (ss_users st ! ui) - so_paid (paid_order sim (ss_orders st ! oi))
        \<and> su_points u' = su_points (ss_users st ! ui) + so_points (paid_order sim (ss_orders st ! oi))
        \<and> (\<exists>evs. use_coupon (paid_order sim (ss_orders st ! oi)) (ss_coupons st) = Inr (cs, evs)))"
  by (auto simp: do_pay_order_def result_simps handled_simps Let_def split: if_splits option.splits
      dest!: index_of_Some applied_writes simp flip: paid_order_def)
    (intro exI conjI, assumption, simp_all add: paid_order_def)+

definition refunded_order :: "simulator \<Rightarrow> sim_order \<Rightarrow> rat \<Rightarrow> sim_order" where
  "refunded_order sim d q = d\<lparr>so_refunded := so_refunded d + q,
     so_revoked := (if revokes sim then revoke_target d (so_refunded d + q) else so_revoked d),
     so_refunds := Suc (so_refunds d),
     so_status := (if so_refunded d + q = so_paid d then SimRefunded else SimPartiallyRefunded)\<rparr>"

definition points_taken :: "simulator \<Rightarrow> sim_order \<Rightarrow> rat \<Rightarrow> int" where
  "points_taken sim d q = (if revokes sim then max (revoke_target d (so_refunded d + q) - so_revoked d) 0 else 0)"

lemma refund_order_cases:
  "do_refund_order sim st a = Inr r \<Longrightarrow> tn_status r = Applied \<Longrightarrow> (\<exists>oi ui cs u' q.
        writes r (st\<lparr>ss_users := (ss_users st)[ui := u'],
            ss_orders := (ss_orders st)[oi := refunded_order sim (ss_orders st ! oi) q], ss_coupons := cs\<rparr>)
        \<and> oi < length (ss_orders st) \<and> ui < length (ss_users st)
        \<and> (so_status (ss_orders st ! oi) = SimPaid \<or> so_status (ss_orders st ! oi) = SimPartiallyRefunded)
        \<and> is_cents q \<and> 0 < q \<and> so_refunded (ss_orders st ! oi) + q \<le> so_paid (ss_orders st ! oi)
        \<and> (\<forall>rule. sr_refund sim = Some rule \<longrightarrow> int (so_refunds (ss_orders st ! oi)) < maximum_refunds_per_order rule)
        \<and> su_id u' = su_id (ss_users st ! ui) \<and> su_balance u' = su_balance (ss_users st ! ui) + q
        \<and> su_points u' = su_points (ss_users st ! ui) - points_taken sim (ss_orders st ! oi) q
        \<and> (0 \<le> su_points (ss_users st ! ui) \<longrightarrow> 0 \<le> su_points u')
        \<and> (\<exists>full d evs. restore_coupon sim full d (ss_coupons st) = Inr (cs, evs)))"
  by (clarsimp simp: do_refund_order_def result_simps guard_simps Let_def dest!: index_of_Some applied_writes)
    (intro exI conjI, unfold refunded_order_def, assumption, auto simp: points_taken_def dest: sim_money_cents)

lemma redeem_points_cases:
  "do_redeem_points st a = Inr r \<Longrightarrow> tn_status r = Applied \<Longrightarrow> (\<exists>q u us. writes r (st\<lparr>ss_users := u\<lparr>su_points := su_points u - q\<rparr> # us\<rparr>)
      \<and> ss_users st = u # us \<and> 0 < q \<and> q \<le> su_points u)"
  by (auto simp: do_redeem_points_def result_simps handled_simps Let_def split: if_splits list.splits
      dest!: applied_writes)

lemma activate_membership_cases:
  "do_activate_membership sim st a = Inr r \<Longrightarrow> tn_status r = Applied \<Longrightarrow> (\<exists>rule ui u' m e.
        writes r (st\<lparr>ss_users := (ss_users st)[ui := u'], ss_memberships := [m], ss_entitlements := [e]\<rparr>)
        \<and> sr_membership sim = Some rule \<and> ui < length (ss_users st) \<and> ss_memberships st = []
        \<and> su_id u' = su_id (ss_users st ! ui) \<and> su_points u' = su_points (ss_users st ! ui)
        \<and> su_balance u' = su_balance (ss_users st ! ui) - m_amount (price rule) \<and> 0 \<le> su_balance u'
        \<and> is_cents (sm_paid m) \<and> sm_paid m = m_amount (price rule) \<and> sm_refunded m = 0 \<and> sm_status m = SimMActive
        \<and> se_granted e = entitlement_quantity rule \<and> se_consumed e = 0 \<and> se_revoked e = 0)"
  by (clarsimp simp: do_activate_membership_def result_simps guard_simps Let_def dest!: index_of_Some applied_writes)
    (intro exI conjI, assumption, auto dest: money_argument_cents)

lemma consume_entitlement_cases:
  "do_consume_entitlement st a = Inr r \<Longrightarrow> tn_status r = Applied \<Longrightarrow> (\<exists>ei q.
        writes r (st\<lparr>ss_entitlements := (ss_entitlements st)
            [ei := (ss_entitlements st ! ei)\<lparr>se_consumed := se_consumed (ss_entitlements st ! ei) + q\<rparr>]\<rparr>)
        \<and> ei < length (ss_entitlements st) \<and> 0 < q \<and> q \<le> sim_available (ss_entitlements st ! ei))"
  by (clarsimp simp: do_consume_entitlement_def result_simps guard_simps Let_def dest!: index_of_Some applied_writes)
    (intro exI conjI, assumption, auto)

definition cancelled_membership :: "sim_membership \<Rightarrow> rat \<Rightarrow> sim_membership" where
  "cancelled_membership m q = m\<lparr>sm_status := (if q = 0 then SimMCancelled else SimMRefunded), sm_refunded := q\<rparr>"

lemma cancel_membership_cases:
  "do_cancel_membership sim st a = Inr r \<Longrightarrow> tn_status r = Applied \<Longrightarrow> (\<exists>rule requested q u us m ms e es.
        writes r (st\<lparr>ss_users := u\<lparr>su_balance := su_balance u + q, su_membership := SimInactive\<rparr> # us,
            ss_memberships := cancelled_membership m q # ms,
            ss_entitlements := e\<lparr>se_revoked := se_revoked e + sim_available e\<rparr> # es\<rparr>)
        \<and> sr_membership sim = Some rule \<and> ss_users st = u # us \<and> ss_memberships st = m # ms
        \<and> ss_entitlements st = e # es \<and> sm_status m = SimMActive \<and> q = membership_refund rule requested m e)"
  by (cases "ss_users st"; cases "ss_entitlements st"; cases "ss_memberships st"; cases "sr_membership sim")
    (auto simp: do_cancel_membership_def result_simps guard_simps Let_def simp flip: cancelled_membership_def
      dest!: applied_writes)

end
