(* ===== verification/Sim_Safety.thy ===== *)
theory Sim_Safety
  imports Sim_Facts
begin

text \<open>
  Every handler and every transition of the rule model keeps its states valid and only moves them
  forward, so every run does; what is not applied leaves no trace.
\<close>

section \<open>Orders\<close>

lemma granted_points_nonneg: "sim_valid sim \<Longrightarrow> 0 \<le> q \<Longrightarrow> 0 \<le> granted_points sim q"
  by (auto simp: granted_points_def sim_valid_def split: option.splits)

lemma paid_order_ok:
  assumes "sim_valid sim" "sim_order_ok sim d" "so_status d = SimCreated"
  shows "sim_order_ok sim (paid_order sim d)"
  using assms granted_points_nonneg [of sim "so_original d - so_discount d"]
  by (auto simp: sim_order_ok_def paid_order_def)

lemma revoke_target_mono:
  assumes "0 < so_paid d" "0 \<le> so_points d" "x \<le> y" "y \<le> so_paid d"
  shows "revoke_target d x \<le> revoke_target d y"
proof (cases "y = so_paid d \<and> x \<noteq> so_paid d")
  case True
  have "of_int (so_points d) * x / so_paid d \<le> of_int (so_points d)"
    using assms by (simp add: divide_le_eq mult_left_mono)
  then show ?thesis using True by (simp add: revoke_target_def floor_le_iff)
next
  case False
  have "of_int (so_points d) * x / so_paid d \<le> of_int (so_points d) * y / so_paid d"
    using assms by (simp add: divide_right_mono mult_left_mono)
  then show ?thesis using False assms by (auto simp: revoke_target_def floor_mono)
qed

lemma revoke_target_bounds:
  assumes "0 < so_paid d" "0 \<le> so_points d" "0 \<le> x" "x \<le> so_paid d"
  shows "0 \<le> revoke_target d x" "revoke_target d x \<le> so_points d"
  using revoke_target_mono [OF assms(1,2,4)] assms by (auto simp: revoke_target_def)

lemma revoke_target_cong: "so_paid d = so_paid d' \<Longrightarrow> so_points d = so_points d' \<Longrightarrow> revoke_target d = revoke_target d'"
  by (simp add: revoke_target_def fun_eq_iff)

lemma refunded_order_ok:
  assumes ok: "sim_order_ok sim d" "so_status d = SimPaid \<or> so_status d = SimPartiallyRefunded"
    and q: "is_cents q" "0 < q" "so_refunded d + q \<le> so_paid d"
    and n: "\<forall>rule. sr_refund sim = Some rule \<longrightarrow> int (so_refunds d) < maximum_refunds_per_order rule"
  shows "sim_order_ok sim (refunded_order sim d q)"
proof -
  have d: "0 \<le> so_refunded d" "0 \<le> so_points d" "0 \<le> so_revoked d" "so_revoked d \<le> so_points d"
    using ok by (auto simp: sim_order_ok_def)
  then have "0 < so_paid d" "0 \<le> so_refunded d + q" using q by linarith+
  then have "0 \<le> revoke_target d (so_refunded d + q)" "revoke_target d (so_refunded d + q) \<le> so_points d"
    using revoke_target_bounds [of d "so_refunded d + q"] d q by blast+
  moreover have "revoke_target (refunded_order sim d q) = revoke_target d"
    by (rule revoke_target_cong) (simp_all add: refunded_order_def)
  ultimately show ?thesis using ok q n d
    by (auto simp: sim_order_ok_def refunded_order_def)
qed

text \<open>The points a refund takes are the growth of what the order has revoked.\<close>

lemma points_taken_growth:
  assumes "sim_order_ok sim d" "so_status d = SimPaid \<or> so_status d = SimPartiallyRefunded"
    and "0 < q" "so_refunded d + q \<le> so_paid d"
  shows "points_taken sim d q = so_revoked (refunded_order sim d q) - so_revoked d"
proof -
  have d: "0 \<le> so_refunded d" "0 \<le> so_points d" using assms by (auto simp: sim_order_ok_def)
  then have p: "0 < so_paid d" using assms by linarith
  have "so_revoked d \<le> revoke_target d (so_refunded d + q)" if "revokes sim"
  proof (cases "so_refunds d = 0")
    case True
    then show ?thesis using assms d p revoke_target_bounds(1) [of d "so_refunded d + q"] by (auto simp: sim_order_ok_def)
  next
    case False
    then have "so_revoked d = revoke_target d (so_refunded d)" using assms that by (auto simp: sim_order_ok_def)
    then show ?thesis using revoke_target_mono [OF p d(2)] assms by simp
  qed
  then show ?thesis by (simp add: points_taken_def refunded_order_def)
qed

section \<open>Every operation keeps the state valid\<close>

definition same_coupons :: "sim_coupon list \<Rightarrow> sim_coupon list \<Rightarrow> bool" where
  "same_coupons cs cs' \<longleftrightarrow> map (\<lambda>c. (sc_id c, sc_face c, sc_threshold c)) cs' = map (\<lambda>c. (sc_id c, sc_face c, sc_threshold c)) cs"

lemma same_coupons_update:
  "\<lbrakk>i < length cs; sc_id c = sc_id (cs ! i); sc_face c = sc_face (cs ! i); sc_threshold c = sc_threshold (cs ! i)\<rbrakk>
    \<Longrightarrow> same_coupons cs (cs[i := c])"
  by (simp add: same_coupons_def map_update_same)

lemma use_coupon_same: "use_coupon d cs = Inr (cs', evs) \<Longrightarrow> same_coupons cs cs'"
  by (auto simp: use_coupon_def same_coupons_update split: if_splits option.splits dest!: index_of_Some)
    (simp add: same_coupons_def)

lemma restore_coupon_same: "restore_coupon sim full d cs = Inr (cs', evs) \<Longrightarrow> same_coupons cs cs'"
  by (auto simp: restore_coupon_def same_coupons_update split: if_splits option.splits dest!: index_of_Some)
    (simp_all add: same_coupons_def)

lemma same_coupons_ids: "same_coupons cs cs' \<Longrightarrow> map sc_id cs' = map sc_id cs"
  unfolding same_coupons_def by (drule arg_cong [where f = "map fst"]) (simp add: comp_def)

lemma same_coupons_ok:
  assumes same: "same_coupons cs cs'" and ok: "sim_coupons_ok cs"
  shows "sim_coupons_ok cs'"
proof -
  have "length cs' = length cs" using same unfolding same_coupons_def by (rule map_eq_imp_length_eq)
  moreover have "set (map (\<lambda>c. (sc_id c, sc_face c, sc_threshold c)) cs') = set (map (\<lambda>c. (sc_id c, sc_face c, sc_threshold c)) cs)"
    using same by (simp only: same_coupons_def)
  ultimately have "\<forall>c \<in> set cs'. \<exists>c0 \<in> set cs. sc_face c = sc_face c0 \<and> sc_threshold c = sc_threshold c0"
    by (auto simp: set_eq_iff image_iff) (metis prod.inject)
  then show ?thesis using ok same_coupons_ids [OF same] \<open>length cs' = length cs\<close>
    by (simp add: sim_coupons_ok_def numbered_def) metis
qed

lemma same_coupons_orders:
  "same_coupons cs cs' \<Longrightarrow> sim_orders_ok sim us cs ds \<Longrightarrow> sim_orders_ok sim us cs' ds"
  using arg_cong [OF same_coupons_ids, of cs cs' set] by (simp add: sim_orders_ok_def)

lemma orders_ok_update:
  "\<lbrakk>sim_orders_ok sim us cs ds; i < length ds; sim_order_ok sim d; so_id d = so_id (ds ! i);
     so_user d = so_user (ds ! i); has_coupon d \<Longrightarrow> so_coupon d \<in> Some ` sc_id ` set cs\<rbrakk>
    \<Longrightarrow> sim_orders_ok sim us cs (ds[i := d])"
  unfolding sim_orders_ok_def by (auto simp: dest!: set_update_subset_insert [THEN subsetD])

lemma orders_ok_users: "sim_orders_ok sim us cs ds \<Longrightarrow> su_id ` set us' = su_id ` set us \<Longrightarrow> sim_orders_ok sim us' cs ds"
  by (simp add: sim_orders_ok_def)

lemma orders_ok_at:
  assumes "sim_orders_ok sim us cs ds" "i < length ds"
  shows "sim_order_ok sim (ds ! i)" "has_coupon (ds ! i) \<Longrightarrow> so_coupon (ds ! i) \<in> Some ` sc_id ` set cs"
  using assms by (simp_all add: sim_orders_ok_def)

lemma create_user_keeps: "do_create_user st a = Inr r \<Longrightarrow> tn_status r = Applied \<Longrightarrow> sim_ok sim st \<Longrightarrow> keeps sim st r"
  by (auto dest!: create_user_cases intro!: keepsI sim_later_other
      simp: sim_ok_def sim_users_ok_def sim_orders_ok_def sim_members_ok_def)

lemma issue_coupon_keeps:
  "do_issue_coupon sim st a = Inr r \<Longrightarrow> tn_status r = Applied \<Longrightarrow> sim_ok sim st \<Longrightarrow> keeps sim st r"
  by (auto dest!: issue_coupon_cases intro!: keepsI sim_later_other
      simp: sim_ok_def sim_coupons_ok_def sim_orders_ok_def sim_wealth_def)

lemma create_order_keeps:
  assumes "do_create_order st a = Inr r" "tn_status r = Applied" "sim_ok sim st"
  shows "keeps sim st r"
proof -
  from create_order_cases [OF assms(1,2)] obtain d where w: "writes r (st\<lparr>ss_orders := ss_orders st @ [d]\<rparr>)"
    and d: "so_id d = next_id (ss_orders st) ''order''" "is_cents (so_original d)" "0 < so_original d" "so_discount d = 0" "so_paid d = 0"
      "so_refunded d = 0" "so_points d = 0" "so_revoked d = 0" "so_refunds d = 0" "so_status d = SimCreated"
      "so_coupon d = None" "so_user d \<in> su_id ` set (ss_users st)" by blast
  have "sim_order_ok sim d" using assms(3) d by (auto simp: sim_order_ok_def sim_ok_def sim_valid_def)
  then have "sim_ok sim (st\<lparr>ss_orders := ss_orders st @ [d]\<rparr>)"
    using assms(3) d by (auto simp: sim_ok_def sim_orders_ok_def has_coupon_def)
  moreover have "sim_later st (st\<lparr>ss_orders := ss_orders st @ [d]\<rparr>)"
    using d by (simp add: sim_later_def sim_wealth_def nth_append)
  ultimately show ?thesis using w by (intro keepsI) simp_all
qed

lemma apply_coupon_keeps:
  assumes "do_apply_coupon st a = Inr r" "tn_status r = Applied" "sim_ok sim st"
  shows "keeps sim st r"
proof -
  let ?id = "py_str (argument_or a ''coupon_id'' (JStr []))"
  from apply_coupon_cases [OF assms(1,2)] obtain oi ci res
    where w: "writes r (st\<lparr>ss_orders := (ss_orders st)[oi := (ss_orders st ! oi)\<lparr>so_coupon := Some ?id,
              so_discount := min (sc_face (ss_coupons st ! ci)) (so_original (ss_orders st ! oi))\<rparr>],
            ss_coupons := (ss_coupons st)[ci := (ss_coupons st ! ci)\<lparr>sc_status := SimReserved, sc_reserved := res\<rparr>]\<rparr>)"
      (is "writes r ?st'")
    and i: "oi < length (ss_orders st)" "ci < length (ss_coupons st)" "so_status (ss_orders st ! oi) = SimCreated"
      "sc_id (ss_coupons st ! ci) = ?id" by blast
  have same: "same_coupons (ss_coupons st) (ss_coupons ?st')" using i by (simp add: same_coupons_update)
  have cs: "sim_coupons_ok (ss_coupons st)" and os: "sim_orders_ok sim (ss_users st) (ss_coupons st) (ss_orders st)"
    using assms(3) by (simp_all add: sim_ok_def)
  have face: "0 < sc_face (ss_coupons st ! ci)" "is_cents (sc_face (ss_coupons st ! ci))"
    using cs nth_mem [OF i(2)] unfolding sim_coupons_ok_def by blast+
  have "Some ?id \<in> Some ` sc_id ` set (ss_coupons st)" using i by (metis imageI nth_mem)
  then have "sim_orders_ok sim (ss_users st) (ss_coupons st) (ss_orders ?st')"
    using orders_ok_at(1) [OF os i(1)] i face
    by (auto intro!: orders_ok_update os simp: sim_order_ok_def)
  then have "sim_orders_ok sim (ss_users ?st') (ss_coupons ?st') (ss_orders ?st')"
    using same_coupons_orders [OF same] by simp
  then have "sim_ok sim ?st'" using assms(3) same_coupons_ok [OF same cs] by (simp add: sim_ok_def)
  moreover have "sim_later st ?st'"
    using i by (intro sim_later_order [OF i(1)]) (simp_all add: sim_wealth_def sum_map_update)
  ultimately show ?thesis using w by (intro keepsI) simp_all
qed

lemma one_user:
  assumes "sim_users_ok us" "ui < length us"
  obtains u where "us = [u]" "ui = 0" "is_cents (su_balance u)" "0 \<le> su_balance u" "0 \<le> su_points u"
  using assms by (auto simp: sim_users_ok_def)

lemma members_ok_users:
  "sim_members_ok us ms es \<Longrightarrow> us' \<noteq> [] \<or> us = [] \<Longrightarrow> sim_members_ok us' ms es"
  by (auto simp: sim_members_ok_def)

text \<open>Paying and refunding: one user, one order and the order's coupon change.\<close>

lemma order_write_ok:
  assumes ok: "sim_ok sim st" and oi: "oi < length (ss_orders st)"
    and us: "ss_users st = [u]" "su_id u' = su_id u" "is_cents (su_balance u')" "0 \<le> su_balance u'" "0 \<le> su_points u'"
    and cs: "same_coupons (ss_coupons st) cs"
    and d: "sim_order_ok sim d" "so_id d = so_id (ss_orders st ! oi)" "so_user d = so_user (ss_orders st ! oi)"
      "so_coupon d = so_coupon (ss_orders st ! oi)"
  shows "sim_ok sim (st\<lparr>ss_users := [u'], ss_orders := (ss_orders st)[oi := d], ss_coupons := cs\<rparr>)"
proof -
  have os: "sim_orders_ok sim [u] (ss_coupons st) (ss_orders st)" using ok us by (simp add: sim_ok_def)
  have "has_coupon d \<Longrightarrow> so_coupon d \<in> Some ` sc_id ` set (ss_coupons st)"
    using orders_ok_at(2) [OF os oi] d(4) by (simp add: has_coupon_def)
  with os oi d have "sim_orders_ok sim [u] (ss_coupons st) ((ss_orders st)[oi := d])" by (intro orders_ok_update)
  then have "sim_orders_ok sim [u'] cs ((ss_orders st)[oi := d])"
    using us by (intro same_coupons_orders [OF cs]) (auto intro: orders_ok_users)
  moreover have "sim_coupons_ok cs" using ok by (intro same_coupons_ok [OF cs]) (simp add: sim_ok_def)
  ultimately show ?thesis using ok us by (auto simp: sim_ok_def sim_users_ok_def intro: members_ok_users)
qed

lemma pay_order_keeps:
  assumes "do_pay_order sim st a = Inr r" "tn_status r = Applied" "sim_ok sim st"
  shows "keeps sim st r"
proof -
  from pay_order_cases [OF assms(1,2)] obtain oi ui cs u' evs
    where w: "writes r (st\<lparr>ss_users := (ss_users st)[ui := u'],
            ss_orders := (ss_orders st)[oi := paid_order sim (ss_orders st ! oi)], ss_coupons := cs\<rparr>)"
      (is "writes r ?st'")
    and i: "oi < length (ss_orders st)" "ui < length (ss_users st)" "so_status (ss_orders st ! oi) = SimCreated"
    and u': "0 \<le> su_balance u'" "su_id u' = su_id (ss_users st ! ui)"
      "su_balance u' = su_balance (ss_users st ! ui) - so_paid (paid_order sim (ss_orders st ! oi))"
      "su_points u' = su_points (ss_users st ! ui) + so_points (paid_order sim (ss_orders st ! oi))"
    and cs: "use_coupon (paid_order sim (ss_orders st ! oi)) (ss_coupons st) = Inr (cs, evs)" by blast
  have "sim_users_ok (ss_users st)" using assms(3) by (simp add: sim_ok_def)
  then obtain u where u: "ss_users st = [u]" "ui = 0" "is_cents (su_balance u)" "0 \<le> su_balance u" "0 \<le> su_points u" using i(2) by (rule one_user)
  have d: "sim_order_ok sim (ss_orders st ! oi)" using assms(3) i(1) by (auto simp: sim_ok_def sim_orders_ok_def)
  then have d': "sim_order_ok sim (paid_order sim (ss_orders st ! oi))"
    using assms(3) i(3) by (intro paid_order_ok) (auto simp: sim_ok_def)
  have before: "so_paid (ss_orders st ! oi) = 0" "so_refunded (ss_orders st ! oi) = 0" "so_refunds (ss_orders st ! oi) = 0"
    using d i(3) by (auto simp: sim_order_ok_def)
  have "0 \<le> su_points u'" "is_cents (su_balance u')" using u u'(3,4) d' by (auto simp: sim_order_ok_def)
  then have "sim_ok sim (st\<lparr>ss_users := [u'], ss_orders := (ss_orders st)[oi := paid_order sim (ss_orders st ! oi)], ss_coupons := cs\<rparr>)"
    using u u'(1,2) use_coupon_same [OF cs] d' by (intro order_write_ok [OF assms(3) i(1)]) (auto simp: paid_order_def)
  moreover have "sim_later st ?st'"
    using i u u' before by (intro sim_later_order [OF i(1)]) (simp_all add: sim_wealth_def sum_map_update paid_order_def)
  ultimately show ?thesis using w u by (intro keepsI) simp_all
qed

lemma refund_order_keeps:
  assumes "do_refund_order sim st a = Inr r" "tn_status r = Applied" "sim_ok sim st"
  shows "keeps sim st r"
proof -
  from refund_order_cases [OF assms(1,2)] obtain oi ui cs u' q full d0 evs
    where w: "writes r (st\<lparr>ss_users := (ss_users st)[ui := u'],
            ss_orders := (ss_orders st)[oi := refunded_order sim (ss_orders st ! oi) q], ss_coupons := cs\<rparr>)"
      (is "writes r ?st'")
    and i: "oi < length (ss_orders st)" "ui < length (ss_users st)"
      "so_status (ss_orders st ! oi) = SimPaid \<or> so_status (ss_orders st ! oi) = SimPartiallyRefunded"
    and q: "is_cents q" "0 < q" "so_refunded (ss_orders st ! oi) + q \<le> so_paid (ss_orders st ! oi)"
    and n: "\<forall>rule. sr_refund sim = Some rule \<longrightarrow> int (so_refunds (ss_orders st ! oi)) < maximum_refunds_per_order rule"
    and u': "su_id u' = su_id (ss_users st ! ui)" "su_balance u' = su_balance (ss_users st ! ui) + q"
      "0 \<le> su_points (ss_users st ! ui) \<longrightarrow> 0 \<le> su_points u'"
    and cs: "restore_coupon sim full d0 (ss_coupons st) = Inr (cs, evs)" by blast
  have "sim_users_ok (ss_users st)" using assms(3) by (simp add: sim_ok_def)
  then obtain u where u: "ss_users st = [u]" "ui = 0" "is_cents (su_balance u)" "0 \<le> su_balance u" "0 \<le> su_points u" using i(2) by (rule one_user)
  have d: "sim_order_ok sim (ss_orders st ! oi)" using assms(3) i(1) by (auto simp: sim_ok_def sim_orders_ok_def)
  have d': "sim_order_ok sim (refunded_order sim (ss_orders st ! oi) q)" using d i(3) q n by (rule refunded_order_ok)
  have "is_cents (su_balance u')" "0 \<le> su_balance u'" "0 \<le> su_points u'" using u u' q(1,2) by simp_all
  then have "sim_ok sim (st\<lparr>ss_users := [u'], ss_orders := (ss_orders st)[oi := refunded_order sim (ss_orders st ! oi) q], ss_coupons := cs\<rparr>)"
    using u u'(1) restore_coupon_same [OF cs] d'
    by (intro order_write_ok [OF assms(3) i(1)]) (auto simp: refunded_order_def)
  moreover have "sim_later st ?st'"
    using i u u' q by (intro sim_later_order [OF i(1)]) (auto simp: sim_wealth_def sum_map_update refunded_order_def)
  ultimately show ?thesis using w u by (intro keepsI) simp_all
qed

lemma redeem_points_keeps:
  assumes "do_redeem_points st a = Inr r" "tn_status r = Applied" "sim_ok sim st"
  shows "keeps sim st r"
proof -
  from redeem_points_cases [OF assms(1,2)] obtain q u us where w: "writes r (st\<lparr>ss_users := u\<lparr>su_points := su_points u - q\<rparr> # us\<rparr>)"
    and u: "ss_users st = u # us" "0 < q" "q \<le> su_points u" by blast
  have "us = []" using assms(3) u by (simp add: sim_ok_def sim_users_ok_def)
  with assms(3) u have "sim_ok sim (st\<lparr>ss_users := u\<lparr>su_points := su_points u - q\<rparr> # us\<rparr>)"
    by (auto simp: sim_ok_def sim_users_ok_def sim_orders_ok_def sim_members_ok_def)
  with w u show ?thesis by (auto intro!: keepsI sim_later_other simp: sim_wealth_def)
qed

lemma activate_membership_keeps:
  assumes "do_activate_membership sim st a = Inr r" "tn_status r = Applied" "sim_ok sim st"
  shows "keeps sim st r"
proof -
  from activate_membership_cases [OF assms(1,2)] obtain rule ui u' m e
    where w: "writes r (st\<lparr>ss_users := (ss_users st)[ui := u'], ss_memberships := [m], ss_entitlements := [e]\<rparr>)"
      (is "writes r ?st'")
    and rule: "sr_membership sim = Some rule" and ui: "ui < length (ss_users st)" and none: "ss_memberships st = []"
    and u': "su_id u' = su_id (ss_users st ! ui)" "su_points u' = su_points (ss_users st ! ui)"
      "su_balance u' = su_balance (ss_users st ! ui) - m_amount (price rule)" "0 \<le> su_balance u'"
    and m: "is_cents (sm_paid m)" "sm_paid m = m_amount (price rule)" "sm_refunded m = 0" "sm_status m = SimMActive"
    and e: "se_granted e = entitlement_quantity rule" "se_consumed e = 0" "se_revoked e = 0" by blast
  have "sim_users_ok (ss_users st)" using assms(3) by (simp add: sim_ok_def)
  then obtain u where u: "ss_users st = [u]" "ui = 0" "is_cents (su_balance u)" "0 \<le> su_balance u" "0 \<le> su_points u"
    using ui by (rule one_user)
  have valid: "0 < m_amount (price rule)" "1 \<le> entitlement_quantity rule"
    using assms(3) rule by (auto simp: sim_ok_def sim_valid_def)
  have "sim_membership_ok m e"
    using m e valid by (simp add: sim_membership_ok_def sim_entitlement_ok_def sim_available_def)
  then have "sim_ok sim ?st'" using assms(3) u u' m
    by (auto simp: sim_ok_def sim_users_ok_def sim_members_ok_def sim_orders_ok_def)
  moreover have "sim_later st ?st'" using u u' m none by (intro sim_later_other) (simp_all add: sim_wealth_def)
  ultimately show ?thesis using w by (intro keepsI) simp_all
qed

lemma one_member:
  assumes "sim_members_ok us ms es" "es \<noteq> []"
  obtains m e where "ms = [m]" "es = [e]" "sim_membership_ok m e"
  using assms by (auto simp: sim_members_ok_def)

lemma consume_entitlement_keeps:
  assumes "do_consume_entitlement st a = Inr r" "tn_status r = Applied" "sim_ok sim st"
  shows "keeps sim st r"
proof -
  from consume_entitlement_cases [OF assms(1,2)] obtain ei q
    where w: "writes r (st\<lparr>ss_entitlements := (ss_entitlements st)
            [ei := (ss_entitlements st ! ei)\<lparr>se_consumed := se_consumed (ss_entitlements st ! ei) + q\<rparr>]\<rparr>)" (is "writes r ?st'")
    and e: "ei < length (ss_entitlements st)" "0 < q" "q \<le> sim_available (ss_entitlements st ! ei)" by blast
  have "sim_members_ok (ss_users st) (ss_memberships st) (ss_entitlements st)" "ss_entitlements st \<noteq> []"
    using assms(3) e by (auto simp: sim_ok_def)
  then obtain m e0 where me: "ss_memberships st = [m]" "ss_entitlements st = [e0]" "sim_membership_ok m e0"
    by (rule one_member)
  have "sim_membership_ok m (e0\<lparr>se_consumed := se_consumed e0 + q\<rparr>)"
    using me e by (auto simp: sim_membership_ok_def sim_entitlement_ok_def sim_available_def split: if_splits)
  then have "sim_ok sim ?st'" using assms(3) me e by (simp add: sim_ok_def sim_members_ok_def)
  moreover have "sim_later st ?st'" by (intro sim_later_other) (simp_all add: sim_wealth_def)
  ultimately show ?thesis using w by (intro keepsI) simp_all
qed

lemma quantize_mono: "x \<le> y \<Longrightarrow> quantize x \<le> quantize y" if "0 \<le> x"
  using that by (simp add: quantize_def cents_of_def floor_mono divide_right_mono)

lemma membership_refund_bounds:
  assumes "sim_membership_ok m e"
  shows "0 \<le> membership_refund rule requested m e" "membership_refund rule requested m e \<le> sm_paid m"
    "is_cents (membership_refund rule requested m e)"
proof -
  let ?part = "sm_paid m * of_int (sim_available e) / of_int (se_granted e)"
  have e: "1 \<le> se_granted e" "0 \<le> sim_available e" "sim_available e \<le> se_granted e" "0 \<le> sm_paid m" "is_cents (sm_paid m)"
    using assms by (auto simp: sim_membership_ok_def sim_entitlement_ok_def sim_available_def)
  then have "0 \<le> ?part" by simp
  moreover have "?part \<le> sm_paid m" using e by (simp add: divide_le_eq mult_left_mono)
  ultimately have "0 \<le> quantize ?part" "quantize ?part \<le> sm_paid m"
    using quantize_mono [of ?part "sm_paid m"] e quantize_nonneg [of ?part] by simp_all
  then show "0 \<le> membership_refund rule requested m e" "membership_refund rule requested m e \<le> sm_paid m"
    "is_cents (membership_refund rule requested m e)" using e by (auto simp: membership_refund_def)
qed

lemma cancel_membership_keeps:
  assumes "do_cancel_membership sim st a = Inr r" "tn_status r = Applied" "sim_ok sim st"
  shows "keeps sim st r"
proof -
  from cancel_membership_cases [OF assms(1,2)] obtain rule requested q u us m ms e es
    where w: "writes r (st\<lparr>ss_users := u\<lparr>su_balance := su_balance u + q, su_membership := SimInactive\<rparr> # us,
            ss_memberships := cancelled_membership m q # ms,
            ss_entitlements := e\<lparr>se_revoked := se_revoked e + sim_available e\<rparr> # es\<rparr>)" (is "writes r ?st'")
    and st: "ss_users st = u # us" "ss_memberships st = m # ms" "ss_entitlements st = e # es" "sm_status m = SimMActive"
    and q: "q = membership_refund rule requested m e" by blast
  have ok: "us = []" "ms = []" "es = []" "sim_membership_ok m e" "is_cents (su_balance u)" "0 \<le> su_balance u"
    using assms(3) st by (auto simp: sim_ok_def sim_users_ok_def sim_members_ok_def)
  have q': "0 \<le> q" "q \<le> sm_paid m" "is_cents q" using membership_refund_bounds [OF ok(4)] q by simp_all
  have m: "is_cents (sm_paid m)" "sm_refunded m = 0" "1 \<le> se_granted e" "0 \<le> se_consumed e" "se_revoked e = 0" "0 \<le> sim_available e"
    using ok st by (simp_all add: sim_membership_ok_def sim_entitlement_ok_def)
  have "sim_membership_ok (cancelled_membership m q) (e\<lparr>se_revoked := se_revoked e + sim_available e\<rparr>)"
    using m q' by (auto simp: sim_membership_ok_def sim_entitlement_ok_def sim_available_def cancelled_membership_def)
  then have "sim_ok sim ?st'" using assms(3) st ok q'
    by (auto simp: sim_ok_def sim_users_ok_def sim_members_ok_def sim_orders_ok_def)
  moreover have "sim_later st ?st'"
    using st m by (intro sim_later_other) (simp_all add: sim_wealth_def cancelled_membership_def)
  ultimately show ?thesis using w by (intro keepsI) simp_all
qed

section \<open>Transitions\<close>

text \<open>A handler either applies, or rejects without a trace, or raises.\<close>

definition clean :: "sim_state \<Rightarrow> sim_handled \<Rightarrow> bool" where
  "clean st h \<longleftrightarrow> (\<forall>r. h = Inr r \<longrightarrow> tn_status r = Applied \<or> (\<exists>code. r = rejected_result st code))"

lemma clean_simps [simp]: "clean st (reject st code)" "clean st (applied st' evs)" "clean st (Inl e)"
  "clean st (if c then x else y) \<longleftrightarrow> (c \<longrightarrow> clean st x) \<and> (\<not> c \<longrightarrow> clean st y)"
  by (auto simp: clean_def reject_def applied_def)

lemma clean_and_then: "(\<And>x. clean st (f x)) \<Longrightarrow> clean st (and_then m f)"
  by (cases m) (auto simp: clean_def)

lemma handler_clean: "sim_handler sim k = Some h \<Longrightarrow> clean st (h st a)"
  by (cases k) (auto simp: sim_handler_defs Let_def intro!: clean_and_then split: option.splits list.splits prod.splits)

lemma handler_keeps:
  assumes "sim_handler sim k = Some h" "h st a = Inr r" "sim_ok sim st"
  shows "keeps sim st r"
proof (cases "tn_status r = Applied")
  case True
  then show ?thesis using assms
    by (cases k) (auto intro: create_user_keeps issue_coupon_keeps create_order_keeps apply_coupon_keeps pay_order_keeps
      refund_order_keeps redeem_points_keeps activate_membership_keeps consume_entitlement_keeps cancel_membership_keeps)
next
  case False
  then obtain code where "r = rejected_result st code" using handler_clean [OF assms(1), of st a] assms(2) by (auto simp: clean_def)
  then show ?thesis using assms(3) by (simp add: keeps_rejected)
qed

lemma remember_simps [simp]: "tn_status (remember a r) = tn_status r" "tn_events (remember a r) = tn_events r"
  "tn_status r \<noteq> Applied \<Longrightarrow> tn_state (remember a r) = tn_state r"
  by (auto simp: remember_def split: option.splits)

lemma remember_state:
  "tn_state (remember a r) = (tn_state r)\<lparr>ss_seen := ss_seen (tn_state r) \<union>
     (if tn_status r = Applied then set_option (marker a) else {})\<rparr>"
  by (auto simp: remember_def split: option.splits)

lemma transition_keeps:
  assumes "transition sim st a = Some r" "sim_ok sim st"
  shows "sim_ok sim (tn_state r) \<and> sim_later st (tn_state r)"
proof (cases "\<exists>h r'. sim_handler sim (sa_action a) = Some h \<and> h st a = Inr r' \<and> r = remember a r'")
  case True
  then obtain h r' where h: "sim_handler sim (sa_action a) = Some h" "h st a = Inr r'" "r = remember a r'" by blast
  have "keeps sim st r'" using h(1,2) assms(2) by (rule handler_keeps)
  then have ok: "sim_ok sim (tn_state r')" "sim_later st (tn_state r')" by (auto simp: keeps_def)
  have "m \<in> set_option (marker a) \<Longrightarrow> fst m = sa_action a" for m by (auto simp: marker_def split: option.splits if_splits)
  then have "sim_ok sim (tn_state (remember a r'))" using ok h(1) by (auto simp: sim_ok_def remember_state)
  moreover have "sim_later st (tn_state (remember a r'))"
    using ok by (auto simp: sim_later_def remember_state sim_wealth_def)
  ultimately show ?thesis using h(3) by simp
next
  case False
  then have "tn_state r = st" using assms(1)
    by (auto simp: transition_def unsupported_def split: if_splits option.splits sum.splits sim_exn.splits)
  then show ?thesis using assms(2) by simp
qed

lemma transition_unapplied:
  assumes "transition sim st a = Some r" "tn_status r \<noteq> Applied"
  shows "tn_state r = st \<and> tn_events r = [] \<and> tn_code r \<noteq> None"
proof (cases "\<exists>h r'. sim_handler sim (sa_action a) = Some h \<and> h st a = Inr r' \<and> r = remember a r'")
  case True
  then obtain h r' where h: "sim_handler sim (sa_action a) = Some h" "h st a = Inr r'" "r = remember a r'" by blast
  then obtain code where "r' = rejected_result st code"
    using handler_clean [OF h(1), of st a] assms(2) by (auto simp: clean_def)
  then show ?thesis using h(3) by (auto simp: remember_def rejected_result_def split: option.splits)
next
  case False
  then show ?thesis using assms
    by (auto simp: transition_def unsupported_def rejected_result_def split: if_splits option.splits sum.splits sim_exn.splits)
qed

lemma transition_remembers:
  assumes "transition sim st a = Some r" "tn_status r = Applied" "marker a = Some m"
  shows "m \<in> ss_seen (tn_state r) \<and> sa_action a \<in> {CREATE_USER} \<union> sim_scenario_actions (ss_scenario st)"
  using assms
  by (auto simp: transition_def unsupported_def rejected_result_def remember_def
      split: if_splits option.splits sum.splits sim_exn.splits)

text \<open>The state after an action; an escaping exception leaves the caller with the old one.\<close>

definition sim_next :: "simulator \<Rightarrow> sim_state \<Rightarrow> sim_action \<Rightarrow> sim_state" where
  "sim_next sim st a = (case transition sim st a of None \<Rightarrow> st | Some r \<Rightarrow> tn_state r)"

interpretation sim_run: step_machine "sim_next sim" "sim_ok sim" sim_later
  by unfold_locales (auto simp: sim_next_def dest: transition_keeps intro: sim_later_trans split: option.splits)

lemma initial_state_ok: "sim_valid sim \<Longrightarrow> sim_ok sim (initial_state sim)"
  by (simp add: sim_ok_def initial_state_def sim_users_ok_def sim_coupons_ok_def sim_orders_ok_def sim_members_ok_def)

lemma reachable_ok:
  assumes "spec_valid spec"
  shows "sim_ok (reference_simulator spec) (foldl (sim_next (reference_simulator spec)) (initial_state (reference_simulator spec)) acts)"
  by (intro sim_run.run_good initial_state_ok spec_sim_valid assms)

end
