(* ===== verification/Search.thy ===== *)
theory Search
  imports Sim_Safety
begin

text \<open>
  The searches of \<^verbatim>\<open>packages/reference_simulator/search.py\<close>: breadth-first with a budget
  of depth and nodes, and seeded random walks. The goal is a predicate on a state and the trace that
  led to it. The state hash (SHA-256 of the normalized state) and the stream of the random generator are
  parameters; where distinct states must not be confused, injectivity of the hash on the states in question
  is a hypothesis. A transition that raises ends the search with the exception: no result.
\<close>

section \<open>Budgets and results\<close>

datatype search_status = FOUND | EXHAUSTED | BUDGET_EXHAUSTED

record search_budget =
  max_depth :: nat
  max_nodes :: nat

text \<open>\<^verbatim>\<open>SearchBudget.__post_init__\<close>.\<close>

definition make_budget :: "int \<Rightarrow> int \<Rightarrow> search_budget option" where
  "make_budget depth nodes = (if depth < 0 \<or> nodes < 0 then None else Some \<lparr>max_depth = nat depth, max_nodes = nat nodes\<rparr>)"

record search_result =
  sh_status :: search_status
  sh_trace :: "sim_action list"
  sh_state :: sim_state
  sh_expanded :: nat
  sh_unique :: nat
  sh_budget :: search_budget
  sh_seed :: "int option"

type_synonym goal = "sim_state \<Rightarrow> sim_action list \<Rightarrow> bool"

type_synonym frontier = "(sim_state \<times> sim_action list) list"

section \<open>Breadth-first search\<close>

text \<open>The inner loop: the applied actions whose state was not seen are queued with their trace.\<close>

fun expand ::
  "simulator \<Rightarrow> (sim_state \<Rightarrow> string) \<Rightarrow> sim_state \<Rightarrow> sim_action list \<Rightarrow> sim_action list \<Rightarrow> string set \<Rightarrow> frontier
   \<Rightarrow> (string set \<times> frontier) option" where
  "expand sim H st tr [] seen q = Some (seen, q)"
| "expand sim H st tr (a # as) seen q = (case transition sim st a of
       None \<Rightarrow> None
     | Some r \<Rightarrow>
         if tn_status r \<noteq> Applied then expand sim H st tr as seen q
         else if H (tn_state r) \<in> seen then expand sim H st tr as seen q
         else expand sim H st tr as (insert (H (tn_state r)) seen) (q @ [(tn_state r, tr @ [a])]))"

text \<open>
  The loop over the queue. It ends because every round either uses up a node of the budget or takes
  an entry off the queue.
\<close>

function search_loop ::
  "simulator \<Rightarrow> (sim_state \<Rightarrow> string) \<Rightarrow> goal \<Rightarrow> search_budget \<Rightarrow> frontier \<Rightarrow> string set \<Rightarrow> nat \<Rightarrow> sim_state
   \<Rightarrow> search_result option" where
  "search_loop sim H goal b [] seen n latest = Some
     \<lparr>sh_status = EXHAUSTED, sh_trace = [], sh_state = latest, sh_expanded = n, sh_unique = card seen, sh_budget = b, sh_seed = None\<rparr>"
| "search_loop sim H goal b ((st, tr) # q) seen n latest =
     (if goal st tr then Some
        \<lparr>sh_status = FOUND, sh_trace = tr, sh_state = st, sh_expanded = n, sh_unique = card seen, sh_budget = b, sh_seed = None\<rparr>
      else if max_depth b \<le> length tr then search_loop sim H goal b q seen n st
      else if max_nodes b \<le> n then Some
        \<lparr>sh_status = BUDGET_EXHAUSTED, sh_trace = tr, sh_state = st, sh_expanded = n, sh_unique = card seen, sh_budget = b, sh_seed = None\<rparr>
      else (case expand sim H st tr (legal_actions sim st) seen q of
          None \<Rightarrow> None
        | Some (seen', q') \<Rightarrow> search_loop sim H goal b q' seen' (n + 1) st))"
  by pat_completeness auto
termination
  by (relation "measures [\<lambda>(sim, H, goal, b, q, seen, n, latest). max_nodes b - n, \<lambda>(sim, H, goal, b, q, seen, n, latest). length q]")
    auto

definition breadth_first_search ::
  "simulator \<Rightarrow> (sim_state \<Rightarrow> string) \<Rightarrow> goal \<Rightarrow> search_budget \<Rightarrow> search_result option" where
  "breadth_first_search sim H goal b =
     search_loop sim H goal b [(initial_state sim, [])] {H (initial_state sim)} 0 (initial_state sim)"

section \<open>Random search\<close>

text \<open>
  The generator is a stream of draws: \<open>draw k n\<close> is its \<open>k\<close>-th \<^verbatim>\<open>randrange(n)\<close>.
  The loop runs over the nodes of the budget; a walk that is stuck or too deep starts over.
\<close>

fun walk_loop ::
  "simulator \<Rightarrow> (sim_state \<Rightarrow> string) \<Rightarrow> (nat \<Rightarrow> nat \<Rightarrow> nat) \<Rightarrow> goal \<Rightarrow> search_budget \<Rightarrow> int \<Rightarrow> nat list \<Rightarrow> sim_state
   \<Rightarrow> sim_action list \<Rightarrow> string set \<Rightarrow> search_result option" where
  "walk_loop sim H draw goal b seed [] st tr seen = Some
     \<lparr>sh_status = BUDGET_EXHAUSTED, sh_trace = tr, sh_state = st, sh_expanded = max_nodes b, sh_unique = card seen,
      sh_budget = b, sh_seed = Some seed\<rparr>"
| "walk_loop sim H draw goal b seed (k # ks) st tr seen =
     (if goal st tr then Some
        \<lparr>sh_status = FOUND, sh_trace = tr, sh_state = st, sh_expanded = k, sh_unique = card seen, sh_budget = b, sh_seed = Some seed\<rparr>
      else
        let restart = legal_actions sim st = [] \<or> max_depth b \<le> length tr;
            st1 = (if restart then initial_state sim else st);
            tr1 = (if restart then [] else tr);
            legal = legal_actions sim st1
        in if legal = [] then Some
             \<lparr>sh_status = EXHAUSTED, sh_trace = tr1, sh_state = st1, sh_expanded = k, sh_unique = card seen, sh_budget = b,
              sh_seed = Some seed\<rparr>
           else
             let a = legal ! draw k (length legal)
             in (case transition sim st1 a of
                 None \<Rightarrow> None
               | Some r \<Rightarrow>
                   if tn_status r = Applied
                   then walk_loop sim H draw goal b seed ks (tn_state r) (tr1 @ [a]) (insert (H (tn_state r)) seen)
                   else walk_loop sim H draw goal b seed ks st1 tr1 seen))"

definition seeded_random_search ::
  "simulator \<Rightarrow> (sim_state \<Rightarrow> string) \<Rightarrow> (int \<Rightarrow> nat \<Rightarrow> nat \<Rightarrow> nat) \<Rightarrow> goal \<Rightarrow> int \<Rightarrow> search_budget \<Rightarrow> search_result option" where
  "seeded_random_search sim H draws goal seed b =
     (let st = initial_state sim in
      if goal st [] then Some
        \<lparr>sh_status = FOUND, sh_trace = [], sh_state = st, sh_expanded = 0, sh_unique = 1, sh_budget = b, sh_seed = Some seed\<rparr>
      else walk_loop sim H (draws seed) goal b seed [0..<max_nodes b] st [] {H st})"

section \<open>Walks\<close>

text \<open>A trace of offered actions, every one of them applied, and the state it ends in.\<close>

inductive walk :: "simulator \<Rightarrow> sim_action list \<Rightarrow> sim_state \<Rightarrow> bool" for sim where
  start: "walk sim [] (initial_state sim)"
| step: "\<lbrakk>walk sim tr st; a \<in> set (legal_actions sim st); transition sim st a = Some r; tn_status r = Applied\<rbrakk>
    \<Longrightarrow> walk sim (tr @ [a]) (tn_state r)"

lemma walk_run: "walk sim tr st \<Longrightarrow> st = foldl (sim_next sim) (initial_state sim) tr"
  by (induction rule: walk.induct) (auto simp: sim_next_def)

lemma walk_ok: "sim_valid sim \<Longrightarrow> walk sim tr st \<Longrightarrow> sim_ok sim st"
  by (auto dest: walk_run intro: sim_run.run_good initial_state_ok)

section \<open>The inner loop\<close>

text \<open>One step of the graph the searches explore.\<close>

definition leads :: "simulator \<Rightarrow> sim_state \<Rightarrow> sim_action \<Rightarrow> sim_state \<Rightarrow> bool" where
  "leads sim st a st' \<longleftrightarrow> (\<exists>r. transition sim st a = Some r \<and> tn_status r = Applied \<and> tn_state r = st')"

lemma expand_queue:
  "expand sim H st tr as seen q = Some (seen', q') \<Longrightarrow>
     (\<exists>news. q' = q @ news \<and> seen' = seen \<union> (H \<circ> fst) ` set news
        \<and> (\<forall>(st', tr') \<in> set news. \<exists>a \<in> set as. tr' = tr @ [a] \<and> leads sim st a st')
        \<and> (\<forall>a \<in> set as. \<forall>st'. leads sim st a st' \<longrightarrow> H st' \<in> seen'))"
proof (induction as arbitrary: seen q)
  case Nil
  then show ?case by simp
next
  case (Cons a as)
  from Cons.prems obtain r where r: "transition sim st a = Some r" by (auto split: option.splits)
  show ?case
  proof (cases "tn_status r = Applied \<and> H (tn_state r) \<notin> seen")
    case True
    with Cons.prems r have "expand sim H st tr as (insert (H (tn_state r)) seen) (q @ [(tn_state r, tr @ [a])]) = Some (seen', q')" by simp
    from Cons.IH [OF this] obtain news where n: "q' = (q @ [(tn_state r, tr @ [a])]) @ news"
      "seen' = insert (H (tn_state r)) seen \<union> (H \<circ> fst) ` set news"
      "\<forall>(st', tr') \<in> set news. \<exists>a \<in> set as. tr' = tr @ [a] \<and> leads sim st a st'"
      "\<forall>a \<in> set as. \<forall>st'. leads sim st a st' \<longrightarrow> H st' \<in> seen'" by blast
    then show ?thesis using r True by (intro exI [of _ "(tn_state r, tr @ [a]) # news"]) (auto simp: leads_def)
  next
    case False
    with Cons.prems r have "expand sim H st tr as seen q = Some (seen', q')" by (auto split: if_splits)
    from Cons.IH [OF this] obtain news where n: "q' = q @ news" "seen' = seen \<union> (H \<circ> fst) ` set news"
      "\<forall>(st', tr') \<in> set news. \<exists>a \<in> set as. tr' = tr @ [a] \<and> leads sim st a st'"
      "\<forall>a \<in> set as. \<forall>st'. leads sim st a st' \<longrightarrow> H st' \<in> seen'" by blast
    then show ?thesis using r False by (intro exI [of _ news]) (auto simp: leads_def)
  qed
qed

section \<open>The invariant of the queue\<close>

text \<open>
  \<open>P\<close> is what was taken off the queue. The queue is sorted by the length of its traces and never
  spans more than one level; what was taken off is no deeper, was not a goal, and (below the depth
  budget) had all its successors discovered one level further at most.
\<close>

definition level :: "sim_state \<times> sim_action list \<Rightarrow> nat" where
  "level x = length (snd x)"

record exploration =
  xp_processed :: "(sim_state \<times> sim_action list) set"
  xp_queue :: frontier

definition discovered :: "exploration \<Rightarrow> (sim_state \<times> sim_action list) set" where
  "discovered x = xp_processed x \<union> set (xp_queue x)"

definition levelled :: "exploration \<Rightarrow> bool" where
  "levelled x \<longleftrightarrow> sorted (map level (xp_queue x))
     \<and> (\<forall>y \<in> set (xp_queue x). level y \<le> level (hd (xp_queue x)) + 1)
     \<and> (\<forall>p \<in> xp_processed x. \<forall>y \<in> set (xp_queue x). level p \<le> level y)"

definition explored :: "simulator \<Rightarrow> (sim_state \<Rightarrow> string) \<Rightarrow> goal \<Rightarrow> search_budget \<Rightarrow> exploration \<Rightarrow> string set \<Rightarrow> bool" where
  "explored sim H goal b x seen \<longleftrightarrow> levelled x \<and> seen = (H \<circ> fst) ` discovered x
     \<and> (initial_state sim, []) \<in> discovered x
     \<and> (\<forall>(st, tr) \<in> discovered x. walk sim tr st \<and> length tr \<le> max_depth b)
     \<and> (\<forall>(st, tr) \<in> xp_processed x. \<not> goal st tr)
     \<and> (\<forall>(st, tr) \<in> xp_processed x. length tr < max_depth b \<longrightarrow>
          (\<forall>a \<in> set (legal_actions sim st). \<forall>st'. leads sim st a st' \<longrightarrow>
            (\<exists>y \<in> discovered x. H (fst y) = H st' \<and> level y \<le> length tr + 1)))"

definition take_off :: "exploration \<Rightarrow> frontier \<Rightarrow> exploration" where
  "take_off x q = \<lparr>xp_processed = insert (hd (xp_queue x)) (xp_processed x), xp_queue = q\<rparr>"

lemma levelled_take_off:
  assumes "levelled x" "xp_queue x = y # q" "\<forall>z \<in> set news. level z = level y + 1"
  shows "levelled (take_off x (q @ news))"
proof -
  have q: "sorted (map level q)" "\<forall>z \<in> set q. level y \<le> level z \<and> level z \<le> level y + 1"
    using assms(1,2) by (auto simp: levelled_def)
  have "map level news = map (\<lambda>_. level y + 1) news" using assms(3) by simp
  then have news: "map level news = replicate (length news) (level y + 1)" by (simp only: map_replicate_const)
  have "sorted (map level (q @ news))" unfolding map_append sorted_append news using q by simp
  moreover have "level z \<le> level (hd (q @ news)) + 1" if "z \<in> set (q @ news)" for z
  proof -
    have "level z \<le> level y + 1" using that q(2) assms(3) by auto
    moreover have "hd (q @ news) \<in> set (q @ news)" using that by (intro hd_in_set) auto
    then have "level y \<le> level (hd (q @ news))" using q(2) assms(3) by fastforce
    ultimately show ?thesis by simp
  qed
  moreover have "level p \<le> level z" if z: "p \<in> insert y (xp_processed x)" "z \<in> set (q @ news)" for p z
  proof -
    have "level p \<le> level y" using z(1) assms(1,2) by (auto simp: levelled_def)
    moreover have "level y \<le> level z" using z(2) q(2) assms(3) by auto
    ultimately show ?thesis by simp
  qed
  ultimately show ?thesis using assms(2) by (auto simp: levelled_def take_off_def)
qed

lemma discovered_take_off: "xp_queue x = y # q \<Longrightarrow> discovered (take_off x (q @ news)) = discovered x \<union> set news"
  by (auto simp: discovered_def take_off_def)

lemma explored_skip:
  assumes "explored sim H goal b x seen" "xp_queue x = (st, tr) # q" "\<not> goal st tr" "max_depth b \<le> length tr"
  shows "explored sim H goal b (take_off x q) seen"
proof -
  have "levelled (take_off x q)" using levelled_take_off [of x "(st, tr)" q "[]"] assms by (simp add: explored_def)
  moreover have "discovered (take_off x q) = discovered x" using discovered_take_off [OF assms(2), of "[]"] by simp
  moreover have "xp_processed (take_off x q) = insert (st, tr) (xp_processed x)" using assms(2) by (simp add: take_off_def)
  ultimately show ?thesis using assms(1,3,4) unfolding explored_def by auto
qed

lemma explored_expand:
  assumes x: "explored sim H goal b x seen" and q: "xp_queue x = (st, tr) # q" "\<not> goal st tr" "length tr < max_depth b"
    and e: "expand sim H st tr (legal_actions sim st) seen q = Some (seen', q')"
  shows "explored sim H goal b (take_off x q') seen'"
proof -
  from expand_queue [OF e] obtain news where n: "q' = q @ news" "seen' = seen \<union> (H \<circ> fst) ` set news"
      "\<forall>(st', tr') \<in> set news. \<exists>a \<in> set (legal_actions sim st). tr' = tr @ [a] \<and> leads sim st a st'"
      "\<forall>a \<in> set (legal_actions sim st). \<forall>st'. leads sim st a st' \<longrightarrow> H st' \<in> seen'" by blast
  have here: "(st, tr) \<in> discovered x" using q by (simp add: discovered_def)
  have levels: "\<forall>z \<in> set news. level z = level (st, tr) + 1" using n(3) by (auto simp: level_def)
  have lev: "levelled (take_off x q')" using levelled_take_off [OF _ q(1) levels] x n(1) by (simp add: explored_def)
  have disc: "discovered (take_off x q') = discovered x \<union> set news" using discovered_take_off [OF q(1)] n(1) by simp
  have proc: "xp_processed (take_off x q') = insert (st, tr) (xp_processed x)" using q by (simp add: take_off_def)
  have old: "level y \<le> length tr + 1" if "y \<in> discovered x" for y
    using that x q by (fastforce simp: explored_def levelled_def discovered_def level_def)
  have news_walk: "walk sim tr' st' \<and> length tr' \<le> max_depth b" if "(st', tr') \<in> set news" for st' tr'
  proof -
    obtain a where a: "a \<in> set (legal_actions sim st)" "tr' = tr @ [a]" "leads sim st a st'" using n(3) \<open>(st', tr') \<in> set news\<close> by blast
    have "walk sim tr st" using x here by (auto simp: explored_def)
    then show ?thesis using a q(3) by (auto simp: leads_def intro: walk.step)
  qed
  have hashes: "seen' = (H \<circ> fst) ` (discovered x \<union> set news)" using x n(2) by (simp add: explored_def image_Un)
  have closure: "\<exists>y \<in> discovered x \<union> set news. H (fst y) = H st' \<and> level y \<le> length tr + 1"
    if "a \<in> set (legal_actions sim st)" "leads sim st a st'" for a st'
  proof -
    have "H st' \<in> (H \<circ> fst) ` (discovered x \<union> set news)" using n(4) that unfolding hashes by blast
    then obtain y where y: "H st' = (H \<circ> fst) y" "y \<in> discovered x \<union> set news" by (rule imageE)
    have "level y \<le> length tr + 1" using y(2) old [of y] levels by (cases y) (auto simp: level_def)
    with y show ?thesis by (intro bexI [of _ y]) simp_all
  qed
  show ?thesis unfolding explored_def disc proc
  proof (intro conjI)
    show "seen' = (H \<circ> fst) ` (discovered x \<union> set news)" by (rule hashes)
    show "(initial_state sim, []) \<in> discovered x \<union> set news" using x by (simp add: explored_def)
    show "\<forall>(st, tr) \<in> discovered x \<union> set news. walk sim tr st \<and> length tr \<le> max_depth b"
      using x news_walk by (auto simp: explored_def)
    show "\<forall>(st, tr) \<in> insert (st, tr) (xp_processed x). \<not> goal st tr" using x q(2) by (auto simp: explored_def)
    show "\<forall>(st, tr) \<in> insert (st, tr) (xp_processed x). length tr < max_depth b \<longrightarrow>
          (\<forall>a \<in> set (legal_actions sim st). \<forall>st'. leads sim st a st' \<longrightarrow>
            (\<exists>y \<in> discovered x \<union> set news. H (fst y) = H st' \<and> level y \<le> length tr + 1))"
      using x closure unfolding explored_def by fast
  qed (rule lev)
qed

section \<open>What a search returns\<close>

text \<open>The exploration a result was read off.\<close>

definition answers ::
  "simulator \<Rightarrow> (sim_state \<Rightarrow> string) \<Rightarrow> goal \<Rightarrow> search_budget \<Rightarrow> search_result \<Rightarrow> exploration \<Rightarrow> bool" where
  "answers sim H goal b r x \<longleftrightarrow> (\<exists>seen. explored sim H goal b x seen \<and> sh_unique r = card seen)
     \<and> sh_expanded r \<le> max_nodes b \<and> sh_budget r = b \<and> sh_seed r = None
     \<and> (case sh_status r of
          FOUND \<Rightarrow> xp_queue x \<noteq> [] \<and> hd (xp_queue x) = (sh_state r, sh_trace r) \<and> goal (sh_state r) (sh_trace r)
        | EXHAUSTED \<Rightarrow> xp_queue x = [] \<and> sh_trace r = []
        | BUDGET_EXHAUSTED \<Rightarrow> sh_expanded r = max_nodes b \<and> xp_queue x \<noteq> [] \<and> hd (xp_queue x) = (sh_state r, sh_trace r))"

lemma answers_intro:
  "\<lbrakk>explored sim H goal b x seen; n \<le> max_nodes b\<rbrakk> \<Longrightarrow> xp_queue x = [] \<Longrightarrow>
     answers sim H goal b \<lparr>sh_status = EXHAUSTED, sh_trace = [], sh_state = st, sh_expanded = n, sh_unique = card seen, sh_budget = b, sh_seed = None\<rparr> x"
  "\<lbrakk>explored sim H goal b x seen; n \<le> max_nodes b\<rbrakk> \<Longrightarrow> xp_queue x = (st, tr) # q \<Longrightarrow> goal st tr \<Longrightarrow>
     answers sim H goal b \<lparr>sh_status = FOUND, sh_trace = tr, sh_state = st, sh_expanded = n, sh_unique = card seen, sh_budget = b, sh_seed = None\<rparr> x"
  "\<lbrakk>explored sim H goal b x seen; n \<le> max_nodes b\<rbrakk> \<Longrightarrow> xp_queue x = (st, tr) # q \<Longrightarrow> max_nodes b \<le> n \<Longrightarrow>
     answers sim H goal b \<lparr>sh_status = BUDGET_EXHAUSTED, sh_trace = tr, sh_state = st, sh_expanded = n, sh_unique = card seen, sh_budget = b, sh_seed = None\<rparr> x"
  by (auto simp: answers_def)

lemma search_loop_answers:
  assumes "search_loop sim H goal b q seen n latest = Some r" "explored sim H goal b x seen" "xp_queue x = q" "n \<le> max_nodes b"
  shows "\<exists>x'. answers sim H goal b r x'"
  using assms
proof (induction sim H goal b q seen n latest arbitrary: x rule: search_loop.induct)
  case (1 sim H goal b seen n latest)
  then show ?case using answers_intro(1) [OF "1.prems"(2,4,3)] by auto
next
  case (2 sim H goal b st tr q seen n latest)
  consider (found) "goal st tr" | (deep) "\<not> goal st tr" "max_depth b \<le> length tr"
    | (spent) "\<not> goal st tr" "\<not> max_depth b \<le> length tr" "max_nodes b \<le> n"
    | (expand) "\<not> goal st tr" "\<not> max_depth b \<le> length tr" "\<not> max_nodes b \<le> n" by blast
  then show ?case
  proof cases
    case found
    then show ?thesis using "2.prems" answers_intro(2) [OF "2.prems"(2,4,3)] by auto
  next
    case deep
    then have "explored sim H goal b (take_off x q) seen" using "2.prems" by (intro explored_skip) auto
    then show ?thesis using "2.IH"(1) [OF deep] deep "2.prems"(1,4) by (simp add: take_off_def)
  next
    case spent
    then show ?thesis using "2.prems" answers_intro(3) [OF "2.prems"(2,4,3)] by auto
  next
    case expand
    with "2.prems"(1) obtain seen' q' where e: "expand sim H st tr (legal_actions sim st) seen q = Some (seen', q')"
      "search_loop sim H goal b q' seen' (n + 1) st = Some r" by (auto split: option.splits)
    have "explored sim H goal b (take_off x q') seen'"
      using "2.prems" expand e(1) by (intro explored_expand) auto
    then show ?thesis using "2.IH"(2) [OF expand e(1) refl e(2)] expand by (simp add: take_off_def)
  qed
qed

lemma search_answers:
  assumes "breadth_first_search sim H goal b = Some r"
  obtains x where "answers sim H goal b r x"
proof -
  have "explored sim H goal b \<lparr>xp_processed = {}, xp_queue = [(initial_state sim, [])]\<rparr> {H (initial_state sim)}"
    by (simp add: explored_def levelled_def discovered_def walk.start)
  from search_loop_answers [OF assms [unfolded breadth_first_search_def] this] show thesis using that by auto
qed

section \<open>Completeness\<close>

definition tells_apart :: "simulator \<Rightarrow> (sim_state \<Rightarrow> string) \<Rightarrow> nat \<Rightarrow> bool" where
  "tells_apart sim H k \<longleftrightarrow> (\<forall>tr st tr' st'. walk sim tr st \<and> walk sim tr' st' \<and> length tr \<le> k \<and> length tr' \<le> k \<and> H st = H st' \<longrightarrow> st = st')"

text \<open>What can be reached in fewer steps than the queue's traces have been processed.\<close>

lemma explored_complete:
  assumes x: "explored sim H goal b x seen" and H: "tells_apart sim H (max_depth b)"
    and K: "K \<le> max_depth b" "\<forall>y \<in> set (xp_queue x). K \<le> level y"
    and "walk sim tr st" "length tr \<le> K"
  shows "\<exists>tr'. (st, tr') \<in> discovered x \<and> length tr' \<le> length tr"
  using assms(5,6)
proof (induction rule: walk.induct)
  case start
  then show ?case using x by (auto simp: explored_def)
next
  case (step tr st a r)
  then obtain tr' where tr': "(st, tr') \<in> discovered x" "length tr' \<le> length tr" by auto
  then have below: "length tr' < K" using step.prems by simp
  then have "(st, tr') \<notin> set (xp_queue x)" using K(2) by (auto simp: level_def)
  then have "(st, tr') \<in> xp_processed x" using tr'(1) by (simp add: discovered_def)
  moreover have "leads sim st a (tn_state r)" using step.hyps by (auto simp: leads_def)
  ultimately obtain y where y: "y \<in> discovered x" "H (fst y) = H (tn_state r)" "level y \<le> length tr' + 1"
    using x below K(1) step.hyps(2) unfolding explored_def by fastforce
  have "walk sim (snd y) (fst y)" "length (snd y) \<le> max_depth b" using x y(1) by (auto simp: explored_def)
  moreover have "walk sim (tr @ [a]) (tn_state r)" using step.hyps by (rule walk.step)
  moreover have "length (tr @ [a]) \<le> max_depth b" using step.prems K(1) by simp
  ultimately have "fst y = tn_state r" using H y(2) unfolding tells_apart_def by blast
  then have "(tn_state r, snd y) \<in> discovered x" using y(1) by (metis prod.collapse)
  then show ?case using y(3) tr'(2) by (auto simp: level_def)
qed

end
