(* ===== verification/Sim_Properties.thy ===== *)
theory Sim_Properties
  imports Sim_Safety
begin

text \<open>
  The properties of the reference simulator, over the states its runs reach, with the concrete runs
  their witnesses evaluate: an account of five hundred, an order, its payment, its refund.
\<close>

section \<open>Runs\<close>

definition sim_run :: "rule_spec \<Rightarrow> sim_action list \<Rightarrow> sim_state" where
  "sim_run spec acts = foldl (sim_next (reference_simulator spec)) (initial_state (reference_simulator spec)) acts"

lemma sim_run_ok: "spec_valid spec \<Longrightarrow> sim_ok (reference_simulator spec) (sim_run spec acts)"
  unfolding sim_run_def by (rule reachable_ok)

lemma sim_run_append: "sim_run spec (acts @ rest) = foldl (sim_next (reference_simulator spec)) (sim_run spec acts) rest"
  by (simp add: sim_run_def)

lemma sim_run_later: "spec_valid spec \<Longrightarrow> sim_later (sim_run spec acts) (sim_run spec (acts @ rest))"
  unfolding sim_run_append by (intro sim_run.run_below sim_run_ok)

lemma sim_run_order:
  assumes "spec_valid spec" "d \<in> set (ss_orders (sim_run spec acts))"
  shows "sim_order_ok (reference_simulator spec) d"
  using sim_run_ok [OF assms(1)] assms(2) by (auto simp: sim_ok_def sim_orders_ok_def)

lemma sim_run_entitlement:
  assumes "spec_valid spec" "e \<in> set (ss_entitlements (sim_run spec acts))"
  shows "sim_entitlement_ok e"
  using sim_run_ok [OF assms(1), of acts] assms(2) by (auto simp: sim_ok_def sim_members_ok_def sim_membership_ok_def)

section \<open>Concrete runs\<close>

definition points_spec :: rule_spec where
  "points_spec = \<lparr>spec_scenario = REFUND_POINTS, participants = [], assets = [],
     rules = [RefundRule \<lparr>allow_partial_refund = True, maximum_refunds_per_order = 2\<rparr>,
       PointsRule \<lparr>spend_amount = \<lparr>m_currency = CNY, m_amount = 100, m_scale = 2\<rparr>, rule_points_granted = 10,
         revoke_on_refund = True\<rparr>],
     spec_invariant_ids = [], ambiguities = []\<rparr>"

lemma points_spec_valid: "spec_valid points_spec"
  by (simp add: points_spec_def spec_valid_def require_rules_for_scenario_def money_valid_def)

definition open_account :: sim_action where
  "open_account = build_action CREATE_USER None None [(''initial_balance'', JStr (amount_text 500))]"

definition place_order :: "rat \<Rightarrow> sim_action" where
  "place_order q = build_action CREATE_ORDER (Some ''user-1'') None [(''amount'', JStr (amount_text q))]"

definition pay_first :: sim_action where
  "pay_first = build_action PAY_ORDER (Some ''order-1'') None []"

definition refund_first :: "rat \<Rightarrow> sim_action" where
  "refund_first q = build_action REFUND_ORDER (Some ''order-1'') (Some ''k'') [(''amount'', JStr (amount_text q))]"

definition first_account :: "rat \<Rightarrow> int \<Rightarrow> bool \<Rightarrow> sim_user" where
  "first_account b p n = \<lparr>su_id = ''user-1'', su_balance = b, su_currency = CNY, su_points = p, su_membership = SimNone, su_new = n\<rparr>"

definition first_order :: "rat \<Rightarrow> rat \<Rightarrow> int \<Rightarrow> sim_order_status \<Rightarrow> sim_order" where
  "first_order q p n s = \<lparr>so_id = ''order-1'', so_user = ''user-1'', so_original = q, so_currency = CNY, so_discount = 0,
     so_paid = p, so_refunded = 0, so_points = n, so_revoked = 0, so_refunds = 0, so_status = s, so_coupon = None\<rparr>"

definition points_state :: "sim_user list \<Rightarrow> sim_order list \<Rightarrow> sim_state" where
  "points_state us ds = \<lparr>ss_scenario = REFUND_POINTS, ss_users = us, ss_coupons = [], ss_orders = ds,
     ss_memberships = [], ss_entitlements = [], ss_seen = {}\<rparr>"

definition points_sim :: simulator where
  "points_sim = reference_simulator points_spec"

lemma points_sim_fields [simp]: "sr_scenario points_sim = REFUND_POINTS" "sr_promotion points_sim = None"
  "sr_refund points_sim = Some \<lparr>allow_partial_refund = True, maximum_refunds_per_order = 2\<rparr>"
  "sr_points points_sim = Some \<lparr>spend_amount = \<lparr>m_currency = CNY, m_amount = 100, m_scale = 2\<rparr>,
     rule_points_granted = 10, revoke_on_refund = True\<rparr>"
  "sr_membership points_sim = None"
  by (simp_all add: points_sim_def reference_simulator_def points_spec_def)

lemma sim_money_text: "is_cents q \<Longrightarrow> \<bar>cents_of q\<bar> < 10 ^ 28 \<Longrightarrow> sim_money (JStr (amount_text q)) = Inr (Number q)"
  by (simp add: sim_money_def parse_amount_text sim_quantize_def quantize_checked_def)

lemma is_cents_numeral [simp]: "is_cents (numeral n)"
  by (simp add: is_cents_def quantize_numeral)

lemmas sim_eval = sim_next_def transition_def build_action_def argument_or_def marker_def remember_def applied_def
  owner_of_def currency_argument_def currency_of_def compared_def sim_money_text cents_of_numeral points_state_def first_account_def
  first_order_def Let_def next_id_def string_of_nat_less_10 digit_chars has_coupon_def use_coupon_def granted_points_def

lemma demo_account: "sim_next points_sim (points_state [] []) open_account = points_state [first_account 500 0 True] []"
  by (simp add: sim_eval open_account_def do_create_user_def)

lemma demo_placed:
  "0 < q \<Longrightarrow> is_cents q \<Longrightarrow> cents_of q < 10 ^ 28 \<Longrightarrow> sim_next points_sim (points_state [first_account 500 0 True] []) (place_order q)
     = points_state [first_account 500 0 True] [first_order q 0 0 SimCreated]"
  by (simp add: sim_eval place_order_def do_create_order_def cents_of_def)

lemma demo_paid:
  "q \<le> 500 \<Longrightarrow> sim_next points_sim (points_state [first_account 500 0 True] [first_order q 0 0 SimCreated]) pay_first
     = points_state [first_account (500 - q) (\<lfloor>q / 100\<rfloor> * 10) False] [first_order q q (\<lfloor>q / 100\<rfloor> * 10) SimPaid]"
  by (simp add: sim_eval pay_first_def do_pay_order_def)

lemma demo_run:
  assumes "0 < q" "q \<le> 500" "is_cents q"
  shows "sim_run points_spec [open_account, place_order q, pay_first]
     = points_state [first_account (500 - q) (\<lfloor>q / 100\<rfloor> * 10) False] [first_order q q (\<lfloor>q / 100\<rfloor> * 10) SimPaid]"
proof -
  have "initial_state points_sim = points_state [] []" by (simp add: initial_state_def points_state_def)
  moreover have "cents_of q < 10 ^ 28" using assms(1,2) by (simp add: cents_of_def floor_less_iff)
  ultimately show ?thesis using assms
    by (simp add: sim_run_def demo_account demo_placed demo_paid flip: points_sim_def)
qed

lemma demo_start: "sim_run points_spec [open_account] = points_state [first_account 500 0 True] []"
proof -
  have "initial_state points_sim = points_state [] []" by (simp add: initial_state_def points_state_def)
  then show ?thesis by (simp add: sim_run_def demo_account flip: points_sim_def)
qed

section \<open>Escaping exceptions\<close>

definition calm :: "sim_exn + 'a \<Rightarrow> bool" where
  "calm h \<longleftrightarrow> h \<noteq> Inl Uncaught"

lemma calm_simps [simp]: "calm (reject st code)" "calm (applied st evs)" "calm (Inl Caught)" "calm (Inr z)"
  "calm (if c then x else y) \<longleftrightarrow> (c \<longrightarrow> calm x) \<and> (\<not> c \<longrightarrow> calm y)" "calm (of_option Caught opt)"
  by (auto simp: calm_def reject_def applied_def of_option_def split: option.splits)

lemma calm_and_then: "calm m \<Longrightarrow> (\<And>x. m = Inr x \<Longrightarrow> calm (f x)) \<Longrightarrow> calm (and_then m f)"
  by (cases m) (auto simp: calm_def)

lemma calm_arguments [simp]: "calm (sim_quantize d)" "calm (sim_money v)" "calm (money_argument a name x)" "calm (compared n)"
    "calm (currency_argument a)" "calm (sim_int v)" "calm (use_coupon order cs)" "calm (restore_coupon sim full order cs)"
proof -
  show q: "calm (sim_quantize d)" for d by (simp add: sim_quantize_def split: option.splits pydec.splits)
  then show m: "calm (sim_money v)" by (simp add: sim_money_def)
  show "calm (money_argument a name x)" by (simp add: money_argument_def sim_money_def q)
  show "calm (compared n)" by (simp add: compared_def split: sim_number.splits)
  show "calm (currency_argument a)" by (simp add: currency_argument_def)
  show "calm (sim_int v)" by (cases v rule: sim_int.cases) simp_all
  show "calm (use_coupon order cs)" by (simp add: use_coupon_def split: option.splits)
  show "calm (restore_coupon sim full order cs)" by (simp add: restore_coupon_def split: option.splits)
qed

lemma handler_calm:
  assumes "sim_handler sim k = Some h" "k \<noteq> REFUND_ORDER" "sim_ok sim st"
  shows "calm (h st a)"
proof -
  have "sim_members_ok (ss_users st) (ss_memberships st) (ss_entitlements st)" using assms(3) by (simp add: sim_ok_def)
  then show ?thesis using assms(1,2)
    by (cases k) (auto simp: sim_handler_defs Let_def sim_members_ok_def intro!: calm_and_then
      split: option.splits list.splits prod.splits)
qed

definition refund_accepted :: "simulator \<Rightarrow> sim_order \<Rightarrow> rat \<Rightarrow> bool" where
  "refund_accepted sim d q \<longleftrightarrow> (so_status d = SimPaid \<or> so_status d = SimPartiallyRefunded)
     \<and> 0 < q \<and> so_refunded d + q \<le> so_paid d
     \<and> (\<forall>r. sr_refund sim = Some r \<longrightarrow> (allow_partial_refund r \<or> q = so_paid d - so_refunded d)
          \<and> int (so_refunds d) < maximum_refunds_per_order r)"

lemma refund_uncaught:
  assumes "sim_ok sim st"
  shows "do_refund_order sim st a = Inl Uncaught \<longleftrightarrow> revokes sim
    \<and> (\<exists>oi q. index_of (\<lambda>d. Some (so_id d) = sa_target a) (ss_orders st) = Some oi \<and> so_points (ss_orders st ! oi) = 0
        \<and> sim_money (argument_or a ''amount'' JNull) = Inr (Number q) \<and> refund_accepted sim (ss_orders st ! oi) q)"
proof (cases "index_of (\<lambda>d. Some (so_id d) = sa_target a) (ss_orders st)")
  case None
  then show ?thesis by (simp add: do_refund_order_def reject_def)
next
  case (Some oi)
  let ?d = "ss_orders st ! oi"
  have "so_user ?d \<in> su_id ` set (ss_users st)"
    using assms index_of_Some [OF Some] by (auto simp: sim_ok_def sim_orders_ok_def)
  then have "index_of (\<lambda>u. su_id u = so_user ?d) (ss_users st) \<noteq> None" by (auto simp: index_of_None)
  then obtain ui where ui: "index_of (\<lambda>u. su_id u = so_user ?d) (ss_users st) = Some ui" by blast
  have money: "sim_money (argument_or a ''amount'' JNull) \<noteq> Inl Uncaught" using calm_arguments(2) by (simp add: calm_def)
  show ?thesis
  proof (cases "sim_money (argument_or a ''amount'' JNull)")
    case (Inl e)
    then show ?thesis using money by (simp add: do_refund_order_def Some)
  next
    case (Inr n)
    show ?thesis
    proof (cases n)
      case NotANumber
      then show ?thesis by (simp add: do_refund_order_def Some Inr compared_def reject_def Let_def)
    next
      case (Number q)
      have "restore_coupon sim full d cs \<noteq> Inl Uncaught" for full d cs using calm_arguments(8) by (simp add: calm_def)
      then show ?thesis
        by (auto simp: do_refund_order_def Some Inr Number compared_def reject_def Let_def ui refund_accepted_def
            of_option_def applied_def result_simps split: option.splits)
    qed
  qed
qed

section \<open>Properties\<close>

text \<open>C11: in every state a run of the rule model reaches, nothing is overdrawn: balances and
  points are not negative, no order is refunded beyond what was paid or more often than its rule
  allows, no more points are revoked than were granted, and no entitlement is consumed and revoked
  beyond its grant.\<close>

theorem sim_bounds:
  assumes "spec_valid spec"
  shows "(\<forall>u \<in> set (ss_users (sim_run spec acts)). 0 \<le> su_balance u \<and> 0 \<le> su_points u)
    \<and> (\<forall>d \<in> set (ss_orders (sim_run spec acts)). 0 \<le> so_refunded d \<and> so_refunded d \<le> so_paid d \<and> so_paid d \<le> so_original d
        \<and> 0 \<le> so_revoked d \<and> so_revoked d \<le> so_points d
        \<and> (\<forall>r. sr_refund (reference_simulator spec) = Some r \<longrightarrow> int (so_refunds d) \<le> maximum_refunds_per_order r))
    \<and> (\<forall>e \<in> set (ss_entitlements (sim_run spec acts)). 0 \<le> se_consumed e \<and> 0 \<le> se_revoked e
        \<and> se_consumed e + se_revoked e \<le> se_granted e)"
proof (intro conjI ballI)
  fix u assume "u \<in> set (ss_users (sim_run spec acts))"
  then show "0 \<le> su_balance u" "0 \<le> su_points u"
    using sim_run_ok [OF assms, of acts] by (auto simp: sim_ok_def sim_users_ok_def)
next
  fix d assume "d \<in> set (ss_orders (sim_run spec acts))"
  with assms have ok: "sim_order_ok (reference_simulator spec) d" by (rule sim_run_order)
  then show "0 \<le> so_refunded d" "so_refunded d \<le> so_paid d" "0 \<le> so_revoked d" "so_revoked d \<le> so_points d"
    "\<forall>r. sr_refund (reference_simulator spec) = Some r \<longrightarrow> int (so_refunds d) \<le> maximum_refunds_per_order r"
    by (simp_all add: sim_order_ok_def)
  show "so_paid d \<le> so_original d" using ok by (cases "so_status d = SimCreated") (auto simp: sim_order_ok_def)
next
  fix e assume "e \<in> set (ss_entitlements (sim_run spec acts))"
  with assms have "sim_entitlement_ok e" by (rule sim_run_entitlement)
  then show "0 \<le> se_consumed e" "0 \<le> se_revoked e" "se_consumed e + se_revoked e \<le> se_granted e"
    by (simp_all add: sim_entitlement_ok_def sim_available_def)
qed

theorem sim_bounds_witness:
  "0 \<le> su_balance (first_account 300 20 False) \<and> so_refunded (first_order 200 200 20 SimPaid) \<le> so_paid (first_order 200 200 20 SimPaid)"
  using sim_bounds [OF points_spec_valid, of "[open_account, place_order 200, pay_first]"] demo_run [of 200]
  by (simp add: points_state_def)

text \<open>C13: every reached state is well typed: orders and coupons are numbered in the order they
  were made, every order names an existing user and, if any, an existing coupon, every amount of
  money is a whole number of cents, and what an order says it paid and granted is what its amounts
  and the points rule give.\<close>

theorem sim_well_typed:
  assumes "spec_valid spec" "sim_run spec acts = st"
  shows "map so_id (ss_orders st) = map (\<lambda>n. ''order-'' @ string_of_nat n) [1..<Suc (length (ss_orders st))]
    \<and> map sc_id (ss_coupons st) = map (\<lambda>n. ''coupon-'' @ string_of_nat n) [1..<Suc (length (ss_coupons st))]
    \<and> (\<forall>u \<in> set (ss_users st). is_cents (su_balance u))
    \<and> (\<forall>d \<in> set (ss_orders st). so_user d \<in> su_id ` set (ss_users st)
        \<and> (has_coupon d \<longrightarrow> so_coupon d \<in> Some ` sc_id ` set (ss_coupons st))
        \<and> is_cents (so_original d) \<and> is_cents (so_paid d) \<and> is_cents (so_refunded d)
        \<and> (so_status d \<noteq> SimCreated \<longrightarrow> so_paid d = so_original d - so_discount d
             \<and> so_points d = granted_points (reference_simulator spec) (so_paid d)))"
proof -
  have ok: "sim_ok (reference_simulator spec) st" using sim_run_ok [OF assms(1), of acts] assms(2) by simp
  have "map so_id (ss_orders st) = map (\<lambda>n. ''order-'' @ string_of_nat n) [1..<Suc (length (ss_orders st))]"
    "map sc_id (ss_coupons st) = map (\<lambda>n. ''coupon-'' @ string_of_nat n) [1..<Suc (length (ss_coupons st))]"
    using ok by (simp_all add: sim_ok_def sim_orders_ok_def sim_coupons_ok_def numbered_def)
  moreover have "\<forall>u \<in> set (ss_users st). is_cents (su_balance u)"
    using ok by (auto simp: sim_ok_def sim_users_ok_def)
  moreover have "\<forall>d \<in> set (ss_orders st). sim_order_ok (reference_simulator spec) d \<and> so_user d \<in> su_id ` set (ss_users st)
      \<and> (has_coupon d \<longrightarrow> so_coupon d \<in> Some ` sc_id ` set (ss_coupons st))"
    using ok by (simp add: sim_ok_def sim_orders_ok_def)
  ultimately show ?thesis by (simp add: sim_order_ok_def)
qed

theorem sim_well_typed_witness:
  "map so_id [first_order 200 200 20 SimPaid] = [''order-1''] \<and> is_cents (su_balance (first_account 300 20 False))"
  using sim_well_typed [OF points_spec_valid demo_run [of 200]]
  by (simp add: points_state_def string_of_nat_less_10 digit_chars)

text \<open>Once the account exists, money is only moved: what it holds, what its orders and its
  membership have paid and not had refunded add up to the same amount after any further actions;
  and orders only advance: none is removed, renamed, taken back to an earlier status or has a
  refund undone.\<close>

theorem sim_conserves_money:
  assumes "spec_valid spec" "ss_users (sim_run spec acts) \<noteq> []"
  shows "sim_wealth (sim_run spec (acts @ rest)) = sim_wealth (sim_run spec acts)
    \<and> (\<forall>i < length (ss_orders (sim_run spec acts)). i < length (ss_orders (sim_run spec (acts @ rest)))
        \<and> so_id (ss_orders (sim_run spec (acts @ rest)) ! i) = so_id (ss_orders (sim_run spec acts) ! i)
        \<and> sim_stage (so_status (ss_orders (sim_run spec acts) ! i)) \<le> sim_stage (so_status (ss_orders (sim_run spec (acts @ rest)) ! i))
        \<and> so_refunded (ss_orders (sim_run spec acts) ! i) \<le> so_refunded (ss_orders (sim_run spec (acts @ rest)) ! i))"
  using sim_run_later [OF assms(1), of acts rest] assms(2) unfolding sim_later_def by auto

theorem sim_conserves_money_witness:
  "sim_wealth (points_state [first_account 300 20 False] [first_order 200 200 20 SimPaid])
    = sim_wealth (points_state [first_account 500 0 True] [])"
  using sim_conserves_money [OF points_spec_valid, of "[open_account]" "[place_order 200, pay_first]"] demo_run [of 200] demo_start
  by (simp add: points_state_def)

text \<open>An action that is rejected or not supported leaves the state as it was, emits no event
  and says why.\<close>

theorem sim_unapplied_no_trace:
  assumes "transition sim st a = Some r" "tn_status r \<noteq> Applied"
  shows "tn_state r = st \<and> tn_events r = [] \<and> tn_code r \<noteq> None"
  using assms by (rule transition_unapplied)

theorem sim_unapplied_no_trace_witness:
  "\<exists>r. transition points_sim (points_state [] []) (place_order 50) = Some r \<and> tn_state r = points_state [] [] \<and> tn_events r = []"
proof -
  have "transition points_sim (points_state [] []) (place_order 50) = Some (rejected_result (points_state [] []) ''USER_NOT_FOUND'')"
    by (simp add: sim_eval place_order_def do_create_order_def reject_def rejected_result_def)
  then show ?thesis using sim_unapplied_no_trace [of points_sim "points_state [] []" "place_order 50"] by auto
qed

text \<open>An applied action that carries an idempotency key is applied once: whatever else happens
  in between, sending it again is acknowledged, changes nothing and emits nothing.\<close>

theorem sim_replay_idempotent:
  assumes "spec_valid spec" "transition (reference_simulator spec) (sim_run spec acts) a = Some r"
    and "tn_status r = Applied" "marker a \<noteq> None"
  shows "transition (reference_simulator spec) (sim_run spec (acts @ a # rest)) a
    = Some \<lparr>tn_status = Applied, tn_state = sim_run spec (acts @ a # rest), tn_events = [], tn_code = None\<rparr>"
proof -
  obtain m where m: "marker a = Some m" using assms(4) by blast
  have "sim_run spec (acts @ [a]) = tn_state r" using assms(2) by (simp add: sim_run_append sim_next_def)
  then have later: "sim_later (tn_state r) (sim_run spec (acts @ a # rest))"
    using sim_run_later [OF assms(1), of "acts @ [a]" rest] by simp
  moreover have "sim_later (sim_run spec acts) (tn_state r)"
    using transition_keeps [OF assms(2) sim_run_ok [OF assms(1)]] by simp
  ultimately have "m \<in> ss_seen (sim_run spec (acts @ a # rest))"
    "ss_scenario (sim_run spec (acts @ a # rest)) = ss_scenario (sim_run spec acts)"
    using transition_remembers [OF assms(2,3) m] by (auto simp: sim_later_def)
  then show ?thesis using transition_remembers [OF assms(2,3) m] m by (simp add: transition_def)
qed

definition keyed_order :: sim_action where
  "keyed_order = (place_order 200)\<lparr>sa_key := Some ''key''\<rparr>"

theorem sim_replay_idempotent_witness:
  "\<exists>r. transition points_sim (sim_run points_spec ([open_account] @ [keyed_order])) keyed_order = Some r \<and> tn_events r = []"
proof -
  obtain r where "transition points_sim (sim_run points_spec [open_account]) keyed_order = Some r"
    "tn_status r = Applied" "marker keyed_order \<noteq> None"
    by (simp add: demo_start sim_eval keyed_order_def place_order_def do_create_order_def)
  then show ?thesis
    using sim_replay_idempotent [OF points_spec_valid, of "[open_account]" keyed_order r "[]"]
    by (simp add: points_sim_def)
qed

text \<open>C12: on the states a run reaches, an exception escapes a transition exactly when a refund that
  every check accepts meets a rule that revokes points and an order that granted none.\<close>

theorem sim_crash_exactly:
  assumes "spec_valid spec" "sim_run spec acts = st"
  shows "transition (reference_simulator spec) st a = None \<longleftrightarrow>
    sa_action a = REFUND_ORDER \<and> REFUND_ORDER \<in> sim_scenario_actions (spec_scenario spec)
    \<and> (\<forall>m. marker a = Some m \<longrightarrow> m \<notin> ss_seen st) \<and> revokes (reference_simulator spec)
    \<and> (\<exists>oi q. index_of (\<lambda>d. Some (so_id d) = sa_target a) (ss_orders st) = Some oi
        \<and> so_points (ss_orders st ! oi) = 0 \<and> sim_money (argument_or a ''amount'' JNull) = Inr (Number q)
        \<and> refund_accepted (reference_simulator spec) (ss_orders st ! oi) q)"
proof -
  let ?sim = "reference_simulator spec"
  have ok: "sim_ok ?sim st" using sim_run_ok [OF assms(1), of acts] assms(2) by simp
  have "ss_scenario st = spec_scenario spec" using ok by (simp add: sim_ok_def reference_simulator_def)
  moreover have "sim_handler ?sim (sa_action a) = Some h \<Longrightarrow> sa_action a \<noteq> REFUND_ORDER \<Longrightarrow> h st a \<noteq> Inl Uncaught" for h
    using handler_calm [OF _ _ ok] by (simp add: calm_def)
  ultimately show ?thesis using refund_uncaught [OF ok, of a]
    by (cases "sa_action a = REFUND_ORDER")
      (auto simp: transition_def split: option.splits sum.splits sim_exn.splits)
qed

theorem sim_crash_exactly_witness:
  "transition points_sim (points_state [first_account 450 0 False] [first_order 50 50 0 SimPaid]) (refund_first 50) = None"
proof -
  have floor: "\<lfloor>50 / 100 :: rat\<rfloor> = 0" by (simp add: floor_eq_iff)
  have run: "sim_run points_spec [open_account, place_order 50, pay_first]
      = points_state [first_account 450 0 False] [first_order 50 50 0 SimPaid]"
    using demo_run [of 50] floor by simp
  have "spec_scenario points_spec = REFUND_POINTS" by (simp add: points_spec_def)
  then show ?thesis
    unfolding points_sim_def sim_crash_exactly [OF points_spec_valid run, of "refund_first 50"]
    by (simp add: refund_first_def sim_eval refund_accepted_def revokes_def flip: points_sim_def)
qed

section \<open>Offers\<close>

lemma offers_handled:
  assumes "a \<in> set (legal_actions sim st)"
  shows "sa_action a \<in> {CREATE_USER} \<union> sim_scenario_actions (ss_scenario st) \<and> sim_handler sim (sa_action a) \<noteq> None \<and> sa_key a = None"
  using assms
  by (auto simp: legal_actions_def promotion_offers_def points_offers_def membership_offers_def refund_offers_def
      build_action_def Let_def split: list.splits scenario_type.splits option.splits if_splits)

lemma index_of_id:
  assumes "distinct (map k xs)" "x \<in> set xs"
  shows "\<exists>i. index_of (\<lambda>y. Some (k y) = Some (k x)) xs = Some i \<and> xs ! i = x"
  using assms by (induction xs) (auto simp: image_iff)

definition excessive_refund :: "sim_order \<Rightarrow> sim_action" where
  "excessive_refund d = build_action REFUND_ORDER (Some (so_id d)) None
     [(''amount'', JStr (amount_text (so_paid d - so_refunded d + 1 / 100)))]"

lemma excessive_refund_rejected:
  assumes ok: "sim_ok sim st" and d: "d \<in> set (ss_orders st)" and act: "REFUND_ORDER \<in> sim_scenario_actions (ss_scenario st)"
  shows "\<exists>code. transition sim st (excessive_refund d) = Some (rejected_result st code)"
proof -
  let ?q = "so_paid d - so_refunded d + 1 / 100"
  have "numbered so_id ''order'' (ss_orders st)" "is_cents ?q"
    using ok d by (auto simp: sim_ok_def sim_orders_ok_def sim_order_ok_def)
  then have distinct: "distinct (map so_id (ss_orders st))" and q: "sim_money (JStr (amount_text ?q)) \<in> {Inl Caught, Inr (Number ?q)}"
    by (auto simp: numbered_distinct sim_money_def parse_amount_text sim_quantize_def quantize_checked_def)
  obtain oi where oi: "index_of (\<lambda>y. Some (so_id y) = Some (so_id d)) (ss_orders st) = Some oi" "ss_orders st ! oi = d"
    using index_of_id [OF distinct d] by blast
  let ?a = "excessive_refund d"
  have a: "sa_action ?a = REFUND_ORDER" "sa_target ?a = Some (so_id d)" "marker ?a = None"
      "argument_or ?a ''amount'' JNull = JStr (amount_text ?q)"
    by (simp_all add: excessive_refund_def build_action_def marker_def argument_or_def)
  have "do_refund_order sim st ?a = Inl Caught \<or> (\<exists>code. do_refund_order sim st ?a = Inr (rejected_result st code))"
    using q oi by (auto simp: do_refund_order_def a Let_def reject_def compared_def)
  then show ?thesis using act a by (auto simp: transition_def remember_def)
qed

text \<open>The actions offered to a search are never ones the rule model does not support, and the
  refund one cent beyond what an order has left, which is among them, is always rejected.\<close>

theorem sim_offers_probe_limits:
  assumes "spec_valid spec" "sim_run spec acts = st"
  shows "(\<forall>a \<in> set (legal_actions (reference_simulator spec) st). sa_action a \<noteq> CANCEL_ORDER
      \<and> (\<forall>r. transition (reference_simulator spec) st a = Some r \<longrightarrow> tn_status r \<noteq> Unsupported))
    \<and> (\<forall>d \<in> set (ss_orders st). 0 < so_paid d \<longrightarrow> excessive_refund d \<in> set (refund_offers d)
      \<and> (REFUND_ORDER \<in> sim_scenario_actions (ss_scenario st) \<longrightarrow>
          (\<exists>code. transition (reference_simulator spec) st (excessive_refund d) = Some (rejected_result st code))))"
proof -
  let ?sim = "reference_simulator spec"
  have ok: "sim_ok ?sim st" using sim_run_ok [OF assms(1), of acts] assms(2) by simp
  have "tn_status r \<noteq> Unsupported" if a: "a \<in> set (legal_actions ?sim st)" "transition ?sim st a = Some r" for a r
  proof -
    obtain h where h: "sim_handler ?sim (sa_action a) = Some h" using offers_handled [OF a(1)] by blast
    have "h st a = Inr r' \<Longrightarrow> tn_status r' \<noteq> Unsupported" for r' using handler_clean [OF h, of st a] by (auto simp: clean_def)
    then show ?thesis using a(2) h offers_handled [OF a(1)]
      by (auto simp: transition_def rejected_result_def split: if_splits sum.splits sim_exn.splits)
  qed
  moreover have "sa_action a \<noteq> CANCEL_ORDER" if "a \<in> set (legal_actions ?sim st)" for a
    using offers_handled [OF that] by auto
  moreover have "0 < so_paid d \<Longrightarrow> excessive_refund d \<in> set (refund_offers d)" for d
    by (simp add: refund_offers_def excessive_refund_def Let_def)
  ultimately show ?thesis using excessive_refund_rejected [OF ok] by blast
qed

theorem sim_offers_probe_limits_witness:
  "\<exists>code. transition (reference_simulator points_spec) (points_state [first_account 300 20 False] [first_order 200 200 20 SimPaid])
      (excessive_refund (first_order 200 200 20 SimPaid))
    = Some (rejected_result (points_state [first_account 300 20 False] [first_order 200 200 20 SimPaid]) code)"
  using sim_offers_probe_limits [OF points_spec_valid demo_run [of 200]]
  by (simp add: points_state_def first_order_def)

end
