(* ===== verification/Search_Properties.thy ===== *)
theory Search_Properties
  imports Search Sim_Properties
begin

text \<open>
  The properties of the searches: what they find is real, breadth-first finds the shortest, what it
  exhausts holds nothing, and it always answers on rules that cannot crash the rule model.
\<close>

section \<open>Answers\<close>

lemma transition_returns:
  assumes "sim_ok sim st" "\<not> revokes sim"
  shows "transition sim st a \<noteq> None"
proof -
  have "sim_handler sim (sa_action a) = Some h \<Longrightarrow> h st a \<noteq> Inl Uncaught" for h
    using handler_calm [OF _ _ assms(1), of "sa_action a" h a] refund_uncaught [OF assms(1), of a] assms(2)
    by (cases "sa_action a = REFUND_ORDER") (auto simp: calm_def)
  then show ?thesis by (auto simp: transition_def split: option.splits sum.splits sim_exn.splits)
qed

lemma expand_returns:
  assumes "sim_ok sim st" "\<not> revokes sim"
  shows "\<exists>seen' news. expand sim H st tr as seen q = Some (seen', q @ news) \<and> (\<forall>x \<in> set news. sim_ok sim (fst x))"
proof (induction "as" arbitrary: seen q)
  case Nil
  then show ?case by simp
next
  case (Cons a "as")
  obtain r where r: "transition sim st a = Some r" using transition_returns [OF assms] by blast
  have "sim_ok sim (tn_state r)" using transition_keeps [OF r assms(1)] by simp
  then show ?case using Cons [of seen q] Cons [of "insert (H (tn_state r)) seen" "q @ [(tn_state r, tr @ [a])]"] r
    by (auto split: if_splits)
qed

lemma search_loop_returns:
  "\<lbrakk>\<forall>x \<in> set q. sim_ok sim (fst x); \<not> revokes sim\<rbrakk> \<Longrightarrow> \<exists>r. search_loop sim H goal b q seen n latest = Some r"
proof (induction sim H goal b q seen n latest rule: search_loop.induct)
  case (1 sim H goal b seen n latest)
  then show ?case by simp
next
  case (2 sim H goal b st tr q seen n latest)
  show ?case
  proof (cases "goal st tr \<or> max_depth b \<le> length tr \<or> max_nodes b \<le> n")
    case True
    then show ?thesis using 2 by auto
  next
    case False
    have "sim_ok sim st" using "2.prems" by simp
    then obtain seen' news where e: "expand sim H st tr (legal_actions sim st) seen q = Some (seen', q @ news)"
      "\<forall>x \<in> set news. sim_ok sim (fst x)" using expand_returns "2.prems"(2) by blast
    then show ?thesis using False "2.IH"(2) [of "(seen', q @ news)" seen' "q @ news"] "2.prems" by auto
  qed
qed

section \<open>A concrete search\<close>

definition first_offer :: sim_action where
  "first_offer = build_action CREATE_USER None None [(''initial_balance'', JStr ''500.00'')]"

definition opened :: sim_state where
  "opened = points_state [first_account 500 0 True] []"

lemma start_and_opened [simp]: "ss_users (initial_state sim) = []" "ss_orders (initial_state sim) = []"
  "ss_users opened \<noteq> []" "ss_orders opened = []"
  by (simp_all add: initial_state_def opened_def points_state_def)

lemma offers_at_start: "legal_actions points_sim (initial_state points_sim) = [first_offer]"
  by (simp add: legal_actions_def initial_state_def first_offer_def)

lemma text_of_500: "amount_text 500 = ''500.00''"
  by (simp add: amount_text_def fixed_text_def cents_of_numeral padded_def string_of_nat.simps digit_chars)

lemma first_offer_applies:
  obtains r where "transition points_sim (initial_state points_sim) first_offer = Some r" "tn_status r = Applied" "tn_state r = opened"
proof -
  have "sim_money (JStr ''500.00'') = Inr (Number 500)"
    using sim_money_text [of 500] by (simp add: cents_of_numeral flip: text_of_500)
  then show thesis using that
    by (simp add: initial_state_def first_offer_def opened_def sim_eval do_create_user_def)
qed

definition by_account :: "sim_state \<Rightarrow> string" where
  "by_account st = (if ss_users st = [] then ''none'' else ''one'')"

lemma short_walks:
  assumes "walk points_sim tr st" "length tr \<le> 1"
  shows "st = initial_state points_sim \<or> st = opened"
  using assms(1)
proof cases
  case start
  then show ?thesis by simp
next
  case (step tr0 st0 a r)
  then have "walk points_sim [] st0" using assms(2) by simp
  then have "st0 = initial_state points_sim" by cases simp_all
  moreover obtain r' where "transition points_sim (initial_state points_sim) first_offer = Some r'" "tn_state r' = opened"
    using first_offer_applies by blast
  ultimately show ?thesis using step by (simp add: offers_at_start)
qed

lemma by_account_tells_apart: "tells_apart points_sim by_account 1"
  by (auto simp: tells_apart_def by_account_def opened_def points_state_def initial_state_def dest!: short_walks split: if_splits)

lemma search_one_step:
  assumes "\<not> goal (initial_state points_sim) []"
  shows "breadth_first_search points_sim by_account goal \<lparr>max_depth = 1, max_nodes = 1\<rparr> = Some
    (if goal opened [first_offer]
     then \<lparr>sh_status = FOUND, sh_trace = [first_offer], sh_state = opened, sh_expanded = 1, sh_unique = 2,
            sh_budget = \<lparr>max_depth = 1, max_nodes = 1\<rparr>, sh_seed = None\<rparr>
     else \<lparr>sh_status = EXHAUSTED, sh_trace = [], sh_state = opened, sh_expanded = 1, sh_unique = 2,
            sh_budget = \<lparr>max_depth = 1, max_nodes = 1\<rparr>, sh_seed = None\<rparr>)"
proof -
  obtain r where r: "transition points_sim (initial_state points_sim) first_offer = Some r" "tn_status r = Applied" "tn_state r = opened"
    by (rule first_offer_applies)
  have "by_account opened = ''one''" "by_account (initial_state points_sim) = ''none''"
    by (simp_all add: by_account_def opened_def points_state_def initial_state_def)
  then show ?thesis using assms r by (simp add: breadth_first_search_def offers_at_start)
qed

lemma first_walk: "walk points_sim [first_offer] opened"
proof (rule first_offer_applies)
  fix r assume r: "transition points_sim (initial_state points_sim) first_offer = Some r" "tn_status r = Applied" "tn_state r = opened"
  then show ?thesis using walk.step [OF walk.start, of first_offer points_sim r] by (simp add: offers_at_start)
qed

section \<open>Properties of breadth-first search\<close>

lemma answers_walk:
  assumes "answers sim H goal b r x" "sh_status r \<noteq> EXHAUSTED"
  shows "walk sim (sh_trace r) (sh_state r) \<and> length (sh_trace r) \<le> max_depth b"
  using assms
  by (cases "sh_status r"; cases "xp_queue x") (auto simp: answers_def explored_def discovered_def)

text \<open>A trace found by breadth-first search is real: every action of it was offered and applies
  in turn, it leads from the initial state to the reported one, which is a goal, and it is within the
  depth budget.\<close>

theorem search_found_is_real:
  assumes "breadth_first_search sim H goal b = Some r" "sh_status r = FOUND"
  shows "walk sim (sh_trace r) (sh_state r) \<and> sh_state r = foldl (sim_next sim) (initial_state sim) (sh_trace r)
    \<and> goal (sh_state r) (sh_trace r) \<and> length (sh_trace r) \<le> max_depth b"
proof -
  obtain x where x: "answers sim H goal b r x" using assms(1) by (rule search_answers)
  have "goal (sh_state r) (sh_trace r)" using x assms(2) by (simp add: answers_def)
  then show ?thesis using answers_walk [OF x] assms(2) by (auto dest: walk_run)
qed

theorem search_found_is_real_witness: "walk points_sim [first_offer] opened \<and> ss_users opened \<noteq> []"
  using search_found_is_real [of points_sim by_account "\<lambda>st tr. ss_users st \<noteq> []" "\<lparr>max_depth = 1, max_nodes = 1\<rparr>", OF search_one_step]
  by simp


text \<open>C15: when no rule revokes points, breadth-first search always returns, having expanded at most
  the nodes of its budget.\<close>

theorem search_terminates:
  assumes "spec_valid spec" "\<not> revokes (reference_simulator spec)"
  shows "\<exists>r. breadth_first_search (reference_simulator spec) H goal b = Some r \<and> sh_expanded r \<le> max_nodes b
    \<and> (sh_status r = BUDGET_EXHAUSTED \<longrightarrow> sh_expanded r = max_nodes b)"
proof -
  let ?sim = "reference_simulator spec"
  have "sim_ok ?sim (initial_state ?sim)" using assms(1) by (intro initial_state_ok spec_sim_valid)
  then obtain r where r: "breadth_first_search ?sim H goal b = Some r"
    using search_loop_returns [of "[(initial_state ?sim, [])]" ?sim] assms(2) unfolding breadth_first_search_def by fastforce
  then obtain x where "answers ?sim H goal b r x" by (rule search_answers)
  then show ?thesis using r by (auto simp: answers_def)
qed

definition keep_spec :: rule_spec where
  "keep_spec = points_spec\<lparr>rules := [PointsRule \<lparr>spend_amount = \<lparr>m_currency = CNY, m_amount = 100, m_scale = 2\<rparr>,
     rule_points_granted = 10, revoke_on_refund = False\<rparr>]\<rparr>"

theorem search_terminates_witness:
  "\<exists>r. breadth_first_search (reference_simulator keep_spec) by_account (\<lambda>st tr. False) \<lparr>max_depth = 8, max_nodes = 1000\<rparr> = Some r
    \<and> sh_expanded r \<le> 1000"
  using search_terminates [of keep_spec by_account "\<lambda>st tr. False" "\<lparr>max_depth = 8, max_nodes = 1000\<rparr>"]
  by (auto simp: keep_spec_def points_spec_def spec_valid_def require_rules_for_scenario_def money_valid_def revokes_def reference_simulator_def)


text \<open>Breadth-first search finds a shortest trace: while the hash tells the states within the
  depth budget apart, no shorter trace of offered actions reaches a goal state.\<close>

theorem search_finds_shortest:
  assumes "breadth_first_search sim H (\<lambda>st tr. goal st) b = Some r" "sh_status r = FOUND"
    and "tells_apart sim H (max_depth b)" "walk sim tr st" "goal st"
  shows "length (sh_trace r) \<le> length tr"
proof (rule ccontr)
  assume shorter: "\<not> length (sh_trace r) \<le> length tr"
  obtain x where x: "answers sim H (\<lambda>st tr. goal st) b r x" using assms(1) by (rule search_answers)
  then obtain seen where e: "explored sim H (\<lambda>st tr. goal st) b x seen" by (auto simp: answers_def)
  have "xp_queue x \<noteq> []" "hd (xp_queue x) = (sh_state r, sh_trace r)" using x assms(2) by (auto simp: answers_def)
  then have head: "\<forall>y \<in> set (xp_queue x). length (sh_trace r) \<le> level y"
    using e by (cases "xp_queue x") (auto simp: explored_def levelled_def level_def)
  have "length (sh_trace r) \<le> max_depth b" using answers_walk [OF x] assms(2) by simp
  then obtain tr' where d: "(st, tr') \<in> discovered x" "length tr' \<le> length tr"
    using explored_complete [OF e assms(3) _ head assms(4)] shorter by auto
  have "(st, tr') \<notin> set (xp_queue x)" using head d(2) shorter by (force simp: level_def)
  then have "(st, tr') \<in> xp_processed x" using d(1) by (simp add: discovered_def)
  then have "\<not> goal st" using e by (auto simp: explored_def)
  then show False using assms(5) by contradiction
qed

theorem search_finds_shortest_witness: "length [first_offer] \<le> length [first_offer] \<and> tells_apart points_sim by_account 1"
  using search_finds_shortest [of points_sim by_account "\<lambda>st. ss_users st \<noteq> []" "\<lparr>max_depth = 1, max_nodes = 1\<rparr>", OF search_one_step
    _ _ first_walk] by_account_tells_apart
  by simp


text \<open>C14: an exhausted search is a proof of absence: while the hash tells the states within the depth
  budget apart, no trace of offered actions within that depth reaches a goal state.\<close>

theorem search_exhausted_is_absence:
  assumes "breadth_first_search sim H (\<lambda>st tr. goal st) b = Some r" "sh_status r = EXHAUSTED"
    and "tells_apart sim H (max_depth b)" "walk sim tr st" "length tr \<le> max_depth b"
  shows "\<not> goal st"
proof -
  obtain x where x: "answers sim H (\<lambda>st tr. goal st) b r x" using assms(1) by (rule search_answers)
  then obtain seen where e: "explored sim H (\<lambda>st tr. goal st) b x seen" by (auto simp: answers_def)
  have q: "xp_queue x = []" using x assms(2) by (simp add: answers_def)
  then obtain tr' where "(st, tr') \<in> discovered x"
    using explored_complete [OF e assms(3) _ _ assms(4,5)] by auto
  then have "(st, tr') \<in> xp_processed x" using q by (simp add: discovered_def)
  then show ?thesis using e by (auto simp: explored_def)
qed

theorem search_exhausted_is_absence_witness: "ss_orders opened = []"
  using search_exhausted_is_absence [of points_sim by_account "\<lambda>st. ss_orders st \<noteq> []" "\<lparr>max_depth = 1, max_nodes = 1\<rparr>", OF search_one_step
    _ _ first_walk] by_account_tells_apart
  by simp

section \<open>Random search\<close>

text \<open>Where the walk stands: on a walk of offered, applied actions no deeper than the budget allows.\<close>

lemma walk_loop_sound:
  assumes "walk_loop sim H draw goal b seed ks st tr seen = Some r" "walk sim tr st" "length tr \<le> max 1 (max_depth b)"
    and "\<forall>k n. 0 < n \<longrightarrow> draw k n < n"
  shows "walk sim (sh_trace r) (sh_state r) \<and> length (sh_trace r) \<le> max 1 (max_depth b)
    \<and> (sh_status r = FOUND \<longrightarrow> goal (sh_state r) (sh_trace r))
    \<and> (sh_expanded r = max_nodes b \<or> sh_expanded r \<in> set ks)"
  using assms(1-3)
proof (induction ks arbitrary: st tr seen)
  case Nil
  then show ?case by auto
next
  case (Cons k ks)
  show ?case
  proof (cases "goal st tr")
    case True
    then show ?thesis using Cons.prems by auto
  next
    case no_goal: False
    let ?restart = "legal_actions sim st = [] \<or> max_depth b \<le> length tr"
    obtain st1 tr1 where s1: "st1 = (if ?restart then initial_state sim else st)" "tr1 = (if ?restart then [] else tr)" by blast
    have w: "walk sim tr1 st1" and l: "length (tr1 @ [a]) \<le> max 1 (max_depth b)" for a
      using Cons.prems(2) s1 by (auto intro: walk.start)
    show ?thesis
    proof (cases "legal_actions sim st1 = []")
      case True
      then show ?thesis using Cons.prems(1) no_goal s1 w l by (auto simp: Let_def)
    next
      case False
      let ?a = "legal_actions sim st1 ! draw k (length (legal_actions sim st1))"
      have offered: "?a \<in> set (legal_actions sim st1)" using assms(4) False by (intro nth_mem) simp
      from Cons.prems(1) no_goal False obtain r1 where r1: "transition sim st1 ?a = Some r1"
        by (auto simp: Let_def s1 split: option.splits if_splits)
      show ?thesis
      proof (cases "tn_status r1 = Applied")
        case True
        have "walk sim (tr1 @ [?a]) (tn_state r1)" using w offered r1 True by (rule walk.step)
        moreover have "walk_loop sim H draw goal b seed ks (tn_state r1) (tr1 @ [?a]) (insert (H (tn_state r1)) seen) = Some r"
          using Cons.prems(1) no_goal False r1 True by (simp only: walk_loop.simps Let_def s1 [symmetric] if_False option.case if_True simp_thms)
        ultimately show ?thesis using Cons.IH [OF _ _ l] by auto
      next
        case unapplied: False
        have "walk_loop sim H draw goal b seed ks st1 tr1 seen = Some r"
          using Cons.prems(1) no_goal False r1 unapplied by (simp only: walk_loop.simps Let_def s1 [symmetric] if_False option.case simp_thms)
        moreover have "length tr1 \<le> max 1 (max_depth b)" using l by simp
        ultimately show ?thesis using Cons.IH w by auto
      qed
    qed
  qed
qed

text \<open>What a random walk reports is real as well: its trace is one of offered actions that apply in
  turn, it leads to the reported state, which is a goal if one was found, within the node budget and
  within the depth budget, read as at least one.\<close>

theorem random_search_sound:
  assumes "seeded_random_search sim H draws goal seed b = Some r" "\<forall>k n. 0 < n \<longrightarrow> draws seed k n < n"
  shows "walk sim (sh_trace r) (sh_state r) \<and> length (sh_trace r) \<le> max 1 (max_depth b)
    \<and> (sh_status r = FOUND \<longrightarrow> goal (sh_state r) (sh_trace r)) \<and> sh_expanded r \<le> max_nodes b"
proof (cases "goal (initial_state sim) []")
  case True
  then show ?thesis using assms(1) by (auto simp: seeded_random_search_def Let_def intro: walk.start)
next
  case False
  then have "walk_loop sim H (draws seed) goal b seed [0..<max_nodes b] (initial_state sim) [] {H (initial_state sim)} = Some r"
    using assms(1) by (simp add: seeded_random_search_def Let_def)
  from walk_loop_sound [OF this walk.start _ assms(2)] show ?thesis by auto
qed

definition first_draw :: "int \<Rightarrow> nat \<Rightarrow> nat \<Rightarrow> nat" where
  "first_draw seed k n = 0"

lemma random_one_step:
  assumes "\<not> goal (initial_state points_sim) []"
  shows "seeded_random_search points_sim by_account first_draw goal 7 \<lparr>max_depth = d, max_nodes = 1\<rparr> = Some
    \<lparr>sh_status = BUDGET_EXHAUSTED, sh_trace = [first_offer], sh_state = opened, sh_expanded = 1, sh_unique = 2,
     sh_budget = \<lparr>max_depth = d, max_nodes = 1\<rparr>, sh_seed = Some 7\<rparr>"
proof -
  obtain r where r: "transition points_sim (initial_state points_sim) first_offer = Some r" "tn_status r = Applied" "tn_state r = opened"
    by (rule first_offer_applies)
  have "by_account opened = ''one''" "by_account (initial_state points_sim) = ''none''"
    by (simp_all add: by_account_def)
  then show ?thesis using assms r by (simp add: seeded_random_search_def offers_at_start first_draw_def)
qed

theorem random_search_sound_witness: "walk points_sim [first_offer] opened \<and> length [first_offer] \<le> max 1 (0 :: nat)"
  using random_search_sound [of points_sim by_account first_draw "\<lambda>st tr. ss_users st \<noteq> []" 7 "\<lparr>max_depth = 0, max_nodes = 1\<rparr>",
    OF random_one_step]
  by (simp add: first_draw_def)

text \<open>The random walk differs from breadth-first search at the edges of its budget: with one node it
  reaches a goal in its only step and reports an exhausted budget, where breadth-first search reports
  the goal found; and with a depth budget of zero it still takes a step, where breadth-first search
  takes none.\<close>

theorem random_search_budget_edges:
  "(\<exists>r r'. seeded_random_search points_sim by_account first_draw (\<lambda>st tr. ss_users st \<noteq> []) 7 \<lparr>max_depth = 1, max_nodes = 1\<rparr> = Some r
     \<and> breadth_first_search points_sim by_account (\<lambda>st tr. ss_users st \<noteq> []) \<lparr>max_depth = 1, max_nodes = 1\<rparr> = Some r'
     \<and> sh_status r = BUDGET_EXHAUSTED \<and> sh_status r' = FOUND \<and> sh_state r = sh_state r' \<and> sh_trace r = sh_trace r')
   \<and> (\<exists>r. seeded_random_search points_sim by_account first_draw (\<lambda>st tr. ss_users st \<noteq> []) 7 \<lparr>max_depth = 0, max_nodes = 1\<rparr> = Some r
     \<and> length (sh_trace r) = 1)"
  by (simp add: random_one_step search_one_step del: One_nat_def)

end
