(* ===== verification/Oracle.thy ===== *)
theory Oracle
  imports Gate Sim_State
begin

text \<open>
  The deterministic oracle (\<^verbatim>\<open>packages/oracle/evaluator.py\<close>): eight checks over
  normalized evidence, that is, snapshots, receipts and events as JSON objects. A finding keeps its
  invariant, its status, the hashes and the related ids; of the evidence it keeps the ids of what
  offends, in their order. Explanations are left out. An exception that escapes a check (an unhashable
  status, a count that is no number) is a missing finding. Quotients are exact: the 28-digit rounding
  before they are truncated is not modelled.
\<close>

section \<open>Findings\<close>

datatype invariant_id =
    NET_PAID_NON_NEGATIVE | REFUND_NOT_EXCEED_PAID | COUPON_SINGLE_CONSUMPTION | POINTS_VALUE_CONSERVATION
  | ORDER_TERMINAL_MONOTONICITY | ENTITLEMENT_NON_NEGATIVE | ENTITLEMENT_REFUND_CONSISTENCY | IDEMPOTENT_EFFECT

datatype oracle_status = SATISFIED | VIOLATED | NOT_APPLICABLE | INSUFFICIENT_EVIDENCE

record oracle_finding =
  fd_invariant :: invariant_id
  fd_status :: oracle_status
  fd_offenders :: "json list"
  fd_before :: "string option"
  fd_after :: "string option"
  fd_actions :: "string list"
  fd_events :: "string list"

definition truthy_text :: "string \<Rightarrow> json \<Rightarrow> string option" where
  "truthy_text k j = (if py_truthy (jget k j) then Some (py_str (jget k j)) else None)"

definition texts_of :: "string \<Rightarrow> json list \<Rightarrow> string list" where
  "texts_of k js = concat (map (\<lambda>j. case truthy_text k j of None \<Rightarrow> [] | Some t \<Rightarrow> [t]) js)"

definition finding_of ::
  "invariant_id \<Rightarrow> oracle_status \<Rightarrow> json list \<Rightarrow> json list \<Rightarrow> json list \<Rightarrow> json list \<Rightarrow> oracle_finding" where
  "finding_of iid status snaps bad events actions =
     \<lparr>fd_invariant = iid, fd_status = status, fd_offenders = bad,
      fd_before = (if snaps = [] then None else truthy_text ''state_hash'' (hd snaps)),
      fd_after = (if snaps = [] then None else truthy_text ''state_hash'' (last snaps)),
      fd_actions = texts_of ''receipt_id'' actions, fd_events = texts_of ''event_id'' events\<rparr>"

section \<open>Reading values\<close>

definition state_of :: "json \<Rightarrow> json option" where
  "state_of snap = (if is_obj (jget ''state'' snap) then Some (jget ''state'' snap) else None)"

definition items_of :: "json option \<Rightarrow> string \<Rightarrow> json list option" where
  "items_of state name = (case state of
       None \<Rightarrow> None
     | Some s \<Rightarrow> (case jget name s of
           JList xs \<Rightarrow> if list_all is_obj xs then Some xs else None
         | _ \<Rightarrow> None))"

definition last_items :: "json list \<Rightarrow> string \<Rightarrow> json list option" where
  "last_items snaps name = (if snaps = [] then None else items_of (state_of (last snaps)) name)"

definition oracle_decimal :: "json \<Rightarrow> rat option" where
  "oracle_decimal v = (case raw_decimal v of Some (DFin x) \<Rightarrow> Some x | _ \<Rightarrow> None)"

definition oracle_integer :: "json \<Rightarrow> int option" where
  "oracle_integer v = (case v of
       JInt i \<Rightarrow> Some i
     | JStr s \<Rightarrow> (case parse_int s of
           None \<Rightarrow> None
         | Some i \<Rightarrow> if s = string_of_int i then Some i else None)
     | _ \<Rightarrow> None)"

definition truncated :: "rat \<Rightarrow> int" where
  "truncated x = (if x < 0 then - \<lfloor>- x\<rfloor> else \<lfloor>x\<rfloor>)"

text \<open>\<^verbatim>\<open>int(value)\<close>: of a float that is no number or infinite it raises, of an infinite one
  an \<^verbatim>\<open>OverflowError\<close>, which no check catches.\<close>

fun py_int :: "json \<Rightarrow> sim_exn + int" where
  "py_int (JInt i) = Inr i"
| "py_int (JBool b) = Inr (if b then 1 else 0)"
| "py_int (JStr s) = of_option Caught (parse_int s)"
| "py_int (JFloat t) = (case parse_decimal t of
       Some (DFin x) \<Rightarrow> Inr (truncated x)
     | Some (DInf _) \<Rightarrow> Inl Uncaught
     | _ \<Rightarrow> Inl Caught)"
| "py_int _ = Inl Caught"

section \<open>Judging a collection\<close>

text \<open>What one item adds to the offenders, or why the check stops at it.\<close>

datatype judgement = Judged "json list" | Unreadable | Raises

fun judge_all :: "('a \<Rightarrow> judgement) \<Rightarrow> 'a list \<Rightarrow> judgement" where
  "judge_all f [] = Judged []"
| "judge_all f (x # xs) = (case f x of
       Judged bad \<Rightarrow> (case judge_all f xs of Judged worse \<Rightarrow> Judged (bad @ worse) | stop \<Rightarrow> stop)
     | stop \<Rightarrow> stop)"

definition insufficient :: "invariant_id \<Rightarrow> json list \<Rightarrow> oracle_finding option" where
  "insufficient iid snaps = Some (finding_of iid INSUFFICIENT_EVIDENCE snaps [] [] [])"

definition not_applicable :: "invariant_id \<Rightarrow> json list \<Rightarrow> oracle_finding option" where
  "not_applicable iid snaps = Some (finding_of iid NOT_APPLICABLE snaps [] [] [])"

definition conclude :: "invariant_id \<Rightarrow> json list \<Rightarrow> json list \<Rightarrow> json list \<Rightarrow> judgement \<Rightarrow> oracle_finding option" where
  "conclude iid snaps events actions j = (case j of
       Raises \<Rightarrow> None
     | Unreadable \<Rightarrow> insufficient iid snaps
     | Judged bad \<Rightarrow> Some (finding_of iid (if bad = [] then SATISFIED else VIOLATED) snaps bad events actions))"

type_synonym check = "rule_spec \<Rightarrow> json list \<Rightarrow> json list \<Rightarrow> json list \<Rightarrow> oracle_finding option"

section \<open>Orders and coupons\<close>

definition judge_net_paid :: "json \<Rightarrow> judgement" where
  "judge_net_paid order = (case (oracle_decimal (jget ''paid_amount'' order), oracle_decimal (jget ''refunded_amount'' order)) of
       (Some paid, Some refunded) \<Rightarrow> Judged (if paid - refunded < 0 then [jget ''id'' order] else [])
     | _ \<Rightarrow> Unreadable)"

definition net_paid :: check where
  "net_paid spec snaps receipts events = (case last_items snaps ''orders'' of
       None \<Rightarrow> insufficient NET_PAID_NON_NEGATIVE snaps
     | Some [] \<Rightarrow> not_applicable NET_PAID_NON_NEGATIVE snaps
     | Some orders \<Rightarrow> conclude NET_PAID_NON_NEGATIVE snaps [] [] (judge_all judge_net_paid orders))"

definition judge_refund_limit :: "json \<Rightarrow> judgement" where
  "judge_refund_limit order = (case (oracle_decimal (jget ''paid_amount'' order), oracle_decimal (jget ''refunded_amount'' order)) of
       (Some paid, Some refunded) \<Rightarrow> Judged (if paid < refunded then [JStr (py_str (jget ''id'' order))] else [])
     | _ \<Rightarrow> Unreadable)"

definition refund_limit_check :: check where
  "refund_limit_check spec snaps receipts events = (case last_items snaps ''orders'' of
       None \<Rightarrow> insufficient REFUND_NOT_EXCEED_PAID snaps
     | Some [] \<Rightarrow> not_applicable REFUND_NOT_EXCEED_PAID snaps
     | Some orders \<Rightarrow> conclude REFUND_NOT_EXCEED_PAID snaps [] [] (judge_all judge_refund_limit orders))"

definition count_used :: "json list \<Rightarrow> string \<Rightarrow> nat" where
  "count_used events i = length (filter (\<lambda>e. jget ''event_type'' e = JStr ''COUPON_USED''
     \<and> py_str (jget ''aggregate_id'' e) = i) events)"

definition judge_coupon :: "json list \<Rightarrow> json \<Rightarrow> judgement" where
  "judge_coupon events coupon = (case oracle_integer (jget_default ''usage_count'' (JInt 0) coupon) of
       None \<Rightarrow> Unreadable
     | Some n \<Rightarrow>
         let i = py_str (jget ''id'' coupon) in
         Judged (if 1 < n \<or> 1 < count_used events i then [JStr i] else []))"

definition coupon_consumption :: check where
  "coupon_consumption spec snaps receipts events = (case last_items snaps ''coupons'' of
       None \<Rightarrow> insufficient COUPON_SINGLE_CONSUMPTION snaps
     | Some [] \<Rightarrow> not_applicable COUPON_SINGLE_CONSUMPTION snaps
     | Some coupons \<Rightarrow> conclude COUPON_SINGLE_CONSUMPTION snaps events [] (judge_all (judge_coupon events) coupons))"

section \<open>Points\<close>

text \<open>What an event grants (\<open>True\<close>) or revokes, for which order; events without a mapping as payload are skipped.\<close>

definition points_event :: "json \<Rightarrow> sim_exn + (bool \<times> string \<times> int) option" where
  "points_event e = (let type = jget ''event_type'' e; payload = jget_default ''payload'' (JObj []) e in
     if \<not> hashable type then Inl Uncaught
     else if type \<notin> {JStr ''POINTS_GRANTED'', JStr ''POINTS_REVOKED''} \<or> \<not> is_obj payload then Inr None
     else
       let v = jget_default ''amount'' (jget_default ''points'' (JInt 0) payload) payload in
       and_then (py_int (if py_truthy v then v else JInt 0)) (\<lambda>n.
         Inr (Some (type = JStr ''POINTS_GRANTED'', py_str (jget_default ''order_id'' (JStr []) payload), n))))"

fun points_entries :: "json list \<Rightarrow> sim_exn + (bool \<times> string \<times> int) list" where
  "points_entries [] = Inr []"
| "points_entries (e # es) = and_then (points_event e) (\<lambda>x. and_then (points_entries es) (\<lambda>xs.
     Inr (case x of None \<Rightarrow> xs | Some y \<Rightarrow> y # xs)))"

definition points_total :: "(bool \<times> string \<times> int) list \<Rightarrow> bool \<Rightarrow> string \<Rightarrow> int" where
  "points_total entries g i = sum_list (map (\<lambda>(_, _, n). n) (filter (\<lambda>(h, j, _). h = g \<and> j = i) entries))"

definition expected_grant :: "points_rule \<Rightarrow> rat \<Rightarrow> int" where
  "expected_grant rule paid = truncated (paid / m_amount (spend_amount rule)) * rule_points_granted rule"

definition expected_revoke :: "points_rule \<Rightarrow> rat \<Rightarrow> rat \<Rightarrow> int" where
  "expected_revoke rule paid refunded =
     (if 0 < paid \<and> revoke_on_refund rule then truncated (of_int (expected_grant rule paid) * refunded / paid) else 0)"

text \<open>
  The table of grants is a \<^verbatim>\<open>defaultdict\<close>: it is consulted only when it is not empty, but
  reporting an offender inserts its order, so it is consulted from the first offender on
  (\<open>consulted\<close>).
\<close>

fun judge_points :: "points_rule \<Rightarrow> json list \<Rightarrow> (bool \<times> string \<times> int) list \<Rightarrow> bool \<Rightarrow> json list \<Rightarrow> judgement" where
  "judge_points rule events entries consulted [] = Judged []"
| "judge_points rule events entries consulted (order # orders) =
     (case oracle_decimal (jget ''paid_amount'' order) of
        None \<Rightarrow> Unreadable
      | Some paid \<Rightarrow>
          if m_amount (spend_amount rule) = 0 then Raises
          else (case py_int (jget_default ''points_granted'' (JInt 0) order) of
              Inl _ \<Rightarrow> Raises
            | Inr state_grant \<Rightarrow>
                let i = py_str (jget ''id'' order);
                    wrong = (state_grant \<noteq> expected_grant rule paid
                      \<or> consulted \<and> points_total entries True i \<noteq> expected_grant rule paid)
                in case oracle_decimal (jget ''refunded_amount'' order) of
                    None \<Rightarrow> Unreadable
                  | Some refunded \<Rightarrow>
                      let unrevoked = (events \<noteq> [] \<and> points_total entries False i \<noteq> expected_revoke rule paid refunded)
                      in case judge_points rule events entries (consulted \<or> wrong) orders of
                          Judged bad \<Rightarrow> Judged ((if wrong then [JStr i] else []) @ (if unrevoked then [JStr i] else []) @ bad)
                        | stop \<Rightarrow> stop))"

definition judge_balance :: "json \<Rightarrow> judgement" where
  "judge_balance user = (case oracle_integer (jget_default ''points_balance'' (JInt 0) user) of
       None \<Rightarrow> Unreadable
     | Some n \<Rightarrow> Judged (if n < 0 then [jget ''id'' user] else []))"

definition points_conservation :: check where
  "points_conservation spec snaps receipts events = (case first_some as_points (rules spec) of
       None \<Rightarrow> not_applicable POINTS_VALUE_CONSERVATION snaps
     | Some rule \<Rightarrow> (case (last_items snaps ''orders'', last_items snaps ''users'') of
           (Some orders, Some users) \<Rightarrow> (case points_entries events of
               Inl Uncaught \<Rightarrow> None
             | Inl Caught \<Rightarrow> insufficient POINTS_VALUE_CONSERVATION snaps
             | Inr entries \<Rightarrow>
                 conclude POINTS_VALUE_CONSERVATION snaps events []
                   (case judge_points rule events entries (\<exists>(g, _, _) \<in> set entries. g) orders of
                      Judged bad \<Rightarrow> (case judge_all judge_balance users of
                          Judged worse \<Rightarrow> Judged (bad @ worse) | stop \<Rightarrow> stop)
                    | stop \<Rightarrow> stop))
         | _ \<Rightarrow> insufficient POINTS_VALUE_CONSERVATION snaps))"

section \<open>Terminal states\<close>

definition terminal_states :: "string set" where
  "terminal_states = {''CANCELLED'', ''REFUNDED''}"

fun regresses :: "string list \<Rightarrow> bool" where
  "regresses (a # b # ss) \<longleftrightarrow> a \<in> terminal_states \<and> b \<noteq> a \<or> regresses (b # ss)"
| "regresses _ \<longleftrightarrow> False"

definition first_occurrences :: "'a list \<Rightarrow> 'a list" where
  "first_occurrences xs = rev (remdups (rev xs))"

definition history :: "json list \<Rightarrow> string \<Rightarrow> string list" where
  "history orders i = map (\<lambda>d. py_str (jget ''status'' d)) (filter (\<lambda>d. py_str (jget ''id'' d) = i) orders)"

definition terminal_monotonicity :: check where
  "terminal_monotonicity spec snaps receipts events =
     (if length snaps < 2 then insufficient ORDER_TERMINAL_MONOTONICITY snaps
      else case those (map (\<lambda>s. items_of (state_of s) ''orders'') snaps) of
        None \<Rightarrow> insufficient ORDER_TERMINAL_MONOTONICITY snaps
      | Some per_snapshot \<Rightarrow>
          let orders = concat per_snapshot;
              ids = first_occurrences (map (\<lambda>d. py_str (jget ''id'' d)) orders)
          in if ids = [] then not_applicable ORDER_TERMINAL_MONOTONICITY snaps
             else conclude ORDER_TERMINAL_MONOTONICITY snaps [] []
               (Judged (map JStr (filter (\<lambda>i. regresses (history orders i)) ids))))"

section \<open>Entitlements\<close>

definition quantities :: "json \<Rightarrow> (int \<times> int \<times> int) option" where
  "quantities item =
     (case (oracle_integer (jget_default ''granted_quantity'' (JInt 0) item),
            oracle_integer (jget_default ''consumed_quantity'' (JInt 0) item),
            oracle_integer (jget_default ''revoked_quantity'' (JInt 0) item)) of
        (Some g, Some c, Some r) \<Rightarrow> Some (g, c, r)
      | _ \<Rightarrow> None)"

definition judge_available :: "json \<Rightarrow> judgement" where
  "judge_available item = (case quantities item of
       None \<Rightarrow> Unreadable
     | Some (g, c, r) \<Rightarrow> Judged (if g - c - r < 0 then [jget ''id'' item] else []))"

definition entitlement_non_negative :: check where
  "entitlement_non_negative spec snaps receipts events = (case last_items snaps ''entitlements'' of
       None \<Rightarrow> insufficient ENTITLEMENT_NON_NEGATIVE snaps
     | Some [] \<Rightarrow> not_applicable ENTITLEMENT_NON_NEGATIVE snaps
     | Some values \<Rightarrow> conclude ENTITLEMENT_NON_NEGATIVE snaps [] [] (judge_all judge_available values))"

definition refunds_membership :: "string \<Rightarrow> json \<Rightarrow> bool" where
  "refunds_membership i e = (let payload = jget_default ''payload'' (JObj []) e;
       named = (if is_obj payload \<and> py_truthy (jget ''membership_id'' payload) then py_str (jget ''membership_id'' payload) else [])
     in jget ''event_type'' e = JStr ''MEMBERSHIP_REFUNDED'' \<and> (py_str (jget ''aggregate_id'' e) = i \<or> named = i))"

fun after_first :: "('a \<Rightarrow> bool) \<Rightarrow> 'a list \<Rightarrow> 'a list" where
  "after_first P [] = []"
| "after_first P (x # xs) = (if P x then xs else after_first P xs)"

definition consumed_after_refund :: "json list \<Rightarrow> string \<Rightarrow> string \<Rightarrow> bool" where
  "consumed_after_refund events membership_id entitlement_id \<longleftrightarrow>
     (\<exists>e \<in> set (after_first (refunds_membership membership_id) events).
        jget ''event_type'' e = JStr ''ENTITLEMENT_CONSUMED'' \<and> py_str (jget ''aggregate_id'' e) = entitlement_id)"

definition judge_membership :: "membership_rule \<Rightarrow> json list \<Rightarrow> json list \<Rightarrow> json \<Rightarrow> judgement" where
  "judge_membership rule entitlements events m =
     (let status = jget ''status'' m; i = jget ''id'' m in
      if \<not> hashable status then Raises
      else if status \<notin> {JStr ''CANCELLED'', JStr ''REFUNDED''} then Judged []
      else case map_of (rev (map (\<lambda>e. (py_str (jget ''membership_id'' e), e)) entitlements)) (py_str i) of
        None \<Rightarrow> Unreadable
      | Some e \<Rightarrow> (case quantities e of
            None \<Rightarrow> Unreadable
          | Some (g, c, r) \<Rightarrow>
              let was_refunded = (status = JStr ''REFUNDED'') in
              Judged ((if g - c - r \<noteq> 0 then [i] else [])
                @ (if rule_refund_policy rule = NON_REFUNDABLE \<and> was_refunded then [i] else [])
                @ (if rule_refund_policy rule = UNUSED_ONLY \<and> was_refunded \<and> 0 < c then [i] else [])
                @ (if was_refunded \<and> consumed_after_refund events (py_str i) (py_str (jget ''id'' e))
                   then [JStr (py_str i)] else []))))"

definition entitlement_refund :: check where
  "entitlement_refund spec snaps receipts events = (case first_some as_membership (rules spec) of
       None \<Rightarrow> not_applicable ENTITLEMENT_REFUND_CONSISTENCY snaps
     | Some rule \<Rightarrow> (case (last_items snaps ''memberships'', last_items snaps ''entitlements'') of
           (Some memberships, Some entitlements) \<Rightarrow>
             if memberships = [] then not_applicable ENTITLEMENT_REFUND_CONSISTENCY snaps
             else conclude ENTITLEMENT_REFUND_CONSISTENCY snaps [] []
               (judge_all (judge_membership rule entitlements events) memberships)
         | _ \<Rightarrow> insufficient ENTITLEMENT_REFUND_CONSISTENCY snaps))"

section \<open>Idempotency\<close>

definition receipt_group :: "json \<Rightarrow> string \<times> string" where
  "receipt_group r = (py_str (jget_default ''action_type'' (jget ''action'' r) r), py_str (jget ''idempotency_key'' r))"

definition fingerprint :: "json \<Rightarrow> string \<times> string \<times> string" where
  "fingerprint r = (py_str (jget ''status'' r), py_repr (jget ''result'' r), py_repr (jget ''monetary_effects'' r))"

definition event_mark :: "json \<Rightarrow> string \<times> string" where
  "event_mark e = (py_str (jget ''event_type'' e), py_str (jget ''idempotency_key'' e))"

definition duplicate_effect :: "json list \<Rightarrow> string \<Rightarrow> bool" where
  "duplicate_effect events key = (let keyed = filter (\<lambda>e. py_truthy (jget ''idempotency_key'' e)) events in
     \<exists>e \<in> set keyed. snd (event_mark e) = key \<and> 1 < length (filter (\<lambda>e'. event_mark e' = event_mark e) keyed))"

definition judge_group :: "json list \<Rightarrow> json list \<Rightarrow> string \<times> string \<Rightarrow> judgement" where
  "judge_group receipts events g =
     (let values = filter (\<lambda>r. receipt_group r = g) receipts;
          successful = filter (\<lambda>r. jget ''status'' r \<in> {JStr ''SUCCEEDED'', JStr ''APPLIED''}) values
      in if \<exists>r \<in> set values. \<not> hashable (jget ''status'' r) then Raises
         else Judged (if 1 < card (fingerprint ` set values) \<or> 1 < length successful \<and> duplicate_effect events (snd g)
           then [JList [JStr (fst g), JStr (snd g)]] else []))"

definition idempotency :: check where
  "idempotency spec snaps receipts events =
     (let keyed = filter (\<lambda>r. py_truthy (jget ''idempotency_key'' r)) receipts in
      if keyed = [] then insufficient IDEMPOTENT_EFFECT snaps
      else conclude IDEMPOTENT_EFFECT snaps events receipts
        (judge_all (judge_group keyed events) (first_occurrences (map receipt_group keyed))))"

section \<open>The report\<close>

definition evaluate :: "rule_spec \<Rightarrow> json list \<Rightarrow> json list \<Rightarrow> json list \<Rightarrow> oracle_finding list option" where
  "evaluate spec snaps receipts events = those (map (\<lambda>check. check spec snaps receipts events)
     [net_paid, refund_limit_check, coupon_consumption, points_conservation, terminal_monotonicity,
      entitlement_non_negative, entitlement_refund, idempotency])"

text \<open>\<^verbatim>\<open>report.finding(invariant_id)\<close> and \<^verbatim>\<open>report.violated\<close>.\<close>

definition finding :: "oracle_finding list \<Rightarrow> invariant_id \<Rightarrow> oracle_finding option" where
  "finding report iid = find (\<lambda>f. fd_invariant f = iid) report"

definition violations :: "oracle_finding list \<Rightarrow> oracle_finding list" where
  "violations report = filter (\<lambda>f. fd_status f = VIOLATED) report"

end
