(* ===== verification/Minimization.thy ===== *)
theory Minimization
  imports Oracle "HOL-Library.Sublist"
begin

text \<open>
  Deletion-based delta debugging (\<^verbatim>\<open>packages/attack_runtime/minimization.py\<close>). The predicate
  is asked with the number of the trial, because every trial is a fresh run that may answer
  differently; it may also raise, which ends the minimization.
\<close>

section \<open>The loops\<close>

type_synonym predicate = "nat \<Rightarrow> sim_action list \<Rightarrow> invariant_id \<Rightarrow> bool option"

record minimization_result =
  mn_invariant :: invariant_id
  mn_original :: nat
  mn_actions :: "sim_action list"
  mn_trials :: nat
  mn_one_minimal :: bool

datatype minimize_error = Not_violating | Predicate_raised

definition without :: "'a list \<Rightarrow> nat \<Rightarrow> nat \<Rightarrow> 'a list" where
  "without xs start width = take start xs @ drop (start + width) xs"

text \<open>\<^verbatim>\<open>range(0, len(current), chunk_size)\<close>.\<close>

definition chunk_starts :: "nat \<Rightarrow> nat \<Rightarrow> nat list" where
  "chunk_starts n width = filter (\<lambda>i. i mod width = 0) [0..<n]"

text \<open>The first chunk whose deletion is confirmed; the trials made so far are counted along.\<close>

fun try_chunks ::
  "predicate \<Rightarrow> invariant_id \<Rightarrow> sim_action list \<Rightarrow> nat \<Rightarrow> nat list \<Rightarrow> nat \<Rightarrow> (nat \<times> sim_action list option) option" where
  "try_chunks p iid cur width [] t = Some (t, None)"
| "try_chunks p iid cur width (i # is) t = (case p (t + 1) (without cur i width) iid of
       None \<Rightarrow> None
     | Some True \<Rightarrow> Some (t + 1, Some (without cur i width))
     | Some False \<Rightarrow> try_chunks p iid cur width is (t + 1))"

definition chunk_size :: "nat \<Rightarrow> nat \<Rightarrow> nat" where
  "chunk_size n granularity = max 1 ((n + granularity - 1) div granularity)"

lemma try_chunks_shorter:
  "\<lbrakk>try_chunks p iid cur width is t = Some (t', Some c); \<forall>i \<in> set is. i < length cur; 0 < width\<rbrakk> \<Longrightarrow> length c < length cur"
  by (induction p iid cur width "is" t rule: try_chunks.induct) (auto simp: without_def split: option.splits bool.splits)

text \<open>A granularity of zero would divide by zero.\<close>

function reduce_chunks ::
  "predicate \<Rightarrow> invariant_id \<Rightarrow> sim_action list \<Rightarrow> nat \<Rightarrow> nat \<Rightarrow> (nat \<times> sim_action list) option" where
  "reduce_chunks p iid cur granularity t =
     (if length cur < 2 then Some (t, cur)
      else if granularity = 0 then None
      else case try_chunks p iid cur (chunk_size (length cur) granularity)
          (chunk_starts (length cur) (chunk_size (length cur) granularity)) t of
        None \<Rightarrow> None
      | Some (t', Some c) \<Rightarrow> reduce_chunks p iid c (max 2 (granularity - 1)) t'
      | Some (t', None) \<Rightarrow>
          if length cur \<le> granularity then Some (t', cur)
          else reduce_chunks p iid cur (min (length cur) (granularity * 2)) t')"
  by pat_completeness auto
termination
  by (relation "measures [\<lambda>(p, iid, cur, g, t). length cur, \<lambda>(p, iid, cur, g, t). length cur - g]")
    (auto simp: chunk_starts_def chunk_size_def min_def dest: try_chunks_shorter)

declare reduce_chunks.simps [simp del]

text \<open>The sweep deletes one action after the other.\<close>

function sweep :: "predicate \<Rightarrow> invariant_id \<Rightarrow> sim_action list \<Rightarrow> nat \<Rightarrow> nat \<Rightarrow> (nat \<times> sim_action list) option" where
  "sweep p iid cur i t =
     (if i < length cur then (case p (t + 1) (without cur i 1) iid of
          None \<Rightarrow> None
        | Some True \<Rightarrow> sweep p iid (without cur i 1) i (t + 1)
        | Some False \<Rightarrow> sweep p iid cur (i + 1) (t + 1))
      else Some (t, cur))"
  by pat_completeness auto
termination
  by (relation "measure (\<lambda>(p, iid, cur, i, t). length cur - i)") (auto simp: without_def)

declare sweep.simps [simp del]

fun check_minimal :: "predicate \<Rightarrow> invariant_id \<Rightarrow> sim_action list \<Rightarrow> nat list \<Rightarrow> nat \<Rightarrow> (nat \<times> bool) option" where
  "check_minimal p iid cur [] t = Some (t, True)"
| "check_minimal p iid cur (i # is) t = (case p (t + 1) (without cur i 1) iid of
       None \<Rightarrow> None
     | Some True \<Rightarrow> Some (t + 1, False)
     | Some False \<Rightarrow> check_minimal p iid cur is (t + 1))"

definition minimize_trace ::
  "sim_action list \<Rightarrow> invariant_id \<Rightarrow> predicate \<Rightarrow> minimize_error + minimization_result" where
  "minimize_trace acts iid p = (case p 1 acts iid of
       None \<Rightarrow> Inl Predicate_raised
     | Some False \<Rightarrow> Inl Not_violating
     | Some True \<Rightarrow>
         and_then (of_option Predicate_raised (reduce_chunks p iid acts 2 1)) (\<lambda>(t1, cur1).
         and_then (of_option Predicate_raised (sweep p iid cur1 0 t1)) (\<lambda>(t2, cur2).
         and_then (of_option Predicate_raised (check_minimal p iid cur2 [0..<length cur2] t2)) (\<lambda>(t3, one).
         Inr \<lparr>mn_invariant = iid, mn_original = length acts, mn_actions = cur2, mn_trials = t3, mn_one_minimal = one\<rparr>))))"

section \<open>What is kept\<close>

text \<open>A confirmed candidate: a subsequence of the original trace that a trial made so far confirmed.\<close>

definition confirmed :: "predicate \<Rightarrow> invariant_id \<Rightarrow> sim_action list \<Rightarrow> nat \<Rightarrow> sim_action list \<Rightarrow> bool" where
  "confirmed p iid acts t cur \<longleftrightarrow> subseq cur acts \<and> (\<exists>k \<ge> 1. k \<le> t \<and> p k cur iid = Some True)"

lemma subseq_without: "subseq (without xs i n) xs"
proof -
  have "subseq (drop (i + n) xs) (drop i xs)" by (metis add.commute drop_drop suffix_drop suffix_imp_subseq)
  then have "subseq (take i xs @ drop (i + n) xs) (take i xs @ drop i xs)" by (intro list_emb_append_mono) simp_all
  then show ?thesis unfolding without_def append_take_drop_id .
qed

lemma confirmed_later: "confirmed p iid acts t cur \<Longrightarrow> t \<le> t' \<Longrightarrow> confirmed p iid acts t' cur"
  by (auto simp: confirmed_def intro: order_trans)

lemma confirmed_smaller:
  "\<lbrakk>subseq cur acts; p (t + 1) (without cur i n) iid = Some True\<rbrakk> \<Longrightarrow> confirmed p iid acts (t + 1) (without cur i n)"
  using subseq_order.trans [OF subseq_without] by (auto simp: confirmed_def)

lemma try_chunks_confirmed:
  "\<lbrakk>try_chunks p iid cur width is t = Some (t', x); subseq cur acts\<rbrakk>
    \<Longrightarrow> t \<le> t' \<and> (\<forall>c. x = Some c \<longrightarrow> confirmed p iid acts t' c)"
proof (induction p iid cur width "is" t rule: try_chunks.induct)
  case (1 p iid cur width t)
  then show ?case by simp
next
  case (2 p iid cur width i "is" t)
  then obtain b where b: "p (t + 1) (without cur i width) iid = Some b" by (auto split: option.splits)
  show ?case
  proof (cases b)
    case True
    then show ?thesis using 2(2) b confirmed_smaller [OF 2(3), of p t i width iid] by auto
  next
    case False
    then show ?thesis using 2(1) [OF b] 2(2,3) b by fastforce
  qed
qed

lemma reduce_chunks_confirmed:
  "\<lbrakk>reduce_chunks p iid cur g t = Some (t', c); confirmed p iid acts t cur\<rbrakk> \<Longrightarrow> confirmed p iid acts t' c"
proof (induction p iid cur g t rule: reduce_chunks.induct)
  case (1 p iid cur g t)
  let ?w = "chunk_size (length cur) g"
  show ?case
  proof (cases "length cur < 2 \<or> g = 0")
    case True
    then show ?thesis using "1.prems" by (auto simp: reduce_chunks.simps [of p iid cur g t] split: if_splits)
  next
    case False
    then obtain t1 x where x: "try_chunks p iid cur ?w (chunk_starts (length cur) ?w) t = Some (t1, x)"
      using "1.prems"(1) by (auto simp: reduce_chunks.simps [of p iid cur g t] split: option.splits)
    then have k: "t \<le> t1" "\<forall>c. x = Some c \<longrightarrow> confirmed p iid acts t1 c"
      using try_chunks_confirmed [OF x] "1.prems"(2) by (auto simp: confirmed_def)
    then have "confirmed p iid acts t1 cur" using "1.prems"(2) confirmed_later by blast
    then show ?thesis
      using False x k "1.IH" "1.prems"(1)
      by (cases x) (auto simp: reduce_chunks.simps [of p iid cur g t] split: if_splits)
  qed
qed

lemma sweep_confirmed:
  "\<lbrakk>sweep p iid cur i t = Some (t', c); confirmed p iid acts t cur\<rbrakk> \<Longrightarrow> confirmed p iid acts t' c"
proof (induction p iid cur i t rule: sweep.induct)
  case (1 p iid cur i t)
  show ?case
  proof (cases "i < length cur")
    case False
    then show ?thesis using "1.prems" by (simp add: sweep.simps [of p iid cur i t])
  next
    case True
    then obtain b where b: "p (t + 1) (without cur i 1) iid = Some b"
      using "1.prems"(1) by (auto simp: sweep.simps [of p iid cur i t] split: option.splits)
    have "confirmed p iid acts (t + 1) cur" using "1.prems"(2) by (rule confirmed_later) simp
    moreover have "b \<Longrightarrow> confirmed p iid acts (t + 1) (without cur i 1)"
      using b "1.prems"(2) by (intro confirmed_smaller) (auto simp: confirmed_def)
    ultimately show ?thesis using True b "1.IH" "1.prems"(1)
      by (cases b) (simp_all add: sweep.simps [of p iid cur i t])
  qed
qed

lemma check_minimal_trials: "check_minimal p iid cur is t = Some (t', b) \<Longrightarrow> t \<le> t'"
  by (induction p iid cur "is" t rule: check_minimal.induct) (fastforce split: option.splits bool.splits)+

section \<open>Predicates that do not change\<close>

definition steady :: "(sim_action list \<Rightarrow> bool) \<Rightarrow> predicate" where
  "steady q k xs iid = Some (q xs)"

definition one_minimal :: "(sim_action list \<Rightarrow> bool) \<Rightarrow> sim_action list \<Rightarrow> bool" where
  "one_minimal q xs \<longleftrightarrow> (\<forall>i \<in> {..<length xs}. \<not> q (without xs i 1))"

lemma try_chunks_steady: "\<exists>t' x. try_chunks (steady q) iid cur width is t = Some (t', x)"
  by (induction "steady q" iid cur width "is" t rule: try_chunks.induct) (simp_all add: steady_def split: bool.splits)

lemma reduce_chunks_steady: "0 < g \<Longrightarrow> \<exists>t' c. reduce_chunks (steady q) iid cur g t = Some (t', c)"
proof (induction "steady q" iid cur g t rule: reduce_chunks.induct)
  case (1 iid cur g t)
  let ?w = "chunk_size (length cur) g"
  obtain t1 x where x: "try_chunks (steady q) iid cur ?w (chunk_starts (length cur) ?w) t = Some (t1, x)"
    using try_chunks_steady by blast
  show ?case
  proof (cases "length cur < 2")
    case True
    then show ?thesis by (simp add: reduce_chunks.simps [of "steady q" iid cur g t])
  next
    case False
    have nz: "g \<noteq> 0" and ne: "cur \<noteq> []" using "1.prems" False by auto
    show ?thesis
    proof (cases x)
      case None
      then show ?thesis using "1.hyps"(1) [OF False nz x refl None] x False nz ne
        by (cases "length cur \<le> g") (auto simp: reduce_chunks.simps [of "steady q" iid cur g t])
    next
      case (Some c)
      then show ?thesis using "1.hyps"(2) [OF False nz x refl Some] x False nz
        by (simp add: reduce_chunks.simps [of "steady q" iid cur g t])
    qed
  qed
qed

lemma sweep_steady: "\<exists>t' c. sweep (steady q) iid cur i t = Some (t', c)"
proof (induction "steady q" iid cur i t rule: sweep.induct)
  case (1 iid cur i t)
  then show ?case by (cases "q (without cur i 1)") (auto simp: sweep.simps [of "steady q" iid cur i t] steady_def)
qed

lemma check_minimal_steady:
  "\<exists>t'. check_minimal (steady q) iid cur is t = Some (t', \<forall>i \<in> set is. \<not> q (without cur i 1))"
  by (induction "steady q" iid cur "is" t rule: check_minimal.induct) (auto simp: steady_def split: bool.splits)

text \<open>For a deletion_monotone predicate, what could not be deleted before cannot be deleted after a further deletion.\<close>

lemma without_twice:
  assumes "j < i" "i < length xs"
  shows "subseq (without (without xs i 1) j 1) (without xs j 1)"
proof -
  have "without (without xs i 1) j 1 = without (without xs j 1) (i - 1) 1"
  proof (rule nth_equalityI)
    show "length (without (without xs i 1) j 1) = length (without (without xs j 1) (i - 1) 1)"
      using assms by (simp add: without_def)
    fix k assume "k < length (without (without xs i 1) j 1)"
    then show "without (without xs i 1) j 1 ! k = without (without xs j 1) (i - 1) 1 ! k"
      using assms by (auto simp: without_def nth_append min_def intro!: arg_cong [where f = "(!) xs"])
  qed
  then show ?thesis by (simp add: subseq_without)
qed

definition deletion_monotone :: "(sim_action list \<Rightarrow> bool) \<Rightarrow> bool" where
  "deletion_monotone q \<longleftrightarrow> (\<forall>xs ys. subseq xs ys \<longrightarrow> q xs \<longrightarrow> q ys)"

lemma sweep_minimal:
  "\<lbrakk>sweep (steady q) iid cur i t = Some (t', c); deletion_monotone q; \<forall>j < i. j < length cur \<longrightarrow> \<not> q (without cur j 1)\<rbrakk>
    \<Longrightarrow> one_minimal q c"
proof (induction "steady q" iid cur i t rule: sweep.induct)
  case (1 iid cur i t)
  show ?case
  proof (cases "i < length cur")
    case False
    then show ?thesis using "1.prems" by (auto simp: sweep.simps [of "steady q" iid cur i t] one_minimal_def)
  next
    case True
    show ?thesis
    proof (cases "q (without cur i 1)")
      case found: True
      have "\<not> q (without (without cur i 1) j 1)" if "j < i" for j
        using "1.prems"(2,3) without_twice [OF that True] that True unfolding deletion_monotone_def by (meson order_less_trans)
      then show ?thesis
        using "1.hyps"(1) True found "1.prems"(1,2) by (simp add: sweep.simps [of "steady q" iid cur i t] steady_def)
    next
      case missed: False
      then have "\<forall>j < i + 1. j < length cur \<longrightarrow> \<not> q (without cur j 1)" using "1.prems"(3) by (auto simp: less_Suc_eq)
      then show ?thesis
        using "1.hyps"(2) [of False] True missed "1.prems"(1,2) by (simp add: sweep.simps [of "steady q" iid cur i t] steady_def)
    qed
  qed
qed

end
