(* ===== verification/Replay.thy ===== *)
theory Replay
  imports Oracle Sandbox_Http
begin

text \<open>
  The replay of a candidate trace on a fresh run of the sandbox
  (\<^verbatim>\<open>packages/attack_runtime/replay.py\<close>), with the routes of the sandbox it uses that the
  agent does not (run creation and events). A timed-out or unanswered write is settled by its durable
  receipt or the replay ends with an exception; any other failure ends it too. Bodies the client turns
  into a \<^verbatim>\<open>dict\<close> are objects, as the service sends them; a list of pairs is refused here.
\<close>

section \<open>Run creation and events over HTTP\<close>

definition http_create ::
  "(json \<Rightarrow> string) \<Rightarrow> (scenario_type \<Rightarrow> sandbox_version \<Rightarrow> string option) \<Rightarrow> scenario_type \<Rightarrow> sandbox_version
   \<Rightarrow> defect_axis list option \<Rightarrow> ambient \<Rightarrow> database \<Rightarrow> reply \<times> database" where
  "http_create D known sc v axes amb db =
     (if \<not> axes_request_valid sc axes then (Reply 422 (JObj [(''detail'', JList [JObj []])]), db)
      else case create_run D known amb sc v axes db of
        (Inr body, db') \<Rightarrow> (Reply 201 body, db')
      | (Inl e, db') \<Rightarrow> (failure_reply e, db'))"

text \<open>A run whose creation is served late is one no client ever learns of; it is left out.\<close>

definition send_create ::
  "(json \<Rightarrow> string) \<Rightarrow> (scenario_type \<Rightarrow> sandbox_version \<Rightarrow> string option) \<Rightarrow> scenario_type \<Rightarrow> sandbox_version
   \<Rightarrow> defect_axis list option \<Rightarrow> world \<Rightarrow> reply \<times> world" where
  "send_create D known sc v axes w =
     (let w1 = next_world D w;
          (answer, db') = http_create D known sc v axes (cn_amb (current w)) (w_db w1)
      in case cn_delivery (current w) of
           Deliver \<Rightarrow> (answer, w1\<lparr>w_db := db'\<rparr>)
         | Lost_request g \<Rightarrow> (glitch_reply g, w1)
         | Lost_reply g \<Rightarrow> (glitch_reply g, w1\<lparr>w_db := db'\<rparr>)
         | Late g \<Rightarrow> (glitch_reply g, w1))"

definition http_events :: "string \<Rightarrow> ambient \<Rightarrow> database \<Rightarrow> reply" where
  "http_events run_id amb db = (case get_events run_id db of
       Inr es \<Rightarrow> Reply 200 (JObj [(''events'', JList es)])
     | Inl e \<Rightarrow> failure_reply e)"

section \<open>Reading answers\<close>

datatype classification = CONFIRMED_VIOLATION | MODEL_DIVERGENCE | NO_EVIDENCE

definition classify_replay :: "oracle_status \<Rightarrow> classification" where
  "classify_replay status =
     (if status = VIOLATED then CONFIRMED_VIOLATION
      else if status = INSUFFICIENT_EVIDENCE then NO_EVIDENCE
      else MODEL_DIVERGENCE)"

definition unanswered_statuses :: "nat set" where
  "unanswered_statuses = {502, 503, 504}"

text \<open>\<^verbatim>\<open>raise_for_status\<close> and \<^verbatim>\<open>dict(response.json())\<close>: no value when one of them raises.\<close>

fun accepted :: "reply \<Rightarrow> json option" where
  "accepted (Reply n body) = (if 200 \<le> n \<and> n < 300 \<and> is_obj body then Some body else None)"
| "accepted _ = None"

datatype write_answer = Receipt json | Unanswered | Failed

fun write_answer_of :: "reply \<Rightarrow> write_answer" where
  "write_answer_of Silent = Unanswered"
| "write_answer_of (Severed e) = Failed"
| "write_answer_of (Garbled n) = (if n \<in> unanswered_statuses then Unanswered else Failed)"
| "write_answer_of (Reply n body) =
     (if n \<in> unanswered_statuses then Unanswered
      else case accepted (Reply n body) of None \<Rightarrow> Failed | Some j \<Rightarrow> Receipt j)"

definition fetch :: "(json \<Rightarrow> string) \<Rightarrow> (ambient \<Rightarrow> database \<Rightarrow> reply) \<Rightarrow> json client" where
  "fetch D answer = chain (lift_reply (send_get D answer) accepted) or_raise"

definition authoritative_receipt :: "(json \<Rightarrow> string) \<Rightarrow> string \<Rightarrow> string \<Rightarrow> json client" where
  "authoritative_receipt D run_id key = fetch D (http_receipt run_id key)"

section \<open>Aliases\<close>

text \<open>
  The trace names assets as the reference simulator numbers them; an asset the sandbox returns under
  \<^verbatim>\<open>x_id\<close> for the first time becomes the next alias \<^verbatim>\<open>x-n\<close>.
\<close>

record aliases =
  al_names :: "string \<rightharpoonup> string"
  al_counts :: "string \<rightharpoonup> nat"
  al_known :: "(string \<times> string) set"

definition no_aliases :: aliases where
  "no_aliases = \<lparr>al_names = Map.empty, al_counts = Map.empty, al_known = {}\<rparr>"

definition id_prefix :: "string \<Rightarrow> string option" where
  "id_prefix name = (if 3 \<le> length name \<and> drop (length name - 3) name = ''_id'' then Some (take (length name - 3) name) else None)"

definition resolve :: "aliases \<Rightarrow> string \<Rightarrow> string" where
  "resolve t s = (case al_names t s of None \<Rightarrow> s | Some v \<Rightarrow> v)"

definition note_id :: "aliases \<Rightarrow> string \<times> json \<Rightarrow> aliases" where
  "note_id t item = (case (id_prefix (fst item), snd item) of
       (Some prefix, JStr v) \<Rightarrow>
         if (prefix, v) \<in> al_known t then t
         else let n = (case al_counts t prefix of None \<Rightarrow> 0 | Some k \<Rightarrow> k) + 1 in
           \<lparr>al_names = (al_names t)(prefix @ ''-'' @ string_of_nat n \<mapsto> v),
            al_counts = (al_counts t)(prefix \<mapsto> n), al_known = insert (prefix, v) (al_known t)\<rparr>
     | _ \<Rightarrow> t)"

definition note_result :: "aliases \<Rightarrow> json \<Rightarrow> aliases" where
  "note_result t receipt = (case jget ''result'' receipt of JObj items \<Rightarrow> foldl note_id t items | _ \<Rightarrow> t)"

section \<open>The replay\<close>

definition replay_key :: "nat \<Rightarrow> sim_action \<Rightarrow> string" where
  "replay_key index a = (case sa_key a of
       None \<Rightarrow> ''replay-'' @ string_of_nat index
     | Some k \<Rightarrow> if k = [] then ''replay-'' @ string_of_nat index else k)"

definition replay_command :: "aliases \<Rightarrow> nat \<Rightarrow> sim_action \<Rightarrow> command" where
  "replay_command t index a = \<lparr>cmd_action = sa_action a, cmd_actor = sa_actor a,
     cmd_target = (case sa_target a of None \<Rightarrow> None | Some i \<Rightarrow> if i = [] then Some i else Some (resolve t i)),
     cmd_arguments = map (\<lambda>(name, v). (name, case v of
         JStr s \<Rightarrow> if id_prefix name \<noteq> None then JStr (resolve t s) else v
       | _ \<Rightarrow> v)) (py_dict (sa_arguments a)),
     cmd_key = Some (replay_key index a)\<rparr>"

definition replay_write :: "(json \<Rightarrow> string) \<Rightarrow> string \<Rightarrow> command \<Rightarrow> string \<Rightarrow> json client" where
  "replay_write D run_id cmd key =
     chain (lift_reply (send_post D run_id cmd) write_answer_of) (\<lambda>answer. case answer of
       Receipt j \<Rightarrow> give j
     | Unanswered \<Rightarrow> authoritative_receipt D run_id key
     | Failed \<Rightarrow> raise_exn)"

fun replay_actions ::
  "(json \<Rightarrow> string) \<Rightarrow> string \<Rightarrow> aliases \<Rightarrow> nat \<Rightarrow> sim_action list \<Rightarrow> json list \<Rightarrow> json list \<Rightarrow> (json list \<times> json list) client" where
  "replay_actions D run_id t index [] snaps receipts = give (snaps, receipts)"
| "replay_actions D run_id t index (a # as) snaps receipts =
     chain (replay_write D run_id (replay_command t index a) (replay_key index a)) (\<lambda>receipt.
     chain (fetch D (http_snapshot D run_id)) (\<lambda>snap.
     replay_actions D run_id (note_result t receipt) (index + 1) as (snaps @ [snap]) (receipts @ [receipt])))"

record replay_result =
  rp_classification :: classification
  rp_invariant :: invariant_id
  rp_run :: string
  rp_actions :: "sim_action list"
  rp_report :: "oracle_finding list"
  rp_snapshots :: "json list"
  rp_receipts :: "json list"
  rp_events :: "json list"

definition item :: "string \<Rightarrow> json \<Rightarrow> json option" where
  "item k j = (case j of JObj m \<Rightarrow> map_of m k | _ \<Rightarrow> None)"

definition event_list :: "json \<Rightarrow> json list option" where
  "event_list body = (case jget ''events'' body of
       JList es \<Rightarrow> if list_all is_obj es then Some es else None
     | _ \<Rightarrow> None)"

definition judge_replay ::
  "rule_spec \<Rightarrow> sim_action list \<Rightarrow> invariant_id \<Rightarrow> string \<Rightarrow> json list \<Rightarrow> json list \<Rightarrow> json list \<Rightarrow> replay_result option" where
  "judge_replay spec acts target run_id snaps receipts events = (case evaluate spec snaps receipts events of
       None \<Rightarrow> None
     | Some report \<Rightarrow> (case finding report target of
           None \<Rightarrow> None
         | Some f \<Rightarrow> Some \<lparr>rp_classification = classify_replay (fd_status f), rp_invariant = target, rp_run = run_id,
             rp_actions = acts, rp_report = report, rp_snapshots = snaps, rp_receipts = receipts, rp_events = events\<rparr>))"

definition replay ::
  "(json \<Rightarrow> string) \<Rightarrow> (scenario_type \<Rightarrow> sandbox_version \<Rightarrow> string option) \<Rightarrow> rule_spec \<Rightarrow> sim_action list \<Rightarrow> invariant_id
   \<Rightarrow> sandbox_version \<Rightarrow> defect_axis list option \<Rightarrow> replay_result client" where
  "replay D known spec acts target v axes =
     chain (chain (lift_reply (send_create D known (spec_scenario spec) v axes) accepted) or_raise) (\<lambda>created.
     chain (or_raise (item ''run_id'' created)) (\<lambda>i.
     let run_id = py_str i in
     chain (if is_obj (jget ''snapshot'' created) then give (jget ''snapshot'' created) else raise_exn) (\<lambda>first.
     chain (replay_actions D run_id no_aliases 0 acts [first] []) (\<lambda>(snaps, receipts).
     chain (fetch D (http_events run_id)) (\<lambda>body.
     chain (or_raise (event_list body)) (\<lambda>events.
     or_raise (judge_replay spec acts target run_id snaps receipts events)))))))"

fun replay_repeated ::
  "(json \<Rightarrow> string) \<Rightarrow> (scenario_type \<Rightarrow> sandbox_version \<Rightarrow> string option) \<Rightarrow> rule_spec \<Rightarrow> sim_action list \<Rightarrow> invariant_id
   \<Rightarrow> sandbox_version \<Rightarrow> defect_axis list option \<Rightarrow> nat \<Rightarrow> replay_result list client" where
  "replay_repeated D known spec acts target v axes 0 = give []"
| "replay_repeated D known spec acts target v axes (Suc n) =
     chain (replay D known spec acts target v axes) (\<lambda>r.
     chain (replay_repeated D known spec acts target v axes n) (\<lambda>rs. give (r # rs)))"

text \<open>\<^verbatim>\<open>repetitions < 1\<close> is refused.\<close>

definition replay_repetitions ::
  "(json \<Rightarrow> string) \<Rightarrow> (scenario_type \<Rightarrow> sandbox_version \<Rightarrow> string option) \<Rightarrow> rule_spec \<Rightarrow> sim_action list \<Rightarrow> invariant_id
   \<Rightarrow> sandbox_version \<Rightarrow> defect_axis list option \<Rightarrow> int \<Rightarrow> replay_result list client" where
  "replay_repetitions D known spec acts target v axes n =
     (if n < 1 then raise_exn else replay_repeated D known spec acts target v axes (nat n))"

end
