(* ===== verification/Oracle_Facts.thy ===== *)
theory Oracle_Facts
  imports Minimization Replay
begin

text \<open>
  The facts behind the oracle's verdicts: the checks that judge one table of the last snapshot row by
  row, the rows a snapshot was taken of, which checks can fail to report, and the run every exchange
  of a replay leaves behind.
\<close>

section \<open>Judging collections\<close>

lemma judge_all_total:
  assumes "\<And>x. x \<in> set xs \<Longrightarrow> f x = Judged (if P x then [g x] else [])"
  shows "judge_all f xs = Judged (map g (filter P xs))"
  using assms by (induction xs) auto

lemma judge_all_map: "judge_all f (map h xs) = judge_all (f \<circ> h) xs"
  by (induction xs) (auto split: judgement.split)

lemma judge_all_alike:
  assumes "\<And>x. f x = h x \<or> (\<exists>b. f x = Judged b \<and> h x = Judged (map k b))" and "\<And>x b. f x = Judged b \<Longrightarrow> h x = Judged (map k b)"
  shows "judge_all h xs = (case judge_all f xs of Judged b \<Rightarrow> Judged (map k b) | stop \<Rightarrow> stop)"
proof (induction xs)
  case (Cons x xs)
  then show ?case
    using assms(1) [of x] assms(2) [of x] by (cases "f x"; cases "judge_all f xs") auto
qed simp

lemma payment_verdicts:
  "map_option (\<lambda>f. (fd_status f, fd_offenders f)) (refund_limit_check spec snaps receipts events)
    = map_option (\<lambda>f. (fd_status f, map (\<lambda>i. JStr (py_str i)) (fd_offenders f))) (net_paid spec snaps receipts events)"
proof -
  have "judge_all judge_refund_limit orders = (case judge_all judge_net_paid orders of
      Judged b \<Rightarrow> Judged (map (\<lambda>i. JStr (py_str i)) b) | stop \<Rightarrow> stop)" for orders
    by (rule judge_all_alike) (auto simp: judge_refund_limit_def judge_net_paid_def split: option.splits)
  then show ?thesis
    by (auto simp: refund_limit_check_def net_paid_def insufficient_def not_applicable_def conclude_def finding_of_def
        simp del: judge_all.simps split: option.splits list.splits judgement.splits)
qed

lemma payment_statuses:
  "map_option fd_status (refund_limit_check spec snaps receipts events) = map_option fd_status (net_paid spec snaps receipts events)"
  using arg_cong [OF payment_verdicts [of spec snaps receipts events], of "map_option fst"]
  by (simp add: option.map_comp comp_def)

section \<open>The rows behind a snapshot\<close>

lemma last_orders: "last_items (snaps @ [snapshot D amb run]) ''orders'' = Some (map order_json (sort_key od_id (rs_orders run)))"
  by (auto simp: last_items_def state_of_def items_of_def snapshot_fields state_json_def list_all_iff order_json_def)

lemma last_coupons: "last_items (snaps @ [snapshot D amb run]) ''coupons'' = Some (map coupon_json (sort_key cp_id (rs_coupons run)))"
  by (auto simp: last_items_def state_of_def items_of_def snapshot_fields state_json_def list_all_iff coupon_json_def)

lemma last_entitlements:
  "last_items (snaps @ [snapshot D amb run]) ''entitlements'' = Some (map entitlement_json (sort_key en_id (rs_entitlements run)))"
  by (auto simp: last_items_def state_of_def items_of_def snapshot_fields state_json_def list_all_iff entitlement_json_def)

lemma oracle_decimal_amount: "is_cents x \<Longrightarrow> oracle_decimal (JStr (amount_text x)) = Some x"
  by (simp add: oracle_decimal_def parse_amount_text)

lemma judge_refund_limit_order:
  "order_ok run d \<Longrightarrow> judge_refund_limit (order_json d)
     = Judged (if od_paid d < od_refunded d then [JStr (od_id d)] else [])"
  by (simp add: judge_refund_limit_def order_json_fields oracle_decimal_amount order_ok_def)

lemma judge_coupon_row:
  "judge_coupon events (coupon_json c)
     = Judged (if 1 < cp_usage c \<or> 1 < count_used events (cp_id c) then [JStr (cp_id c)] else [])"
  by (simp add: judge_coupon_def coupon_json_def oracle_integer_def Let_def)

lemma judge_available_row:
  "judge_available (entitlement_json e) = Judged (if available_quantity e < 0 then [JStr (en_id e)] else [])"
  by (simp add: judge_available_def quantities_def entitlement_json_def oracle_integer_def available_quantity_def)

text \<open>The verdict that goes with a table and the rows of it that offend.\<close>

definition verdict_on :: "'a list \<Rightarrow> ('a \<Rightarrow> bool) \<Rightarrow> ('a \<Rightarrow> string) \<Rightarrow> oracle_status \<times> json list" where
  "verdict_on rows bad key =
     (if rows = [] then (NOT_APPLICABLE, [])
      else (if filter bad rows = [] then SATISFIED else VIOLATED, map (\<lambda>r. JStr (key r)) (filter bad (sort_key key rows))))"

definition verdict :: "oracle_finding option \<Rightarrow> (oracle_status \<times> json list) option" where
  "verdict = map_option (\<lambda>f. (fd_status f, fd_offenders f))"

lemma sort_key_filter_empty: "filter P (sort_key k xs) = [] \<longleftrightarrow> filter P xs = []"
  by (simp add: filter_empty_conv)

lemma sort_key_empty: "sort_key k xs = [] \<longleftrightarrow> xs = []"
  by (metis length_0_conv length_sort)

text \<open>The checks that judge one table of the last snapshot row by row have a common shape.\<close>

lemma row_check_verdict:
  assumes "\<And>r. r \<in> set rows \<Longrightarrow> judge (row_json r) = Judged (if bad r then [JStr (key r)] else [])"
    and "found = Some (map row_json (sort_key key rows))"
  shows "verdict (case found of None \<Rightarrow> insufficient iid snaps | Some [] \<Rightarrow> not_applicable iid snaps
     | Some (x # xs) \<Rightarrow> conclude iid snaps events actions (judge_all judge (x # xs))) = Some (verdict_on rows bad key)"
proof -
  have "judge_all judge (map row_json (sort_key key rows)) = judge_all (judge \<circ> row_json) (sort_key key rows)"
    by (simp add: judge_all_map)
  also have "\<dots> = Judged (map (\<lambda>r. JStr (key r)) (filter bad (sort_key key rows)))"
    using assms(1) by (intro judge_all_total) simp
  finally have j: "judge_all judge (map row_json (sort_key key rows))
    = Judged (map (\<lambda>r. JStr (key r)) (filter bad (sort_key key rows)))" .
  show ?thesis
  proof (cases "map row_json (sort_key key rows)")
    case Nil
    then have "rows = []" by (simp add: sort_key_empty)
    then show ?thesis by (simp add: assms(2) not_applicable_def verdict_on_def verdict_def finding_of_def)
  next
    case (Cons x xs)
    then have "rows \<noteq> []" by auto
    then show ?thesis
      using j sort_key_filter_empty [of bad key rows]
      by (simp add: assms(2) Cons conclude_def verdict_on_def verdict_def finding_of_def)
  qed
qed

lemma refund_limit_verdict:
  assumes "wf_rows run"
  shows "verdict (refund_limit_check spec (snaps @ [snapshot D amb run]) receipts events)
    = Some (verdict_on (rs_orders run) (\<lambda>d. od_paid d < od_refunded d) od_id)"
  unfolding refund_limit_check_def
  by (rule row_check_verdict [where row_json = order_json])
    (simp_all add: last_orders judge_refund_limit_order [OF wf_rowsD(3) [OF assms]])

lemma entitlement_verdict:
  "verdict (entitlement_non_negative spec (snaps @ [snapshot D amb run]) receipts events)
    = Some (verdict_on (rs_entitlements run) (\<lambda>e. available_quantity e < 0) en_id)"
  unfolding entitlement_non_negative_def
  by (rule row_check_verdict [where row_json = entitlement_json]) (simp_all add: last_entitlements judge_available_row)

lemma coupon_verdict:
  "verdict (coupon_consumption spec (snaps @ [snapshot D amb run]) receipts events)
    = Some (verdict_on (rs_coupons run) (\<lambda>c. 1 < cp_usage c \<or> 1 < count_used events (cp_id c)) cp_id)"
  unfolding coupon_consumption_def
  by (rule row_check_verdict [where row_json = coupon_json]) (simp_all add: last_coupons judge_coupon_row)

section \<open>Replays\<close>

text \<open>The addressed run as every exchange of a replay leaves it: well-formed, with its scenario and profile.\<close>

definition serving :: "string \<Rightarrow> scenario_type \<Rightarrow> defect_axis set \<Rightarrow> database \<Rightarrow> bool" where
  "serving i sc prof db \<longleftrightarrow> (\<exists>run. db i = Some run \<and> run_ok run \<and> rs_scenario run = sc \<and> run_profile run = prof)"

lemma execute_serving: "serving i sc prof db \<Longrightarrow> serving i sc prof (snd (execute D amb j cmd db))"
proof -
  assume s: "serving i sc prof db"
  then obtain run where run: "db i = Some run" "run_ok run" "rs_scenario run = sc" "run_profile run = prof"
    by (auto simp: serving_def)
  show ?thesis
  proof (cases "j = i")
    case True
    have "later run (serve D run (Act amb cmd))" using run(2) by (rule serve_later)
    then show ?thesis
      using run serve_ok [OF run(2)] execute_serves [where db = db, OF run(1)] True
      by (auto simp: serving_def later_def run_profile_def)
  next
    case False
    then have "snd (execute D amb j cmd db) i = db i" by (auto simp: execute_def split: option.splits)
    then show ?thesis using s by (simp add: serving_def)
  qed
qed

lemma execute_action_serving: "serving i sc prof db \<Longrightarrow> serving i sc prof (snd (execute_action D amb j cmd db))"
  using execute_serving [of i sc prof db D amb j cmd]
  by (auto simp: execute_action_def split: prod.splits outcome.splits)

lemma arrivals_serving: "serving i sc prof (w_db w) \<Longrightarrow> serving i sc prof (arrivals D w)"
proof -
  have "serving i sc prof (foldl (\<lambda>db (j, cmd). snd (execute_action D amb j cmd db)) db xs)" if "serving i sc prof db" for amb db xs
    using that by (induction xs arbitrary: db) (auto intro: execute_action_serving)
  then show "serving i sc prof (w_db w) \<Longrightarrow> serving i sc prof (arrivals D w)" by (simp add: arrivals_def)
qed

lemma next_world_serving: "serving i sc prof (w_db w) \<Longrightarrow> serving i sc prof (w_db (next_world D w))"
  by (simp add: next_world_def arrivals_serving)

lemma send_get_serving: "\<lbrakk>send_get D answer w = (r, w'); serving i sc prof (w_db w)\<rbrakk> \<Longrightarrow> serving i sc prof (w_db w')"
  using next_world_serving [of i sc prof w D] by (auto simp: send_get_def Let_def split: delivery.splits)

lemma send_post_serving: "\<lbrakk>send_post D j cmd w = (r, w'); serving i sc prof (w_db w)\<rbrakk> \<Longrightarrow> serving i sc prof (w_db w')"
  using next_world_serving [of i sc prof w D]
    execute_action_serving [of i sc prof "w_db (next_world D w)" D "cn_amb (current w)" j cmd]
  by (auto simp: send_post_def Let_def split: delivery.splits prod.splits)

lemma fetch_serving: "\<lbrakk>fetch D answer w = (x, w'); serving i sc prof (w_db w)\<rbrakk> \<Longrightarrow> serving i sc prof (w_db w')"
  by (auto simp: fetch_def lift_reply_simp or_raise_def split: option.splits elim!: chain_cases dest: send_get_serving)

lemma replay_write_serving:
  "\<lbrakk>replay_write D j cmd k w = (x, w'); serving i sc prof (w_db w)\<rbrakk> \<Longrightarrow> serving i sc prof (w_db w')"
  using send_post_serving [of D j cmd w _ _ i sc prof] fetch_serving [of D _ _ _ _ i sc prof]
  by (auto simp: replay_write_def authoritative_receipt_def lift_reply_simp split: write_answer.splits elim!: chain_cases; blast)

text \<open>A snapshot that was taken of such a run.\<close>

definition taken :: "(json \<Rightarrow> string) \<Rightarrow> scenario_type \<Rightarrow> defect_axis set \<Rightarrow> json \<Rightarrow> bool" where
  "taken D sc prof snap \<longleftrightarrow> (\<exists>amb run. snap = snapshot D amb run \<and> run_ok run \<and> rs_scenario run = sc \<and> run_profile run = prof)"

lemma failure_not_accepted: "accepted (failure_reply e) = None" "accepted (domain_http_error code) = None"
  by (cases e) (auto simp: domain_http_error_def domain_status_def)

lemma accepted_eq: "Some x = accepted r \<longleftrightarrow> accepted r = Some x"
  by auto

lemma glitch_not_accepted: "accepted (glitch_reply g) = None"
  by (cases g) simp_all

lemma fetched_snapshot:
  assumes "fetch D (http_snapshot D i) w = (Some snap, w')" "serving i sc prof (w_db w)"
  shows "taken D sc prof snap \<and> serving i sc prof (w_db w')"
proof -
  obtain r where r: "send_get D (http_snapshot D i) w = (r, w')" "accepted r = Some snap"
    using assms(1) by (auto simp: fetch_def chain_Some lift_reply_simp or_raise_def split: option.splits)
  obtain run where run: "w_db (next_world D w) i = Some run" "run_ok run" "rs_scenario run = sc" "run_profile run = prof"
    using next_world_serving [OF assms(2), of D] by (auto simp: serving_def)
  have "r = http_snapshot D i (cn_amb (current w)) (w_db (next_world D w))"
    using r by (auto simp: send_get_def Let_def glitch_not_accepted split: delivery.splits)
  then have "snap = snapshot D (cn_amb (current w)) run"
    using r(2) run(1) by (simp add: http_snapshot_def get_snapshot_def fetch_run_def snapshot_fields)
  then show ?thesis using run send_get_serving [OF r(1) assms(2)] by (auto simp: taken_def)
qed

lemma replay_actions_taken:
  "\<lbrakk>replay_actions D i t n acts snaps receipts w = (Some (snaps', receipts'), w'); serving i sc prof (w_db w);
    snaps \<noteq> []; taken D sc prof (last snaps)\<rbrakk> \<Longrightarrow> snaps' \<noteq> [] \<and> taken D sc prof (last snaps')"
proof (induction D i t n acts snaps receipts arbitrary: w rule: replay_actions.induct)
  case (2 D i t n a as snaps receipts)
  from "2.prems"(1) obtain receipt w1 snap w2 where
    w1: "replay_write D i (replay_command t n a) (replay_key n a) w = (Some receipt, w1)"
    and w2: "fetch D (http_snapshot D i) w1 = (Some snap, w2)"
    and rest: "replay_actions D i (note_result t receipt) (n + 1) as (snaps @ [snap]) (receipts @ [receipt]) w2
      = (Some (snaps', receipts'), w')"
    by (auto simp: chain_Some)
  have "taken D sc prof snap \<and> serving i sc prof (w_db w2)"
    using fetched_snapshot [OF w2] replay_write_serving [OF w1 "2.prems"(2)] by simp
  then show ?case using "2.IH" [OF rest] by simp
qed simp

lemma created_serving:
  assumes "send_create D known sc v axes w = (r, w')" "accepted r = Some body" "item ''run_id'' body = Some i"
  shows "serving (py_str i) sc (profile_for_run v axes) (w_db w')
    \<and> taken D sc (profile_for_run v axes) (jget ''snapshot'' body)"
proof -
  let ?amb = "cn_amb (current w)"
  let ?run = "empty_run (amb_run ?amb) sc v axes"
  obtain db' where c: "http_create D known sc v axes ?amb (w_db (next_world D w)) = (r, db')" "w_db w' = db'"
    using assms by (auto simp: send_create_def Let_def glitch_not_accepted split: delivery.splits prod.splits)
  then obtain label where "body = JObj [(''run_id'', JStr (rs_id ?run)), (''scenario_type'', JStr (scenario_name (rs_scenario ?run))),
             (''scenario_version'', JStr label), (''snapshot'', snapshot D ?amb ?run)]"
    and "w_db w' = (w_db (next_world D w))(amb_run ?amb \<mapsto> ?run)"
    using assms(2) by (auto simp: http_create_def create_run_def Let_def failure_not_accepted split: if_splits option.splits)
  moreover have "run_ok ?run" "rs_scenario ?run = sc" "run_profile ?run = profile_for_run v axes" "rs_id ?run = amb_run ?amb"
    by (simp_all add: empty_run_ok run_profile_def) (simp_all add: empty_run_def)
  ultimately show ?thesis using assms(3) by (auto simp: serving_def taken_def item_def)
qed

lemma replay_evidence:
  assumes "replay D known spec acts target v axes w = (Some r, w')"
  obtains snaps snap receipts events where
    "judge_replay spec acts target (rp_run r) (snaps @ [snap]) receipts events = Some r"
    "taken D (spec_scenario spec) (profile_for_run v axes) snap"
proof -
  let ?sc = "spec_scenario spec" and ?prof = "profile_for_run v axes"
  obtain reply created i w1 snaps receipts w2 body w3 events where
    c: "send_create D known ?sc v axes w = (reply, w1)" "accepted reply = Some created" "item ''run_id'' created = Some i"
    and a: "replay_actions D (py_str i) no_aliases 0 acts [jget ''snapshot'' created] [] w1
      = (Some (snaps, receipts), w2)"
    and j: "judge_replay spec acts target (py_str i) snaps receipts events = Some r"
    using assms by (auto simp: replay_def chain_Some lift_reply_simp or_raise_def Let_def accepted_eq split: option.splits if_splits)
  have "snaps \<noteq> [] \<and> taken D ?sc ?prof (last snaps)"
    using replay_actions_taken [OF a, of ?sc ?prof] created_serving [OF c] by simp
  moreover have "rp_run r = py_str i"
    using j by (auto simp: judge_replay_def split: option.splits)
  ultimately show thesis using that [of "butlast snaps" "last snaps"] j by simp
qed

lemma check_names:
  "net_paid spec snaps receipts events = Some f \<Longrightarrow> fd_invariant f = NET_PAID_NON_NEGATIVE"
  "refund_limit_check spec snaps receipts events = Some f \<Longrightarrow> fd_invariant f = REFUND_NOT_EXCEED_PAID"
  "coupon_consumption spec snaps receipts events = Some f \<Longrightarrow> fd_invariant f = COUPON_SINGLE_CONSUMPTION"
  "points_conservation spec snaps receipts events = Some f \<Longrightarrow> fd_invariant f = POINTS_VALUE_CONSERVATION"
  "terminal_monotonicity spec snaps receipts events = Some f \<Longrightarrow> fd_invariant f = ORDER_TERMINAL_MONOTONICITY"
  "entitlement_non_negative spec snaps receipts events = Some f \<Longrightarrow> fd_invariant f = ENTITLEMENT_NON_NEGATIVE"
  by (auto simp: net_paid_def refund_limit_check_def coupon_consumption_def points_conservation_def terminal_monotonicity_def
      entitlement_non_negative_def insufficient_def not_applicable_def conclude_def finding_of_def Let_def
      split: option.splits list.splits judgement.splits if_splits sim_exn.splits sum.splits)

lemma evaluate_finding:
  assumes "evaluate spec snaps receipts events = Some report"
  shows "finding report NET_PAID_NON_NEGATIVE = net_paid spec snaps receipts events"
    "finding report REFUND_NOT_EXCEED_PAID = refund_limit_check spec snaps receipts events"
    "finding report ENTITLEMENT_NON_NEGATIVE = entitlement_non_negative spec snaps receipts events"
  using assms by (auto simp: evaluate_def finding_def dest!: check_names split: option.splits)

lemma verdict_violated:
  assumes "verdict x = Some (verdict_on rows bad key)" "x = Some f" "fd_status f = VIOLATED"
  shows "\<exists>r \<in> set rows. bad r"
  using assms by (auto simp: verdict_def verdict_on_def filter_empty_conv split: if_splits)

lemma judge_replay_SomeD:
  "judge_replay spec acts target i snaps receipts events = Some r \<Longrightarrow>
     \<exists>report f. evaluate spec snaps receipts events = Some report \<and> finding report target = Some f
       \<and> rp_classification r = classify_replay (fd_status f)"
  by (auto simp: judge_replay_def split: option.splits)

lemma replay_verdict:
  assumes "replay D known spec acts target v axes w = (Some r, w')" "rp_classification r = CONFIRMED_VIOLATION"
  obtains run where "run_ok run" "rs_scenario run = spec_scenario spec" "run_profile run = profile_for_run v axes"
    "target \<in> {NET_PAID_NON_NEGATIVE, REFUND_NOT_EXCEED_PAID} \<longrightarrow> (\<exists>d \<in> set (rs_orders run). od_paid d < od_refunded d)"
    "target = ENTITLEMENT_NON_NEGATIVE \<longrightarrow> (\<exists>e \<in> set (rs_entitlements run). available_quantity e < 0)"
proof -
  obtain snaps snap receipts events where
    j: "judge_replay spec acts target (rp_run r) (snaps @ [snap]) receipts events = Some r"
    and "taken D (spec_scenario spec) (profile_for_run v axes) snap"
    using assms(1) by (rule replay_evidence)
  then obtain amb run where run: "snap = snapshot D amb run" "run_ok run" "rs_scenario run = spec_scenario spec"
    "run_profile run = profile_for_run v axes" by (auto simp: taken_def)
  let ?ev = "snaps @ [snapshot D amb run]"
  obtain report f where f: "evaluate spec ?ev receipts events = Some report" "finding report target = Some f"
    and "rp_classification r = classify_replay (fd_status f)"
    using judge_replay_SomeD [OF j] run(1) by auto
  then have bad: "fd_status f = VIOLATED" using assms(2) by (auto simp: classify_replay_def split: if_splits)
  have rows: "wf_rows run" using run(2) wf_books_facts(2) by (simp add: run_ok_def)
  have paid: "verdict (refund_limit_check spec ?ev receipts events)
      = Some (verdict_on (rs_orders run) (\<lambda>d. od_paid d < od_refunded d) od_id)"
    using rows by (rule refund_limit_verdict)
  have "\<exists>g. refund_limit_check spec ?ev receipts events = Some g \<and> fd_status g = VIOLATED"
    if "target \<in> {NET_PAID_NON_NEGATIVE, REFUND_NOT_EXCEED_PAID}"
    using that f(2) bad payment_statuses [of spec ?ev receipts events] unfolding evaluate_finding [OF f(1)]
    by (auto simp: evaluate_finding [OF f(1)] map_option_eq_Some)
  then have "target \<in> {NET_PAID_NON_NEGATIVE, REFUND_NOT_EXCEED_PAID} \<Longrightarrow> \<exists>d \<in> set (rs_orders run). od_paid d < od_refunded d"
    using verdict_violated [OF paid] by blast
  moreover have "\<exists>e \<in> set (rs_entitlements run). available_quantity e < 0" if "target = ENTITLEMENT_NON_NEGATIVE"
    using verdict_violated [OF entitlement_verdict] evaluate_finding(3) [OF f(1)] f(2) bad that by simp
  ultimately show thesis using run that by blast
qed

lemma confirmed_replay_defect:
  assumes "replay D known spec acts target v axes w = (Some r, w')" "rp_classification r = CONFIRMED_VIOLATION"
  shows "(target \<in> {NET_PAID_NON_NEGATIVE, REFUND_NOT_EXCEED_PAID}
        \<longrightarrow> spec_scenario spec = PROMOTION \<and> REFUND_AGAINST_ORIGINAL \<in> profile_for_run v axes)
    \<and> (target = ENTITLEMENT_NON_NEGATIVE \<longrightarrow> ENTITLEMENT_OVERCONSUMPTION \<in> profile_for_run v axes)"
proof -
  obtain run where run: "run_ok run" "rs_scenario run = spec_scenario spec" "run_profile run = profile_for_run v axes"
    and found: "target \<in> {NET_PAID_NON_NEGATIVE, REFUND_NOT_EXCEED_PAID} \<longrightarrow> (\<exists>d \<in> set (rs_orders run). od_paid d < od_refunded d)"
      "target = ENTITLEMENT_NON_NEGATIVE \<longrightarrow> (\<exists>e \<in> set (rs_entitlements run). available_quantity e < 0)"
    using assms by (rule replay_verdict)
  have "wf_rows run" using run(1) wf_books_facts(2) by (simp add: run_ok_def)
  then have "order_ok run d" if "d \<in> set (rs_orders run)" for d using that by (simp add: wf_rowsD)
  moreover have "entitlement_ok run e" if "e \<in> set (rs_entitlements run)" for e
    using \<open>wf_rows run\<close> that by (simp add: wf_rowsD)
  ultimately show ?thesis
    using found run(2,3) by (fastforce simp: order_ok_def entitlement_ok_def overrefunds_def)
qed

section \<open>Reports\<close>

lemma judge_all_no_raise: "(\<And>x. x \<in> set xs \<Longrightarrow> f x \<noteq> Raises) \<Longrightarrow> judge_all f xs \<noteq> Raises"
  by (induction xs) (auto split: judgement.split)

lemma conclude_Some: "j \<noteq> Raises \<Longrightarrow> conclude iid snaps events actions j \<noteq> None"
  by (cases j) (simp_all add: conclude_def insufficient_def)

lemma net_paid_Some: "net_paid spec snaps receipts events \<noteq> None"
proof -
  have "judge_all judge_net_paid orders \<noteq> Raises" for orders
    by (rule judge_all_no_raise) (simp add: judge_net_paid_def split: option.splits)
  from conclude_Some [OF this] show ?thesis
    by (auto simp: net_paid_def insufficient_def not_applicable_def simp del: judge_all.simps split: option.splits list.splits)
qed

lemma terminal_monotonicity_Some: "terminal_monotonicity spec snaps receipts events \<noteq> None"
  by (auto simp: terminal_monotonicity_def insufficient_def not_applicable_def conclude_def Let_def split: option.splits)

lemma idempotency_Some:
  assumes "\<forall>r \<in> set receipts. hashable (jget ''status'' r)"
  shows "idempotency spec snaps receipts events \<noteq> None"
proof -
  have "judge_all (judge_group (filter (\<lambda>r. py_truthy (jget ''idempotency_key'' r)) receipts) events) gs \<noteq> Raises" for gs
    by (rule judge_all_no_raise) (use assms in \<open>auto simp: judge_group_def Let_def\<close>)
  from conclude_Some [OF this] show ?thesis by (auto simp: idempotency_def insufficient_def Let_def)
qed

lemma entitlement_refund_Some: "entitlement_refund spec (snaps @ [snapshot D amb run]) receipts events \<noteq> None"
proof -
  have last: "last_items (snaps @ [snapshot D amb run]) ''memberships''
      = Some (map membership_json (sort_key mb_id (rs_memberships run)))"
    by (auto simp: last_items_def state_of_def items_of_def snapshot_fields state_json_def list_all_iff membership_json_def)
  have "hashable (jget ''status'' (membership_json m))" for m by (simp add: membership_json_def hashable_def)
  then have "judge_all (judge_membership rule es events) (map membership_json ms) \<noteq> Raises" for rule es ms
    by (intro judge_all_no_raise) (auto simp: judge_membership_def hashable_def Let_def split: option.splits)
  from conclude_Some [OF this] show ?thesis
    by (auto simp: entitlement_refund_def last insufficient_def not_applicable_def split: option.splits)
qed

lemma points_entries_no_raise:
  "\<forall>e \<in> set events. points_event e \<noteq> Inl Uncaught \<Longrightarrow> points_entries events \<noteq> Inl Uncaught"
proof (induction events)
  case (Cons e es)
  then show ?case by (cases "points_event e"; cases "points_entries es") auto
qed simp

lemma judge_points_no_raise:
  "\<lbrakk>m_amount (spend_amount rule) \<noteq> 0; \<forall>d \<in> set ds. order_ok run d\<rbrakk>
    \<Longrightarrow> judge_points rule events entries consulted (map order_json ds) \<noteq> Raises"
proof (induction ds arbitrary: consulted)
  case (Cons d ds)
  have "jget_default ''points_granted'' (JInt 0) (order_json d) = JInt (od_points d)" by (simp add: order_json_def)
  moreover have "judge_points rule events entries c (map order_json ds) \<noteq> Raises" for c using Cons by simp
  moreover have "is_cents (od_paid d)" "is_cents (od_refunded d)" using Cons.prems by (simp_all add: order_ok_def)
  ultimately show ?case
    using Cons.prems(1) by (auto simp: order_json_fields oracle_decimal_amount Let_def split: judgement.splits)
qed simp

lemma points_conservation_Some:
  assumes "spec_valid spec" "wf_rows run" "\<forall>e \<in> set events. points_event e \<noteq> Inl Uncaught"
  shows "points_conservation spec (snaps @ [snapshot D amb run]) receipts events \<noteq> None"
proof (cases "first_some as_points (rules spec)")
  case None
  then show ?thesis by (simp add: points_conservation_def not_applicable_def)
next
  case (Some rule)
  have "PointsRule rule \<in> set (rules spec)"
    using first_some_Some [OF Some] by (auto elim: as_points.elims)
  then have nz: "m_amount (spend_amount rule) \<noteq> 0"
    using assms(1) by (auto simp: spec_valid_def list_all_iff)
  let ?ds = "sort_key od_id (rs_orders run)"
  let ?j = "\<lambda>entries users. case judge_points rule events entries (\<exists>(g, _, _) \<in> set entries. g) (map order_json ?ds) of
      Judged bad \<Rightarrow> (case judge_all judge_balance users of Judged worse \<Rightarrow> Judged (bad @ worse) | stop \<Rightarrow> stop) | stop \<Rightarrow> stop"
  have "judge_all judge_balance users \<noteq> Raises" for users
    by (rule judge_all_no_raise) (simp add: judge_balance_def split: option.splits)
  moreover have "judge_points rule events entries c (map order_json ?ds) \<noteq> Raises" for entries c
    using judge_points_no_raise [OF nz, of ?ds run] assms(2) by (simp add: wf_rows_def)
  ultimately have "?j entries users \<noteq> Raises" for entries users
    by (auto split: judgement.splits)
  from conclude_Some [OF this] show ?thesis
    using points_entries_no_raise [OF assms(3)]
    by (auto simp: points_conservation_def Some last_orders insufficient_def simp del: judge_all.simps
        split: option.splits sum.splits sim_exn.splits)
qed

lemma verdict_Some: "verdict x = Some v \<Longrightarrow> x \<noteq> None"
  by (auto simp: verdict_def)

lemma evaluate_total:
  assumes "spec_valid spec" "wf_rows run" "\<forall>r \<in> set receipts. hashable (jget ''status'' r)"
    and "\<forall>e \<in> set events. points_event e \<noteq> Inl Uncaught"
  shows "\<exists>report. evaluate spec (snaps @ [snapshot D amb run]) receipts events = Some report"
  using net_paid_Some [of spec "snaps @ [snapshot D amb run]" receipts events]
    verdict_Some [OF refund_limit_verdict [OF assms(2), of spec snaps D amb receipts events]]
    verdict_Some [OF coupon_verdict [of spec snaps D amb run receipts events]]
    points_conservation_Some [OF assms(1,2,4), of snaps D amb receipts]
    terminal_monotonicity_Some [of spec "snaps @ [snapshot D amb run]" receipts events]
    verdict_Some [OF entitlement_verdict [of spec snaps D amb run receipts events]]
    entitlement_refund_Some [of spec snaps D amb run receipts events] idempotency_Some [OF assms(3), of spec "snaps @ [snapshot D amb run]" events]
  by (auto simp: evaluate_def)

end
