(* ===== verification/Oracle_Demo.thy ===== *)
theory Oracle_Demo
  imports Oracle_Facts Agent_Demo
begin

text \<open>
  A replay that finds a planted defect, from the creation of the run to the verdict: a run injects
  overconsumption, and the trace consumes four of three units.
\<close>

section \<open>A replay on a working network\<close>

definition calm :: "run_space \<Rightarrow> nat \<Rightarrow> world" where
  "calm run n = demo_world (\<lambda>_. Deliver) (\<lambda>_. 0) run [] n"

lemma calm_works: "works (calm run n)" "current (calm run n) = network (\<lambda>_. Deliver) (\<lambda>_. 0) n"
  "w_db (calm run n) = [''run'' \<mapsto> run]" "w_tick (calm run n) = n"
  by (simp_all add: calm_def works_def demo_world_def network_def current_def)

lemma calm_updates: "(calm run n)\<lparr>w_tick := k\<rparr> = calm run k" "(calm run n)\<lparr>w_db := [''run'' \<mapsto> run']\<rparr> = calm run' n"
  "cn_amb (network dl arr n) = demo_amb"
  by (simp_all add: calm_def demo_world_def network_def)

lemma calm_snapshot: "fetch D (http_snapshot D ''run'') (calm run n) = (Some (snapshot D demo_amb run), calm run (Suc n))"
  by (simp add: fetch_def chain_def lift_reply_def or_raise_def give_def send_get_works calm_works calm_updates
      http_snapshot_def get_snapshot_def fetch_run_def snapshot_fields)

lemma calm_write:
  assumes "transact D demo_amb cmd run = Some (r, run')" "valid_command cmd" "\<not> loses_ack cmd run'" "\<not> key_missing cmd"
  shows "replay_write D ''run'' cmd k (calm run n) = (Some (receipt_json ''run'' r), calm run' (Suc n))"
proof -
  have "send_post D ''run'' cmd (calm run n) = (Reply 200 (receipt_json ''run'' r), calm run' (Suc n))"
    using assms calm_works(1) [of run n]
    by (simp add: send_post_def works_def next_world_quiet calm_works calm_updates execute_action_def execute_def)
  moreover have "is_obj (receipt_json ''run'' r)" by (simp add: receipt_json_def)
  ultimately show ?thesis
    by (simp add: replay_write_def chain_def lift_reply_def give_def unanswered_statuses_def)
qed

lemma calm_step:
  assumes "transact D demo_amb (replay_command t n a) run = Some (r, run')" "valid_command (replay_command t n a)"
    and "\<not> loses_ack (replay_command t n a) run'" "\<not> key_missing (replay_command t n a)"
  shows "replay_actions D ''run'' t n (a # as) snaps receipts (calm run k)
    = replay_actions D ''run'' (note_result t (receipt_json ''run'' r)) (n + 1) as (snaps @ [snapshot D demo_amb run'])
        (receipts @ [receipt_json ''run'' r]) (calm run' (k + 2))"
  by (simp add: chain_def calm_write [OF assms] calm_snapshot)

section \<open>The run\<close>

definition overdone :: "run_space \<Rightarrow> run_space" where
  "overdone run = run\<lparr>rs_axes := Some [ENTITLEMENT_OVERCONSUMPTION]\<rparr>"

definition over_spec :: rule_spec where
  "over_spec = \<lparr>spec_scenario = MEMBERSHIP_ENTITLEMENT, participants = [], assets = [],
     rules = [MembershipRule \<lparr>price = \<lparr>m_currency = CNY, m_amount = 30, m_scale = 2\<rparr>, entitlement_quantity = 3,
       rule_refund_policy = UNUSED_ONLY\<rparr>],
     spec_invariant_ids = [], ambiguities = []\<rparr>"

lemma over_spec_valid: "spec_valid over_spec"
  by (simp add: over_spec_def spec_valid_def require_rules_for_scenario_def money_valid_def)

definition over_trace :: "sim_action list" where
  "over_trace =
     [build_action CREATE_USER None (Some ''k1'') [(''initial_balance'', JInt 100)],
      build_action ACTIVATE_MEMBERSHIP None (Some ''k2'') [(''paid_amount'', JInt 30), (''quantity'', JInt 3)],
      build_action CONSUME_ENTITLEMENT (Some ''entitlement-1'') (Some ''k3'') [(''quantity'', JInt 4)]]"

definition over_command :: "action_type \<Rightarrow> string option \<Rightarrow> (string \<times> json) list \<Rightarrow> string \<Rightarrow> command" where
  "over_command act target args key = \<lparr>cmd_action = act, cmd_actor = ''user-1'', cmd_target = target,
     cmd_arguments = args, cmd_key = Some key\<rparr>"

definition over_first :: run_space where
  "over_first = overdone (demo_space MEMBERSHIP_ENTITLEMENT (take 1 demo_events) (take 1 demo_receipts)
     [demo_user 100 0 INACTIVE 0] [])"

definition over_second :: run_space where
  "over_second = overdone (membership_space 3 2 (demo_user 70 0 ACTIVE 1) (demo_membership MActive 0)
     (demo_entitlement 0 0 GRANTED 0))"

lemma over_transact_1:
  "transact D demo_amb (over_command CREATE_USER None [(''initial_balance'', JInt 100)] ''k1'')
     (overdone (empty_run ''run'' MEMBERSHIP_ENTITLEMENT FIXED None)) = Some (demo_receipts ! 0, over_first)"
  by (simp add: over_first_def overdone_def over_command_def eval_simps demo_events_def demo_receipts_def create_user_def)

lemma over_transact_2:
  "transact D demo_amb (over_command ACTIVATE_MEMBERSHIP None [(''paid_amount'', JInt 30), (''quantity'', JInt 3)] ''k2'')
     over_first = Some (membership_receipts ! 1, over_second)"
  by (simp add: over_first_def over_second_def overdone_def over_command_def eval_simps membership_simps activate_membership_def)

lemma over_transact_3:
  "\<exists>r run. transact D demo_amb (over_command CONSUME_ENTITLEMENT (Some ''entitlement-1'') [(''quantity'', JInt 4)] ''k3'')
     over_second = Some (r, run) \<and> rs_entitlements run = [demo_entitlement 4 0 CONSUMED 1]
     \<and> rs_id run = ''run'' \<and> (\<forall>e \<in> set (rs_events run). ev_type e \<notin> {POINTS_GRANTED, POINTS_REVOKED})"
  by (simp add: over_second_def overdone_def over_command_def eval_simps membership_simps consume_entitlement_def)


lemma over_commands:
  "replay_command t n (build_action CREATE_USER None (Some ''k1'') [(''initial_balance'', JInt 100)])
    = over_command CREATE_USER None [(''initial_balance'', JInt 100)] ''k1''"
  "replay_command t n (build_action ACTIVATE_MEMBERSHIP None (Some ''k2'') [(''paid_amount'', JInt 30), (''quantity'', JInt 3)])
    = over_command ACTIVATE_MEMBERSHIP None [(''paid_amount'', JInt 30), (''quantity'', JInt 3)] ''k2''"
  "al_names t ''entitlement-1'' = Some ''entitlement-1'' \<Longrightarrow>
    replay_command t n (build_action CONSUME_ENTITLEMENT (Some ''entitlement-1'') (Some ''k3'') [(''quantity'', JInt 4)])
    = over_command CONSUME_ENTITLEMENT (Some ''entitlement-1'') [(''quantity'', JInt 4)] ''k3''"
  by (simp_all add: replay_command_def replay_key_def build_action_def over_command_def resolve_def py_dict_def)

lemma over_aliases:
  "al_names (note_result (note_result no_aliases (receipt_json ''run'' (demo_receipts ! 0))) (receipt_json ''run'' (membership_receipts ! 1)))
    ''entitlement-1'' = Some ''entitlement-1''"
  by (simp add: note_result_def receipt_json_def demo_receipts_def membership_receipts_def demo_receipt_def note_id_def id_prefix_def
      no_aliases_def string_of_nat_less_10 digit_chars)

lemma over_commands_fine:
  "valid_command (over_command CREATE_USER None args ''k1'')" "valid_command (over_command ACTIVATE_MEMBERSHIP None args ''k2'')"
  "valid_command (over_command CONSUME_ENTITLEMENT (Some ''entitlement-1'') args ''k3'')"
  "act \<noteq> REFUND_ORDER \<Longrightarrow> \<not> loses_ack (over_command act target args key) run"
  "\<not> key_missing (over_command act target args (c # cs))"
  by (simp_all add: over_command_def valid_command_def loses_ack_def key_missing_def)

lemma over_created:
  "send_create D (\<lambda>_ _. Some ''1'') MEMBERSHIP_ENTITLEMENT FIXED (Some [ENTITLEMENT_OVERCONSUMPTION]) (calm run n)
    = (Reply 201 (JObj [(''run_id'', JStr ''run''), (''scenario_type'', JStr (scenario_name MEMBERSHIP_ENTITLEMENT)),
         (''scenario_version'', JStr ''1''),
         (''snapshot'', snapshot D demo_amb (overdone (empty_run ''run'' MEMBERSHIP_ENTITLEMENT FIXED None)))]),
       calm (overdone (empty_run ''run'' MEMBERSHIP_ENTITLEMENT FIXED None)) (Suc n))"
proof -
  have "axes_request_valid MEMBERSHIP_ENTITLEMENT (Some [ENTITLEMENT_OVERCONSUMPTION])"
    by (simp add: axes_request_valid_def unreachable_axes_def)
  moreover have "empty_run (amb_run demo_amb) MEMBERSHIP_ENTITLEMENT FIXED (Some [ENTITLEMENT_OVERCONSUMPTION])
      = overdone (empty_run ''run'' MEMBERSHIP_ENTITLEMENT FIXED None)"
    by (simp add: overdone_def empty_run_def demo_amb_def)
  moreover have "rs_id (overdone (empty_run ''run'' MEMBERSHIP_ENTITLEMENT FIXED None)) = ''run''"
    "rs_scenario (overdone (empty_run ''run'' MEMBERSHIP_ENTITLEMENT FIXED None)) = MEMBERSHIP_ENTITLEMENT" "amb_run demo_amb = ''run''"
    by (simp_all add: overdone_def empty_run_def demo_amb_def)
  ultimately show ?thesis
    using calm_works(1) [of run n]
    by (simp add: send_create_def works_def next_world_quiet calm_works calm_updates http_create_def create_run_def Let_def)
qed

lemma calm_events:
  "fetch D (http_events ''run'') (calm run n)
    = (Some (JObj [(''events'', JList (map (event_json (rs_id run)) (epoch_events run)))]), calm run (Suc n))"
  by (simp add: fetch_def chain_def lift_reply_def or_raise_def give_def send_get_works calm_works calm_updates
      http_events_def get_events_def fetch_run_def)

lemma epoch_events_objects: "event_list (JObj [(''events'', JList (map (event_json i) es))]) = Some (map (event_json i) es)"
  by (simp add: event_list_def list_all_iff event_json_def)

lemma no_points_event:
  assumes "ev_type e \<notin> {POINTS_GRANTED, POINTS_REVOKED}"
  shows "points_event (event_json i e) = Inr None"
  using assms by (cases "ev_type e") (simp_all add: points_event_def event_json_def hashable_def)

lemma over_replay:
  "\<exists>r w. replay D (\<lambda>_ _. Some ''1'') over_spec over_trace ENTITLEMENT_NON_NEGATIVE FIXED (Some [ENTITLEMENT_OVERCONSUMPTION])
      (calm over_first 0) = (Some r, w) \<and> rp_classification r = CONFIRMED_VIOLATION"
proof -
  let ?s0 = "overdone (empty_run ''run'' MEMBERSHIP_ENTITLEMENT FIXED None)"
  obtain r3 run where step3: "transact D demo_amb (over_command CONSUME_ENTITLEMENT (Some ''entitlement-1'') [(''quantity'', JInt 4)] ''k3'')
      over_second = Some (r3, run)"
    and run: "rs_entitlements run = [demo_entitlement 4 0 CONSUMED 1]" "rs_id run = ''run''"
      "\<forall>e \<in> set (rs_events run). ev_type e \<notin> {POINTS_GRANTED, POINTS_REVOKED}"
    using over_transact_3 by blast
  have "overdone (empty_run ''run'' MEMBERSHIP_ENTITLEMENT FIXED None)
      = empty_run ''run'' MEMBERSHIP_ENTITLEMENT FIXED (Some [ENTITLEMENT_OVERCONSUMPTION])"
    by (simp add: overdone_def empty_run_def)
  then have "run_ok ?s0" by (simp add: empty_run_ok)
  then have "run_ok run" using over_transact_1 over_transact_2 step3 transact_ok by blast
  then have rows: "wf_rows run" using wf_books_facts(2) by (simp add: run_ok_def)
  let ?rs = "[receipt_json ''run'' (demo_receipts ! 0), receipt_json ''run'' (membership_receipts ! 1), receipt_json ''run'' r3]"
  let ?snaps = "[snapshot D demo_amb ?s0, snapshot D demo_amb over_first, snapshot D demo_amb over_second]"
  have acts: "replay_actions D ''run'' no_aliases 0 over_trace [snapshot D demo_amb ?s0] [] (calm ?s0 1)
    = (Some (?snaps @ [snapshot D demo_amb run], ?rs), calm run 7)"
    unfolding over_trace_def
    by (simp add: calm_step over_commands over_aliases [unfolded One_nat_def] over_commands_fine over_transact_1 over_transact_2 step3 give_def
        eval_nat_numeral
        del: replay_actions.simps(2))
  let ?es = "map (event_json ''run'') (epoch_events run)"
  note over_spec_valid
  moreover have "\<forall>r \<in> set ?rs. hashable (jget ''status'' r)" by (simp add: receipt_json_def hashable_def)
  moreover have "\<forall>e \<in> set ?es. points_event e \<noteq> Inl Uncaught"
    using run(3) by (simp add: epoch_events_def no_points_event)
  ultimately obtain report where report: "evaluate over_spec (?snaps @ [snapshot D demo_amb run]) ?rs ?es = Some report"
    using evaluate_total [OF _ rows] by blast
  have "verdict (finding report ENTITLEMENT_NON_NEGATIVE) = Some (VIOLATED, [JStr ''entitlement-1''])"
    unfolding evaluate_finding(3) [OF report] entitlement_verdict
    by (simp add: run(1) verdict_on_def demo_entitlement_def available_quantity_def)
  then obtain f where "finding report ENTITLEMENT_NON_NEGATIVE = Some f" "fd_status f = VIOLATED"
    by (auto simp: verdict_def)
  then show ?thesis
    using acts report
    by (simp add: replay_def over_spec_def over_created chain_def lift_reply_def or_raise_def give_def snapshot_fields
        calm_events run(2) epoch_events_objects item_def judge_replay_def classify_replay_def Let_def)
qed

section \<open>Predicates on its trace\<close>

definition consumes :: "sim_action list \<Rightarrow> bool" where
  "consumes xs \<longleftrightarrow> CONSUME_ENTITLEMENT \<in> sa_action ` set xs"

text \<open>A predicate whose second trial fails for a reason of its own.\<close>

definition flaky :: predicate where
  "flaky k xs iid = Some (k \<noteq> 2 \<and> consumes xs)"

lemma consumes_over_trace: "consumes over_trace"
  by (simp add: consumes_def over_trace_def build_action_def)

lemma consumes_monotone: "deletion_monotone consumes"
  unfolding deletion_monotone_def consumes_def by (auto elim!: list_emb_set)

lemma flaky_minimized:
  "minimize_trace over_trace ENTITLEMENT_NON_NEGATIVE flaky
    = Inr \<lparr>mn_invariant = ENTITLEMENT_NON_NEGATIVE, mn_original = 3, mn_actions = [over_trace ! 2], mn_trials = 7, mn_one_minimal = True\<rparr>"
proof -
  obtain a b c where t: "over_trace = [a, b, c]" "sa_action a \<noteq> CONSUME_ENTITLEMENT" "sa_action b \<noteq> CONSUME_ENTITLEMENT"
    "sa_action c = CONSUME_ENTITLEMENT"
    by (simp add: over_trace_def build_action_def)
  have "Suc (Suc (Suc 0)) div Suc (Suc 0) = Suc 0" by code_simp
  then have "reduce_chunks flaky ENTITLEMENT_NON_NEGATIVE [a, b, c] 2 1 = Some (5, [c])"
    using t(2-4) by (simp add: reduce_chunks.simps chunk_size_def chunk_starts_def without_def flaky_def consumes_def upt_rec)
  moreover have "sweep flaky ENTITLEMENT_NON_NEGATIVE [c] 0 5 = Some (6, [c])"
    using t(2-4) by (simp add: sweep.simps without_def flaky_def consumes_def)
  ultimately show ?thesis
    unfolding t(1) using t(2-4) by (simp add: minimize_trace_def of_option_def result_simps flaky_def consumes_def without_def)
qed

end
