(* ===== verification/Oracle_Properties.thy ===== *)
theory Oracle_Properties
  imports Oracle_Demo
begin

text \<open>
  What the oracle's verdicts mean: the verdict on the last snapshot is the condition on the run's
  rows, the two payment checks agree, evidence of the sandbox is always judged, and a run without
  the matching defect is never reported by a replay, whatever the network does. Then what a
  minimized trace still is.
\<close>

section \<open>Verdicts\<close>

text \<open>C17: on the last snapshot of a sandbox run the oracle's verdict is the condition on the run's
  rows: orders refunded beyond what was paid, entitlements below zero, coupons used twice; the rows
  it names are exactly the offending ones. The snapshot never lacks evidence.\<close>

theorem oracle_reads_the_books:
  "let run = reached D i sc v axes reqs; evidence = snaps @ [snapshot D amb run] in
     verdict (refund_limit_check spec evidence receipts events)
       = Some (verdict_on (rs_orders run) (\<lambda>d. od_paid d < od_refunded d) od_id)
   \<and> verdict (entitlement_non_negative spec evidence receipts events)
       = Some (verdict_on (rs_entitlements run) (\<lambda>e. available_quantity e < 0) en_id)
   \<and> verdict (coupon_consumption spec evidence receipts events)
       = Some (verdict_on (rs_coupons run) (\<lambda>c. 1 < cp_usage c \<or> 1 < count_used events (cp_id c)) cp_id)"
proof -
  have "wf_rows (reached D i sc v axes reqs)" using reached_ok wf_books_facts(2) by (auto simp: run_ok_def)
  then show ?thesis by (simp add: Let_def refund_limit_verdict entitlement_verdict coupon_verdict)
qed

text \<open>The two payment checks always agree: they have the same status, and the orders one of them
  names are, as text, the orders the other names.\<close>

theorem payment_checks_agree:
  "map_option (\<lambda>f. (fd_status f, fd_offenders f)) (refund_limit_check spec snaps receipts events)
    = map_option (\<lambda>f. (fd_status f, map (\<lambda>i. JStr (py_str i)) (fd_offenders f))) (net_paid spec snaps receipts events)"
  by (rule payment_verdicts)

text \<open>On evidence of the sandbox the oracle always reports: for a valid specification no check
  divides by zero, meets a value it cannot hash or lets an exception of a conversion escape.\<close>

theorem oracle_always_reports:
  assumes "spec_valid spec" "\<forall>r \<in> set receipts. hashable (jget ''status'' r)"
    and "\<forall>e \<in> set events. points_event e \<noteq> Inl Uncaught"
  shows "\<exists>report. evaluate spec (snaps @ [snapshot D amb (reached D i sc v axes reqs)]) receipts events = Some report"
proof -
  have "wf_rows (reached D i sc v axes reqs)" using reached_ok wf_books_facts(2) by (auto simp: run_ok_def)
  with assms show ?thesis by (intro evaluate_total)
qed

theorem oracle_always_reports_witness:
  "\<exists>report. evaluate over_spec [snapshot demo_digest demo_amb membership_run]
     (map (receipt_json ''run'') (rs_receipts membership_run)) (map (event_json ''run'') (rs_events membership_run)) = Some report"
proof -
  have "\<forall>r \<in> set (map (receipt_json ''run'') (rs_receipts membership_run)). hashable (jget ''status'' r)"
    by (auto simp: receipt_json_def hashable_def)
  moreover have "\<forall>e \<in> set (map (event_json ''run'') (rs_events membership_run)). points_event e \<noteq> Inl Uncaught"
    by (simp add: membership_run_def membership_space_def membership_log_def demo_events_def demo_event_def demo_space_def no_points_event)
  ultimately show ?thesis
    using oracle_always_reports [OF over_spec_valid, of _ _ "[]" demo_digest demo_amb "''run''" MEMBERSHIP_ENTITLEMENT FIXED None
      membership_requests] by (simp add: membership_reached)
qed

section \<open>Replays\<close>

text \<open>C16: a replay reports a payment or entitlement violation only for a run that injects the defect it
  comes from, whatever trace is replayed and whatever the network loses, delays or reorders.\<close>

theorem replay_confirms_only_defects:
  assumes "replay D known spec acts target v axes w = (Some r, w')" "rp_classification r = CONFIRMED_VIOLATION"
  shows "(target \<in> {NET_PAID_NON_NEGATIVE, REFUND_NOT_EXCEED_PAID}
        \<longrightarrow> spec_scenario spec = PROMOTION \<and> REFUND_AGAINST_ORIGINAL \<in> profile_for_run v axes)
    \<and> (target = ENTITLEMENT_NON_NEGATIVE \<longrightarrow> ENTITLEMENT_OVERCONSUMPTION \<in> profile_for_run v axes)"
  using assms by (rule confirmed_replay_defect)

theorem replay_confirms_only_defects_witness:
  "\<exists>r w. replay demo_digest (\<lambda>_ _. Some ''1'') over_spec over_trace ENTITLEMENT_NON_NEGATIVE FIXED
      (Some [ENTITLEMENT_OVERCONSUMPTION]) (calm over_first 0) = (Some r, w)
    \<and> ENTITLEMENT_OVERCONSUMPTION \<in> profile_for_run FIXED (Some [ENTITLEMENT_OVERCONSUMPTION])"
  using over_replay [of demo_digest] replay_confirms_only_defects [of demo_digest "\<lambda>_ _. Some ''1''" over_spec over_trace
      ENTITLEMENT_NON_NEGATIVE FIXED "Some [ENTITLEMENT_OVERCONSUMPTION]" "calm over_first 0"]
  by blast

section \<open>Minimization\<close>

text \<open>Whatever the predicate answers from one fresh run to the next, a minimized trace is a
  subsequence of the original one, and one of the trials counted confirmed exactly this trace.\<close>

theorem minimize_keeps_confirmed:
  assumes "minimize_trace acts iid p = Inr r"
  shows "subseq (mn_actions r) acts \<and> (\<exists>k \<ge> 1. k \<le> mn_trials r \<and> p k (mn_actions r) iid = Some True)
    \<and> mn_original r = length acts \<and> mn_invariant r = iid"
proof -
  from assms obtain t1 cur1 t2 t3 one where r: "p 1 acts iid = Some True" "reduce_chunks p iid acts 2 1 = Some (t1, cur1)"
    "sweep p iid cur1 0 t1 = Some (t2, mn_actions r)" "check_minimal p iid (mn_actions r) [0..<length (mn_actions r)] t2 = Some (t3, one)"
    "mn_trials r = t3" "mn_original r = length acts" "mn_invariant r = iid"
    by (auto simp: minimize_trace_def result_simps split: option.splits bool.splits)
  have "confirmed p iid acts 1 acts" using r(1) by (auto simp: confirmed_def)
  with r(2) have "confirmed p iid acts t1 cur1" by (rule reduce_chunks_confirmed)
  with r(3) have "confirmed p iid acts t2 (mn_actions r)" by (rule sweep_confirmed)
  then have "confirmed p iid acts t3 (mn_actions r)" using check_minimal_trials [OF r(4)] by (rule confirmed_later)
  then show ?thesis using r(5-7) by (auto simp: confirmed_def)
qed

theorem minimize_keeps_confirmed_witness:
  "subseq [over_trace ! 2] over_trace \<and> (\<exists>k \<ge> 1. k \<le> 7 \<and> flaky k [over_trace ! 2] ENTITLEMENT_NON_NEGATIVE = Some True)"
  using minimize_keeps_confirmed [OF flaky_minimized] by simp

text \<open>C18: for a predicate that answers the same for every fresh run, minimization always ends with
  a violating trace; its flag says exactly whether no single action can be deleted; and for a
  deletion-monotone predicate the trace it returns always is one-minimal.\<close>

theorem minimize_flag_exact:
  assumes "q acts"
  shows "\<exists>r. minimize_trace acts iid (steady q) = Inr r \<and> q (mn_actions r)
    \<and> mn_one_minimal r = one_minimal q (mn_actions r) \<and> (deletion_monotone q \<longrightarrow> mn_one_minimal r)"
proof -
  obtain t1 c1 where c1: "reduce_chunks (steady q) iid acts 2 1 = Some (t1, c1)"
    using reduce_chunks_steady [of 2 q iid acts 1] by auto
  obtain t2 c2 where c2: "sweep (steady q) iid c1 0 t1 = Some (t2, c2)" using sweep_steady by blast
  obtain t3 where t3: "check_minimal (steady q) iid c2 [0..<length c2] t2 = Some (t3, one_minimal q c2)"
    using check_minimal_steady [of q iid c2 "[0..<length c2]" t2] by (auto simp: one_minimal_def atLeast0LessThan)
  have start: "confirmed (steady q) iid acts 1 acts" using assms by (auto simp: confirmed_def steady_def)
  have "q c2" using sweep_confirmed [OF c2 reduce_chunks_confirmed [OF c1 start]] by (auto simp: confirmed_def steady_def)
  then show ?thesis
    using assms c1 c2 t3 sweep_minimal [OF c2] by (simp add: minimize_trace_def result_simps steady_def)
qed

theorem minimize_flag_exact_witness:
  "\<exists>r. minimize_trace over_trace ENTITLEMENT_NON_NEGATIVE (steady consumes) = Inr r \<and> consumes (mn_actions r) \<and> mn_one_minimal r"
  using minimize_flag_exact [of consumes over_trace ENTITLEMENT_NON_NEGATIVE] consumes_over_trace consumes_monotone by blast

end
