(* ===== verification/Runtime_Store.thy ===== *)
theory Runtime_Store
  imports Oracle
begin

text \<open>
  The state machine of an attack run and its store
  (\<^verbatim>\<open>packages/attack_runtime/workflow.py\<close>: \<^verbatim>\<open>AttackStatus\<close>, the allowed transitions,
  \<^verbatim>\<open>InMemoryRuntimeStore\<close>, whose compare-and-set semantics the PostgreSQL store shares). Every
  operation takes the store and returns a result or the exception it raises; fresh identifiers and
  the clock come with the call. Costs and times are exact rationals. Values are copied in and out,
  so there is no aliasing to model.
\<close>

section \<open>Values\<close>

datatype attack_status =
    Draft | Needs_confirmation | Ready | Searching | Replaying | Recovering
  | Cancel_requested | Run_cancelled | Run_failed | Run_completed

datatype attack_outcome =
    Confirmed_violation | Unconfirmed_candidate | No_violation_within_budget | Ambiguous_policy
  | Unsupported_rule | Infra_failed | Outcome_cancelled

datatype strategy_type = VALUE_FLOW | LIFECYCLE | BOUNDARY

datatype strategy_status =
    Strategy_pending | Strategy_searching | Strategy_stopped | Strategy_failed | Strategy_completed

datatype terminal_reason =
    CANDIDATE_FOUND | BUDGET_TIME | BUDGET_STEPS | BUDGET_TOKENS_OR_COST | STOP_NO_CANDIDATE
  | ILLEGAL_RETRY_EXHAUSTED | NO_LEGAL_ACTION | UNPARSABLE_OUTPUT | Strategy_cancelled

fun status_text :: "attack_status \<Rightarrow> string" where
  "status_text Draft = ''DRAFT''"
| "status_text Needs_confirmation = ''NEEDS_CONFIRMATION''"
| "status_text Ready = ''READY''"
| "status_text Searching = ''SEARCHING''"
| "status_text Replaying = ''REPLAYING''"
| "status_text Recovering = ''RECOVERING''"
| "status_text Cancel_requested = ''CANCEL_REQUESTED''"
| "status_text Run_cancelled = ''CANCELLED''"
| "status_text Run_failed = ''FAILED''"
| "status_text Run_completed = ''COMPLETED''"

fun outcome_text :: "attack_outcome \<Rightarrow> string" where
  "outcome_text Confirmed_violation = ''CONFIRMED_VIOLATION''"
| "outcome_text Unconfirmed_candidate = ''UNCONFIRMED_CANDIDATE''"
| "outcome_text No_violation_within_budget = ''NO_VIOLATION_WITHIN_BUDGET''"
| "outcome_text Ambiguous_policy = ''AMBIGUOUS_POLICY''"
| "outcome_text Unsupported_rule = ''UNSUPPORTED_RULE''"
| "outcome_text Infra_failed = ''INFRA_FAILED''"
| "outcome_text Outcome_cancelled = ''CANCELLED''"

record budget =
  bg_steps :: int
  bg_tokens :: int
  bg_cost :: rat
  bg_time :: rat

definition budget_valid :: "budget \<Rightarrow> bool" where
  "budget_valid b \<longleftrightarrow> 0 < bg_steps b \<and> 0 \<le> bg_tokens b \<and> 0 \<le> bg_cost b \<and> 0 < bg_time b"

record budget_usage =
  ug_steps :: int
  ug_tokens :: int
  ug_cost :: rat
  ug_elapsed :: rat

definition no_usage :: budget_usage where
  "no_usage = \<lparr>ug_steps = 0, ug_tokens = 0, ug_cost = 0, ug_elapsed = 0\<rparr>"

definition usage_within :: "budget_usage \<Rightarrow> budget \<Rightarrow> bool" where
  "usage_within u b \<longleftrightarrow> ug_steps u \<le> bg_steps b \<and> ug_tokens u \<le> bg_tokens b \<and> ug_cost u \<le> bg_cost b
     \<and> ug_elapsed u \<le> bg_time b"

record attack_run =
  ar_id :: string
  ar_job :: string
  ar_rule_version :: string
  ar_scenario_version :: string
  ar_sandbox_version :: string
  ar_axes :: "string list"
  ar_oracle_version :: string
  ar_status :: attack_status
  ar_outcome :: "attack_outcome option"
  ar_budget :: budget
  ar_seed :: int
  ar_created :: rat

record strategy_run =
  sy_id :: string
  sy_run :: string
  sy_type :: strategy_type
  sy_status :: strategy_status
  sy_budget :: budget
  sy_usage :: budget_usage

record checkpoint =
  ck_strategy :: string
  ck_version :: nat
  ck_state :: json
  ck_created :: rat

record runtime_event =
  rv_cursor :: nat
  rv_run :: string
  rv_type :: string
  rv_data :: json
  rv_created :: rat

record counterexample =
  cx_id :: string
  cx_run :: string
  cx_key :: string
  cx_invariant :: string
  cx_original :: "json list"
  cx_minimized :: "json list"
  cx_replay_run :: string
  cx_created :: rat

section \<open>Transitions\<close>

fun allowed_transitions :: "attack_status \<Rightarrow> attack_status list" where
  "allowed_transitions Draft = [Needs_confirmation, Ready]"
| "allowed_transitions Needs_confirmation = [Ready]"
| "allowed_transitions Ready = [Searching, Cancel_requested, Run_failed]"
| "allowed_transitions Searching = [Replaying, Run_completed, Recovering, Cancel_requested, Run_failed]"
| "allowed_transitions Replaying = [Searching, Run_completed, Recovering, Cancel_requested, Run_failed]"
| "allowed_transitions Recovering = [Searching, Replaying, Cancel_requested, Run_failed]"
| "allowed_transitions Cancel_requested = [Run_cancelled]"
| "allowed_transitions Run_cancelled = []"
| "allowed_transitions Run_failed = [Recovering]"
| "allowed_transitions Run_completed = []"

definition transition_allowed :: "attack_status \<Rightarrow> attack_status \<Rightarrow> bool" where
  "transition_allowed s t \<longleftrightarrow> t \<in> set (allowed_transitions s)"

definition terminal_statuses :: "attack_status set" where
  "terminal_statuses = {Run_completed, Run_cancelled, Run_failed}"

section \<open>The store\<close>

record runtime_store =
  st_runs :: "string \<rightharpoonup> attack_run"
  st_jobs :: "string \<rightharpoonup> string"
  st_strategies :: "string \<rightharpoonup> strategy_run"
  st_keys :: "string \<times> strategy_type \<rightharpoonup> string"
  st_checkpoints :: "string \<rightharpoonup> checkpoint"
  st_events :: "string \<rightharpoonup> runtime_event list"
  st_counterexamples :: "counterexample list"

definition empty_store :: runtime_store where
  "empty_store = \<lparr>st_runs = Map.empty, st_jobs = Map.empty, st_strategies = Map.empty, st_keys = Map.empty,
     st_checkpoints = Map.empty, st_events = Map.empty, st_counterexamples = []\<rparr>"

datatype store_error = Key_missing | Illegal_transition | Outcome_required | Outcome_unexpected | Stale_checkpoint

record stamp =
  sp_uid :: string
  sp_now :: rat

definition events_of :: "runtime_store \<Rightarrow> string \<Rightarrow> runtime_event list" where
  "events_of st i = (case st_events st i of None \<Rightarrow> [] | Some es \<Rightarrow> es)"

definition append_event :: "string \<Rightarrow> string \<Rightarrow> json \<Rightarrow> rat \<Rightarrow> runtime_store \<Rightarrow> runtime_store" where
  "append_event i type data now st = st\<lparr>st_events := (st_events st)(i \<mapsto> events_of st i @
     [\<lparr>rv_cursor = length (events_of st i) + 1, rv_run = i, rv_type = type, rv_data = data, rv_created = now\<rparr>])\<rparr>"

definition store_create ::
  "string \<Rightarrow> string \<Rightarrow> string \<Rightarrow> string \<Rightarrow> string \<Rightarrow> budget \<Rightarrow> int \<Rightarrow> string list \<Rightarrow> stamp \<Rightarrow> runtime_store
   \<Rightarrow> (store_error + attack_run) \<times> runtime_store" where
  "store_create job rule scenario sandbox oracle b seed axes sp st = (case st_jobs st job of
       Some i \<Rightarrow> (of_option Key_missing (st_runs st i), st)
     | None \<Rightarrow>
         let i = sp_uid sp;
             run = \<lparr>ar_id = i, ar_job = job, ar_rule_version = rule, ar_scenario_version = scenario,
               ar_sandbox_version = sandbox, ar_axes = axes, ar_oracle_version = oracle, ar_status = Ready,
               ar_outcome = None, ar_budget = b, ar_seed = seed, ar_created = sp_now sp\<rparr>
         in (Inr run, append_event i ''RUN_CREATED'' (JObj [(''status'', JStr (status_text Ready))]) (sp_now sp)
              (st\<lparr>st_runs := (st_runs st)(i \<mapsto> run), st_jobs := (st_jobs st)(job \<mapsto> i),
                  st_events := (st_events st)(i \<mapsto> [])\<rparr>)))"

definition get_run :: "runtime_store \<Rightarrow> string \<Rightarrow> store_error + attack_run" where
  "get_run st i = of_option Key_missing (st_runs st i)"

definition status_change :: "attack_status \<Rightarrow> attack_status \<Rightarrow> attack_outcome option \<Rightarrow> json" where
  "status_change s t out = JObj [(''from'', JStr (status_text s)), (''to'', JStr (status_text t)),
     (''outcome'', (case out of None \<Rightarrow> JNull | Some x \<Rightarrow> JStr (outcome_text x)))]"

definition compare_and_set_status ::
  "string \<Rightarrow> attack_status \<Rightarrow> attack_status \<Rightarrow> attack_outcome option \<Rightarrow> rat \<Rightarrow> runtime_store
   \<Rightarrow> (store_error + bool) \<times> runtime_store" where
  "compare_and_set_status i expected target out now st =
     (if \<not> transition_allowed expected target then (Inl Illegal_transition, st)
      else if target \<in> terminal_statuses \<and> out = None then (Inl Outcome_required, st)
      else if target \<notin> terminal_statuses \<and> out \<noteq> None then (Inl Outcome_unexpected, st)
      else case st_runs st i of
        None \<Rightarrow> (Inl Key_missing, st)
      | Some run \<Rightarrow>
          if ar_status run \<noteq> expected then (Inr False, st)
          else (Inr True, append_event i ''STATUS_CHANGED'' (status_change expected target out) now
            (st\<lparr>st_runs := (st_runs st)(i \<mapsto> run\<lparr>ar_status := target, ar_outcome := out\<rparr>)\<rparr>)))"

definition request_cancel :: "string \<Rightarrow> rat \<Rightarrow> runtime_store \<Rightarrow> (store_error + bool) \<times> runtime_store" where
  "request_cancel i now st = (case st_runs st i of
       None \<Rightarrow> (Inl Key_missing, st)
     | Some run \<Rightarrow>
         if ar_status run \<notin> {Ready, Searching, Replaying} then (Inr False, st)
         else compare_and_set_status i (ar_status run) Cancel_requested None now st)"

definition is_cancel_requested :: "runtime_store \<Rightarrow> string \<Rightarrow> store_error + bool" where
  "is_cancel_requested st i = and_then (get_run st i) (\<lambda>run. Inr (ar_status run = Cancel_requested))"

text \<open>The key of a strategy is a fresh identifier, so the lookup of an existing one never misses.\<close>

definition ensure_strategy ::
  "string \<Rightarrow> strategy_type \<Rightarrow> budget \<Rightarrow> string \<Rightarrow> runtime_store \<Rightarrow> (store_error + strategy_run) \<times> runtime_store" where
  "ensure_strategy i type b uid st = (case st_keys st (i, type) of
       Some k \<Rightarrow> (of_option Key_missing (st_strategies st k), st)
     | None \<Rightarrow>
         let s = \<lparr>sy_id = uid, sy_run = i, sy_type = type, sy_status = Strategy_pending, sy_budget = b, sy_usage = no_usage\<rparr>
         in (Inr s, st\<lparr>st_strategies := (st_strategies st)(uid \<mapsto> s), st_keys := (st_keys st)((i, type) \<mapsto> uid)\<rparr>))"

definition update_strategy :: "strategy_run \<Rightarrow> runtime_store \<Rightarrow> (store_error + unit) \<times> runtime_store" where
  "update_strategy s st =
     (if st_strategies st (sy_id s) = None then (Inl Key_missing, st)
      else (Inr (), st\<lparr>st_strategies := (st_strategies st)(sy_id s \<mapsto> s)\<rparr>))"

definition save_checkpoint ::
  "string \<Rightarrow> json \<Rightarrow> nat \<Rightarrow> rat \<Rightarrow> runtime_store \<Rightarrow> (store_error + checkpoint) \<times> runtime_store" where
  "save_checkpoint k state expected now st =
     (let actual = (case st_checkpoints st k of None \<Rightarrow> 0 | Some c \<Rightarrow> ck_version c) in
      if actual \<noteq> expected then (Inl Stale_checkpoint, st)
      else let c = \<lparr>ck_strategy = k, ck_version = actual + 1, ck_state = state, ck_created = now\<rparr>
        in (Inr c, st\<lparr>st_checkpoints := (st_checkpoints st)(k \<mapsto> c)\<rparr>))"

definition load_checkpoint :: "runtime_store \<Rightarrow> string \<Rightarrow> checkpoint option" where
  "load_checkpoint st k = st_checkpoints st k"

definition events_after :: "runtime_store \<Rightarrow> string \<Rightarrow> nat \<Rightarrow> store_error + runtime_event list" where
  "events_after st i c = and_then (of_option Key_missing (st_events st i)) (\<lambda>es. Inr (filter (\<lambda>e. c < rv_cursor e) es))"

definition same_candidate :: "counterexample \<Rightarrow> counterexample \<Rightarrow> bool" where
  "same_candidate x y \<longleftrightarrow> cx_run x = cx_run y \<and> cx_key x = cx_key y"

definition save_counterexample :: "counterexample \<Rightarrow> runtime_store \<Rightarrow> counterexample \<times> runtime_store" where
  "save_counterexample x st = (case find (same_candidate x) (st_counterexamples st) of
       Some y \<Rightarrow> (y, st)
     | None \<Rightarrow> (x, st\<lparr>st_counterexamples := st_counterexamples st @ [x]\<rparr>))"

definition counterexamples :: "runtime_store \<Rightarrow> string \<Rightarrow> counterexample list" where
  "counterexamples st i = filter (\<lambda>x. cx_run x = i) (st_counterexamples st)"

end
