(* ===== verification/Runtime_Agents.thy ===== *)
theory Runtime_Agents
  imports Runtime_Store Sim_Ops
begin

text \<open>
  What the runtime lets a strategy agent see and do (\<^verbatim>\<open>packages/attack_runtime/agents.py\<close>): the
  context it builds, and the validation of a proposed action. The agent itself, a language model
  behind a parser, is a parameter of the worker. Keys are compared without case within the characters
  of the model's texts.
\<close>

section \<open>Proposals\<close>

record action_proposal =
  pr_action :: action_type
  pr_actor :: string
  pr_target :: "string option"
  pr_arguments :: "(string \<times> json) list"

datatype proposal = Action_proposal action_proposal | Stop_proposal "invariant_id option"

datatype rejection_kind =
    UNSPECIFIED | PARSE_INVALID | ACTION_NOT_LEGAL | PARAMS_OUT_OF_RANGE | DUPLICATE_ACTION
  | STEP_BUDGET_EXHAUSTED | FORBIDDEN_CONTEXT | STRATEGY_MISMATCH

section \<open>The context\<close>

definition forbidden_context_keys :: "string set" where
  "forbidden_context_keys = {''ground_truth'', ''sandbox_profile'', ''expected_answer'', ''database_url'',
     ''filesystem'', ''shell'', ''network'', ''other_strategy_history''}"

fun context_safe :: "json \<Rightarrow> bool" where
  "context_safe (JObj m) \<longleftrightarrow> (\<forall>(k, v) \<in> set m. lower_text k \<notin> forbidden_context_keys \<and> context_safe v)"
| "context_safe (JList xs) \<longleftrightarrow> (\<forall>x \<in> set xs. context_safe x)"
| "context_safe _ \<longleftrightarrow> True"

record agent_context =
  ac_strategy :: strategy_type
  ac_spec :: rule_spec
  ac_state :: json
  ac_legal :: "json list"
  ac_history :: "(string \<times> transition_status) list"
  ac_budget :: budget
  ac_confirmed :: "string list"
  ac_invariants :: "invariant_id set"

text \<open>The fields of a specification have fixed names, none of them forbidden; \<open>spec_json\<close> is its dump.\<close>

definition build_agent_context ::
  "(rule_spec \<Rightarrow> json) \<Rightarrow> strategy_type \<Rightarrow> rule_spec \<Rightarrow> json \<Rightarrow> sim_action list \<Rightarrow> (string \<times> transition_status) list
   \<Rightarrow> budget \<Rightarrow> string list \<Rightarrow> invariant_id set \<Rightarrow> rejection_kind + agent_context" where
  "build_agent_context spec_json strategy spec state legal past b confirmed invariants =
     (if \<not> context_safe state \<or> \<not> context_safe (spec_json spec) then Inl FORBIDDEN_CONTEXT
      else Inr \<lparr>ac_strategy = strategy, ac_spec = spec, ac_state = state, ac_legal = map http_payload legal,
        ac_history = drop (length past - 12) past, ac_budget = b, ac_confirmed = confirmed,
        ac_invariants = invariants\<rparr>)"

section \<open>Validation\<close>

text \<open>Equality of argument values: a boolean equals the integer it stands for.\<close>

fun same_value :: "json \<Rightarrow> json \<Rightarrow> bool" where
  "same_value (JBool b) (JInt i) \<longleftrightarrow> i = (if b then 1 else 0)"
| "same_value (JInt i) (JBool b) \<longleftrightarrow> i = (if b then 1 else 0)"
| "same_value v w \<longleftrightarrow> v = w"

type_synonym arguments = "(string \<times> json) list"

definition same_names :: "arguments \<Rightarrow> arguments \<Rightarrow> bool" where
  "same_names xs ys \<longleftrightarrow> fst ` set xs = fst ` set ys"

definition same_arguments :: "arguments \<Rightarrow> arguments \<Rightarrow> bool" where
  "same_arguments xs ys \<longleftrightarrow> same_names xs ys
     \<and> (\<forall>(k, v) \<in> set xs. case map_of ys k of None \<Rightarrow> False | Some w \<Rightarrow> same_value v w)"

definition flexible_names :: "action_type \<Rightarrow> string set" where
  "flexible_names act =
     (if act = CREATE_USER then {''initial_balance''}
      else if act \<in> {CREATE_ORDER, REFUND_ORDER, REDEEM_POINTS} then {''amount''}
      else if act = CONSUME_ENTITLEMENT then {''quantity''}
      else {})"

text \<open>
  \<^verbatim>\<open>Decimal(str(value)) > 0\<close>: a text that is no decimal is passed over, but the comparison of
  a NaN raises, which nothing here catches (a missing value).
\<close>

definition positive_decimal :: "json \<Rightarrow> bool option" where
  "positive_decimal v = (case parse_decimal (py_str v) of
       None \<Rightarrow> Some False
     | Some (DFin x) \<Rightarrow> Some (0 < x)
     | Some (DInf negative) \<Rightarrow> Some (\<not> negative)
     | Some _ \<Rightarrow> None)"

fun match_arguments :: "string set \<Rightarrow> arguments \<Rightarrow> arguments list \<Rightarrow> bool option" where
  "match_arguments flexible args [] = Some False"
| "match_arguments flexible args (t # ts) =
     (if \<not> same_names args t then match_arguments flexible args ts
      else if same_arguments args t then Some True
      else if fst ` set args \<noteq> flexible then match_arguments flexible args ts
      else case args of
        [] \<Rightarrow> match_arguments flexible args ts
      | (_, v) # _ \<Rightarrow> (case positive_decimal v of
            None \<Rightarrow> None
          | Some True \<Rightarrow> Some True
          | Some False \<Rightarrow> match_arguments flexible args ts))"

datatype proposal_verdict = Accepts sim_action | Declines rejection_kind | Escapes

definition proposed_action :: "action_proposal \<Rightarrow> sim_action" where
  "proposed_action p = \<lparr>sa_action = pr_action p, sa_actor = pr_actor p, sa_target = pr_target p,
     sa_arguments = sort_key fst (pr_arguments p), sa_key = None\<rparr>"

definition validate_action_proposal ::
  "action_proposal \<Rightarrow> sim_action list \<Rightarrow> (string \<times> transition_status) list \<Rightarrow> budget_usage \<Rightarrow> budget \<Rightarrow> proposal_verdict" where
  "validate_action_proposal p legal past usage b =
     (if bg_steps b \<le> ug_steps usage then Declines STEP_BUDGET_EXHAUSTED
      else let candidate = proposed_action p;
               matching = filter (\<lambda>a. sa_action a = sa_action candidate \<and> sa_target a = sa_target candidate) legal
        in if matching = [] then Declines ACTION_NOT_LEGAL
           else case match_arguments (flexible_names (sa_action candidate)) (py_dict (sa_arguments candidate))
               (map (\<lambda>a. py_dict (sa_arguments a)) matching) of
             None \<Rightarrow> Escapes
           | Some False \<Rightarrow> Declines PARAMS_OUT_OF_RANGE
           | Some True \<Rightarrow>
               if \<exists>(k, status) \<in> set past. k = canonical_key candidate \<and> status \<noteq> Applied then Declines DUPLICATE_ACTION
               else Accepts candidate)"

section \<open>What is accepted\<close>

lemma match_arguments_names: "match_arguments flexible args ts = Some True \<Longrightarrow> \<exists>t \<in> set ts. same_names args t"
  by (induction ts) (auto split: if_splits list.splits option.splits bool.splits)

lemma validate_accepts:
  assumes "validate_action_proposal p legal past usage b = Accepts a"
  shows "a = proposed_action p \<and> ug_steps usage < bg_steps b
    \<and> (\<exists>t \<in> set legal. sa_action t = sa_action a \<and> sa_target t = sa_target a
         \<and> same_names (py_dict (sa_arguments a)) (py_dict (sa_arguments t)))
    \<and> (\<forall>(k, status) \<in> set past. k = canonical_key a \<longrightarrow> status = Applied)"
  using assms
  by (auto simp: validate_action_proposal_def Let_def dest!: match_arguments_names
      split: if_splits option.splits bool.splits)

end
