(* ===== verification/Runtime_Machine.thy ===== *)
theory Runtime_Machine
  imports Runtime_Store
begin

text \<open>
  The store as a state machine: what every sequence of operations retains (the log of a run replays to
  its status along allowed transitions, an outcome goes with a terminal status, jobs and runs
  correspond) and what it only moves forward.
\<close>

section \<open>Operations as requests\<close>

datatype store_request =
    Create_run string string string string string budget int "string list" stamp
  | Set_status string attack_status attack_status "attack_outcome option" rat
  | Cancel_run string rat
  | Ensure_strategy string strategy_type budget string
  | Update_strategy strategy_run
  | Save_checkpoint string json nat rat
  | Append_event string string json rat
  | Save_counterexample counterexample

text \<open>
  A fresh identifier is none in use, and events of other parts of the runtime are not called status
  changes; a request that breaks one of the two is none.
\<close>

fun store_apply :: "runtime_store \<Rightarrow> store_request \<Rightarrow> runtime_store" where
  "store_apply st (Create_run job rule scenario sandbox oracle b seed axes sp) =
     (if st_runs st (sp_uid sp) \<noteq> None then st else snd (store_create job rule scenario sandbox oracle b seed axes sp st))"
| "store_apply st (Set_status i s t out now) = snd (compare_and_set_status i s t out now st)"
| "store_apply st (Cancel_run i now) = snd (request_cancel i now st)"
| "store_apply st (Ensure_strategy i type b uid) = snd (ensure_strategy i type b uid st)"
| "store_apply st (Update_strategy s) = snd (update_strategy s st)"
| "store_apply st (Save_checkpoint k state v now) = snd (save_checkpoint k state v now st)"
| "store_apply st (Append_event i type data now) =
     (if type = ''STATUS_CHANGED'' then st else append_event i type data now st)"
| "store_apply st (Save_counterexample x) = snd (save_counterexample x st)"

section \<open>The log\<close>

inductive walks :: "attack_status \<Rightarrow> json list \<Rightarrow> attack_status \<Rightarrow> bool" where
  stay: "walks s [] s"
| change: "\<lbrakk>transition_allowed s u; walks u ds t\<rbrakk> \<Longrightarrow> walks s (status_change s u out # ds) t"

lemma walks_append: "\<lbrakk>walks s ds t; transition_allowed t u\<rbrakk> \<Longrightarrow> walks s (ds @ [status_change t u out]) u"
  by (induction rule: walks.induct) (auto intro: walks.intros)

definition status_changes :: "runtime_event list \<Rightarrow> json list" where
  "status_changes es = map rv_data (filter (\<lambda>e. rv_type e = ''STATUS_CHANGED'') es)"

definition log_ok :: "runtime_event list \<Rightarrow> attack_status \<Rightarrow> bool" where
  "log_ok es s \<longleftrightarrow> map rv_cursor es = [1..<Suc (length es)] \<and> walks Ready (status_changes es) s"

definition run_entry_ok :: "runtime_store \<Rightarrow> string \<Rightarrow> attack_run \<Rightarrow> bool" where
  "run_entry_ok st i r \<longleftrightarrow> ar_id r = i \<and> st_jobs st (ar_job r) = Some i
     \<and> (ar_outcome r \<noteq> None \<longleftrightarrow> ar_status r \<in> terminal_statuses) \<and> log_ok (events_of st i) (ar_status r)"

definition store_ok :: "runtime_store \<Rightarrow> bool" where
  "store_ok st \<longleftrightarrow> (\<forall>i r. st_runs st i = Some r \<longrightarrow> run_entry_ok st i r)
     \<and> (\<forall>j i. st_jobs st j = Some i \<longrightarrow> (\<exists>r. st_runs st i = Some r \<and> ar_job r = j))
     \<and> distinct (map (\<lambda>x. (cx_run x, cx_key x)) (st_counterexamples st))"

text \<open>What no operation undoes.\<close>

definition run_later :: "attack_run \<Rightarrow> attack_run \<Rightarrow> bool" where
  "run_later r r' \<longleftrightarrow> r' = r\<lparr>ar_status := ar_status r', ar_outcome := ar_outcome r'\<rparr>
     \<and> (ar_status r \<in> {Run_completed, Run_cancelled} \<longrightarrow> r' = r)"

definition store_later :: "runtime_store \<Rightarrow> runtime_store \<Rightarrow> bool" where
  "store_later st st' \<longleftrightarrow>
     (\<forall>i r. st_runs st i = Some r \<longrightarrow> (\<exists>r'. st_runs st' i = Some r' \<and> run_later r r')
        \<and> (\<exists>es. events_of st' i = events_of st i @ es))
     \<and> (\<forall>j i. st_jobs st j = Some i \<longrightarrow> st_jobs st' j = Some i)
     \<and> (\<exists>xs. st_counterexamples st' = st_counterexamples st @ xs)
     \<and> (\<forall>k c. st_checkpoints st k = Some c \<longrightarrow> (\<exists>c'. st_checkpoints st' k = Some c' \<and> ck_version c \<le> ck_version c'))"

lemma run_later_refl: "run_later r r"
  by (simp add: run_later_def)

lemma run_later_trans: "run_later a b \<Longrightarrow> run_later b c \<Longrightarrow> run_later a c"
  by (cases a; cases b; cases c) (auto simp: run_later_def)

lemma store_later_refl: "store_later st st"
  by (simp add: store_later_def run_later_refl)

lemma store_later_trans:
  assumes "store_later a b" "store_later b c"
  shows "store_later a c"
proof -
  have "\<exists>r'. st_runs c i = Some r' \<and> run_later r r'" "\<exists>es. events_of c i = events_of a i @ es"
    if "st_runs a i = Some r" for i r
    using assms that unfolding store_later_def by (meson run_later_trans) (metis append.assoc assms store_later_def that)
  moreover have "\<exists>c'. st_checkpoints c k = Some c' \<and> ck_version x \<le> ck_version c'" if "st_checkpoints a k = Some x" for k x
    using assms that unfolding store_later_def by (meson order_trans)
  moreover have "\<exists>xs. st_counterexamples c = st_counterexamples a @ xs"
    using assms unfolding store_later_def by (metis append.assoc)
  ultimately show ?thesis using assms by (simp add: store_later_def)
qed

section \<open>Single operations\<close>

lemma events_of_append [simp]:
  "events_of (append_event i type data now st) j =
     (if j = i then events_of st i @ [\<lparr>rv_cursor = length (events_of st i) + 1, rv_run = i, rv_type = type, rv_data = data, rv_created = now\<rparr>]
      else events_of st j)"
  by (simp add: append_event_def events_of_def)

lemma events_of_update [simp]:
  "events_of (st\<lparr>st_runs := rs\<rparr>) i = events_of st i" "events_of (st\<lparr>st_jobs := js\<rparr>) i = events_of st i"
  "events_of (st\<lparr>st_counterexamples := xs\<rparr>) i = events_of st i"
  "events_of (st\<lparr>st_events := es\<rparr>) i = (case es i of None \<Rightarrow> [] | Some e \<Rightarrow> e)"
  by (simp_all add: events_of_def)

lemma append_event_frame [simp]:
  "st_runs (append_event i type data now st) = st_runs st" "st_jobs (append_event i type data now st) = st_jobs st"
  "st_strategies (append_event i type data now st) = st_strategies st" "st_keys (append_event i type data now st) = st_keys st"
  "st_checkpoints (append_event i type data now st) = st_checkpoints st"
  "st_counterexamples (append_event i type data now st) = st_counterexamples st"
  by (simp_all add: append_event_def)

lemma log_ok_append:
  assumes "log_ok es s" "rv_cursor e = length es + 1"
    and "rv_type e = ''STATUS_CHANGED'' \<and> transition_allowed s t \<and> (\<exists>out. rv_data e = status_change s t out)
      \<or> rv_type e \<noteq> ''STATUS_CHANGED'' \<and> t = s"
  shows "log_ok (es @ [e]) t"
  using assms by (auto simp: log_ok_def status_changes_def walks_append)

lemma append_event_ok:
  assumes "store_ok st" "type \<noteq> ''STATUS_CHANGED''"
  shows "store_ok (append_event i type data now st) \<and> store_later st (append_event i type data now st)"
  using assms by (auto simp: store_ok_def run_entry_ok_def store_later_def run_later_refl intro!: log_ok_append)

lemma store_create_ok:
  assumes "store_ok st" "st_runs st (sp_uid sp) = None"
  shows "store_ok (snd (store_create job rule scenario sandbox oracle b seed axes sp st))
    \<and> store_later st (snd (store_create job rule scenario sandbox oracle b seed axes sp st))"
proof (cases "st_jobs st job")
  case None
  have "ar_job r \<noteq> job" if "st_runs st i = Some r" for i r
    using assms(1) that None by (auto simp: store_ok_def run_entry_ok_def)
  moreover define run where "run = \<lparr>ar_id = sp_uid sp, ar_job = job, ar_rule_version = rule, ar_scenario_version = scenario,
      ar_sandbox_version = sandbox, ar_axes = axes, ar_oracle_version = oracle, ar_status = Ready,
      ar_outcome = None, ar_budget = b, ar_seed = seed, ar_created = sp_now sp\<rparr>"
  define base where "base = st\<lparr>st_runs := (st_runs st)(sp_uid sp \<mapsto> run), st_jobs := (st_jobs st)(job \<mapsto> sp_uid sp),
      st_events := (st_events st)(sp_uid sp \<mapsto> [])\<rparr>"
  have "run_entry_ok base (sp_uid sp) run"
    by (simp add: run_entry_ok_def base_def run_def terminal_statuses_def log_ok_def status_changes_def walks.stay)
  moreover have "run_entry_ok base i r" if "st_runs st i = Some r" for i r
    using that assms calculation(1) by (auto simp: store_ok_def run_entry_ok_def base_def events_of_def)
  moreover have "\<exists>r. st_runs base i = Some r \<and> ar_job r = j" if job: "st_jobs base j = Some i" for j i
  proof (cases "j = job")
    case False
    then obtain r where "st_runs st i = Some r" "ar_job r = j" using job assms(1) by (simp add: store_ok_def base_def) blast
    then show ?thesis using assms(2) by (auto simp: base_def)
  qed (use job in \<open>simp add: base_def run_def\<close>)
  ultimately have "store_ok base" using assms by (auto simp: store_ok_def base_def)
  moreover have "store_later st base"
    using assms None by (auto simp: store_later_def run_later_refl base_def events_of_def)
  moreover have "snd (store_create job rule scenario sandbox oracle b seed axes sp st)
      = append_event (sp_uid sp) ''RUN_CREATED'' (JObj [(''status'', JStr (status_text Ready))]) (sp_now sp) base"
    using None by (simp add: store_create_def Let_def base_def run_def)
  ultimately show ?thesis
    using append_event_ok [of base "''RUN_CREATED''"] by (auto intro: store_later_trans)
qed (use assms in \<open>simp add: store_create_def store_later_refl\<close>)

lemma compare_and_set_cases:
  assumes "compare_and_set_status i s t out now st = (x, st')"
  obtains (kept) "st' = st" "x \<noteq> Inr True"
  | (changed) run where "x = Inr True" "st_runs st i = Some run" "ar_status run = s" "transition_allowed s t"
      "out \<noteq> None \<longleftrightarrow> t \<in> terminal_statuses"
      "st' = append_event i ''STATUS_CHANGED'' (status_change s t out) now
         (st\<lparr>st_runs := (st_runs st)(i \<mapsto> run\<lparr>ar_status := t, ar_outcome := out\<rparr>)\<rparr>)"
  using assms by (auto simp: compare_and_set_status_def split: if_splits option.splits)

lemma no_way_back: "transition_allowed s t \<Longrightarrow> s \<notin> {Run_completed, Run_cancelled}"
  by (auto simp: transition_allowed_def)

lemma compare_and_set_ok:
  assumes "store_ok st"
  shows "store_ok (snd (compare_and_set_status i s t out now st)) \<and> store_later st (snd (compare_and_set_status i s t out now st))"
proof -
  obtain x st' where c: "compare_and_set_status i s t out now st = (x, st')" by force
  then show ?thesis
  proof (cases rule: compare_and_set_cases)
    case kept
    then show ?thesis using assms c by (simp add: store_later_refl)
  next
    case (changed run)
    have entry: "run_entry_ok st i run" using assms changed(2) by (simp add: store_ok_def)
    have log: "log_ok (events_of st' i) t"
      using entry changed by (auto simp: run_entry_ok_def intro!: log_ok_append [where s = s])
    have "run_entry_ok st' j r" if "st_runs st' j = Some r" for j r
    proof (cases "j = i")
      case True
      then show ?thesis using that entry changed log by (auto simp: run_entry_ok_def)
    next
      case False
      then show ?thesis using that assms changed by (auto simp: store_ok_def run_entry_ok_def)
    qed
    moreover have "\<exists>r. st_runs st' k = Some r \<and> ar_job r = j" if job: "st_jobs st' j = Some k" for j k
    proof -
      obtain r where "st_runs st k = Some r" "ar_job r = j" using job assms changed(6) by (simp add: store_ok_def) blast
      then show ?thesis using changed(2,6) by (cases "k = i") auto
    qed
    ultimately have "store_ok st'" using assms changed(6) by (simp add: store_ok_def)
    moreover have later: "run_later run (run\<lparr>ar_status := t, ar_outcome := out\<rparr>)"
      using no_way_back [OF changed(4)] changed(3) by (simp add: run_later_def)
    have "\<exists>r'. st_runs st' j = Some r' \<and> run_later r r'" if "st_runs st j = Some r" for j r
      using that later changed(2,6) by (cases "j = i") (auto simp: run_later_refl)
    then have "store_later st st'" using changed(6) by (simp add: store_later_def)
    ultimately show ?thesis using c by simp
  qed
qed

lemma request_cancel_ok:
  assumes "store_ok st"
  shows "store_ok (snd (request_cancel i now st)) \<and> store_later st (snd (request_cancel i now st))"
  using assms compare_and_set_ok [OF assms] by (simp add: request_cancel_def store_later_refl split: option.splits)

lemma other_tables_ok:
  assumes "store_ok st" "st_runs st' = st_runs st" "st_jobs st' = st_jobs st" "st_events st' = st_events st"
    "st_counterexamples st' = st_counterexamples st"
  shows "store_ok st'"
  using assms by (simp add: store_ok_def run_entry_ok_def events_of_def)

lemma other_tables_later:
  assumes "st_runs st' = st_runs st" "st_jobs st' = st_jobs st" "st_events st' = st_events st"
    "st_counterexamples st' = st_counterexamples st" "st_checkpoints st' = st_checkpoints st"
  shows "store_later st st'"
  using assms by (auto simp: store_later_def run_later_refl events_of_def)

lemma save_checkpoint_ok:
  assumes "store_ok st"
  shows "store_ok (snd (save_checkpoint k state v now st)) \<and> store_later st (snd (save_checkpoint k state v now st))"
proof -
  let ?st = "snd (save_checkpoint k state v now st)"
  have "st_runs ?st = st_runs st" "st_jobs ?st = st_jobs st" "st_events ?st = st_events st"
    "st_counterexamples ?st = st_counterexamples st"
    by (simp_all add: save_checkpoint_def Let_def)
  moreover have "\<exists>c'. st_checkpoints ?st j = Some c' \<and> ck_version c \<le> ck_version c'" if "st_checkpoints st j = Some c" for j c
    using that by (auto simp: save_checkpoint_def Let_def)
  ultimately show ?thesis
    using other_tables_ok [OF assms, of ?st] by (auto simp: store_later_def run_later_refl events_of_def)
qed

lemma save_counterexample_ok:
  assumes "store_ok st"
  shows "store_ok (snd (save_counterexample x st)) \<and> store_later st (snd (save_counterexample x st))"
proof (cases "find (same_candidate x) (st_counterexamples st)")
  case None
  let ?st = "snd (save_counterexample x st)"
  have st: "?st = st\<lparr>st_counterexamples := st_counterexamples st @ [x]\<rparr>" using None by (simp add: save_counterexample_def)
  have "run_entry_ok ?st = run_entry_ok st" by (intro ext) (simp add: st run_entry_ok_def)
  moreover have "(cx_run x, cx_key x) \<notin> (\<lambda>y. (cx_run y, cx_key y)) ` set (st_counterexamples st)"
    using None by (auto simp: find_None_iff same_candidate_def)
  ultimately have "store_ok ?st" using assms by (simp add: store_ok_def st)
  moreover have "store_later st ?st" by (simp add: store_later_def st run_later_refl)
  ultimately show ?thesis by simp
qed (use assms in \<open>simp add: save_counterexample_def store_later_refl\<close>)

lemma store_apply_ok: "store_ok st \<Longrightarrow> store_ok (store_apply st req) \<and> store_later st (store_apply st req)"
proof (cases req)
  case (Ensure_strategy i type b uid)
  assume ok: "store_ok st"
  have "st_runs (store_apply st req) = st_runs st" "st_jobs (store_apply st req) = st_jobs st"
    "st_events (store_apply st req) = st_events st" "st_counterexamples (store_apply st req) = st_counterexamples st"
    "st_checkpoints (store_apply st req) = st_checkpoints st"
    by (simp_all add: Ensure_strategy ensure_strategy_def Let_def split: option.splits)
  then show ?thesis using other_tables_ok [OF ok] other_tables_later by blast
next
  case (Update_strategy s)
  assume ok: "store_ok st"
  have "st_runs (store_apply st req) = st_runs st" "st_jobs (store_apply st req) = st_jobs st"
    "st_events (store_apply st req) = st_events st" "st_counterexamples (store_apply st req) = st_counterexamples st"
    "st_checkpoints (store_apply st req) = st_checkpoints st"
    by (simp_all add: Update_strategy update_strategy_def)
  then show ?thesis using other_tables_ok [OF ok] other_tables_later by blast
qed (simp_all add: store_create_ok compare_and_set_ok request_cancel_ok save_checkpoint_ok append_event_ok
    save_counterexample_ok store_later_refl)

interpretation attack_store: step_machine store_apply store_ok store_later
  by unfold_locales (auto simp: store_apply_ok store_later_refl intro: store_later_trans)

lemma empty_store_ok: "store_ok empty_store"
  by (simp add: store_ok_def empty_store_def)

definition stored :: "store_request list \<Rightarrow> runtime_store" where
  "stored reqs = foldl store_apply empty_store reqs"

lemma stored_ok: "store_ok (stored reqs)"
  unfolding stored_def by (rule attack_store.run_good [OF empty_store_ok])

lemma stored_later: "store_later (stored reqs) (stored (reqs @ rest))"
  using attack_store.run_below_append [OF empty_store_ok] by (simp add: stored_def)

end
