(* ===== verification/Worker_Base.thy ===== *)
theory Worker_Base
  imports Runtime_Agents Runtime_Machine Minimization Replay
begin

text \<open>
  What surrounds the attack worker (\<^verbatim>\<open>packages/attack_runtime/worker.py\<close>): the agents,
  the replay gateway, the clock, fresh identifiers, injected crashes and the rest of the runtime,
  which may use the store whenever the worker waits (for an agent, for the gateway, at the end of a
  step). With it, the monad the worker is written in: a store, a world the gateway acts on, and a
  tick that numbers what is asked of the surroundings.
\<close>

section \<open>Surroundings\<close>

datatype fault_point = BEFORE_CHECKPOINT | AFTER_CHECKPOINT | BEFORE_ORACLE_PERSIST | AFTER_ORACLE_PERSIST

datatype agent_answer = Proposes proposal | Rejected_proposal rejection_kind | Agent_raises

text \<open>The calls of the model since the last answer, and the last one ever: tokens in, tokens out, cost.\<close>

record agent_reply =
  gr_answer :: agent_answer
  gr_calls :: "(int \<times> int \<times> rat) list"
  gr_last :: "(int \<times> int \<times> rat) option"

record 'w surroundings =
  wr_propose :: "agent_context \<Rightarrow> rejection_kind option \<Rightarrow> nat \<Rightarrow> agent_reply"
  wr_replay :: "rule_spec \<Rightarrow> sim_action list \<Rightarrow> invariant_id \<Rightarrow> string \<Rightarrow> string list option \<Rightarrow> 'w \<Rightarrow> replay_result option \<times> 'w"
  wr_minimize :: "rule_spec \<Rightarrow> sim_action list \<Rightarrow> invariant_id \<Rightarrow> string \<Rightarrow> string list option \<Rightarrow> 'w \<Rightarrow> minimization_result option \<times> 'w"
  wr_others :: "nat \<Rightarrow> store_request list"
  wr_now :: "nat \<Rightarrow> rat"
  wr_uid :: "nat \<Rightarrow> string"
  wr_fault :: "fault_point \<Rightarrow> nat \<Rightarrow> bool"
  wr_hash :: "sim_state \<Rightarrow> string"
  wr_digest :: "string \<Rightarrow> string"
  wr_spec_json :: "rule_spec \<Rightarrow> json"
  wr_usage_json :: "budget_usage \<Rightarrow> json"
  wr_call_info :: "nat \<Rightarrow> json \<times> json"

record 'w worker =
  wk_store :: runtime_store
  wk_world :: 'w
  wk_tick :: nat

text \<open>An injected crash, and any other exception.\<close>

datatype stop = Injected | Escaped

type_synonym ('w, 'a) work = "'w worker \<Rightarrow> (stop + 'a) \<times> 'w worker"

definition pure :: "'a \<Rightarrow> ('w, 'a) work" where
  "pure x s = (Inr x, s)"

definition escape :: "('w, 'a) work" where
  "escape s = (Inl Escaped, s)"

definition andthen :: "('w, 'a) work \<Rightarrow> ('a \<Rightarrow> ('w, 'b) work) \<Rightarrow> ('w, 'b) work" where
  "andthen m f s = (case m s of (Inl x, s') \<Rightarrow> (Inl x, s') | (Inr y, s') \<Rightarrow> f y s')"

definition storing :: "(runtime_store \<Rightarrow> (store_error + 'a) \<times> runtime_store) \<Rightarrow> ('w, 'a) work" where
  "storing f s = (case f (wk_store s) of
       (Inl _, st) \<Rightarrow> (Inl Escaped, s\<lparr>wk_store := st\<rparr>)
     | (Inr x, st) \<Rightarrow> (Inr x, s\<lparr>wk_store := st\<rparr>))"

definition reading :: "(runtime_store \<Rightarrow> store_error + 'a) \<Rightarrow> ('w, 'a) work" where
  "reading f = storing (\<lambda>st. (f st, st))"

definition or_escape :: "'a option \<Rightarrow> ('w, 'a) work" where
  "or_escape x = (case x of None \<Rightarrow> escape | Some y \<Rightarrow> pure y)"

definition the_time :: "'w surroundings \<Rightarrow> ('w, rat) work" where
  "the_time e s = (Inr (wr_now e (wk_tick s)), s\<lparr>wk_tick := wk_tick s + 1\<rparr>)"

definition fresh_uid :: "'w surroundings \<Rightarrow> ('w, string) work" where
  "fresh_uid e s = (Inr (wr_uid e (wk_tick s)), s\<lparr>wk_tick := wk_tick s + 1\<rparr>)"

definition waits :: "'w surroundings \<Rightarrow> ('w, unit) work" where
  "waits e s = (Inr (), s\<lparr>wk_store := foldl store_apply (wk_store s) (wr_others e (wk_tick s)), wk_tick := wk_tick s + 1\<rparr>)"

definition faulty :: "'w surroundings \<Rightarrow> fault_point \<Rightarrow> ('w, unit) work" where
  "faulty e p s = (if wr_fault e p (wk_tick s) then (Inl Injected, s) else (Inr (), s\<lparr>wk_tick := wk_tick s + 1\<rparr>))"

definition asks :: "('w \<Rightarrow> 'a option \<times> 'w) \<Rightarrow> ('w, 'a) work" where
  "asks f s = (case f (wk_world s) of
       (None, w) \<Rightarrow> (Inl Escaped, s\<lparr>wk_world := w\<rparr>)
     | (Some x, w) \<Rightarrow> (Inr x, s\<lparr>wk_world := w\<rparr>))"

definition set_status ::
  "'w surroundings \<Rightarrow> string \<Rightarrow> attack_status \<Rightarrow> attack_status \<Rightarrow> attack_outcome option \<Rightarrow> ('w, bool) work" where
  "set_status e i s t out = andthen (the_time e) (\<lambda>now. storing (compare_and_set_status i s t out now))"

section \<open>Rules\<close>

text \<open>What a program returns, if it returns.\<close>

definition yields :: "('a \<Rightarrow> bool) \<Rightarrow> ('w, 'a) work \<Rightarrow> bool" where
  "yields Q m \<longleftrightarrow> (\<forall>s x s'. m s = (Inr x, s') \<longrightarrow> Q x)"

lemma yieldsD: "yields Q m \<Longrightarrow> m s = (Inr x, s') \<Longrightarrow> Q x"
  by (auto simp: yields_def)

lemma andthen_Inr:
  "andthen m f s = (Inr y, s') \<longleftrightarrow> (\<exists>x s1. m s = (Inr x, s1) \<and> f x s1 = (Inr y, s'))"
  by (auto simp: andthen_def split: prod.splits sum.splits)

lemma work_Inr [simp]:
  "pure x s = (Inr y, s') \<longleftrightarrow> y = x \<and> s' = s"
  "escape s = (Inr y, s') \<longleftrightarrow> False"
  "or_escape z s = (Inr y, s') \<longleftrightarrow> z = Some y \<and> s' = s"
  by (auto simp: pure_def escape_def or_escape_def split: option.splits)

lemma yields_andthen: "(\<And>x. yields Q (f x)) \<Longrightarrow> yields Q (andthen m f)"
  by (auto simp: yields_def andthen_Inr)

lemma yields_after: "yields R m \<Longrightarrow> (\<And>x. R x \<Longrightarrow> yields Q (f x)) \<Longrightarrow> yields Q (andthen m f)"
  unfolding yields_def andthen_Inr by blast

lemma yields_or_escape: "(\<And>y. z = Some y \<Longrightarrow> yields Q (f y)) \<Longrightarrow> yields Q (andthen (or_escape z) f)"
  by (auto simp: yields_def andthen_Inr)

lemma yields_pure: "Q x \<Longrightarrow> yields Q (pure x)"
  by (simp add: yields_def)

lemma yields_escape: "yields Q escape"
  by (simp add: yields_def)

lemma yields_if: "(b \<Longrightarrow> yields Q m) \<Longrightarrow> (\<not> b \<Longrightarrow> yields Q n) \<Longrightarrow> yields Q (if b then m else n)"
  by simp

lemmas yields_rules = yields_pure yields_escape yields_if yields_or_escape

text \<open>What a program keeps of the store, returned or not.\<close>

definition retains :: "(runtime_store \<Rightarrow> bool) \<Rightarrow> ('w, 'a) work \<Rightarrow> bool" where
  "retains I m \<longleftrightarrow> (\<forall>s. I (wk_store s) \<longrightarrow> I (wk_store (snd (m s))))"

lemma retainsD: "retains I m \<Longrightarrow> I (wk_store s) \<Longrightarrow> m s = (x, s') \<Longrightarrow> I (wk_store s')"
  by (auto simp: retains_def dest!: spec [of _ s])

lemma retains_andthen: "retains I m \<Longrightarrow> (\<And>x. retains I (f x)) \<Longrightarrow> retains I (andthen m f)"
  by (fastforce simp: retains_def andthen_def split: prod.splits sum.splits)

lemma retains_still:
  "retains I (pure x)" "retains I escape" "retains I (or_escape z)" "retains I (the_time e)" "retains I (fresh_uid e)"
  "retains I (faulty e p)" "retains I (asks g)" "retains I (reading h)"
  by (auto simp: retains_def pure_def escape_def or_escape_def the_time_def fresh_uid_def faulty_def asks_def
      reading_def storing_def split: option.splits prod.splits sum.splits)

lemma retains_storing: "(\<And>st. I st \<Longrightarrow> I (snd (f st))) \<Longrightarrow> retains I (storing f)"
  by (fastforce simp: retains_def storing_def split: prod.splits sum.splits)

lemma retains_if: "(b \<Longrightarrow> retains I m) \<Longrightarrow> (\<not> b \<Longrightarrow> retains I n) \<Longrightarrow> retains I (if b then m else n)"
  by simp

lemma retains_waits:
  assumes "\<And>st r k. I st \<Longrightarrow> r \<in> set (wr_others e k) \<Longrightarrow> I (store_apply st r)"
  shows "retains I (waits e)"
proof -
  have "I (foldl store_apply st rs)" if "I st" "set rs \<subseteq> set (wr_others e k)" for st rs k
    using that by (induction rs arbitrary: st) (auto intro: assms)
  then show ?thesis by (auto simp: retains_def waits_def)
qed

end
