(* ===== verification/Worker_Values.thy ===== *)
theory Worker_Values
  imports Worker_Base
begin

text \<open>
  The values of the attack worker (\<^verbatim>\<open>packages/attack_runtime/worker.py\<close>): the invariants of a
  scenario, actions to and from the JSON of a checkpoint, the split of the budget, candidate keys, and
  the snapshots of the rule model the oracle is shown.
\<close>

section \<open>Values\<close>

fun scenario_invariants :: "scenario_type \<Rightarrow> invariant_id set" where
  "scenario_invariants PROMOTION = {NET_PAID_NON_NEGATIVE, REFUND_NOT_EXCEED_PAID, COUPON_SINGLE_CONSUMPTION,
     ORDER_TERMINAL_MONOTONICITY, IDEMPOTENT_EFFECT}"
| "scenario_invariants REFUND_POINTS = {NET_PAID_NON_NEGATIVE, REFUND_NOT_EXCEED_PAID, POINTS_VALUE_CONSERVATION,
     ORDER_TERMINAL_MONOTONICITY, IDEMPOTENT_EFFECT}"
| "scenario_invariants MEMBERSHIP_ENTITLEMENT = {ENTITLEMENT_NON_NEGATIVE, ENTITLEMENT_REFUND_CONSISTENCY,
     IDEMPOTENT_EFFECT}"

fun invariant_name :: "invariant_id \<Rightarrow> string" where
  "invariant_name NET_PAID_NON_NEGATIVE = ''NET_PAID_NON_NEGATIVE''"
| "invariant_name REFUND_NOT_EXCEED_PAID = ''REFUND_NOT_EXCEED_PAID''"
| "invariant_name COUPON_SINGLE_CONSUMPTION = ''COUPON_SINGLE_CONSUMPTION''"
| "invariant_name POINTS_VALUE_CONSERVATION = ''POINTS_VALUE_CONSERVATION''"
| "invariant_name ORDER_TERMINAL_MONOTONICITY = ''ORDER_TERMINAL_MONOTONICITY''"
| "invariant_name ENTITLEMENT_NON_NEGATIVE = ''ENTITLEMENT_NON_NEGATIVE''"
| "invariant_name ENTITLEMENT_REFUND_CONSISTENCY = ''ENTITLEMENT_REFUND_CONSISTENCY''"
| "invariant_name IDEMPOTENT_EFFECT = ''IDEMPOTENT_EFFECT''"

definition invariant_named :: "string \<Rightarrow> invariant_id option" where
  "invariant_named s = find (\<lambda>i. invariant_name i = s)
     [NET_PAID_NON_NEGATIVE, REFUND_NOT_EXCEED_PAID, COUPON_SINGLE_CONSUMPTION, POINTS_VALUE_CONSERVATION,
      ORDER_TERMINAL_MONOTONICITY, ENTITLEMENT_NON_NEGATIVE, ENTITLEMENT_REFUND_CONSISTENCY, IDEMPOTENT_EFFECT]"

definition action_named :: "string \<Rightarrow> action_type option" where
  "action_named s = find (\<lambda>a. action_name a = s)
     [CREATE_USER, ISSUE_COUPON, CREATE_ORDER, APPLY_COUPON, PAY_ORDER, CANCEL_ORDER, REFUND_ORDER, REDEEM_POINTS,
      ACTIVATE_MEMBERSHIP, CONSUME_ENTITLEMENT, CANCEL_MEMBERSHIP, INSPECT_STATE]"

definition serialize_action :: "sim_action \<Rightarrow> json" where
  "serialize_action a = JObj [
     (''action_type'', JStr (action_name (sa_action a))),
     (''actor_id'', JStr (sa_actor a)),
     (''target_id'', opt_text (sa_target a)),
     (''arguments'', JObj (py_dict (sa_arguments a))),
     (''idempotency_key'', opt_text (sa_key a))]"

fun argument_value :: "json \<Rightarrow> bool" where
  "argument_value (JStr _) = True"
| "argument_value (JInt _) = True"
| "argument_value (JBool _) = True"
| "argument_value _ = False"

text \<open>Names that \<^verbatim>\<open>SimAction.build\<close> takes itself cannot be passed as arguments.\<close>

definition build_parameters :: "string set" where
  "build_parameters = {''cls'', ''action_type'', ''actor_id'', ''target_id'', ''idempotency_key''}"

definition optional_text :: "string \<Rightarrow> json \<Rightarrow> string option" where
  "optional_text k v = (if jget k v = JNull then None else Some (py_str (jget k v)))"

definition deserialize_action :: "json \<Rightarrow> sim_action option" where
  "deserialize_action v = (case (jget_default ''arguments'' (JObj []) v, item ''action_type'' v) of
       (JObj args, Some act) \<Rightarrow>
         if \<not> list_all (\<lambda>(k, x). argument_value x \<and> k \<notin> build_parameters) args then None
         else (case action_named (py_str act) of
             None \<Rightarrow> None
           | Some t \<Rightarrow> Some \<lparr>sa_action = t, sa_actor = py_str (jget_default ''actor_id'' (JStr ''user-1'') v),
               sa_target = optional_text ''target_id'' v, sa_arguments = sort_key fst args,
               sa_key = optional_text ''idempotency_key'' v\<rparr>)
     | _ \<Rightarrow> None)"

definition min_viable_steps :: int where
  "min_viable_steps = 2"

definition remaining_budget :: "budget \<Rightarrow> budget_usage \<Rightarrow> int \<Rightarrow> budget option" where
  "remaining_budget b used parts =
     (let parts = max 1 parts;
          unspent = bg_steps b - ug_steps used
      in if unspent < min_viable_steps * parts then None
         else Some \<lparr>bg_steps = unspent div parts,
           bg_tokens = max 0 ((bg_tokens b - ug_tokens used) div parts),
           bg_cost = max 0 ((bg_cost b - ug_cost used) / of_int parts),
           bg_time = max (1 / 1000000) ((bg_time b - ug_elapsed used) / of_int parts)\<rparr>)"

definition add_usage :: "budget_usage \<Rightarrow> budget_usage \<Rightarrow> budget_usage" where
  "add_usage u v = \<lparr>ug_steps = ug_steps u + ug_steps v, ug_tokens = ug_tokens u + ug_tokens v,
     ug_cost = ug_cost u + ug_cost v, ug_elapsed = ug_elapsed u + ug_elapsed v\<rparr>"

definition candidate_key :: "'w surroundings \<Rightarrow> sim_action list \<Rightarrow> invariant_id \<Rightarrow> string" where
  "candidate_key e acts iid = invariant_name iid @ '':'' @ wr_digest e (json_text (JList (map (\<lambda>a. JStr (canonical_key a)) acts)))"

section \<open>Evidence of the rule model\<close>

text \<open>
  \<^verbatim>\<open>SimulationState.normalized\<close>. Amounts are printed to the cent (the scale of a decimal is not
  modelled), and the set of seen keys, which only the hash reads, is left out.
\<close>

fun sim_flag_name :: "sim_flag \<Rightarrow> string" where
  "sim_flag_name SimNone = ''NONE''"
| "sim_flag_name SimActive = ''ACTIVE''"
| "sim_flag_name SimInactive = ''INACTIVE''"

fun sim_coupon_status_name :: "sim_coupon_status \<Rightarrow> string" where
  "sim_coupon_status_name SimAvailable = ''AVAILABLE''"
| "sim_coupon_status_name SimReserved = ''RESERVED''"
| "sim_coupon_status_name SimUsed = ''USED''"

fun sim_order_status_name :: "sim_order_status \<Rightarrow> string" where
  "sim_order_status_name SimCreated = ''CREATED''"
| "sim_order_status_name SimPaid = ''PAID''"
| "sim_order_status_name SimPartiallyRefunded = ''PARTIALLY_REFUNDED''"
| "sim_order_status_name SimRefunded = ''REFUNDED''"

fun sim_membership_status_name :: "sim_membership_status \<Rightarrow> string" where
  "sim_membership_status_name SimMActive = ''ACTIVE''"
| "sim_membership_status_name SimMRefunded = ''REFUNDED''"
| "sim_membership_status_name SimMCancelled = ''CANCELLED''"

definition sim_user_json :: "sim_user \<Rightarrow> json" where
  "sim_user_json u = JObj [
     (''balance'', JStr (amount_text (su_balance u))),
     (''currency'', JStr (currency_name (su_currency u))),
     (''is_new_user'', JBool (su_new u)),
     (''membership_status'', JStr (sim_flag_name (su_membership u))),
     (''points_balance'', JInt (su_points u)),
     (''user_id'', JStr (su_id u))]"

definition sim_coupon_json :: "sim_coupon \<Rightarrow> json" where
  "sim_coupon_json c = JObj [
     (''coupon_id'', JStr (sc_id c)),
     (''currency'', JStr (currency_name (sc_currency c))),
     (''face_value'', JStr (amount_text (sc_face c))),
     (''owner_id'', JStr (sc_owner c)),
     (''reserved_order_id'', opt_text (sc_reserved c)),
     (''status'', JStr (sim_coupon_status_name (sc_status c))),
     (''threshold'', JStr (amount_text (sc_threshold c))),
     (''usage_count'', JInt (int (sc_usage c))),
     (''used_order_id'', opt_text (sc_used c))]"

definition sim_order_json :: "sim_order \<Rightarrow> json" where
  "sim_order_json d = JObj [
     (''coupon_id'', opt_text (so_coupon d)),
     (''currency'', JStr (currency_name (so_currency d))),
     (''discount_amount'', JStr (amount_text (so_discount d))),
     (''order_id'', JStr (so_id d)),
     (''original_amount'', JStr (amount_text (so_original d))),
     (''paid_amount'', JStr (amount_text (so_paid d))),
     (''points_granted'', JInt (so_points d)),
     (''points_revoked'', JInt (so_revoked d)),
     (''refund_count'', JInt (int (so_refunds d))),
     (''refunded_amount'', JStr (amount_text (so_refunded d))),
     (''status'', JStr (sim_order_status_name (so_status d))),
     (''user_id'', JStr (so_user d))]"

definition sim_membership_json :: "sim_membership \<Rightarrow> json" where
  "sim_membership_json m = JObj [
     (''currency'', JStr (currency_name (sm_currency m))),
     (''membership_id'', JStr (sm_id m)),
     (''paid_amount'', JStr (amount_text (sm_paid m))),
     (''refunded_amount'', JStr (amount_text (sm_refunded m))),
     (''status'', JStr (sim_membership_status_name (sm_status m))),
     (''user_id'', JStr (sm_user m))]"

definition sim_entitlement_json :: "sim_entitlement \<Rightarrow> json" where
  "sim_entitlement_json e = JObj [
     (''consumed'', JInt (se_consumed e)),
     (''entitlement_id'', JStr (se_id e)),
     (''granted'', JInt (se_granted e)),
     (''membership_id'', JStr (se_membership e)),
     (''revoked'', JInt (se_revoked e))]"

definition normalized :: "sim_state \<Rightarrow> json" where
  "normalized st = JObj [
     (''coupons'', JList (map sim_coupon_json (sort_key sc_id (ss_coupons st)))),
     (''entitlements'', JList (map sim_entitlement_json (sort_key se_id (ss_entitlements st)))),
     (''memberships'', JList (map sim_membership_json (sort_key sm_id (ss_memberships st)))),
     (''orders'', JList (map sim_order_json (sort_key so_id (ss_orders st)))),
     (''scenario_type'', JStr (scenario_name (ss_scenario st))),
     (''users'', JList (map sim_user_json (sort_key su_id (ss_users st))))]"

definition sim_snapshot :: "'w surroundings \<Rightarrow> sim_state \<Rightarrow> json" where
  "sim_snapshot e st = JObj [(''state'', normalized st), (''state_hash'', JStr (wr_hash e st))]"

text \<open>\<^verbatim>\<open>_resume_state\<close>: no value when a transition raises.\<close>

fun resume_state ::
  "'w surroundings \<Rightarrow> simulator \<Rightarrow> sim_action list \<Rightarrow> sim_state \<Rightarrow> json list \<Rightarrow> (sim_state \<times> json list) option" where
  "resume_state e sim [] st snaps = Some (st, snaps)"
| "resume_state e sim (a # as) st snaps = (case transition sim st a of
       None \<Rightarrow> None
     | Some r \<Rightarrow> resume_state e sim as (tn_state r) (snaps @ [sim_snapshot e (tn_state r)]))"


end
