(* ===== verification/Worker_Search.thy ===== *)
theory Worker_Search
  imports Worker_Values
begin

text \<open>
  The search of one strategy (\<^verbatim>\<open>AttackWorker._search_strategy\<close>). Traces are output only and
  left out, as are the texts of rejections and of the notice that few steps are left, which is a
  function of the budget in the context.
\<close>

section \<open>One strategy\<close>

record search_task =
  tk_strategy :: strategy_run
  tk_state :: sim_state
  tk_actions :: "sim_action list"
  tk_snapshots :: "json list"
  tk_past :: "(string \<times> transition_status) list"
  tk_usage :: budget_usage
  tk_version :: nat
  tk_rejection :: "rejection_kind option"
  tk_retries :: nat
  tk_kinds :: "rejection_kind list"

type_synonym candidate = "sim_action list \<times> invariant_id"

datatype step_end = Stops terminal_reason "candidate option" search_task | Goes_on search_task

text \<open>The strategy's record with the usage so far, written to the store.\<close>

definition record_usage :: "search_task \<Rightarrow> budget_usage \<Rightarrow> ('w, search_task) work" where
  "record_usage t usage = (let s = (tk_strategy t)\<lparr>sy_usage := usage\<rparr> in
     andthen (storing (update_strategy s)) (\<lambda>_. pure (t\<lparr>tk_strategy := s\<rparr>)))"

text \<open>The newest checkpoint, with the invariant it is a candidate for.\<close>

definition set_item :: "string \<Rightarrow> json \<Rightarrow> json \<Rightarrow> json" where
  "set_item k v j = (case j of JObj m \<Rightarrow> JObj (AList.update k v m) | _ \<Rightarrow> j)"

definition save_candidate :: "'w surroundings \<Rightarrow> string \<Rightarrow> invariant_id \<Rightarrow> ('w, checkpoint) work" where
  "save_candidate e k iid =
     andthen (reading (\<lambda>st. Inr (load_checkpoint st k))) (\<lambda>found.
     andthen (or_escape found) (\<lambda>c.
     andthen (the_time e) (\<lambda>now.
     storing (save_checkpoint k (set_item ''candidate_invariant'' (JStr (invariant_name iid)) (ck_state c)) (ck_version c) now))))"

definition tokens_of :: "agent_reply \<Rightarrow> int" where
  "tokens_of r = (if gr_calls r \<noteq> [] then sum_list (map (\<lambda>(i, out, _). i + out) (gr_calls r))
     else case gr_last r of None \<Rightarrow> 0 | Some (i, out, _) \<Rightarrow> i + out)"

definition cost_of :: "agent_reply \<Rightarrow> rat" where
  "cost_of r = (if gr_calls r \<noteq> [] then sum_list (map (\<lambda>(_, _, c). c) (gr_calls r))
     else case gr_last r of None \<Rightarrow> 0 | Some (_, _, c) \<Rightarrow> c)"

definition stable_key :: "string \<Rightarrow> string \<Rightarrow> int \<Rightarrow> string" where
  "stable_key i k n = i @ '':'' @ k @ '':step:'' @ string_of_int n"

definition checkpoint_state :: "'w surroundings \<Rightarrow> search_task \<Rightarrow> json" where
  "checkpoint_state e t = JObj [
     (''actions'', JList (map serialize_action (tk_actions t))),
     (''usage'', wr_usage_json e (tk_usage t)),
     (''model_config_hash'', fst (wr_call_info e (length (tk_actions t)))),
     (''prompt_version'', snd (wr_call_info e (length (tk_actions t))))]"

text \<open>The oracle on the snapshots of the rule model; its first violation makes the trace a candidate.\<close>

definition judge_trace :: "'w surroundings \<Rightarrow> rule_spec \<Rightarrow> search_task \<Rightarrow> ('w, step_end) work" where
  "judge_trace e spec t =
     andthen (or_escape (evaluate spec (tk_snapshots t) [] [])) (\<lambda>report.
     case violations report of
       f # _ \<Rightarrow> andthen (save_candidate e (sy_id (tk_strategy t)) (fd_invariant f)) (\<lambda>_.
         pure (Stops CANDIDATE_FOUND (Some (tk_actions t, fd_invariant f)) t))
     | [] \<Rightarrow> andthen (waits e) (\<lambda>_. pure (Goes_on t)))"

text \<open>An accepted action: simulated, recorded, checkpointed and judged.\<close>

definition acted :: "'w surroundings \<Rightarrow> search_task \<Rightarrow> sim_action \<Rightarrow> sim_action \<Rightarrow> transition_result \<Rightarrow> search_task" where
  "acted e t a sent r = t\<lparr>tk_state := tn_state r, tk_actions := tk_actions t @ [sent],
     tk_past := tk_past t @ [(canonical_key a, tn_status r)],
     tk_snapshots := tk_snapshots t @ [sim_snapshot e (tn_state r)],
     tk_usage := (tk_usage t)\<lparr>ug_steps := ug_steps (tk_usage t) + 1\<rparr>\<rparr>"

definition take_action ::
  "'w surroundings \<Rightarrow> string \<Rightarrow> rule_spec \<Rightarrow> search_task \<Rightarrow> sim_action \<Rightarrow> ('w, step_end) work" where
  "take_action e i spec t a =
     (let k = sy_id (tk_strategy t);
          sent = a\<lparr>sa_key := Some (stable_key i k (ug_steps (tk_usage t) + 1))\<rparr>
      in andthen (or_escape (transition (reference_simulator spec) (tk_state t) sent)) (\<lambda>r.
         andthen (record_usage (acted e t a sent r) (tk_usage (acted e t a sent r))) (\<lambda>t1.
         andthen (faulty e BEFORE_CHECKPOINT) (\<lambda>_.
         andthen (the_time e) (\<lambda>now.
         andthen (storing (save_checkpoint k (checkpoint_state e t1) (tk_version t1) now)) (\<lambda>saved.
         andthen (faulty e AFTER_CHECKPOINT) (\<lambda>_.
         judge_trace e spec (t1\<lparr>tk_version := ck_version saved\<rparr>))))))))"

text \<open>A final proposal. A candidate for an invariant of another scenario counts as none.\<close>

definition finish_search :: "'w surroundings \<Rightarrow> rule_spec \<Rightarrow> search_task \<Rightarrow> invariant_id option \<Rightarrow> ('w, step_end) work" where
  "finish_search e spec t named =
     andthen (record_usage t (tk_usage t)) (\<lambda>t1. case named of
       None \<Rightarrow> pure (Stops STOP_NO_CANDIDATE None t1)
     | Some iid \<Rightarrow>
         if tk_actions t1 = [] \<or> iid \<notin> scenario_invariants (spec_scenario spec) then pure (Stops STOP_NO_CANDIDATE None t1)
         else andthen (save_candidate e (sy_id (tk_strategy t1)) iid) (\<lambda>_.
           pure (Stops CANDIDATE_FOUND (Some (tk_actions t1, iid)) t1)))"

text \<open>
  A proposed action: illegal ones are sent back twice, the third ends the strategy. The budget is
  checked again before a retry, with the usage it was just found within.
\<close>

definition try_action ::
  "'w surroundings \<Rightarrow> string \<Rightarrow> rule_spec \<Rightarrow> search_task \<Rightarrow> sim_action list \<Rightarrow> action_proposal \<Rightarrow> ('w, step_end) work" where
  "try_action e i spec t legal p =
     (case validate_action_proposal p legal (tk_past t) (tk_usage t) (sy_budget (tk_strategy t)) of
        Escapes \<Rightarrow> escape
      | Declines kind \<Rightarrow>
          let t1 = t\<lparr>tk_kinds := tk_kinds t @ [kind]\<rparr> in
          if 2 \<le> tk_retries t1
          then andthen (record_usage t1 (tk_usage t1)) (\<lambda>t2. pure (Stops ILLEGAL_RETRY_EXHAUSTED None t2))
          else pure (Goes_on (t1\<lparr>tk_retries := tk_retries t1 + 1, tk_rejection := Some kind\<rparr>))
      | Accepts a \<Rightarrow> take_action e i spec t a)"

text \<open>What the agent answered. Its tokens and cost count even where they end the strategy.\<close>

definition heed_reply ::
  "'w surroundings \<Rightarrow> string \<Rightarrow> rule_spec \<Rightarrow> search_task \<Rightarrow> sim_action list \<Rightarrow> agent_reply \<Rightarrow> ('w, step_end) work" where
  "heed_reply e i spec t legal reply = (case gr_answer reply of
       Agent_raises \<Rightarrow> escape
     | Rejected_proposal kind \<Rightarrow>
         if kind = STRATEGY_MISMATCH then escape
         else pure (Stops UNPARSABLE_OUTPUT None (t\<lparr>tk_kinds := tk_kinds t @ [kind]\<rparr>))
     | Proposes p \<Rightarrow>
         let t1 = t\<lparr>tk_rejection := None\<rparr>; usage = tk_usage t;
             spent = usage\<lparr>ug_tokens := ug_tokens usage + tokens_of reply, ug_cost := ug_cost usage + cost_of reply\<rparr>
         in if \<not> usage_within spent (sy_budget (tk_strategy t))
            then andthen (record_usage t1 spent) (\<lambda>t2. pure (Stops BUDGET_TOKENS_OR_COST None t2))
            else let t2 = t1\<lparr>tk_usage := spent\<rparr> in (case p of
                Stop_proposal named \<Rightarrow> finish_search e spec t2 named
              | Action_proposal a \<Rightarrow> try_action e i spec t2 legal a))"

definition remaining_of :: "budget \<Rightarrow> budget_usage \<Rightarrow> budget" where
  "remaining_of b usage = \<lparr>bg_steps = bg_steps b - ug_steps usage, bg_tokens = bg_tokens b - ug_tokens usage,
     bg_cost = max 0 (bg_cost b - ug_cost usage), bg_time = max (1 / 1000000) (bg_time b - ug_elapsed usage)\<rparr>"

definition consult ::
  "'w surroundings \<Rightarrow> agent_context \<Rightarrow> rejection_kind option \<Rightarrow> ('w, agent_reply) work" where
  "consult e ctx kind = (\<lambda>s. (Inr (wr_propose e ctx kind (wk_tick s)), s))"

definition search_step ::
  "'w surroundings \<Rightarrow> string \<Rightarrow> rule_spec \<Rightarrow> rat \<Rightarrow> rat \<Rightarrow> search_task \<Rightarrow> ('w, step_end) work" where
  "search_step e i spec started prior task =
     andthen (the_time e) (\<lambda>now.
     let t = task\<lparr>tk_usage := (tk_usage task)\<lparr>ug_elapsed := prior + (now - started)\<rparr>\<rparr>;
         b = sy_budget (tk_strategy t); usage = tk_usage t
     in if \<not> usage_within usage b
        then pure (Stops (if bg_time b < ug_elapsed usage then BUDGET_TIME else BUDGET_TOKENS_OR_COST) None t)
        else if bg_steps b \<le> ug_steps usage then pure (Stops BUDGET_STEPS None t)
        else andthen (reading (\<lambda>st. is_cancel_requested st i)) (\<lambda>cancelled.
          if cancelled then pure (Stops Strategy_cancelled None t)
          else let legal = legal_actions (reference_simulator spec) (tk_state t) in
          if legal = [] then pure (Stops NO_LEGAL_ACTION None t)
          else andthen (reading (\<lambda>st. Inr (map cx_id (counterexamples st i)))) (\<lambda>known.
            case build_agent_context (wr_spec_json e) (sy_type (tk_strategy t)) spec (normalized (tk_state t)) legal (tk_past t)
                (remaining_of b usage) known (scenario_invariants (spec_scenario spec)) of
              Inl _ \<Rightarrow> escape
            | Inr ctx \<Rightarrow>
                andthen (consult e ctx (tk_rejection t)) (\<lambda>reply.
                andthen (waits e) (\<lambda>_. heed_reply e i spec t legal reply)))))"

text \<open>A step that goes on has used a step of the budget or one of the two retries.\<close>

definition search_left :: "search_task \<Rightarrow> nat" where
  "search_left t = nat (bg_steps (sy_budget (tk_strategy t)) - ug_steps (tk_usage t)) + (2 - tk_retries t)"

lemma yields_record_usage:
  "(\<And>s. s = (tk_strategy t)\<lparr>sy_usage := usage\<rparr> \<Longrightarrow> yields Q (f (t\<lparr>tk_strategy := s\<rparr>))) \<Longrightarrow> yields Q (andthen (record_usage t usage) f)"
  by (auto simp: yields_def record_usage_def Let_def andthen_Inr)

lemma yields_list: "(xs = [] \<Longrightarrow> yields Q m) \<Longrightarrow> (\<And>y ys. xs = y # ys \<Longrightarrow> yields Q (f y ys))
   \<Longrightarrow> yields Q (case xs of y # ys \<Rightarrow> f y ys | [] \<Rightarrow> m)"
  by (cases xs) simp_all

definition goes_on :: "(search_task \<Rightarrow> bool) \<Rightarrow> step_end \<Rightarrow> bool" where
  "goes_on Q x = (case x of Goes_on t \<Rightarrow> Q t | Stops _ _ _ \<Rightarrow> True)"

lemma goes_on_simps [simp]: "goes_on Q (Goes_on t) = Q t" "goes_on Q (Stops r c t)"
  by (simp_all add: goes_on_def)

lemma yields_mono: "yields R m \<Longrightarrow> (\<And>x. R x \<Longrightarrow> Q x) \<Longrightarrow> yields Q m"
  by (auto simp: yields_def)

lemma goes_on_mono: "goes_on R x \<Longrightarrow> (\<And>t. R t \<Longrightarrow> Q t) \<Longrightarrow> goes_on Q x"
  by (simp add: goes_on_def split: step_end.splits)

lemma judge_trace_goes_on: "Q t \<Longrightarrow> yields (goes_on Q) (judge_trace e spec t)"
  unfolding judge_trace_def by (intro yields_rules yields_list yields_andthen) simp_all

lemma take_action_goes_on:
  "yields (goes_on (\<lambda>t'. sy_budget (tk_strategy t') = sy_budget (tk_strategy t) \<and> ug_steps (tk_usage t') = ug_steps (tk_usage t) + 1
     \<and> tk_retries t' = tk_retries t)) (take_action e i spec t a)"
  unfolding take_action_def Let_def
  by (intro yields_or_escape yields_record_usage yields_andthen judge_trace_goes_on) (simp add: acted_def)

lemma validate_step: "validate_action_proposal p legal past usage b = Accepts a \<Longrightarrow> ug_steps usage < bg_steps b"
  by (simp add: validate_action_proposal_def Let_def split: if_splits option.splits bool.splits)

lemma try_action_goes_on: "yields (goes_on (\<lambda>t'. search_left t' < search_left t)) (try_action e i spec t legal p)"
proof (cases "validate_action_proposal p legal (tk_past t) (tk_usage t) (sy_budget (tk_strategy t))")
  case (Accepts a)
  have "yields (goes_on (\<lambda>t'. search_left t' < search_left t)) (take_action e i spec t a)"
    by (rule yields_mono [OF take_action_goes_on goes_on_mono], assumption)
      (use validate_step [OF Accepts] in \<open>simp add: search_left_def\<close>)
  then show ?thesis by (simp add: try_action_def Accepts)
next
  case (Declines k)
  show ?thesis unfolding try_action_def Let_def Declines proposal_verdict.case
    by (intro yields_rules yields_record_usage) (simp_all add: search_left_def)
qed (simp add: try_action_def yields_escape)

lemma finish_search_stops: "yields (goes_on Q) (finish_search e spec t c)"
  unfolding finish_search_def
  by (intro yields_record_usage) (auto split: option.splits intro!: yields_rules intro: yields_andthen)

lemma yields_sum: "(\<And>x. z = Inl x \<Longrightarrow> yields Q (f x)) \<Longrightarrow> (\<And>x. z = Inr x \<Longrightarrow> yields Q (g x))
   \<Longrightarrow> yields Q (case z of Inl x \<Rightarrow> f x | Inr x \<Rightarrow> g x)"
  by (cases z) simp_all

lemma yields_answer: "yields Q m \<Longrightarrow> (\<And>k. yields Q (f k)) \<Longrightarrow> (\<And>p. yields Q (g p))
   \<Longrightarrow> yields Q (case a of Agent_raises \<Rightarrow> m | Rejected_proposal k \<Rightarrow> f k | Proposes p \<Rightarrow> g p)"
  by (cases a) simp_all

lemma yields_proposal: "(\<And>c. yields Q (f c)) \<Longrightarrow> (\<And>p. yields Q (g p))
   \<Longrightarrow> yields Q (case a of Stop_proposal c \<Rightarrow> f c | Action_proposal p \<Rightarrow> g p)"
  by (cases a) simp_all

lemmas step_rules = yields_rules yields_record_usage yields_sum yields_answer yields_proposal yields_list yields_andthen

lemma heed_reply_goes_on: "yields (goes_on (\<lambda>t'. search_left t' < search_left t)) (heed_reply e i spec t legal reply)"
proof -
  have act: "yields (goes_on (\<lambda>t'. search_left t' < search_left t)) (try_action e i spec u legal p)"
    if "search_left u = search_left t" for u p
    using try_action_goes_on [of u e i spec legal p] that by simp
  show ?thesis
    unfolding heed_reply_def Let_def
    by (intro step_rules finish_search_stops act) (simp_all add: search_left_def)
qed

lemma search_step_goes_on: "yields (goes_on (\<lambda>t'. search_left t' < search_left t)) (search_step e i spec started prior t)"
proof -
  have reply: "yields (goes_on (\<lambda>t'. search_left t' < search_left t)) (heed_reply e i spec u legal reply)"
    if "search_left u = search_left t" for u legal reply
    using heed_reply_goes_on [of u e i spec legal reply] that by simp
  show ?thesis
    unfolding search_step_def Let_def
    by (intro yields_pure yields_escape yields_if yields_sum yields_andthen reply) (simp_all add: search_left_def)
qed

function proposal_loop ::
  "'w surroundings \<Rightarrow> string \<Rightarrow> rule_spec \<Rightarrow> rat \<Rightarrow> rat \<Rightarrow> search_task
   \<Rightarrow> ('w, terminal_reason \<times> candidate option \<times> search_task) work" where
  "proposal_loop e i spec started prior t s = (case search_step e i spec started prior t s of
       (Inl x, s') \<Rightarrow> (Inl x, s')
     | (Inr (Stops reason found t'), s') \<Rightarrow> (Inr (reason, found, t'), s')
     | (Inr (Goes_on t'), s') \<Rightarrow> proposal_loop e i spec started prior t' s')"
  by pat_completeness auto
termination
  by (relation "measure (\<lambda>(e, i, spec, started, prior, t, s). search_left t)")
    (use yieldsD [OF search_step_goes_on, OF sym] in fastforce)+

declare proposal_loop.simps [simp del]

text \<open>The rule of the loop: \<open>Q\<close> before every step, \<open>R\<close> at the end, \<open>X\<close> where it raises.\<close>

lemma proposal_loop_rule:
  assumes "Q t s"
    and step: "\<And>t s. Q t s \<Longrightarrow> (case search_step e i spec started prior t s of
        (Inl x, s') \<Rightarrow> X s' | (Inr (Stops r c t'), s') \<Rightarrow> R r c t' s' | (Inr (Goes_on t'), s') \<Rightarrow> Q t' s')"
  shows "case proposal_loop e i spec started prior t s of (Inl x, s') \<Rightarrow> X s' | (Inr (r, c, t'), s') \<Rightarrow> R r c t' s'"
  using assms(1)
proof (induction "search_left t" arbitrary: t s rule: less_induct)
  case less
  obtain y s' where y: "search_step e i spec started prior t s = (y, s')" by force
  show ?case
  proof (cases "\<exists>t'. y = Inr (Goes_on t')")
    case True
    then obtain t' where t': "y = Inr (Goes_on t')" by blast
    have "search_left t' < search_left t"
      using yieldsD [OF search_step_goes_on y [unfolded t']] by simp
    moreover have "Q t' s'" using step [OF less.prems] y t' by simp
    ultimately show ?thesis using less.hyps y t' by (simp add: proposal_loop.simps [of e i spec started prior t s])
  next
    case False
    then show ?thesis using step [OF less.prems] y
      by (auto simp: proposal_loop.simps [of e i spec started prior t s] split: sum.splits step_end.splits)
  qed
qed

text \<open>The event a search leaves behind.\<close>

fun reason_text :: "terminal_reason \<Rightarrow> string" where
  "reason_text CANDIDATE_FOUND = ''CANDIDATE_FOUND''"
| "reason_text BUDGET_TIME = ''BUDGET_TIME''"
| "reason_text BUDGET_STEPS = ''BUDGET_STEPS''"
| "reason_text BUDGET_TOKENS_OR_COST = ''BUDGET_TOKENS_OR_COST''"
| "reason_text STOP_NO_CANDIDATE = ''STOP_NO_CANDIDATE''"
| "reason_text ILLEGAL_RETRY_EXHAUSTED = ''ILLEGAL_RETRY_EXHAUSTED''"
| "reason_text NO_LEGAL_ACTION = ''NO_LEGAL_ACTION''"
| "reason_text UNPARSABLE_OUTPUT = ''UNPARSABLE_OUTPUT''"
| "reason_text Strategy_cancelled = ''CANCELLED''"

fun strategy_text :: "strategy_type \<Rightarrow> string" where
  "strategy_text VALUE_FLOW = ''VALUE_FLOW''"
| "strategy_text LIFECYCLE = ''LIFECYCLE''"
| "strategy_text BOUNDARY = ''BOUNDARY''"

fun rejection_text :: "rejection_kind \<Rightarrow> string" where
  "rejection_text UNSPECIFIED = ''UNSPECIFIED''"
| "rejection_text PARSE_INVALID = ''PARSE_INVALID''"
| "rejection_text ACTION_NOT_LEGAL = ''ACTION_NOT_LEGAL''"
| "rejection_text PARAMS_OUT_OF_RANGE = ''PARAMS_OUT_OF_RANGE''"
| "rejection_text DUPLICATE_ACTION = ''DUPLICATE_ACTION''"
| "rejection_text STEP_BUDGET_EXHAUSTED = ''STEP_BUDGET_EXHAUSTED''"
| "rejection_text FORBIDDEN_CONTEXT = ''FORBIDDEN_CONTEXT''"
| "rejection_text STRATEGY_MISMATCH = ''STRATEGY_MISMATCH''"

definition diagnostic :: "'w surroundings \<Rightarrow> terminal_reason \<Rightarrow> candidate option \<Rightarrow> search_task \<Rightarrow> json" where
  "diagnostic e reason found t = JObj [
     (''strategy_type'', JStr (strategy_text (sy_type (tk_strategy t)))),
     (''terminal_reason'', JStr (reason_text reason)),
     (''usage'', wr_usage_json e (tk_usage t)),
     (''rejected_proposals'', JObj (map (\<lambda>k. (rejection_text k, JInt (int (count_list (tk_kinds t) k)))) (rev (remdups (rev (tk_kinds t)))))),
     (''candidates_submitted'', JInt (if found = None then 0 else 1))]"

text \<open>The actions of a checkpoint; no value when reading them raises.\<close>

fun those_actions :: "json list \<Rightarrow> sim_action list option" where
  "those_actions [] = Some []"
| "those_actions (v # vs) = (case deserialize_action v of
       None \<Rightarrow> None
     | Some a \<Rightarrow> map_option ((#) a) (those_actions vs))"

definition checkpoint_actions :: "json \<Rightarrow> sim_action list option" where
  "checkpoint_actions state = (case jget_default ''actions'' (JList []) state of
       JList vs \<Rightarrow> those_actions vs
     | JObj m \<Rightarrow> if m = [] then Some [] else None
     | JStr s \<Rightarrow> if s = [] then Some [] else None
     | _ \<Rightarrow> None)"

definition first_snapshots :: "'w surroundings \<Rightarrow> rule_spec \<Rightarrow> json list" where
  "first_snapshots e spec = [sim_snapshot e (initial_state (reference_simulator spec))]"

definition start_task :: "strategy_run \<Rightarrow> sim_state \<Rightarrow> sim_action list \<Rightarrow> json list \<Rightarrow> nat \<Rightarrow> search_task" where
  "start_task strategy state acts snaps n =
     \<lparr>tk_strategy = strategy\<lparr>sy_status := Strategy_searching\<rparr>, tk_state = state, tk_actions = acts, tk_snapshots = snaps,
      tk_past = map (\<lambda>a. (canonical_key a, Applied)) acts, tk_usage = sy_usage strategy,
      tk_version = n, tk_rejection = None, tk_retries = 0, tk_kinds = []\<rparr>"

definition end_strategy ::
  "'w surroundings \<Rightarrow> string \<Rightarrow> terminal_reason \<times> candidate option \<times> search_task \<Rightarrow> ('w, candidate option) work" where
  "end_strategy e i x = (case x of (reason, found, t) \<Rightarrow>
     andthen (the_time e) (\<lambda>now.
     andthen (storing (\<lambda>st. (Inr (), append_event i ''STRATEGY_TERMINATED'' (diagnostic e reason found t) now st))) (\<lambda>_.
     andthen (storing (update_strategy ((tk_strategy t)\<lparr>sy_status := Strategy_completed\<rparr>))) (\<lambda>_.
     pure found))))"

definition search_from ::
  "'w surroundings \<Rightarrow> string \<Rightarrow> rule_spec \<Rightarrow> strategy_run \<Rightarrow> sim_action list \<Rightarrow> nat \<Rightarrow> sim_state \<times> json list
   \<Rightarrow> ('w, candidate option) work" where
  "search_from e i spec strategy acts n resumed =
     andthen (storing (update_strategy (strategy\<lparr>sy_status := Strategy_searching\<rparr>))) (\<lambda>_.
     andthen (the_time e) (\<lambda>started.
     andthen (proposal_loop e i spec started (ug_elapsed (sy_usage strategy))
       (start_task strategy (fst resumed) acts (snd resumed) n)) (end_strategy e i)))"

definition search_strategy ::
  "'w surroundings \<Rightarrow> string \<Rightarrow> rule_spec \<Rightarrow> strategy_run \<Rightarrow> ('w, candidate option) work" where
  "search_strategy e i spec strategy =
     andthen (reading (\<lambda>st. Inr (load_checkpoint st (sy_id strategy)))) (\<lambda>saved.
     andthen (or_escape (case saved of None \<Rightarrow> Some [] | Some c \<Rightarrow> checkpoint_actions (ck_state c))) (\<lambda>acts.
     andthen (or_escape (resume_state e (reference_simulator spec) acts (initial_state (reference_simulator spec)) (first_snapshots e spec)))
       (search_from e i spec strategy acts (case saved of None \<Rightarrow> 0 | Some c \<Rightarrow> ck_version c))))"

end
