(* ===== verification/Worker_Run.thy ===== *)
theory Worker_Run
  imports Worker_Search
begin

text \<open>
  A pass of the worker over a run (\<^verbatim>\<open>AttackWorker.run\<close>): admission by the status of the
  run, the three strategies in turn, the replay of their candidates, and what is recorded of an
  exception. Traces are output only and left out.
\<close>

section \<open>Admission\<close>

definition strategies :: "strategy_type list" where
  "strategies = [VALUE_FLOW, LIFECYCLE, BOUNDARY]"

definition strategy_budget ::
  "strategy_type list \<Rightarrow> strategy_type \<Rightarrow> attack_run \<Rightarrow> budget_usage \<Rightarrow> int \<Rightarrow> budget option" where
  "strategy_budget searching ty run used parts =
     (if ty \<notin> set searching then Some (ar_budget run) else remaining_budget (ar_budget run) used (max 1 parts))"

definition ensured ::
  "'w surroundings \<Rightarrow> strategy_type list \<Rightarrow> string \<Rightarrow> attack_run \<Rightarrow> strategy_type \<Rightarrow> budget_usage \<Rightarrow> int \<Rightarrow> ('w, strategy_run) work" where
  "ensured e searching i run ty used parts =
     andthen (or_escape (strategy_budget searching ty run used parts)) (\<lambda>b.
     andthen (fresh_uid e) (\<lambda>uid. storing (ensure_strategy i ty b uid)))"

definition pending_invariant :: "checkpoint option \<Rightarrow> string option" where
  "pending_invariant saved = (case saved of
       None \<Rightarrow> None
     | Some c \<Rightarrow> (case jget ''candidate_invariant'' (ck_state c) of JStr s \<Rightarrow> Some s | _ \<Rightarrow> None))"

fun recovery_target ::
  "'w surroundings \<Rightarrow> strategy_type list \<Rightarrow> string \<Rightarrow> attack_run \<Rightarrow> strategy_type list \<Rightarrow> ('w, attack_status) work" where
  "recovery_target e searching i run [] = pure Searching"
| "recovery_target e searching i run (ty # tys) =
     andthen (ensured e searching i run ty no_usage (int (length searching))) (\<lambda>strategy.
     andthen (reading (\<lambda>st. Inr (load_checkpoint st (sy_id strategy)))) (\<lambda>saved.
     if pending_invariant saved \<noteq> None then pure Replaying else recovery_target e searching i run tys))"

text \<open>Whether the pass goes on; a run that cannot be searched raises while it is still READY.\<close>

definition admit ::
  "'w surroundings \<Rightarrow> strategy_type list \<Rightarrow> string \<Rightarrow> attack_run \<Rightarrow> ('w, bool) work" where
  "admit e searching i run =
     (if ar_status run = Ready then
        andthen (or_escape (remaining_budget (ar_budget run) no_usage (int (length searching)))) (\<lambda>_.
        set_status e i Ready Searching None)
      else if ar_status run = Run_failed then
        andthen (set_status e i Run_failed Recovering None) (\<lambda>moved.
        if \<not> moved then pure False
        else andthen (recovery_target e searching i run strategies) (\<lambda>target.
          set_status e i Recovering target None))
      else pure (ar_status run \<in> {Searching, Replaying}))"

section \<open>One candidate\<close>

record pass =
  ps_unconfirmed :: bool
  ps_used :: budget_usage
  ps_keys :: "string set"
  ps_left :: int

datatype turn_end = Ends | Breaks pass | Continues pass

definition axes_or_none :: "string list \<Rightarrow> string list option" where
  "axes_or_none axes = (if axes = [] then None else Some axes)"

definition cancels :: "'w surroundings \<Rightarrow> string \<Rightarrow> ('w, turn_end) work" where
  "cancels e i = andthen (set_status e i Cancel_requested Run_cancelled (Some Outcome_cancelled)) (\<lambda>_. pure Ends)"

text \<open>One minimized counterexample for each invariant the oracle found violated.\<close>

definition new_counterexample ::
  "'w surroundings \<Rightarrow> string \<Rightarrow> sim_action list \<Rightarrow> replay_result \<Rightarrow> invariant_id \<Rightarrow> minimization_result \<Rightarrow> string \<Rightarrow> rat
   \<Rightarrow> counterexample" where
  "new_counterexample e i acts rp iid small uid now =
     \<lparr>cx_id = uid, cx_run = i, cx_key = candidate_key e acts iid, cx_invariant = invariant_name iid,
      cx_original = map serialize_action acts, cx_minimized = map serialize_action (mn_actions small),
      cx_replay_run = rp_run rp, cx_created = now\<rparr>"

definition keep_counterexample :: "counterexample \<Rightarrow> ('w, unit) work" where
  "keep_counterexample x = storing (\<lambda>st. (Inr (), snd (save_counterexample x st)))"

fun save_confirmed ::
  "'w surroundings \<Rightarrow> string \<Rightarrow> rule_spec \<Rightarrow> attack_run \<Rightarrow> sim_action list \<Rightarrow> replay_result \<Rightarrow> invariant_id list
   \<Rightarrow> ('w, unit) work" where
  "save_confirmed e i spec run acts rp [] = pure ()"
| "save_confirmed e i spec run acts rp (iid # iids) =
     andthen (asks (wr_minimize e spec acts iid (ar_sandbox_version run) (axes_or_none (ar_axes run)))) (\<lambda>small.
     andthen (waits e) (\<lambda>_.
     andthen (fresh_uid e) (\<lambda>uid.
     andthen (the_time e) (\<lambda>now.
     andthen (keep_counterexample (new_counterexample e i acts rp iid small uid now)) (\<lambda>_.
     save_confirmed e i spec run acts rp iids)))))"

text \<open>The oracle decides which invariants broke; the one the search named is only a hint.\<close>

definition confirm_run ::
  "'w surroundings \<Rightarrow> string \<Rightarrow> rule_spec \<Rightarrow> attack_run \<Rightarrow> sim_action list \<Rightarrow> replay_result \<Rightarrow> invariant_id list \<Rightarrow> ('w, turn_end) work" where
  "confirm_run e i spec run acts rp iids =
     andthen (save_confirmed e i spec run acts rp iids) (\<lambda>_.
     andthen (faulty e AFTER_ORACLE_PERSIST) (\<lambda>_.
     andthen (set_status e i Replaying Run_completed (Some Confirmed_violation)) (\<lambda>_. pure Ends)))"

definition conclude_replay ::
  "'w surroundings \<Rightarrow> string \<Rightarrow> rule_spec \<Rightarrow> attack_run \<Rightarrow> pass \<Rightarrow> sim_action list \<Rightarrow> replay_result \<Rightarrow> ('w, turn_end) work" where
  "conclude_replay e i spec run p acts rp =
     (let iids = map fd_invariant (violations (rp_report rp)) in
      if iids \<noteq> [] then confirm_run e i spec run acts rp iids
      else andthen (set_status e i Replaying Searching None) (\<lambda>_. pure (Continues (p\<lparr>ps_unconfirmed := True\<rparr>))))"

definition replay_candidate ::
  "'w surroundings \<Rightarrow> string \<Rightarrow> rule_spec \<Rightarrow> attack_run \<Rightarrow> pass \<Rightarrow> candidate \<Rightarrow> ('w, turn_end) work" where
  "replay_candidate e i spec run p c =
     andthen (asks (wr_replay e spec (fst c) (snd c) (ar_sandbox_version run) (axes_or_none (ar_axes run)))) (\<lambda>rp.
     andthen (waits e) (\<lambda>_.
     andthen (faulty e BEFORE_ORACLE_PERSIST) (\<lambda>_.
     conclude_replay e i spec run p (fst c) rp)))"

definition take_candidate ::
  "'w surroundings \<Rightarrow> string \<Rightarrow> rule_spec \<Rightarrow> attack_run \<Rightarrow> pass \<Rightarrow> candidate \<Rightarrow> ('w, turn_end) work" where
  "take_candidate e i spec run p c =
     (let key = candidate_key e (fst c) (snd c) in
      if key \<in> ps_keys p then pure (Continues p)
      else andthen (reading (\<lambda>st. get_run st i)) (\<lambda>current.
        if ar_status current = Cancel_requested then cancels e i
        else andthen (if ar_status current = Searching then set_status e i Searching Replaying None else pure False) (\<lambda>_.
          replay_candidate e i spec run (p\<lparr>ps_keys := insert key (ps_keys p)\<rparr>) c)))"

section \<open>One strategy\<close>

text \<open>A candidate left by an earlier pass is taken up again while the run is replaying.\<close>

definition resumed_candidate :: "string \<Rightarrow> checkpoint \<Rightarrow> candidate option" where
  "resumed_candidate name c = (case (checkpoint_actions (ck_state c), invariant_named name) of
       (Some acts, Some iid) \<Rightarrow> Some (acts, iid)
     | _ \<Rightarrow> None)"

definition candidate_of ::
  "'w surroundings \<Rightarrow> string \<Rightarrow> rule_spec \<Rightarrow> attack_status \<Rightarrow> strategy_run \<Rightarrow> checkpoint option \<Rightarrow> ('w, candidate option) work" where
  "candidate_of e i spec status strategy saved = (case (saved, pending_invariant saved) of
       (Some c, Some name) \<Rightarrow>
         if status = Replaying then andthen (or_escape (resumed_candidate name c)) (\<lambda>c. pure (Some c))
         else search_strategy e i spec strategy
     | _ \<Rightarrow> search_strategy e i spec strategy)"

definition strategy_turn ::
  "'w surroundings \<Rightarrow> strategy_type list \<Rightarrow> string \<Rightarrow> rule_spec \<Rightarrow> attack_run \<Rightarrow> pass \<Rightarrow> strategy_type \<Rightarrow> ('w, turn_end) work" where
  "strategy_turn e searching i spec run p ty =
     andthen (the_time e) (\<lambda>now.
     if bg_time (ar_budget run) \<le> now - ar_created run then pure (Breaks p)
     else andthen (reading (\<lambda>st. is_cancel_requested st i)) (\<lambda>cancelled.
       if cancelled then cancels e i
       else andthen (ensured e searching i run ty (ps_used p) (ps_left p)) (\<lambda>strategy.
         andthen (reading (\<lambda>st. get_run st i)) (\<lambda>current.
         andthen (reading (\<lambda>st. Inr (load_checkpoint st (sy_id strategy)))) (\<lambda>saved.
         andthen (candidate_of e i spec (ar_status current) strategy saved) (\<lambda>found.
         andthen (ensured e searching i run ty (ps_used p) (ps_left p)) (\<lambda>spent.
         let p1 = p\<lparr>ps_used := add_usage (ps_used p) (sy_usage spent),
                    ps_left := (if ty \<in> set searching then ps_left p - 1 else ps_left p)\<rparr>
         in case found of
              None \<Rightarrow> pure (Continues p1)
            | Some c \<Rightarrow> take_candidate e i spec run p1 c)))))))"

text \<open>No pass is left when the worker has returned.\<close>

fun strategy_loop ::
  "'w surroundings \<Rightarrow> strategy_type list \<Rightarrow> string \<Rightarrow> rule_spec \<Rightarrow> attack_run \<Rightarrow> strategy_type list \<Rightarrow> pass \<Rightarrow> ('w, pass option) work" where
  "strategy_loop e searching i spec run [] p = pure (Some p)"
| "strategy_loop e searching i spec run (ty # tys) p =
     andthen (strategy_turn e searching i spec run p ty) (\<lambda>x. case x of
       Ends \<Rightarrow> pure None
     | Breaks q \<Rightarrow> pure (Some q)
     | Continues q \<Rightarrow> strategy_loop e searching i spec run tys q)"

section \<open>The pass\<close>

definition first_pass :: "strategy_type list \<Rightarrow> pass" where
  "first_pass searching = \<lparr>ps_unconfirmed = False, ps_used = no_usage, ps_keys = {}, ps_left = int (length searching)\<rparr>"

definition search_all ::
  "'w surroundings \<Rightarrow> strategy_type list \<Rightarrow> string \<Rightarrow> rule_spec \<Rightarrow> attack_run \<Rightarrow> ('w, unit) work" where
  "search_all e searching i spec run =
     andthen (strategy_loop e searching i spec run strategies (first_pass searching)) (\<lambda>x. case x of
       None \<Rightarrow> pure ()
     | Some p \<Rightarrow> andthen (reading (\<lambda>st. get_run st i)) (\<lambda>current.
         if ar_status current = Searching
         then andthen (set_status e i Searching Run_completed
           (Some (if ps_unconfirmed p then Unconfirmed_candidate else No_violation_within_budget))) (\<lambda>_. pure ())
         else pure ()))"

text \<open>An exception other than an injected crash is recorded before it is raised again.\<close>

definition infra_failed :: "'w surroundings \<Rightarrow> string \<Rightarrow> ('w, unit) work" where
  "infra_failed e i = andthen (reading (\<lambda>st. get_run st i)) (\<lambda>current.
     if ar_status current \<in> {Searching, Replaying}
     then andthen (set_status e i (ar_status current) Run_failed (Some Infra_failed)) (\<lambda>_. escape)
     else escape)"

definition guarded :: "'w surroundings \<Rightarrow> string \<Rightarrow> ('w, unit) work \<Rightarrow> ('w, unit) work" where
  "guarded e i m s = (case m s of
       (Inl Escaped, s') \<Rightarrow> infra_failed e i s'
     | r \<Rightarrow> r)"

definition run_attack :: "'w surroundings \<Rightarrow> strategy_type list \<Rightarrow> string \<Rightarrow> rule_spec \<Rightarrow> ('w, unit) work" where
  "run_attack e searching i spec =
     andthen (reading (\<lambda>st. get_run st i)) (\<lambda>run.
     if ar_status run \<in> {Run_completed, Run_cancelled} then pure ()
     else if ar_status run = Cancel_requested then andthen (cancels e i) (\<lambda>_. pure ())
     else andthen (admit e searching i run) (\<lambda>go.
       if \<not> go then pure ()
       else andthen (reading (\<lambda>st. Inr (counterexamples st i))) (\<lambda>known.
         if ar_status run = Replaying \<and> known \<noteq> []
         then andthen (set_status e i Replaying Run_completed (Some Confirmed_violation)) (\<lambda>_. pure ())
         else guarded e i (search_all e searching i spec run))))"

end
