(* ===== verification/Worker_Keeps.thy ===== *)
theory Worker_Keeps
  imports Worker_Run
begin

text \<open>
  What a pass of the worker keeps of the store: anything that the requests of the rest of the runtime
  keep, that the worker's own bookkeeping keeps, and that a confirmation with a counterexample at hand
  and a counterexample with the evidence of a replay keep.
\<close>

section \<open>Evidence\<close>

text \<open>A replay on the run's version of the sandbox, with the run's defects, whose report finds the invariant violated.\<close>

definition evidenced :: "'w surroundings \<Rightarrow> string \<Rightarrow> string list \<Rightarrow> counterexample \<Rightarrow> bool" where
  "evidenced e v axes x \<longleftrightarrow> (\<exists>spec acts target w rp w' f.
     wr_replay e spec acts target v (axes_or_none axes) w = (Some rp, w') \<and> f \<in> set (rp_report rp) \<and> fd_status f = VIOLATED
     \<and> cx_invariant x = invariant_name (fd_invariant f) \<and> cx_original x = map serialize_action acts \<and> cx_replay_run x = rp_run rp)"

section \<open>What the worker relies on\<close>

text \<open>What a search relies on, and what a whole pass does.\<close>

locale search_rely =
  fixes I :: "runtime_store \<Rightarrow> bool" and e :: "'w surroundings" and i :: string
  assumes others: "I st \<Longrightarrow> req \<in> set (wr_others e k) \<Longrightarrow> I (store_apply st req)"
    and ensure: "I st \<Longrightarrow> I (snd (ensure_strategy i ty b uid st))"
    and update: "I st \<Longrightarrow> I (snd (update_strategy y st))"
    and check: "I st \<Longrightarrow> I (snd (save_checkpoint n state version now st))"
    and event: "I st \<Longrightarrow> type \<noteq> ''STATUS_CHANGED'' \<Longrightarrow> I (append_event i type data now st)"
begin

lemma retains_others: "retains I (waits e)"
  by (rule retains_waits) (rule others)

lemmas search_rules = retains_still retains_if retains_others

lemma retains_update: "retains I (storing (update_strategy y))"
  by (rule retains_storing) (rule update)

lemma retains_record: "retains I (record_usage t usage)"
  unfolding record_usage_def Let_def by (intro retains_andthen retains_still retains_storing update)

lemma retains_save_candidate: "retains I (save_candidate e k iid)"
  unfolding save_candidate_def by (intro retains_andthen retains_still retains_storing check)

lemma retains_judge: "retains I (judge_trace e spec t)"
  unfolding judge_trace_def
  by (auto intro!: retains_andthen search_rules retains_save_candidate split: list.splits)

lemma retains_take_action: "retains I (take_action e i spec t a)"
  unfolding take_action_def Let_def
  by (intro retains_andthen search_rules retains_record retains_storing check retains_judge)

lemma retains_try_action: "retains I (try_action e i spec t legal p)"
  unfolding try_action_def Let_def
  by (auto intro!: retains_andthen search_rules retains_record retains_take_action split: proposal_verdict.splits)

lemma retains_finish: "retains I (finish_search e spec t c)"
  unfolding finish_search_def
  by (auto intro!: retains_andthen search_rules retains_record retains_save_candidate split: option.splits)

lemma retains_consult: "retains I (consult e ctx kind)"
  by (simp add: retains_def consult_def)

lemma retains_heed: "retains I (heed_reply e i spec t legal reply)"
  unfolding heed_reply_def Let_def
  by (auto intro!: retains_andthen search_rules retains_record retains_finish retains_try_action
      split: agent_answer.splits proposal.splits)

lemma retains_search_step: "retains I (search_step e i spec started prior t)"
  unfolding search_step_def Let_def
  by (intro retains_andthen search_rules)
    (auto intro!: retains_andthen search_rules retains_consult retains_heed split: sum.splits)

lemma retains_proposal_loop: "retains I (proposal_loop e i spec started prior t)"
proof -
  have "case proposal_loop e i spec started prior t s of
      (Inl x, s') \<Rightarrow> I (wk_store s') | (Inr (r, c, t'), s') \<Rightarrow> I (wk_store s')" if "I (wk_store s)" for s :: "'w worker"
  proof (rule proposal_loop_rule [where Q = "\<lambda>_ s. I (wk_store s)"])
    fix t and s :: "'w worker" assume "I (wk_store s)"
    then have "I (wk_store (snd (search_step e i spec started prior t s)))"
      using retains_search_step by (simp add: retains_def)
    then show "case search_step e i spec started prior t s of (Inl x, s') \<Rightarrow> I (wk_store s')
      | (Inr (Stops r c t'), s') \<Rightarrow> I (wk_store s') | (Inr (Goes_on t'), s') \<Rightarrow> I (wk_store s')"
      by (auto split: prod.splits sum.splits step_end.splits)
  qed (rule that)
  note step = this
  show ?thesis unfolding retains_def
  proof (intro allI impI)
    fix s :: "'w worker" assume "I (wk_store s)"
    from step [OF this] show "I (wk_store (snd (proposal_loop e i spec started prior t s)))"
      by (auto split: prod.splits sum.splits)
  qed
qed

lemma retains_event: "type \<noteq> ''STATUS_CHANGED'' \<Longrightarrow> retains I (storing (\<lambda>st. (Inr (), append_event i type data now st)))"
  by (intro retains_storing) (simp add: event)

lemma retains_end_strategy: "retains I (end_strategy e i x)"
  unfolding end_strategy_def
  by (auto intro!: retains_andthen search_rules retains_update retains_event split: prod.splits)

lemma retains_search_strategy: "retains I (search_strategy e i spec strategy)"
  unfolding search_strategy_def search_from_def
  by (intro retains_andthen search_rules retains_update retains_proposal_loop retains_end_strategy)

lemma retains_candidate: "retains I (candidate_of e i spec s strategy saved)"
  unfolding candidate_of_def
  by (auto intro!: retains_andthen search_rules retains_search_strategy split: option.splits)

lemma retains_ensured: "retains I (ensured e searching i run ty used parts)"
  unfolding ensured_def by (intro retains_andthen search_rules retains_storing ensure)

lemma retains_recovery: "retains I (recovery_target e searching i run tys)"
  by (induction tys) (auto intro!: retains_andthen search_rules retains_ensured)

end

locale store_rely = search_rely I e i
  for I :: "runtime_store \<Rightarrow> bool" and e :: "'w surroundings" and i :: string +
  fixes v :: string and axes :: "string list"
  assumes status: "I st \<Longrightarrow> (out = Some Confirmed_violation \<Longrightarrow> counterexamples st i \<noteq> [])
      \<Longrightarrow> I (snd (compare_and_set_status i s t out now st))"
    and evidence: "I st \<Longrightarrow> cx_run x = i \<Longrightarrow> evidenced e v axes x \<Longrightarrow> I (snd (save_counterexample x st))"
begin

lemma retains_set_status: "out \<noteq> Some Confirmed_violation \<Longrightarrow> retains I (set_status e i s t out)"
  unfolding set_status_def by (intro retains_andthen retains_still retains_storing status) simp_all

lemmas retains_rules = search_rules retains_set_status

lemma retains_admit: "retains I (admit e searching i run)"
  unfolding admit_def by (intro retains_rules retains_andthen retains_recovery) simp_all

lemma retains_cancels: "retains I (cancels e i)"
  unfolding cancels_def by (intro retains_andthen retains_rules) simp_all

text \<open>A counterexample of the run is in the store once one has been saved.\<close>

lemma retains_counterexample:
  assumes "cx_run x = i" "evidenced e v axes x"
  shows "retains I (keep_counterexample x)"
  unfolding keep_counterexample_def using assms by (intro retains_storing) (simp add: evidence)

lemma retains_save_confirmed:
  assumes "wr_replay e spec acts target v (axes_or_none axes) w = (Some rp, w')"
    and "set iids \<subseteq> fd_invariant ` set (violations (rp_report rp))"
  shows "retains I (save_confirmed e i spec run acts rp iids)"
  using assms(2)
proof (induction iids)
  case (Cons iid iids)
  then obtain f where "f \<in> set (rp_report rp)" "fd_status f = VIOLATED" "iid = fd_invariant f"
    by (auto simp: violations_def)
  with assms(1) have "evidenced e v axes (new_counterexample e i acts rp iid small uid now)" for small uid now
    by (simp add: evidenced_def new_counterexample_def) blast
  moreover have "retains I (save_confirmed e i spec run acts rp iids)" using Cons by simp
  ultimately show ?case
    by (auto intro!: retains_andthen retains_rules retains_counterexample simp: new_counterexample_def)
qed (simp add: retains_still)

end

lemma saved_counterexample: "counterexamples (snd (save_counterexample x st)) (cx_run x) \<noteq> []"
proof (cases "find (same_candidate x) (st_counterexamples st)")
  case (Some y)
  then have "y \<in> set (st_counterexamples st)" "cx_run y = cx_run x" by (auto simp: find_Some_iff same_candidate_def)
  then show ?thesis using Some by (auto simp: save_counterexample_def counterexamples_def filter_empty_conv)
qed (simp add: save_counterexample_def counterexamples_def)

lemma save_confirmed_leaves:
  "\<lbrakk>save_confirmed e i spec run acts rp iids s = (Inr (), s'); iids \<noteq> []\<rbrakk> \<Longrightarrow> counterexamples (wk_store s') i \<noteq> []"
proof (induction iids arbitrary: s)
  case (Cons iid iids)
  then obtain s1 small uid now s2 where one: "keep_counterexample (new_counterexample e i acts rp iid small uid now) s1 = (Inr (), s2)"
    and rest: "save_confirmed e i spec run acts rp iids s2 = (Inr (), s')"
    by (auto simp: andthen_Inr)
  show ?case
  proof (cases "iids = []")
    case True
    have "wk_store s2 = snd (save_counterexample (new_counterexample e i acts rp iid small uid now) (wk_store s1))"
      using one by (auto simp: keep_counterexample_def storing_def)
    moreover have "s' = s2" using rest True by simp
    ultimately show ?thesis
      using saved_counterexample [of "new_counterexample e i acts rp iid small uid now" "wk_store s1"]
      by (simp add: new_counterexample_def)
  next
    case False
    then show ?thesis using Cons.IH [OF rest] by simp
  qed
qed simp

lemma retains_after:
  fixes m :: "('w, 'a) work"
  assumes "retains I m" "\<And>s x s'. m s = (Inr x, s') \<Longrightarrow> I (wk_store s') \<Longrightarrow> I (wk_store (snd (f x s')))"
  shows "retains I (andthen m f)"
  unfolding retains_def
proof (intro allI impI)
  fix s :: "'w worker" assume I: "I (wk_store s)"
  obtain x s' where m: "m s = (x, s')" by force
  then have "I (wk_store s')" using retainsD [OF assms(1) I] by simp
  then show "I (wk_store (snd (andthen m f s)))" using m assms(2) by (auto simp: andthen_def split: sum.splits)
qed

lemma retains_at: "retains I m \<Longrightarrow> I (wk_store s) \<Longrightarrow> I (wk_store (snd (m s)))"
  by (simp add: retains_def)

lemma faulty_store: "faulty e p s = (x, s') \<Longrightarrow> wk_store s' = wk_store s"
  by (auto simp: faulty_def split: if_splits)

lemma asks_answer: "asks g s = (Inr y, s') \<Longrightarrow> \<exists>w w'. g w = (Some y, w')"
  by (auto simp: asks_def split: prod.splits option.splits)

lemma set_status_store: "wk_store (snd (set_status e i s t out k)) = snd (compare_and_set_status i s t out (wr_now e (wk_tick k)) (wk_store k))"
  by (simp add: set_status_def andthen_def the_time_def storing_def split: prod.splits sum.splits)

lemma andthen_pure: "wk_store (snd (andthen m (\<lambda>_. pure x) s)) = wk_store (snd (m s))"
  by (simp add: andthen_def pure_def split: prod.splits sum.splits)

context store_rely
begin

lemma retains_confirm:
  assumes "retains I (save_confirmed e i spec run acts rp iids)" "iids \<noteq> []"
  shows "retains I (confirm_run e i spec run acts rp iids)"
  unfolding confirm_run_def
proof (rule retains_after [OF assms(1)])
  fix s s' :: "'w worker" and x :: unit
  assume "save_confirmed e i spec run acts rp iids s = (Inr x, s')" and I: "I (wk_store s')"
  then have some: "counterexamples (wk_store s') i \<noteq> []" using save_confirmed_leaves assms(2) by (cases x) blast
  obtain y s1 where f: "faulty e AFTER_ORACLE_PERSIST s' = (y, s1)" by force
  have "I (wk_store (snd (set_status e i Replaying Run_completed (Some Confirmed_violation) s1)))"
    unfolding set_status_store using status [OF I] some by (simp add: faulty_store [OF f])
  then show "I (wk_store (snd (andthen (faulty e AFTER_ORACLE_PERSIST) (\<lambda>_.
     andthen (set_status e i Replaying Run_completed (Some Confirmed_violation)) (\<lambda>_. pure Ends)) s')))"
    using I faulty_store [OF f] unfolding andthen_def [of "faulty e AFTER_ORACLE_PERSIST"] f
    by (simp add: andthen_pure split: sum.splits)
qed

lemma retains_conclude:
  assumes "wr_replay e spec acts target v (axes_or_none axes) w = (Some rp, w')"
  shows "retains I (conclude_replay e i spec run p acts rp)"
proof -
  have "retains I (save_confirmed e i spec run acts rp (map fd_invariant (violations (rp_report rp))))"
    by (rule retains_save_confirmed [OF assms]) simp
  then show ?thesis unfolding conclude_replay_def Let_def
    by (auto intro: retains_confirm intro!: retains_andthen retains_set_status retains_still)
qed

lemma retains_replay:
  assumes "ar_sandbox_version run = v" "ar_axes run = axes"
  shows "retains I (replay_candidate e i spec run p c)"
  unfolding replay_candidate_def assms
proof (rule retains_after, rule retains_still)
  fix s s' :: "'w worker" and rp
  assume a: "asks (wr_replay e spec (fst c) (snd c) v (axes_or_none axes)) s = (Inr rp, s')" and I: "I (wk_store s')"
  from asks_answer [OF a] obtain w w' where "wr_replay e spec (fst c) (snd c) v (axes_or_none axes) w = (Some rp, w')" by blast
  then have "retains I (andthen (waits e) (\<lambda>_. andthen (faulty e BEFORE_ORACLE_PERSIST) (\<lambda>_. conclude_replay e i spec run p (fst c) rp)))"
    by (intro retains_andthen retains_others retains_still retains_conclude)
  then show "I (wk_store (snd (andthen (waits e) (\<lambda>_. andthen (faulty e BEFORE_ORACLE_PERSIST)
     (\<lambda>_. conclude_replay e i spec run p (fst c) rp)) s')))"
    using I by (rule retains_at)
qed

lemma retains_take_candidate:
  assumes "ar_sandbox_version run = v" "ar_axes run = axes"
  shows "retains I (take_candidate e i spec run p c)"
  unfolding take_candidate_def Let_def
  by (intro retains_if retains_andthen retains_still retains_set_status retains_cancels retains_replay assms) simp_all

lemma retains_turn:
  assumes "ar_sandbox_version run = v" "ar_axes run = axes"
  shows "retains I (strategy_turn e searching i spec run p ty)"
  unfolding strategy_turn_def Let_def
  by (auto intro!: retains_andthen retains_still retains_cancels retains_ensured retains_candidate retains_take_candidate assms
      split: option.splits)

lemma retains_loop:
  assumes "ar_sandbox_version run = v" "ar_axes run = axes"
  shows "retains I (strategy_loop e searching i spec run tys p)"
  by (induction tys arbitrary: p) (auto intro!: retains_andthen retains_still retains_turn assms split: turn_end.splits)

lemma retains_search_all:
  assumes "ar_sandbox_version run = v" "ar_axes run = axes"
  shows "retains I (search_all e searching i spec run)"
  unfolding search_all_def
  by (auto intro!: retains_andthen retains_still retains_set_status retains_loop assms split: option.splits)

lemma retains_guarded:
  assumes "retains I m"
  shows "retains I (guarded e i m)"
  unfolding retains_def
proof (intro allI impI)
  fix s :: "'w worker" assume I: "I (wk_store s)"
  obtain x s' where m: "m s = (x, s')" by force
  have "I (wk_store s')" using retainsD [OF assms I m] .
  moreover have "retains I (infra_failed e i)"
    unfolding infra_failed_def by (intro retains_andthen retains_still retains_if retains_set_status) simp
  ultimately show "I (wk_store (snd (guarded e i m s)))"
    using m retains_at by (auto simp: guarded_def split: sum.splits stop.splits)
qed

lemma retains_known:
  assumes "ar_sandbox_version run = v" "ar_axes run = axes"
  shows "retains I (andthen (reading (\<lambda>st. Inr (counterexamples st i))) (\<lambda>known.
         if ar_status run = Replaying \<and> known \<noteq> []
         then andthen (set_status e i Replaying Run_completed (Some Confirmed_violation)) (\<lambda>_. pure ())
         else guarded e i (search_all e searching i spec run)))"
proof (rule retains_after, rule retains_still)
  fix s s' :: "'w worker" and known
  assume "reading (\<lambda>st. Inr (counterexamples st i)) s = (Inr known, s')" and I: "I (wk_store s')"
  then have "known = counterexamples (wk_store s') i" by (auto simp: reading_def storing_def)
  then show "I (wk_store (snd ((if ar_status run = Replaying \<and> known \<noteq> []
         then andthen (set_status e i Replaying Run_completed (Some Confirmed_violation)) (\<lambda>_. pure ())
         else guarded e i (search_all e searching i spec run)) s')))"
    using I status [OF I] retains_at [OF retains_guarded [OF retains_search_all [OF assms]] I]
    by (simp add: andthen_pure set_status_store)
qed

lemma pass_keeps:
  assumes "st_runs (wk_store s) i = Some run" "ar_sandbox_version run = v" "ar_axes run = axes" "I (wk_store s)"
  shows "I (wk_store (snd (run_attack e searching i spec s)))"
proof -
  have "reading (\<lambda>st. get_run st i) s = (Inr run, s)"
    using assms(1) by (simp add: reading_def storing_def get_run_def)
  moreover have "retains I (if ar_status run \<in> {Run_completed, Run_cancelled} then pure ()
     else if ar_status run = Cancel_requested then andthen (cancels e i) (\<lambda>_. pure ())
     else andthen (admit e searching i run) (\<lambda>go. if \<not> go then pure ()
       else andthen (reading (\<lambda>st. Inr (counterexamples st i))) (\<lambda>known.
         if ar_status run = Replaying \<and> known \<noteq> []
         then andthen (set_status e i Replaying Run_completed (Some Confirmed_violation)) (\<lambda>_. pure ())
         else guarded e i (search_all e searching i spec run))))" (is "retains I ?m")
    using retains_known [OF assms(2,3)] by (intro retains_if retains_still retains_andthen [OF retains_cancels] retains_andthen [OF retains_admit])
  ultimately show ?thesis
    using retains_at [of I ?m s] assms(4) by (simp add: run_attack_def andthen_def [of "reading (\<lambda>st. get_run st i)"])
qed

end

end
