(* ===== verification/Worker_Facts.thy ===== *)
theory Worker_Facts
  imports Worker_Keeps Oracle_Facts
begin

text \<open>
  The two things shown of a pass through the rely conditions of the worker: the store stays
  consistent and only moves forward, and a run is confirmed only with the evidence of a replay.
\<close>

section \<open>Consistency\<close>

lemma retains_request: "store_ok st \<and> store_later base st \<Longrightarrow> store_ok (store_apply st req) \<and> store_later base (store_apply st req)"
  using store_apply_ok store_later_trans by blast

interpretation passes: store_rely "\<lambda>st. store_ok st \<and> store_later base st" e i v axes
proof unfold_locales
  fix st type data now
  assume "store_ok st \<and> store_later base st" "(type :: string) \<noteq> ''STATUS_CHANGED''"
  then show "store_ok (append_event i type data now st) \<and> store_later base (append_event i type data now st)"
    using retains_request [of st base "Append_event i type data now"] by simp
qed (use retains_request [of _ base "Set_status _ _ _ _ _"] retains_request [of _ base "Ensure_strategy _ _ _ _"]
    retains_request [of _ base "Update_strategy _"] retains_request [of _ base "Save_checkpoint _ _ _ _"]
    retains_request [of _ base "Save_counterexample _"] retains_request in \<open>auto simp del: split_paired_All\<close>)

lemma absent_run: "st_runs (wk_store s) i = None \<Longrightarrow> run_attack e searching i spec s = (Inl Escaped, s)"
  by (simp add: run_attack_def andthen_def reading_def storing_def get_run_def)

lemma pass_consistent:
  assumes "store_ok (wk_store s)"
  shows "store_ok (wk_store (snd (run_attack e searching i spec s)))
    \<and> store_later (wk_store s) (wk_store (snd (run_attack e searching i spec s)))"
proof (cases "st_runs (wk_store s) i")
  case (Some run)
  show ?thesis
    by (rule passes.pass_keeps [OF Some refl refl]) (use assms store_later_refl in blast)
qed (use assms in \<open>simp add: absent_run store_later_refl\<close>)

section \<open>Evidence\<close>

text \<open>Only the worker confirms the run and saves counterexamples for it.\<close>

fun unconfirming :: "string \<Rightarrow> store_request \<Rightarrow> bool" where
  "unconfirming i (Set_status j s t out now) \<longleftrightarrow> \<not> (j = i \<and> out = Some Confirmed_violation)"
| "unconfirming i (Save_counterexample x) \<longleftrightarrow> cx_run x \<noteq> i"
| "unconfirming i _ \<longleftrightarrow> True"

definition others_honest :: "'w surroundings \<Rightarrow> string \<Rightarrow> bool" where
  "others_honest e i \<longleftrightarrow> (\<forall>k. \<forall>req \<in> set (wr_others e k). unconfirming i req)"

definition evidence_ok :: "'w surroundings \<Rightarrow> string \<Rightarrow> string \<Rightarrow> string list \<Rightarrow> runtime_store \<Rightarrow> bool" where
  "evidence_ok e i v axes st \<longleftrightarrow>
     (\<exists>r. st_runs st i = Some r \<and> ar_sandbox_version r = v \<and> ar_axes r = axes
        \<and> (ar_outcome r = Some Confirmed_violation \<longrightarrow> counterexamples st i \<noteq> []))
     \<and> (\<forall>x \<in> set (counterexamples st i). evidenced e v axes x)"

lemma evidence_frame:
  "\<lbrakk>evidence_ok e i v axes st; st_runs st' i = st_runs st i; counterexamples st' i = counterexamples st i\<rbrakk> \<Longrightarrow> evidence_ok e i v axes st'"
  by (simp add: evidence_ok_def)

lemma counterexamples_frame:
  "st_counterexamples st' = st_counterexamples st \<Longrightarrow> counterexamples st' i = counterexamples st i"
  by (simp add: counterexamples_def)

lemma evidence_status:
  assumes "evidence_ok e i v axes st" "j = i \<and> out = Some Confirmed_violation \<Longrightarrow> counterexamples st i \<noteq> []"
  shows "evidence_ok e i v axes (snd (compare_and_set_status j s t out now st))"
proof -
  obtain x st' where c: "compare_and_set_status j s t out now st = (x, st')" by force
  then show ?thesis
  proof (cases rule: compare_and_set_cases)
    case (changed run)
    then have "counterexamples st' i = counterexamples st i" by (simp add: counterexamples_def)
    moreover have "st_runs st' = (st_runs st)(j \<mapsto> run\<lparr>ar_status := t, ar_outcome := out\<rparr>)" using changed by simp
    ultimately show ?thesis using assms changed(2) c by (auto simp: evidence_ok_def)
  qed (use assms c in simp)
qed

lemma evidence_save:
  assumes "evidence_ok e i v axes st" "cx_run x = i \<Longrightarrow> evidenced e v axes x"
  shows "evidence_ok e i v axes (snd (save_counterexample x st))"
  using assms by (auto simp: evidence_ok_def save_counterexample_def counterexamples_def split: option.splits)

lemma evidence_request:
  assumes "evidence_ok e i v axes st" "unconfirming i req"
  shows "evidence_ok e i v axes (store_apply st req)"
proof (cases req)
  case (Create_run job version scenario sandbox judge b seed defects sp)
  have "st_runs (store_apply st req) i = st_runs st i"
    using assms(1) by (auto simp: Create_run store_create_def Let_def evidence_ok_def split: option.splits)
  moreover have "st_counterexamples (store_apply st req) = st_counterexamples st"
    by (simp add: Create_run store_create_def Let_def split: option.splits)
  ultimately show ?thesis using evidence_frame [OF assms(1)] counterexamples_frame by blast
next
  case (Cancel_run j now)
  then show ?thesis using assms by (auto simp: request_cancel_def intro: evidence_status split: option.splits)
next
  case (Ensure_strategy j ty b uid)
  have "st_runs (store_apply st req) = st_runs st" "st_counterexamples (store_apply st req) = st_counterexamples st"
    by (simp_all add: Ensure_strategy ensure_strategy_def Let_def split: option.splits)
  then show ?thesis using evidence_frame [OF assms(1)] counterexamples_frame by metis
next
  case (Update_strategy s)
  have "st_runs (store_apply st req) = st_runs st" "st_counterexamples (store_apply st req) = st_counterexamples st"
    by (simp_all add: Update_strategy update_strategy_def)
  then show ?thesis using evidence_frame [OF assms(1)] counterexamples_frame by metis
next
  case (Save_checkpoint k state n now)
  have "st_runs (store_apply st req) = st_runs st" "st_counterexamples (store_apply st req) = st_counterexamples st"
    by (simp_all add: Save_checkpoint save_checkpoint_def Let_def)
  then show ?thesis using evidence_frame [OF assms(1)] counterexamples_frame by metis
next
  case (Append_event j type data now)
  have "st_runs (store_apply st req) = st_runs st" "st_counterexamples (store_apply st req) = st_counterexamples st"
    by (simp_all add: Append_event)
  then show ?thesis using evidence_frame [OF assms(1)] counterexamples_frame by metis
qed (use assms in \<open>auto intro: evidence_status evidence_save\<close>)

interpretation confirms: store_rely "\<lambda>st. others_honest e i \<longrightarrow> evidence_ok e i v axes st" e i v axes
proof unfold_locales
  fix st req k
  assume "others_honest e i \<longrightarrow> evidence_ok e i v axes st" "req \<in> set (wr_others e k)"
  then show "others_honest e i \<longrightarrow> evidence_ok e i v axes (store_apply st req)"
    by (auto simp: others_honest_def intro: evidence_request)
next
  fix st type data now
  assume "others_honest e i \<longrightarrow> evidence_ok e i v axes st" "(type :: string) \<noteq> ''STATUS_CHANGED''"
  then show "others_honest e i \<longrightarrow> evidence_ok e i v axes (append_event i type data now st)"
    using evidence_request [of e i v axes st "Append_event i type data now"] by simp
qed (use evidence_request [of e i v axes _ "Ensure_strategy _ _ _ _"] evidence_request [of e i v axes _ "Update_strategy _"]
    evidence_request [of e i v axes _ "Save_checkpoint _ _ _ _"]
    in \<open>auto intro: evidence_status evidence_save\<close>)

lemma pass_evidence:
  assumes "others_honest e i" "evidence_ok e i v axes (wk_store s)"
  shows "evidence_ok e i v axes (wk_store (snd (run_attack e searching i spec s)))"
proof -
  obtain run where "st_runs (wk_store s) i = Some run" "ar_sandbox_version run = v" "ar_axes run = axes"
    using assms(2) by (auto simp: evidence_ok_def)
  from confirms.pass_keeps [OF this, of e] show ?thesis using assms by blast
qed

end
