(* ===== verification/Worker_Gateway.thy ===== *)
theory Worker_Gateway
  imports Worker_Facts
begin

text \<open>
  The worker on the real gateway: \<^verbatim>\<open>SandboxReplayRunner\<close> behind \<^verbatim>\<open>ReplayGateway\<close>, where
  versions and defects are named by their texts, and what a finding of any report says about the run.
\<close>

section \<open>Names\<close>

fun version_name :: "sandbox_version \<Rightarrow> string" where
  "version_name FIXED = ''fixed''"
| "version_name VULNERABLE = ''vulnerable''"

definition version_named :: "string \<Rightarrow> sandbox_version option" where
  "version_named s = find (\<lambda>v. version_name v = s) [FIXED, VULNERABLE]"

fun axis_name :: "defect_axis \<Rightarrow> string" where
  "axis_name COUPON_RESTORED_ON_REFUND = ''COUPON_RESTORED_ON_REFUND''"
| "axis_name REFUND_AGAINST_ORIGINAL = ''REFUND_AGAINST_ORIGINAL''"
| "axis_name REFUND_ACK_LOST = ''REFUND_ACK_LOST''"
| "axis_name POINTS_GRANTED_AGAIN_ON_REFUND = ''POINTS_GRANTED_AGAIN_ON_REFUND''"
| "axis_name POINTS_OVERREDEMPTION = ''POINTS_OVERREDEMPTION''"
| "axis_name FULL_REFUND_AFTER_CONSUMPTION = ''FULL_REFUND_AFTER_CONSUMPTION''"
| "axis_name ENTITLEMENT_LEFT_AFTER_REFUND = ''ENTITLEMENT_LEFT_AFTER_REFUND''"
| "axis_name ENTITLEMENT_OVERCONSUMPTION = ''ENTITLEMENT_OVERCONSUMPTION''"

definition axis_named :: "string \<Rightarrow> defect_axis option" where
  "axis_named s = find (\<lambda>a. axis_name a = s)
     [COUPON_RESTORED_ON_REFUND, REFUND_AGAINST_ORIGINAL, REFUND_ACK_LOST, POINTS_GRANTED_AGAIN_ON_REFUND,
      POINTS_OVERREDEMPTION, FULL_REFUND_AFTER_CONSUMPTION, ENTITLEMENT_LEFT_AFTER_REFUND, ENTITLEMENT_OVERCONSUMPTION]"

fun axes_named :: "string list option \<Rightarrow> defect_axis list option option" where
  "axes_named None = Some None"
| "axes_named (Some names) = map_option Some (those (map axis_named names))"

text \<open>A request to create a run that names no version or axis of the sandbox is refused.\<close>

definition sandbox_gateway ::
  "(json \<Rightarrow> string) \<Rightarrow> (scenario_type \<Rightarrow> sandbox_version \<Rightarrow> string option)
   \<Rightarrow> rule_spec \<Rightarrow> sim_action list \<Rightarrow> invariant_id \<Rightarrow> string \<Rightarrow> string list option \<Rightarrow> world \<Rightarrow> replay_result option \<times> world" where
  "sandbox_gateway D known spec acts target v axes w = (case (version_named v, axes_named axes) of
       (Some version, Some defects) \<Rightarrow> replay D known spec acts target version defects w
     | _ \<Rightarrow> (None, next_world D w))"

section \<open>Every finding of a report\<close>

lemma more_check_names:
  "entitlement_refund spec snaps receipts events = Some f \<Longrightarrow> fd_invariant f = ENTITLEMENT_REFUND_CONSISTENCY"
  "idempotency spec snaps receipts events = Some f \<Longrightarrow> fd_invariant f = IDEMPOTENT_EFFECT"
  by (auto simp: entitlement_refund_def idempotency_def insufficient_def not_applicable_def conclude_def finding_of_def Let_def
      split: option.splits list.splits judgement.splits if_splits sim_exn.splits sum.splits)

lemma report_finding:
  assumes "evaluate spec snaps receipts events = Some report" "f \<in> set report"
  shows "finding report (fd_invariant f) = Some f"
  using assms by (auto simp: evaluate_def finding_def dest!: check_names more_check_names split: option.splits)

lemma judge_other_target:
  assumes "judge_replay spec acts target i snaps receipts events = Some r" "f \<in> set (rp_report r)" "fd_status f = VIOLATED"
  shows "judge_replay spec acts (fd_invariant f) i snaps receipts events
    = Some (r\<lparr>rp_invariant := fd_invariant f, rp_classification := CONFIRMED_VIOLATION\<rparr>)"
  using assms report_finding [of spec snaps receipts events "rp_report r" f]
  by (auto simp: judge_replay_def classify_replay_def split: option.splits)

lemma chain_other:
  assumes "chain m f w = (Some r, w')" "\<And>x w1. f x w1 = (Some r, w') \<Longrightarrow> g x w1 = (Some r', w')"
  shows "chain m g w = (Some r', w')"
  using assms by (auto simp: chain_def split: prod.splits option.splits)

lemma replay_other_target:
  assumes "replay D known spec acts target v axes w = (Some r, w')" "f \<in> set (rp_report r)" "fd_status f = VIOLATED"
  shows "replay D known spec acts (fd_invariant f) v axes w
    = (Some (r\<lparr>rp_invariant := fd_invariant f, rp_classification := CONFIRMED_VIOLATION\<rparr>), w')"
proof -
  have judged: "or_raise (judge_replay spec acts (fd_invariant f) i snaps receipts events) w1
      = (Some (r\<lparr>rp_invariant := fd_invariant f, rp_classification := CONFIRMED_VIOLATION\<rparr>), w')"
    if "or_raise (judge_replay spec acts target i snaps receipts events) w1 = (Some r, w')" for i snaps receipts events w1
    using that judge_other_target [OF _ assms(2,3)]
    by (auto simp: or_raise_def give_def raise_exn_def split: option.splits)
  show ?thesis
    using assms(1) unfolding replay_def Let_def
    by (elim chain_other) (auto elim!: chain_other judged split: prod.splits)
qed

text \<open>What a violated finding of a replay says about the run, whatever the replay was for.\<close>

lemma finding_defect:
  assumes "sandbox_gateway D known spec acts target v axes w = (Some r, w')" "f \<in> set (rp_report r)" "fd_status f = VIOLATED"
  shows "\<exists>version defects. version_named v = Some version \<and> axes_named axes = Some defects
    \<and> (fd_invariant f \<in> {NET_PAID_NON_NEGATIVE, REFUND_NOT_EXCEED_PAID}
        \<longrightarrow> spec_scenario spec = PROMOTION \<and> REFUND_AGAINST_ORIGINAL \<in> profile_for_run version defects)
    \<and> (fd_invariant f = ENTITLEMENT_NON_NEGATIVE \<longrightarrow> ENTITLEMENT_OVERCONSUMPTION \<in> profile_for_run version defects)"
proof -
  obtain version defects where names: "version_named v = Some version" "axes_named axes = Some defects"
    and "replay D known spec acts target version defects w = (Some r, w')"
    using assms(1) by (auto simp: sandbox_gateway_def split: option.splits)
  from replay_other_target [OF this(3) assms(2,3)] names show ?thesis
    using confirmed_replay_defect by fastforce
qed

end
