(* ===== verification/Worker_Durable.thy ===== *)
theory Worker_Durable
  imports Worker_Run
begin

text \<open>
  Checkpoints: an action is read back from its JSON as it was written, and a candidate a search
  returns is the one its checkpoint holds, so a pass that resumes after a crash replays the same one.
\<close>

section \<open>Actions as JSON\<close>

definition storable :: "sim_action \<Rightarrow> bool" where
  "storable a \<longleftrightarrow> distinct (map fst (sa_arguments a)) \<and> sorted (map fst (sa_arguments a))
     \<and> (\<forall>(k, v) \<in> set (sa_arguments a). argument_value v \<and> k \<notin> build_parameters)"

lemma update_new: "k \<notin> fst ` set d \<Longrightarrow> AList.update k v d = d @ [(k, v)]"
  by (induction d) auto

lemma py_dict_distinct: "distinct (map fst ps) \<Longrightarrow> py_dict ps = ps"
proof -
  have "distinct (map fst (acc @ ps)) \<Longrightarrow> foldl (\<lambda>d (k, v). AList.update k v d) acc ps = acc @ ps" for acc
    by (induction ps arbitrary: acc) (auto simp: update_new split: prod.splits)
  from this [of "[]"] show "distinct (map fst ps) \<Longrightarrow> py_dict ps = ps" by (simp add: py_dict_def)
qed

lemma action_named_name [simp]: "action_named (action_name t) = Some t"
  by (cases t) (simp_all add: action_named_def)

lemma invariant_named_name [simp]: "invariant_named (invariant_name iid) = Some iid"
  by (cases iid) (simp_all add: invariant_named_def)

lemma action_round_trip:
  assumes "storable a"
  shows "deserialize_action (serialize_action a) = Some a"
proof -
  have args: "py_dict (sa_arguments a) = sa_arguments a" "sort_key fst (sa_arguments a) = sa_arguments a"
    "list_all (\<lambda>(k, x). argument_value x \<and> k \<notin> build_parameters) (sa_arguments a)"
    using assms by (auto simp: storable_def py_dict_distinct sorted_sort_id list_all_iff sort_key_id_if_sorted)
  show ?thesis
    by (cases "sa_target a"; cases "sa_key a")
      (simp_all add: serialize_action_def deserialize_action_def args item_def optional_text_def opt_text_def)
qed

lemma those_actions_round_trip: "list_all storable acts \<Longrightarrow> those_actions (map serialize_action acts) = Some acts"
  by (induction acts) (simp_all add: action_round_trip)

section \<open>Typed proposals\<close>

text \<open>The arguments of a parsed proposal are a dict of texts, integers and booleans.\<close>

definition typed_agent :: "'w surroundings \<Rightarrow> bool" where
  "typed_agent e \<longleftrightarrow> (\<forall>context kind n p. gr_answer (wr_propose e context kind n) = Proposes (Action_proposal p)
     \<longrightarrow> distinct (map fst (pr_arguments p)) \<and> (\<forall>(k, v) \<in> set (pr_arguments p). argument_value v))"

lemma offered_names:
  "a \<in> set (legal_actions sim st) \<Longrightarrow> fst ` set (py_dict (sa_arguments a)) \<inter> build_parameters = {}"
  by (auto simp: legal_actions_def promotion_offers_def points_offers_def membership_offers_def refund_offers_def Let_def
      build_action_def py_dict_def build_parameters_def split: list.splits scenario_type.splits option.splits if_splits)

lemma accepted_storable:
  assumes "validate_action_proposal p (legal_actions sim st) past usage b = Accepts a"
    and "distinct (map fst (pr_arguments p))" "\<forall>(k, v) \<in> set (pr_arguments p). argument_value v"
  shows "storable (a\<lparr>sa_key := k\<rparr>)"
proof -
  obtain t where a: "a = proposed_action p" and t: "t \<in> set (legal_actions sim st)"
    and names: "same_names (py_dict (sa_arguments a)) (py_dict (sa_arguments t))"
    using validate_accepts [OF assms(1)] by blast
  have "distinct (map fst (sa_arguments a))" "sorted (map fst (sa_arguments a))" "set (sa_arguments a) = set (pr_arguments p)"
    using assms(2) by (simp_all add: a proposed_action_def distinct_map)
  moreover from this have "fst ` set (sa_arguments a) \<inter> build_parameters = {}"
    using names offered_names [OF t] by (simp add: py_dict_distinct same_names_def)
  ultimately show ?thesis using assms(3) by (auto simp: storable_def)
qed

section \<open>What holds before and after\<close>

definition triple :: "('w worker \<Rightarrow> bool) \<Rightarrow> ('w, 'a) work \<Rightarrow> ('a \<Rightarrow> 'w worker \<Rightarrow> bool) \<Rightarrow> bool" where
  "triple P m Q \<longleftrightarrow> (\<forall>s x s'. P s \<longrightarrow> m s = (Inr x, s') \<longrightarrow> Q x s')"

lemma tripleD: "triple P m Q \<Longrightarrow> P s \<Longrightarrow> m s = (Inr x, s') \<Longrightarrow> Q x s'"
  by (simp add: triple_def)

lemma triple_andthen: "triple P m R \<Longrightarrow> (\<And>x. triple (R x) (f x) Q) \<Longrightarrow> triple P (andthen m f) Q"
  unfolding triple_def andthen_Inr by blast

lemma triple_retains: "retains I m \<Longrightarrow> triple (\<lambda>s. I (wk_store s)) m (\<lambda>_ s. I (wk_store s))"
  by (auto simp: triple_def dest: retainsD)

lemma triple_pure: "(\<And>s. P s \<Longrightarrow> Q x s) \<Longrightarrow> triple P (pure x) Q"
  by (simp add: triple_def)

lemma triple_stuck: "triple P escape Q"
  by (simp add: triple_def)

lemma triple_mono: "triple P' m Q' \<Longrightarrow> (\<And>s. P s \<Longrightarrow> P' s) \<Longrightarrow> (\<And>x s. Q' x s \<Longrightarrow> Q x s) \<Longrightarrow> triple P m Q"
  unfolding triple_def by blast

lemma triple_pre: "(b \<Longrightarrow> triple P m Q) \<Longrightarrow> triple (\<lambda>s. b \<and> P s) m Q"
  unfolding triple_def by blast

lemma triple_if: "(b \<Longrightarrow> triple P m Q) \<Longrightarrow> (\<not> b \<Longrightarrow> triple P n Q) \<Longrightarrow> triple P (if b then m else n) Q"
  by simp

lemma triple_or_escape: "(\<And>y. z = Some y \<Longrightarrow> triple P (f y) Q) \<Longrightarrow> triple P (andthen (or_escape z) f) Q"
  by (auto simp: triple_def andthen_Inr)

lemma triple_still: "(\<And>x. triple (\<lambda>s. I (wk_store s)) (f x) Q) \<Longrightarrow> retains I m \<Longrightarrow> triple (\<lambda>s. I (wk_store s)) (andthen m f) Q"
  using triple_andthen triple_retains by blast

section \<open>The checkpoint of a search\<close>

definition checkpointed :: "string \<Rightarrow> sim_action list \<Rightarrow> nat \<Rightarrow> runtime_store \<Rightarrow> bool" where
  "checkpointed k acts n st \<longleftrightarrow> (case st_checkpoints st k of
       None \<Rightarrow> acts = [] \<and> n = 0
     | Some c \<Rightarrow> ck_version c = n \<and> (\<exists>m. ck_state c = JObj m \<and> map_of m ''actions'' = Some (JList (map serialize_action acts))))"

definition candidate_kept :: "string \<Rightarrow> candidate \<Rightarrow> runtime_store \<Rightarrow> bool" where
  "candidate_kept k x st \<longleftrightarrow> (\<exists>c. st_checkpoints st k = Some c \<and> pending_invariant (Some c) = Some (invariant_name (snd x))
     \<and> checkpoint_actions (ck_state c) = Some (fst x))"

definition others_leave :: "'w surroundings \<Rightarrow> string \<Rightarrow> bool" where
  "others_leave e k \<longleftrightarrow> (\<forall>n. \<forall>req \<in> set (wr_others e n). case req of Save_checkpoint j _ _ _ \<Rightarrow> j \<noteq> k | _ \<Rightarrow> True)"

lemma checkpoints_elsewhere:
  "(case req of Save_checkpoint j _ _ _ \<Rightarrow> j \<noteq> k | _ \<Rightarrow> True) \<Longrightarrow> st_checkpoints (store_apply st req) k = st_checkpoints st k"
  by (auto simp: store_create_def compare_and_set_status_def request_cancel_def ensure_strategy_def update_strategy_def
      save_checkpoint_def save_counterexample_def Let_def split: store_request.splits option.splits)

lemma others_retain: "others_leave e k \<Longrightarrow> retains (checkpointed k acts n) (waits e)"
  by (rule retains_waits) (auto simp: others_leave_def checkpointed_def checkpoints_elsewhere)

lemma update_retains: "retains (checkpointed k acts n) (storing (update_strategy y))"
  by (rule retains_storing) (simp add: update_strategy_def checkpointed_def)

lemma checkpoint_written:
  "triple (\<lambda>s. checkpointed k acts n (wk_store s)) (storing (save_checkpoint k (JObj m) n now))
     (\<lambda>c s. map_of m ''actions'' = Some (JList (map serialize_action acts')) \<longrightarrow> checkpointed k acts' (ck_version c) (wk_store s))"
  by (auto simp: triple_def storing_def save_checkpoint_def Let_def checkpointed_def split: if_splits)

lemma reading_Inr [simp]: "reading f s = (Inr x, s') \<longleftrightarrow> f (wk_store s) = Inr x \<and> s' = s"
  by (auto simp: reading_def storing_def split: sum.splits)

lemma candidate_written:
  assumes "list_all storable acts" "acts \<noteq> []"
  shows "triple (\<lambda>s. checkpointed k acts n (wk_store s)) (save_candidate e k iid) (\<lambda>_ s. candidate_kept k (acts, iid) (wk_store s))"
  unfolding triple_def
proof (intro allI impI)
  fix s x s' assume pre: "checkpointed k acts n (wk_store s)" and run: "save_candidate e k iid s = (Inr x, s')"
  obtain c m where c: "st_checkpoints (wk_store s) k = Some c" "ck_state c = JObj m"
    "map_of m ''actions'' = Some (JList (map serialize_action acts))"
    using pre assms(2) by (auto simp: checkpointed_def split: option.splits)
  obtain now s1 where "storing (save_checkpoint k (set_item ''candidate_invariant'' (JStr (invariant_name iid)) (ck_state c)) (ck_version c) now) s1
      = (Inr x, s')"
    using run c(1) by (auto simp: save_candidate_def andthen_Inr load_checkpoint_def)
  then show "candidate_kept k (acts, iid) (wk_store s')"
    using c(2,3) those_actions_round_trip [OF assms(1)]
    by (auto simp: storing_def save_checkpoint_def Let_def candidate_kept_def set_item_def pending_invariant_def
        checkpoint_actions_def update_conv' split: if_splits)
qed

section \<open>The search\<close>

definition searching_at :: "string \<Rightarrow> search_task \<Rightarrow> 'w worker \<Rightarrow> bool" where
  "searching_at k t s \<longleftrightarrow> sy_id (tk_strategy t) = k \<and> list_all storable (tk_actions t)
     \<and> checkpointed k (tk_actions t) (tk_version t) (wk_store s)"

definition found_kept :: "string \<Rightarrow> candidate option \<Rightarrow> 'w worker \<Rightarrow> bool" where
  "found_kept k found s \<longleftrightarrow> (\<forall>x. found = Some x \<longrightarrow> candidate_kept k x (wk_store s))"

fun step_kept :: "string \<Rightarrow> step_end \<Rightarrow> 'w worker \<Rightarrow> bool" where
  "step_kept k (Goes_on t) s \<longleftrightarrow> searching_at k t s"
| "step_kept k (Stops reason found t) s \<longleftrightarrow> found_kept k found s"

lemma triple_record:
  assumes "\<And>s. s = (tk_strategy t)\<lparr>sy_usage := usage\<rparr>
    \<Longrightarrow> triple (\<lambda>s. checkpointed k acts n (wk_store s)) (f (t\<lparr>tk_strategy := s\<rparr>)) Q"
  shows "triple (\<lambda>s. checkpointed k acts n (wk_store s)) (andthen (record_usage t usage) f) Q"
proof -
  have "retains (checkpointed k acts n) (record_usage t usage)"
    unfolding record_usage_def Let_def by (intro retains_andthen update_retains retains_still)
  moreover have "record_usage t usage s = (Inr t', s') \<Longrightarrow> t' = t\<lparr>tk_strategy := (tk_strategy t)\<lparr>sy_usage := usage\<rparr>\<rparr>" for s t' s'
    by (auto simp: record_usage_def Let_def andthen_Inr)
  ultimately show ?thesis using assms [OF refl] unfolding triple_def andthen_Inr by (metis retainsD)
qed

lemma judge_trace_kept:
  assumes "sy_id (tk_strategy t) = k" "list_all storable (tk_actions t)" "tk_actions t \<noteq> []" "others_leave e k"
  shows "triple (\<lambda>s. checkpointed k (tk_actions t) (tk_version t) (wk_store s)) (judge_trace e spec t) (step_kept k)"
proof -
  have "triple (\<lambda>s. checkpointed k (tk_actions t) (tk_version t) (wk_store s))
     (andthen (save_candidate e k iid) (\<lambda>_. pure (Stops CANDIDATE_FOUND (Some (tk_actions t, iid)) t))) (step_kept k)" for iid
    by (rule triple_andthen [OF candidate_written [OF assms(2,3)]], rule triple_pure) (simp add: found_kept_def)
  moreover have "triple (\<lambda>s. checkpointed k (tk_actions t) (tk_version t) (wk_store s))
     (andthen (waits e) (\<lambda>_. pure (Goes_on t))) (step_kept k)"
    by (rule triple_still [OF triple_pure others_retain [OF assms(4)]]) (simp add: searching_at_def assms)
  ultimately show ?thesis unfolding judge_trace_def assms(1)
    by (intro triple_or_escape) (simp split: list.splits)
qed

lemma take_action_kept:
  assumes "sy_id (tk_strategy t) = k" "list_all storable (tk_actions t)" "\<And>x. storable (a\<lparr>sa_key := x\<rparr>)" "others_leave e k"
  shows "triple (\<lambda>s. checkpointed k (tk_actions t) (tk_version t) (wk_store s)) (take_action e i spec t a) (step_kept k)"
proof -
  let ?a = "a\<lparr>sa_key := Some (stable_key i k (ug_steps (tk_usage t) + 1))\<rparr>"
  have tail: "triple (\<lambda>s. checkpointed k (tk_actions t) (tk_version t) (wk_store s))
     (andthen (storing (save_checkpoint k (checkpoint_state e u) (tk_version u) now)) (\<lambda>saved.
        andthen (faulty e AFTER_CHECKPOINT) (\<lambda>_. judge_trace e spec (u\<lparr>tk_version := ck_version saved\<rparr>)))) (step_kept k)"
    if "tk_actions u = tk_actions t @ [?a]" "sy_id (tk_strategy u) = k" "tk_version u = tk_version t" for u now
  proof (rule triple_andthen)
    show "triple (\<lambda>s. checkpointed k (tk_actions t) (tk_version t) (wk_store s))
       (storing (save_checkpoint k (checkpoint_state e u) (tk_version u) now))
       (\<lambda>c s. checkpointed k (tk_actions u) (ck_version c) (wk_store s))"
      unfolding checkpoint_state_def that(3)
      by (rule triple_mono [OF checkpoint_written [where acts' = "tk_actions u"]]) (assumption, simp add: that(1))
  next
    fix saved
    let ?u = "u\<lparr>tk_version := ck_version saved\<rparr>"
    have "triple (\<lambda>s. checkpointed k (tk_actions ?u) (tk_version ?u) (wk_store s)) (judge_trace e spec ?u) (step_kept k)"
      by (rule judge_trace_kept) (use that assms in simp_all)
    then show "triple (\<lambda>s. checkpointed k (tk_actions u) (ck_version saved) (wk_store s))
       (andthen (faulty e AFTER_CHECKPOINT) (\<lambda>_. judge_trace e spec ?u)) (step_kept k)"
      by (intro triple_still retains_still) simp
  qed
  show ?thesis
    unfolding take_action_def Let_def assms(1)
    by (intro triple_or_escape triple_record triple_still [OF _ retains_still(6)] triple_still [OF _ retains_still(4)] tail)
      (simp_all add: acted_def assms)
qed

lemma finish_search_kept:
  assumes "sy_id (tk_strategy t) = k" "list_all storable (tk_actions t)"
  shows "triple (\<lambda>s. checkpointed k (tk_actions t) (tk_version t) (wk_store s)) (finish_search e spec t c) (step_kept k)"
  unfolding finish_search_def
proof (rule triple_record)
  fix s assume s: "s = (tk_strategy t)\<lparr>sy_usage := tk_usage t\<rparr>"
  let ?t = "t\<lparr>tk_strategy := s\<rparr>"
  have "triple (\<lambda>s. checkpointed k (tk_actions t) (tk_version t) (wk_store s))
     (andthen (save_candidate e k iid) (\<lambda>_. pure (Stops CANDIDATE_FOUND (Some (tk_actions t, iid)) ?t))) (step_kept k)"
    if "tk_actions t \<noteq> []" for iid
    by (rule triple_andthen [OF candidate_written [OF assms(2) that]], rule triple_pure) (simp add: found_kept_def)
  then show "triple (\<lambda>s. checkpointed k (tk_actions t) (tk_version t) (wk_store s)) (case c of
       None \<Rightarrow> pure (Stops STOP_NO_CANDIDATE None ?t)
     | Some iid \<Rightarrow>
         if tk_actions ?t = [] \<or> iid \<notin> scenario_invariants (spec_scenario spec) then pure (Stops STOP_NO_CANDIDATE None ?t)
         else andthen (save_candidate e (sy_id (tk_strategy ?t)) iid) (\<lambda>_.
           pure (Stops CANDIDATE_FOUND (Some (tk_actions ?t, iid)) ?t))) (step_kept k)"
    by (auto simp: s assms(1) found_kept_def intro!: triple_pure split: option.splits)
qed

lemma try_action_kept:
  assumes "sy_id (tk_strategy t) = k" "list_all storable (tk_actions t)" "others_leave e k"
    and "distinct (map fst (pr_arguments p))" "\<forall>(n, v) \<in> set (pr_arguments p). argument_value v"
  shows "triple (\<lambda>s. checkpointed k (tk_actions t) (tk_version t) (wk_store s))
     (try_action e i spec t (legal_actions sim st) p) (step_kept k)"
proof (cases "validate_action_proposal p (legal_actions sim st) (tk_past t) (tk_usage t) (sy_budget (tk_strategy t))")
  case (Accepts a)
  have "triple (\<lambda>s. checkpointed k (tk_actions t) (tk_version t) (wk_store s)) (take_action e i spec t a) (step_kept k)"
    using assms accepted_storable [OF Accepts assms(4,5)] by (intro take_action_kept)
  then show ?thesis by (simp add: try_action_def Accepts)
next
  case (Declines kind)
  let ?t = "t\<lparr>tk_kinds := tk_kinds t @ [kind]\<rparr>"
  have "triple (\<lambda>s. checkpointed k (tk_actions ?t) (tk_version ?t) (wk_store s))
     (andthen (record_usage ?t (tk_usage ?t)) (\<lambda>t2. pure (Stops ILLEGAL_RETRY_EXHAUSTED None t2))) (step_kept k)"
    by (intro triple_record triple_pure) (simp add: found_kept_def)
  then show ?thesis
    by (auto simp: try_action_def Declines Let_def searching_at_def assms intro!: triple_pure)
qed (simp add: try_action_def triple_stuck)

lemma heed_reply_kept:
  assumes "sy_id (tk_strategy t) = k" "list_all storable (tk_actions t)" "typed_agent e" "others_leave e k"
  shows "triple (\<lambda>s. checkpointed k (tk_actions t) (tk_version t) (wk_store s))
     (heed_reply e i spec t (legal_actions sim st) (wr_propose e ctx kind n)) (step_kept k)"
proof (cases "gr_answer (wr_propose e ctx kind n)")
  case (Proposes p)
  let ?C = "\<lambda>s. checkpointed k (tk_actions t) (tk_version t) (wk_store s)"
  have over: "triple ?C (andthen (record_usage u usage) (\<lambda>t2. pure (Stops r None t2))) (step_kept k)" for u usage r
    by (intro triple_record triple_pure) (simp add: found_kept_def)
  have finish: "triple ?C (finish_search e spec (u\<lparr>tk_usage := usage\<rparr>) c) (step_kept k)"
    if "u = t\<lparr>tk_rejection := None\<rparr>" for u usage c
    using finish_search_kept [of "u\<lparr>tk_usage := usage\<rparr>" k e spec c] assms(1,2) that by simp
  have act: "triple ?C (try_action e i spec (u\<lparr>tk_usage := usage\<rparr>) (legal_actions sim st) a) (step_kept k)"
    if "p = Action_proposal a" "u = t\<lparr>tk_rejection := None\<rparr>" for u usage a
    using try_action_kept [of "u\<lparr>tk_usage := usage\<rparr>" k e a i spec sim st] assms Proposes that
    by (simp add: typed_agent_def)
  show ?thesis
    by (cases p) (simp_all add: heed_reply_def Proposes Let_def over finish act)
qed (simp_all add: heed_reply_def triple_stuck triple_pure found_kept_def)

lemma search_step_kept:
  assumes "searching_at k t s" "typed_agent e" "others_leave e k" "search_step e i spec started prior t s = (Inr x, s')"
  shows "step_kept k x s'"
proof -
  let ?C = "\<lambda>s. checkpointed k (tk_actions t) (tk_version t) (wk_store s)"
  have t: "sy_id (tk_strategy t) = k" "list_all storable (tk_actions t)" "?C s" using assms(1) by (simp_all add: searching_at_def)
  have stop: "triple ?C (pure (Stops r None u)) (step_kept k)" for r u
    by (rule triple_pure) (simp add: found_kept_def)
  have ask: "triple ?C (andthen (consult e ctx kind) (\<lambda>reply. andthen (waits e) (\<lambda>_.
      heed_reply e i spec (t\<lparr>tk_usage := usage\<rparr>) (legal_actions sim st) reply))) (step_kept k)" for ctx kind usage sim st
  proof -
    have "triple ?C (andthen (waits e) (\<lambda>_. heed_reply e i spec (t\<lparr>tk_usage := usage\<rparr>) (legal_actions sim st) (wr_propose e ctx kind n))) (step_kept k)" for n
      using heed_reply_kept [of "t\<lparr>tk_usage := usage\<rparr>" k e i spec sim st ctx kind n] t assms(2,3)
      by (intro triple_still others_retain) simp_all
    then show ?thesis by (auto simp: triple_def andthen_Inr consult_def)
  qed
  have "triple ?C (search_step e i spec started prior t) (step_kept k)"
    unfolding search_step_def Let_def
    by (intro triple_still [OF _ retains_still(4)] triple_still [OF _ retains_still(8)] triple_if stop)
      (auto intro!: triple_still [OF _ retains_still(8)] stop ask triple_stuck split: sum.splits)
  then show ?thesis using t(3) assms(4) by (auto simp: triple_def)
qed

lemma proposal_loop_kept:
  fixes e :: "'w surroundings"
  assumes "searching_at k t s" "typed_agent e" "others_leave e k"
    and "proposal_loop e i spec started prior t s = (Inr (reason, found, t'), s')"
  shows "found_kept k found s'"
proof -
  have "case proposal_loop e i spec started prior t s of (Inl x, s') \<Rightarrow> True | (Inr (r, c, t'), s') \<Rightarrow> found_kept k c s'"
  proof (rule proposal_loop_rule [where Q = "searching_at k", OF assms(1)])
    fix t and s :: "'w worker" assume "searching_at k t s"
    from search_step_kept [OF this assms(2,3)]
    show "case search_step e i spec started prior t s of (Inl x, s') \<Rightarrow> True
      | (Inr (Stops r c t'), s') \<Rightarrow> found_kept k c s' | (Inr (Goes_on t'), s') \<Rightarrow> searching_at k t' s'"
      by (force split: prod.splits sum.splits step_end.splits)
  qed
  then show ?thesis using assms(4) by simp
qed

section \<open>A strategy\<close>

lemma checkpointed_actions:
  assumes "checkpointed k acts n st" "list_all storable acts"
  shows "(case load_checkpoint st k of None \<Rightarrow> Some [] | Some c \<Rightarrow> checkpoint_actions (ck_state c)) = Some acts"
    and "(case load_checkpoint st k of None \<Rightarrow> 0 | Some c \<Rightarrow> ck_version c) = n"
  using assms those_actions_round_trip [OF assms(2)]
  by (auto simp: checkpointed_def load_checkpoint_def checkpoint_actions_def split: option.splits)

lemma triple_fact: "(\<And>s. P s \<Longrightarrow> b) \<Longrightarrow> (b \<Longrightarrow> triple P m Q) \<Longrightarrow> triple P m Q"
  unfolding triple_def by blast

lemma triple_reading:
  "(\<And>x. triple (\<lambda>s. P s \<and> f (wk_store s) = Inr x) (g x) Q) \<Longrightarrow> triple P (andthen (reading f) g) Q"
  by (auto simp: triple_def andthen_Inr)

lemma candidate_stays:
  "retains (candidate_kept k x) (storing (update_strategy y))"
  "retains (candidate_kept k x) (storing (\<lambda>st. (Inr (), append_event i type data now st)))"
  by (auto intro!: retains_storing simp: update_strategy_def candidate_kept_def)

lemma found_stays: "triple (found_kept k found) m (\<lambda>_. found_kept k found)"
  if "\<And>x. retains (candidate_kept k x) m"
  using that unfolding triple_def found_kept_def by (blast dest: retainsD)

lemma end_strategy_kept: "triple (found_kept k found) (end_strategy e i (reason, found, t)) (found_kept k)"
  unfolding end_strategy_def prod.case
  by (intro triple_andthen [OF found_stays] retains_still candidate_stays triple_pure)

lemma search_from_kept:
  assumes "list_all storable acts" "typed_agent e" "others_leave e (sy_id strategy)"
  shows "triple (\<lambda>s. checkpointed (sy_id strategy) acts n (wk_store s)) (search_from e i spec strategy acts n resumed)
     (found_kept (sy_id strategy))"
proof -
  let ?k = "sy_id strategy"
  let ?C = "\<lambda>s. checkpointed ?k acts n (wk_store s)"
  have "triple ?C (andthen (proposal_loop e i spec started prior (start_task strategy state acts snaps n)) (end_strategy e i)) (found_kept ?k)"
    for started prior state snaps
  proof (rule triple_andthen [where R = "\<lambda>x. found_kept ?k (fst (snd x))"])
    show "triple ?C (proposal_loop e i spec started prior (start_task strategy state acts snaps n)) (\<lambda>x. found_kept ?k (fst (snd x)))"
      using proposal_loop_kept [of ?k "start_task strategy state acts snaps n", OF _ assms(2,3)] assms(1)
      by (auto simp: triple_def searching_at_def start_task_def)
    show "triple (found_kept ?k (fst (snd x))) (end_strategy e i x) (found_kept ?k)" for x
      using end_strategy_kept [of ?k "fst (snd x)" e i "fst x" "snd (snd x)"] by simp
  qed
  then show ?thesis unfolding search_from_def
    by (intro triple_still [OF _ update_retains] triple_still [OF _ retains_still(4)])
qed

lemma search_strategy_kept:
  assumes "list_all storable acts" "typed_agent e" "others_leave e (sy_id strategy)"
  shows "triple (\<lambda>s. checkpointed (sy_id strategy) acts n (wk_store s)) (search_strategy e i spec strategy)
     (found_kept (sy_id strategy))"
  unfolding search_strategy_def
proof (rule triple_reading)
  fix saved
  let ?k = "sy_id strategy"
  let ?P = "\<lambda>s. checkpointed ?k acts n (wk_store s) \<and> Inr (load_checkpoint (wk_store s) ?k) = (Inr saved :: store_error + checkpoint option)"
  let ?n = "case saved of None \<Rightarrow> 0 | Some c \<Rightarrow> ck_version c"
  let ?acts = "case saved of None \<Rightarrow> Some [] | Some c \<Rightarrow> checkpoint_actions (ck_state c)"
  show "triple ?P (andthen (or_escape ?acts) (\<lambda>acts.
     andthen (or_escape (resume_state e (reference_simulator spec) acts (initial_state (reference_simulator spec)) (first_snapshots e spec)))
       (search_from e i spec strategy acts ?n))) (found_kept ?k)"
  proof (rule triple_fact)
    show "?P s \<Longrightarrow> ?acts = Some acts \<and> ?n = n" for s
      using checkpointed_actions [of ?k acts n "wk_store s"] assms(1) by auto
    assume saved: "?acts = Some acts \<and> ?n = n"
    have "triple ?P (search_from e i spec strategy acts n resumed) (found_kept ?k)" for resumed
      by (rule triple_mono [OF search_from_kept [OF assms]]) simp_all
    then show "triple ?P (andthen (or_escape ?acts) (\<lambda>acts.
       andthen (or_escape (resume_state e (reference_simulator spec) acts (initial_state (reference_simulator spec)) (first_snapshots e spec)))
         (search_from e i spec strategy acts ?n))) (found_kept ?k)"
      using saved by (intro triple_or_escape) auto
  qed
qed

text \<open>A pass that finds the run replaying takes up the kept candidate.\<close>

lemma kept_candidate_resumed:
  assumes "candidate_kept (sy_id strategy) x (wk_store s)"
  shows "candidate_of e i spec Replaying strategy (load_checkpoint (wk_store s) (sy_id strategy)) s = (Inr (Some x), s)"
  using assms
  by (cases x) (auto simp: candidate_kept_def candidate_of_def load_checkpoint_def resumed_candidate_def andthen_def or_escape_def pure_def)

end
