(* ===== verification/Worker_Demo.thy ===== *)
theory Worker_Demo
  imports Worker_Gateway Worker_Durable Oracle_Demo
begin

text \<open>
  Concrete passes of the worker: a run that crashed while replaying is taken up from its checkpoint,
  replayed on a sandbox with a planted defect and confirmed; a search from a checkpoint ends with a
  candidate; a run whose time is up ends without one.
\<close>

section \<open>Surroundings\<close>

definition quiet_surroundings ::
  "(rule_spec \<Rightarrow> sim_action list \<Rightarrow> invariant_id \<Rightarrow> string \<Rightarrow> string list option \<Rightarrow> 'w \<Rightarrow> replay_result option \<times> 'w)
   \<Rightarrow> rat \<Rightarrow> 'w surroundings" where
  "quiet_surroundings gateway now = \<lparr>
     wr_propose = \<lambda>_ _ _. \<lparr>gr_answer = Proposes (Stop_proposal (Some ENTITLEMENT_NON_NEGATIVE)), gr_calls = [], gr_last = None\<rparr>,
     wr_replay = gateway,
     wr_minimize = \<lambda>_ acts iid _ _ w. (Some \<lparr>mn_invariant = iid, mn_original = length acts, mn_actions = acts, mn_trials = 1,
       mn_one_minimal = False\<rparr>, w),
     wr_others = \<lambda>_. [], wr_now = \<lambda>_. now, wr_uid = \<lambda>_. ''id'', wr_fault = \<lambda>_ _. False, wr_hash = \<lambda>_. ''hash'',
     wr_digest = \<lambda>_. ''digest'', wr_spec_json = \<lambda>_. JNull, wr_usage_json = \<lambda>_. JNull, wr_call_info = \<lambda>_. (JNull, JNull)\<rparr>"

lemma quiet_simps [simp]:
  "wr_others (quiet_surroundings g now) k = []" "wr_now (quiet_surroundings g now) k = now"
  "wr_uid (quiet_surroundings g now) k = ''id''" "wr_fault (quiet_surroundings g now) p k = False"
  "wr_replay (quiet_surroundings g now) = g" "wr_digest (quiet_surroundings g now) x = ''digest''"
  "wr_minimize (quiet_surroundings g now) spec acts iid v axes w = (Some \<lparr>mn_invariant = iid, mn_original = length acts,
     mn_actions = acts, mn_trials = 1, mn_one_minimal = False\<rparr>, w)"
  "wr_spec_json (quiet_surroundings g now) spec = JNull"
  "wr_propose (quiet_surroundings g now) ctx kind k = \<lparr>gr_answer = Proposes (Stop_proposal (Some ENTITLEMENT_NON_NEGATIVE)),
     gr_calls = [], gr_last = None\<rparr>"
  by (simp_all add: quiet_surroundings_def)

lemma quiet_others: "others_honest (quiet_surroundings g now) i" "others_leave (quiet_surroundings g now) k"
  "typed_agent (quiet_surroundings g now)"
  by (simp_all add: others_honest_def others_leave_def typed_agent_def quiet_surroundings_def)

definition demo_budget :: budget where
  "demo_budget = \<lparr>bg_steps = 6, bg_tokens = 100, bg_cost = 1, bg_time = 10\<rparr>"

definition over_run :: "attack_status \<Rightarrow> attack_run" where
  "over_run status = \<lparr>ar_id = ''a'', ar_job = ''job'', ar_rule_version = ''1'', ar_scenario_version = ''1'',
     ar_sandbox_version = ''fixed'', ar_axes = [''ENTITLEMENT_OVERCONSUMPTION''], ar_oracle_version = ''1'', ar_status = status,
     ar_outcome = None, ar_budget = demo_budget, ar_seed = 0, ar_created = 0\<rparr>"

definition demo_strategy :: strategy_run where
  "demo_strategy = \<lparr>sy_id = ''s'', sy_run = ''a'', sy_type = VALUE_FLOW, sy_status = Strategy_completed, sy_budget = demo_budget,
     sy_usage = no_usage\<rparr>"

definition kept_state :: "sim_action list \<Rightarrow> json" where
  "kept_state acts = JObj [(''actions'', JList (map serialize_action acts)), (''candidate_invariant'', JStr ''ENTITLEMENT_NON_NEGATIVE'')]"

definition over_store :: "attack_status \<Rightarrow> sim_action list \<Rightarrow> runtime_store" where
  "over_store status acts = \<lparr>st_runs = [''a'' \<mapsto> over_run status], st_jobs = [''job'' \<mapsto> ''a''], st_strategies = [''s'' \<mapsto> demo_strategy],
     st_keys = [(''a'', VALUE_FLOW) \<mapsto> ''s''],
     st_checkpoints = [''s'' \<mapsto> \<lparr>ck_strategy = ''s'', ck_version = 3, ck_state = kept_state acts, ck_created = 0\<rparr>],
     st_events = Map.empty, st_counterexamples = []\<rparr>"

lemma over_trace_storable: "list_all storable over_trace"
  by (simp add: over_trace_def storable_def build_action_def build_parameters_def)

lemma kept_actions: "list_all storable acts \<Longrightarrow> checkpoint_actions (kept_state acts) = Some acts"
  by (simp add: kept_state_def checkpoint_actions_def those_actions_round_trip)

lemma kept_pending: "jget ''candidate_invariant'' (kept_state acts) = JStr ''ENTITLEMENT_NON_NEGATIVE''"
  "invariant_named ''ENTITLEMENT_NON_NEGATIVE'' = Some ENTITLEMENT_NON_NEGATIVE"
  using invariant_named_name [of ENTITLEMENT_NON_NEGATIVE] by (simp_all add: kept_state_def)

section \<open>Saving what was confirmed\<close>

definition keyed :: "runtime_store \<Rightarrow> string \<Rightarrow> bool" where
  "keyed st tail \<longleftrightarrow> (\<forall>c \<in> set (st_counterexamples st). cx_key c = cx_invariant c @ tail)"

lemma save_keyed:
  assumes "keyed st tail" "cx_key x = cx_invariant x @ tail"
  shows "keyed (snd (save_counterexample x st)) tail
    \<and> (\<exists>c \<in> set (counterexamples (snd (save_counterexample x st)) (cx_run x)). cx_invariant c = cx_invariant x)
    \<and> (\<exists>xs. st_counterexamples (snd (save_counterexample x st)) = st_counterexamples st @ xs)"
proof (cases "find (same_candidate x) (st_counterexamples st)")
  case (Some y)
  then have y: "y \<in> set (st_counterexamples st)" "cx_run y = cx_run x" "cx_key y = cx_key x"
    by (auto simp: find_Some_iff same_candidate_def)
  then have "cx_invariant y = cx_invariant x" using assms by (auto simp: keyed_def)
  then show ?thesis using y assms(1) Some by (auto simp: save_counterexample_def counterexamples_def)
qed (use assms in \<open>auto simp: save_counterexample_def counterexamples_def keyed_def\<close>)

lemma quiet_saves:
  fixes s :: "'w worker"
  assumes "keyed (wk_store s) (tail e acts)" "tail = (\<lambda>e acts. '':'' @ wr_digest e (json_text (JList (map (\<lambda>a. JStr (canonical_key a)) acts))))"
    and "e = quiet_surroundings g now"
  shows "\<exists>s'. save_confirmed e i spec run acts rp iids s = (Inr (), s') \<and> st_runs (wk_store s') = st_runs (wk_store s)
    \<and> st_events (wk_store s') = st_events (wk_store s)
    \<and> (\<forall>iid \<in> set iids. \<exists>c \<in> set (counterexamples (wk_store s') i). cx_invariant c = invariant_name iid)
    \<and> (\<exists>xs. st_counterexamples (wk_store s') = st_counterexamples (wk_store s) @ xs)"
  using assms(1)
proof (induction iids arbitrary: s)
  case (Cons iid iids)
  let ?x = "new_counterexample e i acts rp iid \<lparr>mn_invariant = iid, mn_original = length acts, mn_actions = acts, mn_trials = 1,
       mn_one_minimal = False\<rparr> ''id'' now"
  have x: "cx_key ?x = cx_invariant ?x @ tail e acts" "cx_run ?x = i" "cx_invariant ?x = invariant_name iid"
    by (simp_all add: new_counterexample_def candidate_key_def assms(2))
  define s1 where "s1 = s\<lparr>wk_store := snd (save_counterexample ?x (wk_store s)), wk_tick := wk_tick s + 3\<rparr>"
  have st1: "wk_store s1 = snd (save_counterexample ?x (wk_store s))" by (simp add: s1_def del: One_nat_def)
  have one: "save_confirmed e i spec run acts rp (iid # iids) s = save_confirmed e i spec run acts rp iids s1"
    by (cases s) (simp add: s1_def andthen_def asks_def waits_def fresh_uid_def the_time_def keep_counterexample_def storing_def assms(3)
        eval_nat_numeral)
  have saved: "keyed (wk_store s1) (tail e acts)"
    "\<exists>c \<in> set (counterexamples (wk_store s1) i). cx_invariant c = invariant_name iid"
    "\<exists>xs. st_counterexamples (wk_store s1) = st_counterexamples (wk_store s) @ xs"
    using save_keyed [OF Cons.prems x(1)] unfolding st1 x(2,3) by blast+
  have same: "st_runs (wk_store s1) = st_runs (wk_store s)" "st_events (wk_store s1) = st_events (wk_store s)"
    by (simp_all add: st1 save_counterexample_def split: option.splits)
  from Cons.IH [OF saved(1)] obtain s' where s': "save_confirmed e i spec run acts rp iids s1 = (Inr (), s')"
    "st_runs (wk_store s') = st_runs (wk_store s1)" "st_events (wk_store s') = st_events (wk_store s1)"
    "\<forall>iid \<in> set iids. \<exists>c \<in> set (counterexamples (wk_store s') i). cx_invariant c = invariant_name iid"
    "\<exists>xs. st_counterexamples (wk_store s') = st_counterexamples (wk_store s1) @ xs" by blast
  then have "set (counterexamples (wk_store s1) i) \<subseteq> set (counterexamples (wk_store s') i)"
    by (auto simp: counterexamples_def)
  then have "\<exists>c \<in> set (counterexamples (wk_store s') i). cx_invariant c = invariant_name iid" using saved(2) by blast
  moreover have "\<exists>xs. st_counterexamples (wk_store s') = st_counterexamples (wk_store s) @ xs"
    using s'(5) saved(3) by auto
  ultimately show ?case using s' one same by auto
qed (simp add: pure_def)

lemma quiet_confirms:
  fixes s :: "'w worker"
  assumes "st_runs (wk_store s) i = Some run0" "ar_status run0 = Replaying" "st_counterexamples (wk_store s) = []" "iid \<in> set iids"
  shows "\<exists>s' run' c. confirm_run (quiet_surroundings g now) i spec run acts rp iids s = (Inr Ends, s')
    \<and> st_runs (wk_store s') i = Some run' \<and> ar_outcome run' = Some Confirmed_violation
    \<and> c \<in> set (counterexamples (wk_store s') i) \<and> cx_invariant c = invariant_name iid"
proof -
  let ?tail = "\<lambda>e acts. '':'' @ wr_digest (e :: 'w surroundings) (json_text (JList (map (\<lambda>a. JStr (canonical_key a)) acts)))"
  have "keyed (wk_store s) (?tail (quiet_surroundings g now) acts)" using assms(3) by (simp add: keyed_def)
  from quiet_saves [OF this refl refl, of i spec run rp iids]
  obtain s2 c where s2: "save_confirmed (quiet_surroundings g now) i spec run acts rp iids s = (Inr (), s2)"
    "st_runs (wk_store s2) i = Some run0" and c: "c \<in> set (counterexamples (wk_store s2) i)" "cx_invariant c = invariant_name iid"
    using assms(1,4) by auto
  have "transition_allowed Replaying Run_completed" "Run_completed \<in> terminal_statuses"
    by (simp_all add: transition_allowed_def terminal_statuses_def)
  then show ?thesis
    using s2 c assms(2)
    by (simp add: confirm_run_def andthen_def faulty_def set_status_def the_time_def storing_def compare_and_set_status_def pure_def
        counterexamples_def) blast
qed

section \<open>A run confirmed after a crash\<close>

definition over_surroundings :: "(json \<Rightarrow> string) \<Rightarrow> world surroundings" where
  "over_surroundings D = quiet_surroundings (sandbox_gateway D (\<lambda>_ _. Some ''1'')) 0"

definition over_worker :: "world worker" where
  "over_worker = \<lparr>wk_store = over_store Replaying over_trace, wk_world = calm over_first 0, wk_tick = 0\<rparr>"

lemma over_names: "version_named ''fixed'' = Some FIXED"
  "axes_named (Some [''ENTITLEMENT_OVERCONSUMPTION'']) = Some (Some [ENTITLEMENT_OVERCONSUMPTION])"
  by (simp_all add: version_named_def axis_named_def)

lemma over_gateway: "sandbox_gateway D known spec acts target ''fixed'' (Some [''ENTITLEMENT_OVERCONSUMPTION'']) w
    = replay D known spec acts target FIXED (Some [ENTITLEMENT_OVERCONSUMPTION]) w"
  by (simp only: sandbox_gateway_def over_names option.case prod.case)

lemma judged_report:
  "judge_replay spec acts target i snaps receipts events = Some r
    \<Longrightarrow> \<exists>f. finding (rp_report r) target = Some f \<and> rp_classification r = classify_replay (fd_status f)"
  by (auto simp: judge_replay_def split: option.splits)

lemma confirmed_violated:
  assumes "replay D known spec acts target v axes w = (Some r, w')" "rp_classification r = CONFIRMED_VIOLATION"
  shows "target \<in> fd_invariant ` set (violations (rp_report r))"
proof -
  obtain snaps snap receipts events where "judge_replay spec acts target (rp_run r) (snaps @ [snap]) receipts events = Some r"
    using assms(1) by (rule replay_evidence)
  from judged_report [OF this] obtain f where "finding (rp_report r) target = Some f" "fd_status f = VIOLATED"
    using assms(2) by (auto simp: classify_replay_def split: if_splits)
  then have "f \<in> set (violations (rp_report r)) \<and> fd_invariant f = target"
    by (auto simp: finding_def violations_def find_Some_iff)
  then show ?thesis by force
qed

lemma over_confirmed:
  "\<exists>s' run c. run_attack (over_surroundings D) [VALUE_FLOW] ''a'' over_spec over_worker = (Inr (), s')
    \<and> st_runs (wk_store s') ''a'' = Some run \<and> ar_outcome run = Some Confirmed_violation
    \<and> c \<in> set (counterexamples (wk_store s') ''a'') \<and> cx_invariant c = ''ENTITLEMENT_NON_NEGATIVE''"
proof -
  obtain r w where r: "replay D (\<lambda>_ _. Some ''1'') over_spec over_trace ENTITLEMENT_NON_NEGATIVE FIXED (Some [ENTITLEMENT_OVERCONSUMPTION])
      (calm over_first 0) = (Some r, w)" "rp_classification r = CONFIRMED_VIOLATION"
    using over_replay by blast
  have found: "ENTITLEMENT_NON_NEGATIVE \<in> fd_invariant ` set (violations (rp_report r))"
    using r by (rule confirmed_violated)
  then have some: "violations (rp_report r) \<noteq> []" by auto
  let ?e = "over_surroundings D" and ?iids = "map fd_invariant (violations (rp_report r))"
  define s1 where "s1 = over_worker\<lparr>wk_world := w, wk_tick := 5\<rparr>"
  have turn: "strategy_turn ?e [VALUE_FLOW] ''a'' over_spec (over_run Replaying) (first_pass [VALUE_FLOW]) VALUE_FLOW over_worker
      = confirm_run ?e ''a'' over_spec (over_run Replaying) over_trace r ?iids s1"
    using r(1) some
    by (simp add: Let_def s1_def strategy_turn_def andthen_def the_time_def over_worker_def over_surroundings_def over_store_def over_run_def demo_budget_def
        reading_def storing_def is_cancel_requested_def get_run_def ensured_def strategy_budget_def remaining_budget_def first_pass_def no_usage_def
        min_viable_steps_def or_escape_def pure_def fresh_uid_def ensure_strategy_def load_checkpoint_def candidate_of_def pending_invariant_def
        kept_actions kept_pending over_trace_storable resumed_candidate_def demo_strategy_def take_candidate_def replay_candidate_def asks_def over_gateway
        axes_or_none_def waits_def faulty_def conclude_replay_def eval_nat_numeral)
  have s1: "st_runs (wk_store s1) ''a'' = Some (over_run Replaying)" "ar_status (over_run Replaying) = Replaying"
    "st_counterexamples (wk_store s1) = []" "ENTITLEMENT_NON_NEGATIVE \<in> set ?iids"
    using found by (simp_all add: s1_def over_worker_def over_store_def over_run_def)
  obtain s' run' c where s': "confirm_run ?e ''a'' over_spec (over_run Replaying) over_trace r ?iids s1 = (Inr Ends, s')"
    and rest: "st_runs (wk_store s') ''a'' = Some run'" "ar_outcome run' = Some Confirmed_violation"
      "c \<in> set (counterexamples (wk_store s') ''a'')" "cx_invariant c = invariant_name ENTITLEMENT_NON_NEGATIVE"
    using quiet_confirms [OF s1] unfolding over_surroundings_def by blast
  have first: "st_runs (wk_store over_worker) ''a'' = Some (over_run Replaying)" "st_counterexamples (wk_store over_worker) = []"
    by (simp_all add: over_worker_def over_store_def)
  have "run_attack ?e [VALUE_FLOW] ''a'' over_spec over_worker
      = andthen (strategy_turn ?e [VALUE_FLOW] ''a'' over_spec (over_run Replaying) (first_pass [VALUE_FLOW]) VALUE_FLOW) (\<lambda>_. pure ()) over_worker"
    by (simp add: run_attack_def andthen_def reading_def storing_def get_run_def first s1(2) admit_def pure_def
        counterexamples_def guarded_def search_all_def strategies_def turn s')
  then show ?thesis using turn s' rest by (auto simp: andthen_def pure_def)
qed

section \<open>A search that ends with a candidate\<close>

definition first_worker :: "world worker" where
  "first_worker = \<lparr>wk_store = over_store Searching (take 1 over_trace), wk_world = calm over_first 0, wk_tick = 0\<rparr>"

lemma first_checkpointed:
  "checkpointed (sy_id demo_strategy) (take 1 over_trace) 3 (wk_store first_worker)" "list_all storable (take 1 over_trace)"
  using over_trace_storable by (simp_all add: checkpointed_def first_worker_def over_store_def demo_strategy_def kept_state_def over_trace_def)

definition first_state :: sim_state where
  "first_state = \<lparr>ss_scenario = MEMBERSHIP_ENTITLEMENT, ss_users = [\<lparr>su_id = ''user-1'', su_balance = 100, su_currency = CNY, su_points = 0,
     su_membership = SimNone, su_new = True\<rparr>], ss_coupons = [], ss_orders = [], ss_memberships = [], ss_entitlements = [],
     ss_seen = {(CREATE_USER, ''k1'')}\<rparr>"

lemma first_transition:
  "map_option tn_state (transition (reference_simulator over_spec) (initial_state (reference_simulator over_spec)) (hd over_trace))
    = Some first_state"
  by code_simp

lemma first_resumed:
  "\<exists>snaps. resume_state e (reference_simulator over_spec) (take 1 over_trace) (initial_state (reference_simulator over_spec)) first
     = Some (first_state, snaps)"
  using first_transition by (auto simp: over_trace_def)

lemma first_offers: "legal_actions (reference_simulator over_spec) first_state \<noteq> []"
  by code_simp

lemma state_keys: "list_all (\<lambda>k. lower_text k \<notin> forbidden_context_keys)
  [''balance'', ''currency'', ''is_new_user'', ''membership_status'', ''points_balance'', ''user_id'', ''coupon_id'', ''face_value'', ''owner_id'', ''reserved_order_id'', ''status'', ''threshold'', ''usage_count'', ''used_order_id'', ''discount_amount'', ''order_id'', ''original_amount'', ''paid_amount'', ''points_granted'', ''points_revoked'', ''refund_count'', ''refunded_amount'', ''membership_id'', ''consumed'', ''entitlement_id'', ''granted'', ''revoked'', ''coupons'', ''entitlements'', ''memberships'', ''orders'', ''scenario_type'', ''users'']"
  by code_simp

lemma normalized_safe: "context_safe (normalized st)"
  using state_keys
  by (auto simp: normalized_def sim_user_json_def sim_coupon_json_def sim_order_json_def sim_membership_json_def sim_entitlement_json_def
      opt_text_def split: option.splits)

lemma first_finish:
  assumes "st_strategies (wk_store s) (sy_id (tk_strategy t)) \<noteq> None" "st_checkpoints (wk_store s) (sy_id (tk_strategy t)) \<noteq> None"
    and "tk_actions t \<noteq> []"
  shows "\<exists>t' s'. finish_search (quiet_surroundings g 0) over_spec t (Some ENTITLEMENT_NON_NEGATIVE) s
      = (Inr (Stops CANDIDATE_FOUND (Some (tk_actions t, ENTITLEMENT_NON_NEGATIVE)) t'), s')
    \<and> st_strategies (wk_store s') (sy_id (tk_strategy t')) \<noteq> None"
  using assms
  by (auto simp: finish_search_def record_usage_def Let_def andthen_def storing_def update_strategy_def pure_def over_spec_def
      save_candidate_def reading_def load_checkpoint_def or_escape_def the_time_def save_checkpoint_def)

lemma first_step:
  assumes "sy_budget (tk_strategy t) = demo_budget" "tk_usage t = no_usage" "tk_state t = first_state" "tk_actions t \<noteq> []"
    and "st_runs (wk_store s) i = Some run" "ar_status run \<noteq> Cancel_requested"
    and "st_strategies (wk_store s) (sy_id (tk_strategy t)) \<noteq> None" "st_checkpoints (wk_store s) (sy_id (tk_strategy t)) \<noteq> None"
  shows "\<exists>t' s'. search_step (quiet_surroundings g 0) i over_spec 0 0 t s
      = (Inr (Stops CANDIDATE_FOUND (Some (tk_actions t, ENTITLEMENT_NON_NEGATIVE)) t'), s')
    \<and> st_strategies (wk_store s') (sy_id (tk_strategy t')) \<noteq> None"
proof -
  let ?u = "t\<lparr>tk_rejection := None, tk_usage := no_usage\<rparr>" and ?s = "s\<lparr>wk_tick := wk_tick s + 2\<rparr>"
  have "search_step (quiet_surroundings g 0) i over_spec 0 0 t s
    = finish_search (quiet_surroundings g 0) over_spec ?u (Some ENTITLEMENT_NON_NEGATIVE) ?s"
    using assms first_offers normalized_safe [of first_state]
    by (simp add: search_step_def andthen_def the_time_def Let_def usage_within_def no_usage_def demo_budget_def reading_def storing_def
        is_cancel_requested_def get_run_def build_agent_context_def consult_def waits_def heed_reply_def tokens_of_def cost_of_def)
  moreover have "\<exists>t' s'. finish_search (quiet_surroundings g 0) over_spec ?u (Some ENTITLEMENT_NON_NEGATIVE) ?s
      = (Inr (Stops CANDIDATE_FOUND (Some (tk_actions ?u, ENTITLEMENT_NON_NEGATIVE)) t'), s')
    \<and> st_strategies (wk_store s') (sy_id (tk_strategy t')) \<noteq> None"
    by (rule first_finish) (use assms in simp_all)
  ultimately show ?thesis by simp
qed

lemma first_search:
  "\<exists>s'. search_strategy (over_surroundings D) ''a'' over_spec demo_strategy first_worker
     = (Inr (Some (take 1 over_trace, ENTITLEMENT_NON_NEGATIVE)), s')"
proof -
  let ?e = "over_surroundings D"
  obtain snaps where snaps: "resume_state ?e (reference_simulator over_spec) (take 1 over_trace)
      (initial_state (reference_simulator over_spec)) (first_snapshots ?e over_spec) = Some (first_state, snaps)"
    using first_resumed by blast
  let ?t = "start_task demo_strategy first_state (take 1 over_trace) snaps 3"
  let ?s = "first_worker\<lparr>wk_store := (wk_store first_worker)\<lparr>st_strategies := [''s'' \<mapsto> demo_strategy\<lparr>sy_status := Strategy_searching\<rparr>]\<rparr>, wk_tick := 1\<rparr>"
  have "take 1 over_trace \<noteq> []" by (simp add: over_trace_def)
  then obtain t' s' where step: "search_step ?e ''a'' over_spec 0 0 ?t ?s
      = (Inr (Stops CANDIDATE_FOUND (Some (take 1 over_trace, ENTITLEMENT_NON_NEGATIVE)) t'), s')"
    and there: "st_strategies (wk_store s') (sy_id (tk_strategy t')) \<noteq> None"
    using first_step [of ?t ?s "''a''" "over_run Searching" "sandbox_gateway D (\<lambda>_ _. Some ''1'')"] unfolding over_surroundings_def
    by (auto simp: start_task_def demo_strategy_def first_worker_def over_store_def over_run_def)
  have "search_strategy ?e ''a'' over_spec demo_strategy first_worker = andthen (proposal_loop ?e ''a'' over_spec 0 0 ?t) (end_strategy ?e ''a'') ?s"
    using snaps kept_actions [OF first_checkpointed(2)]
    by (simp add: search_strategy_def andthen_def reading_def storing_def load_checkpoint_def first_worker_def over_store_def demo_strategy_def
        or_escape_def pure_def search_from_def update_strategy_def the_time_def no_usage_def over_surroundings_def)
  moreover have "proposal_loop ?e ''a'' over_spec 0 0 ?t ?s
      = (Inr (CANDIDATE_FOUND, Some (take 1 over_trace, ENTITLEMENT_NON_NEGATIVE), t'), s')"
    unfolding proposal_loop.simps [of ?e "''a''" over_spec 0 0 ?t ?s] step by simp
  ultimately show ?thesis
    using there
    by (auto simp: andthen_def end_strategy_def the_time_def storing_def
        update_strategy_def append_event_def pure_def)
qed

section \<open>A run whose time is up\<close>

definition late_requests :: "store_request list" where
  "late_requests = [Create_run ''job'' ''1'' ''1'' ''fixed'' ''1'' demo_budget 0 [] \<lparr>sp_uid = ''a'', sp_now = 0\<rparr>]"

definition late_worker :: "world worker" where
  "late_worker = \<lparr>wk_store = stored late_requests, wk_world = calm over_first 0, wk_tick = 0\<rparr>"

lemma late_run:
  "\<exists>s' run. run_attack (quiet_surroundings g 10) [VALUE_FLOW] ''a'' over_spec late_worker = (Inr (), s')
    \<and> st_runs (wk_store late_worker) ''a'' = Some run \<and> ar_status run = Ready
    \<and> (\<exists>run'. st_runs (wk_store s') ''a'' = Some run' \<and> ar_outcome run' = Some No_violation_within_budget)"
  by (simp add: late_worker_def late_requests_def stored_def store_create_def empty_store_def Let_def append_event_def events_of_def
      run_attack_def andthen_def reading_def storing_def get_run_def admit_def or_escape_def pure_def remaining_budget_def demo_budget_def
      min_viable_steps_def no_usage_def set_status_def the_time_def compare_and_set_status_def transition_allowed_def
      terminal_statuses_def counterexamples_def guarded_def search_all_def strategies_def strategy_turn_def first_pass_def)

end
