(* ===== verification/Worker_Budget.thy ===== *)
theory Worker_Budget
  imports Worker_Run
begin

text \<open>
  Budgets: how the run's steps are shared among its strategies, and that a search keeps to its share.
\<close>

section \<open>Shares\<close>

text \<open>Usages of the strategies in turn, each within the share it was given.\<close>

fun obeys :: "budget \<Rightarrow> budget_usage \<Rightarrow> budget_usage list \<Rightarrow> bool" where
  "obeys b used [] \<longleftrightarrow> True"
| "obeys b used (u # us) \<longleftrightarrow>
     (\<forall>share. remaining_budget b used (int (length (u # us))) = Some share \<longrightarrow> 0 \<le> ug_steps u \<and> ug_steps u \<le> bg_steps share)
     \<and> obeys b (add_usage used u) us"

fun shares :: "budget \<Rightarrow> budget_usage \<Rightarrow> budget_usage list \<Rightarrow> budget option list" where
  "shares b used [] = []"
| "shares b used (u # us) = remaining_budget b used (int (length (u # us))) # shares b (add_usage used u) us"

lemma remaining_budget_Some:
  assumes "0 < parts" "min_viable_steps * parts \<le> bg_steps b - ug_steps used"
  shows "\<exists>share. remaining_budget b used parts = Some share \<and> bg_steps share = (bg_steps b - ug_steps used) div parts
    \<and> min_viable_steps \<le> bg_steps share"
proof -
  have "min_viable_steps * parts div parts \<le> (bg_steps b - ug_steps used) div parts"
    using assms by (intro zdiv_mono1) simp_all
  then show ?thesis using assms by (auto simp: remaining_budget_def Let_def max_def)
qed

lemma share_leaves:
  fixes n m u :: int
  assumes "0 < n" "c * (n + 1) \<le> m" "u \<le> m div (n + 1)"
  shows "c * n \<le> m - u"
proof -
  have "u * (n + 1) \<le> m div (n + 1) * (n + 1)" using assms by (intro mult_right_mono) simp_all
  also have "\<dots> \<le> m" using assms(1) by (metis div_mult_mod_eq le_add_same_cancel1 pos_mod_sign zero_less_one add_pos_pos)
  finally have u: "u * (n + 1) \<le> m" .
  show ?thesis
  proof (cases "u \<le> c")
    case True
    then show ?thesis using assms(2) by (simp add: algebra_simps)
  next
    case False
    then have "c * n \<le> u * n" using assms(1) by (intro mult_right_mono) simp_all
    then show ?thesis using u by (simp add: algebra_simps)
  qed
qed

lemma shares_viable:
  assumes "min_viable_steps * int (length us) \<le> bg_steps b - ug_steps used" "obeys b used us"
  shows "(\<forall>x \<in> set (shares b used us). \<exists>share. x = Some share \<and> min_viable_steps \<le> bg_steps share)
    \<and> ug_steps (foldl add_usage used us) \<le> bg_steps b"
  using assms
proof (induction us arbitrary: used)
  case Nil
  then show ?case by simp
next
  case (Cons u us)
  obtain share where share: "remaining_budget b used (int (length (u # us))) = Some share"
    "bg_steps share = (bg_steps b - ug_steps used) div int (length (u # us))" "min_viable_steps \<le> bg_steps share"
    using remaining_budget_Some [of "int (length (u # us))" b used] Cons.prems(1) by auto
  have u: "ug_steps u \<le> (bg_steps b - ug_steps used) div int (length (u # us))" "obeys b (add_usage used u) us"
    using Cons.prems(2) share by simp_all
  have "min_viable_steps * int (length us) \<le> bg_steps b - ug_steps (add_usage used u)"
  proof (cases us)
    case Nil
    then show ?thesis using u(1) by (simp add: add_usage_def)
  next
    case Cons
    then show ?thesis
      using share_leaves [of "int (length us)" min_viable_steps "bg_steps b - ug_steps used" "ug_steps u"] Cons.prems(1) u(1)
      by (simp add: add_usage_def algebra_simps)
  qed
  from Cons.IH [OF this u(2)] share show ?case by simp
qed

section \<open>A search keeps to its share\<close>

definition in_share :: "budget \<Rightarrow> int \<Rightarrow> search_task \<Rightarrow> bool" where
  "in_share b n t \<longleftrightarrow> sy_budget (tk_strategy t) = b \<and> ug_steps (tk_usage t) \<le> bg_steps b
     \<and> ug_steps (sy_usage (tk_strategy t)) \<le> ug_steps (tk_usage t) \<and> int (length (tk_actions t)) = n + ug_steps (tk_usage t)"

fun stays :: "budget \<Rightarrow> int \<Rightarrow> step_end \<Rightarrow> bool" where
  "stays b n (Goes_on t) \<longleftrightarrow> in_share b n t"
| "stays b n (Stops reason found t) \<longleftrightarrow> in_share b n t \<and> (\<forall>x. found = Some x \<longrightarrow> fst x = tk_actions t)"

lemma judge_trace_stays: "in_share b n t \<Longrightarrow> yields (stays b n) (judge_trace e spec t)"
  unfolding judge_trace_def by (intro yields_or_escape yields_list yields_andthen yields_pure) simp_all

lemma take_action_stays:
  assumes "in_share b n t" "ug_steps (tk_usage t) < bg_steps b"
  shows "yields (stays b n) (take_action e i spec t a)"
  unfolding take_action_def Let_def
  by (intro yields_or_escape yields_record_usage yields_andthen judge_trace_stays) (use assms in \<open>simp add: acted_def in_share_def\<close>)

lemma try_action_stays:
  assumes "in_share b n t"
  shows "yields (stays b n) (try_action e i spec t legal p)"
proof (cases "validate_action_proposal p legal (tk_past t) (tk_usage t) (sy_budget (tk_strategy t))")
  case (Accepts a)
  then show ?thesis using assms validate_step [OF Accepts] take_action_stays [OF assms]
    by (simp add: try_action_def in_share_def)
next
  case (Declines k)
  show ?thesis unfolding try_action_def Let_def Declines proposal_verdict.case
    by (intro yields_if yields_pure yields_record_usage) (use assms in \<open>simp_all add: in_share_def\<close>)
qed (simp add: try_action_def yields_escape)

lemma finish_search_stays: "in_share b n t \<Longrightarrow> yields (stays b n) (finish_search e spec t c)"
  unfolding finish_search_def
  by (intro yields_record_usage) (auto simp: in_share_def split: option.splits intro!: yields_rules intro: yields_andthen yields_pure)

lemma heed_reply_stays: "in_share b n t \<Longrightarrow> yields (stays b n) (heed_reply e i spec t legal reply)"
  unfolding heed_reply_def Let_def
  by (intro yields_pure yields_escape yields_if yields_record_usage yields_answer yields_proposal finish_search_stays try_action_stays)
    (simp_all add: in_share_def)

lemma search_step_stays: "in_share b n t \<Longrightarrow> yields (stays b n) (search_step e i spec started prior t)"
  unfolding search_step_def Let_def
  by (intro yields_pure yields_escape yields_if yields_sum yields_andthen heed_reply_stays) (simp_all add: in_share_def)

lemma proposal_loop_stays:
  fixes s :: "'w worker"
  assumes "in_share b n t" "proposal_loop e i spec started prior t s = (Inr (reason, found, t'), s')"
  shows "in_share b n t' \<and> (\<forall>x. found = Some x \<longrightarrow> fst x = tk_actions t')"
proof -
  have "case proposal_loop e i spec started prior t s of (Inl x, s') \<Rightarrow> True
    | (Inr (r, c, t'), s') \<Rightarrow> in_share b n t' \<and> (\<forall>x. c = Some x \<longrightarrow> fst x = tk_actions t')"
  proof (rule proposal_loop_rule [where Q = "\<lambda>t s. in_share b n t"])
    fix t and s :: "'w worker" assume "in_share b n t"
    from yieldsD [OF search_step_stays [OF this]]
    show "case search_step e i spec started prior t s of (Inl x, s') \<Rightarrow> True
      | (Inr (Stops r c t'), s') \<Rightarrow> in_share b n t' \<and> (\<forall>x. c = Some x \<longrightarrow> fst x = tk_actions t')
      | (Inr (Goes_on t'), s') \<Rightarrow> in_share b n t'"
      by (force split: prod.splits sum.splits step_end.splits)
  qed (rule assms(1))
  then show ?thesis using assms(2) by simp
qed

end
