(* ===== verification/Worker_Properties.thy ===== *)
theory Worker_Properties
  imports Worker_Demo Worker_Budget
begin

text \<open>
  What the attack runtime promises: the log of every run replays to its status, a pass of the worker
  only appends to it, a confirmation comes with the evidence of a replay, a candidate survives a crash,
  and where the promise ends.
\<close>

section \<open>The log\<close>

lemma status_text_inj: "status_text s = status_text t \<Longrightarrow> s = t"
  by (cases s; cases t) simp_all

inductive_cases walks_ConsE: "walks s (d # ds) t"
inductive_cases walks_NilE: "walks s [] t"

lemma status_change_inj: "status_change s u out = status_change s' u' out' \<Longrightarrow> u = u'"
  by (auto simp: status_change_def dest: status_text_inj)

lemma walks_rest: "walks s ds t \<Longrightarrow> walks s (ds @ es) u \<Longrightarrow> walks t es u"
proof (induction rule: walks.induct)
  case (change s u' ds t out)
  from change.prems obtain v where "walks v (ds @ es) u" "v = u'"
    by (auto elim!: walks_ConsE dest: status_change_inj)
  then show ?case using change.IH by blast
qed simp

lemma status_changes_append: "status_changes (es @ fs) = status_changes es @ status_changes fs"
  by (simp add: status_changes_def)

text \<open>C22: whatever sequence of operations the store of attack runs is sent, refused ones included, the
  status changes logged for a run replay along allowed transitions from READY to its status, the
  cursors of its events are gapless, an outcome goes with a terminal status exactly, a job has one
  run, and no candidate of a run is stored twice.\<close>

theorem attack_log_replays:
  assumes "st_runs (stored reqs) i = Some r"
  shows "walks Ready (status_changes (events_of (stored reqs) i)) (ar_status r)
    \<and> map rv_cursor (events_of (stored reqs) i) = [1..<Suc (length (events_of (stored reqs) i))]
    \<and> (ar_outcome r \<noteq> None \<longleftrightarrow> ar_status r \<in> terminal_statuses)
    \<and> st_jobs (stored reqs) (ar_job r) = Some i
    \<and> distinct (map (\<lambda>x. (cx_run x, cx_key x)) (st_counterexamples (stored reqs)))"
  using stored_ok [of reqs] assms by (auto simp: store_ok_def run_entry_ok_def log_ok_def)

theorem attack_log_replays_witness:
  "\<exists>r. st_runs (stored late_requests) ''a'' = Some r
    \<and> walks Ready (status_changes (events_of (stored late_requests) ''a'')) (ar_status r)"
proof -
  obtain r where r: "st_runs (stored late_requests) ''a'' = Some r"
    using late_run by (auto simp: late_worker_def)
  then show ?thesis using attack_log_replays [OF r] by blast
qed

text \<open>C21: a pass of the worker, whatever the agents, the gateway and the rest of the runtime do and
  whether it returns, raises or crashes, only appends to the log of a run, and what it appends leads
  along allowed transitions from the status before to the status after; a completed or cancelled run
  stays as it is, and counterexamples are never lost.\<close>

theorem pass_follows_the_machine:
  assumes "wk_store s = stored reqs" "st_runs (wk_store s) j = Some r" "run_attack e searching i spec s = (x, s')"
  shows "\<exists>r' es xs. st_runs (wk_store s') j = Some r'
    \<and> events_of (wk_store s') j = events_of (wk_store s) j @ es \<and> walks (ar_status r) (status_changes es) (ar_status r')
    \<and> (ar_outcome r' \<noteq> None \<longleftrightarrow> ar_status r' \<in> terminal_statuses)
    \<and> (ar_status r \<in> {Run_completed, Run_cancelled} \<longrightarrow> r' = r)
    \<and> st_counterexamples (wk_store s') = st_counterexamples (wk_store s) @ xs"
proof -
  have ok: "store_ok (wk_store s)" using stored_ok assms(1) by simp
  then have later: "store_ok (wk_store s')" "store_later (wk_store s) (wk_store s')"
    using pass_consistent [OF ok, of e searching i spec] assms(3) by simp_all
  then obtain r' es xs where r': "st_runs (wk_store s') j = Some r'" "run_later r r'"
    and es: "events_of (wk_store s') j = events_of (wk_store s) j @ es"
    and xs: "st_counterexamples (wk_store s') = st_counterexamples (wk_store s) @ xs"
    using assms(2) unfolding store_later_def by blast
  have before: "walks Ready (status_changes (events_of (wk_store s) j)) (ar_status r)"
    using ok assms(2) by (auto simp: store_ok_def run_entry_ok_def log_ok_def)
  have after: "walks Ready (status_changes (events_of (wk_store s') j)) (ar_status r')"
    "ar_outcome r' \<noteq> None \<longleftrightarrow> ar_status r' \<in> terminal_statuses"
    using later(1) r'(1) by (auto simp: store_ok_def run_entry_ok_def log_ok_def)
  from walks_rest [OF before after(1) [unfolded es status_changes_append]]
  have "walks (ar_status r) (status_changes es) (ar_status r')" .
  moreover have "ar_status r \<in> {Run_completed, Run_cancelled} \<longrightarrow> r' = r"
    using r'(2) unfolding run_later_def by (rule conjunct2)
  ultimately show ?thesis using r'(1) es xs after(2) by blast
qed

theorem pass_follows_the_machine_witness:
  "\<exists>s' r' es. run_attack (quiet_surroundings (sandbox_gateway demo_digest (\<lambda>_ _. None)) 10) [VALUE_FLOW] ''a'' over_spec late_worker = (Inr (), s')
    \<and> st_runs (wk_store s') ''a'' = Some r' \<and> ar_outcome r' = Some No_violation_within_budget
    \<and> walks Ready (status_changes es) (ar_status r')"
proof -
  obtain s' run run' where s': "run_attack (quiet_surroundings (sandbox_gateway demo_digest (\<lambda>_ _. None)) 10) [VALUE_FLOW] ''a'' over_spec late_worker = (Inr (), s')"
    and run: "st_runs (wk_store late_worker) ''a'' = Some run" "ar_status run = Ready"
    and run': "st_runs (wk_store s') ''a'' = Some run'" "ar_outcome run' = Some No_violation_within_budget"
    using late_run by blast
  have "wk_store late_worker = stored late_requests" by (simp add: late_worker_def)
  from pass_follows_the_machine [OF this run(1) s'] run(2) run' s' show ?thesis by auto
qed

section \<open>Evidence\<close>

text \<open>C20: if only the worker confirms a run and saves counterexamples for it, a run is confirmed only
  with a counterexample at hand, and every counterexample of the run names an invariant that the
  oracle found violated in the report of a replay of exactly its trace, on the run's version of the
  sandbox with the run's defects; the hint of the model plays no part.\<close>

theorem confirmed_with_evidence:
  assumes "others_honest e i"
    and "st_runs (wk_store s) i = Some run" "ar_outcome run = None" "counterexamples (wk_store s) i = []"
    and "run_attack e searching i spec s = (x, s')" "st_runs (wk_store s') i = Some run'"
  shows "(ar_outcome run' = Some Confirmed_violation \<longrightarrow> counterexamples (wk_store s') i \<noteq> [])
    \<and> (\<forall>c \<in> set (counterexamples (wk_store s') i). evidenced e (ar_sandbox_version run) (ar_axes run) c)"
proof -
  have "evidence_ok e i (ar_sandbox_version run) (ar_axes run) (wk_store s)"
    using assms(2-4) by (simp add: evidence_ok_def)
  then have "evidence_ok e i (ar_sandbox_version run) (ar_axes run) (wk_store s')"
    using pass_evidence [OF assms(1), of _ _ s searching spec] assms(5) by simp
  then show ?thesis using assms(6) by (simp add: evidence_ok_def)
qed

lemma over_fresh: "st_runs (wk_store over_worker) ''a'' = Some (over_run Replaying)" "ar_outcome (over_run Replaying) = None"
  "counterexamples (wk_store over_worker) ''a'' = []"
  by (simp_all add: over_worker_def over_store_def over_run_def counterexamples_def)

theorem confirmed_with_evidence_witness:
  "\<exists>s' c. run_attack (over_surroundings demo_digest) [VALUE_FLOW] ''a'' over_spec over_worker = (Inr (), s')
    \<and> c \<in> set (counterexamples (wk_store s') ''a'')
    \<and> evidenced (over_surroundings demo_digest) ''fixed'' [''ENTITLEMENT_OVERCONSUMPTION''] c"
proof -
  obtain s' run c where s': "run_attack (over_surroundings demo_digest) [VALUE_FLOW] ''a'' over_spec over_worker = (Inr (), s')"
    and run: "st_runs (wk_store s') ''a'' = Some run" and c: "c \<in> set (counterexamples (wk_store s') ''a'')"
    using over_confirmed by blast
  have "others_honest (over_surroundings demo_digest) ''a''" by (simp add: over_surroundings_def quiet_others)
  from confirmed_with_evidence [OF this over_fresh s' run] s' c show ?thesis by (auto simp: over_run_def)
qed

section \<open>The planted defect\<close>

lemma invariant_names:
  "invariant_name f = ''NET_PAID_NON_NEGATIVE'' \<longleftrightarrow> f = NET_PAID_NON_NEGATIVE"
  "invariant_name f = ''REFUND_NOT_EXCEED_PAID'' \<longleftrightarrow> f = REFUND_NOT_EXCEED_PAID"
  "invariant_name f = ''ENTITLEMENT_NON_NEGATIVE'' \<longleftrightarrow> f = ENTITLEMENT_NON_NEGATIVE"
  by (cases f; simp)+

text \<open>C19: on the real gateway, from a language model's guess to the stored counterexample: a run of the
  worker stores a counterexample for a payment invariant or for the entitlement invariant only if the
  sandbox profile of the run injects the defect behind it, whatever traces the agents propose, whatever
  the network does and at whatever point the run was crashed and resumed.\<close>

theorem counterexamples_need_the_defect:
  assumes "others_honest e i" "wr_replay e = sandbox_gateway D known"
    and "st_runs (wk_store s) i = Some run" "ar_outcome run = None" "counterexamples (wk_store s) i = []"
    and "run_attack e searching i spec s = (x, s')"
  shows "\<forall>c \<in> set (counterexamples (wk_store s') i). \<exists>version defects.
      version_named (ar_sandbox_version run) = Some version \<and> axes_named (axes_or_none (ar_axes run)) = Some defects
    \<and> (cx_invariant c \<in> {''NET_PAID_NON_NEGATIVE'', ''REFUND_NOT_EXCEED_PAID''}
        \<longrightarrow> REFUND_AGAINST_ORIGINAL \<in> profile_for_run version defects)
    \<and> (cx_invariant c = ''ENTITLEMENT_NON_NEGATIVE'' \<longrightarrow> ENTITLEMENT_OVERCONSUMPTION \<in> profile_for_run version defects)"
proof
  fix c assume c: "c \<in> set (counterexamples (wk_store s') i)"
  have "evidence_ok e i (ar_sandbox_version run) (ar_axes run) (wk_store s)"
    using assms(3-5) by (simp add: evidence_ok_def)
  then have "evidence_ok e i (ar_sandbox_version run) (ar_axes run) (wk_store s')"
    using pass_evidence [OF assms(1), of _ _ s searching spec] assms(6) by simp
  then have "evidenced e (ar_sandbox_version run) (ar_axes run) c" using c by (simp add: evidence_ok_def)
  then obtain spec' acts target w rp w' f where
    "sandbox_gateway D known spec' acts target (ar_sandbox_version run) (axes_or_none (ar_axes run)) w = (Some rp, w')"
    "f \<in> set (rp_report rp)" "fd_status f = VIOLATED" "cx_invariant c = invariant_name (fd_invariant f)"
    unfolding evidenced_def assms(2) by blast
  from finding_defect [OF this(1-3)] this(4) show "\<exists>version defects.
      version_named (ar_sandbox_version run) = Some version \<and> axes_named (axes_or_none (ar_axes run)) = Some defects
    \<and> (cx_invariant c \<in> {''NET_PAID_NON_NEGATIVE'', ''REFUND_NOT_EXCEED_PAID''}
        \<longrightarrow> REFUND_AGAINST_ORIGINAL \<in> profile_for_run version defects)
    \<and> (cx_invariant c = ''ENTITLEMENT_NON_NEGATIVE'' \<longrightarrow> ENTITLEMENT_OVERCONSUMPTION \<in> profile_for_run version defects)"
    by (auto simp: invariant_names)
qed

theorem counterexamples_need_the_defect_witness:
  "\<exists>s' c. run_attack (over_surroundings demo_digest) [VALUE_FLOW] ''a'' over_spec over_worker = (Inr (), s')
    \<and> c \<in> set (counterexamples (wk_store s') ''a'') \<and> cx_invariant c = ''ENTITLEMENT_NON_NEGATIVE''
    \<and> ENTITLEMENT_OVERCONSUMPTION \<in> profile_for_run FIXED (Some [ENTITLEMENT_OVERCONSUMPTION])"
proof -
  obtain s' c where s': "run_attack (over_surroundings demo_digest) [VALUE_FLOW] ''a'' over_spec over_worker = (Inr (), s')"
    and c: "c \<in> set (counterexamples (wk_store s') ''a'')" "cx_invariant c = ''ENTITLEMENT_NON_NEGATIVE''"
    using over_confirmed by blast
  have e: "others_honest (over_surroundings demo_digest) ''a''"
    "wr_replay (over_surroundings demo_digest) = sandbox_gateway demo_digest (\<lambda>_ _. Some ''1'')"
    by (simp_all add: over_surroundings_def quiet_others)
  have run: "version_named (ar_sandbox_version (over_run Replaying)) = Some FIXED"
    "axes_named (axes_or_none (ar_axes (over_run Replaying))) = Some (Some [ENTITLEMENT_OVERCONSUMPTION])"
    using over_names by (simp_all only: over_run_def attack_run.select_convs axes_or_none_def) simp
  from counterexamples_need_the_defect [OF e over_fresh s'] c run s' show ?thesis by fastforce
qed

section \<open>Candidates\<close>

text \<open>C23: the candidate a search returns is the one its checkpoint holds: a pass that finds the run
  replaying after a crash takes up the same actions and the same invariant, provided the agent's
  arguments are of the types a proposal allows and nobody else writes the strategy's checkpoints.\<close>

theorem candidate_survives_crash:
  assumes "checkpointed (sy_id strategy) acts n (wk_store s)" "list_all storable acts"
    and "typed_agent e" "others_leave e (sy_id strategy)"
    and "search_strategy e i spec strategy s = (Inr (Some x), s')" "wk_store s'' = wk_store s'"
  shows "candidate_of e i spec Replaying strategy (load_checkpoint (wk_store s'') (sy_id strategy)) s'' = (Inr (Some x), s'')"
proof -
  have "candidate_kept (sy_id strategy) x (wk_store s')"
    using tripleD [OF search_strategy_kept [OF assms(2-4)] assms(1,5)] by (simp add: found_kept_def)
  then show ?thesis using kept_candidate_resumed assms(6) by metis
qed

theorem candidate_survives_crash_witness:
  "\<exists>s'. search_strategy (over_surroundings demo_digest) ''a'' over_spec demo_strategy first_worker
      = (Inr (Some (take 1 over_trace, ENTITLEMENT_NON_NEGATIVE)), s')
    \<and> candidate_of (over_surroundings demo_digest) ''a'' over_spec Replaying demo_strategy
        (load_checkpoint (wk_store s') (sy_id demo_strategy)) s' = (Inr (Some (take 1 over_trace, ENTITLEMENT_NON_NEGATIVE)), s')"
proof -
  obtain s' where s': "search_strategy (over_surroundings demo_digest) ''a'' over_spec demo_strategy first_worker
      = (Inr (Some (take 1 over_trace, ENTITLEMENT_NON_NEGATIVE)), s')"
    using first_search by blast
  have "typed_agent (over_surroundings demo_digest)" "others_leave (over_surroundings demo_digest) (sy_id demo_strategy)"
    by (simp_all add: over_surroundings_def quiet_others)
  from candidate_survives_crash [OF first_checkpointed this s' refl] s' show ?thesis by blast
qed

section \<open>Budgets\<close>


definition demo_usage :: "int \<Rightarrow> budget_usage" where
  "demo_usage n = \<lparr>ug_steps = n, ug_tokens = 0, ug_cost = 0, ug_elapsed = 0\<rparr>"


text \<open>A search keeps to its share of the steps: whatever the agent proposes, the loop ends, and when it
  returns, the usage it has recorded is within the strategy's steps and a candidate is no longer than
  them, provided it started within them.\<close>

theorem search_keeps_to_its_share:
  assumes "ug_steps (sy_usage strategy) \<le> bg_steps (sy_budget strategy)" "int (length acts) \<le> ug_steps (sy_usage strategy)"
    and "proposal_loop e i spec started prior (start_task strategy state acts snaps n) s = (Inr (reason, found, t), s')"
  shows "ug_steps (tk_usage t) \<le> bg_steps (sy_budget strategy) \<and> ug_steps (sy_usage (tk_strategy t)) \<le> bg_steps (sy_budget strategy)
    \<and> (\<forall>x. found = Some x \<longrightarrow> int (length (fst x)) \<le> bg_steps (sy_budget strategy))"
proof -
  let ?n = "int (length acts) - ug_steps (sy_usage strategy)"
  have "in_share (sy_budget strategy) ?n (start_task strategy state acts snaps n)"
    using assms(1) by (simp add: in_share_def start_task_def)
  from proposal_loop_stays [OF this assms(3)] show ?thesis using assms(2) by (auto simp: in_share_def)
qed

theorem search_keeps_to_its_share_witness:
  "\<exists>t s'. proposal_loop (over_surroundings demo_digest) ''a'' over_spec 0 0
      (start_task (demo_strategy\<lparr>sy_usage := demo_usage 6\<rparr>) first_state [] [] 0) over_worker = (Inr (BUDGET_STEPS, None, t), s')
    \<and> ug_steps (tk_usage t) \<le> 6"
proof -
  let ?t = "start_task (demo_strategy\<lparr>sy_usage := demo_usage 6\<rparr>) first_state [] [] 0"
  have step: "search_step (over_surroundings demo_digest) ''a'' over_spec 0 0 ?t over_worker
      = (Inr (Stops BUDGET_STEPS None (?t\<lparr>tk_usage := demo_usage 6\<rparr>)), over_worker\<lparr>wk_tick := wk_tick over_worker + 1\<rparr>)"
    by (simp add: search_step_def andthen_def the_time_def Let_def start_task_def usage_within_def
        demo_usage_def demo_strategy_def demo_budget_def pure_def over_surroundings_def)
  have "\<exists>t s'. proposal_loop (over_surroundings demo_digest) ''a'' over_spec 0 0 ?t over_worker = (Inr (BUDGET_STEPS, None, t), s')"
    unfolding proposal_loop.simps [of _ _ _ _ _ ?t] step by simp
  then obtain t s' where loop: "proposal_loop (over_surroundings demo_digest) ''a'' over_spec 0 0 ?t over_worker = (Inr (BUDGET_STEPS, None, t), s')"
    by blast
  from search_keeps_to_its_share [OF _ _ loop] loop show ?thesis by (simp add: demo_strategy_def demo_usage_def demo_budget_def)
qed

section \<open>Evidence of the rule model\<close>

lemma model_snapshot: "state_of (sim_snapshot e st) = Some (normalized st)"
  by (simp add: state_of_def sim_snapshot_def normalized_def)

lemma model_items:
  "items_of (state_of (sim_snapshot e st)) ''entitlements'' = Some (map sim_entitlement_json (sort_key se_id (ss_entitlements st)))"
  "items_of (state_of (sim_snapshot e st)) ''orders'' = Some (map sim_order_json (sort_key so_id (ss_orders st)))"
  by (simp_all add: model_snapshot items_of_def normalized_def list_all_iff sim_entitlement_json_def sim_order_json_def)

lemma model_quantities: "judge_all judge_available (map sim_entitlement_json xs) = Judged []"
  by (induction xs) (simp_all add: judge_available_def quantities_def sim_entitlement_json_def oracle_integer_def)

lemma model_history: "history (map sim_order_json os) i = (if i = ''None'' then map (sim_order_status_name \<circ> so_status) os else [])"
  by (induction os) (auto simp: history_def sim_order_json_def)

text \<open>C25: the snapshots of the rule model that a search shows the oracle do not carry the names the oracle
  reads: the entitlement check never finds a violation in them, whatever the state, and the check of
  terminal states takes all orders for one, the order called None, so that a refunded order followed by
  any other order in the list of one snapshot is reported as a regression although none changed.\<close>

theorem model_evidence_misread:
  assumes "sort_key so_id (ss_orders st) = [a, b]" "so_status a = SimRefunded" "so_status b \<noteq> SimRefunded"
  shows "map_option fd_status (terminal_monotonicity spec [sim_snapshot e (initial_state sim), sim_snapshot e st] receipts events)
      = Some VIOLATED
    \<and> map_option fd_status (entitlement_non_negative spec (snaps @ [sim_snapshot e st']) receipts events) \<noteq> Some VIOLATED"
proof
  define xs where "xs = map sim_order_json [a, b]"
  have "items_of (state_of (sim_snapshot e (initial_state sim))) ''orders'' = Some []"
    by (simp add: model_items initial_state_def)
  moreover have "items_of (state_of (sim_snapshot e st)) ''orders'' = Some xs"
    unfolding xs_def by (simp add: model_items assms(1))
  ultimately have seen: "those (map (\<lambda>s. items_of (state_of s) ''orders'') [sim_snapshot e (initial_state sim), sim_snapshot e st]) = Some [[], xs]"
    by simp
  have ids: "first_occurrences (map (\<lambda>d. py_str (jget ''id'' d)) xs) = [''None'']"
    by (simp add: xs_def first_occurrences_def sim_order_json_def)
  have "regresses (history xs ''None'')"
    using assms(2,3) unfolding xs_def model_history by (cases "so_status b") (simp_all add: terminal_states_def)
  then show "map_option fd_status (terminal_monotonicity spec [sim_snapshot e (initial_state sim), sim_snapshot e st] receipts events)
      = Some VIOLATED"
    using ids unfolding terminal_monotonicity_def seen by (simp add: Let_def conclude_def finding_of_def)
  show "map_option fd_status (entitlement_non_negative spec (snaps @ [sim_snapshot e st']) receipts events) \<noteq> Some VIOLATED"
    using model_quantities [of "sort_key se_id (ss_entitlements st')"]
    by (auto simp: entitlement_non_negative_def last_items_def model_items not_applicable_def conclude_def finding_of_def
        split: list.splits)
qed

definition settled_order :: "string \<Rightarrow> rat \<Rightarrow> sim_order_status \<Rightarrow> sim_order" where
  "settled_order i paid status = \<lparr>so_id = i, so_user = ''user-1'', so_original = 10, so_currency = CNY, so_discount = 0, so_paid = paid,
     so_refunded = paid, so_points = 0, so_revoked = 0, so_refunds = 1, so_status = status, so_coupon = None\<rparr>"

definition two_orders :: sim_state where
  "two_orders = first_state\<lparr>ss_orders := [settled_order ''order-1'' 10 SimRefunded, settled_order ''order-2'' 0 SimCreated]\<rparr>"

theorem model_evidence_misread_witness:
  "map_option fd_status (terminal_monotonicity over_spec [sim_snapshot (over_surroundings demo_digest) (initial_state (reference_simulator over_spec)),
     sim_snapshot (over_surroundings demo_digest) two_orders] [] []) = Some VIOLATED"
proof -
  have "sort_key so_id (ss_orders two_orders) = [settled_order ''order-1'' 10 SimRefunded, settled_order ''order-2'' 0 SimCreated]"
    by (simp add: two_orders_def settled_order_def)
  then show ?thesis
    by (rule conjunct1 [OF model_evidence_misread]) (simp_all add: settled_order_def)
qed

section \<open>Where a run gets stuck\<close>

text \<open>C26: a run that a crash left replaying and whose time is up is never finished: a pass returns
  without an exception and leaves the store as it was, status and outcome included.\<close>

theorem replaying_run_stuck:
  assumes "st_runs (wk_store s) i = Some run" "ar_status run = Replaying" "counterexamples (wk_store s) i = []"
    and "\<And>k. bg_time (ar_budget run) \<le> wr_now e k - ar_created run"
  shows "fst (run_attack e searching i spec s) = Inr () \<and> wk_store (snd (run_attack e searching i spec s)) = wk_store s"
  using assms
  by (simp add: run_attack_def admit_def andthen_def reading_def storing_def get_run_def pure_def guarded_def search_all_def
      strategies_def strategy_turn_def the_time_def)

theorem replaying_run_stuck_witness:
  "wk_store (snd (run_attack (quiet_surroundings (sandbox_gateway demo_digest (\<lambda>_ _. None)) 10) [VALUE_FLOW] ''a'' over_spec over_worker))
    = wk_store over_worker"
  using replaying_run_stuck [OF over_fresh(1) _ over_fresh(3), of "quiet_surroundings (sandbox_gateway demo_digest (\<lambda>_ _. None)) 10"]
  by (simp add: over_run_def demo_budget_def)

end
