(* ===== verification/Rule_Compiler.thy ===== *)
theory Rule_Compiler
  imports Runtime_Agents Agent
begin

text \<open>
  The rule compiler (\<^verbatim>\<open>packages/attack_runtime/compiler.py\<close>): the adapter that records every call of
  the language model, the checks on a compiled specification, the compilation with its bounded
  retries, and the append-only store of confirmed versions. The rule text is a list of code points,
  as a ticket is. The provider behind the adapter, the reading of its answer by the schema library and
  the dump of a specification are arguments; the wording of prompts and error messages is left out
  where nothing depends on it.
\<close>

section \<open>JSON text\<close>

text \<open>\<^verbatim>\<open>json.dumps(value, ensure_ascii=False)\<close>, with sorted keys or not.\<close>

definition json_char :: "char \<Rightarrow> string" where
  "json_char c =
     (let n = (of_char c :: nat) in
      if n = 34 \<or> n = 92 then [CHR 0x5C, c]
      else if n = 10 then [CHR 0x5C, CHR ''n'']
      else if n = 13 then [CHR 0x5C, CHR ''r'']
      else if n = 9 then [CHR 0x5C, CHR ''t'']
      else if n = 8 then [CHR 0x5C, CHR ''b'']
      else if n = 12 then [CHR 0x5C, CHR ''f'']
      else if n < 32 then CHR 0x5C # ''u00'' @ [hex_digit (n div 16), hex_digit (n mod 16)]
      else [c])"

definition json_quoted :: "string \<Rightarrow> string" where
  "json_quoted s = [CHR 0x22] @ concat (map json_char s) @ [CHR 0x22]"

fun json_text :: "string \<Rightarrow> string \<Rightarrow> json \<Rightarrow> string" where
  "json_text comma colon JNull = ''null''"
| "json_text comma colon (JBool b) = (if b then ''true'' else ''false'')"
| "json_text comma colon (JInt i) = string_of_int i"
| "json_text comma colon (JFloat t) = t"
| "json_text comma colon (JStr s) = json_quoted s"
| "json_text comma colon (JList vs) = ''['' @ join_text comma (map (json_text comma colon) vs) @ '']''"
| "json_text comma colon (JObj m) =
     ''{'' @ join_text comma (map (\<lambda>(k, v). json_quoted k @ colon @ json_text comma colon v) m) @ ''}''"

fun sorted_keys :: "json \<Rightarrow> json" where
  "sorted_keys (JList vs) = JList (map sorted_keys vs)"
| "sorted_keys (JObj m) = JObj (sort_key fst (map (\<lambda>(k, v). (k, sorted_keys v)) m))"
| "sorted_keys v = v"

section \<open>Field paths\<close>

fun split_on :: "char \<Rightarrow> string \<Rightarrow> string list" where
  "split_on c [] = [[]]"
| "split_on c (x # xs) = (if x = c then [] # split_on c xs
     else (case split_on c xs of y # ys \<Rightarrow> (x # y) # ys | [] \<Rightarrow> [[x]]))"

text \<open>
  One segment, \<^verbatim>\<open>name\<close> or \<^verbatim>\<open>name[digits]\<close>. The end of the pattern also matches before a final
  line feed.
\<close>

definition field_segment :: "string \<Rightarrow> (string \<times> nat option) option" where
  "field_segment s =
     (let plain = (\<lambda>c. c \<noteq> CHR ''['' \<and> c \<noteq> CHR '']'');
          name = takeWhile plain s; rest = dropWhile plain s;
          ds = takeWhile is_digit (tl rest); after = dropWhile is_digit (tl rest)
      in if name = [] then None
         else if rest = [] then Some (name, None)
         else if hd rest = CHR ''['' \<and> ds \<noteq> [] \<and> (after = '']'' \<or> after = [CHR '']'', CHR 0x0A])
           then Some (name, Some (nat_of_digits ds))
         else None)"

fun walk_path :: "json \<Rightarrow> string list \<Rightarrow> json" where
  "walk_path doc [] = doc"
| "walk_path doc (seg # segs) = (case (field_segment seg, doc) of
       (Some (name, i), JObj m) \<Rightarrow> (case map_of m name of
           None \<Rightarrow> JNull
         | Some v \<Rightarrow> (case i of
             None \<Rightarrow> walk_path v segs
           | Some n \<Rightarrow> (case v of
               JList vs \<Rightarrow> if n < length vs then walk_path (vs ! n) segs else JNull
             | _ \<Rightarrow> JNull)))
     | _ \<Rightarrow> JNull)"

definition value_at_path :: "json \<Rightarrow> string \<Rightarrow> json" where
  "value_at_path doc path = walk_path doc (split_on (CHR ''.'') path)"

section \<open>The recorded adapter\<close>

record call_record =
  cl_id :: string
  cl_provider :: string
  cl_model :: string
  cl_temperature :: rat
  cl_seed :: "int option"
  cl_prompt :: string
  cl_schema :: string
  cl_input :: int
  cl_output :: int
  cl_latency :: int
  cl_cost :: rat
  cl_hash :: string

record llm_response =
  lr_content :: string
  lr_input :: int
  lr_output :: int
  lr_cost :: rat

text \<open>
  What a call of the provider raises: a transport error, another HTTP error, an error of value or type
  with its text, which counts as a rejected reply, and anything else.
\<close>

datatype llm_failure = Transport_failed | Http_failed | Bad_reply string | Other_failure

text \<open>
  The provider is asked with the scenario of the prompt, the errors fed back and the untrusted text.
  Its configuration, fresh identifiers, latencies and the digest come with it.
\<close>

record 'p provider =
  pv_call :: "scenario_type \<Rightarrow> string list \<Rightarrow> code_text \<Rightarrow> 'p \<Rightarrow> (llm_failure + llm_response) \<times> 'p"
  pv_name :: string
  pv_model :: string
  pv_temperature :: rat
  pv_seed :: "int option"
  pv_prompt :: string
  pv_uid :: "nat \<Rightarrow> string"
  pv_fresh :: "nat \<Rightarrow> string"
  pv_latency :: "nat \<Rightarrow> int"
  pv_digest :: "string \<Rightarrow> string"
  pv_read :: "string \<Rightarrow> string + rule_spec"
  pv_dump :: "rule_spec \<Rightarrow> json"
  pv_fold :: "nat \<Rightarrow> code_text"

record 'p adapter =
  ad_last :: "call_record option"
  ad_pending :: "call_record list"
  ad_world :: 'p
  ad_tick :: nat

definition call_of :: "'p provider \<Rightarrow> nat \<Rightarrow> int \<Rightarrow> int \<Rightarrow> rat \<Rightarrow> string \<Rightarrow> call_record" where
  "call_of e n i out c content = \<lparr>cl_id = pv_uid e n, cl_provider = pv_name e, cl_model = pv_model e,
     cl_temperature = pv_temperature e, cl_seed = pv_seed e, cl_prompt = pv_prompt e, cl_schema = ''1.0'',
     cl_input = i, cl_output = out, cl_latency = max 0 (pv_latency e n), cl_cost = c, cl_hash = pv_digest e content\<rparr>"

definition record_call :: "call_record \<Rightarrow> 'p adapter \<Rightarrow> 'p adapter" where
  "record_call c a = a\<lparr>ad_last := Some c, ad_pending := ad_pending a @ [c], ad_tick := ad_tick a + 1\<rparr>"

definition complete_structured ::
  "'p provider \<Rightarrow> scenario_type \<Rightarrow> string list \<Rightarrow> code_text \<Rightarrow> 'p adapter \<Rightarrow> (llm_failure + llm_response) \<times> 'p adapter" where
  "complete_structured e scenario feedback text a =
     (case pv_call e scenario feedback text (ad_world a) of
        (Inl x, w) \<Rightarrow> (Inl x, record_call (call_of e (ad_tick a) 0 0 0 []) (a\<lparr>ad_world := w\<rparr>))
      | (Inr r, w) \<Rightarrow> (Inr r, record_call (call_of e (ad_tick a) (lr_input r) (lr_output r) (lr_cost r) (lr_content r)) (a\<lparr>ad_world := w\<rparr>)))"

definition drain_call_records :: "'p adapter \<Rightarrow> call_record list \<times> 'p adapter" where
  "drain_call_records a = (ad_pending a, a\<lparr>ad_pending := []\<rparr>)"

fun aggregate_call_records :: "call_record list \<Rightarrow> call_record option" where
  "aggregate_call_records [] = None"
| "aggregate_call_records (c # cs) = Some (c\<lparr>
     cl_input := sum_list (map cl_input (c # cs)), cl_output := sum_list (map cl_output (c # cs)),
     cl_latency := sum_list (map cl_latency (c # cs)), cl_cost := sum_list (map cl_cost (c # cs)),
     cl_hash := cl_hash (last (c # cs))\<rparr>)"

section \<open>Checks\<close>

definition ascii_lower :: "nat \<Rightarrow> nat" where
  "ascii_lower c = (if 65 \<le> c \<and> c \<le> 90 then c + 32 else c)"

text \<open>\<^verbatim>\<open>str.casefold\<close>: beyond ASCII the Unicode table, given as an argument, decides.\<close>

definition casefold :: "(nat \<Rightarrow> code_text) \<Rightarrow> code_text \<Rightarrow> code_text" where
  "casefold wide t = concat (map (\<lambda>c. if c < 128 then [ascii_lower c] else wide c) t)"

definition forbidden_text :: "string list" where
  "forbidden_text = [[CHR 0x60, CHR 0x60, CHR 0x60], ''eval('', ''exec('', ''__import__'', ''import os'', ''import subprocess'',
     ''select '', ''insert '', ''update '', ''delete '', ''{{'', ''{%'', ''${'']"

definition contains_dynamic_code :: "(nat \<Rightarrow> code_text) \<Rightarrow> code_text \<Rightarrow> bool" where
  "contains_dynamic_code wide t \<longleftrightarrow> list_ex (\<lambda>token. contains_text (codes token) (casefold wide t)) forbidden_text"

datatype spec_complaint =
    Scenario_differs | Participants_repeat | Assets_repeat | Invariants_repeat | Reference_empty | Dynamic_code

fun complaint_text :: "spec_complaint \<Rightarrow> string" where
  "complaint_text Scenario_differs = ''scenario_type does not match the selected template''"
| "complaint_text Participants_repeat = ''participant references must be unique''"
| "complaint_text Assets_repeat = ''asset references must be unique''"
| "complaint_text Invariants_repeat = ''invariant references must be unique''"
| "complaint_text Reference_empty = ''references must not be empty''"
| "complaint_text Dynamic_code = ''dynamic code, SQL, and template expressions are forbidden''"

definition encoded_spec :: "'p provider \<Rightarrow> rule_spec \<Rightarrow> code_text" where
  "encoded_spec e spec = codes (json_text '', '' '': '' (sorted_keys (pv_dump e spec)))"

definition validate_rule_spec :: "'p provider \<Rightarrow> rule_spec \<Rightarrow> scenario_type \<Rightarrow> spec_complaint list" where
  "validate_rule_spec e spec expected =
     (let ps = map participant_id (participants spec); as = map asset_id (assets spec) in
      (if spec_scenario spec \<noteq> expected then [Scenario_differs] else [])
      @ (if distinct ps then [] else [Participants_repeat])
      @ (if distinct as then [] else [Assets_repeat])
      @ (if distinct (spec_invariant_ids spec) then [] else [Invariants_repeat])
      @ (if [] \<in> set ps \<union> set as then [Reference_empty] else [])
      @ (if contains_dynamic_code (pv_fold e) (encoded_spec e spec) then [Dynamic_code] else []))"

section \<open>Compiling\<close>

datatype compile_status = COMPILED | NEEDS_CONFIRMATION | UNSUPPORTED_RULE | COMPILE_REJECTED

record confirmation_question =
  qu_id :: string
  qu_path :: string
  qu_text :: "code_text list"
  qu_suggestion :: "string option"

record compile_result =
  cm_status :: compile_status
  cm_template :: string
  cm_spec :: "rule_spec option"
  cm_questions :: "confirmation_question list"
  cm_errors :: "string list"
  cm_call :: "call_record option"

definition builtin_templates :: "string \<rightharpoonup> scenario_type" where
  "builtin_templates = map_of [(''promotion'', PROMOTION), (''refund-points'', REFUND_POINTS),
     (''membership-entitlement'', MEMBERSHIP_ENTITLEMENT)]"

text \<open>The phrases that leave a decision to whoever implements the rule.\<close>

definition vague_markers :: "code_text list" where
  "vague_markers = [[30475, 30528, 21150], [20320, 20915, 23450], [37196, 24773], [35270, 24773, 20917], [36866, 24403],
     [23613, 37327], [22823, 33268], [22823, 27010], [24038, 21491], [19968, 20123], [33509, 24178], [38543, 24847]]"

datatype compile_end = Unavailable | Raises | Settles "rule_spec option" "string list"

fun compile_attempts ::
  "'p provider \<Rightarrow> scenario_type \<Rightarrow> code_text \<Rightarrow> nat \<Rightarrow> string list \<Rightarrow> rule_spec option \<Rightarrow> 'p adapter \<Rightarrow> compile_end \<times> 'p adapter" where
  "compile_attempts e scenario text 0 errors spec a = (Settles spec errors, a)"
| "compile_attempts e scenario text (Suc n) errors spec a =
     (case complete_structured e scenario errors text a of
        (Inl Transport_failed, a') \<Rightarrow> if n = 0 then (Unavailable, a') else compile_attempts e scenario text n errors spec a'
      | (Inl Http_failed, a') \<Rightarrow> (Unavailable, a')
      | (Inl (Bad_reply m), a') \<Rightarrow> compile_attempts e scenario text n [m] spec a'
      | (Inl Other_failure, a') \<Rightarrow> (Raises, a')
      | (Inr r, a') \<Rightarrow> (case pv_read e (lr_content r) of
            Inl m \<Rightarrow> compile_attempts e scenario text n [m] spec a'
          | Inr s \<Rightarrow> (let errs = map complaint_text (validate_rule_spec e s scenario) in
              if errs = [] then (Settles (Some s) [], a') else compile_attempts e scenario text n errs (Some s) a')))"

definition question_of :: "'p provider \<Rightarrow> rule_spec \<Rightarrow> ambiguity \<Rightarrow> confirmation_question" where
  "question_of e spec x = \<lparr>qu_id = ambiguity_id x, qu_path = field_path x, qu_text = [codes (question x)],
     qu_suggestion = (case value_at_path (pv_dump e spec) (field_path x) of
         JNull \<Rightarrow> None
       | v \<Rightarrow> Some (json_text '','' '':'' v))\<rparr>"

text \<open>Of the question about vague text, the markers it lists are kept.\<close>

definition questions_for :: "'p provider \<Rightarrow> code_text \<Rightarrow> rule_spec \<Rightarrow> confirmation_question list" where
  "questions_for e text spec =
     (let qs = map (question_of e spec) (ambiguities spec); ms = filter (\<lambda>m. contains_text m text) vague_markers in
      if qs = [] \<and> ms \<noteq> []
      then [\<lparr>qu_id = ''vague-rule-text'', qu_path = ''chinese_modification'', qu_text = ms, qu_suggestion = None\<rparr>]
      else qs)"

definition not_compiled :: "string \<Rightarrow> compile_status \<Rightarrow> string list \<Rightarrow> call_record option \<Rightarrow> compile_result" where
  "not_compiled template st errors c = \<lparr>cm_status = st, cm_template = template, cm_spec = None, cm_questions = [],
     cm_errors = errors, cm_call = c\<rparr>"

definition blank_text :: "code_text \<Rightarrow> bool" where
  "blank_text t \<longleftrightarrow> list_all space_class t"

text \<open>No result stands for an exception that escapes; its calls stay pending.\<close>

definition settle ::
  "'p provider \<Rightarrow> string \<Rightarrow> code_text \<Rightarrow> rule_spec option \<Rightarrow> string list \<Rightarrow> call_record option \<Rightarrow> compile_result" where
  "settle e template text spec errors call = (case spec of
       Some s \<Rightarrow> if errors \<noteq> [] then not_compiled template COMPILE_REJECTED errors call
         else (let qs = questions_for e text s in
           \<lparr>cm_status = (if qs = [] then COMPILED else NEEDS_CONFIRMATION), cm_template = template, cm_spec = Some s,
            cm_questions = qs, cm_errors = [], cm_call = call\<rparr>)
     | None \<Rightarrow> not_compiled template COMPILE_REJECTED
         (if errors = [] then [''model returned no conforming RuleSpec''] else errors) call)"

definition compile_rule ::
  "'p provider \<Rightarrow> (string \<rightharpoonup> scenario_type) \<Rightarrow> string \<Rightarrow> code_text \<Rightarrow> 'p adapter \<Rightarrow> compile_result option \<times> 'p adapter" where
  "compile_rule e templates template text a = (case templates template of
       None \<Rightarrow> (Some (not_compiled template UNSUPPORTED_RULE [''unknown template or unsupported scenario''] None), a)
     | Some scenario \<Rightarrow>
         if blank_text text \<or> contains_dynamic_code (pv_fold e) text
         then (Some (not_compiled template COMPILE_REJECTED [''empty or executable rule text is not allowed''] None), a)
         else (case compile_attempts e scenario text 3 [] None a of
             (Raises, a') \<Rightarrow> (None, a')
           | (Unavailable, a') \<Rightarrow> (case drain_call_records a' of (cs, a'') \<Rightarrow>
               (Some (not_compiled template COMPILE_REJECTED [''model provider unavailable''] (aggregate_call_records cs)), a''))
           | (Settles spec errors, a') \<Rightarrow> (case drain_call_records a' of (cs, a'') \<Rightarrow>
               (Some (settle e template text spec errors (aggregate_call_records cs)), a''))))"

section \<open>Versions\<close>

record rule_version =
  ru_id :: string
  ru_policy :: string
  ru_version :: nat
  ru_template :: string
  ru_spec :: rule_spec
  ru_hash :: string
  ru_prompt :: string

record version_store =
  vs_versions :: "rule_version list"
  vs_content :: "string \<times> string \<rightharpoonup> string"
  vs_drafts :: "string \<rightharpoonup> compile_result"

definition no_versions :: version_store where
  "no_versions = \<lparr>vs_versions = [], vs_content = Map.empty, vs_drafts = Map.empty\<rparr>"

definition record_compile :: "string \<Rightarrow> compile_result \<Rightarrow> version_store \<Rightarrow> version_store" where
  "record_compile p r vs = vs\<lparr>vs_drafts := (vs_drafts vs)(p \<mapsto> r)\<rparr>"

datatype version_error = Not_compiled | Spec_refused | Version_missing

definition content_hash :: "'p provider \<Rightarrow> string \<Rightarrow> rule_spec \<Rightarrow> string" where
  "content_hash e template spec = pv_digest e (json_text '','' '':'' (sorted_keys (JObj [
     (''template_id'', JStr template), (''rule_spec'', pv_dump e spec), (''schema_version'', JStr ''1.0'')])))"

definition version_of :: "string \<Rightarrow> version_store \<Rightarrow> version_error + rule_version" where
  "version_of i vs = of_option Version_missing (find_row ru_id i (vs_versions vs))"

text \<open>A fresh identifier is the key of a new version; the table keeps the order of insertion.\<close>

definition confirm_version ::
  "'p provider \<Rightarrow> string \<Rightarrow> string \<Rightarrow> compile_result \<Rightarrow> version_store \<Rightarrow> (version_error + rule_version) \<times> version_store" where
  "confirm_version e uid p r vs = (case cm_spec r of
       None \<Rightarrow> (Inl Not_compiled, vs)
     | Some spec \<Rightarrow>
         if cm_status r \<noteq> COMPILED then (Inl Not_compiled, vs)
         else (case builtin_templates (cm_template r) of
             None \<Rightarrow> (Inl Spec_refused, vs)
           | Some scenario \<Rightarrow>
               if validate_rule_spec e spec scenario \<noteq> [] then (Inl Spec_refused, vs)
               else (let h = content_hash e (cm_template r) spec in case vs_content vs (p, h) of
                   Some i \<Rightarrow> (version_of i vs, vs)
                 | None \<Rightarrow>
                     (let v = \<lparr>ru_id = uid, ru_policy = p,
                        ru_version = 1 + length (filter (\<lambda>x. ru_policy x = p) (vs_versions vs)),
                        ru_template = cm_template r, ru_spec = spec, ru_hash = h,
                        ru_prompt = (case cm_call r of None \<Rightarrow> ''compiler-v1'' | Some c \<Rightarrow> cl_prompt c)\<rparr>
                      in (Inr v, vs\<lparr>vs_versions := vs_versions vs @ [v], vs_content := (vs_content vs)((p, h) \<mapsto> uid)\<rparr>)))))"

section \<open>The policy service\<close>

record 'p policy_service =
  po_adapter :: "'p adapter"
  po_store :: version_store
  po_tick :: nat

datatype policy_answer =
    Compiled string compile_result
  | Confirmed rule_version
  | Http_refused nat
  | Http_raises

definition policy_compile ::
  "'p provider \<Rightarrow> (string \<rightharpoonup> scenario_type) \<Rightarrow> string \<Rightarrow> string \<Rightarrow> code_text \<Rightarrow> 'p policy_service
   \<Rightarrow> policy_answer \<times> 'p policy_service" where
  "policy_compile e templates uid template text s = (case compile_rule e templates template text (po_adapter s) of
       (None, a) \<Rightarrow> (Http_raises, s\<lparr>po_adapter := a\<rparr>)
     | (Some r, a) \<Rightarrow> (Compiled uid r, s\<lparr>po_adapter := a, po_store := record_compile uid r (po_store s)\<rparr>))"

definition confirm_result ::
  "'p provider \<Rightarrow> string \<Rightarrow> string \<Rightarrow> compile_result \<Rightarrow> 'p policy_service \<Rightarrow> policy_answer \<times> 'p policy_service" where
  "confirm_result e uid p r s = (case confirm_version e uid p r (po_store s) of
       (Inr v, vs) \<Rightarrow> (Confirmed v, s\<lparr>po_store := vs\<rparr>)
     | (Inl Version_missing, vs) \<Rightarrow> (Http_raises, s\<lparr>po_store := vs\<rparr>)
     | (Inl _, vs) \<Rightarrow> (Http_refused 409, s\<lparr>po_store := vs\<rparr>))"

definition policy_confirm ::
  "'p provider \<Rightarrow> (string \<rightharpoonup> scenario_type) \<Rightarrow> string \<Rightarrow> string \<Rightarrow> rule_spec option \<Rightarrow> 'p policy_service
   \<Rightarrow> policy_answer \<times> 'p policy_service" where
  "policy_confirm e templates uid p confirmed s = (case vs_drafts (po_store s) p of
       None \<Rightarrow> (Http_refused 404, s)
     | Some draft \<Rightarrow> (case confirmed of
           None \<Rightarrow> confirm_result e uid p draft s
         | Some spec \<Rightarrow>
             if cm_status draft \<noteq> NEEDS_CONFIRMATION then (Http_refused 409, s)
             else if ambiguities spec \<noteq> [] then (Http_refused 409, s)
             else (case templates (cm_template draft) of
                 None \<Rightarrow> (Http_raises, s)
               | Some scenario \<Rightarrow>
                   if validate_rule_spec e spec scenario \<noteq> [] then (Http_refused 422, s)
                   else confirm_result e uid p \<lparr>cm_status = COMPILED, cm_template = cm_template draft, cm_spec = Some spec,
                     cm_questions = [], cm_errors = [], cm_call = cm_call draft\<rparr> s)))"

datatype policy_request = Compile_request string code_text | Confirm_request string "rule_spec option"

text \<open>Requests in the order they are served; each draws a fresh identifier, used or not.\<close>

definition serve_policy ::
  "'p provider \<Rightarrow> (string \<rightharpoonup> scenario_type) \<Rightarrow> 'p policy_service \<Rightarrow> policy_request \<Rightarrow> policy_answer \<times> 'p policy_service" where
  "serve_policy e templates s q =
     (let uid = pv_fresh e (po_tick s); s1 = s\<lparr>po_tick := po_tick s + 1\<rparr> in case q of
        Compile_request template text \<Rightarrow> policy_compile e templates uid template text s1
      | Confirm_request p confirmed \<Rightarrow> policy_confirm e templates uid p confirmed s1)"

definition policy_step ::
  "'p provider \<Rightarrow> (string \<rightharpoonup> scenario_type) \<Rightarrow> 'p policy_service \<Rightarrow> policy_request \<Rightarrow> 'p policy_service" where
  "policy_step e templates s q = snd (serve_policy e templates s q)"

definition first_service :: "'p \<Rightarrow> 'p policy_service" where
  "first_service w = \<lparr>po_adapter = \<lparr>ad_last = None, ad_pending = [], ad_world = w, ad_tick = 0\<rparr>, po_store = no_versions, po_tick = 0\<rparr>"

definition served_policies ::
  "'p provider \<Rightarrow> (string \<rightharpoonup> scenario_type) \<Rightarrow> 'p \<Rightarrow> policy_request list \<Rightarrow> 'p policy_service" where
  "served_policies e templates w qs = foldl (policy_step e templates) (first_service w) qs"

end
