(* ===== verification/Compiler_Facts.thy ===== *)
theory Compiler_Facts
  imports Rule_Compiler
begin

text \<open>
  What a compilation can return, the invariant of the version store as a \<open>step_machine\<close>, and how a
  printed field path is resolved.
\<close>

section \<open>Field paths\<close>

definition plain_name :: "string \<Rightarrow> bool" where
  "plain_name s \<longleftrightarrow> s \<noteq> [] \<and> list_all (\<lambda>c. c \<noteq> CHR ''['' \<and> c \<noteq> CHR '']'' \<and> c \<noteq> CHR ''.'') s"

fun segment_text :: "string \<times> nat option \<Rightarrow> string" where
  "segment_text (name, None) = name"
| "segment_text (name, Some n) = name @ ''['' @ string_of_nat n @ '']''"

fun follow :: "json \<Rightarrow> (string \<times> nat option) list \<Rightarrow> json" where
  "follow doc [] = doc"
| "follow doc ((name, i) # segs) = (case doc of
       JObj m \<Rightarrow> (case (map_of m name, i) of
           (Some v, None) \<Rightarrow> follow v segs
         | (Some (JList vs), Some n) \<Rightarrow> if n < length vs then follow (vs ! n) segs else JNull
         | _ \<Rightarrow> JNull)
     | _ \<Rightarrow> JNull)"

lemma takeWhile_stop: "list_all P xs \<Longrightarrow> \<not> P y \<Longrightarrow> takeWhile P (xs @ y # ys) = xs"
  by (induction xs) auto

lemma dropWhile_stop: "list_all P xs \<Longrightarrow> \<not> P y \<Longrightarrow> dropWhile P (xs @ y # ys) = y # ys"
  by (induction xs) auto

lemma list_all_takeWhile: "list_all P xs \<Longrightarrow> takeWhile P xs = xs"
  by (induction xs) auto

lemma list_all_dropWhile: "list_all P xs \<Longrightarrow> dropWhile P xs = []"
  by (induction xs) auto

lemma plain_name_plain: "plain_name s \<Longrightarrow> list_all (\<lambda>c. c \<noteq> CHR ''['' \<and> c \<noteq> CHR '']'') s"
  by (auto simp: plain_name_def list_all_iff)

lemma bracket_no_digit: "\<not> is_digit (CHR '']'')"
  by code_simp

lemma field_segment_text:
  assumes "plain_name name"
  shows "field_segment (segment_text (name, i)) = Some (name, i)"
proof (cases i)
  case None
  then show ?thesis using plain_name_plain [OF assms] assms
    by (simp add: field_segment_def list_all_takeWhile list_all_dropWhile plain_name_def)
next
  case (Some n)
  have shown: "segment_text (name, i) = name @ CHR ''['' # string_of_nat n @ '']''" by (simp add: Some)
  show ?thesis
    unfolding shown using plain_name_plain [OF assms] assms
    by (simp add: field_segment_def takeWhile_stop dropWhile_stop plain_name_def Some string_of_nat_digits bracket_no_digit)
qed

lemma split_on_none: "c \<notin> set s \<Longrightarrow> split_on c s = [s]"
  by (induction s) auto

lemma split_on_append: "c \<notin> set s \<Longrightarrow> split_on c (s @ c # t) = s # split_on c t"
  by (induction s) auto

lemma split_on_join:
  "ss \<noteq> [] \<Longrightarrow> list_all (\<lambda>s. c \<notin> set s) ss \<Longrightarrow> split_on c (join_text [c] ss) = ss"
proof (induction "[c]" ss rule: join_text.induct)
  case (3 s s' ss)
  then show ?case by (simp add: split_on_append)
qed (simp_all add: split_on_none)

lemma dot_not_in_digits: "CHR ''.'' \<notin> set (string_of_nat n)"
proof
  assume "CHR ''.'' \<in> set (string_of_nat n)"
  then have "is_digit (CHR ''.'')" using string_of_nat_digits [of n] by (auto simp: list_all_iff)
  moreover have "\<not> is_digit (CHR ''.'')" by code_simp
  ultimately show False by simp
qed

lemma dot_not_in_segment: "plain_name name \<Longrightarrow> CHR ''.'' \<notin> set (segment_text (name, i))"
  by (cases i) (auto simp: plain_name_def list_all_iff dot_not_in_digits)

lemma walk_path_follow:
  "list_all (plain_name \<circ> fst) segs \<Longrightarrow> walk_path doc (map segment_text segs) = follow doc segs"
proof (induction doc segs rule: follow.induct)
  case (2 doc name i segs)
  then have seg: "field_segment (segment_text (name, i)) = Some (name, i)" by (simp add: field_segment_text)
  show ?case using 2 by (cases doc) (auto simp: seg split: option.splits json.splits)
qed simp

lemma value_at_text:
  assumes "segs \<noteq> []" "list_all (plain_name \<circ> fst) segs"
  shows "value_at_path doc (join_text ''.'' (map segment_text segs)) = follow doc segs"
proof -
  have "split_on (CHR ''.'') (join_text ''.'' (map segment_text segs)) = map segment_text segs"
    using assms by (intro split_on_join) (auto simp: list_all_iff dot_not_in_segment)
  then show ?thesis using assms walk_path_follow [of segs doc] by (simp add: value_at_path_def)
qed

section \<open>Compiling\<close>

text \<open>A specification that was rejected never outlives the errors it was rejected for.\<close>

lemma attempts_settle:
  "compile_attempts e scenario words n errors spec a = (Settles (Some s) [], a') \<Longrightarrow> spec = None \<or> errors \<noteq> []
   \<Longrightarrow> validate_rule_spec e s scenario = [] \<and> (\<exists>content. pv_read e content = Inr s)"
proof (induction e scenario words n errors spec a rule: compile_attempts.induct)
  case (2 e scenario words n errors spec a)
  show ?case
  proof (cases "complete_structured e scenario errors words a")
    case (Pair x a1)
    show ?thesis
    proof (cases x)
      case (Inl y)
      then show ?thesis using 2 Pair by (cases y) (auto split: if_splits)
    next
      case (Inr r)
      show ?thesis
      proof (cases "pv_read e (lr_content r)")
        case (Inl m)
        then show ?thesis using 2 Pair Inr by simp
      next
        case (Inr s')
        then show ?thesis using 2 Pair \<open>x = Inr r\<close> by (auto simp: Let_def split: if_splits)
      qed
    qed
  qed
qed simp

lemma complete_tick: "complete_structured e scenario errors words a = (x, a') \<Longrightarrow> ad_tick a' = ad_tick a + 1"
  by (auto simp: complete_structured_def record_call_def split: prod.splits sum.splits)

lemma complete_pending:
  "complete_structured e scenario errors words a = (x, a') \<Longrightarrow> \<exists>c. ad_pending a' = ad_pending a @ [c]"
  by (auto simp: complete_structured_def record_call_def split: prod.splits sum.splits)

lemma attempts_count:
  "compile_attempts e scenario words n errors spec a = (x, a') \<Longrightarrow> \<exists>cs. ad_pending a' = ad_pending a @ cs \<and> length cs \<le> n"
proof (induction e scenario words n errors spec a rule: compile_attempts.induct)
  case (2 e scenario words n errors spec a)
  obtain y a1 where y: "complete_structured e scenario errors words a = (y, a1)" by force
  then obtain c where c: "ad_pending a1 = ad_pending a @ [c]" using complete_pending by blast
  have later: "\<exists>cs. ad_pending a' = ad_pending a @ cs \<and> length cs \<le> Suc n"
    if "\<exists>cs. ad_pending a' = ad_pending a1 @ cs \<and> length cs \<le> n"
    using that c by auto
  show ?case
  proof (cases y)
    case (Inl z)
    then show ?thesis using 2 y later c by (cases z) (auto split: if_splits)
  next
    case (Inr r)
    then show ?thesis using 2 y later c by (auto simp: Let_def split: sum.splits if_splits)
  qed
qed simp

lemma compile_rule_cases:
  assumes "compile_rule e templates template words a = (Some r, a')" "cm_status r \<in> {COMPILED, NEEDS_CONFIRMATION}"
  obtains scenario spec content a1 cs where "templates template = Some scenario" "cm_spec r = Some spec"
    "validate_rule_spec e spec scenario = []" "pv_read e content = Inr spec" "cm_template r = template"
    "cm_questions r = questions_for e words spec" "cm_status r = (if questions_for e words spec = [] then COMPILED else NEEDS_CONFIRMATION)"
    "\<not> blank_text words" "\<not> contains_dynamic_code (pv_fold e) words" "cm_errors r = []"
    "cm_call r = aggregate_call_records (ad_pending a @ cs)" "length cs \<le> 3"
proof -
  obtain scenario where scenario: "templates template = Some scenario" "\<not> blank_text words" "\<not> contains_dynamic_code (pv_fold e) words"
    using assms by (cases "templates template") (auto simp: compile_rule_def not_compiled_def split: if_splits)
  obtain x a1 where x: "compile_attempts e scenario words 3 [] None a = (x, a1)" by force
  from attempts_count [OF x] obtain cs where cs: "ad_pending a1 = ad_pending a @ cs" "length cs \<le> 3" by blast
  from assms scenario x obtain spec where "x = Settles (Some spec) []"
    by (cases x) (auto simp: compile_rule_def drain_call_records_def settle_def not_compiled_def Let_def split: option.splits if_splits)
  then show thesis
    using that [OF scenario(1) _ _ _ _ _ _ scenario(2,3) _ _ cs(2), of spec] attempts_settle [of e scenario words 3 "[]" None a spec a1]
      assms scenario x cs
    by (auto simp: compile_rule_def drain_call_records_def settle_def Let_def)
qed

section \<open>Versions\<close>

definition draft_ok :: "compile_result \<Rightarrow> bool" where
  "draft_ok r \<longleftrightarrow> (cm_status r = COMPILED \<longrightarrow> (\<exists>spec. cm_spec r = Some spec \<and> ambiguities spec = []))"

definition version_ok :: "'p provider \<Rightarrow> rule_version \<Rightarrow> bool" where
  "version_ok e v \<longleftrightarrow> (\<exists>scenario. builtin_templates (ru_template v) = Some scenario \<and> validate_rule_spec e (ru_spec v) scenario = [])
     \<and> ambiguities (ru_spec v) = [] \<and> ru_hash v = content_hash e (ru_template v) (ru_spec v)"

definition of_policy :: "string \<Rightarrow> rule_version list \<Rightarrow> rule_version list" where
  "of_policy p = filter (\<lambda>v. ru_policy v = p)"

definition versions_ok :: "'p provider \<Rightarrow> nat \<Rightarrow> version_store \<Rightarrow> bool" where
  "versions_ok e n vs \<longleftrightarrow> (\<forall>v \<in> set (vs_versions vs). version_ok e v \<and> (\<exists>k < n. ru_id v = pv_fresh e k))
     \<and> distinct (map ru_id (vs_versions vs))
     \<and> distinct (map (\<lambda>v. (ru_policy v, ru_hash v)) (vs_versions vs))
     \<and> (\<forall>p. map ru_version (of_policy p (vs_versions vs)) = [1..<Suc (length (of_policy p (vs_versions vs)))])
     \<and> (\<forall>p h i. vs_content vs (p, h) = Some i \<longleftrightarrow> (\<exists>v \<in> set (vs_versions vs). ru_policy v = p \<and> ru_hash v = h \<and> ru_id v = i))
     \<and> (\<forall>p r. vs_drafts vs p = Some r \<longrightarrow> draft_ok r)"

lemma no_versions_ok: "versions_ok e n no_versions"
  by (simp add: versions_ok_def no_versions_def of_policy_def)

lemma versions_ok_tick: "versions_ok e n vs \<Longrightarrow> n \<le> n' \<Longrightarrow> versions_ok e n' vs"
  unfolding versions_ok_def by (meson less_le_trans)

lemma record_compile_ok: "versions_ok e n vs \<Longrightarrow> draft_ok r \<Longrightarrow> versions_ok e n (record_compile p r vs)"
  by (auto simp: versions_ok_def record_compile_def)

lemma questions_ambiguities: "questions_for e words spec = [] \<Longrightarrow> ambiguities spec = []"
  by (cases "ambiguities spec") (simp_all add: questions_for_def Let_def)

lemma compile_rule_draft:
  assumes "compile_rule e templates template words a = (Some r, a')"
  shows "draft_ok r"
  unfolding draft_ok_def
proof
  assume status: "cm_status r = COMPILED"
  then have "cm_status r \<in> {COMPILED, NEEDS_CONFIRMATION}" by simp
  from compile_rule_cases [OF assms this] obtain spec where "cm_spec r = Some spec"
    "cm_status r = (if questions_for e words spec = [] then COMPILED else NEEDS_CONFIRMATION)" by metis
  with status show "\<exists>spec. cm_spec r = Some spec \<and> ambiguities spec = []"
    by (auto split: if_splits dest: questions_ambiguities)
qed

lemma confirm_version_Inr:
  assumes "confirm_version e uid p r vs = (Inr v, vs')"
  shows "\<exists>spec scenario. cm_spec r = Some spec \<and> cm_status r = COMPILED \<and> builtin_templates (cm_template r) = Some scenario
    \<and> validate_rule_spec e spec scenario = []
    \<and> (case vs_content vs (p, content_hash e (cm_template r) spec) of
         Some i \<Rightarrow> version_of i vs = Inr v \<and> vs' = vs
       | None \<Rightarrow> ru_id v = uid \<and> ru_policy v = p \<and> ru_version v = 1 + length (of_policy p (vs_versions vs))
           \<and> ru_template v = cm_template r \<and> ru_spec v = spec \<and> ru_hash v = content_hash e (cm_template r) spec
           \<and> vs' = vs\<lparr>vs_versions := vs_versions vs @ [v], vs_content := (vs_content vs)((p, ru_hash v) \<mapsto> uid)\<rparr>)"
proof -
  obtain spec where spec: "cm_spec r = Some spec" "cm_status r = COMPILED"
    using assms by (cases "cm_spec r") (auto simp: confirm_version_def split: if_splits)
  obtain scenario where scenario: "builtin_templates (cm_template r) = Some scenario" "validate_rule_spec e spec scenario = []"
    using assms spec by (cases "builtin_templates (cm_template r)") (auto simp: confirm_version_def split: if_splits)
  show ?thesis
    using assms spec scenario
    by (cases "vs_content vs (p, content_hash e (cm_template r) spec)") (auto simp: confirm_version_def Let_def of_policy_def)
qed

lemma confirm_version_Inl: "confirm_version e uid p r vs = (Inl x, vs') \<Longrightarrow> vs' = vs"
  by (simp add: confirm_version_def Let_def split: option.splits if_splits)

lemma versions_okD:
  assumes "versions_ok e n vs"
  shows "\<And>v. v \<in> set (vs_versions vs) \<Longrightarrow> version_ok e v"
    "\<And>v. v \<in> set (vs_versions vs) \<Longrightarrow> \<exists>k < n. ru_id v = pv_fresh e k"
    "distinct (map ru_id (vs_versions vs))"
    "distinct (map (\<lambda>v. (ru_policy v, ru_hash v)) (vs_versions vs))"
    "\<And>p. map ru_version (of_policy p (vs_versions vs)) = [1..<Suc (length (of_policy p (vs_versions vs)))]"
    "\<And>p h i. vs_content vs (p, h) = Some i \<longleftrightarrow> (\<exists>v \<in> set (vs_versions vs). ru_policy v = p \<and> ru_hash v = h \<and> ru_id v = i)"
    "\<And>p r. vs_drafts vs p = Some r \<Longrightarrow> draft_ok r"
  using assms unfolding versions_ok_def by blast+

lemma of_policy_snoc: "of_policy p (vs @ [v]) = of_policy p vs @ (if ru_policy v = p then [v] else [])"
  by (simp add: of_policy_def)

lemma distinct_map_snoc: "distinct (map f xs) \<Longrightarrow> f y \<notin> f ` set xs \<Longrightarrow> distinct (map f (xs @ [y]))"
  by simp

lemma new_version_ok:
  assumes ok: "versions_ok e n vs" and v: "version_ok e v" "ru_id v = pv_fresh e n" "ru_version v = 1 + length (of_policy (ru_policy v) (vs_versions vs))"
    and fresh: "vs_content vs (ru_policy v, ru_hash v) = None" and inj: "inj (pv_fresh e)"
  shows "versions_ok e (Suc n) (vs\<lparr>vs_versions := vs_versions vs @ [v], vs_content := (vs_content vs)((ru_policy v, ru_hash v) \<mapsto> ru_id v)\<rparr>)"
proof -
  note parts = versions_okD [OF ok]
  have "ru_id v \<noteq> ru_id x" if "x \<in> set (vs_versions vs)" for x
    using parts(2) [OF that] v(2) inj by (auto dest: injD)
  then have "ru_id v \<notin> ru_id ` set (vs_versions vs)" by blast
  then have ids: "distinct (map ru_id (vs_versions vs @ [v]))" using parts(3) by simp
  have new: "\<not> (ru_policy x = ru_policy v \<and> ru_hash x = ru_hash v)" if "x \<in> set (vs_versions vs)" for x
    using parts(6) [of "ru_policy v" "ru_hash v" "ru_id x"] fresh that by auto
  have "(ru_policy v, ru_hash v) \<notin> (\<lambda>v. (ru_policy v, ru_hash v)) ` set (vs_versions vs)"
  proof
    assume "(ru_policy v, ru_hash v) \<in> (\<lambda>v. (ru_policy v, ru_hash v)) ` set (vs_versions vs)"
    then obtain x where x: "x \<in> set (vs_versions vs)" "(ru_policy v, ru_hash v) = (ru_policy x, ru_hash x)" by (rule imageE)
    from new [OF x(1)] x(2) show False by simp
  qed
  from distinct_map_snoc [OF parts(4) this]
  have contents: "distinct (map (\<lambda>v. (ru_policy v, ru_hash v)) (vs_versions vs @ [v]))" .
  have numbers: "map ru_version (of_policy p (vs_versions vs @ [v])) = [1..<Suc (length (of_policy p (vs_versions vs @ [v])))]" for p
    using parts(5) [of p] v(3) by (simp add: of_policy_snoc)
  have index: "((vs_content vs)((ru_policy v, ru_hash v) \<mapsto> ru_id v)) (p, h) = Some i
    \<longleftrightarrow> (\<exists>x \<in> set (vs_versions vs @ [v]). ru_policy x = p \<and> ru_hash x = h \<and> ru_id x = i)" for p h i
    using parts(6) [of p h i] new by auto
  have ks: "\<exists>k < Suc n. ru_id x = pv_fresh e k" if "x \<in> set (vs_versions vs @ [v])" for x
    using parts(2) [of x] v(2) that by (auto intro: less_SucI)
  have all_ok: "version_ok e x" if "x \<in> set (vs_versions vs @ [v])" for x
    using parts(1) [of x] v(1) that by auto
  let ?new = "vs\<lparr>vs_versions := vs_versions vs @ [v], vs_content := (vs_content vs)((ru_policy v, ru_hash v) \<mapsto> ru_id v)\<rparr>"
  have fields: "vs_versions ?new = vs_versions vs @ [v]" "vs_drafts ?new = vs_drafts vs"
    "vs_content ?new = (vs_content vs)((ru_policy v, ru_hash v) \<mapsto> ru_id v)" by simp_all
  show ?thesis
    unfolding versions_ok_def fields
    by (intro conjI ballI allI impI ids contents numbers index ks all_ok parts(7))
qed

lemma confirm_version_ok:
  assumes ok: "versions_ok e n vs" and draft: "draft_ok r" and inj: "inj (pv_fresh e)"
    and run: "confirm_version e (pv_fresh e n) p r vs = (x, vs')"
  shows "versions_ok e (Suc n) vs' \<and> (\<exists>ys. vs_versions vs' = vs_versions vs @ ys) \<and> vs_drafts vs' = vs_drafts vs"
proof (cases x)
  case (Inl y)
  then show ?thesis using confirm_version_Inl [of e "pv_fresh e n" p r vs y vs'] run versions_ok_tick [OF ok, of "Suc n"] by simp
next
  case (Inr v)
  from confirm_version_Inr [OF run [unfolded Inr]] obtain spec scenario where r: "cm_spec r = Some spec" "cm_status r = COMPILED"
    "builtin_templates (cm_template r) = Some scenario" "validate_rule_spec e spec scenario = []"
    and step: "case vs_content vs (p, content_hash e (cm_template r) spec) of
         Some i \<Rightarrow> version_of i vs = Inr v \<and> vs' = vs
       | None \<Rightarrow> ru_id v = pv_fresh e n \<and> ru_policy v = p \<and> ru_version v = 1 + length (of_policy p (vs_versions vs))
           \<and> ru_template v = cm_template r \<and> ru_spec v = spec \<and> ru_hash v = content_hash e (cm_template r) spec
           \<and> vs' = vs\<lparr>vs_versions := vs_versions vs @ [v], vs_content := (vs_content vs)((p, ru_hash v) \<mapsto> pv_fresh e n)\<rparr>" by blast
  show ?thesis
  proof (cases "vs_content vs (p, content_hash e (cm_template r) spec)")
    case None
    with step have v: "ru_id v = pv_fresh e n" "ru_policy v = p" "ru_version v = 1 + length (of_policy p (vs_versions vs))"
      "ru_template v = cm_template r" "ru_spec v = spec" "ru_hash v = content_hash e (cm_template r) spec"
      "vs' = vs\<lparr>vs_versions := vs_versions vs @ [v], vs_content := (vs_content vs)((p, ru_hash v) \<mapsto> pv_fresh e n)\<rparr>" by simp_all
    have "version_ok e v" using r draft v by (auto simp: version_ok_def draft_ok_def)
    from new_version_ok [OF ok this v(1) _ _ inj] v None show ?thesis by simp
  next
    case (Some i)
    then show ?thesis using step versions_ok_tick [OF ok, of "Suc n"] by simp
  qed
qed

section \<open>Served requests\<close>

definition service_ok :: "'p provider \<Rightarrow> 'p policy_service \<Rightarrow> bool" where
  "service_ok e s \<longleftrightarrow> (inj (pv_fresh e) \<longrightarrow> versions_ok e (po_tick s) (po_store s))"

definition service_later :: "'p provider \<Rightarrow> 'p policy_service \<Rightarrow> 'p policy_service \<Rightarrow> bool" where
  "service_later e s t \<longleftrightarrow> (inj (pv_fresh e) \<longrightarrow> (\<exists>ys. vs_versions (po_store t) = vs_versions (po_store s) @ ys))"

lemma confirm_result_store:
  "confirm_version e uid p r (po_store s) = (x, vs') \<Longrightarrow> snd (confirm_result e uid p r s) = s\<lparr>po_store := vs'\<rparr>"
  by (simp add: confirm_result_def split: sum.splits version_error.splits)

lemma confirm_result_ok:
  fixes p :: string
  assumes "versions_ok e (po_tick s) (po_store s)" "draft_ok r" "inj (pv_fresh e)"
  defines "t \<equiv> snd (confirm_result e (pv_fresh e (po_tick s)) p r (s\<lparr>po_tick := Suc (po_tick s)\<rparr>))"
  shows "versions_ok e (po_tick t) (po_store t) \<and> (\<exists>ys. vs_versions (po_store t) = vs_versions (po_store s) @ ys)"
proof -
  obtain x vs' where x: "confirm_version e (pv_fresh e (po_tick s)) p r (po_store s) = (x, vs')" by force
  then have "t = s\<lparr>po_tick := Suc (po_tick s), po_store := vs'\<rparr>"
    unfolding t_def using confirm_result_store [of e "pv_fresh e (po_tick s)" p r "s\<lparr>po_tick := Suc (po_tick s)\<rparr>" x vs'] by simp
  then show ?thesis using confirm_version_ok [OF assms(1-3) x] by simp
qed

lemma policy_step_ok:
  assumes ok: "versions_ok e (po_tick s) (po_store s)" and inj: "inj (pv_fresh e)"
  shows "versions_ok e (po_tick (policy_step e templates s q)) (po_store (policy_step e templates s q))
    \<and> (\<exists>ys. vs_versions (po_store (policy_step e templates s q)) = vs_versions (po_store s) @ ys)"
proof (cases q)
  case (Compile_request template words)
  obtain x a where x: "compile_rule e templates template words (po_adapter s) = (x, a)" by force
  have ok': "versions_ok e (Suc (po_tick s)) (po_store s)" using versions_ok_tick [OF ok] by simp
  show ?thesis
  proof (cases x)
    case None
    then show ?thesis using ok' x by (simp add: Compile_request policy_step_def serve_policy_def Let_def policy_compile_def)
  next
    case (Some r)
    then have "draft_ok r" using compile_rule_draft x by blast
    with Some x record_compile_ok [OF ok'] show ?thesis
      by (simp add: Compile_request policy_step_def serve_policy_def Let_def policy_compile_def record_compile_def)
  qed
next
  case (Confirm_request p confirmed)
  have ok': "versions_ok e (Suc (po_tick s)) (po_store s)" using versions_ok_tick [OF ok] by simp
  show ?thesis
  proof (cases "vs_drafts (po_store s) p")
    case None
    then show ?thesis using ok' by (simp add: Confirm_request policy_step_def serve_policy_def Let_def policy_confirm_def)
  next
    case (Some draft)
    have draft: "draft_ok draft" using versions_okD(7) [OF ok Some] .
    show ?thesis
    proof (cases confirmed)
      case None
      with Some confirm_result_ok [OF ok draft inj, of p] show ?thesis
        by (simp add: Confirm_request policy_step_def serve_policy_def Let_def policy_confirm_def)
    next
      case confirmed: (Some spec)
      have resolved: "draft_ok \<lparr>cm_status = COMPILED, cm_template = cm_template draft, cm_spec = Some spec,
          cm_questions = [], cm_errors = [], cm_call = cm_call draft\<rparr>" if "ambiguities spec = []"
        using that by (simp add: draft_ok_def)
      show ?thesis
        using ok' Some confirmed confirm_result_ok [OF ok resolved inj, of p]
        by (simp add: Confirm_request policy_step_def serve_policy_def Let_def policy_confirm_def split: option.splits)
    qed
  qed
qed

interpretation policies: step_machine "policy_step e templates" "service_ok e" "service_later e" for e templates
proof
  show "service_ok e s \<Longrightarrow> service_ok e (policy_step e templates s q)" for s q
    using policy_step_ok by (auto simp: service_ok_def)
  show "service_ok e s \<Longrightarrow> service_later e s (policy_step e templates s q)" for s q
    using policy_step_ok [of e s templates q] by (simp add: service_ok_def service_later_def)
qed (auto simp: service_later_def)

lemma served_ok: "inj (pv_fresh e) \<Longrightarrow> versions_ok e (po_tick (served_policies e templates w qs)) (po_store (served_policies e templates w qs))"
  using policies.run_good [of e "first_service w" templates qs]
  by (simp add: service_ok_def served_policies_def first_service_def no_versions_ok)

lemma served_later:
  assumes "inj (pv_fresh e)"
  shows "\<exists>ys. vs_versions (po_store (served_policies e templates w (qs @ qs2))) = vs_versions (po_store (served_policies e templates w qs)) @ ys"
  using policies.run_below_append [of e "first_service w" templates qs qs2] assms
  by (simp add: service_ok_def service_later_def served_policies_def first_service_def no_versions_ok)

end
