(* ===== verification/Control_Api.thy ===== *)
theory Control_Api
  imports Compiler_Facts Runtime_Machine
begin

text \<open>
  The public routes of the control plane (\<^verbatim>\<open>services/control_api/api.py\<close>) that act on the attack
  runtime: the limit on live runs, the creation of a run for a confirmed version, cancelling, and the
  event stream, with the scan for markers of hidden answers (\<^verbatim>\<open>packages/evaluation/security.py\<close>).
  A stream reads the store twice in every round; what the rest of the runtime does in between is an
  argument.
\<close>

section \<open>Limits\<close>

definition public_cap :: budget where
  "public_cap = \<lparr>bg_steps = 12, bg_tokens = 100000, bg_cost = 3 / 2, bg_time = 90\<rparr>"

definition within_public_cap :: "budget \<Rightarrow> bool" where
  "within_public_cap b \<longleftrightarrow> bg_steps b \<le> bg_steps public_cap \<and> bg_tokens b \<le> bg_tokens public_cap
     \<and> bg_cost b \<le> bg_cost public_cap \<and> bg_time b \<le> bg_time public_cap"

text \<open>The times of a client's accepted requests that are not older than the window.\<close>

definition limiter_check :: "nat \<Rightarrow> rat \<Rightarrow> string \<Rightarrow> rat \<Rightarrow> (string \<Rightarrow> rat list) \<Rightarrow> bool \<times> (string \<Rightarrow> rat list)" where
  "limiter_check limit seconds client now hits =
     (let window = dropWhile (\<lambda>t. seconds < now - t) (hits client) in
      if limit \<le> length window then (False, hits(client := window)) else (True, hits(client := window @ [now])))"

fun limited :: "nat \<Rightarrow> rat \<Rightarrow> (string \<times> rat) list \<Rightarrow> (string \<Rightarrow> rat list) \<Rightarrow> (string \<times> rat) list \<times> (string \<Rightarrow> rat list)" where
  "limited limit seconds [] hits = ([], hits)"
| "limited limit seconds ((client, now) # rs) hits = (case limiter_check limit seconds client now hits of
       (ok, hits') \<Rightarrow> (case limited limit seconds rs hits' of
         (accepted, hits'') \<Rightarrow> (if ok then (client, now) # accepted else accepted, hits'')))"

section \<open>Markers of hidden answers\<close>

definition leak_markers :: "string list" where
  "leak_markers = [''ground_truth'', ''expected_invariant_ids'', ''hidden_action_sequence'', ''sandbox_profile'', ''expected_outcome'']"

definition canonical_json :: "json \<Rightarrow> string" where
  "canonical_json v = json_text '','' '':'' (sorted_keys v)"

text \<open>The findings as the position of a payload and the marker it holds.\<close>

definition scan_forbidden_markers :: "(nat \<Rightarrow> code_text) \<Rightarrow> json list \<Rightarrow> (nat \<times> string) list" where
  "scan_forbidden_markers wide payloads = concat (map (\<lambda>(n, v).
     map (Pair n) (filter (\<lambda>m. contains_text (codes m) (casefold wide (codes (canonical_json v)))) leak_markers))
     (enumerate 0 payloads))"

section \<open>Runs\<close>

record 'p control =
  ct_policies :: "'p policy_service"
  ct_store :: runtime_store
  ct_hits :: "string \<Rightarrow> rat list"
  ct_queue :: "(string \<times> rule_spec) list"

record run_request =
  rr_version :: string
  rr_scenario :: string
  rr_sandbox :: string
  rr_oracle :: string
  rr_budget :: budget
  rr_seed :: int

datatype api_answer = Api_error nat | Api_run attack_run | Api_cancel bool attack_run | Api_raises

text \<open>
  The limiter counts a request before its body is looked at. A known key returns the run it made; the
  rules of the version named now go to the queue with it.
\<close>

definition api_create_run ::
  "nat \<Rightarrow> rat \<Rightarrow> string \<Rightarrow> rat \<Rightarrow> stamp \<Rightarrow> run_request \<Rightarrow> string \<Rightarrow> 'p control \<Rightarrow> api_answer \<times> 'p control" where
  "api_create_run limit seconds client now sp q key c =
     (case limiter_check limit seconds client now (ct_hits c) of (ok, hits) \<Rightarrow>
       let c1 = c\<lparr>ct_hits := hits\<rparr> in
       if \<not> ok then (Api_error 429, c1)
       else if \<not> within_public_cap (rr_budget q) then (Api_error 422, c1)
       else (case version_of (rr_version q) (po_store (ct_policies c1)) of
           Inl _ \<Rightarrow> (Api_error 409, c1)
         | Inr v \<Rightarrow> (case store_create key (rr_version q) (rr_scenario q) (rr_sandbox q) (rr_oracle q) (rr_budget q) (rr_seed q) []
                sp (ct_store c1) of
             (Inl _, st) \<Rightarrow> (Api_raises, c1\<lparr>ct_store := st\<rparr>)
           | (Inr run, st) \<Rightarrow> (Api_run run, c1\<lparr>ct_store := st, ct_queue := ct_queue c1 @ [(ar_id run, ru_spec v)]\<rparr>))))"

definition api_get_run :: "string \<Rightarrow> runtime_store \<Rightarrow> api_answer" where
  "api_get_run i st = (case get_run st i of Inl _ \<Rightarrow> Api_error 404 | Inr run \<Rightarrow> Api_run run)"

definition api_cancel_run :: "string \<Rightarrow> rat \<Rightarrow> runtime_store \<Rightarrow> api_answer \<times> runtime_store" where
  "api_cancel_run i now st = (case request_cancel i now st of
       (Inl Key_missing, st') \<Rightarrow> (Api_error 404, st')
     | (Inl _, st') \<Rightarrow> (Api_raises, st')
     | (Inr accepted, st') \<Rightarrow> (case get_run st' i of
           Inl _ \<Rightarrow> (Api_error 404, st')
         | Inr run \<Rightarrow> (Api_cancel accepted run, st')))"

definition api_counterexamples :: "string \<Rightarrow> runtime_store \<Rightarrow> nat + counterexample list" where
  "api_counterexamples i st = (case get_run st i of Inl _ \<Rightarrow> Inl 404 | Inr _ \<Rightarrow> Inr (counterexamples st i))"

section \<open>The event stream\<close>

datatype frame = Event_frame nat string string | Blocked_frame nat | Heartbeat

definition frame_of :: "(nat \<Rightarrow> code_text) \<Rightarrow> runtime_event \<Rightarrow> frame" where
  "frame_of wide ev = (if scan_forbidden_markers wide [rv_data ev] \<noteq> [] then Blocked_frame (rv_cursor ev)
     else Event_frame (rv_cursor ev) (rv_type ev) (json_text '','' '':'' (rv_data ev)))"

datatype stream_end = Connected nat | Finished nat | Broken

text \<open>\<^verbatim>\<open>Last-Event-ID\<close> moves the cursor forward only.\<close>

fun stream_cursor :: "nat \<Rightarrow> string option \<Rightarrow> nat option" where
  "stream_cursor cursor None = Some cursor"
| "stream_cursor cursor (Some s) = map_option (\<lambda>n. nat (max (int cursor) n)) (parse_int s)"

text \<open>
  One round for each pair: what happened to the store before the events are read, and between that and
  the reading of the status. After the last round the client is gone.
\<close>

fun event_stream ::
  "(nat \<Rightarrow> code_text) \<Rightarrow> string \<Rightarrow> bool \<Rightarrow> nat \<Rightarrow> (store_request list \<times> store_request list) list \<Rightarrow> runtime_store
   \<Rightarrow> frame list \<times> stream_end \<times> runtime_store" where
  "event_stream wide i follows cursor [] st = ([], Connected cursor, st)"
| "event_stream wide i follows cursor ((before, between) # rounds) st =
     (let st1 = foldl store_apply st before; st2 = foldl store_apply st1 between in
      case events_after st1 i cursor of
        Inl _ \<Rightarrow> ([], Broken, st1)
      | Inr values \<Rightarrow>
          let fs = map (frame_of wide) values; cursor' = (if values = [] then cursor else rv_cursor (last values)) in
          case get_run st2 i of
            Inl _ \<Rightarrow> (fs, Broken, st2)
          | Inr run \<Rightarrow>
              if \<not> follows \<or> ar_status run \<in> terminal_statuses then (fs, Finished cursor', st2)
              else (case event_stream wide i follows cursor' rounds st2 of
                (gs, x, st3) \<Rightarrow> (fs @ (if values = [] then [Heartbeat] else []) @ gs, x, st3)))"

end
