(* ===== verification/Compiler_Properties.thy ===== *)
theory Compiler_Properties
  imports Compiler_Facts
begin

text \<open>
  What the rule compiler and the policy service promise: nothing is compiled that the checks refuse or
  that leaves a question open, confirmed versions are append-only, and confirming twice is confirming once.
\<close>

section \<open>A concrete service\<close>

definition demo_rules :: "ambiguity list \<Rightarrow> rule_spec" where
  "demo_rules xs = \<lparr>spec_scenario = MEMBERSHIP_ENTITLEMENT, participants = [\<lparr>participant_id = ''user-1'', participant_is_system = False\<rparr>],
     assets = [], rules = [MembershipRule \<lparr>price = \<lparr>m_currency = CNY, m_amount = 50, m_scale = 2\<rparr>,
       entitlement_quantity = 2, rule_refund_policy = UNUSED_ONLY\<rparr>],
     spec_invariant_ids = [], ambiguities = xs\<rparr>"

text \<open>The first reply does not conform, the second does.\<close>

definition demo_provider :: "ambiguity list \<Rightarrow> nat provider" where
  "demo_provider xs = \<lparr>
     pv_call = (\<lambda>scenario errors words n. (Inr \<lparr>lr_content = string_of_nat n, lr_input = 10, lr_output = 5, lr_cost = 1 / 100\<rparr>, Suc n)),
     pv_name = ''fake'', pv_model = ''fake-structured'', pv_temperature = 0, pv_seed = None, pv_prompt = ''compiler-v1'',
     pv_uid = (\<lambda>n. ''call-'' @ string_of_nat n), pv_fresh = (\<lambda>n. replicate n (CHR ''x'')), pv_latency = (\<lambda>_. 7), pv_digest = (\<lambda>s. s),
     pv_read = (\<lambda>c. if c = ''0'' then Inl ''not an object'' else Inr (demo_rules xs)),
     pv_dump = (\<lambda>s. JObj [(''rules'', JList [])]), pv_fold = (\<lambda>c. [c])\<rparr>"

definition demo_text :: code_text where
  "demo_text = [20250, 21592, 53, 48]"

definition confirmed_versions ::
  "'p provider \<Rightarrow> (string \<rightharpoonup> scenario_type) \<Rightarrow> 'p \<Rightarrow> policy_request list \<Rightarrow> rule_version list" where
  "confirmed_versions e templates w qs = vs_versions (po_store (served_policies e templates w qs))"

lemma demo_fresh: "inj (pv_fresh (demo_provider xs))"
  by (rule injI) (simp add: demo_provider_def replicate_eq_replicate)

definition demo_requests :: "policy_request list" where
  "demo_requests = [Compile_request ''membership-entitlement'' demo_text, Confirm_request [] None]"

lemma demo_dump: "\<not> contains_dynamic_code (\<lambda>c. [c]) (codes (json_text '', '' '': '' (sorted_keys (JObj [(''rules'', JList [])]))))"
proof -
  have shown: "json_text '', '' '': '' (sorted_keys (JObj [(''rules'', JList [])])) = CHR ''{'' # CHR 0x22 # ''rules'' @ CHR 0x22 # '': []}''"
    by (simp add: json_quoted_def json_char_def)
  show ?thesis
    unfolding shown by (simp add: contains_dynamic_code_def forbidden_text_def casefold_def codes_def ascii_lower_def)
qed

lemma demo_words: "\<not> contains_dynamic_code (\<lambda>c. [c]) demo_text" "\<not> blank_text demo_text"
  "filter (\<lambda>m. contains_text m demo_text) vague_markers = []"
  by (simp_all add: contains_dynamic_code_def forbidden_text_def casefold_def codes_def ascii_lower_def demo_text_def blank_text_def
    space_class_def vague_markers_def)

lemma demo_valid: "validate_rule_spec (demo_provider xs) (demo_rules ys) MEMBERSHIP_ENTITLEMENT = []"
  using demo_dump by (simp add: validate_rule_spec_def demo_rules_def demo_provider_def encoded_spec_def)

lemma demo_templates: "builtin_templates ''membership-entitlement'' = Some MEMBERSHIP_ENTITLEMENT"
  by (simp add: builtin_templates_def)

lemma demo_fold: "pv_fold (demo_provider xs) = (\<lambda>c. [c])"
  by (simp add: demo_provider_def)

lemma demo_calls:
  "complete_structured (demo_provider xs) scenario errors words a = (Inr \<lparr>lr_content = string_of_nat (ad_world a), lr_input = 10, lr_output = 5, lr_cost = 1 / 100\<rparr>,
     record_call (call_of (demo_provider xs) (ad_tick a) 10 5 (1 / 100) (string_of_nat (ad_world a))) (a\<lparr>ad_world := Suc (ad_world a)\<rparr>))"
  by (simp add: complete_structured_def demo_provider_def)

lemma demo_reads: "pv_read (demo_provider xs) (string_of_nat 0) = Inl ''not an object''"
  "pv_read (demo_provider xs) (string_of_nat (Suc 0)) = Inr (demo_rules xs)"
  by (simp_all add: demo_provider_def string_of_nat_less_10 digit_chars)

lemma demo_attempts:
  "\<exists>a. compile_attempts (demo_provider xs) MEMBERSHIP_ENTITLEMENT demo_text 3 [] None (po_adapter (first_service 0)) = (Settles (Some (demo_rules xs)) [], a)
     \<and> map cl_input (ad_pending a) = [10, 10]"
  by (simp add: numeral_3_eq_3 demo_calls demo_reads demo_valid first_service_def record_call_def call_of_def)

lemma demo_questions: "questions_for (demo_provider xs) demo_text (demo_rules ys) = map (question_of (demo_provider xs) (demo_rules ys)) ys"
  using demo_words(3) by (simp add: questions_for_def Let_def demo_rules_def)

lemma map_two: "map f xs = [x, y] \<Longrightarrow> \<exists>c d. xs = [c, d] \<and> f c = x \<and> f d = y"
  by (auto simp: map_eq_Cons_conv)

lemma demo_compile:
  "\<exists>r a. compile_rule (demo_provider xs) builtin_templates ''membership-entitlement'' demo_text (po_adapter (first_service 0)) = (Some r, a)
    \<and> cm_status r = (if xs = [] then COMPILED else NEEDS_CONFIRMATION) \<and> cm_spec r = Some (demo_rules xs)
    \<and> cm_template r = ''membership-entitlement'' \<and> map_option cl_input (cm_call r) = Some 20"
proof -
  obtain a where a: "compile_attempts (demo_provider xs) MEMBERSHIP_ENTITLEMENT demo_text 3 [] None (po_adapter (first_service 0))
      = (Settles (Some (demo_rules xs)) [], a)" "map cl_input (ad_pending a) = [10, 10]"
    using demo_attempts [of xs] by (elim exE conjE)
  obtain c d where pending: "ad_pending a = [c, d]" "cl_input c = 10" "cl_input d = 10" 
    using map_two [OF a(2)] by blast
  have plain: "\<not> (blank_text demo_text \<or> contains_dynamic_code (pv_fold (demo_provider xs)) demo_text)"
    using demo_words(1,2) by (simp add: demo_fold)
  have "questions_for (demo_provider xs) demo_text (demo_rules xs) = [] \<longleftrightarrow> xs = []" by (simp add: demo_questions)
  then show ?thesis
    unfolding compile_rule_def demo_templates option.case if_not_P [OF plain] a(1)
    by (simp add: drain_call_records_def settle_def Let_def pending)
qed

section \<open>Compiling\<close>

text \<open>C27: a specification is compiled only from a rule text that is neither empty nor executable, from a
  reply that conforms to the schema, and only if the deterministic checks for the template's scenario
  find nothing; it counts as compiled exactly if it leaves no ambiguity and the text no vague phrase,
  and the recorded call sums up at most three attempts.\<close>

theorem compile_guarded:
  assumes "compile_rule e templates template words a = (Some r, a')" "cm_status r \<in> {COMPILED, NEEDS_CONFIRMATION}"
    and "ad_pending a = []"
  shows "\<exists>scenario spec content cs. templates template = Some scenario \<and> cm_spec r = Some spec \<and> validate_rule_spec e spec scenario = []
    \<and> pv_read e content = Inr spec \<and> \<not> blank_text words \<and> \<not> contains_dynamic_code (pv_fold e) words
    \<and> (cm_status r = COMPILED \<longleftrightarrow> ambiguities spec = [] \<and> \<not> (\<exists>m \<in> set vague_markers. contains_text m words))
    \<and> cm_call r = aggregate_call_records cs \<and> length cs \<le> 3"
proof -
  from compile_rule_cases [OF assms(1,2)] obtain scenario spec content cs where
    r: "templates template = Some scenario" "cm_spec r = Some spec" "validate_rule_spec e spec scenario = []"
    "pv_read e content = Inr spec" "\<not> blank_text words" "\<not> contains_dynamic_code (pv_fold e) words"
    "cm_call r = aggregate_call_records (ad_pending a @ cs)" "length cs \<le> 3"
    and status: "cm_status r = (if questions_for e words spec = [] then COMPILED else NEEDS_CONFIRMATION)"
    by metis
  have "questions_for e words spec = [] \<longleftrightarrow> ambiguities spec = [] \<and> filter (\<lambda>m. contains_text m words) vague_markers = []"
    by (cases "ambiguities spec") (simp_all add: questions_for_def Let_def)
  then have "cm_status r = COMPILED \<longleftrightarrow> ambiguities spec = [] \<and> \<not> (\<exists>m \<in> set vague_markers. contains_text m words)"
    using status by (simp add: filter_empty_conv)
  with r assms(3) show ?thesis by auto
qed

theorem compile_guarded_witness:
  "\<exists>r a spec. compile_rule (demo_provider []) builtin_templates ''membership-entitlement'' demo_text (po_adapter (first_service 0)) = (Some r, a)
    \<and> cm_status r = COMPILED \<and> cm_spec r = Some spec \<and> validate_rule_spec (demo_provider []) spec MEMBERSHIP_ENTITLEMENT = []"
proof -
  obtain r a where r: "compile_rule (demo_provider []) builtin_templates ''membership-entitlement'' demo_text (po_adapter (first_service 0)) = (Some r, a)"
    "cm_status r = COMPILED" using demo_compile [of "[]"] by auto
  have "cm_status r \<in> {COMPILED, NEEDS_CONFIRMATION}" "ad_pending (po_adapter (first_service 0)) = []"
    using r(2) by (simp_all add: first_service_def)
  from compile_guarded [OF r(1) this] r demo_templates show ?thesis by auto
qed

section \<open>Versions\<close>

text \<open>C28: whatever requests to compile and to confirm are served, the versions already confirmed stay as
  they are, the versions of a policy are numbered from one without gaps, no content is stored twice for a
  policy, and every version passes the checks of its built-in template and leaves no ambiguity open.\<close>

theorem versions_append_only:
  assumes "inj (pv_fresh e)"
  shows "(\<exists>new. confirmed_versions e templates w (qs @ qs2) = confirmed_versions e templates w qs @ new)
    \<and> map ru_version (filter (\<lambda>v. ru_policy v = p) (confirmed_versions e templates w qs)) = [1..<Suc (length (filter (\<lambda>v. ru_policy v = p) (confirmed_versions e templates w qs)))]
    \<and> distinct (map ru_id (confirmed_versions e templates w qs)) \<and> distinct (map (\<lambda>v. (ru_policy v, ru_hash v)) (confirmed_versions e templates w qs))
    \<and> (\<forall>v \<in> set (confirmed_versions e templates w qs). ambiguities (ru_spec v) = []
        \<and> (\<exists>scenario. builtin_templates (ru_template v) = Some scenario \<and> validate_rule_spec e (ru_spec v) scenario = []))"
proof -
  note parts = versions_okD [OF served_ok [OF assms(1), of templates w qs]]
  show ?thesis
    unfolding confirmed_versions_def using served_later [OF assms(1), of templates w qs qs2] parts(3,4) parts(5) [of p] parts(1)
    by (auto simp: of_policy_def version_ok_def)
qed

lemma demo_version: "\<exists>v. confirmed_versions (demo_provider []) builtin_templates 0 demo_requests = [v] \<and> ru_version v = 1 \<and> ru_spec v = demo_rules [] \<and> ru_id v = ''x''"
proof -
  obtain r a where r: "compile_rule (demo_provider []) builtin_templates ''membership-entitlement'' demo_text (po_adapter (first_service 0)) = (Some r, a)"
    "cm_status r = COMPILED" "cm_spec r = Some (demo_rules [])" "cm_template r = ''membership-entitlement''"
    using demo_compile [of "[]"] by auto
  have fresh: "pv_fresh (demo_provider []) 0 = []" "pv_fresh (demo_provider []) (Suc 0) = ''x''" by (simp_all add: demo_provider_def)
  show ?thesis
    using r demo_templates demo_valid [of "[]" "[]"] fresh
    by (simp add: confirmed_versions_def served_policies_def demo_requests_def policy_step_def serve_policy_def Let_def policy_compile_def
      policy_confirm_def confirm_result_def confirm_version_def first_service_def no_versions_def record_compile_def)
qed

theorem versions_append_only_witness:
  "\<exists>v. confirmed_versions (demo_provider []) builtin_templates 0 demo_requests = [v] \<and> ambiguities (ru_spec v) = []
    \<and> validate_rule_spec (demo_provider []) (ru_spec v) MEMBERSHIP_ENTITLEMENT = []"
proof -
  obtain v where v: "confirmed_versions (demo_provider []) builtin_templates 0 demo_requests = [v]" "ru_spec v = demo_rules []"
    using demo_version by blast
  from versions_append_only [OF demo_fresh [of "[]"], of builtin_templates 0 demo_requests] v demo_valid show ?thesis by simp
qed

lemma confirm_version_again:
  assumes run: "confirm_version e uid p r vs = (Inr v, vs')" and ok: "versions_ok e n vs'"
  shows "confirm_version e uid' p r vs' = (Inr v, vs') \<and> vs_drafts vs' = vs_drafts vs"
proof -
  from confirm_version_Inr [OF run] obtain spec scenario where r: "cm_spec r = Some spec" "cm_status r = COMPILED"
    "builtin_templates (cm_template r) = Some scenario" "validate_rule_spec e spec scenario = []"
    and step: "case vs_content vs (p, content_hash e (cm_template r) spec) of
         Some i \<Rightarrow> version_of i vs = Inr v \<and> vs' = vs
       | None \<Rightarrow> ru_id v = uid \<and> ru_policy v = p \<and> ru_version v = 1 + length (of_policy p (vs_versions vs))
           \<and> ru_template v = cm_template r \<and> ru_spec v = spec \<and> ru_hash v = content_hash e (cm_template r) spec
           \<and> vs' = vs\<lparr>vs_versions := vs_versions vs @ [v], vs_content := (vs_content vs)((p, ru_hash v) \<mapsto> uid)\<rparr>" by blast
  obtain i where i: "vs_content vs' (p, content_hash e (cm_template r) spec) = Some i" "version_of i vs' = Inr v"
  proof (cases "vs_content vs (p, content_hash e (cm_template r) spec)")
    case (Some i)
    then show thesis using that step by simp
  next
    case None
    then have v: "ru_id v = uid" "v \<in> set (vs_versions vs')" "vs_content vs' (p, content_hash e (cm_template r) spec) = Some uid"
      using step by auto
    then have "find_row ru_id uid (vs_versions vs') = Some v"
      using find_row_distinct [OF versions_okD(3) [OF ok] v(2)] by simp
    then show thesis using that [OF v(3)] by (simp add: version_of_def of_option_def)
  qed
  moreover have "vs_drafts vs' = vs_drafts vs"
    using step by (auto split: option.splits)
  ultimately show ?thesis using r by (simp add: confirm_version_def)
qed

text \<open>Confirming is idempotent: once a confirmation of a policy has returned a version, the same
  confirmation returns that version again, and stores nothing new.\<close>

theorem confirm_idempotent:
  assumes "inj (pv_fresh e)"
    and "serve_policy e templates (served_policies e templates w qs) (Confirm_request p c) = (Confirmed v, s')"
  shows "serve_policy e templates s' (Confirm_request p c) = (Confirmed v, s'\<lparr>po_tick := po_tick s' + 1\<rparr>)"
proof -
  let ?s = "served_policies e templates w qs"
  have "s' = policy_step e templates ?s (Confirm_request p c)" using assms(2) by (simp add: policy_step_def)
  then have ok: "versions_ok e (po_tick s') (po_store s')"
    using policy_step_ok [OF served_ok [OF assms(1)] assms(1)] by simp
  obtain draft where draft: "vs_drafts (po_store ?s) p = Some draft"
    using assms(2) by (cases "vs_drafts (po_store ?s) p") (auto simp: serve_policy_def Let_def policy_confirm_def)
  obtain r where r: "policy_confirm e templates uid p c t = confirm_result e uid p r t"
    if "vs_drafts (po_store t) p = Some draft" for uid t
    using assms(2) draft
    by (fastforce simp: serve_policy_def Let_def policy_confirm_def split: option.splits if_splits)
  have "confirm_result e (pv_fresh e (po_tick ?s)) p r (?s\<lparr>po_tick := po_tick ?s + 1\<rparr>) = (Confirmed v, s')"
    using assms(2) draft r by (simp add: serve_policy_def)
  then obtain vs' where vs': "confirm_version e (pv_fresh e (po_tick ?s)) p r (po_store ?s) = (Inr v, vs')"
    "s' = ?s\<lparr>po_tick := po_tick ?s + 1, po_store := vs'\<rparr>"
    by (auto simp: confirm_result_def split: prod.splits sum.splits version_error.splits)
  from confirm_version_again [OF vs'(1)] ok vs'(2) draft r show ?thesis
    by (simp add: serve_policy_def confirm_result_def)
qed

lemma demo_confirm:
  "\<exists>v s'. serve_policy (demo_provider []) builtin_templates
      (served_policies (demo_provider []) builtin_templates 0 [Compile_request ''membership-entitlement'' demo_text]) (Confirm_request [] None) = (Confirmed v, s')"
proof -
  obtain r a where r: "compile_rule (demo_provider []) builtin_templates ''membership-entitlement'' demo_text (po_adapter (first_service 0)) = (Some r, a)"
    "cm_status r = COMPILED" "cm_spec r = Some (demo_rules [])" "cm_template r = ''membership-entitlement''"
    using demo_compile [of "[]"] by auto
  have fresh: "pv_fresh (demo_provider []) 0 = []" by (simp add: demo_provider_def)
  show ?thesis
    using r demo_templates demo_valid [of "[]" "[]"] fresh
    by (simp add: served_policies_def policy_step_def serve_policy_def Let_def policy_compile_def
      policy_confirm_def confirm_result_def confirm_version_def first_service_def no_versions_def record_compile_def)
qed

theorem confirm_idempotent_witness:
  "\<exists>v s'. serve_policy (demo_provider []) builtin_templates s' (Confirm_request [] None) = (Confirmed v, s'\<lparr>po_tick := po_tick s' + 1\<rparr>)"
proof -
  obtain v s' where "serve_policy (demo_provider []) builtin_templates
      (served_policies (demo_provider []) builtin_templates 0 [Compile_request ''membership-entitlement'' demo_text]) (Confirm_request [] None) = (Confirmed v, s')"
    using demo_confirm by (elim exE)
  from confirm_idempotent [OF demo_fresh this] show ?thesis by (intro exI)
qed

section \<open>Field paths\<close>

text \<open>C0: a printed field path resolves to the value its steps lead to: names joined by points, with list
  positions in brackets, for names that hold neither a point nor a bracket.\<close>

theorem field_path_resolves:
  assumes "segs \<noteq> []" "list_all (plain_name \<circ> fst) segs"
  shows "value_at_path doc (join_text ''.'' (map segment_text segs)) = follow doc segs"
  using assms by (rule value_at_text)

theorem field_path_resolves_witness:
  "value_at_path (JObj [(''rules'', JList [JObj [(''price'', JInt 50)]])]) ''rules[0].price'' = JInt 50"
proof -
  have "list_all (plain_name \<circ> fst) [(''rules'', Some 0), (''price'', None)]" by (simp add: plain_name_def)
  from field_path_resolves [OF _ this, of "JObj [(''rules'', JList [JObj [(''price'', JInt 50)]])]"]
  show ?thesis by (simp add: string_of_nat_less_10 digit_chars)
qed

end
