(* ===== verification/Control_Properties.thy ===== *)
theory Control_Properties
  imports Control_Api Compiler_Properties
begin

text \<open>
  The limiter bounds the accepted requests in any window; a run is queued with the rules of a confirmed
  version, and where it is not the run's own; a stream delivers every event once and in order, and where
  it ends before the last one.
\<close>

section \<open>The limiter\<close>

definition spaced :: "nat \<Rightarrow> rat \<Rightarrow> rat list \<Rightarrow> bool" where
  "spaced limit seconds xs \<longleftrightarrow> (\<forall>i. i + limit < length xs \<longrightarrow> seconds < xs ! (i + limit) - xs ! i)"

definition window_of :: "nat \<Rightarrow> rat \<Rightarrow> rat \<Rightarrow> rat list \<Rightarrow> rat list \<Rightarrow> bool" where
  "window_of limit seconds now prior w \<longleftrightarrow> spaced limit seconds prior
     \<and> (\<exists>old. prior = old @ w \<and> (\<forall>t \<in> set old. seconds < now - t))"

lemma window_later:
  assumes "window_of limit seconds now prior w" "now \<le> t"
  shows "window_of limit seconds t prior w"
proof -
  obtain old where old: "prior = old @ w" "\<forall>x \<in> set old. seconds < now - x" using assms(1) by (auto simp: window_of_def)
  have "\<forall>x \<in> set old. seconds < t - x" using old(2) assms(2) by force
  then show ?thesis using assms(1) old(1) by (auto simp: window_of_def)
qed

lemma window_drop:
  assumes "window_of limit seconds now prior w"
  shows "window_of limit seconds now prior (dropWhile (\<lambda>t. seconds < now - t) w)"
proof -
  obtain old where old: "prior = old @ w" "\<forall>t \<in> set old. seconds < now - t" using assms by (auto simp: window_of_def)
  have "prior = (old @ takeWhile (\<lambda>t. seconds < now - t) w) @ dropWhile (\<lambda>t. seconds < now - t) w"
    using old(1) by simp
  moreover have "\<forall>t \<in> set (old @ takeWhile (\<lambda>t. seconds < now - t) w). seconds < now - t"
    using old(2) by (auto dest: set_takeWhileD)
  ultimately show ?thesis using assms unfolding window_of_def by blast
qed

lemma window_accept:
  assumes "window_of limit seconds now prior w" "length w < limit"
  shows "window_of limit seconds now (prior @ [now]) (w @ [now])"
proof -
  obtain old where old: "prior = old @ w" "\<forall>t \<in> set old. seconds < now - t" and sp: "spaced limit seconds prior"
    using assms by (auto simp: window_of_def)
  have "seconds < (prior @ [now]) ! (i + limit) - (prior @ [now]) ! i" if i: "i + limit < length (prior @ [now])" for i
  proof (cases "i + limit < length prior")
    case True
    then show ?thesis using sp by (simp add: spaced_def nth_append)
  next
    case False
    then have at: "i + limit = length prior" using i by simp
    then have "i < length old" using assms(2) old(1) by simp
    then show ?thesis using at old by (simp add: nth_append)
  qed
  then show ?thesis unfolding window_of_def spaced_def using old by (auto intro!: exI [of _ old])
qed

definition accepted_of :: "string \<Rightarrow> (string \<times> rat) list \<Rightarrow> rat list" where
  "accepted_of client rs = map snd (filter (\<lambda>r. fst r = client) rs)"

lemma limited_spaced:
  assumes "sorted (map snd rs)" "window_of limit seconds start prior (hits client)" "\<forall>r \<in> set rs. start \<le> snd r"
  shows "spaced limit seconds (prior @ accepted_of client (fst (limited limit seconds rs hits)))"
  using assms
proof (induction rs arbitrary: hits prior start)
  case Nil
  then show ?case by (simp add: window_of_def accepted_of_def)
next
  case (Cons r rs)
  obtain c now where r: "r = (c, now)" by (cases r)
  let ?w = "dropWhile (\<lambda>t. seconds < now - t) (hits c)"
  have later: "\<forall>r \<in> set rs. now \<le> snd r" and rest: "sorted (map snd rs)" using Cons.prems(1) r by auto
  have now: "window_of limit seconds now prior (hits client)" using window_later Cons.prems(2,3) r by simp
  have step: "fst (limited limit seconds (r # rs) hits) = (if fst (limiter_check limit seconds c now hits) then [(c, now)] else [])
      @ fst (limited limit seconds rs (snd (limiter_check limit seconds c now hits)))"
    by (simp add: r split: prod.splits)
  show ?case
  proof (cases "c = client")
    case False
    have "snd (limiter_check limit seconds c now hits) client = hits client"
      using False by (simp add: limiter_check_def Let_def)
    then have "spaced limit seconds (prior @ accepted_of client (fst (limited limit seconds rs (snd (limiter_check limit seconds c now hits)))))"
      using Cons.IH [OF rest _ later] now by simp
    then show ?thesis unfolding step using False by (simp add: accepted_of_def)
  next
    case True
    have drop: "window_of limit seconds now prior ?w" using window_drop now True by simp
    show ?thesis
    proof (cases "limit \<le> length ?w")
      case refused: True
      have "window_of limit seconds now prior (snd (limiter_check limit seconds c now hits) client)"
        using refused drop True by (simp add: limiter_check_def Let_def)
      note Cons.IH [where hits = "snd (limiter_check limit seconds c now hits)", OF rest this later]
      moreover have "\<not> fst (limiter_check limit seconds c now hits)" using refused by (simp add: limiter_check_def Let_def)
      ultimately show ?thesis unfolding step by simp
    next
      case False
      then have "window_of limit seconds now (prior @ [now]) (?w @ [now])" using window_accept drop by simp
      then have "window_of limit seconds now (prior @ [now]) (snd (limiter_check limit seconds c now hits) client)"
        using False True by (simp add: limiter_check_def Let_def)
      note Cons.IH [where hits = "snd (limiter_check limit seconds c now hits)", OF rest this later]
      moreover have "fst (limiter_check limit seconds c now hits)" using False by (simp add: limiter_check_def Let_def)
      ultimately show ?thesis unfolding step using True by (simp add: accepted_of_def)
    qed
  qed
qed

text \<open>C29: the public limiter holds for every window: of the requests of one client that it lets through,
  no more than the limit fall into any span of the window's length, however the requests of all clients
  interleave.\<close>

theorem rate_limit_holds:
  assumes "sorted (map snd rs)" "accepted_of client (fst (limited limit seconds rs (\<lambda>_. []))) = acc" "i + limit < length acc"
  shows "seconds < acc ! (i + limit) - acc ! i"
proof -
  have "spaced limit seconds acc"
  proof (cases rs)
    case Nil
    then show ?thesis using assms by (simp add: accepted_of_def spaced_def)
  next
    case (Cons r rs')
    have "window_of limit seconds (snd r) [] []" by (simp add: window_of_def spaced_def)
    moreover have "\<forall>x \<in> set rs. snd r \<le> snd x" using assms(1) Cons by auto
    ultimately show ?thesis using limited_spaced [OF assms(1), of limit seconds "snd r" "[]" "\<lambda>_. []" client] assms(2) by simp
  qed
  then show ?thesis using assms(3) by (simp add: spaced_def)
qed

definition demo_hits :: "(string \<times> rat) list" where
  "demo_hits = [(''a'', 0), (''b'', 1), (''a'', 10), (''a'', 20), (''a'', 301), (''a'', 305)]"

theorem rate_limit_holds_witness:
  "accepted_of ''a'' (fst (limited 2 300 demo_hits (\<lambda>_. []))) = [0, 10, 301] \<and> (300 :: rat) < 301 - 0"
proof -
  have acc: "accepted_of ''a'' (fst (limited 2 300 demo_hits (\<lambda>_. []))) = [0, 10, 301]"
    by (simp add: demo_hits_def accepted_of_def limiter_check_def Let_def)
  have "sorted (map snd demo_hits)" by (simp add: demo_hits_def)
  from rate_limit_holds [OF this acc, of 0] acc show ?thesis by simp
qed

section \<open>Runs\<close>

text \<open>A run that the public route creates under a new key is ready, names a confirmed version and is
  queued with the rules of that version, which pass the checks of their template and leave no ambiguity
  open; its budget is within the public cap, and the client within the limit.\<close>

theorem created_run_confirmed:
  assumes "inj (pv_fresh e)" "ct_policies c = served_policies e templates w qs"
    and "st_jobs (ct_store c) key = None"
    and "api_create_run limit seconds client now sp q key c = (Api_run run, c')"
  shows "ar_status run = Ready \<and> ar_job run = key \<and> st_runs (ct_store c') (ar_id run) = Some run
    \<and> within_public_cap (ar_budget run)
    \<and> (\<exists>v scenario. v \<in> set (confirmed_versions e templates w qs) \<and> ru_id v = ar_rule_version run
        \<and> ct_queue c' = ct_queue c @ [(ar_id run, ru_spec v)]
        \<and> ambiguities (ru_spec v) = [] \<and> builtin_templates (ru_template v) = Some scenario \<and> validate_rule_spec e (ru_spec v) scenario = [])"
proof -
  let ?vs = "po_store (ct_policies c)"
  obtain v where v: "version_of (rr_version q) ?vs = Inr v"
    and run: "within_public_cap (rr_budget q)" "ar_status run = Ready" "ar_job run = key" "ar_budget run = rr_budget q"
      "ar_rule_version run = rr_version q" "st_runs (ct_store c') (ar_id run) = Some run"
      "ct_queue c' = ct_queue c @ [(ar_id run, ru_spec v)]"
    using assms(3,4) by (auto simp: api_create_run_def store_create_def Let_def split: prod.splits if_splits sum.splits)
  then have found: "v \<in> set (vs_versions ?vs)" "ru_id v = rr_version q"
    by (auto simp: version_of_def of_option_def dest: find_row_SomeD split: option.splits)
  have "version_ok e v" using versions_okD(1) [OF served_ok [OF assms(1)]] found(1) assms(2) by simp
  then show ?thesis using run found assms(2) by (auto simp: version_ok_def confirmed_versions_def)
qed

definition demo_control :: "nat control" where
  "demo_control = \<lparr>ct_policies = served_policies (demo_provider []) builtin_templates 0 demo_requests, ct_store = empty_store,
     ct_hits = (\<lambda>_. []), ct_queue = []\<rparr>"

definition demo_request :: run_request where
  "demo_request = \<lparr>rr_version = ''x'', rr_scenario = ''s'', rr_sandbox = ''fixed'', rr_oracle = ''1.0'',
     rr_budget = \<lparr>bg_steps = 12, bg_tokens = 1000, bg_cost = 1, bg_time = 60\<rparr>, rr_seed = 0\<rparr>"

lemma demo_found:
  "\<exists>v. version_of ''x'' (po_store (ct_policies demo_control)) = Inr v \<and> ru_spec v = demo_rules []"
proof -
  obtain v where "confirmed_versions (demo_provider []) builtin_templates 0 demo_requests = [v]" "ru_spec v = demo_rules []" "ru_id v = ''x''"
    using demo_version by blast
  then show ?thesis by (simp add: version_of_def of_option_def confirmed_versions_def demo_control_def find_row_def)
qed

lemma demo_created:
  "\<exists>run c'. api_create_run 10 300 ''client'' 0 \<lparr>sp_uid = ''run'', sp_now = 0\<rparr> demo_request ''key'' demo_control = (Api_run run, c')"
proof -
  obtain v where "version_of ''x'' (po_store (ct_policies demo_control)) = Inr v" using demo_found by blast
  then show ?thesis
    by (simp add: api_create_run_def limiter_check_def Let_def within_public_cap_def public_cap_def demo_request_def store_create_def
      demo_control_def empty_store_def)
qed

theorem created_run_confirmed_witness:
  "\<exists>run c'. api_create_run 10 300 ''client'' 0 \<lparr>sp_uid = ''run'', sp_now = 0\<rparr> demo_request ''key'' demo_control = (Api_run run, c')
    \<and> ar_status run = Ready \<and> ct_queue c' = [(ar_id run, demo_rules [])]"
proof -
  obtain run c' where run: "api_create_run 10 300 ''client'' 0 \<lparr>sp_uid = ''run'', sp_now = 0\<rparr> demo_request ''key'' demo_control = (Api_run run, c')"
    using demo_created by blast
  have "ct_policies demo_control = served_policies (demo_provider []) builtin_templates 0 demo_requests" "st_jobs (ct_store demo_control) ''key'' = None"
    "ct_queue demo_control = []" by (simp_all add: demo_control_def empty_store_def)
  from created_run_confirmed [OF demo_fresh this(1,2) run] demo_version this(3) run show ?thesis by auto
qed

text \<open>C31: a repeated key returns the run it made before, unchanged, but the queue receives that run with
  the rules of the version named now: a worker that takes the job judges a run of one version by the
  rules of another.\<close>

theorem repeated_key_other_rules:
  assumes "st_jobs (ct_store c) key = Some i" "st_runs (ct_store c) i = Some run"
    and "fst (limiter_check limit seconds client now (ct_hits c))" "within_public_cap (rr_budget q)"
    and "version_of (rr_version q) (po_store (ct_policies c)) = Inr v"
  shows "fst (api_create_run limit seconds client now sp q key c) = Api_run run
    \<and> ct_store (snd (api_create_run limit seconds client now sp q key c)) = ct_store c
    \<and> ct_queue (snd (api_create_run limit seconds client now sp q key c)) = ct_queue c @ [(ar_id run, ru_spec v)]"
proof -
  obtain h where "limiter_check limit seconds client now (ct_hits c) = (True, h)"
    using assms(3) by (cases "limiter_check limit seconds client now (ct_hits c)") simp
  then show ?thesis using assms by (simp add: api_create_run_def Let_def store_create_def of_option_def)
qed

definition other_run :: attack_run where
  "other_run = \<lparr>ar_id = ''run'', ar_job = ''key'', ar_rule_version = ''other'', ar_scenario_version = ''s'', ar_sandbox_version = ''fixed'',
     ar_axes = [], ar_oracle_version = ''1.0'', ar_status = Ready, ar_outcome = None,
     ar_budget = \<lparr>bg_steps = 12, bg_tokens = 1000, bg_cost = 1, bg_time = 60\<rparr>, ar_seed = 0, ar_created = 0\<rparr>"

definition used_control :: "nat control" where
  "used_control = demo_control\<lparr>ct_store := empty_store\<lparr>st_jobs := [''key'' \<mapsto> ''run''], st_runs := [''run'' \<mapsto> other_run]\<rparr>\<rparr>"

theorem repeated_key_other_rules_witness:
  "ar_rule_version other_run \<noteq> rr_version demo_request
    \<and> ct_queue (snd (api_create_run 10 300 ''client'' 0 \<lparr>sp_uid = ''run'', sp_now = 0\<rparr> demo_request ''key'' used_control)) = [(''run'', demo_rules [])]"
proof -
  obtain v where v: "version_of ''x'' (po_store (ct_policies demo_control)) = Inr v" "ru_spec v = demo_rules []" using demo_found by blast
  have "st_jobs (ct_store used_control) ''key'' = Some ''run''" "st_runs (ct_store used_control) ''run'' = Some other_run"
    "fst (limiter_check 10 300 ''client'' 0 (ct_hits used_control))" "within_public_cap (rr_budget demo_request)"
    "version_of (rr_version demo_request) (po_store (ct_policies used_control)) = Inr v"
    using v(1) by (simp_all add: used_control_def limiter_check_def Let_def demo_control_def within_public_cap_def public_cap_def demo_request_def)
  from repeated_key_other_rules [OF this] v(2) show ?thesis
    by (simp add: other_run_def demo_request_def used_control_def demo_control_def)
qed

section \<open>The event stream\<close>

lemma cursors_drop:
  assumes "map rv_cursor es = [1..<Suc (length es)]"
  shows "filter (\<lambda>x. c < rv_cursor x) es = drop c es"
  using assms
proof (induction es rule: rev_induct)
  case (snoc x es)
  then have "map rv_cursor es = [1..<Suc (length es)]" "rv_cursor x = Suc (length es)" by simp_all
  then show ?case using snoc.IH by (auto simp: not_less drop_append)
qed simp

definition sent :: "frame list \<Rightarrow> frame list" where
  "sent = filter (\<lambda>f. f \<noteq> Heartbeat)"

lemma frame_of_sent: "frame_of wide ev \<noteq> Heartbeat"
  by (simp add: frame_of_def)

lemma sent_frames: "sent (map (frame_of wide) es) = map (frame_of wide) es"
  by (simp add: sent_def frame_of_sent filter_id_conv)

lemma stream_cursor_step:
  assumes "map rv_cursor es = [1..<Suc (length es)]" "values = drop c es"
  shows "(if values = [] then c else rv_cursor (last values)) = max c (length es)"
proof (cases "c < length es")
  case True
  have "rv_cursor (es ! (length es - 1)) = length es"
    using arg_cong [OF assms(1), of "\<lambda>xs. xs ! (length es - 1)"] True by (simp del: upt_Suc)
  then show ?thesis using True assms(2) by (simp add: last_conv_nth)
qed (use assms(2) in simp)

lemma drop_take_append:
  assumes "max c (length es) \<le> c'"
  shows "drop c (take c' (es @ fs)) = drop c es @ drop (max c (length es)) (take c' (es @ fs))"
  using assms by (cases "c \<le> length es") (auto simp: max_def)

lemma stream_prefix:
  assumes "store_ok st" "st_runs st i \<noteq> None" "event_stream wide i follows c rounds st = (fs, x, st')"
  shows "store_ok st' \<and> (\<exists>es. events_of st' i = events_of st i @ es)
    \<and> (\<exists>c'. c \<le> c' \<and> sent fs = map (frame_of wide) (drop c (take c' (events_of st' i))) \<and> x \<in> {Connected c', Finished c', Broken})"
  using assms
proof (induction wide i follows c rounds st arbitrary: fs x st' rule: event_stream.induct)
  case (1 wide i follows c st)
  then show ?case by (auto simp: sent_def intro!: exI [of _ c])
next
  case (2 wide i follows c before between rounds st)
  define st1 where "st1 = foldl store_apply st before"
  define st2 where "st2 = foldl store_apply st1 between"
  have ok1: "store_ok st1" and later1: "store_later st st1"
    using attack_store.run_good attack_store.run_below "2.prems"(1) by (auto simp: st1_def)
  have ok2: "store_ok st2" and later2: "store_later st1 st2"
    using attack_store.run_good attack_store.run_below ok1 by (auto simp: st2_def)
  obtain es1 where es1: "events_of st1 i = events_of st i @ es1" and run1: "st_runs st1 i \<noteq> None"
    using later1 "2.prems"(2) unfolding store_later_def by blast
  obtain es2 where es2: "events_of st2 i = events_of st1 i @ es2" and run2: "st_runs st2 i \<noteq> None"
    using later2 run1 unfolding store_later_def by blast
  have cursors: "map rv_cursor (events_of st1 i) = [1..<Suc (length (events_of st1 i))]"
    using ok1 run1 unfolding store_ok_def run_entry_ok_def log_ok_def by blast
  show ?case
  proof (cases "st_events st1 i")
    case None
    then have "event_stream wide i follows c ((before, between) # rounds) st = ([], Broken, st1)"
      by (simp add: Let_def st1_def [symmetric] events_after_def of_option_def and_then_def)
    then show ?thesis using "2.prems"(3) ok1 es1 by (auto simp: sent_def intro!: exI [of _ c])
  next
    case (Some es)
    then have es: "events_of st1 i = es" by (simp add: events_of_def)
    define vals where "vals = drop c es"
    define c1 where "c1 = (if vals = [] then c else rv_cursor (last vals))"
    have after: "events_after st1 i c = Inr vals"
      using Some cursors_drop [OF cursors, of c] es by (simp add: events_after_def of_option_def and_then_def vals_def)
    have c1: "c1 = max c (length es)"
      using stream_cursor_step [of es vals c] cursors es by (simp add: c1_def vals_def)
    obtain run where run: "get_run st2 i = Inr run" using run2 by (auto simp: get_run_def of_option_def)
    have whole: "drop c (take c1 (events_of st2 i)) = vals"
      using es es2 by (auto simp: c1 vals_def max_def)
    have eq: "event_stream wide i follows c ((before, between) # rounds) st =
      (if \<not> follows \<or> ar_status run \<in> terminal_statuses then (map (frame_of wide) vals, Finished c1, st2)
       else (case event_stream wide i follows c1 rounds st2 of
         (gs, x, st3) \<Rightarrow> (map (frame_of wide) vals @ (if vals = [] then [Heartbeat] else []) @ gs, x, st3)))"
      by (simp only: event_stream.simps Let_def st1_def [symmetric] st2_def [symmetric] after run sum.case c1_def [symmetric])
    show ?thesis
    proof (cases "\<not> follows \<or> ar_status run \<in> terminal_statuses")
      case True
      have "fs = map (frame_of wide) vals" "x = Finished c1" "st' = st2"
        using "2.prems"(3) unfolding eq if_P [OF True] by simp_all
      then show ?thesis using ok2 es1 es2 whole
        by (auto simp: sent_frames c1 intro!: exI [of _ c1])
    next
      case False
      obtain gs y st3 where rest: "event_stream wide i follows c1 rounds st2 = (gs, y, st3)" by (metis prod_cases3)
      have fs: "fs = map (frame_of wide) vals @ (if vals = [] then [Heartbeat] else []) @ gs" "x = y" "st' = st3"
        using "2.prems"(3) rest unfolding eq if_not_P [OF False] by simp_all
      from "2.IH" [OF st1_def st2_def after refl c1_def run False ok2 run2 rest] obtain es3 c' where
        ih: "store_ok st3" "events_of st3 i = events_of st2 i @ es3" "c1 \<le> c'"
          "sent gs = map (frame_of wide) (drop c1 (take c' (events_of st3 i)))" "y \<in> {Connected c', Finished c', Broken}" by blast
      have "drop c (take c' (events_of st3 i)) = vals @ drop c1 (take c' (events_of st3 i))"
        using drop_take_append [of c es c' "es2 @ es3"] ih(2,3) es es2 by (simp add: c1 vals_def)
      moreover have "sent fs = map (frame_of wide) vals @ sent gs"
        using fs(1) sent_frames [of wide vals] by (simp add: sent_def)
      ultimately have all: "sent fs = map (frame_of wide) (drop c (take c' (events_of st' i)))"
        using ih(4) fs(3) by simp
      have "c \<le> c'" using ih(3) c1 by simp
      moreover have "events_of st' i = events_of st i @ es1 @ es2 @ es3" using ih(2) fs(3) es1 es2 by simp
      ultimately show ?thesis using all ih(1,5) fs(2,3) by blast
    qed
  qed
qed

text \<open>An event stream delivers the events of its run after the cursor it starts from, each once and in
  order, with those that carry a marker of hidden answers replaced: however the runtime interferes between
  the rounds, what a client has received is the frames of a piece of the log without gaps that starts at
  its cursor.\<close>

theorem stream_in_order:
  assumes "st_runs (stored reqs) i \<noteq> None" "event_stream wide i follows c rounds (stored reqs) = (fs, x, st')"
  shows "\<exists>c'. c \<le> c' \<and> filter (\<lambda>f. f \<noteq> Heartbeat) fs = map (frame_of wide) (drop c (take c' (events_of st' i)))
    \<and> x \<in> {Connected c', Finished c', Broken}"
  using stream_prefix [OF stored_ok assms] by (auto simp: sent_def)

definition stream_requests :: "store_request list" where
  "stream_requests = [
     Create_run ''key'' ''v'' ''s'' ''fixed'' ''1.0'' \<lparr>bg_steps = 12, bg_tokens = 1000, bg_cost = 1, bg_time = 60\<rparr> 0 [] \<lparr>sp_uid = ''run'', sp_now = 0\<rparr>,
     Set_status ''run'' Ready Searching None 1]"

definition last_change :: store_request where
  "last_change = Set_status ''run'' Searching Run_completed (Some No_violation_within_budget) 2"

definition demo_event :: "nat \<Rightarrow> string \<Rightarrow> json \<Rightarrow> rat \<Rightarrow> runtime_event" where
  "demo_event n type data now = \<lparr>rv_cursor = n, rv_run = ''run'', rv_type = type, rv_data = data, rv_created = now\<rparr>"

lemma stream_store:
  "\<exists>run. st_runs (stored stream_requests) ''run'' = Some run \<and> ar_status run = Searching"
  "st_events (stored stream_requests) ''run'' = Some [demo_event 1 ''RUN_CREATED'' (JObj [(''status'', JStr ''READY'')]) 0,
     demo_event 2 ''STATUS_CHANGED'' (status_change Ready Searching None) 1]"
  by (simp_all add: stored_def stream_requests_def store_create_def empty_store_def append_event_def events_of_def Let_def
    compare_and_set_status_def transition_allowed_def terminal_statuses_def demo_event_def)

lemma stream_length: "length (events_of (stored stream_requests) ''run'') = 2"
  using stream_store(2) by (simp add: events_of_def)

lemma last_change_applied:
  "\<exists>run. st_runs (store_apply (stored stream_requests) last_change) ''run'' = Some run \<and> ar_status run = Run_completed"
  "length (events_of (store_apply (stored stream_requests) last_change) ''run'') = 3"
proof -
  obtain run where run: "st_runs (stored stream_requests) ''run'' = Some run" "ar_status run = Searching" using stream_store(1) by blast
  have step: "store_apply (stored stream_requests) last_change = append_event ''run'' ''STATUS_CHANGED''
      (status_change Searching Run_completed (Some No_violation_within_budget)) 2
      ((stored stream_requests)\<lparr>st_runs := (st_runs (stored stream_requests))(''run'' \<mapsto> run\<lparr>ar_status := Run_completed, ar_outcome := Some No_violation_within_budget\<rparr>)\<rparr>)"
    using run by (simp add: last_change_def compare_and_set_status_def transition_allowed_def terminal_statuses_def)
  show "\<exists>run. st_runs (store_apply (stored stream_requests) last_change) ''run'' = Some run \<and> ar_status run = Run_completed"
    unfolding step by simp
  show "length (events_of (store_apply (stored stream_requests) last_change) ''run'') = 3"
    unfolding step by (simp add: stream_length)
qed

lemma raced_stream:
  "event_stream wide ''run'' True 0 [([], [last_change])] (stored stream_requests)
    = (map (frame_of wide) (events_of (stored stream_requests) ''run''), Finished 2, store_apply (stored stream_requests) last_change)"
proof -
  obtain run where run: "st_runs (store_apply (stored stream_requests) last_change) ''run'' = Some run" "ar_status run = Run_completed"
    using last_change_applied(1) by blast
  have "events_after (stored stream_requests) ''run'' 0 = Inr (events_of (stored stream_requests) ''run'')"
    "events_of (stored stream_requests) ''run'' \<noteq> []" "rv_cursor (last (events_of (stored stream_requests) ''run'')) = 2"
    using stream_store(2) by (simp_all add: events_after_def of_option_def and_then_def events_of_def demo_event_def)
  then show ?thesis using run by (simp add: Let_def get_run_def of_option_def terminal_statuses_def)
qed

theorem stream_in_order_witness:
  "\<exists>c'. filter (\<lambda>f. f \<noteq> Heartbeat) (fst (event_stream (\<lambda>c. [c]) ''run'' True 0 [([], [last_change])] (stored stream_requests)))
    = map (frame_of (\<lambda>c. [c])) (take c' (events_of (store_apply (stored stream_requests) last_change) ''run''))"
proof -
  have "st_runs (stored stream_requests) ''run'' \<noteq> None" using stream_store(1) by auto
  from stream_in_order [OF this raced_stream [of "\<lambda>c. [c]"]] show ?thesis
    unfolding raced_stream by auto
qed


end
