(* ===== verification/Eval_Models.thy ===== *)
theory Eval_Models
  imports Worker_Gateway Complex_Main
begin

text \<open>
  The benchmark's data (\<^verbatim>\<open>packages/evaluation/models.py\<close>): cases with their ground truth, the fact of one
  run of a case, and a benchmark run with its metrics. Sets of axes and invariants are sets; times of a
  fact are left out and those of a run are numbers.
\<close>

datatype visibility = DEVELOPMENT | HIDDEN

datatype expected_outcome = EXPECT_VULNERABLE | EXPECT_NORMAL

datatype baseline_type = RANDOM_SEARCH | BFS_SEARCH | SINGLE_AGENT | MULTI_STRATEGY

datatype benchmark_status = BENCH_RUNNING | BENCH_COMPLETED | BENCH_FAILED

datatype failure_kind = NO_FAILURE | INFRA_FAILURE | CANCELLED_RUN | EVALUATION_FAILURE

record version_tuple =
  vt_benchmark :: string
  vt_runtime :: string
  vt_rules :: string
  vt_scenarios :: string
  vt_sandbox :: string
  vt_oracle :: string
  vt_model :: string
  vt_prompt :: string

section \<open>Cases\<close>

record benchmark_case =
  bc_id :: string
  bc_benchmark :: string
  bc_visibility :: visibility
  bc_scenario :: scenario_type
  bc_tags :: "string list"
  bc_budget :: budget
  bc_rule_version :: string
  bc_scenario_version :: string
  bc_sandbox :: string
  bc_axes :: "defect_axis set"
  bc_oracle :: string
  bc_spec :: rule_spec
  bc_expected :: expected_outcome
  bc_invariants :: "invariant_id set"
  bc_reason :: string
  bc_replays :: "bool list"
  bc_actions :: "json list"

text \<open>The axes in the order of their names.\<close>

definition ordered_axes :: "defect_axis list" where
  "ordered_axes = [COUPON_RESTORED_ON_REFUND, ENTITLEMENT_LEFT_AFTER_REFUND, ENTITLEMENT_OVERCONSUMPTION,
     FULL_REFUND_AFTER_CONSUMPTION, POINTS_GRANTED_AGAIN_ON_REFUND, POINTS_OVERREDEMPTION, REFUND_ACK_LOST, REFUND_AGAINST_ORIGINAL]"

definition axis_list :: "defect_axis set \<Rightarrow> defect_axis list" where
  "axis_list axes = filter (\<lambda>a. a \<in> axes) ordered_axes"

lemma set_axis_list [simp]: "set (axis_list axes) = axes"
proof -
  have "a \<in> set ordered_axes" for a by (cases a) (simp_all add: ordered_axes_def)
  then show ?thesis by (auto simp: axis_list_def)
qed

definition case_valid :: "benchmark_case \<Rightarrow> bool" where
  "case_valid c \<longleftrightarrow> (if bc_expected c = EXPECT_VULNERABLE
     then bc_invariants c \<noteq> {} \<and> bc_actions c \<noteq> [] \<and> list_all id (bc_replays c) \<and> bc_axes c \<noteq> {}
       \<and> unreachable_axes (bc_scenario c) (axis_list (bc_axes c)) = {}
     else bc_invariants c = {} \<and> bc_actions c = [] \<and> bc_axes c = {})"

text \<open>No axes stand for those of the named version.\<close>

definition replay_defect_axes :: "benchmark_case \<Rightarrow> string list option" where
  "replay_defect_axes c = (let names = map axis_name (axis_list (bc_axes c)) in if names = [] then None else Some names)"

record public_case =
  pc_id :: string
  pc_benchmark :: string
  pc_visibility :: visibility
  pc_scenario :: scenario_type
  pc_tags :: "string list"
  pc_budget :: budget

definition public_metadata :: "benchmark_case \<Rightarrow> public_case" where
  "public_metadata c = \<lparr>pc_id = bc_id c, pc_benchmark = bc_benchmark c, pc_visibility = bc_visibility c,
     pc_scenario = bc_scenario c, pc_tags = bc_tags c, pc_budget = bc_budget c\<rparr>"

section \<open>Facts\<close>

record strategy_diagnostic =
  sd_type :: strategy_type
  sd_reason :: terminal_reason
  sd_usage :: budget_usage
  sd_rejected :: "(string \<times> nat) list"
  sd_submitted :: nat

record raw_case_run =
  rc_id :: string
  rc_case :: string
  rc_visibility :: visibility
  rc_baseline :: baseline_type
  rc_repetition :: nat
  rc_attack_run :: "string option"
  rc_outcome :: attack_outcome
  rc_failure :: failure_kind
  rc_confirmed :: "invariant_id set"
  rc_replayed :: nat
  rc_confirmations :: nat
  rc_attempts :: nat
  rc_successes :: nat
  rc_compiled :: bool
  rc_schema_valid :: "bool option"
  rc_usage :: budget_usage
  rc_diagnostics :: "strategy_diagnostic list"

definition raw_valid :: "raw_case_run \<Rightarrow> bool" where
  "raw_valid r \<longleftrightarrow> (rc_outcome r = Infra_failed \<longrightarrow> rc_failure r = INFRA_FAILURE)
     \<and> (rc_outcome r = Outcome_cancelled \<longrightarrow> rc_failure r = CANCELLED_RUN)
     \<and> rc_confirmations r \<le> rc_replayed r \<and> rc_successes r \<le> rc_attempts r"

definition raw_fact :: "benchmark_case \<Rightarrow> baseline_type \<Rightarrow> nat \<Rightarrow> string \<Rightarrow> attack_outcome \<Rightarrow> failure_kind \<Rightarrow> budget_usage \<Rightarrow> raw_case_run" where
  "raw_fact c b n uid out failure usage = \<lparr>rc_id = uid, rc_case = bc_id c, rc_visibility = bc_visibility c, rc_baseline = b, rc_repetition = n,
     rc_attack_run = None, rc_outcome = out, rc_failure = failure, rc_confirmed = {}, rc_replayed = 0, rc_confirmations = 0,
     rc_attempts = 0, rc_successes = 0, rc_compiled = False, rc_schema_valid = None, rc_usage = usage, rc_diagnostics = []\<rparr>"

section \<open>Metrics\<close>

record metric_value =
  mv_value :: "real option"
  mv_numerator :: "nat option"
  mv_denominator :: "nat option"
  mv_lower :: "real option"
  mv_upper :: "real option"
  mv_sources :: "string list"

text \<open>An entry of the dictionary of metrics, as it is stored.\<close>

datatype metric_entry =
    Measured metric_value
  | Figure real
  | Nothing_measured
  | Summaries metric_value metric_value metric_value
  | Failure_counts "(failure_kind \<times> nat) list"
  | Reason_counts "(terminal_reason \<times> nat) list"
  | Kind_counts "(string \<times> nat) list"
  | Id_list "string list"

record benchmark_run =
  br_id :: string
  br_versions :: version_tuple
  br_baseline :: baseline_type
  br_seed :: int
  br_budget :: budget
  br_repetitions :: nat
  br_suite :: visibility
  br_status :: benchmark_status
  br_raw :: "raw_case_run list"
  br_metrics :: "string \<rightharpoonup> metric_entry"
  br_started :: int
  br_finished :: "int option"

end
