(* ===== verification/Eval_Metrics.thy ===== *)
theory Eval_Metrics
  imports Eval_Models
begin

text \<open>
  The metrics of a benchmark run (\<^verbatim>\<open>packages/evaluation/metrics.py\<close>): rates with their Wilson interval,
  pass@k and pass^k, summaries, and the aggregate of a suite. Floats are real numbers; no value stands for
  the \<^verbatim>\<open>ValueError\<close> of an impossible count.
\<close>

section \<open>Rates\<close>

definition wilson_z :: real where
  "wilson_z = 1959963984540054 / 1000000000000000"

definition wilson_interval :: "nat \<Rightarrow> nat \<Rightarrow> (real \<times> real) option option" where
  "wilson_interval successes n =
     (if n = 0 then Some None
      else if n < successes then None
      else let p = real successes / real n; z2 = wilson_z * wilson_z; d = 1 + z2 / real n;
             center = (p + z2 / (2 * real n)) / d;
             margin = (wilson_z / d) * sqrt (p * (1 - p) / real n + z2 / (4 * real n * real n))
           in Some (Some (max 0 (center - margin), min 1 (center + margin))))"

definition interval_of :: "metric_value \<Rightarrow> (real \<times> real) option" where
  "interval_of m = (case (mv_lower m, mv_upper m) of (Some l, Some u) \<Rightarrow> Some (l, u) | _ \<Rightarrow> None)"

definition intervals_overlap :: "metric_value \<Rightarrow> metric_value \<Rightarrow> bool" where
  "intervals_overlap a b = (case (interval_of a, interval_of b) of
       (Some (l, u), Some (l', u')) \<Rightarrow> l \<le> u' \<and> l' \<le> u
     | _ \<Rightarrow> True)"

definition ratio :: "nat \<Rightarrow> nat \<Rightarrow> string list \<Rightarrow> metric_value option" where
  "ratio num den ids = map_option (\<lambda>iv.
     \<lparr>mv_value = (if den = 0 then None else Some (real num / real den)), mv_numerator = Some num, mv_denominator = Some den,
      mv_lower = map_option fst iv, mv_upper = map_option snd iv, mv_sources = ids\<rparr>) (wilson_interval num den)"

text \<open>The first \<open>k\<close> runs of every case that has as many.\<close>

definition eligible_groups :: "(string \<times> bool list) list \<Rightarrow> nat \<Rightarrow> bool list list" where
  "eligible_groups groups k = map (take k \<circ> snd) (filter (\<lambda>g. k \<le> length (snd g)) groups)"

definition pass_at_k :: "(string \<times> bool list) list \<Rightarrow> nat \<Rightarrow> metric_value option" where
  "pass_at_k groups k = (if k = 0 then None
     else ratio (length (filter (list_ex id) (eligible_groups groups k))) (length (eligible_groups groups k)) [])"

definition pass_to_k :: "(string \<times> bool list) list \<Rightarrow> nat \<Rightarrow> metric_value option" where
  "pass_to_k groups k = (if k = 0 then None
     else ratio (length (filter (list_all id) (eligible_groups groups k))) (length (eligible_groups groups k)) [])"

section \<open>Summaries\<close>

record summary =
  sm_mean :: metric_value
  sm_median :: metric_value
  sm_p95 :: metric_value

definition plain_metric :: "real option \<Rightarrow> nat \<Rightarrow> string list \<Rightarrow> metric_value" where
  "plain_metric v n ids = \<lparr>mv_value = v, mv_numerator = None, mv_denominator = Some n, mv_lower = None, mv_upper = None, mv_sources = ids\<rparr>"

definition median_of :: "real list \<Rightarrow> real" where
  "median_of xs = (let ys = sort xs; n = length ys in
     if odd n then ys ! (n div 2) else (ys ! (n div 2 - 1) + ys ! (n div 2)) / 2)"

definition p95_index :: "nat \<Rightarrow> nat" where
  "p95_index n = (95 * n + 99) div 100 - 1"

definition summary_of :: "real list \<Rightarrow> string list \<Rightarrow> summary" where
  "summary_of xs ids = (if xs = [] then (let m = plain_metric None 0 [] in \<lparr>sm_mean = m, sm_median = m, sm_p95 = m\<rparr>)
     else \<lparr>sm_mean = plain_metric (Some (sum_list xs / real (length xs))) (length xs) ids,
       sm_median = plain_metric (Some (median_of xs)) (length xs) ids,
       sm_p95 = plain_metric (Some (sort xs ! p95_index (length xs))) (length xs) ids\<rparr>)"

section \<open>A suite\<close>

definition eligible_runs :: "raw_case_run list \<Rightarrow> raw_case_run list" where
  "eligible_runs raw = filter (\<lambda>r. rc_failure r = NO_FAILURE) raw"

definition runs_of :: "raw_case_run list \<Rightarrow> benchmark_case \<Rightarrow> raw_case_run list" where
  "runs_of raw c = sort_key rc_repetition (filter (\<lambda>r. rc_case r = bc_id c) (eligible_runs raw))"

definition evaluable :: "benchmark_case list \<Rightarrow> raw_case_run list \<Rightarrow> expected_outcome \<Rightarrow> benchmark_case list" where
  "evaluable cases raw out = filter (\<lambda>c. runs_of raw c \<noteq> []) (filter (\<lambda>c. bc_expected c = out) cases)"

definition successes_of :: "raw_case_run list \<Rightarrow> benchmark_case \<Rightarrow> bool list" where
  "successes_of raw c = map (\<lambda>r. rc_confirmed r \<inter> bc_invariants c \<noteq> {}) (runs_of raw c)"

definition discovered :: "benchmark_case list \<Rightarrow> raw_case_run list \<Rightarrow> benchmark_case list" where
  "discovered cases raw = filter (\<lambda>c. list_ex id (successes_of raw c)) (evaluable cases raw EXPECT_VULNERABLE)"

definition false_positives :: "benchmark_case list \<Rightarrow> raw_case_run list \<Rightarrow> benchmark_case list" where
  "false_positives cases raw = filter (\<lambda>c. list_ex (\<lambda>r. rc_confirmed r \<noteq> {}) (runs_of raw c)) (evaluable cases raw EXPECT_NORMAL)"

definition ids_of :: "benchmark_case list \<Rightarrow> raw_case_run list \<Rightarrow> string list" where
  "ids_of cs raw = concat (map (\<lambda>c. map rc_id (runs_of raw c)) cs)"

record suite_metrics =
  mt_schema :: metric_value
  mt_discovery :: metric_value
  mt_false_positive :: metric_value
  mt_confirmation :: metric_value
  mt_stability :: metric_value
  mt_elapsed :: summary
  mt_steps :: summary
  mt_tokens :: summary
  mt_cost :: summary
  mt_pass_at :: metric_value
  mt_pass_to :: metric_value
  mt_leaks :: nat
  mt_p0 :: "real option"
  mt_failures :: "(failure_kind \<times> nat) list"
  mt_reasons :: "(terminal_reason \<times> nat) list"
  mt_rejected :: "(string \<times> nat) list"
  mt_evaluable :: "string list"
  mt_discovered :: "string list"
  mt_false_ids :: "string list"

definition terminal_reasons :: "terminal_reason list" where
  "terminal_reasons = [CANDIDATE_FOUND, BUDGET_TIME, BUDGET_STEPS, BUDGET_TOKENS_OR_COST, STOP_NO_CANDIDATE,
     ILLEGAL_RETRY_EXHAUSTED, NO_LEGAL_ACTION, UNPARSABLE_OUTPUT, Strategy_cancelled]"

definition diagnostics_of :: "raw_case_run list \<Rightarrow> strategy_diagnostic list" where
  "diagnostics_of raw = concat (map rc_diagnostics (eligible_runs raw))"

definition rejected_count :: "strategy_diagnostic \<Rightarrow> string \<Rightarrow> nat" where
  "rejected_count d kind = (case map_of (sd_rejected d) kind of None \<Rightarrow> 0 | Some n \<Rightarrow> n)"

definition rejected_kinds :: "raw_case_run list \<Rightarrow> (string \<times> nat) list" where
  "rejected_kinds raw = (let ds = diagnostics_of raw in
     map (\<lambda>k. (k, sum_list (map (\<lambda>d. rejected_count d k) ds))) (sort (remdups (concat (map (map fst \<circ> sd_rejected) ds)))))"

definition suite_summary :: "(budget_usage \<Rightarrow> real) \<Rightarrow> raw_case_run list \<Rightarrow> summary" where
  "suite_summary f raw = summary_of (map (f \<circ> rc_usage) (eligible_runs raw)) (map rc_id (eligible_runs raw))"

definition schema_ratio :: "raw_case_run list \<Rightarrow> metric_value option" where
  "schema_ratio raw = (let rs = filter rc_compiled (eligible_runs raw) in
     ratio (length (filter (\<lambda>r. rc_schema_valid r = Some True) rs)) (length rs) (map rc_id rs))"

definition total_of :: "(raw_case_run \<Rightarrow> nat) \<Rightarrow> raw_case_run list \<Rightarrow> nat" where
  "total_of f raw = sum_list (map f (eligible_runs raw))"

definition success_groups :: "benchmark_case list \<Rightarrow> raw_case_run list \<Rightarrow> (string \<times> bool list) list" where
  "success_groups cases raw = map (\<lambda>c. (bc_id c, successes_of raw c)) (evaluable cases raw EXPECT_VULNERABLE)"

definition failure_counts :: "raw_case_run list \<Rightarrow> (failure_kind \<times> nat) list" where
  "failure_counts raw = map (\<lambda>k. (k, length (filter (\<lambda>r. rc_failure r = k) raw))) [INFRA_FAILURE, CANCELLED_RUN, EVALUATION_FAILURE]"

definition compute_metrics ::
  "benchmark_case list \<Rightarrow> raw_case_run list \<Rightarrow> nat \<Rightarrow> nat \<Rightarrow> real option \<Rightarrow> suite_metrics option" where
  "compute_metrics cases raw k leaks p0 =
     (if \<not> distinct (map bc_id cases) \<or> \<not> (\<forall>r \<in> set raw. rc_case r \<in> set (map bc_id cases)) then None
      else let vul = evaluable cases raw EXPECT_VULNERABLE; nor = evaluable cases raw EXPECT_NORMAL; ids = map rc_id (eligible_runs raw)
      in case (schema_ratio raw, ratio (length (discovered cases raw)) (length vul) (ids_of vul raw),
               ratio (length (false_positives cases raw)) (length nor) (ids_of nor raw),
               ratio (total_of rc_confirmations raw) (total_of rc_replayed raw) ids,
               ratio (total_of rc_successes raw) (total_of rc_attempts raw) ids,
               pass_at_k (success_groups cases raw) k, pass_to_k (success_groups cases raw) k) of
           (Some schema, Some disc, Some fp, Some conf, Some stab, Some pa, Some pt) \<Rightarrow> Some
             \<lparr>mt_schema = schema, mt_discovery = disc, mt_false_positive = fp, mt_confirmation = conf, mt_stability = stab,
              mt_elapsed = suite_summary (real_of_rat \<circ> ug_elapsed) raw, mt_steps = suite_summary (real_of_int \<circ> ug_steps) raw,
              mt_tokens = suite_summary (real_of_int \<circ> ug_tokens) raw, mt_cost = suite_summary (real_of_rat \<circ> ug_cost) raw,
              mt_pass_at = pa, mt_pass_to = pt, mt_leaks = leaks, mt_p0 = p0, mt_failures = failure_counts raw,
              mt_reasons = map (\<lambda>x. (x, length (filter (\<lambda>d. sd_reason d = x) (diagnostics_of raw)))) terminal_reasons,
              mt_rejected = rejected_kinds raw, mt_evaluable = ids, mt_discovered = map bc_id (discovered cases raw),
              mt_false_ids = map bc_id (false_positives cases raw)\<rparr>
         | _ \<Rightarrow> None)"

text \<open>The dictionary that is stored with the run.\<close>

definition summaries :: "summary \<Rightarrow> metric_entry" where
  "summaries s = Summaries (sm_mean s) (sm_median s) (sm_p95 s)"

definition metrics_dict :: "nat \<Rightarrow> suite_metrics \<Rightarrow> string \<rightharpoonup> metric_entry" where
  "metrics_dict k m = map_of [
     (''rule_spec_schema_pass_rate'', Measured (mt_schema m)),
     (''vulnerability_discovery_rate'', Measured (mt_discovery m)),
     (''normal_confirmed_false_positive_rate'', Measured (mt_false_positive m)),
     (''candidate_confirmation_rate'', Measured (mt_confirmation m)),
     (''replay_stability_rate'', Measured (mt_stability m)),
     (''elapsed_seconds'', summaries (mt_elapsed m)),
     (''steps'', summaries (mt_steps m)),
     (''tokens'', summaries (mt_tokens m)),
     (''cost'', summaries (mt_cost m)),
     (''pass@'' @ string_of_nat k, Measured (mt_pass_at m)),
     (''pass^'' @ string_of_nat k, Measured (mt_pass_to m)),
     (''ground_truth_leakage_count'', Figure (real (mt_leaks m))),
     (''historical_p0_pass_rate'', (case mt_p0 m of None \<Rightarrow> Nothing_measured | Some x \<Rightarrow> Figure x)),
     (''failure_counts'', Failure_counts (mt_failures m)),
     (''strategy_termination_reasons'', Reason_counts (mt_reasons m)),
     (''rejected_proposal_kinds'', Kind_counts (mt_rejected m)),
     (''evaluable_run_ids'', Id_list (mt_evaluable m)),
     (''discovered_case_ids'', Id_list (mt_discovered m)),
     (''false_positive_case_ids'', Id_list (mt_false_ids m))]"

end
