(* ===== verification/Eval_Gate.thy ===== *)
theory Eval_Gate
  imports Eval_Metrics
begin

text \<open>
  The release gate of the search benchmark (\<^verbatim>\<open>packages/evaluation/gate.py\<close>), which reads the stored
  dictionary of metrics, and its facts: the metrics of valid facts are always defined, and what the gate
  reads does not depend on failed cells.
\<close>

section \<open>The gate\<close>

record gate_result =
  gt_passed :: bool
  gt_run :: "string option"
  gt_checks :: "(string \<times> bool) list"
  gt_reasons :: "string list"

definition gate_metric :: "benchmark_run \<Rightarrow> string \<Rightarrow> real option \<times> nat" where
  "gate_metric run key = (case br_metrics run key of
       Some (Measured m) \<Rightarrow> (mv_value m, (case mv_denominator m of None \<Rightarrow> 0 | Some n \<Rightarrow> n))
     | _ \<Rightarrow> (None, 0))"

definition figure_is :: "benchmark_run \<Rightarrow> string \<Rightarrow> real \<Rightarrow> bool" where
  "figure_is run key x \<longleftrightarrow> (case br_metrics run key of Some (Figure y) \<Rightarrow> y = x | _ \<Rightarrow> False)"

definition gate_checks :: "benchmark_run \<Rightarrow> version_tuple \<Rightarrow> budget \<Rightarrow> int \<Rightarrow> (string \<times> bool) list" where
  "gate_checks run versions b seed =
     (let (fp, normal) = gate_metric run ''normal_confirmed_false_positive_rate'';
          (disc, vulnerable) = gate_metric run ''vulnerability_discovery_rate'';
          (stab, replays) = gate_metric run ''replay_stability_rate''
      in [(''matching_versions'', br_versions run = versions),
          (''matching_budget'', br_budget run = b),
          (''matching_seed'', br_seed run = seed),
          (''completed_hidden_multi'', br_status run = BENCH_COMPLETED \<and> br_suite run = HIDDEN \<and> br_baseline run = MULTI_STRATEGY),
          (''normal_false_positive_zero'', fp = Some 0 \<and> 0 < normal),
          (''hidden_discovery_at_least_75_percent'', (case disc of None \<Rightarrow> False | Some d \<Rightarrow> 3 / 4 \<le> d) \<and> 0 < vulnerable),
          (''counterexample_replay_3_of_3'', stab = Some 1 \<and> 3 \<le> replays),
          (''historical_p0_100_percent'', figure_is run ''historical_p0_pass_rate'' 1),
          (''ground_truth_leakage_zero'', figure_is run ''ground_truth_leakage_count'' 0)])"

definition gate_verdict :: "string \<Rightarrow> (string \<times> bool) list \<Rightarrow> gate_result" where
  "gate_verdict i checks = (let reasons = map fst (filter (\<lambda>c. \<not> snd c) checks) in
     \<lparr>gt_passed = (reasons = []), gt_run = Some i, gt_checks = checks, gt_reasons = reasons\<rparr>)"

definition release_gate :: "benchmark_run option \<Rightarrow> version_tuple \<Rightarrow> budget \<Rightarrow> int \<Rightarrow> gate_result" where
  "release_gate found versions b seed = (case found of
       None \<Rightarrow> \<lparr>gt_passed = False, gt_run = None, gt_checks = [(''matching_benchmark'', False)],
         gt_reasons = [''no completed BenchmarkRun matches the release version tuple'']\<rparr>
     | Some run \<Rightarrow> gate_verdict (br_id run) (gate_checks run versions b seed))"

section \<open>Facts of rates\<close>

lemma wilson_some: "s \<le> n \<Longrightarrow> \<exists>x. wilson_interval s n = Some x"
  by (simp add: wilson_interval_def Let_def)

lemma wilson_None: "wilson_interval s n = None \<longleftrightarrow> 0 < n \<and> n < s"
  by (auto simp: wilson_interval_def Let_def)

lemma ratio_Some:
  "ratio s n ids = Some m \<Longrightarrow> mv_value m = (if n = 0 then None else Some (real s / real n)) \<and> mv_denominator m = Some n"
  by (auto simp: ratio_def)

lemma ratio_defined: "s \<le> n \<Longrightarrow> \<exists>m. ratio s n ids = Some m"
  using wilson_some [of s n] by (auto simp: ratio_def)

lemma pass_defined:
  assumes "0 < k"
  shows "\<exists>m. pass_at_k groups k = Some m" "\<exists>m. pass_to_k groups k = Some m"
  using assms by (auto simp: pass_at_k_def pass_to_k_def intro!: ratio_defined)

lemma total_le: "(\<And>r. r \<in> set raw \<Longrightarrow> f r \<le> g r) \<Longrightarrow> total_of f raw \<le> total_of g raw"
  unfolding total_of_def eligible_runs_def by (induction raw) (auto intro: add_mono)

lemma metrics_defined:
  assumes "distinct (map bc_id cases)" "\<forall>r \<in> set raw. rc_case r \<in> set (map bc_id cases)" "list_all raw_valid raw" "0 < k"
  shows "\<exists>m. compute_metrics cases raw k leaks p0 = Some m"
proof -
  let ?vul = "evaluable cases raw EXPECT_VULNERABLE" and ?nor = "evaluable cases raw EXPECT_NORMAL"
  let ?ids = "map rc_id (eligible_runs raw)"
  obtain schema where schema: "schema_ratio raw = Some schema"
    unfolding schema_ratio_def Let_def using ratio_defined [OF length_filter_le] by blast
  obtain disc where disc: "ratio (length (discovered cases raw)) (length ?vul) (ids_of ?vul raw) = Some disc"
    unfolding discovered_def using ratio_defined [OF length_filter_le] by blast
  obtain fp where fp: "ratio (length (false_positives cases raw)) (length ?nor) (ids_of ?nor raw) = Some fp"
    unfolding false_positives_def using ratio_defined [OF length_filter_le] by blast
  have "total_of rc_confirmations raw \<le> total_of rc_replayed raw" "total_of rc_successes raw \<le> total_of rc_attempts raw"
    using assms(3) by (auto simp: list_all_iff raw_valid_def intro: total_le)
  then obtain conf stab where conf: "ratio (total_of rc_confirmations raw) (total_of rc_replayed raw) ?ids = Some conf"
    and stab: "ratio (total_of rc_successes raw) (total_of rc_attempts raw) ?ids = Some stab"
    using ratio_defined by blast
  obtain pa pt where pass: "pass_at_k (success_groups cases raw) k = Some pa" "pass_to_k (success_groups cases raw) k = Some pt"
    using pass_defined [OF assms(4)] by blast
  have known: "\<not> (\<not> distinct (map bc_id cases) \<or> \<not> (\<forall>r \<in> set raw. rc_case r \<in> set (map bc_id cases)))" using assms(1,2) by blast
  show ?thesis
    unfolding compute_metrics_def if_not_P [OF known] Let_def schema disc fp conf stab pass by simp
qed

text \<open>What the gate reads of computed metrics.\<close>

lemma compute_metrics_read:
  assumes "compute_metrics cases raw k leaks p0 = Some m"
  shows "ratio (length (discovered cases raw)) (length (evaluable cases raw EXPECT_VULNERABLE)) (ids_of (evaluable cases raw EXPECT_VULNERABLE) raw) = Some (mt_discovery m)"
    "ratio (length (false_positives cases raw)) (length (evaluable cases raw EXPECT_NORMAL)) (ids_of (evaluable cases raw EXPECT_NORMAL) raw) = Some (mt_false_positive m)"
    "ratio (total_of rc_successes raw) (total_of rc_attempts raw) (map rc_id (eligible_runs raw)) = Some (mt_stability m)"
    "mt_leaks m = leaks" "mt_p0 m = p0"
  using assms by (auto simp: compute_metrics_def Let_def split: if_splits option.splits)

lemma metrics_dict_read:
  "metrics_dict k m ''normal_confirmed_false_positive_rate'' = Some (Measured (mt_false_positive m))"
  "metrics_dict k m ''vulnerability_discovery_rate'' = Some (Measured (mt_discovery m))"
  "metrics_dict k m ''replay_stability_rate'' = Some (Measured (mt_stability m))"
  "metrics_dict k m ''historical_p0_pass_rate'' = Some (case mt_p0 m of None \<Rightarrow> Nothing_measured | Some x \<Rightarrow> Figure x)"
  "metrics_dict k m ''ground_truth_leakage_count'' = Some (Figure (real (mt_leaks m)))"
  by (simp_all add: metrics_dict_def)

section \<open>Failed cells\<close>

lemma runs_of_eligible: "runs_of (eligible_runs raw) = runs_of raw"
  by (simp add: fun_eq_iff runs_of_def eligible_runs_def)

lemma set_runs_of: "set (runs_of raw c) = {r \<in> set raw. rc_failure r = NO_FAILURE \<and> rc_case r = bc_id c}"
  by (auto simp: runs_of_def eligible_runs_def)

lemma evaluable_eligible: "evaluable cases (eligible_runs raw) out = evaluable cases raw out"
  by (simp add: evaluable_def runs_of_eligible)

lemma read_eligible:
  "discovered cases (eligible_runs raw) = discovered cases raw"
  "false_positives cases (eligible_runs raw) = false_positives cases raw"
  "total_of f (eligible_runs raw) = total_of f raw"
  "ids_of cs (eligible_runs raw) = ids_of cs raw"
  "eligible_runs (eligible_runs raw) = eligible_runs raw"
  by (simp_all add: discovered_def false_positives_def total_of_def ids_of_def successes_of_def runs_of_eligible evaluable_eligible)
    (simp_all add: eligible_runs_def)

end
