(* ===== verification/Eval_Runner.thy ===== *)
theory Eval_Runner
  imports Eval_Gate Control_Api
begin

text \<open>
  Running a suite (\<^verbatim>\<open>packages/evaluation/runner.py\<close>) on the in-memory store of benchmark runs
  (\<^verbatim>\<open>store.py\<close>), with the checks of a loaded suite (\<^verbatim>\<open>loader.py\<close>) and the scan for hidden
  answers (\<^verbatim>\<open>security.py\<close>). The executor of a cell, the serialization of a entry and the digest are
  arguments; the cells that are open finish in an order that is an argument as well, which covers one cell
  at a time and several at once. Missing results stand for exceptions.
\<close>

section \<open>The store\<close>

type_synonym bench_store = "benchmark_run list"

definition bench_get :: "bench_store \<Rightarrow> string \<Rightarrow> benchmark_run option" where
  "bench_get st i = find (\<lambda>r. br_id r = i) st"

definition bench_put :: "bench_store \<Rightarrow> benchmark_run \<Rightarrow> bench_store" where
  "bench_put st run = map (\<lambda>r. if br_id r = br_id run then run else r) st"

definition bench_save :: "bench_store \<Rightarrow> benchmark_run \<Rightarrow> bench_store option" where
  "bench_save st run = (if bench_get st (br_id run) \<noteq> None then None else Some (st @ [run]))"

definition start_run :: "bench_store \<Rightarrow> benchmark_run \<Rightarrow> bench_store option" where
  "start_run st run = (if bench_get st (br_id run) \<noteq> None then None
     else Some (st @ [run\<lparr>br_status := BENCH_RUNNING, br_raw := [], br_metrics := Map.empty\<rparr>]))"

definition cell_of :: "raw_case_run \<Rightarrow> string \<times> nat" where
  "cell_of f = (rc_case f, rc_repetition f)"

definition append_case :: "bench_store \<Rightarrow> string \<Rightarrow> raw_case_run \<Rightarrow> bench_store option" where
  "append_case st i entry = (case bench_get st i of
       None \<Rightarrow> None
     | Some run \<Rightarrow> if cell_of entry \<in> set (map cell_of (br_raw run)) then None
         else Some (bench_put st (run\<lparr>br_raw := br_raw run @ [entry]\<rparr>)))"

definition finalize_run ::
  "bench_store \<Rightarrow> string \<Rightarrow> benchmark_status \<Rightarrow> raw_case_run list \<Rightarrow> (string \<rightharpoonup> metric_entry) \<Rightarrow> int \<Rightarrow> bench_store option" where
  "finalize_run st i status raw metrics now = (case bench_get st i of
       None \<Rightarrow> None
     | Some run \<Rightarrow> if br_status run \<noteq> BENCH_RUNNING then None
         else Some (bench_put st (run\<lparr>br_status := status, br_raw := raw, br_metrics := metrics, br_finished := Some now\<rparr>)))"

text \<open>The first of the runs that started last.\<close>

fun newest :: "benchmark_run list \<Rightarrow> benchmark_run option" where
  "newest [] = None"
| "newest (r # rs) = (case newest rs of None \<Rightarrow> Some r | Some r' \<Rightarrow> if br_started r < br_started r' then Some r' else Some r)"

definition matching :: "bench_store \<Rightarrow> version_tuple \<Rightarrow> baseline_type \<Rightarrow> visibility \<Rightarrow> benchmark_status \<Rightarrow> benchmark_run list" where
  "matching st versions b suite status =
     filter (\<lambda>r. br_versions r = versions \<and> br_baseline r = b \<and> br_suite r = suite \<and> br_status r = status) st"

definition bench_running :: "bench_store \<Rightarrow> version_tuple \<Rightarrow> baseline_type \<Rightarrow> visibility \<Rightarrow> benchmark_run option" where
  "bench_running st versions b suite = newest (matching st versions b suite BENCH_RUNNING)"

definition bench_latest :: "bench_store \<Rightarrow> version_tuple \<Rightarrow> baseline_type \<Rightarrow> visibility \<Rightarrow> benchmark_run option" where
  "bench_latest st versions b suite = newest (matching st versions b suite BENCH_COMPLETED)"

definition completed_cases :: "bench_store \<Rightarrow> string \<Rightarrow> raw_case_run list option" where
  "completed_cases st i = map_option br_raw (bench_get st i)"

definition latest_completed :: "bench_store \<Rightarrow> visibility option \<Rightarrow> baseline_type option \<Rightarrow> benchmark_run option" where
  "latest_completed st suite b = newest (filter (\<lambda>r. br_status r = BENCH_COMPLETED \<and> 2 \<le> length (br_raw r)
     \<and> (suite = None \<or> suite = Some (br_suite r)) \<and> (b = None \<or> b = Some (br_baseline r))) st)"

section \<open>Loading a suite\<close>

definition one_version_each :: "benchmark_case list \<Rightarrow> bool" where
  "one_version_each cases \<longleftrightarrow> list_all (\<lambda>c. list_all (\<lambda>d. bc_scenario d = bc_scenario c \<longrightarrow>
     bc_rule_version d = bc_rule_version c \<and> bc_scenario_version d = bc_scenario_version c) cases) cases"

definition suite_valid :: "benchmark_case list \<Rightarrow> visibility \<Rightarrow> nat \<Rightarrow> bool" where
  "suite_valid cases v count \<longleftrightarrow> length cases = count \<and> distinct (map bc_id cases)
     \<and> list_all (\<lambda>c. bc_visibility c = v) cases \<and> one_version_each cases"

section \<open>Hidden answers\<close>

record 'a scanner =
  sc_wide :: "nat \<Rightarrow> code_text"
  sc_digest :: "string \<Rightarrow> 'a"
  sc_dump :: "raw_case_run \<Rightarrow> json"

fun outcome_name :: "expected_outcome \<Rightarrow> string" where
  "outcome_name EXPECT_VULNERABLE = ''VULNERABLE''"
| "outcome_name EXPECT_NORMAL = ''NORMAL''"

definition all_invariants :: "invariant_id list" where
  "all_invariants = [COUPON_SINGLE_CONSUMPTION, ENTITLEMENT_NON_NEGATIVE, ENTITLEMENT_REFUND_CONSISTENCY, IDEMPOTENT_EFFECT,
     NET_PAID_NON_NEGATIVE, ORDER_TERMINAL_MONOTONICITY, POINTS_VALUE_CONSERVATION, REFUND_NOT_EXCEED_PAID]"

text \<open>What a case hides; the invariants in the order of their names.\<close>

definition hidden_answers :: "benchmark_case \<Rightarrow> json" where
  "hidden_answers c = JObj [
     (''expected_outcome'', JStr (outcome_name (bc_expected c))),
     (''expected_invariant_ids'', JList (map (\<lambda>i. JStr (invariant_name i)) (filter (\<lambda>i. i \<in> bc_invariants c) all_invariants))),
     (''ground_truth_actions'', JList (bc_actions c))]"

definition hidden_fingerprints :: "'a scanner \<Rightarrow> benchmark_case list \<Rightarrow> 'a set" where
  "hidden_fingerprints sc cases = (\<lambda>c. sc_digest sc (canonical_json (hidden_answers c))) ` set cases
     \<union> (\<lambda>c. sc_digest sc (canonical_json (JList (bc_actions c)))) ` set (filter (\<lambda>c. bc_actions c \<noteq> []) cases)"

text \<open>A finding is the position of a payload with the marker it holds, or with none when it is an answer.\<close>

definition scan_leakage :: "'a scanner \<Rightarrow> json list \<Rightarrow> benchmark_case list \<Rightarrow> (nat \<times> string option) list" where
  "scan_leakage sc payloads cases = concat (map (\<lambda>(n, v).
     map (\<lambda>m. (n, Some m)) (filter (\<lambda>m. contains_text (codes m) (casefold (sc_wide sc) (codes (canonical_json v)))) leak_markers)
     @ (if sc_digest sc (canonical_json v) \<in> hidden_fingerprints sc cases then [(n, None)] else []))
     (enumerate 0 payloads))"

section \<open>Running a suite\<close>

record 'a bench_job =
  bj_cases :: "benchmark_case list"
  bj_versions :: version_tuple
  bj_baseline :: baseline_type
  bj_repetitions :: nat
  bj_seed :: int
  bj_p0 :: "real option"
  bj_concurrency :: nat
  bj_execute :: "benchmark_case \<Rightarrow> baseline_type \<Rightarrow> nat \<Rightarrow> int \<Rightarrow> raw_case_run option"
  bj_uid :: "string \<times> nat \<Rightarrow> string"
  bj_scanner :: "'a scanner"

definition bj_suite :: "'a bench_job \<Rightarrow> visibility" where
  "bj_suite j = bc_visibility (hd (bj_cases j))"

definition job_accepted :: "'a bench_job \<Rightarrow> bool" where
  "job_accepted j \<longleftrightarrow> bj_cases j \<noteq> [] \<and> 1 \<le> bj_repetitions j \<and> 1 \<le> bj_concurrency j
     \<and> list_all (\<lambda>c. bc_visibility c = bj_suite j \<and> bc_benchmark c = vt_benchmark (bj_versions j)
         \<and> bc_budget c = bc_budget (hd (bj_cases j)) \<and> bc_oracle c = vt_oracle (bj_versions j)) (bj_cases j)
     \<and> one_version_each (bj_cases j)"

type_synonym cell = "benchmark_case \<times> nat"

definition cell_key :: "cell \<Rightarrow> string \<times> nat" where
  "cell_key x = (bc_id (fst x), snd x)"

definition job_cells :: "'a bench_job \<Rightarrow> cell list" where
  "job_cells j = concat (map (\<lambda>c. map (Pair c) [1..<bj_repetitions j + 1]) (bj_cases j))"

text \<open>A cell whose executor raises is a failure of the infrastructure; one that answers for another cell
  stops the run.\<close>

definition execute_cell :: "'a bench_job \<Rightarrow> cell \<Rightarrow> raw_case_run option" where
  "execute_cell j x = (case x of (c, n) \<Rightarrow>
     let entry = (case bj_execute j c (bj_baseline j) n (bj_seed j + int n - 1) of
         None \<Rightarrow> (raw_fact c (bj_baseline j) n (bj_uid j (cell_key x)) Infra_failed INFRA_FAILURE no_usage)\<lparr>rc_visibility := bj_suite j\<rparr>
       | Some f \<Rightarrow> f)
     in if cell_of entry = cell_key x \<and> rc_visibility entry = bj_suite j \<and> rc_baseline entry = bj_baseline j then Some entry else None)"

definition fact_leaks :: "'a bench_job \<Rightarrow> raw_case_run \<Rightarrow> bool" where
  "fact_leaks j entry \<longleftrightarrow> scan_leakage (bj_scanner j) [sc_dump (bj_scanner j) entry] (bj_cases j) \<noteq> []"

type_synonym collected = "string \<times> nat \<rightharpoonup> raw_case_run"

text \<open>One cell: executed, scanned, and only then made durable.\<close>

definition persist_cell :: "'a bench_job \<Rightarrow> string \<Rightarrow> cell \<Rightarrow> collected \<times> bench_store \<Rightarrow> (collected \<times> bench_store) \<times> bool" where
  "persist_cell j i x s = (case execute_cell j x of
       None \<Rightarrow> (s, False)
     | Some entry \<Rightarrow> if fact_leaks j entry then (s, False)
         else case append_case (snd s) i entry of
           None \<Rightarrow> (((fst s)(cell_of entry \<mapsto> entry), snd s), False)
         | Some st \<Rightarrow> (((fst s)(cell_of entry \<mapsto> entry), st), True))"

fun run_cells :: "'a bench_job \<Rightarrow> string \<Rightarrow> cell list \<Rightarrow> collected \<times> bench_store \<Rightarrow> (collected \<times> bench_store) \<times> bool" where
  "run_cells j i [] s = (s, True)"
| "run_cells j i (x # xs) s = (if fst s (cell_key x) \<noteq> None then run_cells j i xs s
     else case persist_cell j i x s of (s', ok) \<Rightarrow> if ok then run_cells j i xs s' else (s', False))"

definition new_run :: "'a bench_job \<Rightarrow> string \<Rightarrow> int \<Rightarrow> benchmark_run" where
  "new_run j i now = \<lparr>br_id = i, br_versions = bj_versions j, br_baseline = bj_baseline j, br_seed = bj_seed j,
     br_budget = bc_budget (hd (bj_cases j)), br_repetitions = bj_repetitions j, br_suite = bj_suite j, br_status = BENCH_RUNNING,
     br_raw = [], br_metrics = Map.empty, br_started = now, br_finished = None\<rparr>"

definition by_cell :: "raw_case_run list \<Rightarrow> collected" where
  "by_cell facts = map_of (rev (map (\<lambda>f. (cell_of f, f)) facts))"

text \<open>Where a run begins: its number, its start, the facts it already has, and the store.\<close>

definition open_run :: "'a bench_job \<Rightarrow> bool \<Rightarrow> string \<Rightarrow> int \<Rightarrow> bench_store \<Rightarrow> (string \<times> int \<times> collected \<times> bench_store) option" where
  "open_run j resume i now st = (case (if resume then bench_running st (bj_versions j) (bj_baseline j) (bj_suite j) else None) of
       Some run \<Rightarrow> Some (br_id run, br_started run, by_cell (br_raw run), st)
     | None \<Rightarrow> map_option (\<lambda>st'. (i, now, Map.empty, st')) (start_run st (new_run j i now)))"

definition collected_facts :: "'a bench_job \<Rightarrow> collected \<Rightarrow> raw_case_run list" where
  "collected_facts j col = concat (map (\<lambda>x. case col (cell_key x) of None \<Rightarrow> [] | Some f \<Rightarrow> [f]) (job_cells j))"

definition close_run :: "'a bench_job \<Rightarrow> string \<Rightarrow> int \<Rightarrow> int \<Rightarrow> collected \<times> bench_store \<Rightarrow> bench_store \<times> benchmark_run option" where
  "close_run j i started done_at s = (let raw = collected_facts j (fst s) in
     case compute_metrics (bj_cases j) raw (bj_repetitions j) 0 (bj_p0 j) of
       None \<Rightarrow> (snd s, None)
     | Some m \<Rightarrow> (let dict = metrics_dict (bj_repetitions j) m in
         case finalize_run (snd s) i BENCH_COMPLETED raw dict done_at of
           None \<Rightarrow> (snd s, None)
         | Some st \<Rightarrow> (st, Some ((new_run j i started)\<lparr>br_status := BENCH_COMPLETED, br_raw := raw, br_metrics := dict, br_finished := Some done_at\<rparr>))))"

definition run_suite ::
  "'a bench_job \<Rightarrow> bool \<Rightarrow> string \<Rightarrow> int \<Rightarrow> int \<Rightarrow> cell list \<Rightarrow> bench_store \<Rightarrow> bench_store \<times> benchmark_run option" where
  "run_suite j resume i now done_at order st =
     (if \<not> job_accepted j then (st, None)
      else case open_run j resume i now st of
        None \<Rightarrow> (st, None)
      | Some (i', started, col, st') \<Rightarrow> (case run_cells j i' order (col, st') of
            (s, ok) \<Rightarrow> if ok then close_run j i' started done_at s else (snd s, None)))"

end
