(* ===== verification/Eval_Refund.thy ===== *)
theory Eval_Refund
  imports Eval_Runner Worker_Values
begin

text \<open>
  The refund-agent suite: its tickets and the facts of one run of a ticket
  (\<^verbatim>\<open>packages/evaluation/refund_models.py\<close>), the loss the oracle's findings amount to and the five
  reported numbers (\<^verbatim>\<open>refund_runner.py\<close>), and the gate on the comparison of the two arms
  (\<^verbatim>\<open>gate.py\<close>). Decimals that are not finite, which no snapshot of the sandbox holds, raise here.
\<close>

section \<open>Tickets and facts\<close>

datatype agent_mode = BARE | GATED

fun mode_name :: "agent_mode \<Rightarrow> string" where
  "mode_name BARE = ''BARE''"
| "mode_name GATED = ''GATED''"

record refund_case =
  rk_id :: string
  rk_benchmark :: string
  rk_visibility :: visibility
  rk_scenario :: scenario_type
  rk_rule_version :: string
  rk_scenario_version :: string
  rk_user :: string
  rk_text :: code_text
  rk_setup :: "json list"
  rk_axes :: "defect_axis set"
  rk_expected :: "(string \<times> json) list"
  rk_invariants :: "invariant_id set"
  rk_reason :: string
  rk_escalates :: bool
  rk_spec :: rule_spec

definition refund_case_valid :: "refund_case \<Rightarrow> bool" where
  "refund_case_valid c \<longleftrightarrow> unreachable_axes (rk_scenario c) (axis_list (rk_axes c)) = {} \<and> rk_invariants c \<noteq> {} \<and> rk_setup c \<noteq> []"

text \<open>The calls stand for the counts the code takes of them.\<close>

record refund_fact =
  rx_run :: string
  rx_case :: string
  rx_mode :: agent_mode
  rx_repetition :: nat
  rx_sandbox_run :: "string option"
  rx_outcome :: "agent_outcome option"
  rx_claimed :: bool
  rx_escalated :: bool
  rx_reason :: "reason option"
  rx_state_ok :: bool
  rx_invariants_ok :: bool
  rx_violated :: "invariant_id set"
  rx_loss_orders :: "string list"
  rx_loss :: rat
  rx_tool_calls :: nat
  rx_refused :: nat
  rx_checks :: nat
  rx_steps :: "tool_call list"
  rx_final :: json
  rx_status :: benchmark_status
  rx_elapsed :: rat

definition refund_fact_valid :: "refund_fact \<Rightarrow> bool" where
  "refund_fact_valid r \<longleftrightarrow> \<not> (rx_claimed r \<and> rx_escalated r) \<and> rx_refused r \<le> rx_tool_calls r"

text \<open>
  Python's equality of JSON values: truth values are numbers, and the order of keys does not count. Floats
  compare as they are printed.
\<close>

fun py_norm :: "json \<Rightarrow> json" where
  "py_norm (JBool b) = JInt (if b then 1 else 0)"
| "py_norm (JFloat t) = (case parse_decimal t of
       Some (DFin x) \<Rightarrow> if of_int \<lfloor>x\<rfloor> = x then JInt \<lfloor>x\<rfloor> else JFloat t
     | _ \<Rightarrow> JFloat t)"
| "py_norm (JList vs) = JList (map py_norm vs)"
| "py_norm (JObj m) = JObj (sort_key fst (map (\<lambda>(k, v). (k, py_norm v)) m))"
| "py_norm v = v"

definition py_equal :: "json \<Rightarrow> json \<Rightarrow> bool" where
  "py_equal a b \<longleftrightarrow> py_norm a = py_norm b"

definition want_satisfied :: "(string \<times> json) list \<Rightarrow> json \<Rightarrow> bool" where
  "want_satisfied rows want = (case want of
       JObj wants \<Rightarrow> (case map_of rows (py_str (jget ''id'' want)) of
           None \<Rightarrow> False
         | Some row \<Rightarrow> list_all (\<lambda>(key, v). py_equal (jget key row) v) wants)
     | _ \<Rightarrow> False)"

definition expected_state_satisfied :: "(string \<times> json) list \<Rightarrow> json \<Rightarrow> bool" where
  "expected_state_satisfied expected state = list_all (\<lambda>(collection, wanted).
     case (jget collection state, wanted) of
       (JList actual, JList wants) \<Rightarrow> list_all (want_satisfied (keyed_orders (filter is_obj actual))) wants
     | _ \<Rightarrow> False) expected"

section \<open>Loss\<close>

text \<open>No value stands for a \<^verbatim>\<open>TypeError\<close>.\<close>

fun loss_rows :: "json \<Rightarrow> json list option" where
  "loss_rows (JList xs) = Some xs"
| "loss_rows (JObj _) = Some []"
| "loss_rows (JStr _) = Some []"
| "loss_rows _ = None"

definition loss_decimal :: "json \<Rightarrow> rat option" where
  "loss_decimal v = (case parse_decimal (py_str v) of
       None \<Rightarrow> Some 0
     | Some (DFin x) \<Rightarrow> Some x
     | Some _ \<Rightarrow> None)"

definition snapshot_state :: "json \<Rightarrow> json" where
  "snapshot_state snap = (if is_obj (jget ''state'' snap) then jget ''state'' snap else JObj [])"

definition loss_invariants :: "invariant_id list" where
  "loss_invariants = [REFUND_NOT_EXCEED_PAID, NET_PAID_NON_NEGATIVE]"

text \<open>The orders the violated findings on refunds name.\<close>

definition flagged_orders :: "oracle_finding list \<Rightarrow> string list" where
  "flagged_orders report = sort (remdups (concat (map (\<lambda>iid. case finding report iid of
       Some f \<Rightarrow> if fd_status f = VIOLATED then map py_str (filter (\<lambda>i. i \<noteq> JNull) (fd_offenders f)) else []
     | None \<Rightarrow> []) loss_invariants)))"

definition excess_of :: "(string \<times> json) list \<Rightarrow> string \<Rightarrow> rat option" where
  "excess_of orders i = (case map_of orders i of
       None \<Rightarrow> Some 0
     | Some order \<Rightarrow> (case (loss_decimal (jget ''refunded_amount'' order), loss_decimal (jget ''paid_amount'' order)) of
           (Some refunded, Some paid) \<Rightarrow> Some (max 0 (refunded - paid))
         | _ \<Rightarrow> None))"

definition loss_of :: "oracle_finding list \<Rightarrow> json \<Rightarrow> (string list \<times> rat) option" where
  "loss_of report snap = (case loss_rows (jget_default ''orders'' (JList []) (snapshot_state snap)) of
       None \<Rightarrow> None
     | Some rows \<Rightarrow> (let flagged = flagged_orders report; orders = keyed_orders (filter is_obj rows) in
         map_option (\<lambda>xs. (flagged, sum_list xs)) (those (map (excess_of orders) flagged))))"

section \<open>The reported numbers\<close>

datatype refund_entry =
    Rate metric_value
  | Counted nat nat "string list"
  | Amount rat "string list"
  | Total rat nat
  | Case_list "string list"
  | Overhead nat "rat option" nat "rat option"
  | Number nat

definition finished_facts :: "refund_fact list \<Rightarrow> refund_fact list" where
  "finished_facts raw = filter (\<lambda>r. rx_status r = BENCH_COMPLETED) raw"

definition facts_of_ticket :: "refund_fact list \<Rightarrow> refund_case \<Rightarrow> refund_fact list" where
  "facts_of_ticket raw c = filter (\<lambda>r. rx_case r = rk_id c) (finished_facts raw)"

definition measurable :: "refund_case list \<Rightarrow> refund_fact list \<Rightarrow> refund_case list" where
  "measurable cases raw = filter (\<lambda>c. facts_of_ticket raw c \<noteq> []) cases"

definition correct_tickets :: "refund_case list \<Rightarrow> refund_fact list \<Rightarrow> refund_case list" where
  "correct_tickets cases raw =
     filter (\<lambda>c. list_all (\<lambda>r. rx_state_ok r \<and> rx_invariants_ok r) (facts_of_ticket raw c)) (measurable cases raw)"

definition sorted_set :: "string list \<Rightarrow> string list" where
  "sorted_set xs = sort (remdups xs)"

definition lost_tickets :: "refund_fact list \<Rightarrow> string list" where
  "lost_tickets raw = sorted_set (map rx_case (filter (\<lambda>r. rx_loss_orders r \<noteq> []) (finished_facts raw)))"

text \<open>The worst loss of every ticket with one, and their sum.\<close>

definition worst_loss :: "refund_fact list \<Rightarrow> string \<Rightarrow> rat" where
  "worst_loss raw i = foldl (\<lambda>x r. max x (rx_loss r)) 0 (filter (\<lambda>r. rx_loss_orders r \<noteq> [] \<and> rx_case r = i) (finished_facts raw))"

definition lost_amount :: "refund_fact list \<Rightarrow> rat" where
  "lost_amount raw = sum_list (map (worst_loss raw) (lost_tickets raw))"

definition false_successes :: "refund_fact list \<Rightarrow> string list" where
  "false_successes raw = sorted_set (map rx_case (filter (\<lambda>r. rx_claimed r \<and> \<not> rx_state_ok r) (finished_facts raw)))"

definition must_escalate :: "refund_case list \<Rightarrow> refund_fact list \<Rightarrow> refund_case list" where
  "must_escalate cases raw = filter rk_escalates (measurable cases raw)"

definition escalated_tickets :: "refund_case list \<Rightarrow> refund_fact list \<Rightarrow> refund_case list" where
  "escalated_tickets cases raw = filter (\<lambda>c. list_all rx_escalated (facts_of_ticket raw c)) (must_escalate cases raw)"

definition false_blocks :: "refund_case list \<Rightarrow> refund_fact list \<Rightarrow> string list" where
  "false_blocks cases raw = sorted_set (map rk_id (filter (\<lambda>c. \<not> rk_escalates c
     \<and> list_ex (\<lambda>r. 0 < rx_refused r) (facts_of_ticket raw c)) (measurable cases raw)))"

definition per_fact :: "rat \<Rightarrow> refund_fact list \<Rightarrow> rat option" where
  "per_fact x raw = (if raw = [] then None else Some (x / of_nat (length raw)))"

definition compute_refund_metrics :: "refund_case list \<Rightarrow> refund_fact list \<Rightarrow> (string \<rightharpoonup> refund_entry) option" where
  "compute_refund_metrics cases raw =
     (let facts = finished_facts raw; tickets = measurable cases raw; ids = map rx_run facts; lost = lost_tickets raw
      in case (ratio (length (correct_tickets cases raw)) (length tickets) ids,
               ratio (length (false_successes raw)) (length tickets) ids,
               ratio (length (escalated_tickets cases raw)) (length (must_escalate cases raw)) ids) of
           (Some correct, Some wrong, Some esc) \<Rightarrow> Some (map_of [
             (''final_state_correct_rate'', Rate correct),
             (''unexpected_loss_cases'', Counted (length lost) (length tickets) lost),
             (''unexpected_loss_amount'', Amount (lost_amount raw) lost),
             (''unexpected_loss_total_across_runs'', Total (sum_list (map rx_loss facts)) (length facts)),
             (''false_success_rate'', Rate wrong),
             (''false_success_case_ids'', Case_list (false_successes raw)),
             (''necessary_escalation_rate'', Rate esc),
             (''false_block_cases'', Counted (length (false_blocks cases raw)) (length tickets) (false_blocks cases raw)),
             (''gate_overhead'', Overhead (sum_list (map rx_checks facts)) (per_fact (of_nat (sum_list (map rx_checks facts))) facts)
                (sum_list (map rx_tool_calls facts)) (per_fact (sum_list (map rx_elapsed facts)) facts)),
             (''evaluable_run_ids'', Case_list ids),
             (''ticket_count'', Number (card (set (map rk_id cases)))),
             (''failed_cells'', Number (length (filter (\<lambda>r. rx_status r \<noteq> BENCH_COMPLETED) raw)))])
         | _ \<Rightarrow> None)"

section \<open>The gate on the comparison\<close>

record refund_run =
  rn_id :: string
  rn_versions :: version_tuple
  rn_mode :: agent_mode
  rn_seed :: int
  rn_repetitions :: nat
  rn_suite :: visibility
  rn_status :: benchmark_status
  rn_raw :: "refund_fact list"
  rn_metrics :: "string \<rightharpoonup> refund_entry"
  rn_started :: int
  rn_finished :: "int option"

text \<open>The in-memory store of these runs (\<^verbatim>\<open>refund_store.py\<close>).\<close>

definition refund_get :: "refund_run list \<Rightarrow> string \<Rightarrow> refund_run option" where
  "refund_get st i = find (\<lambda>r. rn_id r = i) st"

definition refund_save :: "refund_run list \<Rightarrow> refund_run \<Rightarrow> refund_run list option" where
  "refund_save st run = (if refund_get st (rn_id run) \<noteq> None then None else Some (st @ [run]))"

fun newest_refund :: "refund_run list \<Rightarrow> refund_run option" where
  "newest_refund [] = None"
| "newest_refund (r # rs) = (case newest_refund rs of None \<Rightarrow> Some r | Some r' \<Rightarrow> if rn_started r < rn_started r' then Some r' else Some r)"

definition latest_refund :: "refund_run list \<Rightarrow> version_tuple option \<Rightarrow> agent_mode option \<Rightarrow> refund_run option" where
  "latest_refund st versions mode = newest_refund (filter (\<lambda>r. rn_status r = BENCH_COMPLETED \<and> 2 \<le> length (rn_raw r)
     \<and> (versions = None \<or> versions = Some (rn_versions r)) \<and> (mode = None \<or> mode = Some (rn_mode r))) st)"

definition gate_count :: "refund_run \<Rightarrow> string \<Rightarrow> int option" where
  "gate_count run key = (case rn_metrics run key of
       Some (Rate m) \<Rightarrow> map_option (\<lambda>x. \<lfloor>x\<rfloor>) (mv_value m)
     | Some (Counted n _ _) \<Rightarrow> Some (int n)
     | Some (Amount x _) \<Rightarrow> Some \<lfloor>x\<rfloor>
     | Some (Total x _) \<Rightarrow> Some \<lfloor>x\<rfloor>
     | _ \<Rightarrow> None)"

definition gate_rate :: "refund_run \<Rightarrow> string \<Rightarrow> real option" where
  "gate_rate run key = (case rn_metrics run key of
       Some (Rate m) \<Rightarrow> (case (mv_value m, mv_denominator m) of
           (Some x, Some n) \<Rightarrow> if 0 < n then Some x else None
         | _ \<Rightarrow> None)
     | Some (Counted k n _) \<Rightarrow> if 0 < n then Some (real k) else None
     | _ \<Rightarrow> None)"

definition no_failed_cells :: "refund_run \<Rightarrow> bool" where
  "no_failed_cells run \<longleftrightarrow> (case rn_metrics run ''failed_cells'' of Some (Number n) \<Rightarrow> n = 0 | _ \<Rightarrow> False)"

definition refund_checks :: "refund_run \<Rightarrow> refund_run \<Rightarrow> (string \<times> bool) list" where
  "refund_checks bare gated =
     [(''matching_configuration'', rn_versions bare = rn_versions gated \<and> rn_seed bare = rn_seed gated
         \<and> rn_repetitions bare = rn_repetitions gated \<and> length (rn_raw bare) = length (rn_raw gated)),
      (''both_arms_completed'', rn_status bare = BENCH_COMPLETED \<and> rn_status gated = BENCH_COMPLETED
         \<and> no_failed_cells bare \<and> no_failed_cells gated),
      (''no_duplicate_refund_in_gated'', gate_count gated ''unexpected_loss_cases'' = Some 0),
      (''no_false_block_on_normal'', gate_count gated ''false_block_cases'' = Some 0),
      (''gated_not_worse_than_bare'', (case (gate_rate bare ''final_state_correct_rate'', gate_rate gated ''final_state_correct_rate'') of
          (Some b, Some g) \<Rightarrow> b \<le> g | _ \<Rightarrow> False))]"

definition refund_gate :: "(agent_mode \<rightharpoonup> refund_run) \<Rightarrow> gate_result" where
  "refund_gate runs = (case (runs BARE, runs GATED) of
       (Some bare, Some gated) \<Rightarrow> gate_verdict (rn_id gated) (refund_checks bare gated)
     | _ \<Rightarrow> \<lparr>gt_passed = False, gt_run = None, gt_checks = [(''matching_modes'', False)],
         gt_reasons = [''no completed run for: '' @ join_text '', '' (map mode_name (filter (\<lambda>m. runs m = None) [BARE, GATED]))]\<rparr>)"

end
