(* ===== verification/Eval_Cell.thy ===== *)
theory Eval_Cell
  imports Eval_Refund Agent Replay
begin

text \<open>
  One ticket handled once (\<^verbatim>\<open>packages/evaluation/refund_runner.py\<close>): a fresh run of the sandbox with
  the ticket's defects, its background, the agent with or without the gate, and the facts read back from
  the sandbox and judged by the oracle; and a suite of tickets under one mode, one cell at a time. Clocks
  and run numbers are arguments.
\<close>

section \<open>Talking to the sandbox\<close>

definition open_ticket_run ::
  "(json \<Rightarrow> string) \<Rightarrow> (scenario_type \<Rightarrow> sandbox_version \<Rightarrow> string option) \<Rightarrow> refund_case \<Rightarrow> string client" where
  "open_ticket_run D known c =
     chain (chain (lift_reply (send_create D known (rk_scenario c) FIXED (Some (axis_list (rk_axes c)))) accepted) or_raise) (\<lambda>body.
     chain (or_raise (item ''run_id'' body)) (\<lambda>i. give (py_str i)))"

definition setup_key :: "refund_case \<Rightarrow> nat \<Rightarrow> string" where
  "setup_key c n = rk_id c @ '':setup:'' @ string_of_nat n"

definition text_or_none :: "json \<Rightarrow> string option option" where
  "text_or_none v = (case v of JNull \<Rightarrow> Some None | JStr s \<Rightarrow> Some (Some s) | _ \<Rightarrow> None)"

text \<open>
  One action of the background: it must name an action and hold its arguments. The sandbox refuses a
  request that is no command of its schema.
\<close>

datatype setup_request = Malformed | Unknown_command | Background command

definition setup_request :: "refund_case \<Rightarrow> nat \<Rightarrow> json \<Rightarrow> setup_request" where
  "setup_request c n raw = (case (jget ''action_type'' raw, jget_default ''arguments'' (JObj []) raw) of
       (JStr name, JObj arguments) \<Rightarrow> (case (action_named (map upper_char name), text_or_none (jget ''target_id'' raw)) of
           (Some act, Some target) \<Rightarrow> Background \<lparr>cmd_action = act, cmd_actor = py_str (jget_default ''actor_id'' (JStr (rk_user c)) raw),
              cmd_target = target, cmd_arguments = arguments, cmd_key = Some (setup_key c n)\<rparr>
         | _ \<Rightarrow> Unknown_command)
     | _ \<Rightarrow> Malformed)"

definition setup_post :: "(json \<Rightarrow> string) \<Rightarrow> string \<Rightarrow> setup_request \<Rightarrow> json client" where
  "setup_post D run_id rq = (case rq of
       Malformed \<Rightarrow> raise_exn
     | Unknown_command \<Rightarrow> fetch D (\<lambda>amb db. Reply 422 (JObj [(''detail'', JList [JObj []])]))
     | Background cmd \<Rightarrow> chain (lift_reply (send_post D run_id cmd) accepted) or_raise)"

fun set_up :: "(json \<Rightarrow> string) \<Rightarrow> string \<Rightarrow> refund_case \<Rightarrow> nat \<Rightarrow> json list \<Rightarrow> string list \<Rightarrow> string list client" where
  "set_up D run_id c n [] keys = give keys"
| "set_up D run_id c n (raw # rest) keys =
     chain (setup_post D run_id (setup_request c n raw)) (\<lambda>receipt.
       if jget ''status'' receipt \<noteq> JStr ''SUCCEEDED'' then raise_exn
       else set_up D run_id c (n + 1) rest (keys @ [setup_key c n]))"

text \<open>A write the gate refused has no receipt.\<close>

fun receipt_or_missing :: "reply \<Rightarrow> json option option" where
  "receipt_or_missing (Reply n body) = (if n = 404 then Some None else map_option Some (accepted (Reply n body)))"
| "receipt_or_missing (Garbled n) = (if n = 404 then Some None else None)"
| "receipt_or_missing _ = None"

fun read_receipts :: "(json \<Rightarrow> string) \<Rightarrow> string \<Rightarrow> string list \<Rightarrow> json list client" where
  "read_receipts D run_id [] = give []"
| "read_receipts D run_id (key # keys) =
     chain (chain (lift_reply (send_get D (http_receipt run_id key)) receipt_or_missing) or_raise) (\<lambda>found.
     chain (read_receipts D run_id keys) (\<lambda>rest. give ((case found of None \<Rightarrow> [] | Some r \<Rightarrow> [r]) @ rest)))"

section \<open>A cell\<close>

definition ticket_of :: "refund_case \<Rightarrow> ticket" where
  "ticket_of c = \<lparr>tk_id = rk_id c, tk_user = rk_user c, tk_text = rk_text c\<rparr>"

definition call_keys :: "tool_call list \<Rightarrow> string list" where
  "call_keys calls = concat (map (\<lambda>x. case tl_key x of None \<Rightarrow> [] | Some k \<Rightarrow> [k]) calls)"

record evidence =
  ev_before :: json
  ev_after :: json
  ev_report :: agent_report
  ev_events :: "json list"
  ev_receipts :: "json list"

definition measure_ticket ::
  "unicode \<Rightarrow> (json \<Rightarrow> string) \<Rightarrow> agent_mode \<Rightarrow> refund_case \<Rightarrow> string \<Rightarrow> evidence client" where
  "measure_ticket u D mode c run_id =
     chain (set_up D run_id c 0 (rk_setup c) []) (\<lambda>keys.
     chain (fetch D (http_snapshot D run_id)) (\<lambda>before.
     chain (if ticket_valid (ticket_of c)
       then handle u D run_id (if mode = GATED then Some (gate_guard D run_id) else None) 2 (ticket_of c) else raise_exn) (\<lambda>report.
     chain (fetch D (http_snapshot D run_id)) (\<lambda>after.
     chain (fetch D (http_events run_id)) (\<lambda>body.
     chain (or_raise (event_list body)) (\<lambda>events.
     chain (read_receipts D run_id (first_occurrences (keys @ call_keys (rp_calls report)))) (\<lambda>receipts.
     give \<lparr>ev_before = before, ev_after = after, ev_report = report, ev_events = events, ev_receipts = receipts\<rparr>)))))))"

definition failed_fact :: "refund_case \<Rightarrow> agent_mode \<Rightarrow> nat \<Rightarrow> string \<Rightarrow> rat \<Rightarrow> string \<Rightarrow> refund_fact" where
  "failed_fact c mode n uid elapsed run_id = \<lparr>rx_run = uid, rx_case = rk_id c, rx_mode = mode, rx_repetition = n, rx_sandbox_run = Some run_id,
     rx_outcome = None, rx_claimed = False, rx_escalated = False, rx_reason = None, rx_state_ok = False, rx_invariants_ok = False,
     rx_violated = {}, rx_loss_orders = [], rx_loss = 0, rx_tool_calls = 0, rx_refused = 0, rx_checks = 0, rx_steps = [],
     rx_final = JObj [], rx_status = BENCH_FAILED, rx_elapsed = elapsed\<rparr>"

definition invariants_hold :: "oracle_finding list \<Rightarrow> invariant_id set \<Rightarrow> bool" where
  "invariants_hold report iids \<longleftrightarrow> list_all (\<lambda>iid. iid \<in> iids \<longrightarrow>
     (case finding report iid of Some f \<Rightarrow> fd_status f \<in> {SATISFIED, NOT_APPLICABLE} | None \<Rightarrow> False)) all_invariants"

definition judged_fact ::
  "refund_case \<Rightarrow> agent_mode \<Rightarrow> nat \<Rightarrow> string \<Rightarrow> rat \<Rightarrow> string \<Rightarrow> evidence \<Rightarrow> refund_fact option" where
  "judged_fact c mode n uid elapsed run_id ev =
     (case evaluate (rk_spec c) [ev_before ev, ev_after ev] (ev_receipts ev) (ev_events ev) of
        None \<Rightarrow> None
      | Some report \<Rightarrow> map_option (\<lambda>(orders, lost).
          let calls = rp_calls (ev_report ev); state = snapshot_state (ev_after ev) in
          \<lparr>rx_run = uid, rx_case = rk_id c, rx_mode = mode, rx_repetition = n, rx_sandbox_run = Some run_id,
           rx_outcome = Some (rp_outcome (ev_report ev)), rx_claimed = rp_claimed (ev_report ev),
           rx_escalated = (rp_outcome (ev_report ev) = Escalated), rx_reason = rp_reason (ev_report ev),
           rx_state_ok = expected_state_satisfied (rk_expected c) state, rx_invariants_ok = invariants_hold report (rk_invariants c),
           rx_violated = fd_invariant ` set (violations report), rx_loss_orders = orders, rx_loss = lost,
           rx_tool_calls = length calls, rx_refused = length (filter (\<lambda>x. tl_outcome x = Tool_Refused) calls),
           rx_checks = sum_list (map tl_checks calls), rx_steps = calls, rx_final = state,
           rx_status = BENCH_COMPLETED, rx_elapsed = elapsed\<rparr>) (loss_of report (ev_after ev)))"

text \<open>Only what happens between the opening of the run and the last receipt is caught.\<close>

definition attempt :: "'a client \<Rightarrow> 'a option client" where
  "attempt m w = (case m w of (x, w') \<Rightarrow> (Some x, w'))"

record cell_setting =
  cs_unicode :: unicode
  cs_digest :: "json \<Rightarrow> string"
  cs_known :: "scenario_type \<Rightarrow> sandbox_version \<Rightarrow> string option"
  cs_uid :: "string \<times> nat \<Rightarrow> string"
  cs_elapsed :: "string \<times> nat \<Rightarrow> rat"

definition refund_cell :: "cell_setting \<Rightarrow> agent_mode \<Rightarrow> refund_case \<Rightarrow> nat \<Rightarrow> refund_fact client" where
  "refund_cell s mode c n = (let D = cs_digest s; uid = cs_uid s (rk_id c, n); elapsed = cs_elapsed s (rk_id c, n) in
     chain (open_ticket_run D (cs_known s) c) (\<lambda>run_id.
     chain (attempt (measure_ticket (cs_unicode s) D mode c run_id)) (\<lambda>found. case found of
       None \<Rightarrow> give (failed_fact c mode n uid elapsed run_id)
     | Some ev \<Rightarrow> or_raise (judged_fact c mode n uid elapsed run_id ev))))"

section \<open>A suite\<close>

fun refund_cells :: "cell_setting \<Rightarrow> agent_mode \<Rightarrow> (refund_case \<times> nat) list \<Rightarrow> refund_fact list client" where
  "refund_cells s mode [] = give []"
| "refund_cells s mode ((c, n) # xs) =
     chain (refund_cell s mode c n) (\<lambda>r. chain (refund_cells s mode xs) (\<lambda>rs. give (r # rs)))"

definition refund_accepted :: "refund_case list \<Rightarrow> version_tuple \<Rightarrow> nat \<Rightarrow> bool" where
  "refund_accepted cases versions repetitions \<longleftrightarrow> cases \<noteq> [] \<and> 1 \<le> repetitions
     \<and> list_all (\<lambda>c. rk_benchmark c = vt_benchmark versions) cases"

definition refund_schedule :: "refund_case list \<Rightarrow> nat \<Rightarrow> (refund_case \<times> nat) list" where
  "refund_schedule cases repetitions = concat (map (\<lambda>c. map (Pair c) [1..<repetitions + 1]) cases)"

definition run_refund_suite ::
  "cell_setting \<Rightarrow> refund_case list \<Rightarrow> version_tuple \<Rightarrow> agent_mode \<Rightarrow> nat \<Rightarrow> int \<Rightarrow> string \<Rightarrow> int \<Rightarrow> int \<Rightarrow> refund_run list
   \<Rightarrow> (refund_run \<times> refund_run list) client" where
  "run_refund_suite s cases versions mode repetitions seed i now done_at st =
     (if \<not> refund_accepted cases versions repetitions then raise_exn
      else chain (refund_cells s mode (refund_schedule cases repetitions)) (\<lambda>raw.
        chain (or_raise (compute_refund_metrics cases raw)) (\<lambda>m.
        let run = \<lparr>rn_id = i, rn_versions = versions, rn_mode = mode, rn_seed = seed, rn_repetitions = repetitions, rn_suite = DEVELOPMENT,
            rn_status = BENCH_COMPLETED, rn_raw = raw, rn_metrics = m, rn_started = now, rn_finished = Some done_at\<rparr>
        in or_raise (map_option (Pair run) (refund_save st run)))))"

end
