(* ===== verification/Eval_Facts.thy ===== *)
theory Eval_Facts
  imports Eval_Cell Oracle_Facts
begin

text \<open>
  The facts a gated cell produces: the background refunds nothing, the gated agent refunds no order beyond
  what was paid, and so the oracle flags none and the fact has no loss; the numbers of a suite follow.
\<close>

section \<open>Runs without a loss\<close>

text \<open>The run behind a number is well-formed and no order of it is refunded beyond what was paid.\<close>

definition untouched :: "string \<Rightarrow> world \<Rightarrow> bool" where
  "untouched i w \<longleftrightarrow> punctual w \<and> (\<exists>run. w_db w i = Some run \<and> run_ok run \<and> rs_refunds run = [])"

definition lossless :: "string \<Rightarrow> world \<Rightarrow> bool" where
  "lossless i w \<longleftrightarrow> punctual w \<and> (\<exists>run. w_db w i = Some run \<and> run_ok run \<and> over_refunded run = {})"

lemma unrefunded_lossless:
  assumes "run_ok run" "rs_refunds run = []"
  shows "over_refunded run = {}"
proof -
  have books: "wf_books run" using assms(1) by (simp add: run_ok_def)
  have "\<not> od_paid d < od_refunded d" if "d \<in> set (rs_orders run)" for d
  proof -
    have "od_refunded d = refund_total run (od_id d)" using wf_books_facts(3) [OF books] that by (simp add: refunds_match_def)
    then have "od_refunded d = 0" by (simp add: refund_total_def assms(2))
    moreover have "0 \<le> od_paid d"
      using order_ok_nonneg [of run d] wf_rowsD [OF wf_books_facts(2) [OF books]] that by blast
    ultimately show ?thesis by simp
  qed
  then show ?thesis by (auto simp: over_refunded_def dest: find_row_SomeD)
qed

lemma untouched_lossless: "untouched i w \<Longrightarrow> lossless i w"
  using unrefunded_lossless by (auto simp: untouched_def lossless_def)

lemma lossless_orders:
  assumes "run_ok run" "over_refunded run = {}" "d \<in> set (rs_orders run)"
  shows "\<not> od_paid d < od_refunded d"
proof
  assume "od_paid d < od_refunded d"
  have "wf_books run" using assms(1) by (simp add: run_ok_def)
  then have "distinct (map od_id (rs_orders run))" by (intro wf_ids_distinct(3) wf_books_facts(1))
  then have "find_row od_id (od_id d) (rs_orders run) = Some d" using assms(3) by (rule find_row_distinct)
  with \<open>od_paid d < od_refunded d\<close> assms(2) show False by (auto simp: over_refunded_def)
qed

section \<open>Exchanges\<close>

lemma fetch_punctual:
  assumes "fetch D answer w = (x, w')" "punctual w"
  shows "w_db w' = w_db w \<and> punctual w'"
proof -
  obtain r where "send_get D answer w = (r, w')"
    using assms(1) by (auto simp: fetch_def chain_def lift_reply_def or_raise_def give_def raise_exn_def Let_def split: prod.splits option.splits)
  with send_get_punctual [OF this assms(2)] show ?thesis by blast
qed

lemma fetch_snapshot_punctual:
  assumes "fetch D (http_snapshot D i) w = (Some snap, w')" "punctual w" "w_db w i = Some run"
  shows "\<exists>amb. snap = snapshot D amb run"
proof -
  obtain r where r: "send_get D (http_snapshot D i) w = (r, w')" "accepted r = Some snap"
    using assms(1) by (auto simp: fetch_def chain_Some lift_reply_simp or_raise_def split: option.splits)
  with send_get_punctual [OF r(1) assms(2)] have "r = http_snapshot D i (cn_amb (current w)) (w_db w)"
    by (auto simp: glitch_not_accepted)
  then have "snap = snapshot D (cn_amb (current w)) run"
    using r(2) assms(3) by (simp add: http_snapshot_def get_snapshot_def fetch_run_def snapshot_fields)
  then show ?thesis by blast
qed

lemma or_raise_same [simp]: "or_raise x w = (y, w') \<longleftrightarrow> y = x \<and> w' = w"
  by (cases x) (auto simp: or_raise_def)

lemma read_receipts_punctual:
  "\<lbrakk>read_receipts D i keys w = (x, w'); punctual w\<rbrakk> \<Longrightarrow> w_db w' = w_db w \<and> punctual w'"
proof (induction D i keys arbitrary: w x w' rule: read_receipts.induct)
  case (2 D i key keys)
  from "2.prems"(1) [unfolded read_receipts.simps] show ?case
  proof (cases rule: chain_cases)
    case escapes
    from escapes(1) have "\<exists>r. send_get D (http_receipt i key) w = (r, w')"
      by (cases rule: chain_cases) (auto simp: lift_reply_simp)
    then show ?thesis using send_get_punctual [OF _ "2.prems"(2)] by blast
  next
    case (goes_on found w1)
    from goes_on(1) obtain r where "send_get D (http_receipt i key) w = (r, w1)" by (auto simp: chain_Some lift_reply_simp)
    then have w1: "w_db w1 = w_db w" "punctual w1" using send_get_punctual [OF _ "2.prems"(2)] by blast+
    from goes_on(2) show ?thesis
    proof (cases rule: chain_cases)
      case escapes
      then show ?thesis using "2.IH" w1 by metis
    next
      case (goes_on rest w2)
      then show ?thesis using "2.IH" [OF goes_on(1) w1(2)] w1 by simp
    qed
  qed
qed simp

section \<open>The background\<close>

lemma serve_other:
  assumes "cmd_action cmd \<noteq> REFUND_ORDER"
  shows "rs_refunds (serve D run (Act amb cmd)) = rs_refunds run"
proof (cases "transact D amb cmd run")
  case None
  then show ?thesis by (simp add: serve_def)
next
  case (Some rr)
  obtain r run2 where rr: "rr = (r, run2)" by force
  from Some [unfolded rr] have "rs_refunds run2 = rs_refunds run"
  proof (cases rule: transact_cases)
    case (committed result effects run1)
    then have "rs_refunds run1 = rs_refunds run" using handler_refunds(1) [OF dispatch_handler [OF committed(2)] assms] by simp
    then show ?thesis by (simp add: committed(4) add_receipt_def)
  next
    case (rejected code)
    then show ?thesis by (simp add: add_receipt_def)
  qed simp
  then show ?thesis using Some rr by (simp add: serve_def)
qed

lemma post_untouched:
  assumes "send_post D i cmd w = (r, w')" "untouched i w" "cmd_action cmd \<noteq> REFUND_ORDER"
  shows "untouched i w'"
proof -
  obtain run where run: "punctual w" "w_db w i = Some run" "run_ok run" "rs_refunds run = []" using assms(2) by (auto simp: untouched_def)
  have good: "\<exists>run'. snd (execute_action D amb i cmd (w_db w)) i = Some run' \<and> run_ok run' \<and> rs_refunds run' = []" for amb
    using execute_action_serves [where db = "w_db w", OF run(2), of D amb cmd] serve_ok [OF run(3)] serve_other [OF assms(3)] run(3,4) by fastforce
  from assms(1) run(1) show ?thesis
  proof (cases rule: send_post_punctual)
    case (delivered amb)
    then show ?thesis using good [of amb] by (metis snd_conv untouched_def)
  next
    case (unanswered amb g)
    then show ?thesis using good [of amb] by (simp add: untouched_def)
  next
    case (dropped g)
    then show ?thesis using run by (simp add: untouched_def)
  qed
qed

definition background_refunds :: "refund_case \<Rightarrow> bool" where
  "background_refunds c \<longleftrightarrow> list_ex (\<lambda>raw. case jget ''action_type'' raw of
     JStr s \<Rightarrow> map upper_char s = ''REFUND_ORDER'' | _ \<Rightarrow> False) (rk_setup c)"

lemma setup_request_action:
  assumes "setup_request c n raw = Background cmd" "cmd_action cmd = REFUND_ORDER"
  shows "\<exists>s. jget ''action_type'' raw = JStr s \<and> map upper_char s = ''REFUND_ORDER''"
proof -
  obtain s where s: "jget ''action_type'' raw = JStr s" "action_named (map upper_char s) = Some REFUND_ORDER"
    using assms by (auto simp: setup_request_def split: json.splits option.splits)
  have found: "find P xs = Some a \<Longrightarrow> P a" for P xs and a :: action_type by (induction xs) (auto split: if_splits)
  have "action_name REFUND_ORDER = map upper_char s" using s(2) unfolding action_named_def by (rule found)
  with s(1) show ?thesis by simp
qed

lemma set_up_untouched:
  "\<lbrakk>set_up D i c n raws keys w = (x, w'); untouched i w; set raws \<subseteq> set (rk_setup c); \<not> background_refunds c\<rbrakk> \<Longrightarrow> untouched i w'"
proof (induction D i c n raws keys arbitrary: w rule: set_up.induct)
  case (2 D i c n raw rest keys)
  have safe: "untouched i w1" if "setup_post D i (setup_request c n raw) w = (y, w1)" for y w1
  proof (cases "setup_request c n raw")
    case Malformed
    then show ?thesis using that "2.prems"(2) by (simp add: setup_post_def)
  next
    case Unknown_command
    then show ?thesis using that "2.prems"(2) fetch_punctual by (auto simp: setup_post_def untouched_def)
  next
    case (Background cmd)
    have "cmd_action cmd \<noteq> REFUND_ORDER"
      using setup_request_action [OF Background] "2.prems"(3,4) by (force simp: background_refunds_def list_ex_iff)
    moreover obtain r w2 where post: "send_post D i cmd w = (r, w2)" by force
    moreover have "w2 = w1" using that post by (simp add: setup_post_def Background chain_def lift_reply_def)
    ultimately show ?thesis using post_untouched [OF post "2.prems"(2)] by simp
  qed
  from "2.prems"(1) [unfolded set_up.simps] show ?case
  proof (cases rule: chain_cases)
    case escapes
    then show ?thesis using safe by blast
  next
    case (goes_on receipt w1)
    then show ?thesis using safe [OF goes_on(1)] "2.IH" [of receipt w1] "2.prems"(3,4) by (auto split: if_splits)
  qed
qed simp

lemma opened_untouched:
  assumes "open_ticket_run D known c w = (Some i, w')" "punctual w"
  shows "untouched i w'"
proof -
  obtain r body j where r: "send_create D known (rk_scenario c) FIXED (Some (axis_list (rk_axes c))) w = (r, w')" "accepted r = Some body"
    "item ''run_id'' body = Some j" "i = py_str j"
    using assms(1) by (auto simp: open_ticket_run_def chain_Some lift_reply_simp accepted_eq eq_commute [of "Some _" "item _ _"])
  let ?amb = "cn_amb (current w)" and ?axes = "Some (axis_list (rk_axes c))"
  let ?run = "empty_run (amb_run ?amb) (rk_scenario c) FIXED ?axes"
  obtain db' where made: "http_create D known (rk_scenario c) FIXED ?axes ?amb (w_db (next_world D w)) = (r, db')" "w_db w' = db'"
    using r(1,2) by (auto simp: send_create_def Let_def glitch_not_accepted split: delivery.splits prod.splits)
  then have "item ''run_id'' body = Some (JStr (rs_id ?run))" and db: "w_db w' = (w_db (next_world D w))(amb_run ?amb \<mapsto> ?run)"
    using r(2) by (auto simp: http_create_def create_run_def Let_def failure_not_accepted item_def split: if_splits option.splits)
  moreover have "rs_id ?run = amb_run ?amb" "rs_refunds ?run = []" by (simp_all add: empty_run_def)
  moreover have "punctual w'"
    using r(1) assms(2) next_world_punctual(2) [OF assms(2), of D]
    by (auto simp: send_create_def Let_def punctual_def split: delivery.splits prod.splits)
  ultimately show ?thesis using r(3,4) by (auto simp: untouched_def empty_run_ok)
qed


section \<open>A gated cell\<close>

text \<open>Steps that keep what is known of the world.\<close>

definition keeps :: "(world \<Rightarrow> bool) \<Rightarrow> 'a client \<Rightarrow> bool" where
  "keeps P m \<longleftrightarrow> (\<forall>w x w'. P w \<longrightarrow> m w = (x, w') \<longrightarrow> P w')"

lemma keepsD: "\<lbrakk>keeps P m; m w = (x, w'); P w\<rbrakk> \<Longrightarrow> P w'"
  by (simp add: keeps_def)

lemma kept_by: "\<lbrakk>m w = (x, w'); P w; keeps P m\<rbrakk> \<Longrightarrow> P w'"
  by (simp add: keeps_def)

lemma keeps_give [simp]: "keeps P (give x)" "keeps P raise_exn" "keeps P (or_raise y)"
  by (auto simp: keeps_def)

lemma keeps_chain: "\<lbrakk>keeps P m; \<And>x. keeps P (f x)\<rbrakk> \<Longrightarrow> keeps P (chain m f)"
  unfolding keeps_def by (metis chain_cases)

lemma keeps_fetch: "keeps (lossless i) (fetch D answer)"
  using fetch_punctual by (force simp: keeps_def lossless_def)

lemma keeps_receipts: "keeps (lossless i) (read_receipts D j keys)"
  using read_receipts_punctual by (force simp: keeps_def lossless_def)

lemma keeps_handle: "keeps (lossless i) (handle u D i (Some (gate_guard D i)) n t)"
  unfolding keeps_def
proof (intro allI impI)
  fix w x w' assume "lossless i w" and h: "handle u D i (Some (gate_guard D i)) n t w = (x, w')"
  then obtain run where "punctual w" "w_db w i = Some run" "run_ok run" "over_refunded run = {}" by (auto simp: lossless_def)
  with gated_handle [OF h] show "lossless i w'" unfolding lossless_def by blast
qed

definition lossless_snapshot :: "(json \<Rightarrow> string) \<Rightarrow> json \<Rightarrow> bool" where
  "lossless_snapshot D snap \<longleftrightarrow> (\<exists>amb run. snap = snapshot D amb run \<and> run_ok run \<and> over_refunded run = {})"

lemma fetch_lossless:
  assumes "fetch D (http_snapshot D i) w = (Some snap, w')" "lossless i w"
  shows "lossless_snapshot D snap"
  using assms fetch_snapshot_punctual [OF assms(1)] unfolding lossless_def lossless_snapshot_def by blast

lemma gated_measure:
  assumes "measure_ticket u D GATED c i w = (x, w')" "untouched i w" "\<not> background_refunds c"
  shows "lossless i w' \<and> (\<forall>ev. x = Some ev \<longrightarrow> lossless_snapshot D (ev_after ev))"
  using assms(1) [unfolded measure_ticket_def]
proof (cases rule: chain_cases)
  case escapes
  then show ?thesis using set_up_untouched [OF escapes(1) assms(2) subset_refl assms(3)] untouched_lossless by simp
next
  case (goes_on keys w1)
  have w1: "lossless i w1" using set_up_untouched [OF goes_on(1) assms(2) subset_refl assms(3)] by (rule untouched_lossless)
  have "keeps (lossless i) (if ticket_valid (ticket_of c)
      then handle u D i (if GATED = GATED then Some (gate_guard D i) else None) 2 (ticket_of c) else raise_exn)"
    using keeps_handle by simp
  note agent = this
  have "lossless i w'"
    using goes_on(2) w1 by (rule kept_by [where P = "lossless i"]) (intro keeps_chain keeps_fetch agent keeps_receipts keeps_give)
  moreover have "lossless_snapshot D (ev_after ev)" if x: "x = Some ev" for ev
  proof -
    from goes_on(2) [unfolded x chain_Some] obtain before w2 report w3 after w4 where
      "fetch D (http_snapshot D i) w1 = (Some before, w2)"
      and a: "(if ticket_valid (ticket_of c) then handle u D i (if GATED = GATED then Some (gate_guard D i) else None) 2 (ticket_of c)
        else raise_exn) w2 = (Some report, w3)"
      and s: "fetch D (http_snapshot D i) w3 = (Some after, w4)" and ev: "ev_after ev = after"
      by auto
    from keepsD [OF keeps_fetch this(1) w1] have "lossless i w2" .
    from keepsD [OF agent a this] have "lossless i w3" .
    from fetch_lossless [OF s this] ev show ?thesis by simp
  qed
  ultimately show ?thesis by blast
qed

section \<open>No loss\<close>

lemma lossless_not_flagged:
  assumes "lossless_snapshot D snap" "evaluate spec [before, snap] receipts events = Some report"
  shows "flagged_orders report = []"
proof -
  obtain amb run where run: "snap = snapshot D amb run" "run_ok run" "over_refunded run = {}" using assms(1) by (auto simp: lossless_snapshot_def)
  let ?ev = "[before] @ [snapshot D amb run]"
  have e: "evaluate spec ?ev receipts events = Some report" using assms(2) run(1) by simp
  have rows: "wf_rows run" using run(2) wf_books_facts(2) by (simp add: run_ok_def)
  have paid: "verdict (refund_limit_check spec ?ev receipts events) = Some (verdict_on (rs_orders run) (\<lambda>d. od_paid d < od_refunded d) od_id)"
    using rows by (rule refund_limit_verdict)
  have quiet: "fd_status f \<noteq> VIOLATED" if "refund_limit_check spec ?ev receipts events = Some f" for f
    using verdict_violated [OF paid that] lossless_orders [OF run(2,3)] by blast
  have "fd_status f \<noteq> VIOLATED" if "net_paid spec ?ev receipts events = Some f" for f
    using that quiet payment_statuses [of spec ?ev receipts events] by (auto simp: map_option_eq_Some)
  then show ?thesis
    using quiet by (simp add: flagged_orders_def loss_invariants_def evaluate_finding [OF e] split: option.splits)
qed

lemma judged_no_loss:
  assumes "lossless_snapshot D (ev_after ev)" "judged_fact c mode n uid elapsed i ev = Some r"
  shows "rx_loss_orders r = [] \<and> rx_loss r = 0 \<and> rx_status r = BENCH_COMPLETED"
proof -
  obtain report where report: "evaluate (rk_spec c) [ev_before ev, ev_after ev] (ev_receipts ev) (ev_events ev) = Some report"
    using assms(2) by (auto simp: judged_fact_def split: option.splits)
  obtain orders lost where loss: "loss_of report (ev_after ev) = Some (orders, lost)" and r: "rx_loss_orders r = orders" "rx_loss r = lost"
    "rx_status r = BENCH_COMPLETED"
    using assms(2) by (auto simp: judged_fact_def report Let_def)
  have "flagged_orders report = []" using lossless_not_flagged [OF assms(1) report] .
  with loss have "orders = [] \<and> lost = 0" by (auto simp: loss_of_def Let_def split: option.splits)
  with r show ?thesis by simp
qed

lemma opened_punctual:
  assumes "open_ticket_run D known c w = (x, w')" "punctual w"
  shows "punctual w'"
proof -
  obtain r where r: "send_create D known (rk_scenario c) FIXED (Some (axis_list (rk_axes c))) w = (r, w')"
    using assms(1) by (auto simp: open_ticket_run_def chain_def lift_reply_def or_raise_def give_def raise_exn_def Let_def split: prod.splits option.splits)
  then show ?thesis using assms(2) next_world_punctual(2) [OF assms(2), of D]
    by (auto simp: send_create_def Let_def punctual_def split: delivery.splits prod.splits)
qed

lemma gated_cell:
  assumes "refund_cell s GATED c n w = (x, w')" "punctual w" "\<not> background_refunds c"
  shows "punctual w' \<and> (\<forall>r. x = Some r \<longrightarrow> rx_loss_orders r = [] \<and> rx_loss r = 0)"
  using assms(1) [unfolded refund_cell_def Let_def]
proof (cases rule: chain_cases)
  case escapes
  then show ?thesis using opened_punctual assms(2) by blast
next
  case (goes_on i w1)
  have w1: "untouched i w1" using opened_untouched [OF goes_on(1) assms(2)] .
  obtain found w2 where m: "measure_ticket (cs_unicode s) (cs_digest s) GATED c i w1 = (found, w2)" by force
  then have rest: "(case found of None \<Rightarrow> give (failed_fact c GATED n (cs_uid s (rk_id c, n)) (cs_elapsed s (rk_id c, n)) i)
      | Some ev \<Rightarrow> or_raise (judged_fact c GATED n (cs_uid s (rk_id c, n)) (cs_elapsed s (rk_id c, n)) i ev)) w2 = (x, w')"
    using goes_on(2) by (simp add: chain_def attempt_def)
  note kept = gated_measure [OF m w1 assms(3)]
  show ?thesis
  proof (cases found)
    case None
    then show ?thesis using rest kept by (auto simp: failed_fact_def lossless_def)
  next
    case (Some ev)
    then have judged: "x = judged_fact c GATED n (cs_uid s (rk_id c, n)) (cs_elapsed s (rk_id c, n)) i ev" "w' = w2" using rest by simp_all
    have "lossless_snapshot (cs_digest s) (ev_after ev)" using kept Some by simp
    then show ?thesis using judged kept judged_no_loss [of "cs_digest s" ev c GATED n] by (auto simp: lossless_def)
  qed
qed

lemma gated_cells:
  "\<lbrakk>refund_cells s GATED xs w = (x, w'); punctual w; \<forall>y \<in> set xs. \<not> background_refunds (fst y)\<rbrakk>
    \<Longrightarrow> punctual w' \<and> (\<forall>rs. x = Some rs \<longrightarrow> (\<forall>r \<in> set rs. rx_loss_orders r = [] \<and> rx_loss r = 0))"
proof (induction xs arbitrary: w x w')
  case (Cons y ys)
  obtain c n where y: "y = (c, n)" by force
  have c: "\<not> background_refunds c" using Cons.prems(3) y by simp
  from Cons.prems(1) [unfolded y refund_cells.simps] show ?case
  proof (cases rule: chain_cases)
    case escapes
    then show ?thesis using gated_cell [OF escapes(1) Cons.prems(2) c] by simp
  next
    case (goes_on r w1)
    have w1: "punctual w1" "rx_loss_orders r = [] \<and> rx_loss r = 0" using gated_cell [OF goes_on(1) Cons.prems(2) c] by simp_all
    from goes_on(2) show ?thesis
    proof (cases rule: chain_cases)
      case escapes
      then show ?thesis using Cons.IH [OF escapes(1) w1(1)] Cons.prems(3) by simp
    next
      case (goes_on rs w2)
      then show ?thesis using Cons.IH [OF goes_on(1) w1(1)] w1(2) Cons.prems(3) by auto
    qed
  qed
qed simp

end
