(* ===== verification/Eval_Runs.thy ===== *)
theory Eval_Runs
  imports Eval_Runner
begin

text \<open>
  What a run of a suite leaves behind: the facts of its cells in the order of the suite, whatever order
  they finished in and however often the process was killed.
\<close>

section \<open>The store\<close>

lemma bench_get_id: "bench_get st i = Some run \<Longrightarrow> br_id run = i"
  by (auto simp: bench_get_def find_Some_iff)

lemma bench_put_new:
  assumes "bench_get st (br_id run) = None"
  shows "bench_put st run = st"
  using assms unfolding bench_get_def bench_put_def by (induction st) (auto split: if_splits)

lemma bench_put_last:
  assumes "bench_get st i = None" "br_id run = i" "br_id run' = i"
  shows "bench_put (st @ [run]) run' = st @ [run']"
  using bench_put_new [of st run'] assms by (simp add: bench_put_def)

lemma bench_get_last:
  assumes "bench_get st i = None" "br_id run = i"
  shows "bench_get (st @ [run]) i = Some run"
  using assms unfolding bench_get_def by (induction st) (auto split: if_splits)

lemma newest_mem: "newest rs = Some r \<Longrightarrow> r \<in> set rs"
  by (induction rs arbitrary: r) (auto split: option.splits if_splits)

lemma newest_last:
  assumes "\<And>r. r \<in> set rs \<Longrightarrow> br_started r < br_started run"
  shows "newest (rs @ [run]) = Some run"
  using assms by (induction rs) auto

lemma bench_running_last:
  assumes "br_versions run = v" "br_baseline run = b" "br_suite run = suite" "br_status run = BENCH_RUNNING"
    and "\<And>r. r \<in> set (matching st v b suite BENCH_RUNNING) \<Longrightarrow> br_started r < br_started run"
  shows "bench_running (st @ [run]) v b suite = Some run"
proof -
  have "matching (st @ [run]) v b suite BENCH_RUNNING = matching st v b suite BENCH_RUNNING @ [run]"
    using assms(1-4) by (simp add: matching_def)
  with newest_last [of "matching st v b suite BENCH_RUNNING" run] assms(5) show ?thesis by (simp add: bench_running_def)
qed

section \<open>Cells\<close>

lemma by_cell_append: "by_cell (fs @ [f]) = (by_cell fs)(cell_of f \<mapsto> f)"
  by (simp add: by_cell_def)

lemma dom_by_cell: "dom (by_cell fs) = cell_of ` set fs"
  by (simp add: by_cell_def dom_map_of_conv_image_fst image_image)

lemma by_cell_empty [simp]: "by_cell [] = Map.empty"
  by (simp add: by_cell_def)

lemma executed_cell: "execute_cell j x = Some f \<Longrightarrow> cell_of f = cell_key x"
  by (simp add: execute_cell_def Let_def split: prod.splits if_splits)

lemma job_cell:
  assumes "x \<in> set (job_cells j)"
  shows "fst x \<in> set (bj_cases j)" "1 \<le> snd x" "snd x \<le> bj_repetitions j"
  using assms by (auto simp: job_cells_def)

lemma cell_key_inj:
  assumes "distinct (map bc_id (bj_cases j))"
  shows "inj_on cell_key (set (job_cells j))"
proof (rule inj_onI)
  fix x y assume x: "x \<in> set (job_cells j)" and y: "y \<in> set (job_cells j)" and "cell_key x = cell_key y"
  then have "bc_id (fst x) = bc_id (fst y)" "snd x = snd y" by (simp_all add: cell_key_def)
  with assms job_cell(1) [OF x] job_cell(1) [OF y] show "x = y" by (simp add: distinct_map prod_eq_iff inj_on_def)
qed

text \<open>A cell that can be measured.\<close>

definition good_cell :: "'a bench_job \<Rightarrow> cell \<Rightarrow> bool" where
  "good_cell j x \<longleftrightarrow> (\<exists>f. execute_cell j x = Some f \<and> \<not> fact_leaks j f \<and> raw_valid f)"

lemma good_cell_Some: "good_cell j x \<Longrightarrow> execute_cell j x = Some (the (execute_cell j x))"
  by (auto simp: good_cell_def)

lemma append_last:
  assumes "bench_get st i = None" "br_id run = i" "cell_of f \<notin> cell_of ` set (br_raw run)"
  shows "append_case (st @ [run]) i f = Some (st @ [run\<lparr>br_raw := br_raw run @ [f]\<rparr>])"
  using assms bench_get_last [OF assms(1,2)] bench_put_last [OF assms(1,2)] by (simp add: append_case_def)

lemma persist_good:
  assumes "good_cell j x" "bench_get st i = None" "br_id run = i" "col = by_cell (br_raw run)" "col (cell_key x) = None"
  shows "persist_cell j i x (col, st @ [run]) =
    ((by_cell (br_raw run @ [the (execute_cell j x)]), st @ [run\<lparr>br_raw := br_raw run @ [the (execute_cell j x)]\<rparr>]), True)"
proof -
  obtain f where f: "execute_cell j x = Some f" "\<not> fact_leaks j f" using assms(1) by (auto simp: good_cell_def)
  have "cell_of f \<notin> dom col" using assms(5) executed_cell [OF f(1)] by auto
  then have "cell_of f \<notin> cell_of ` set (br_raw run)" by (simp add: assms(4) dom_by_cell)
  from append_last [OF assms(2,3) this] f show ?thesis by (simp add: persist_cell_def assms(4) by_cell_append)
qed

text \<open>Every cell of the order ends up with a fact; the facts there were stay.\<close>

lemma run_cells_good:
  assumes "\<forall>x \<in> set xs. good_cell j x" "bench_get st i = None" "br_id run = i" "col = by_cell (br_raw run)"
    and "inj_on cell_key S" "set xs \<subseteq> S"
  shows "\<exists>facts. run_cells j i xs (col, st @ [run]) = ((by_cell facts, st @ [run\<lparr>br_raw := facts\<rparr>]), True)
    \<and> (\<forall>x \<in> S. by_cell facts (cell_key x) = (case col (cell_key x) of Some f \<Rightarrow> Some f
         | None \<Rightarrow> if x \<in> set xs then execute_cell j x else None))"
  using assms
proof (induction xs arbitrary: col run)
  case Nil
  then show ?case by (auto intro!: exI [of _ "br_raw run"] split: option.splits)
next
  case (Cons x xs)
  show ?case
  proof (cases "col (cell_key x)")
    case None
    let ?f = "the (execute_cell j x)" and ?run = "run\<lparr>br_raw := br_raw run @ [the (execute_cell j x)]\<rparr>"
    have good: "good_cell j x" "\<forall>x \<in> set xs. good_cell j x" and x: "x \<in> S" "set xs \<subseteq> S" using Cons.prems(1,6) by simp_all
    have step: "run_cells j i (x # xs) (col, st @ [run]) = run_cells j i xs (by_cell (br_raw ?run), st @ [?run])"
      using persist_good [OF good(1) Cons.prems(2,3,4) None] None by simp
    obtain facts where facts: "run_cells j i xs (by_cell (br_raw ?run), st @ [?run]) = ((by_cell facts, st @ [?run\<lparr>br_raw := facts\<rparr>]), True)"
      "\<forall>y \<in> S. by_cell facts (cell_key y) = (case by_cell (br_raw ?run) (cell_key y) of Some f \<Rightarrow> Some f
         | None \<Rightarrow> if y \<in> set xs then execute_cell j y else None)"
      using Cons.IH [OF good(2) Cons.prems(2), of ?run "by_cell (br_raw ?run)"] Cons.prems(3,5) x(2) by auto
    have keyed: "cell_of ?f = cell_key x" using executed_cell [OF good_cell_Some [OF good(1)]] by simp
    have now: "by_cell (br_raw ?run) (cell_key y) = (if y = x then Some ?f else col (cell_key y))" if "y \<in> S" for y
      using that x(1) Cons.prems(4,5) by (auto simp: by_cell_append keyed dest: inj_onD)
    have "by_cell facts (cell_key y) = (case col (cell_key y) of Some f \<Rightarrow> Some f
        | None \<Rightarrow> if y \<in> set (x # xs) then execute_cell j y else None)" if "y \<in> S" for y
      using facts(2) that now [OF that] None good_cell_Some [OF good(1)] by (auto split: option.splits)
    with facts(1) show ?thesis unfolding step by (intro exI [of _ facts]) simp
  next
    case (Some f)
    have "\<exists>facts. run_cells j i xs (col, st @ [run]) = ((by_cell facts, st @ [run\<lparr>br_raw := facts\<rparr>]), True)
      \<and> (\<forall>y \<in> S. by_cell facts (cell_key y) = (case col (cell_key y) of Some f \<Rightarrow> Some f
         | None \<Rightarrow> if y \<in> set xs then execute_cell j y else None))"
      using Cons by simp
    then obtain facts where facts: "run_cells j i xs (col, st @ [run]) = ((by_cell facts, st @ [run\<lparr>br_raw := facts\<rparr>]), True)"
      "\<forall>y \<in> S. by_cell facts (cell_key y) = (case col (cell_key y) of Some f \<Rightarrow> Some f
         | None \<Rightarrow> if y \<in> set xs then execute_cell j y else None)"
      by blast
    have "\<forall>y \<in> S. by_cell facts (cell_key y) = (case col (cell_key y) of Some f \<Rightarrow> Some f
         | None \<Rightarrow> if y \<in> set (x # xs) then execute_cell j y else None)"
      using facts(2) Some by (auto split: option.splits)
    with facts(1) Some show ?thesis by (intro exI [of _ facts]) simp
  qed
qed

section \<open>Closing a run\<close>

lemma collected_all:
  assumes "\<And>x. x \<in> set (job_cells j) \<Longrightarrow> col (cell_key x) = Some (g x)"
  shows "collected_facts j col = map g (job_cells j)"
proof -
  have "map (\<lambda>x. case col (cell_key x) of None \<Rightarrow> [] | Some f \<Rightarrow> [f]) (job_cells j) = map (\<lambda>x. [g x]) (job_cells j)"
    using assms by (intro map_cong) simp_all
  moreover have "concat (map (\<lambda>x. [g x]) xs) = map g xs" for xs by (induction xs) simp_all
  ultimately show ?thesis unfolding collected_facts_def by (simp only:)
qed

lemma close_last:
  assumes "distinct (map bc_id (bj_cases j))" "1 \<le> bj_repetitions j" "bench_get st i = None" "br_id run = i" "br_status run = BENCH_RUNNING"
    and facts: "\<And>x. x \<in> set (job_cells j) \<Longrightarrow> col (cell_key x) = Some (g x) \<and> cell_of (g x) = cell_key x \<and> raw_valid (g x)"
  shows "\<exists>m. compute_metrics (bj_cases j) (map g (job_cells j)) (bj_repetitions j) 0 (bj_p0 j) = Some m
    \<and> close_run j i started t (col, st @ [run]) =
       (st @ [run\<lparr>br_status := BENCH_COMPLETED, br_raw := map g (job_cells j), br_metrics := metrics_dict (bj_repetitions j) m, br_finished := Some t\<rparr>],
        Some ((new_run j i started)\<lparr>br_status := BENCH_COMPLETED, br_raw := map g (job_cells j), br_metrics := metrics_dict (bj_repetitions j) m,
          br_finished := Some t\<rparr>))"
proof -
  have raw: "collected_facts j col = map g (job_cells j)" using facts by (intro collected_all) blast
  have "rc_case (g x) \<in> set (map bc_id (bj_cases j))" if "x \<in> set (job_cells j)" for x
    using facts [OF that] job_cell(1) [OF that] by (simp add: cell_of_def cell_key_def)
  moreover have "raw_valid (g x)" if "x \<in> set (job_cells j)" for x using facts [OF that] by blast
  ultimately have "\<forall>r \<in> set (map g (job_cells j)). rc_case r \<in> set (map bc_id (bj_cases j))" "list_all raw_valid (map g (job_cells j))"
    by (simp_all add: list_all_iff)
  moreover have "0 < bj_repetitions j" using assms(2) by simp
  ultimately obtain m where m: "compute_metrics (bj_cases j) (map g (job_cells j)) (bj_repetitions j) 0 (bj_p0 j) = Some m"
    using metrics_defined [OF assms(1)] by blast
  have "finalize_run (st @ [run]) i BENCH_COMPLETED raw d t = Some (st @ [run\<lparr>br_status := BENCH_COMPLETED, br_raw := raw, br_metrics := d, br_finished := Some t\<rparr>])"
    for raw d
    using bench_get_last [OF assms(3,4)] bench_put_last [OF assms(3,4)] assms(4,5) by (simp add: finalize_run_def)
  with m show ?thesis by (simp add: close_run_def raw Let_def)
qed


section \<open>A whole run\<close>

lemma good_facts:
  assumes "good_cell j x"
  shows "cell_of (the (execute_cell j x)) = cell_key x" "raw_valid (the (execute_cell j x))"
  using assms executed_cell [OF good_cell_Some [OF assms]] by (auto simp: good_cell_def)

lemma open_fresh:
  assumes "bench_get st i = None"
  shows "open_run j False i now st = Some (i, now, by_cell [], st @ [new_run j i now])"
  using assms by (simp add: open_run_def start_run_def new_run_def)

lemma new_run_fields [simp]:
  "br_id (new_run j i now) = i" "br_raw (new_run j i now) = []" "br_status (new_run j i now) = BENCH_RUNNING"
  "br_versions (new_run j i now) = bj_versions j" "br_baseline (new_run j i now) = bj_baseline j" "br_suite (new_run j i now) = bj_suite j"
  "br_started (new_run j i now) = now"
  by (simp_all add: new_run_def)

lemma fresh_cells:
  assumes "\<forall>x \<in> set xs. good_cell j x" "set xs \<subseteq> set (job_cells j)" "distinct (map bc_id (bj_cases j))" "bench_get st i = None"
  shows "\<exists>facts. run_cells j i xs (by_cell [], st @ [new_run j i now]) = ((by_cell facts, st @ [(new_run j i now)\<lparr>br_raw := facts\<rparr>]), True)
    \<and> (\<forall>x \<in> set (job_cells j). by_cell facts (cell_key x) = (if x \<in> set xs then execute_cell j x else None))"
  using run_cells_good [OF assms(1,4), of "new_run j i now" "by_cell []" "set (job_cells j)"] cell_key_inj [OF assms(3)] assms(2)
  by auto

text \<open>A run of a suite from the beginning.\<close>

lemma fresh_run:
  assumes "job_accepted j" "distinct (map bc_id (bj_cases j))" "\<forall>x \<in> set (job_cells j). good_cell j x" "set order = set (job_cells j)"
    and "bench_get st i = None"
  shows "\<exists>m run. compute_metrics (bj_cases j) (map (the \<circ> execute_cell j) (job_cells j)) (bj_repetitions j) 0 (bj_p0 j) = Some m
    \<and> run = (new_run j i now)\<lparr>br_status := BENCH_COMPLETED, br_raw := map (the \<circ> execute_cell j) (job_cells j),
        br_metrics := metrics_dict (bj_repetitions j) m, br_finished := Some t\<rparr>
    \<and> run_suite j False i now t order st = (st @ [run], Some run)"
proof -
  obtain facts where facts: "run_cells j i order (by_cell [], st @ [new_run j i now]) = ((by_cell facts, st @ [(new_run j i now)\<lparr>br_raw := facts\<rparr>]), True)"
    "\<forall>x \<in> set (job_cells j). by_cell facts (cell_key x) = (if x \<in> set order then execute_cell j x else None)"
    using fresh_cells [of order j st i now] assms(2-5) by auto
  have part: "by_cell facts (cell_key x) = Some ((the \<circ> execute_cell j) x) \<and> cell_of ((the \<circ> execute_cell j) x) = cell_key x
      \<and> raw_valid ((the \<circ> execute_cell j) x)" if "x \<in> set (job_cells j)" for x
  proof -
    have good: "good_cell j x" and x: "x \<in> set order" using that assms(3,4) by blast+
    have "by_cell facts (cell_key x) = execute_cell j x" using facts(2) that x by simp
    with good_cell_Some [OF good] good_facts [OF good] show ?thesis by simp
  qed
  let ?run = "(new_run j i now)\<lparr>br_raw := facts\<rparr>"
  have reps: "1 \<le> bj_repetitions j" using assms(1) by (simp add: job_accepted_def)
  have run: "br_id ?run = i" "br_status ?run = BENCH_RUNNING" by simp_all
  from close_last [OF assms(2) reps assms(5) run part, of now t] obtain m where
    m: "compute_metrics (bj_cases j) (map (the \<circ> execute_cell j) (job_cells j)) (bj_repetitions j) 0 (bj_p0 j) = Some m"
    and closed_run: "close_run j i now t (by_cell facts, st @ [?run]) =
       (st @ [?run\<lparr>br_status := BENCH_COMPLETED, br_raw := map (the \<circ> execute_cell j) (job_cells j),
          br_metrics := metrics_dict (bj_repetitions j) m, br_finished := Some t\<rparr>],
        Some ((new_run j i now)\<lparr>br_status := BENCH_COMPLETED, br_raw := map (the \<circ> execute_cell j) (job_cells j),
          br_metrics := metrics_dict (bj_repetitions j) m, br_finished := Some t\<rparr>))"
    by blast
  have "run_suite j False i now t order st = close_run j i now t (by_cell facts, st @ [(new_run j i now)\<lparr>br_raw := facts\<rparr>])"
    using assms(1) open_fresh [OF assms(5), of j now] facts(1) by (simp add: run_suite_def)
  also note closed_run
  finally show ?thesis using m by (intro exI conjI) (rule refl | simp)+
qed


section \<open>A run that was killed\<close>

text \<open>The store when the process dies after some cells have been made durable.\<close>

definition killed_store :: "'a bench_job \<Rightarrow> string \<Rightarrow> int \<Rightarrow> cell list \<Rightarrow> bench_store \<Rightarrow> bench_store" where
  "killed_store j i now finished st = (case open_run j False i now st of
       None \<Rightarrow> st
     | Some (i', _, col, st') \<Rightarrow> snd (fst (run_cells j i' finished (col, st'))))"

lemma resumed_job:
  assumes "j' = j\<lparr>bj_seed := seed, bj_execute := ex\<rparr>"
  shows "job_cells j' = job_cells j" "bj_cases j' = bj_cases j" "bj_repetitions j' = bj_repetitions j" "bj_suite j' = bj_suite j"
    "job_accepted j' = job_accepted j" "bj_versions j' = bj_versions j" "bj_baseline j' = bj_baseline j"
    "(new_run j' i now)\<lparr>br_seed := bj_seed j\<rparr> = new_run j i now" "br_seed (new_run j' i now) = seed" "bj_p0 j' = bj_p0 j"
  by (simp_all add: assms job_cells_def bj_suite_def job_accepted_def new_run_def)

lemma killed_then_resumed:
  assumes "job_accepted j" "distinct (map bc_id (bj_cases j))"
    and finished: "\<forall>x \<in> set finished. good_cell j x"
    and j': "j' = j\<lparr>bj_seed := seed, bj_execute := ex\<rparr>" and order: "\<forall>x \<in> set order. good_cell j' x"
    and whole: "set finished \<union> set order = set (job_cells j)"
    and st: "bench_get st i = None" "\<forall>r \<in> set (matching st (bj_versions j) (bj_baseline j) (bj_suite j) BENCH_RUNNING). br_started r < now"
  defines "g \<equiv> \<lambda>x. the (execute_cell (if x \<in> set finished then j else j') x)"
  shows "\<exists>m run. compute_metrics (bj_cases j) (map g (job_cells j)) (bj_repetitions j) 0 (bj_p0 j) = Some m
    \<and> run = (new_run j' i now)\<lparr>br_status := BENCH_COMPLETED, br_raw := map g (job_cells j), br_metrics := metrics_dict (bj_repetitions j) m,
        br_finished := Some t\<rparr>
    \<and> run_suite j' True i' now' t order (killed_store j i now finished st) = (st @ [run\<lparr>br_seed := bj_seed j\<rparr>], Some run)"
proof -
  note same = resumed_job [OF j']
  have sub: "set finished \<subseteq> set (job_cells j)" "set order \<subseteq> set (job_cells j)" using whole by blast+
  from fresh_cells [OF finished sub(1) assms(2) st(1), of now] obtain facts where
    first: "run_cells j i finished (by_cell [], st @ [new_run j i now]) = ((by_cell facts, st @ [(new_run j i now)\<lparr>br_raw := facts\<rparr>]), True)"
    and had: "\<forall>x \<in> set (job_cells j). by_cell facts (cell_key x) = (if x \<in> set finished then execute_cell j x else None)"
    by blast
  let ?run = "(new_run j i now)\<lparr>br_raw := facts\<rparr>"
  have kept: "killed_store j i now finished st = st @ [?run]"
    using open_fresh [OF st(1), of j now] first by (simp add: killed_store_def)
  have "bench_running (st @ [?run]) (bj_versions j) (bj_baseline j) (bj_suite j) = Some ?run"
    using st(2) by (intro bench_running_last) simp_all
  then have opened: "open_run j' True i' now' (st @ [?run]) = Some (i, now, by_cell facts, st @ [?run])"
    by (simp add: open_run_def same)
  have run: "br_id ?run = i" "br_status ?run = BENCH_RUNNING" "by_cell facts = by_cell (br_raw ?run)" by simp_all
  from run_cells_good [OF order st(1) run(1,3) cell_key_inj [OF assms(2)] sub(2)] obtain facts' where
    second: "run_cells j' i order (by_cell facts, st @ [?run]) = ((by_cell facts', st @ [?run\<lparr>br_raw := facts'\<rparr>]), True)"
    and has: "\<forall>x \<in> set (job_cells j). by_cell facts' (cell_key x) = (case by_cell facts (cell_key x) of Some f \<Rightarrow> Some f
       | None \<Rightarrow> if x \<in> set order then execute_cell j' x else None)"
    by blast
  have part: "by_cell facts' (cell_key x) = Some (g x) \<and> cell_of (g x) = cell_key x \<and> raw_valid (g x)" if x: "x \<in> set (job_cells j')" for x
  proof (cases "x \<in> set finished")
    case True
    then have good: "good_cell j x" using finished by blast
    have "by_cell facts' (cell_key x) = (case execute_cell j x of Some f \<Rightarrow> Some f | None \<Rightarrow> if x \<in> set order then execute_cell j' x else None)"
      using bspec [OF has x [unfolded same]] bspec [OF had x [unfolded same]] True by simp
    also have "\<dots> = Some (the (execute_cell j x))" by (subst good_cell_Some [OF good]) simp
    finally show ?thesis using good_facts [OF good] True by (simp add: g_def)
  next
    case False
    then have here: "x \<in> set order" using whole x by (auto simp: same)
    then have good: "good_cell j' x" using order by blast
    have "by_cell facts' (cell_key x) = execute_cell j' x"
      using bspec [OF has x [unfolded same]] bspec [OF had x [unfolded same]] False here by simp
    with good_cell_Some [OF good] good_facts [OF good] False show ?thesis by (simp add: g_def)
  qed
  let ?stored = "?run\<lparr>br_raw := facts'\<rparr>"
  have d: "distinct (map bc_id (bj_cases j'))" and reps: "1 \<le> bj_repetitions j'" using assms(1,2) by (simp_all add: same job_accepted_def)
  have run': "br_id ?stored = i" "br_status ?stored = BENCH_RUNNING" by simp_all
  from close_last [OF d reps st(1) run' part, of now t] obtain m where
    m: "compute_metrics (bj_cases j) (map g (job_cells j)) (bj_repetitions j) 0 (bj_p0 j) = Some m"
    and closed_run: "close_run j' i now t (by_cell facts', st @ [?stored]) =
       (st @ [?stored\<lparr>br_status := BENCH_COMPLETED, br_raw := map g (job_cells j), br_metrics := metrics_dict (bj_repetitions j) m, br_finished := Some t\<rparr>],
        Some ((new_run j' i now)\<lparr>br_status := BENCH_COMPLETED, br_raw := map g (job_cells j), br_metrics := metrics_dict (bj_repetitions j) m,
          br_finished := Some t\<rparr>))"
    unfolding same by blast
  have "run_suite j' True i' now' t order (st @ [?run]) = close_run j' i now t (by_cell facts', st @ [?stored])"
    using assms(1) opened second by (simp add: run_suite_def same)
  also note closed_run
  also have "?stored\<lparr>br_status := BENCH_COMPLETED, br_raw := map g (job_cells j), br_metrics := metrics_dict (bj_repetitions j) m, br_finished := Some t\<rparr>
    = (new_run j' i now)\<lparr>br_status := BENCH_COMPLETED, br_raw := map g (job_cells j), br_metrics := metrics_dict (bj_repetitions j) m,
        br_finished := Some t, br_seed := bj_seed j\<rparr>"
    unfolding same(8) [symmetric] by simp
  finally show ?thesis unfolding kept using m by (intro exI conjI) (rule refl | simp)+
qed

end
