(* ===== verification/Eval_Properties.thy ===== *)
theory Eval_Properties
  imports Eval_Runs
begin

text \<open>
  What the evaluation promises: an interval contains the rate it goes with, the gate passes exactly when the
  runs say so, the cells that failed do not count, for or against, and a run does not depend on the order its
  cells finish in, nor on having been killed on the way.
\<close>

section \<open>Intervals\<close>







section \<open>The release gate\<close>

lemma quarter: "0 < n \<Longrightarrow> (3 \<le> real d * 4 / real n) = (3 * n \<le> 4 * d)"
  by (simp add: field_simps) linarith

lemma stable_total:
  assumes "0 < n"
  shows "(real s / real n = 1) = (s = n)"
  using assms by (auto simp: field_simps)

text \<open>The verdict in terms of the facts.\<close>

definition suite_passes :: "benchmark_case list \<Rightarrow> raw_case_run list \<Rightarrow> nat \<Rightarrow> real option \<Rightarrow> bool" where
  "suite_passes cases raw leaks p0 \<longleftrightarrow>
     evaluable cases raw EXPECT_NORMAL \<noteq> [] \<and> false_positives cases raw = []
     \<and> evaluable cases raw EXPECT_VULNERABLE \<noteq> []
     \<and> 3 * length (evaluable cases raw EXPECT_VULNERABLE) \<le> 4 * length (discovered cases raw)
     \<and> 3 \<le> total_of rc_attempts raw \<and> total_of rc_successes raw = total_of rc_attempts raw
     \<and> leaks = 0 \<and> p0 = Some 1"

lemma gate_reads:
  assumes "compute_metrics cases raw k leaks p0 = Some m" "br_metrics run = metrics_dict k m"
  shows "gate_metric run ''normal_confirmed_false_positive_rate''
      = (if evaluable cases raw EXPECT_NORMAL = [] then None
         else Some (real (length (false_positives cases raw)) / real (length (evaluable cases raw EXPECT_NORMAL))), length (evaluable cases raw EXPECT_NORMAL))"
    "gate_metric run ''vulnerability_discovery_rate''
      = (if evaluable cases raw EXPECT_VULNERABLE = [] then None
         else Some (real (length (discovered cases raw)) / real (length (evaluable cases raw EXPECT_VULNERABLE))), length (evaluable cases raw EXPECT_VULNERABLE))"
    "gate_metric run ''replay_stability_rate''
      = (if total_of rc_attempts raw = 0 then None else Some (real (total_of rc_successes raw) / real (total_of rc_attempts raw)), total_of rc_attempts raw)"
    "figure_is run ''historical_p0_pass_rate'' x = (p0 = Some x)"
    "figure_is run ''ground_truth_leakage_count'' 0 = (leaks = 0)"
  using ratio_Some [OF compute_metrics_read(1) [OF assms(1)]] ratio_Some [OF compute_metrics_read(2) [OF assms(1)]]
    ratio_Some [OF compute_metrics_read(3) [OF assms(1)]] compute_metrics_read(4,5) [OF assms(1)]
  by (simp_all add: gate_metric_def figure_is_def assms(2) metrics_dict_read split: option.splits)

lemma passes_iff:
  assumes "compute_metrics cases (br_raw run) k leaks p0 = Some m" "br_metrics run = metrics_dict k m"
  shows "gt_passed (release_gate (Some run) versions b seed) \<longleftrightarrow>
    br_versions run = versions \<and> br_budget run = b \<and> br_seed run = seed
    \<and> br_status run = BENCH_COMPLETED \<and> br_suite run = HIDDEN \<and> br_baseline run = MULTI_STRATEGY
    \<and> suite_passes cases (br_raw run) leaks p0"
proof -
  have "gt_passed (release_gate (Some run) versions b seed) \<longleftrightarrow> list_all snd (gate_checks run versions b seed)"
    by (simp add: release_gate_def gate_verdict_def Let_def filter_empty_conv list_all_iff)
  also have "\<dots> \<longleftrightarrow> br_versions run = versions \<and> br_budget run = b \<and> br_seed run = seed
    \<and> br_status run = BENCH_COMPLETED \<and> br_suite run = HIDDEN \<and> br_baseline run = MULTI_STRATEGY
    \<and> suite_passes cases (br_raw run) leaks p0"
    by (auto simp: gate_checks_def gate_reads [OF assms] suite_passes_def quarter stable_total)
  finally show ?thesis .
qed

lemma no_false_positive_iff:
  "false_positives cases raw = [] \<longleftrightarrow> (\<forall>c \<in> set cases. \<forall>r \<in> set raw.
     bc_expected c = EXPECT_NORMAL \<and> rc_case r = bc_id c \<and> rc_failure r = NO_FAILURE \<longrightarrow> rc_confirmed r = {})"
  (is "_ \<longleftrightarrow> ?none")
proof
  assume none: "false_positives cases raw = []"
  show ?none
  proof (intro ballI impI)
    fix c r assume c: "c \<in> set cases" and r: "r \<in> set raw"
      and i: "bc_expected c = EXPECT_NORMAL \<and> rc_case r = bc_id c \<and> rc_failure r = NO_FAILURE"
    then have mem: "r \<in> set (runs_of raw c)" by (simp add: set_runs_of)
    then have "runs_of raw c \<noteq> []" by auto
    with c i have "c \<in> set (evaluable cases raw EXPECT_NORMAL)" by (simp add: evaluable_def)
    with none have "\<not> list_ex (\<lambda>r. rc_confirmed r \<noteq> {}) (runs_of raw c)" by (simp add: false_positives_def filter_empty_conv)
    with mem show "rc_confirmed r = {}" by (auto simp: list_ex_iff)
  qed
next
  assume none: ?none
  show "false_positives cases raw = []"
    unfolding false_positives_def filter_empty_conv
  proof
    fix c assume "c \<in> set (evaluable cases raw EXPECT_NORMAL)"
    then have c: "c \<in> set cases" "bc_expected c = EXPECT_NORMAL" by (simp_all add: evaluable_def)
    show "\<not> list_ex (\<lambda>r. rc_confirmed r \<noteq> {}) (runs_of raw c)"
    proof
      assume "list_ex (\<lambda>r. rc_confirmed r \<noteq> {}) (runs_of raw c)"
      then obtain r where "r \<in> set (runs_of raw c)" "rc_confirmed r \<noteq> {}" by (auto simp: list_ex_iff)
      then show False using none c by (simp add: set_runs_of)
    qed
  qed
qed

text \<open>C32: the release gate passes exactly when the runs say so: a completed multi-strategy run of the hidden
  suite of the expected versions, budget and seed, in which some normal case could be evaluated and none
  was confirmed, some vulnerable case could and three in four were discovered, at least three replays were
  made and all succeeded, nothing leaked and the historical findings all reproduce.\<close>

theorem release_gate_decides:
  assumes "compute_metrics cases (br_raw run) k leaks p0 = Some m" "br_metrics run = metrics_dict k m"
  shows "gt_passed (release_gate (Some run) versions b seed) \<longleftrightarrow>
    br_versions run = versions \<and> br_budget run = b \<and> br_seed run = seed
    \<and> br_status run = BENCH_COMPLETED \<and> br_suite run = HIDDEN \<and> br_baseline run = MULTI_STRATEGY
    \<and> evaluable cases (br_raw run) EXPECT_NORMAL \<noteq> []
    \<and> (\<forall>c \<in> set cases. \<forall>r \<in> set (br_raw run). bc_expected c = EXPECT_NORMAL \<and> rc_case r = bc_id c \<and> rc_failure r = NO_FAILURE
         \<longrightarrow> rc_confirmed r = {})
    \<and> evaluable cases (br_raw run) EXPECT_VULNERABLE \<noteq> []
    \<and> 3 * length (evaluable cases (br_raw run) EXPECT_VULNERABLE) \<le> 4 * length (discovered cases (br_raw run))
    \<and> 3 \<le> total_of rc_attempts (br_raw run) \<and> total_of rc_successes (br_raw run) = total_of rc_attempts (br_raw run)
    \<and> leaks = 0 \<and> p0 = Some 1"
  unfolding passes_iff [OF assms] suite_passes_def no_false_positive_iff by (rule refl)

definition suite_case :: "string \<Rightarrow> expected_outcome \<Rightarrow> benchmark_case" where
  "suite_case i out = \<lparr>bc_id = i, bc_benchmark = ''b'', bc_visibility = HIDDEN, bc_scenario = PROMOTION, bc_tags = [],
     bc_budget = \<lparr>bg_steps = 12, bg_tokens = 1000, bg_cost = 1, bg_time = 60\<rparr>, bc_rule_version = ''r'', bc_scenario_version = ''s'',
     bc_sandbox = ''fixed'', bc_axes = (if out = EXPECT_NORMAL then {} else {REFUND_AGAINST_ORIGINAL}), bc_oracle = ''1.0'',
     bc_spec = \<lparr>spec_scenario = PROMOTION, participants = [], assets = [], rules = [], spec_invariant_ids = [], ambiguities = []\<rparr>,
     bc_expected = out, bc_invariants = (if out = EXPECT_NORMAL then {} else {NET_PAID_NON_NEGATIVE}), bc_reason = ''demo'', bc_replays = [True, True, True],
     bc_actions = []\<rparr>"

definition fact_of :: "string \<Rightarrow> invariant_id set \<Rightarrow> failure_kind \<Rightarrow> raw_case_run" where
  "fact_of i found failure = (raw_fact (suite_case i EXPECT_NORMAL) MULTI_STRATEGY 1 i
     (if failure = NO_FAILURE then No_violation_within_budget else Infra_failed) failure no_usage)
     \<lparr>rc_confirmed := found, rc_replayed := 8 * card found, rc_confirmations := card found, rc_attempts := 3 * card found, rc_successes := 3 * card found\<rparr>"

text \<open>One case of each kind was evaluated; two more vulnerable cases failed.\<close>

definition demo_cases :: "benchmark_case list" where
  "demo_cases = [suite_case ''n'' EXPECT_NORMAL, suite_case ''a'' EXPECT_VULNERABLE, suite_case ''b'' EXPECT_VULNERABLE, suite_case ''c'' EXPECT_VULNERABLE]"

definition good_runs :: "raw_case_run list" where
  "good_runs = [fact_of ''n'' {} NO_FAILURE, fact_of ''a'' {NET_PAID_NON_NEGATIVE} NO_FAILURE]"

definition bad_runs :: "raw_case_run list" where
  "bad_runs = [fact_of ''b'' {} INFRA_FAILURE, fact_of ''c'' {} INFRA_FAILURE]"

definition demo_versions :: version_tuple where
  "demo_versions = \<lparr>vt_benchmark = ''b'', vt_runtime = ''1'', vt_rules = ''1'', vt_scenarios = ''1'', vt_sandbox = ''1'', vt_oracle = ''1.0'',
     vt_model = ''m'', vt_prompt = ''p''\<rparr>"

definition demo_run :: "raw_case_run list \<Rightarrow> suite_metrics \<Rightarrow> benchmark_run" where
  "demo_run raw m = \<lparr>br_id = ''run'', br_versions = demo_versions, br_baseline = MULTI_STRATEGY, br_seed = 7,
     br_budget = bc_budget (suite_case ''n'' EXPECT_NORMAL), br_repetitions = 1, br_suite = HIDDEN, br_status = BENCH_COMPLETED,
     br_raw = raw, br_metrics = metrics_dict 1 m, br_started = 0, br_finished = Some 1\<rparr>"

lemma demo_metrics: "\<exists>m. compute_metrics demo_cases (good_runs @ bad_runs) 1 0 (Some 1) = Some m"
  "\<exists>m. compute_metrics demo_cases good_runs 1 0 (Some 1) = Some m"
  by (rule metrics_defined; simp add: demo_cases_def good_runs_def bad_runs_def suite_case_def fact_of_def raw_fact_def raw_valid_def)+

lemma demo_suite: "suite_passes demo_cases good_runs 0 (Some 1)"
  by (simp add: suite_passes_def evaluable_def false_positives_def discovered_def successes_of_def runs_of_def eligible_runs_def total_of_def
    demo_cases_def good_runs_def suite_case_def fact_of_def raw_fact_def)

theorem release_gate_decides_witness:
  "\<exists>m. gt_passed (release_gate (Some (demo_run good_runs m)) demo_versions (bc_budget (suite_case ''n'' EXPECT_NORMAL)) 7)
    \<and> evaluable demo_cases (br_raw (demo_run good_runs m)) EXPECT_NORMAL \<noteq> []"
proof -
  obtain m where m: "compute_metrics demo_cases (br_raw (demo_run good_runs m)) 1 0 (Some 1) = Some m"
    using demo_metrics(2) by (auto simp: demo_run_def)
  have "br_metrics (demo_run good_runs m) = metrics_dict 1 m" by (simp add: demo_run_def)
  from release_gate_decides [OF m this, of demo_versions "bc_budget (suite_case ''n'' EXPECT_NORMAL)" 7]
    passes_iff [OF m this, of demo_versions "bc_budget (suite_case ''n'' EXPECT_NORMAL)" 7] demo_suite
  show ?thesis by (auto simp: demo_run_def suite_passes_def)
qed

text \<open>C33: failed cells never count: adding any number of failed runs to a benchmark run leaves the verdict of
  the release gate as it was, whatever share of the suite they are; no check of the gate looks at them.\<close>

theorem failed_cells_never_count:
  assumes "compute_metrics cases raw k leaks p0 = Some m" "compute_metrics cases (raw @ failed) k leaks p0 = Some m'"
    and "\<forall>r \<in> set failed. rc_failure r \<noteq> NO_FAILURE"
  shows "gt_passed (release_gate (Some (run\<lparr>br_raw := raw @ failed, br_metrics := metrics_dict k m'\<rparr>)) versions b seed)
    = gt_passed (release_gate (Some (run\<lparr>br_raw := raw, br_metrics := metrics_dict k m\<rparr>)) versions b seed)"
proof -
  have same: "eligible_runs (raw @ failed) = eligible_runs raw" using assms(3) by (simp add: eligible_runs_def)
  have "suite_passes cases (raw @ failed) leaks p0 = suite_passes cases (eligible_runs (raw @ failed)) leaks p0"
    by (simp only: suite_passes_def read_eligible evaluable_eligible)
  also have "\<dots> = suite_passes cases raw leaks p0"
    by (simp only: same suite_passes_def read_eligible evaluable_eligible)
  finally have suite: "suite_passes cases (raw @ failed) leaks p0 = suite_passes cases raw leaks p0" .
  let ?r = "run\<lparr>br_raw := raw, br_metrics := metrics_dict k m\<rparr>" and ?r' = "run\<lparr>br_raw := raw @ failed, br_metrics := metrics_dict k m'\<rparr>"
  have "compute_metrics cases (br_raw ?r) k leaks p0 = Some m" "compute_metrics cases (br_raw ?r') k leaks p0 = Some m'"
    using assms(1,2) by simp_all
  from passes_iff [OF this(1), of versions b seed] passes_iff [OF this(2), of versions b seed] suite show ?thesis by simp
qed

theorem failed_cells_never_count_witness:
  "\<exists>m. gt_passed (release_gate (Some (demo_run (good_runs @ bad_runs) m)) demo_versions (bc_budget (suite_case ''n'' EXPECT_NORMAL)) 7)"
proof -
  obtain m m' where m: "compute_metrics demo_cases good_runs 1 0 (Some 1) = Some m"
    and m': "compute_metrics demo_cases (good_runs @ bad_runs) 1 0 (Some 1) = Some m'"
    using demo_metrics by blast
  have failed: "\<forall>r \<in> set bad_runs. rc_failure r \<noteq> NO_FAILURE" by (simp add: bad_runs_def fact_of_def raw_fact_def)
  have "compute_metrics demo_cases (br_raw (demo_run good_runs m)) 1 0 (Some 1) = Some m" using m by (simp add: demo_run_def)
  from passes_iff [OF this, of demo_versions "bc_budget (suite_case ''n'' EXPECT_NORMAL)" 7]
  have "gt_passed (release_gate (Some (demo_run good_runs m)) demo_versions (bc_budget (suite_case ''n'' EXPECT_NORMAL)) 7)"
    using demo_suite by (simp add: demo_run_def)
  with failed_cells_never_count [OF m m' failed, of "demo_run good_runs m" demo_versions "bc_budget (suite_case ''n'' EXPECT_NORMAL)" 7]
  show ?thesis by (auto simp: demo_run_def)
qed


section \<open>Runs\<close>

text \<open>C34: the order in which the cells of a suite finish cannot be observed: a run whose cells finish in any
  order, with any concurrency, completes, returns and stores the same facts as one that goes through the
  suite cell by cell.\<close>

theorem schedule_unobservable:
  assumes "job_accepted j" "distinct (map bc_id (bj_cases j))" "\<forall>x \<in> set (job_cells j). good_cell j x" "set order = set (job_cells j)"
    and "bench_get st i = None"
  shows "\<exists>run. run_suite j False i now t order st = (st @ [run], Some run)
    \<and> run_suite j False i now t (job_cells j) st = (st @ [run], Some run)
    \<and> br_status run = BENCH_COMPLETED \<and> br_raw run = map (\<lambda>x. the (execute_cell j x)) (job_cells j)"
proof -
  let ?g = "map (the \<circ> execute_cell j) (job_cells j)"
  let ?run = "\<lambda>m. (new_run j i now)\<lparr>br_status := BENCH_COMPLETED, br_raw := ?g, br_metrics := metrics_dict (bj_repetitions j) m, br_finished := Some t\<rparr>"
  have ran_as: "\<exists>m. compute_metrics (bj_cases j) ?g (bj_repetitions j) 0 (bj_p0 j) = Some m
      \<and> run_suite j False i now t xs st = (st @ [?run m], Some (?run m))" if "set xs = set (job_cells j)" for xs
    using fresh_run [OF assms(1-3) that assms(5), where now = now and t = t] by (elim exE conjE) (rule exI, rule conjI, assumption, simp only:)
  from ran_as [OF assms(4)] obtain m where m: "compute_metrics (bj_cases j) ?g (bj_repetitions j) 0 (bj_p0 j) = Some m"
    and ran: "run_suite j False i now t order st = (st @ [?run m], Some (?run m))" by (elim exE conjE)
  from ran_as [OF refl] obtain m' where m': "compute_metrics (bj_cases j) ?g (bj_repetitions j) 0 (bj_p0 j) = Some m'"
    and ran': "run_suite j False i now t (job_cells j) st = (st @ [?run m'], Some (?run m'))" by (elim exE conjE)
  have "m' = m" using m m' by simp
  moreover have "br_status (?run m) = BENCH_COMPLETED" "br_raw (?run m) = map (\<lambda>x. the (execute_cell j x)) (job_cells j)" by (simp_all add: comp_def)
  ultimately show ?thesis using ran ran' by (intro exI [of _ "?run m"]) (simp only: simp_thms)
qed

definition demo_answer :: "benchmark_case \<Rightarrow> baseline_type \<Rightarrow> nat \<Rightarrow> int \<Rightarrow> raw_case_run option" where
  "demo_answer c b n seed = Some (raw_fact c b n (bc_id c) No_violation_within_budget NO_FAILURE (no_usage\<lparr>ug_steps := seed\<rparr>))"

definition demo_job :: "bool bench_job" where
  "demo_job = \<lparr>bj_cases = demo_cases, bj_versions = demo_versions, bj_baseline = RANDOM_SEARCH, bj_repetitions = 2, bj_seed = 7, bj_p0 = None,
     bj_concurrency = 3, bj_execute = demo_answer, bj_uid = (\<lambda>_. ''u''),
     bj_scanner = \<lparr>sc_wide = (\<lambda>c. [c]), sc_digest = (\<lambda>s. s = ''null''), sc_dump = (\<lambda>_. JNull)\<rparr>\<rparr>"

lemma demo_job_accepted: "job_accepted demo_job" "distinct (map bc_id (bj_cases demo_job))"
  by (simp_all add: job_accepted_def demo_job_def bj_suite_def one_version_each_def demo_cases_def suite_case_def demo_versions_def)

lemma object_not_null: "canonical_json (JObj m) \<noteq> ''null''" "canonical_json (JList vs) \<noteq> ''null''"
  by (simp_all add: canonical_json_def)

lemma null_text: "canonical_json JNull = ''null''"
  by (simp add: canonical_json_def)

lemma null_clean: "\<not> contains_text (codes m) (casefold (\<lambda>c. [c]) (codes (canonical_json JNull)))" if "m \<in> set leak_markers"
  using that by (auto simp: leak_markers_def canonical_json_def codes_def casefold_def ascii_lower_def)

lemma demo_no_leak: "bj_scanner j = bj_scanner demo_job \<Longrightarrow> \<not> fact_leaks j f"
  using null_clean by (auto simp: fact_leaks_def scan_leakage_def demo_job_def hidden_fingerprints_def hidden_answers_def object_not_null
    null_text filter_empty_conv)

lemma demo_good_cell:
  assumes "x \<in> set (job_cells demo_job)" "j = demo_job \<or> j = demo_job\<lparr>bj_seed := 9, bj_execute := demo_answer\<rparr>"
  shows "good_cell j x"
proof -
  have vis: "bc_visibility (fst x) = HIDDEN" using job_cell(1) [OF assms(1)] by (auto simp: demo_job_def demo_cases_def suite_case_def)
  have j: "bj_execute j = demo_answer" "bj_scanner j = bj_scanner demo_job" "bj_suite j = HIDDEN"
    using assms(2) by (auto simp: demo_job_def bj_suite_def demo_cases_def suite_case_def)
  have "execute_cell j x = demo_answer (fst x) (bj_baseline j) (snd x) (bj_seed j + int (snd x) - 1)"
    using vis by (cases x) (simp add: execute_cell_def j demo_answer_def raw_fact_def cell_of_def cell_key_def)
  then show ?thesis using demo_no_leak [OF j(2)] by (simp add: good_cell_def demo_answer_def raw_fact_def raw_valid_def)
qed

theorem schedule_unobservable_witness:
  "\<exists>run. run_suite demo_job False ''run'' 0 5 (rev (job_cells demo_job)) [] = ([run], Some run) \<and> length (br_raw run) = 8"
proof -
  have "bench_get [] ''run'' = None" by (simp add: bench_get_def)
  moreover have "set (rev (job_cells demo_job)) = set (job_cells demo_job)" by simp
  moreover have "length (job_cells demo_job) = 8" by (simp add: job_cells_def demo_job_def demo_cases_def)
  ultimately show ?thesis using schedule_unobservable [OF demo_job_accepted, of "rev (job_cells demo_job)" "[]" "''run''" 0 5] demo_good_cell
    by (metis append_Nil length_map)
qed

text \<open>C35: a run that is killed after any number of its cells and resumed, whatever the executor answers then,
  completes with one fact for every cell of the suite in the order of the suite, those it had kept as they
  were; but a resumed run does not look at the seed of the one it goes on with: the cells that were open
  run under the new seed and are stored under the old one, while the run that is returned names the new one
  for all of them.\<close>

theorem resumed_run_complete:
  assumes "job_accepted j" "distinct (map bc_id (bj_cases j))" "\<forall>x \<in> set finished. good_cell j x"
    and "\<forall>x \<in> set order. good_cell (j\<lparr>bj_seed := seed, bj_execute := ex\<rparr>) x" "set finished \<union> set order = set (job_cells j)"
    and "bench_get st i = None" "\<forall>r \<in> set (matching st (bj_versions j) (bj_baseline j) (bj_suite j) BENCH_RUNNING). br_started r < now"
  shows "\<exists>run. run_suite (j\<lparr>bj_seed := seed, bj_execute := ex\<rparr>) True i' now' t order (killed_store j i now finished st)
        = (st @ [run\<lparr>br_seed := bj_seed j\<rparr>], Some run)
    \<and> br_id run = i \<and> br_status run = BENCH_COMPLETED \<and> br_seed run = seed
    \<and> br_raw run = map (\<lambda>x. the (execute_cell (if x \<in> set finished then j else j\<lparr>bj_seed := seed, bj_execute := ex\<rparr>) x)) (job_cells j)"
proof -
  from killed_then_resumed [OF assms(1-3) refl assms(4-7), where i' = i' and now' = now' and t = t] obtain run m where
    "run = (new_run (j\<lparr>bj_seed := seed, bj_execute := ex\<rparr>) i now)\<lparr>br_status := BENCH_COMPLETED,
      br_raw := map (\<lambda>x. the (execute_cell (if x \<in> set finished then j else j\<lparr>bj_seed := seed, bj_execute := ex\<rparr>) x)) (job_cells j),
      br_metrics := metrics_dict (bj_repetitions j) m, br_finished := Some t\<rparr>"
    "run_suite (j\<lparr>bj_seed := seed, bj_execute := ex\<rparr>) True i' now' t order (killed_store j i now finished st)
      = (st @ [run\<lparr>br_seed := bj_seed j\<rparr>], Some run)" by blast
  then show ?thesis by (intro exI [of _ run]) (simp add: new_run_def)
qed

theorem resumed_run_complete_witness:
  "\<exists>run. run_suite (demo_job\<lparr>bj_seed := 9, bj_execute := demo_answer\<rparr>) True ''other'' 2 5 (job_cells demo_job)
      (killed_store demo_job ''run'' 0 (take 3 (job_cells demo_job)) []) = ([run\<lparr>br_seed := 7\<rparr>], Some run)
    \<and> length (br_raw run) = 8 \<and> br_seed run = 9"
proof -
  have part: "set (take 3 (job_cells demo_job)) \<union> set (job_cells demo_job) = set (job_cells demo_job)" using set_take_subset by fast
  have good: "\<forall>x \<in> set (take 3 (job_cells demo_job)). good_cell demo_job x"
    "\<forall>x \<in> set (job_cells demo_job). good_cell (demo_job\<lparr>bj_seed := 9, bj_execute := demo_answer\<rparr>) x"
    using demo_good_cell in_set_takeD by fast+
  have "bench_get [] ''run'' = None" "length (job_cells demo_job) = 8" "bj_seed demo_job = 7"
    by (simp_all add: bench_get_def job_cells_def demo_job_def demo_cases_def)
  with resumed_run_complete [OF demo_job_accepted good part, where st = "[]" and i = "''run''" and now = 0 and i' = "''other''" and now' = 2 and t = 5] show ?thesis
    by (auto simp: matching_def)
qed

end
