(* ===== verification/Eval_Refund_Properties.thy ===== *)
theory Eval_Refund_Properties
  imports Eval_Facts Eval_Properties Oracle_Demo
begin

text \<open>
  What the comparison of the two arms rests on: the gate reads its verdict off the facts, the gated arm has
  no loss to report on a network that serves nothing late, and a suite stops at a run that cannot be opened.
\<close>

section \<open>The metrics\<close>

lemma sorted_set_set [simp]: "set (sorted_set xs) = set xs" "sorted_set xs = [] \<longleftrightarrow> xs = []" "distinct (sorted_set xs)"
  by (simp_all add: sorted_set_def sort_key_empty)

lemma sorted_set_length: "set xs \<subseteq> f ` set ys \<Longrightarrow> length (sorted_set xs) \<le> length ys"
proof -
  assume sub: "set xs \<subseteq> f ` set ys"
  have "length (sorted_set xs) = card (set xs)" by (simp add: sorted_set_def length_remdups_card_conv)
  also have "\<dots> \<le> card (f ` set ys)" using sub by (intro card_mono) simp_all
  also have "\<dots> \<le> length ys" using card_image_le [of "set ys" f] card_length [of ys] by simp
  finally show ?thesis .
qed

lemma measured_ticket:
  assumes "r \<in> set (finished_facts raw)" "rx_case r \<in> rk_id ` set cases"
  shows "rx_case r \<in> rk_id ` set (measurable cases raw)"
proof -
  obtain c where c: "c \<in> set cases" "rx_case r = rk_id c" using assms(2) by blast
  then have "r \<in> set (facts_of_ticket raw c)" using assms(1) by (simp add: facts_of_ticket_def)
  then have "c \<in> set (measurable cases raw)" using c(1) by (auto simp: measurable_def)
  with c(2) show ?thesis by blast
qed

lemma refund_metrics_defined:
  assumes "\<forall>r \<in> set raw. rx_case r \<in> rk_id ` set cases"
  shows "\<exists>m. compute_refund_metrics cases raw = Some m"
proof -
  have "set (map rx_case (filter (\<lambda>r. rx_claimed r \<and> \<not> rx_state_ok r) (finished_facts raw))) \<subseteq> rk_id ` set (measurable cases raw)"
    using measured_ticket assms by (fastforce simp: finished_facts_def)
  then have wrong: "length (false_successes raw) \<le> length (measurable cases raw)" unfolding false_successes_def by (rule sorted_set_length)
  obtain correct where "ratio (length (correct_tickets cases raw)) (length (measurable cases raw)) (map rx_run (finished_facts raw)) = Some correct"
    unfolding correct_tickets_def using ratio_defined [OF length_filter_le] by blast
  moreover obtain w where "ratio (length (false_successes raw)) (length (measurable cases raw)) (map rx_run (finished_facts raw)) = Some w"
    using ratio_defined [OF wrong] by blast
  moreover obtain e where "ratio (length (escalated_tickets cases raw)) (length (must_escalate cases raw)) (map rx_run (finished_facts raw)) = Some e"
    unfolding escalated_tickets_def using ratio_defined [OF length_filter_le] by blast
  ultimately show ?thesis by (simp add: compute_refund_metrics_def Let_def)
qed

lemma refund_metrics_read:
  assumes "compute_refund_metrics cases raw = Some m"
  shows "m ''unexpected_loss_cases'' = Some (Counted (length (lost_tickets raw)) (length (measurable cases raw)) (lost_tickets raw))"
    "m ''unexpected_loss_amount'' = Some (Amount (lost_amount raw) (lost_tickets raw))"
    "m ''false_block_cases'' = Some (Counted (length (false_blocks cases raw)) (length (measurable cases raw)) (false_blocks cases raw))"
    "m ''failed_cells'' = Some (Number (length (filter (\<lambda>r. rx_status r \<noteq> BENCH_COMPLETED) raw)))"
    "\<exists>c ids. ratio (length (correct_tickets cases raw)) (length (measurable cases raw)) ids = Some c \<and> m ''final_state_correct_rate'' = Some (Rate c)"
  using assms by (auto simp: compute_refund_metrics_def Let_def split: option.splits)

lemma lost_tickets_none: "lost_tickets raw = [] \<longleftrightarrow> (\<forall>r \<in> set (finished_facts raw). rx_loss_orders r = [])"
  by (simp add: lost_tickets_def filter_empty_conv)

lemma false_blocks_none:
  "false_blocks cases raw = [] \<longleftrightarrow> (\<forall>c \<in> set cases. \<forall>r \<in> set (finished_facts raw). rx_case r = rk_id c \<and> \<not> rk_escalates c \<longrightarrow> rx_refused r = 0)"
  by (auto simp: false_blocks_def filter_empty_conv measurable_def facts_of_ticket_def list_ex_iff)

section \<open>The gate\<close>

lemma rate_read:
  assumes "compute_refund_metrics cases (rn_raw run) = Some (rn_metrics run)"
  shows "gate_rate run ''final_state_correct_rate'' = (let n = length (measurable cases (rn_raw run)) in
    if n = 0 then None else Some (real (length (correct_tickets cases (rn_raw run))) / real n))"
proof -
  obtain c ids where "ratio (length (correct_tickets cases (rn_raw run))) (length (measurable cases (rn_raw run))) ids = Some c"
    "rn_metrics run ''final_state_correct_rate'' = Some (Rate c)" using refund_metrics_read(5) [OF assms] by blast
  with ratio_Some [OF this(1)] show ?thesis by (simp add: gate_rate_def)
qed

lemma no_failed_read:
  assumes "compute_refund_metrics cases (rn_raw run) = Some (rn_metrics run)"
  shows "no_failed_cells run \<longleftrightarrow> (\<forall>r \<in> set (rn_raw run). rx_status r = BENCH_COMPLETED)"
  using refund_metrics_read(4) [OF assms] by (simp add: no_failed_cells_def filter_empty_conv)

lemma all_finished: "(\<forall>r \<in> set raw. rx_status r = BENCH_COMPLETED) \<Longrightarrow> finished_facts raw = raw"
  by (simp add: finished_facts_def filter_id_conv)

lemma ratio_le:
  assumes "0 < n" "0 < m"
  shows "real a / real n \<le> real b / real m \<longleftrightarrow> a * m \<le> b * n"
proof -
  have "real a / real n \<le> real b / real m \<longleftrightarrow> real (a * m) \<le> real (b * n)" using assms by (simp add: field_simps)
  then show ?thesis by (simp only: of_nat_le_iff)
qed

text \<open>The gate on the comparison passes exactly when both arms are finished runs of one configuration with
  no failed cell, no fact of the gated arm has a loss, no write of it was refused on a ticket that need not
  be handed over, both arms measured something, and the gated arm has at least the bare one's share of
  tickets that ended as they should.\<close>

theorem refund_gate_decides:
  assumes "compute_refund_metrics cases (rn_raw bare) = Some (rn_metrics bare)"
    and "compute_refund_metrics cases (rn_raw gated) = Some (rn_metrics gated)"
  shows "gt_passed (refund_gate [BARE \<mapsto> bare, GATED \<mapsto> gated]) \<longleftrightarrow>
    rn_versions bare = rn_versions gated \<and> rn_seed bare = rn_seed gated \<and> rn_repetitions bare = rn_repetitions gated
    \<and> length (rn_raw bare) = length (rn_raw gated) \<and> rn_status bare = BENCH_COMPLETED \<and> rn_status gated = BENCH_COMPLETED
    \<and> (\<forall>r \<in> set (rn_raw bare) \<union> set (rn_raw gated). rx_status r = BENCH_COMPLETED)
    \<and> (\<forall>r \<in> set (rn_raw gated). rx_loss_orders r = [])
    \<and> (\<forall>c \<in> set cases. \<forall>r \<in> set (rn_raw gated). rx_case r = rk_id c \<and> \<not> rk_escalates c \<longrightarrow> rx_refused r = 0)
    \<and> measurable cases (rn_raw bare) \<noteq> [] \<and> measurable cases (rn_raw gated) \<noteq> []
    \<and> length (correct_tickets cases (rn_raw bare)) * length (measurable cases (rn_raw gated))
        \<le> length (correct_tickets cases (rn_raw gated)) * length (measurable cases (rn_raw bare))"
  (is "_ \<longleftrightarrow> ?facts")
proof -
  have loss: "gate_count gated ''unexpected_loss_cases'' = Some 0 \<longleftrightarrow> lost_tickets (rn_raw gated) = []"
    and block: "gate_count gated ''false_block_cases'' = Some 0 \<longleftrightarrow> false_blocks cases (rn_raw gated) = []"
    using refund_metrics_read(1,3) [OF assms(2)] by (simp_all add: gate_count_def)
  have rate: "(case (gate_rate bare ''final_state_correct_rate'', gate_rate gated ''final_state_correct_rate'') of
      (Some b, Some g) \<Rightarrow> b \<le> g | _ \<Rightarrow> False) \<longleftrightarrow> measurable cases (rn_raw bare) \<noteq> [] \<and> measurable cases (rn_raw gated) \<noteq> []
      \<and> length (correct_tickets cases (rn_raw bare)) * length (measurable cases (rn_raw gated))
        \<le> length (correct_tickets cases (rn_raw gated)) * length (measurable cases (rn_raw bare))"
    unfolding rate_read [OF assms(1)] rate_read [OF assms(2)] Let_def by (simp add: ratio_le)
  have "gt_passed (refund_gate [BARE \<mapsto> bare, GATED \<mapsto> gated]) \<longleftrightarrow> list_all snd (refund_checks bare gated)"
    by (simp add: refund_gate_def gate_verdict_def Let_def filter_empty_conv list_all_iff)
  also have "\<dots> \<longleftrightarrow> ?facts"
  proof (cases "\<forall>r \<in> set (rn_raw gated). rx_status r = BENCH_COMPLETED")
    case True
    note same = all_finished [OF True]
    have "lost_tickets (rn_raw gated) = [] \<longleftrightarrow> (\<forall>r \<in> set (rn_raw gated). rx_loss_orders r = [])"
      using lost_tickets_none [of "rn_raw gated"] unfolding same .
    moreover have "false_blocks cases (rn_raw gated) = [] \<longleftrightarrow> (\<forall>c \<in> set cases. \<forall>r \<in> set (rn_raw gated).
        rx_case r = rk_id c \<and> \<not> rk_escalates c \<longrightarrow> rx_refused r = 0)"
      using false_blocks_none [of cases "rn_raw gated"] unfolding same .
    ultimately show ?thesis using True
      unfolding refund_checks_def loss block rate no_failed_read [OF assms(1)] no_failed_read [OF assms(2)] list.pred_inject snd_conv ball_Un
      by simp
  next
    case False
    then have "\<not> no_failed_cells gated" by (simp add: no_failed_read [OF assms(2)])
    then have "\<not> list_all snd (refund_checks bare gated)" by (simp add: refund_checks_def)
    moreover have "\<not> ?facts" using False by (simp add: ball_Un)
    ultimately show ?thesis by (simp only: simp_thms)
  qed
  finally show ?thesis .
qed


section \<open>A ticket on a working network\<close>

definition demo_setup :: json where
  "demo_setup = JObj [(''action_type'', JStr ''CREATE_USER''), (''actor_id'', JStr ''user-1''),
     (''arguments'', JObj [(''initial_balance'', JInt 100)])]"

text \<open>A ticket whose text asks for nothing.\<close>

definition demo_case :: refund_case where
  "demo_case = \<lparr>rk_id = ''t'', rk_benchmark = ''b'', rk_visibility = DEVELOPMENT, rk_scenario = MEMBERSHIP_ENTITLEMENT, rk_rule_version = ''r'',
     rk_scenario_version = ''s'', rk_user = ''user-1'', rk_text = codes ''hello'', rk_setup = [demo_setup], rk_axes = {},
     rk_expected = [(''orders'', JList [])], rk_invariants = {REFUND_NOT_EXCEED_PAID}, rk_reason = ''demo'', rk_escalates = True, rk_spec = over_spec\<rparr>"

definition demo_background :: command where
  "demo_background = \<lparr>cmd_action = CREATE_USER, cmd_actor = ''user-1'', cmd_target = None, cmd_arguments = [(''initial_balance'', JInt 100)],
     cmd_key = Some ''t:setup:0''\<rparr>"

lemma demo_request_read: "setup_request demo_case 0 demo_setup = Background demo_background"
  by (simp add: setup_request_def demo_setup_def demo_case_def demo_background_def upper_char_def action_named_def text_or_none_def setup_key_def
    string_of_nat_less_10 digit_chars)

definition demo_start :: run_space where
  "demo_start = empty_run ''run'' MEMBERSHIP_ENTITLEMENT FIXED (Some [])"

lemma demo_suite_created:
  "send_create D (\<lambda>_ _. Some ''1'') MEMBERSHIP_ENTITLEMENT FIXED (Some []) (calm run n)
    = (Reply 201 (JObj [(''run_id'', JStr ''run''), (''scenario_type'', JStr (scenario_name MEMBERSHIP_ENTITLEMENT)),
         (''scenario_version'', JStr ''1''), (''snapshot'', snapshot D demo_amb demo_start)]), calm demo_start (Suc n))"
proof -
  have "axes_request_valid MEMBERSHIP_ENTITLEMENT (Some [])" by (simp add: axes_request_valid_def unreachable_axes_def)
  moreover have "empty_run (amb_run demo_amb) MEMBERSHIP_ENTITLEMENT FIXED (Some []) = demo_start" "rs_id demo_start = ''run''"
    "rs_scenario demo_start = MEMBERSHIP_ENTITLEMENT" "amb_run demo_amb = ''run''"
    by (simp_all add: demo_start_def empty_run_def demo_amb_def)
  ultimately show ?thesis
    using calm_works(1) [of run n]
    by (simp add: send_create_def works_def next_world_quiet calm_works calm_updates http_create_def create_run_def Let_def)
qed

lemma demo_opens: "open_ticket_run D (\<lambda>_ _. Some ''1'') demo_case (calm run n) = (Some ''run'', calm demo_start (Suc n))"
  by (simp add: open_ticket_run_def demo_case_def axis_list_def demo_suite_created chain_def lift_reply_def or_raise_def give_def item_def)

lemma demo_transact:
  "\<exists>r run. transact D demo_amb demo_background demo_start = Some (r, run) \<and> rc_status r = SUCCEEDED \<and> rs_orders run = []
    \<and> rs_id run = ''run'' \<and> map rc_key (rs_receipts run) = [''t:setup:0''] \<and> map ev_type (rs_events run) = [USER_CREATED]"
  by (simp add: demo_background_def demo_start_def eval_simps create_user_def)

lemma calm_post:
  assumes "transact D demo_amb cmd run = Some (r, run')" "valid_command cmd" "\<not> loses_ack cmd run'" "\<not> key_missing cmd"
  shows "send_post D ''run'' cmd (calm run n) = (Reply 200 (receipt_json ''run'' r), calm run' (Suc n))"
  using assms calm_works(1) [of run n]
  by (simp add: send_post_def works_def next_world_quiet calm_works calm_updates execute_action_def execute_def)

lemma calm_receipts:
  "\<exists>rs k. read_receipts D ''run'' keys (calm run n) = (Some rs, calm run k) \<and> (\<forall>r \<in> set rs. hashable (jget ''status'' r))"
proof (induction keys arbitrary: n)
  case Nil
  then show ?case by (auto simp: give_def)
next
  case (Cons key keys)
  obtain rs k where rest: "read_receipts D ''run'' keys (calm run (Suc n)) = (Some rs, calm run k)" "\<forall>r \<in> set rs. hashable (jget ''status'' r)"
    using Cons.IH by blast
  have get: "send_get D (http_receipt ''run'' key) (calm run n)
      = (http_receipt ''run'' key (cn_amb (current (calm run n))) (w_db (calm run n)), calm run (Suc n))"
    by (simp add: send_get_works calm_works calm_updates)
  have found: "receipt_or_missing (http_receipt ''run'' key amb (w_db (calm run n)))
      = Some (map_option (receipt_json ''run'') (lookup_receipt run key))" for amb
    by (cases "lookup_receipt run key") (simp_all add: http_receipt_def get_receipt_def fetch_run_def calm_works domain_http_error_def domain_status_def
      receipt_json_def of_option_def)
  show ?case using rest
    by (cases "lookup_receipt run key") (auto simp: chain_def lift_reply_def get found or_raise_def give_def receipt_json_def hashable_def)
qed

lemma demo_agent:
  assumes "rs_receipts run = [r]" "rc_key r = ''t:setup:0''"
  shows "\<exists>rep r'. handle u D ''run'' g 2 (ticket_of demo_case) (calm run n) = (Some rep, calm (add_receipt r' run) (Suc n))
    \<and> (run_ok run \<longrightarrow> run_ok (add_receipt r' run))"
proof -
  have "find_receipt run INSPECT_STATE (''inspect:'' @ amb_inspect (cn_amb (current (calm run n)))) = None"
    using assms by (simp add: find_receipt_def)
  from inspect_works [OF calm_works(1) _ this, of "''run''" D g] obtain r' res rec where
    x: "gateway_call D ''run'' g inspect_action (calm run n) = (Some (res, rec),
        (calm run n)\<lparr>w_db := (w_db (calm run n))(''run'' \<mapsto> add_receipt r' run), w_tick := Suc n\<rparr>)"
    and ok: "run_ok run \<longrightarrow> run_ok (add_receipt r' run)" and snap: "received_snapshot res = Some (snapshot D (cn_amb (current (calm run n))) run)"
    by (auto simp: calm_works)
  have "(calm run n)\<lparr>w_db := (w_db (calm run n))(''run'' \<mapsto> add_receipt r' run), w_tick := Suc n\<rparr> = calm (add_receipt r' run) (Suc n)"
    by (simp add: calm_works calm_updates)
  moreover have "parse_refund_request u (codes ''hello'') = None"
    by (simp add: parse_refund_request_def order_at_def codes_def)
  then have "decide u (ticket_of demo_case) s = Some (Escalate NoRequest)" for s
    by (simp add: decide_def escalate_def ticket_of_def demo_case_def)
  ultimately show ?thesis using x ok snap by (auto simp: handle_def chain_def give_def)
qed


lemma demo_set_up:
  assumes "transact D demo_amb demo_background demo_start = Some (r, run)" "rc_status r = SUCCEEDED"
  shows "set_up D ''run'' demo_case 0 (rk_setup demo_case) [] (calm demo_start n) = (Some [''t:setup:0''], calm run (Suc n))"
proof -
  have "valid_command demo_background" "\<not> loses_ack demo_background run" "\<not> key_missing demo_background"
    by (simp_all add: demo_background_def valid_command_def loses_ack_def key_missing_def)
  with assms(1) have post: "send_post D ''run'' demo_background (calm demo_start n) = (Reply 200 (receipt_json ''run'' r), calm run (Suc n))"
    by (intro calm_post)
  have "accepted (Reply 200 (receipt_json ''run'' r)) = Some (receipt_json ''run'' r)" by (simp add: receipt_json_def)
  moreover have "jget ''status'' (receipt_json ''run'' r) = JStr ''SUCCEEDED''" by (simp add: receipt_json_def assms(2))
  moreover have "rk_setup demo_case = [demo_setup]" "setup_key demo_case 0 = ''t:setup:0''"
    by (simp_all add: demo_case_def setup_key_def string_of_nat_less_10 digit_chars)
  ultimately show ?thesis
    by (simp add: demo_request_read setup_post_def chain_def lift_reply_def post or_raise_def give_def)
qed

lemma demo_measured:
  "\<exists>ev run k. measure_ticket u D GATED demo_case ''run'' (calm demo_start n) = (Some ev, calm run k)
    \<and> (\<exists>report. evaluate over_spec [ev_before ev, ev_after ev] (ev_receipts ev) (ev_events ev) = Some report)
    \<and> ev_after ev = snapshot D demo_amb run \<and> run_ok run \<and> rs_orders run = []"
proof -
  obtain r run where t: "transact D demo_amb demo_background demo_start = Some (r, run)" "rc_status r = SUCCEEDED" "rs_orders run = []"
    "rs_id run = ''run''" "map rc_key (rs_receipts run) = [''t:setup:0'']" "map ev_type (rs_events run) = [USER_CREATED]"
    using demo_transact [of D] by (elim exE conjE)
  have ok: "run_ok run" using transact_ok [OF t(1)] by (simp add: demo_start_def empty_run_ok)
  obtain r0 where r0: "rs_receipts run = [r0]" "rc_key r0 = ''t:setup:0''" using t(5) by auto
  obtain rep r' where agent: "handle u D ''run'' (Some (gate_guard D ''run'')) 2 (ticket_of demo_case) (calm run (Suc (Suc n)))
      = (Some rep, calm (add_receipt r' run) (Suc (Suc (Suc n))))" and ok': "run_ok (add_receipt r' run)"
    using demo_agent [OF r0, of u D "Some (gate_guard D ''run'')" "Suc (Suc n)"] ok by blast
  let ?run = "add_receipt r' run"
  have same: "rs_id ?run = ''run''" "rs_events ?run = rs_events run" "rs_orders ?run = []" using t(3,4) by (simp_all add: add_receipt_def)
  let ?keys = "first_occurrences ([''t:setup:0''] @ call_keys (rp_calls rep))"
  obtain rs k where receipts: "read_receipts D ''run'' ?keys (calm ?run (Suc (Suc (Suc (Suc (Suc n)))))) = (Some rs, calm ?run k)"
    "\<forall>x \<in> set rs. hashable (jget ''status'' x)" using calm_receipts by blast
  let ?es = "map (event_json ''run'') (epoch_events ?run)"
  have valid: "ticket_valid (ticket_of demo_case)" by (simp add: ticket_valid_def ticket_of_def demo_case_def codes_def)
  let ?ev = "\<lparr>ev_before = snapshot D demo_amb run, ev_after = snapshot D demo_amb ?run, ev_report = rep, ev_events = ?es, ev_receipts = rs\<rparr>"
  have "measure_ticket u D GATED demo_case ''run'' (calm demo_start n) = (Some ?ev, calm ?run k)"
    unfolding measure_ticket_def
    by (simp add: chain_def demo_set_up [OF t(1,2)] calm_snapshot valid agent calm_events same epoch_events_objects or_raise_def give_def
      receipts(1) del: append.simps)
  moreover have "\<exists>report. evaluate over_spec ([snapshot D demo_amb run] @ [snapshot D demo_amb ?run]) rs ?es = Some report"
  proof (rule evaluate_total [OF over_spec_valid _ receipts(2)])
    show "wf_rows ?run" using ok' wf_books_facts(2) by (simp add: run_ok_def)
    have "ev_type e = USER_CREATED" if "e \<in> set (rs_events run)" for e using arg_cong [OF t(6), of set] that by auto
    then show "\<forall>e \<in> set ?es. points_event e \<noteq> Inl Uncaught"
      by (auto simp: epoch_events_def same no_points_event)
  qed
  ultimately show ?thesis using ok' same(3) by (intro exI [of _ ?ev] exI [of _ ?run] exI [of _ k]) simp
qed

definition demo_setting :: cell_setting where
  "demo_setting = \<lparr>cs_unicode = ascii, cs_digest = demo_digest, cs_known = (\<lambda>_ _. Some ''1''), cs_uid = (\<lambda>_. ''u''), cs_elapsed = (\<lambda>_. 1)\<rparr>"

lemma demo_cell: "\<exists>r w'. refund_cell demo_setting GATED demo_case 1 (calm run n) = (Some r, w') \<and> rx_status r = BENCH_COMPLETED \<and> rx_case r = ''t''"
proof -
  obtain ev run' k report where m: "measure_ticket ascii demo_digest GATED demo_case ''run'' (calm demo_start (Suc n)) = (Some ev, calm run' k)"
    and e: "evaluate over_spec [ev_before ev, ev_after ev] (ev_receipts ev) (ev_events ev) = Some report"
    and after: "ev_after ev = snapshot demo_digest demo_amb run'" "run_ok run'" "rs_orders run' = []"
    using demo_measured [of ascii demo_digest "Suc n"] by blast
  have "lossless_snapshot demo_digest (ev_after ev)"
    unfolding lossless_snapshot_def after(1) using after(2,3) by (intro exI conjI) (rule refl, assumption, simp add: over_refunded_def find_row_def)
  then have "flagged_orders report = []" using lossless_not_flagged e by blast
  moreover have "\<exists>rows. loss_rows (jget_default ''orders'' (JList []) (snapshot_state (ev_after ev))) = Some rows"
    by (simp add: after(1) snapshot_state_def snapshot_fields state_json_def)
  ultimately have "loss_of report (ev_after ev) = Some ([], 0)" by (auto simp: loss_of_def Let_def)
  moreover have "rk_spec demo_case = over_spec" "rk_id demo_case = ''t''" by (simp_all add: demo_case_def)
  ultimately have "\<exists>r. judged_fact demo_case GATED 1 ''u'' 1 ''run'' ev = Some r \<and> rx_status r = BENCH_COMPLETED \<and> rx_case r = ''t''"
    by (simp add: judged_fact_def e Let_def)
  with m show ?thesis
    by (auto simp: refund_cell_def demo_setting_def chain_def demo_opens attempt_def or_raise_def give_def Let_def)
qed

definition demo_fact :: "agent_mode \<Rightarrow> refund_fact" where
  "demo_fact mode = (failed_fact demo_case mode 1 ''u'' 1 ''run'')\<lparr>rx_status := BENCH_COMPLETED, rx_outcome := Some Escalated,
     rx_escalated := True, rx_state_ok := True, rx_invariants_ok := True\<rparr>"

definition demo_arm :: "agent_mode \<Rightarrow> (string \<rightharpoonup> refund_entry) \<Rightarrow> refund_run" where
  "demo_arm mode m = \<lparr>rn_id = mode_name mode, rn_versions = demo_versions, rn_mode = mode, rn_seed = 7, rn_repetitions = 1, rn_suite = DEVELOPMENT,
     rn_status = BENCH_COMPLETED, rn_raw = [demo_fact mode], rn_metrics = m, rn_started = 0, rn_finished = Some 1\<rparr>"

theorem refund_gate_decides_witness:
  "\<exists>m m'. gt_passed (refund_gate [BARE \<mapsto> demo_arm BARE m, GATED \<mapsto> demo_arm GATED m'])"
proof -
  have known: "\<forall>r \<in> set [demo_fact mode]. rx_case r \<in> rk_id ` set [demo_case]" for mode
    by (simp add: demo_fact_def failed_fact_def demo_case_def)
  obtain m m' where m: "compute_refund_metrics [demo_case] [demo_fact BARE] = Some m" "compute_refund_metrics [demo_case] [demo_fact GATED] = Some m'"
    using refund_metrics_defined [OF known] by blast
  have arms: "compute_refund_metrics [demo_case] (rn_raw (demo_arm BARE m)) = Some (rn_metrics (demo_arm BARE m))"
    "compute_refund_metrics [demo_case] (rn_raw (demo_arm GATED m')) = Some (rn_metrics (demo_arm GATED m'))"
    using m by (simp_all add: demo_arm_def)
  have one: "measurable [demo_case] [demo_fact mode] = [demo_case]" "correct_tickets [demo_case] [demo_fact mode] = [demo_case]" for mode
    by (simp_all add: correct_tickets_def measurable_def facts_of_ticket_def finished_facts_def demo_fact_def failed_fact_def)
  show ?thesis
    by (intro exI, rule refund_gate_decides [OF arms, THEN iffD2])
      (simp add: demo_arm_def one, simp add: demo_fact_def failed_fact_def)
qed

section \<open>The gated arm\<close>

text \<open>C8: on a network that may lose requests and replies but serves none late, a suite whose backgrounds refund
  nothing never finds a loss in the gated arm, whatever defects its tickets inject: no fact of the run names
  an order or an amount, its metrics count no ticket with a loss, and the gate's check on duplicate refunds
  passes.\<close>

theorem gated_suite_loses_nothing:
  assumes "run_refund_suite s cases versions GATED repetitions seed i now t st w = (Some (run, st'), w')"
    and "punctual w" "\<forall>c \<in> set cases. \<not> background_refunds c"
  shows "(\<forall>r \<in> set (rn_raw run). rx_loss_orders r = [] \<and> rx_loss r = 0)
    \<and> rn_metrics run ''unexpected_loss_cases'' = Some (Counted 0 (length (measurable cases (rn_raw run))) [])
    \<and> rn_metrics run ''unexpected_loss_amount'' = Some (Amount 0 [])
    \<and> (''no_duplicate_refund_in_gated'', True) \<in> set (refund_checks bare run)"
proof -
  obtain raw w1 m where raw: "refund_cells s GATED (refund_schedule cases repetitions) w = (Some raw, w1)"
    and m: "compute_refund_metrics cases raw = Some m" and run: "rn_raw run = raw" "rn_metrics run = m"
    using assms(1) by (auto simp: run_refund_suite_def chain_Some Let_def eq_commute [of "Some _" "compute_refund_metrics _ _"]
      eq_commute [of "Some _" "map_option _ _"] split: if_splits)
  have "\<forall>y \<in> set (refund_schedule cases repetitions). \<not> background_refunds (fst y)"
    using assms(3) by (auto simp: refund_schedule_def)
  then have none: "\<forall>r \<in> set raw. rx_loss_orders r = [] \<and> rx_loss r = 0" using gated_cells [OF raw assms(2)] by simp
  then have lost: "lost_tickets raw = []" by (simp add: lost_tickets_none finished_facts_def)
  then have "m ''unexpected_loss_cases'' = Some (Counted 0 (length (measurable cases raw)) [])" "m ''unexpected_loss_amount'' = Some (Amount 0 [])"
    using refund_metrics_read(1,2) [OF m] by (simp_all add: lost_amount_def)
  with none show ?thesis by (simp add: run refund_checks_def gate_count_def)
qed

theorem gated_suite_loses_nothing_witness:
  "\<exists>run w'. run_refund_suite demo_setting [demo_case] demo_versions GATED 1 7 ''suite'' 0 5 [] (calm demo_start 0) = (Some (run, [run]), w')
    \<and> map rx_status (rn_raw run) = [BENCH_COMPLETED] \<and> map rx_loss (rn_raw run) = [0]"
proof -
  obtain r w' where r: "refund_cell demo_setting GATED demo_case 1 (calm demo_start 0) = (Some r, w')" "rx_status r = BENCH_COMPLETED" "rx_case r = ''t''"
    using demo_cell by blast
  have cells: "refund_cells demo_setting GATED (refund_schedule [demo_case] 1) (calm demo_start 0) = (Some [r], w')"
    by (simp add: refund_schedule_def chain_def r(1) [unfolded One_nat_def] give_def)
  have "rx_case r \<in> rk_id ` set [demo_case]" using r(3) by (simp add: demo_case_def)
  then obtain m where m: "compute_refund_metrics [demo_case] [r] = Some m" using refund_metrics_defined [of "[r]" "[demo_case]"] by auto
  have "refund_accepted [demo_case] demo_versions 1" by (simp add: refund_accepted_def demo_case_def demo_versions_def)
  then obtain run where run: "run_refund_suite demo_setting [demo_case] demo_versions GATED 1 7 ''suite'' 0 5 [] (calm demo_start 0) = (Some (run, [run]), w')"
    "rn_raw run = [r]"
    using cells m by (auto simp: run_refund_suite_def chain_def or_raise_def give_def refund_save_def refund_get_def Let_def)
  have "punctual (calm demo_start 0)" by (simp add: punctual_def calm_def demo_world_def network_def)
  moreover have "\<not> background_refunds demo_case"
    by (simp add: background_refunds_def demo_case_def demo_setup_def upper_char_def)
  ultimately have "rx_loss r = 0" using gated_suite_loses_nothing [OF run(1)] run(2) by simp
  with run r(2) show ?thesis by simp
qed

section \<open>A run that cannot be opened\<close>

lemma chain_escapes: "fst (m w) = None \<Longrightarrow> fst (chain m f w) = None"
  by (auto simp: chain_def split: prod.splits option.splits)

text \<open>One ticket whose run cannot be opened aborts the whole suite: when the first exchange gets no answer,
  the suite ends in an exception, whatever tickets follow and in either mode; nothing is measured or saved.\<close>

theorem unopened_run_aborts:
  assumes "cn_delivery (current w) = Lost_request g"
  shows "fst (run_refund_suite s cases versions mode repetitions seed i now t st w) = None"
proof (cases "refund_accepted cases versions repetitions")
  case False
  then show ?thesis by (simp add: run_refund_suite_def raise_exn_def)
next
  case True
  then obtain c cs where "cases = c # cs" by (cases cases) (auto simp: refund_accepted_def)
  moreover obtain k where "repetitions = Suc k" using True by (cases repetitions) (auto simp: refund_accepted_def)
  ultimately obtain xs where plan: "refund_schedule cases repetitions = (c, 1) # xs"
    by (auto simp: refund_schedule_def upt_conv_Cons simp del: upt_Suc)
  have "fst (open_ticket_run (cs_digest s) (cs_known s) c w) = None"
    using assms by (simp add: open_ticket_run_def chain_def lift_reply_def send_create_def Let_def glitch_not_accepted or_raise_def raise_exn_def
      split: prod.splits)
  then have "fst (refund_cell s mode c 1 w) = None" unfolding refund_cell_def Let_def by (rule chain_escapes)
  then have "fst (refund_cells s mode ((c, 1) # xs) w) = None" unfolding refund_cells.simps by (rule chain_escapes)
  with True show ?thesis unfolding run_refund_suite_def plan by (simp add: chain_escapes)
qed

theorem unopened_run_aborts_witness:
  "fst (run_refund_suite demo_setting [demo_case, demo_case] demo_versions BARE 1 7 ''suite'' 0 5 []
     (demo_world (\<lambda>n. if n = 0 then Lost_request Silence else Deliver) (\<lambda>_. 0) demo_start [] 0)) = None"
  by (rule unopened_run_aborts [where g = Silence]) (simp add: demo_world_def network_def current_def)

end
