(* ===== verification/Eval_Baselines.thy ===== *)
theory Eval_Baselines
  imports Eval_Runner Search
begin

text \<open>
  The executors of a benchmark cell (\<^verbatim>\<open>packages/evaluation/baselines.py\<close>): a search over the rule model or
  the attack worker proposes traces, and the sandbox behind the replay gateway confirms them. With them,
  the replays that establish a case's ground truth (\<^verbatim>\<open>ground_truth.py\<close>), the recorded findings of earlier
  releases (\<^verbatim>\<open>historical_p0.py\<close>) and the metrics that may be shown (\<^verbatim>\<open>security.py\<close>). What the executors
  are given is a record: the digests, the random stream, the surroundings of the worker, fresh identifiers
  and times, and the texts that crossed the boundary to the models.
\<close>

section \<open>What surrounds a cell\<close>

type_synonym traced = "world \<times> nat list"

record 'a bench_setting =
  bl_digest :: "json \<Rightarrow> string"
  bl_known :: "scenario_type \<Rightarrow> sandbox_version \<Rightarrow> string option"
  bl_hash :: "sim_state \<Rightarrow> string"
  bl_draws :: "int \<Rightarrow> nat \<Rightarrow> nat \<Rightarrow> nat"
  bl_agents :: "world surroundings"
  bl_stamp :: stamp
  bl_uid :: string
  bl_strategy_uid :: "strategy_type \<Rightarrow> string"
  bl_elapsed :: rat
  bl_scanner :: "'a scanner"
  bl_payloads :: "traced worker \<Rightarrow> string list"
  bl_diagnostic :: "json \<Rightarrow> strategy_diagnostic option"

section \<open>Replays of a case\<close>

fun replayed_invariants :: "scenario_type \<Rightarrow> invariant_id list" where
  "replayed_invariants PROMOTION = [NET_PAID_NON_NEGATIVE, REFUND_NOT_EXCEED_PAID, COUPON_SINGLE_CONSUMPTION,
     ORDER_TERMINAL_MONOTONICITY, IDEMPOTENT_EFFECT]"
| "replayed_invariants REFUND_POINTS = [NET_PAID_NON_NEGATIVE, REFUND_NOT_EXCEED_PAID, POINTS_VALUE_CONSERVATION,
     ORDER_TERMINAL_MONOTONICITY, IDEMPOTENT_EFFECT]"
| "replayed_invariants MEMBERSHIP_ENTITLEMENT = [ENTITLEMENT_NON_NEGATIVE, ENTITLEMENT_REFUND_CONSISTENCY, IDEMPOTENT_EFFECT]"

definition case_replay :: "'a bench_setting \<Rightarrow> benchmark_case \<Rightarrow> sim_action list \<Rightarrow> invariant_id \<Rightarrow> replay_result client" where
  "case_replay x c acts iid =
     sandbox_gateway (bl_digest x) (bl_known x) (bc_spec c) acts iid (bc_sandbox c) (replay_defect_axes c)"

definition confirming :: "replay_result \<Rightarrow> nat" where
  "confirming r = (if rp_classification r = CONFIRMED_VIOLATION then 1 else 0)"

text \<open>How many of some replays confirm.\<close>

fun repeated_replays ::
  "'a bench_setting \<Rightarrow> benchmark_case \<Rightarrow> sim_action list \<Rightarrow> invariant_id \<Rightarrow> nat \<Rightarrow> nat client" where
  "repeated_replays x c acts iid 0 = give 0"
| "repeated_replays x c acts iid (Suc n) = chain (case_replay x c acts iid) (\<lambda>r.
     chain (repeated_replays x c acts iid n) (\<lambda>k. give (confirming r + k)))"

section \<open>The search baselines\<close>

fun goal_depth :: "scenario_type \<Rightarrow> nat" where
  "goal_depth PROMOTION = 4"
| "goal_depth REFUND_POINTS = 3"
| "goal_depth MEMBERSHIP_ENTITLEMENT = 3"

definition searched :: "'a bench_setting \<Rightarrow> benchmark_case \<Rightarrow> baseline_type \<Rightarrow> int \<Rightarrow> search_result option" where
  "searched x c b seed = (case make_budget (bg_steps (bc_budget c)) (max 1 (bg_steps (bc_budget c) * 32)) of
       None \<Rightarrow> None
     | Some budget \<Rightarrow>
         let sim = reference_simulator (bc_spec c);
             goal = (\<lambda>st tr. goal_depth (bc_scenario c) \<le> length tr)
         in if b = BFS_SEARCH then breadth_first_search sim (bl_hash x) goal budget
            else seeded_random_search sim (bl_hash x) (bl_draws x) goal seed budget)"

record tally =
  ta_confirmed :: "invariant_id set"
  ta_replayed :: nat
  ta_attempts :: nat
  ta_successes :: nat

definition no_tally :: tally where
  "no_tally = \<lparr>ta_confirmed = {}, ta_replayed = 0, ta_attempts = 0, ta_successes = 0\<rparr>"

text \<open>A confirmed invariant is replayed twice more.\<close>

fun check_invariants ::
  "'a bench_setting \<Rightarrow> benchmark_case \<Rightarrow> sim_action list \<Rightarrow> invariant_id list \<Rightarrow> tally \<Rightarrow> tally client" where
  "check_invariants x c acts [] t = give t"
| "check_invariants x c acts (iid # iids) t = chain (case_replay x c acts iid) (\<lambda>r.
     let t1 = t\<lparr>ta_replayed := ta_replayed t + 1\<rparr> in
     if rp_classification r = CONFIRMED_VIOLATION
     then chain (repeated_replays x c acts iid 2) (\<lambda>k. check_invariants x c acts iids
       (t1\<lparr>ta_confirmed := insert iid (ta_confirmed t1), ta_attempts := ta_attempts t1 + 3, ta_successes := ta_successes t1 + 1 + k\<rparr>))
     else check_invariants x c acts iids t1)"

text \<open>A fact whose parts contradict each other is refused.\<close>

definition checked_fact :: "raw_case_run \<Rightarrow> raw_case_run option" where
  "checked_fact f = (if raw_valid f then Some f else None)"

definition search_fact :: "'a bench_setting \<Rightarrow> benchmark_case \<Rightarrow> baseline_type \<Rightarrow> nat \<Rightarrow> sim_action list \<Rightarrow> tally \<Rightarrow> raw_case_run" where
  "search_fact x c b n acts t =
     (raw_fact c b n (bl_uid x) (if ta_confirmed t \<noteq> {} then Confirmed_violation else No_violation_within_budget) NO_FAILURE
        (no_usage\<lparr>ug_steps := int (length acts), ug_elapsed := bl_elapsed x\<rparr>))
     \<lparr>rc_confirmed := ta_confirmed t, rc_replayed := ta_replayed t, rc_confirmations := card (ta_confirmed t),
      rc_attempts := ta_attempts t, rc_successes := ta_successes t\<rparr>"

definition search_baseline :: "'a bench_setting \<Rightarrow> benchmark_case \<Rightarrow> baseline_type \<Rightarrow> nat \<Rightarrow> int \<Rightarrow> raw_case_run client" where
  "search_baseline x c b n seed =
     (if b \<notin> {RANDOM_SEARCH, BFS_SEARCH} then raise_exn
      else chain (or_raise (searched x c b seed)) (\<lambda>r.
        chain (check_invariants x c (sh_trace r) (replayed_invariants (bc_scenario c)) no_tally) (\<lambda>t.
        or_raise (checked_fact (search_fact x c b n (sh_trace r) t)))))"

section \<open>The agent baselines\<close>

text \<open>
  Every oracle check of the pass is traced with the number of its findings, so the gateway keeps these
  numbers in the world it acts on.
\<close>

definition recording ::
  "(rule_spec \<Rightarrow> sim_action list \<Rightarrow> invariant_id \<Rightarrow> string \<Rightarrow> string list option \<Rightarrow> world \<Rightarrow> replay_result option \<times> world)
   \<Rightarrow> rule_spec \<Rightarrow> sim_action list \<Rightarrow> invariant_id \<Rightarrow> string \<Rightarrow> string list option \<Rightarrow> traced \<Rightarrow> replay_result option \<times> traced" where
  "recording gateway spec acts iid v axes w = (case gateway spec acts iid v axes (fst w) of
       (None, w') \<Rightarrow> (None, (w', snd w))
     | (Some r, w') \<Rightarrow> (Some r, (w', snd w @ [length (rp_report r)])))"

definition untraced ::
  "(rule_spec \<Rightarrow> sim_action list \<Rightarrow> invariant_id \<Rightarrow> string \<Rightarrow> string list option \<Rightarrow> world \<Rightarrow> minimization_result option \<times> world)
   \<Rightarrow> rule_spec \<Rightarrow> sim_action list \<Rightarrow> invariant_id \<Rightarrow> string \<Rightarrow> string list option \<Rightarrow> traced \<Rightarrow> minimization_result option \<times> traced" where
  "untraced minimize spec acts iid v axes w = (case minimize spec acts iid v axes (fst w) of (r, w') \<Rightarrow> (r, (w', snd w)))"

text \<open>A scripted model that stops at once, free of charge; the search of a strategy ends with it.\<close>

definition disabled_reply :: agent_reply where
  "disabled_reply = \<lparr>gr_answer = Proposes (Stop_proposal None), gr_calls = [(0, 0, 0)], gr_last = Some (0, 0, 0)\<rparr>"

definition single_agent ::
  "(agent_context \<Rightarrow> rejection_kind option \<Rightarrow> nat \<Rightarrow> agent_reply) \<Rightarrow> agent_context \<Rightarrow> rejection_kind option \<Rightarrow> nat \<Rightarrow> agent_reply" where
  "single_agent propose ctx kind k = (if ac_strategy ctx = VALUE_FLOW then propose ctx kind k else disabled_reply)"

text \<open>The store of a cell is its own and nothing is injected.\<close>

definition cell_surroundings :: "'a bench_setting \<Rightarrow> baseline_type \<Rightarrow> traced surroundings" where
  "cell_surroundings x b = (let e = bl_agents x in
     \<lparr>wr_propose = (if b = SINGLE_AGENT then single_agent (wr_propose e) else wr_propose e),
      wr_replay = recording (sandbox_gateway (bl_digest x) (bl_known x)), wr_minimize = untraced (wr_minimize e),
      wr_others = (\<lambda>_. []), wr_now = wr_now e, wr_uid = wr_uid e, wr_fault = (\<lambda>_ _. False), wr_hash = wr_hash e,
      wr_digest = wr_digest e, wr_spec_json = wr_spec_json e, wr_usage_json = wr_usage_json e, wr_call_info = wr_call_info e\<rparr>)"

definition searching_strategies :: "baseline_type \<Rightarrow> strategy_type list" where
  "searching_strategies b = (if b = SINGLE_AGENT then [VALUE_FLOW] else strategies)"

fun baseline_name :: "baseline_type \<Rightarrow> string" where
  "baseline_name RANDOM_SEARCH = ''RANDOM''"
| "baseline_name BFS_SEARCH = ''BFS''"
| "baseline_name SINGLE_AGENT = ''SINGLE_AGENT''"
| "baseline_name MULTI_STRATEGY = ''MULTI_STRATEGY''"

definition cell_job :: "benchmark_case \<Rightarrow> baseline_type \<Rightarrow> nat \<Rightarrow> int \<Rightarrow> string" where
  "cell_job c b n seed = ''benchmark:'' @ bc_id c @ '':'' @ baseline_name b @ '':'' @ string_of_nat n @ '':'' @ string_of_int seed"

definition cell_axes :: "benchmark_case \<Rightarrow> string list" where
  "cell_axes c = (case replay_defect_axes c of None \<Rightarrow> [] | Some names \<Rightarrow> names)"

definition open_cell :: "'a bench_setting \<Rightarrow> benchmark_case \<Rightarrow> baseline_type \<Rightarrow> nat \<Rightarrow> int \<Rightarrow> (store_error + attack_run) \<times> runtime_store" where
  "open_cell x c b n seed = store_create (cell_job c b n seed) (bc_rule_version c) (bc_scenario_version c) (bc_sandbox c) (bc_oracle c)
     (bc_budget c) seed (cell_axes c) (bl_stamp x) empty_store"

text \<open>Three fresh replays of the minimized trace of every counterexample.\<close>

fun stability :: "'a bench_setting \<Rightarrow> benchmark_case \<Rightarrow> counterexample list \<Rightarrow> (nat \<times> nat) client" where
  "stability x c [] = give (0, 0)"
| "stability x c (cx # cxs) =
     chain (or_raise (invariant_named (cx_invariant cx))) (\<lambda>iid.
     chain (or_raise (those_actions (cx_minimized cx))) (\<lambda>acts.
     chain (repeated_replays x c acts iid 3) (\<lambda>k.
     chain (stability x c cxs) (\<lambda>(attempts, successes). give (attempts + 3, successes + k)))))"

fun cell_strategies ::
  "'a bench_setting \<Rightarrow> string \<Rightarrow> budget \<Rightarrow> strategy_type list \<Rightarrow> runtime_store \<Rightarrow> strategy_run list option" where
  "cell_strategies x i b [] st = Some []"
| "cell_strategies x i b (ty # tys) st = (case ensure_strategy i ty b (bl_strategy_uid x ty) st of
       (Inl _, _) \<Rightarrow> None
     | (Inr s, st') \<Rightarrow> map_option ((#) s) (cell_strategies x i b tys st'))"

text \<open>The last reason every strategy gave for stopping, in the order of their names.\<close>

definition last_diagnostics :: "strategy_diagnostic list \<Rightarrow> strategy_diagnostic list" where
  "last_diagnostics ds = concat (map (\<lambda>ty. case find (\<lambda>d. sd_type d = ty) (rev ds) of None \<Rightarrow> [] | Some d \<Rightarrow> [d])
     [BOUNDARY, LIFECYCLE, VALUE_FLOW])"

definition cell_diagnostics :: "'a bench_setting \<Rightarrow> string \<Rightarrow> runtime_store \<Rightarrow> strategy_diagnostic list option" where
  "cell_diagnostics x i st = (case events_after st i 0 of
       Inl _ \<Rightarrow> None
     | Inr es \<Rightarrow> map_option last_diagnostics
         (those (map (\<lambda>v. bl_diagnostic x (rv_data v)) (filter (\<lambda>v. rv_type v = ''STRATEGY_TERMINATED'') es))))"

definition checks_covered :: "nat list \<Rightarrow> nat" where
  "checks_covered checks = sum_list (map (\<lambda>n. if n = 0 then 1 else n) checks)"

definition agent_fact ::
  "'a bench_setting \<Rightarrow> benchmark_case \<Rightarrow> baseline_type \<Rightarrow> nat \<Rightarrow> attack_run \<Rightarrow> counterexample list \<Rightarrow> nat list \<Rightarrow> nat \<times> nat
   \<Rightarrow> strategy_run list \<Rightarrow> strategy_diagnostic list \<Rightarrow> raw_case_run" where
  "agent_fact x c b n run cxs checks again ss ds =
     (raw_fact c b n (bl_uid x) (case ar_outcome run of None \<Rightarrow> Infra_failed | Some y \<Rightarrow> y)
        (if ar_outcome run \<noteq> Some Infra_failed then NO_FAILURE else INFRA_FAILURE)
        \<lparr>ug_steps = sum_list (map (ug_steps \<circ> sy_usage) ss), ug_tokens = sum_list (map (ug_tokens \<circ> sy_usage) ss),
         ug_cost = sum_list (map (ug_cost \<circ> sy_usage) ss), ug_elapsed = bl_elapsed x\<rparr>)
     \<lparr>rc_attack_run := Some (ar_id run),
      rc_confirmed := set (filter (\<lambda>iid. invariant_name iid \<in> cx_invariant ` set cxs) all_invariants),
      rc_replayed := checks_covered checks, rc_confirmations := length cxs,
      rc_attempts := fst again, rc_successes := snd again, rc_diagnostics := ds\<rparr>"

text \<open>What is read off the store and the sandbox after a pass.\<close>

definition measure_pass :: "'a bench_setting \<Rightarrow> benchmark_case \<Rightarrow> baseline_type \<Rightarrow> nat \<Rightarrow> string \<Rightarrow> runtime_store \<Rightarrow> nat list \<Rightarrow> raw_case_run client" where
  "measure_pass x c b n i st checks = (case get_run st i of
       Inl _ \<Rightarrow> raise_exn
     | Inr run \<Rightarrow> (let cxs = counterexamples st i in
         chain (stability x c cxs) (\<lambda>again.
         chain (or_raise (cell_strategies x i (bc_budget c) strategies st)) (\<lambda>ss.
         chain (or_raise (cell_diagnostics x i st)) (\<lambda>ds.
         or_raise (checked_fact (agent_fact x c b n run cxs checks again ss ds)))))))"

definition failed_pass :: "'a bench_setting \<Rightarrow> benchmark_case \<Rightarrow> baseline_type \<Rightarrow> nat \<Rightarrow> string \<Rightarrow> raw_case_run" where
  "failed_pass x c b n i = (raw_fact c b n (bl_uid x) Infra_failed INFRA_FAILURE (no_usage\<lparr>ug_elapsed := bl_elapsed x\<rparr>))
     \<lparr>rc_attack_run := Some i\<rparr>"

definition agent_baseline :: "'a bench_setting \<Rightarrow> benchmark_case \<Rightarrow> baseline_type \<Rightarrow> nat \<Rightarrow> int \<Rightarrow> raw_case_run client" where
  "agent_baseline x c b n seed w =
     (if b \<notin> {SINGLE_AGENT, MULTI_STRATEGY} then raise_exn w
      else case open_cell x c b n seed of
        (Inl _, _) \<Rightarrow> raise_exn w
      | (Inr run, st) \<Rightarrow>
          (case run_attack (cell_surroundings x b) (searching_strategies b) (ar_id run) (bc_spec c)
              \<lparr>wk_store = st, wk_world = (w, []), wk_tick = 0\<rparr> of (result, s) \<Rightarrow>
            if scan_leakage (bl_scanner x) (map JStr (bl_payloads x s)) [c] \<noteq> [] then raise_exn (fst (wk_world s))
            else (case result of
                Inl _ \<Rightarrow> give (failed_pass x c b n (ar_id run)) (fst (wk_world s))
              | Inr _ \<Rightarrow> measure_pass x c b n (ar_id run) (wk_store s) (snd (wk_world s)) (fst (wk_world s)))))"

text \<open>The executor of a suite.\<close>

definition execute_baseline :: "'a bench_setting \<Rightarrow> benchmark_case \<Rightarrow> baseline_type \<Rightarrow> nat \<Rightarrow> int \<Rightarrow> raw_case_run client" where
  "execute_baseline x c b n seed =
     (if b \<in> {RANDOM_SEARCH, BFS_SEARCH} then search_baseline x c b n seed else agent_baseline x c b n seed)"

section \<open>Ground truth\<close>

definition truth_action :: "json \<Rightarrow> sim_action option" where
  "truth_action raw = (case (jget ''action_type'' raw, jget_default ''arguments'' (JObj []) raw) of
       (JStr name, JObj args) \<Rightarrow> map_option (\<lambda>act.
         \<lparr>sa_action = act, sa_actor = py_str (jget_default ''actor_id'' (JStr ''user-1'') raw),
          sa_target = (if py_truthy (jget ''target_id'' raw) then Some (py_str (jget ''target_id'' raw)) else None),
          sa_arguments = sort_key fst args, sa_key = None\<rparr>) (action_named name)
     | _ \<Rightarrow> None)"

definition parse_ground_truth_actions :: "benchmark_case \<Rightarrow> sim_action list option" where
  "parse_ground_truth_actions c = those (map truth_action (bc_actions c))"

record truth_evidence =
  tv_case :: string
  tv_runs :: "string list"
  tv_successful :: nat
  tv_attempted :: nat

fun truth_replays :: "'a bench_setting \<Rightarrow> benchmark_case \<Rightarrow> sim_action list \<Rightarrow> invariant_id list \<Rightarrow> replay_result list client" where
  "truth_replays x c acts [] = give []"
| "truth_replays x c acts (iid # iids) = chain (case_replay x c acts iid) (\<lambda>r.
     chain (truth_replays x c acts iids) (\<lambda>rs. give (r # rs)))"

definition expected_invariants :: "benchmark_case \<Rightarrow> invariant_id list" where
  "expected_invariants c = filter (\<lambda>iid. iid \<in> bc_invariants c) all_invariants"

definition verify_ground_truth :: "'a bench_setting \<Rightarrow> benchmark_case \<Rightarrow> nat \<Rightarrow> truth_evidence client" where
  "verify_ground_truth x c n =
     (if bc_expected c \<noteq> EXPECT_VULNERABLE \<or> n \<noteq> 3 then raise_exn
      else chain (or_raise (parse_ground_truth_actions c)) (\<lambda>acts.
        chain (truth_replays x c acts (concat (replicate n (expected_invariants c)))) (\<lambda>rs.
        let successes = sum_list (map confirming rs); attempts = n * card (bc_invariants c) in
        if successes \<noteq> attempts then raise_exn
        else give \<lparr>tv_case = bc_id c, tv_runs = map rp_run rs, tv_successful = successes, tv_attempted = attempts\<rparr>)))"

section \<open>Recorded findings\<close>

record historical_case =
  hc_finding :: string
  hc_invariant :: invariant_id
  hc_spec :: rule_spec
  hc_snapshots :: "json list"

definition refund_points_spec :: rule_spec where
  "refund_points_spec = \<lparr>spec_scenario = REFUND_POINTS, participants = [], assets = [],
     rules = [RefundRule \<lparr>allow_partial_refund = True, maximum_refunds_per_order = 2\<rparr>,
       PointsRule \<lparr>spend_amount = \<lparr>m_currency = CNY, m_amount = 1, m_scale = 2\<rparr>, rule_points_granted = 1, revoke_on_refund = True\<rparr>],
     spec_invariant_ids = [], ambiguities = []\<rparr>"

definition recorded_state :: json where
  "recorded_state = JObj [
     (''users'', JList [JObj [(''id'', JStr ''u''), (''points_balance'', JInt 999)]]),
     (''orders'', JList [JObj [(''id'', JStr ''o''), (''paid_amount'', JStr ''100.00''), (''refunded_amount'', JStr ''101.00''),
        (''points_granted'', JInt 999), (''status'', JStr ''PAID'')]]),
     (''coupons'', JList []), (''memberships'', JList []), (''entitlements'', JList [])]"

definition historical_cases :: "historical_case list" where
  "historical_cases = [\<lparr>hc_finding = ''P0-refund-exceeds-paid'', hc_invariant = REFUND_NOT_EXCEED_PAID, hc_spec = refund_points_spec,
     hc_snapshots = [JObj [(''state_hash'', JStr ''before''), (''state'', recorded_state)],
       JObj [(''state_hash'', JStr ''after''), (''state'', recorded_state)]]\<rparr>]"

text \<open>Whether a recorded finding is still found; no value when the oracle raises.\<close>

definition still_violated :: "historical_case \<Rightarrow> bool option" where
  "still_violated h = (case evaluate (hc_spec h) (hc_snapshots h) [] [] of
       None \<Rightarrow> None
     | Some report \<Rightarrow> map_option (\<lambda>f. fd_status f = VIOLATED) (finding report (hc_invariant h)))"

text \<open>No rate without a case.\<close>

definition historical_pass_rate :: "historical_case list option \<Rightarrow> real option option" where
  "historical_pass_rate given = (let cases = (case given of None \<Rightarrow> historical_cases | Some hs \<Rightarrow> hs) in
     if cases = [] then Some None
     else map_option (\<lambda>xs. Some (real (length (filter id xs)) / real (length cases))) (those (map still_violated cases)))"

section \<open>Metrics that may be shown\<close>

definition private_fields :: "string set" where
  "private_fields = {''discovered_case_ids'', ''evaluable_run_ids'', ''false_positive_case_ids'', ''source_run_ids'',
     ''case_ids'', ''false_success_case_ids''}"

fun without_private :: "json \<Rightarrow> json" where
  "without_private (JObj m) = JObj (map (\<lambda>(k, v). (k, without_private v)) (filter (\<lambda>(k, v). k \<notin> private_fields) m))"
| "without_private (JList vs) = JList (map without_private vs)"
| "without_private v = v"

definition public_metric_summary :: "(string \<times> json) list \<Rightarrow> json" where
  "public_metric_summary metrics = without_private (JObj metrics)"

end
