(* ===== verification/Eval_Baseline_Facts.thy ===== *)
theory Eval_Baseline_Facts
  imports Eval_Baselines Worker_Durable
begin

text \<open>
  Lemmas about the executors of a cell: what a confirmed replay says about the axes of the case, the
  counts of a search baseline, and what a pass of the worker leaves in a store of its own: an outcome, and
  no more counterexamples than the oracle checks that were traced have findings.
\<close>

section \<open>Planted defects\<close>

definition declares_axes :: "benchmark_case \<Rightarrow> bool" where
  "declares_axes c \<longleftrightarrow> bc_axes c \<noteq> {} \<or> bc_sandbox c = ''fixed''"

definition planted :: "benchmark_case \<Rightarrow> invariant_id \<Rightarrow> bool" where
  "planted c iid \<longleftrightarrow>
     (iid \<in> {NET_PAID_NON_NEGATIVE, REFUND_NOT_EXCEED_PAID}
       \<longrightarrow> REFUND_AGAINST_ORIGINAL \<in> bc_axes c)
   \<and> (iid = ENTITLEMENT_NON_NEGATIVE \<longrightarrow> ENTITLEMENT_OVERCONSUMPTION \<in> bc_axes c)"

lemma axis_named_name: "axis_named (axis_name a) = Some a"
  by (cases a) (simp_all add: axis_named_def)

lemma axes_named_names: "those (map axis_named (map axis_name axes)) = Some axes"
  by (induction axes) (simp_all add: axis_named_name)

lemma case_profile:
  assumes "declares_axes c" "version_named (bc_sandbox c) = Some v" "axes_named (replay_defect_axes c) = Some defects"
  shows "profile_for_run v defects = bc_axes c"
proof (cases "axis_list (bc_axes c) = []")
  case True
  then have none: "bc_axes c = {}" by (metis set_axis_list list.set(1))
  then have "bc_sandbox c = ''fixed''" using assms(1) by (simp add: declares_axes_def)
  then have "v = FIXED" using assms(2) by (simp add: version_named_def)
  moreover have "defects = None" using assms(3) True by (simp add: replay_defect_axes_def Let_def)
  ultimately show ?thesis using none by (simp add: profile_for_run_def)
next
  case False
  then have "defects = Some (axis_list (bc_axes c))"
    using assms(3) axes_named_names [of "axis_list (bc_axes c)"] by (simp add: replay_defect_axes_def Let_def)
  then show ?thesis by (simp add: profile_for_run_def)
qed

text \<open>A finding of any replay of the case, on the gateway, with its axes.\<close>

lemma finding_planted:
  assumes "declares_axes c"
    and "sandbox_gateway D known spec acts target (bc_sandbox c) (replay_defect_axes c) w = (Some r, w')"
    and "f \<in> set (rp_report r)" "fd_status f = VIOLATED"
  shows "planted c (fd_invariant f)"
proof -
  obtain v defects where d: "version_named (bc_sandbox c) = Some v" "axes_named (replay_defect_axes c) = Some defects"
    "fd_invariant f \<in> {NET_PAID_NON_NEGATIVE, REFUND_NOT_EXCEED_PAID}
        \<longrightarrow> spec_scenario spec = PROMOTION \<and> REFUND_AGAINST_ORIGINAL \<in> profile_for_run v defects"
    "fd_invariant f = ENTITLEMENT_NON_NEGATIVE \<longrightarrow> ENTITLEMENT_OVERCONSUMPTION \<in> profile_for_run v defects"
    using finding_defect [OF assms(2-4)] by (elim exE conjE)
  from d(3,4) show ?thesis unfolding planted_def case_profile [OF assms(1) d(1,2)] by blast
qed

lemma case_replay_planted:
  assumes "declares_axes c" "case_replay x c acts iid w = (Some r, w')" "rp_classification r = CONFIRMED_VIOLATION"
  shows "planted c iid"
proof -
  obtain v defects where d: "version_named (bc_sandbox c) = Some v" "axes_named (replay_defect_axes c) = Some defects"
    and r: "replay (bl_digest x) (bl_known x) (bc_spec c) acts iid v defects w = (Some r, w')"
    using assms(2) by (auto simp: case_replay_def sandbox_gateway_def split: option.splits)
  show ?thesis
    using confirmed_replay_defect [OF r assms(3)] unfolding planted_def case_profile [OF assms(1) d] by blast
qed

lemma client_Some [simp]:
  "give z w = (Some y, w') \<longleftrightarrow> y = z \<and> w' = w" "raise_exn w = (Some y, w') \<longleftrightarrow> False"
  "or_raise v w = (Some y, w') \<longleftrightarrow> v = Some y \<and> w' = w"
  by (auto simp: give_def raise_exn_def or_raise_def split: option.splits)

section \<open>The search baselines\<close>

lemma repeated_replays_bound: "repeated_replays x c acts iid n w = (Some k, w') \<Longrightarrow> k \<le> n"
  by (induction n arbitrary: w w' k) (fastforce simp: chain_Some confirming_def)+

definition tallied :: "benchmark_case \<Rightarrow> tally \<Rightarrow> bool" where
  "tallied c t \<longleftrightarrow> (\<forall>iid \<in> ta_confirmed t. declares_axes c \<longrightarrow> planted c iid) \<and> finite (ta_confirmed t)
     \<and> card (ta_confirmed t) \<le> ta_replayed t \<and> ta_attempts t = 3 * card (ta_confirmed t) \<and> ta_successes t \<le> ta_attempts t"

lemma check_invariants_tallied:
  assumes "check_invariants x c acts iids t w = (Some t', w')" "tallied c t" "distinct iids" "set iids \<inter> ta_confirmed t = {}"
  shows "tallied c t'"
  using assms
proof (induction iids arbitrary: t w)
  case (Cons iid iids)
  obtain r w1 where r: "case_replay x c acts iid w = (Some r, w1)"
    and rest: "(let t1 = t\<lparr>ta_replayed := ta_replayed t + 1\<rparr> in
     if rp_classification r = CONFIRMED_VIOLATION
     then chain (repeated_replays x c acts iid 2) (\<lambda>k. check_invariants x c acts iids
       (t1\<lparr>ta_confirmed := insert iid (ta_confirmed t1), ta_attempts := ta_attempts t1 + 3, ta_successes := ta_successes t1 + 1 + k\<rparr>))
     else check_invariants x c acts iids t1) w1 = (Some t', w')"
    using Cons.prems(1) by (auto simp: chain_Some)
  show ?case
  proof (cases "rp_classification r = CONFIRMED_VIOLATION")
    case True
    then obtain k w2 where k: "repeated_replays x c acts iid 2 w1 = (Some k, w2)"
      "check_invariants x c acts iids (t\<lparr>ta_replayed := ta_replayed t + 1, ta_confirmed := insert iid (ta_confirmed t),
         ta_attempts := ta_attempts t + 3, ta_successes := ta_successes t + 1 + k\<rparr>) w2 = (Some t', w')"
      using rest by (auto simp: chain_Some Let_def)
    have "k \<le> 2" by (rule repeated_replays_bound [OF k(1)])
    moreover have "declares_axes c \<longrightarrow> planted c iid" using case_replay_planted [OF _ r True] by blast
    ultimately have "tallied c (t\<lparr>ta_replayed := ta_replayed t + 1, ta_confirmed := insert iid (ta_confirmed t),
         ta_attempts := ta_attempts t + 3, ta_successes := ta_successes t + 1 + k\<rparr>)"
      using Cons.prems(2,4) by (auto simp: tallied_def)
    then show ?thesis using Cons.prems(3,4) by (intro Cons.IH [OF k(2)]) auto
  next
    case False
    then have "check_invariants x c acts iids (t\<lparr>ta_replayed := ta_replayed t + 1\<rparr>) w1 = (Some t', w')"
      using rest by (simp add: Let_def)
    from Cons.IH [OF this] show ?thesis using Cons.prems(2-4) by (simp add: tallied_def)
  qed
qed simp

lemma distinct_replayed: "distinct (replayed_invariants sc)"
  by (cases sc) simp_all

lemma tally_facts:
  assumes "check_invariants x c acts (replayed_invariants sc) no_tally w = (Some t, w')"
  shows "tallied c t" "raw_valid (search_fact x c b n acts t)"
proof -
  show t: "tallied c t"
    by (rule check_invariants_tallied [OF assms]) (simp_all add: no_tally_def tallied_def distinct_replayed)
  show "raw_valid (search_fact x c b n acts t)"
    using t by (simp add: tallied_def raw_valid_def search_fact_def raw_fact_def)
qed

section \<open>A pass on a store of its own\<close>

text \<open>A search leaves the run and its counterexamples as they are.\<close>

definition run_as :: "string \<Rightarrow> attack_run \<Rightarrow> runtime_store \<Rightarrow> bool" where
  "run_as i run st \<longleftrightarrow> st_runs st i = Some run \<and> counterexamples st i = []"

definition alone :: "'w surroundings \<Rightarrow> bool" where
  "alone e \<longleftrightarrow> (\<forall>k. wr_others e k = []) \<and> (\<forall>p k. \<not> wr_fault e p k)"

lemma run_as_frame: "run_as i run st \<Longrightarrow> st_runs st' i = st_runs st i \<Longrightarrow> st_counterexamples st' = st_counterexamples st \<Longrightarrow> run_as i run st'"
  by (simp add: run_as_def counterexamples_def)

interpretation calm: search_rely "\<lambda>st. alone e \<longrightarrow> run_as i run st" e i
proof unfold_locales
  fix st ty b uid assume "alone e \<longrightarrow> run_as i run st"
  moreover have "st_runs (snd (ensure_strategy i ty b uid st)) = st_runs st"
    "st_counterexamples (snd (ensure_strategy i ty b uid st)) = st_counterexamples st"
    by (simp_all add: ensure_strategy_def Let_def split: option.splits)
  ultimately show "alone e \<longrightarrow> run_as i run (snd (ensure_strategy i ty b uid st))" by (simp add: run_as_def counterexamples_def)
qed (auto simp: alone_def run_as_def counterexamples_def update_strategy_def save_checkpoint_def Let_def append_event_def)

lemma calm_still:
  assumes "alone e" "retains (\<lambda>st. alone e \<longrightarrow> run_as i run st) m" "run_as i run (wk_store s)" "m s = (x, s')"
  shows "run_as i run (wk_store s')"
  using retainsD [OF assms(2) _ assms(4)] assms(1,3) by blast

definition searches :: "string \<Rightarrow> 'w worker \<Rightarrow> bool" where
  "searches i s \<longleftrightarrow> (\<exists>run. run_as i run (wk_store s) \<and> ar_status run = Searching)"

text \<open>What a pass that returns leaves: a confirmation with counterexamples the traces account for, or none.\<close>

definition pass_settled :: "string \<Rightarrow> traced worker \<Rightarrow> bool" where
  "pass_settled i s \<longleftrightarrow> (\<exists>run. st_runs (wk_store s) i = Some run
     \<and> (ar_outcome run = Some Confirmed_violation \<and> counterexamples (wk_store s) i \<noteq> []
          \<and> length (counterexamples (wk_store s) i) \<le> checks_covered (snd (wk_world s))
        \<or> ar_outcome run \<in> {Some Unconfirmed_candidate, Some No_violation_within_budget} \<and> counterexamples (wk_store s) i = []))"

lemma set_status_moves:
  assumes "set_status e i a b out s = (Inr moved, s')" "st_runs (wk_store s) i = Some run" "ar_status run = a"
  shows "st_runs (wk_store s') i = Some (run\<lparr>ar_status := b, ar_outcome := out\<rparr>)
    \<and> counterexamples (wk_store s') i = counterexamples (wk_store s) i \<and> wk_world s' = wk_world s"
  using assms
  by (auto simp: set_status_def andthen_Inr the_time_def storing_def compare_and_set_status_def counterexamples_def append_event_def
      split: prod.splits sum.splits if_splits)

lemma keep_counterexample_adds:
  assumes "keep_counterexample cx s = (Inr y, s')"
  shows "st_runs (wk_store s') = st_runs (wk_store s) \<and> wk_world s' = wk_world s
    \<and> length (counterexamples (wk_store s') i) \<le> Suc (length (counterexamples (wk_store s) i))"
  using assms by (auto simp: keep_counterexample_def storing_def save_counterexample_def counterexamples_def split: option.splits)

lemma quiet_steps:
  "waits e s = (Inr y, s') \<Longrightarrow> alone e \<Longrightarrow> wk_store s' = wk_store s \<and> wk_world s' = wk_world s"
  "fresh_uid e s = (Inr u, s') \<Longrightarrow> wk_store s' = wk_store s \<and> wk_world s' = wk_world s"
  "the_time e s = (Inr q, s') \<Longrightarrow> wk_store s' = wk_store s \<and> wk_world s' = wk_world s"
  "faulty e p s = (Inr z, s') \<Longrightarrow> wk_store s' = wk_store s \<and> wk_world s' = wk_world s"
  "reading g s = (Inr v, s') \<Longrightarrow> s' = s \<and> g (wk_store s) = Inr v"
  "asks h s = (Inr m, s') \<Longrightarrow> wk_store s' = wk_store s \<and> h (wk_world s) = (Some m, wk_world s')"
  by (auto simp: waits_def alone_def fresh_uid_def the_time_def faulty_def reading_def storing_def asks_def split: if_splits prod.splits sum.splits option.splits)

lemma cell_alone: "alone (cell_surroundings x b)"
  by (simp add: alone_def cell_surroundings_def Let_def)

lemma cell_minimizes: "wr_minimize (cell_surroundings x b) spec acts iid v axes w = (Some m, w') \<Longrightarrow> snd w' = snd w"
  by (auto simp: cell_surroundings_def Let_def untraced_def split: prod.splits)

lemma cell_replays:
  assumes "wr_replay (cell_surroundings x b) spec acts iid v axes w = (Some r, w')"
  shows "sandbox_gateway (bl_digest x) (bl_known x) spec acts iid v axes (fst w) = (Some r, fst w')" "snd w' = snd w @ [length (rp_report r)]"
  using assms by (auto simp: cell_surroundings_def Let_def recording_def split: prod.splits option.splits)

lemma save_confirmed_counts:
  assumes "save_confirmed (cell_surroundings x b) i spec run acts rp iids s = (Inr y, s')"
  shows "st_runs (wk_store s') = st_runs (wk_store s) \<and> snd (wk_world s') = snd (wk_world s)
    \<and> length (counterexamples (wk_store s') i) \<le> length (counterexamples (wk_store s) i) + length iids"
  using assms
proof (induction iids arbitrary: s)
  case (Cons iid iids)
  obtain small s1 y2 s2 uid s3 now s4 y5 s5 where
    m: "asks (wr_minimize (cell_surroundings x b) spec acts iid (ar_sandbox_version run) (axes_or_none (ar_axes run))) s = (Inr small, s1)"
    and quiet: "waits (cell_surroundings x b) s1 = (Inr y2, s2)" "fresh_uid (cell_surroundings x b) s2 = (Inr uid, s3)"
      "the_time (cell_surroundings x b) s3 = (Inr now, s4)"
    and k: "keep_counterexample (new_counterexample (cell_surroundings x b) i acts rp iid small uid now) s4 = (Inr y5, s5)"
    and rest: "save_confirmed (cell_surroundings x b) i spec run acts rp iids s5 = (Inr y, s')"
    using Cons.prems by (auto simp: andthen_Inr)
  have "wk_store s4 = wk_store s" "snd (wk_world s4) = snd (wk_world s)"
    using quiet_steps(6) [OF m] quiet_steps(1) [OF quiet(1) cell_alone] quiet_steps(2) [OF quiet(2)] quiet_steps(3) [OF quiet(3)]
      cell_minimizes [OF conjunct2 [OF quiet_steps(6) [OF m]]] by simp_all
  then show ?case using keep_counterexample_adds [OF k, of i] Cons.IH [OF rest] by auto
qed simp

definition turned :: "string \<Rightarrow> turn_end \<Rightarrow> traced worker \<Rightarrow> bool" where
  "turned i x s \<longleftrightarrow> (case x of Ends \<Rightarrow> pass_settled i s | _ \<Rightarrow> searches i s)"

lemma conclude_settles:
  assumes "conclude_replay (cell_surroundings x b) i spec run0 p acts rp s = (Inr y, s')"
    and "run_as i run (wk_store s)" "ar_status run = Replaying" "length (rp_report rp) \<le> checks_covered (snd (wk_world s))"
  shows "turned i y s'"
proof (cases "violations (rp_report rp) = []")
  case True
  then obtain moved where "set_status (cell_surroundings x b) i Replaying Searching None s = (Inr moved, s')" "y = Continues (p\<lparr>ps_unconfirmed := True\<rparr>)"
    using assms(1) by (auto simp: conclude_replay_def andthen_Inr)
  then show ?thesis using set_status_moves assms(2,3) by (fastforce simp: turned_def searches_def run_as_def)
next
  case False
  let ?iids = "map fd_invariant (violations (rp_report rp))"
  obtain u s1 z s2 moved where saved: "save_confirmed (cell_surroundings x b) i spec run0 acts rp ?iids s = (Inr u, s1)"
    and f: "faulty (cell_surroundings x b) AFTER_ORACLE_PERSIST s1 = (Inr z, s2)"
    and moved: "set_status (cell_surroundings x b) i Replaying Run_completed (Some Confirmed_violation) s2 = (Inr moved, s')" and y: "y = Ends"
    using assms(1) False by (auto simp: conclude_replay_def confirm_run_def andthen_Inr)
  have counts: "st_runs (wk_store s1) = st_runs (wk_store s)" "snd (wk_world s1) = snd (wk_world s)"
    "length (counterexamples (wk_store s1) i) \<le> length (counterexamples (wk_store s) i) + length ?iids"
    using save_confirmed_counts [OF saved] by simp_all
  have "counterexamples (wk_store s1) i \<noteq> []"
    using save_confirmed_leaves [where s = s and s' = s1] saved False by (cases u) simp
  moreover have "length ?iids \<le> length (rp_report rp)" by (simp add: violations_def)
  moreover have "wk_store s2 = wk_store s1" "wk_world s2 = wk_world s1" using quiet_steps(4) [OF f] by simp_all
  moreover have "st_runs (wk_store s') i = Some (run\<lparr>ar_status := Run_completed, ar_outcome := Some Confirmed_violation\<rparr>)
    \<and> counterexamples (wk_store s') i = counterexamples (wk_store s2) i \<and> wk_world s' = wk_world s2"
    by (rule set_status_moves [OF moved]) (use calculation(3) counts(1) assms(2,3) in \<open>simp_all add: run_as_def\<close>)
  ultimately show ?thesis using counts assms(2,4) y by (auto simp: turned_def pass_settled_def run_as_def)
qed

lemma checks_covered_last: "n \<le> checks_covered (checks @ [n])"
  by (simp add: checks_covered_def)

lemma replay_settles:
  assumes "replay_candidate (cell_surroundings x b) i spec run0 p c s = (Inr y, s')" "run_as i run (wk_store s)" "ar_status run = Replaying"
  shows "turned i y s'"
proof -
  obtain rp s1 u s2 z s3 where r: "asks (wr_replay (cell_surroundings x b) spec (fst c) (snd c) (ar_sandbox_version run0) (axes_or_none (ar_axes run0))) s = (Inr rp, s1)"
    and quiet: "waits (cell_surroundings x b) s1 = (Inr u, s2)" "faulty (cell_surroundings x b) BEFORE_ORACLE_PERSIST s2 = (Inr z, s3)"
    and rest: "conclude_replay (cell_surroundings x b) i spec run0 p (fst c) rp s3 = (Inr y, s')"
    using assms(1) by (auto simp: replay_candidate_def andthen_Inr)
  have "wk_store s3 = wk_store s" "snd (wk_world s3) = snd (wk_world s) @ [length (rp_report rp)]"
    using quiet_steps(6) [OF r] quiet_steps(1) [OF quiet(1) cell_alone] quiet_steps(4) [OF quiet(2)]
      cell_replays(2) [OF conjunct2 [OF quiet_steps(6) [OF r]]] by simp_all
  then show ?thesis using conclude_settles [OF rest] assms(2,3) checks_covered_last by simp
qed

lemma take_candidate_settles:
  assumes "take_candidate (cell_surroundings x b) i spec run0 p c s = (Inr y, s')" "searches i s"
  shows "turned i y s'"
proof (cases "candidate_key (cell_surroundings x b) (fst c) (snd c) \<in> ps_keys p")
  case True
  then show ?thesis using assms by (simp add: take_candidate_def turned_def)
next
  case False
  obtain run where run: "run_as i run (wk_store s)" "ar_status run = Searching" using assms(2) by (auto simp: searches_def)
  obtain moved s1 where moved: "set_status (cell_surroundings x b) i Searching Replaying None s = (Inr moved, s1)"
    and rest: "replay_candidate (cell_surroundings x b) i spec run0 (p\<lparr>ps_keys := insert (candidate_key (cell_surroundings x b) (fst c) (snd c)) (ps_keys p)\<rparr>) c s1
      = (Inr y, s')"
    using assms(1) False run by (auto simp: take_candidate_def Let_def andthen_Inr get_run_def run_as_def dest!: quiet_steps(5))
  have "run_as i (run\<lparr>ar_status := Replaying, ar_outcome := None\<rparr>) (wk_store s1)"
    using set_status_moves [OF moved] run by (simp add: run_as_def)
  from replay_settles [OF rest this] show ?thesis by simp
qed

lemma searches_kept:
  assumes "alone e" "\<And>run. retains (\<lambda>st. alone e \<longrightarrow> run_as i run st) m" "searches i s" "m s = (x, s')"
  shows "searches i s'"
  using calm_still [OF assms(1,2) _ assms(4)] assms(3) unfolding searches_def by blast

lemma andthen_reading: "g (wk_store s) = Inr v \<Longrightarrow> andthen (reading g) f s = f v s"
  by (simp add: andthen_def reading_def storing_def)

definition turn_rest ::
  "'a bench_setting \<Rightarrow> baseline_type \<Rightarrow> strategy_type list \<Rightarrow> string \<Rightarrow> rule_spec \<Rightarrow> attack_run \<Rightarrow> pass \<Rightarrow> strategy_type \<Rightarrow> (traced, turn_end) work" where
  "turn_rest x b searching i spec run p ty = (let e = cell_surroundings x b in
     andthen (ensured e searching i run ty (ps_used p) (ps_left p)) (\<lambda>strategy.
     andthen (reading (\<lambda>st. get_run st i)) (\<lambda>current.
     andthen (reading (\<lambda>st. Inr (load_checkpoint st (sy_id strategy)))) (\<lambda>saved.
     andthen (candidate_of e i spec (ar_status current) strategy saved) (\<lambda>found.
     andthen (ensured e searching i run ty (ps_used p) (ps_left p)) (\<lambda>spent.
     let p1 = p\<lparr>ps_used := add_usage (ps_used p) (sy_usage spent),
                ps_left := (if ty \<in> set searching then ps_left p - 1 else ps_left p)\<rparr>
     in case found of None \<Rightarrow> pure (Continues p1) | Some c \<Rightarrow> take_candidate e i spec run p1 c))))))"

lemma strategy_turn_settles:
  assumes "strategy_turn (cell_surroundings x b) searching i spec run0 p ty s = (Inr y, s')" "searches i s"
  shows "turned i y s'"
proof -
  let ?e = "cell_surroundings x b"
  note keep = searches_kept [OF cell_alone]
  obtain now s1 where now: "the_time ?e s = (Inr now, s1)" by (simp add: the_time_def)
  then have s1: "searches i s1" using quiet_steps(3) [OF now] assms(2) by (simp add: searches_def)
  show ?thesis
  proof (cases "bg_time (ar_budget run0) \<le> now - ar_created run0")
    case True
    then show ?thesis using assms(1) now s1 by (auto simp: strategy_turn_def andthen_def pure_def turned_def)
  next
    case False
    have "is_cancel_requested (wk_store s1) i = Inr False"
      using s1 by (auto simp: searches_def run_as_def is_cancel_requested_def get_run_def)
    moreover have "strategy_turn ?e searching i spec run0 p ty s = (if bg_time (ar_budget run0) \<le> now - ar_created run0 then pure (Breaks p)
      else andthen (reading (\<lambda>st. is_cancel_requested st i)) (\<lambda>cancelled. if cancelled then cancels ?e i
        else turn_rest x b searching i spec run0 p ty)) s1"
      unfolding strategy_turn_def turn_rest_def Let_def [of ?e] andthen_def [of "the_time ?e"] by (simp only: now prod.case sum.case)
    ultimately have "turn_rest x b searching i spec run0 p ty s1 = (Inr y, s')"
      using assms(1) False by (simp add: andthen_reading)
    then obtain strategy s2 current s3 saved s4 found s5 spent s6 where
      one: "ensured ?e searching i run0 ty (ps_used p) (ps_left p) s1 = (Inr strategy, s2)"
      and reads: "reading (\<lambda>st. get_run st i) s2 = (Inr current, s3)"
        "reading (\<lambda>st. Inr (load_checkpoint st (sy_id strategy))) s3 = (Inr saved, s4)"
      and two: "candidate_of ?e i spec (ar_status current) strategy saved s4 = (Inr found, s5)"
      and three: "ensured ?e searching i run0 ty (ps_used p) (ps_left p) s5 = (Inr spent, s6)"
      and rest: "(let p1 = p\<lparr>ps_used := add_usage (ps_used p) (sy_usage spent),
                    ps_left := (if ty \<in> set searching then ps_left p - 1 else ps_left p)\<rparr>
         in case found of None \<Rightarrow> pure (Continues p1) | Some c \<Rightarrow> take_candidate ?e i spec run0 p1 c) s6 = (Inr y, s')"
      unfolding turn_rest_def Let_def [of "cell_surroundings x b"] andthen_Inr by (elim exE conjE) (rule that)
    have "searches i s2" by (rule keep [OF calm.retains_ensured s1 one])
    then have "searches i s4" using quiet_steps(5) [OF reads(1)] quiet_steps(5) [OF reads(2)] by simp
    then have "searches i s5" by (rule keep [OF calm.retains_candidate _ two])
    then have "searches i s6" by (rule keep [OF calm.retains_ensured _ three])
    then show ?thesis using rest take_candidate_settles by (cases found) (auto simp: turned_def Let_def)
  qed
qed

lemma strategy_loop_settles:
  "\<lbrakk>strategy_loop (cell_surroundings x b) searching i spec run0 tys p s = (Inr y, s'); searches i s\<rbrakk>
    \<Longrightarrow> case y of None \<Rightarrow> pass_settled i s' | Some _ \<Rightarrow> searches i s'"
proof (induction tys arbitrary: p s)
  case (Cons ty tys)
  then obtain z s1 where z: "strategy_turn (cell_surroundings x b) searching i spec run0 p ty s = (Inr z, s1)"
    and rest: "(case z of Ends \<Rightarrow> pure None | Breaks q \<Rightarrow> pure (Some q)
     | Continues q \<Rightarrow> strategy_loop (cell_surroundings x b) searching i spec run0 tys q) s1 = (Inr y, s')"
    by (auto simp: andthen_Inr)
  from strategy_turn_settles [OF z Cons.prems(2)] rest Cons.IH show ?case
    by (cases z) (auto simp: turned_def)
qed simp

lemma search_all_settles:
  assumes "search_all (cell_surroundings x b) searching i spec run0 s = (Inr y, s')" "searches i s"
  shows "pass_settled i s'"
proof -
  obtain z s1 where z: "strategy_loop (cell_surroundings x b) searching i spec run0 strategies (first_pass searching) s = (Inr z, s1)"
    and rest: "(case z of None \<Rightarrow> pure ()
     | Some p \<Rightarrow> andthen (reading (\<lambda>st. get_run st i)) (\<lambda>current.
         if ar_status current = Searching
         then andthen (set_status (cell_surroundings x b) i Searching Run_completed
           (Some (if ps_unconfirmed p then Unconfirmed_candidate else No_violation_within_budget))) (\<lambda>_. pure ())
         else pure ())) s1 = (Inr y, s')"
    using assms(1) by (auto simp: search_all_def andthen_Inr)
  show ?thesis
  proof (cases z)
    case None
    then show ?thesis using strategy_loop_settles [OF z assms(2)] rest by simp
  next
    case (Some p)
    then obtain run where run: "run_as i run (wk_store s1)" "ar_status run = Searching"
      using strategy_loop_settles [OF z assms(2)] by (auto simp: searches_def)
    let ?out = "if ps_unconfirmed p then Unconfirmed_candidate else No_violation_within_budget"
    obtain moved where moved: "set_status (cell_surroundings x b) i Searching Run_completed (Some ?out) s1 = (Inr moved, s')"
      using rest Some run by (auto simp: andthen_Inr get_run_def run_as_def dest!: quiet_steps(5))
    then show ?thesis using set_status_moves [OF moved] run by (simp add: pass_settled_def run_as_def)
  qed
qed

lemma pass_settles:
  assumes "run_attack (cell_surroundings x b) searching i spec s = (Inr y, s')" "run_as i run (wk_store s)" "ar_status run = Ready"
  shows "pass_settled i s'"
proof -
  let ?e = "cell_surroundings x b"
  obtain moved s1 where moved: "set_status ?e i Ready Searching None s = (Inr moved, s1)"
    and after: "(if \<not> moved then pure () else andthen (reading (\<lambda>st. Inr (counterexamples st i))) (\<lambda>known.
         if ar_status run = Replaying \<and> known \<noteq> []
         then andthen (set_status ?e i Replaying Run_completed (Some Confirmed_violation)) (\<lambda>_. pure ())
         else guarded ?e i (search_all ?e searching i spec run))) s1 = (Inr y, s')"
    using assms by (auto simp: run_attack_def admit_def andthen_Inr get_run_def run_as_def dest!: quiet_steps(5))
  have rest: "(if \<not> moved then pure () else guarded ?e i (search_all ?e searching i spec run)) s1 = (Inr y, s')"
    using after assms(3) by (auto simp: andthen_Inr dest!: quiet_steps(5) split: if_splits)
  have s1: "searches i s1" using set_status_moves [OF moved] assms(2,3) by (simp add: searches_def run_as_def)
  have moved: "moved"
    using moved assms(2,3)
    by (auto simp: set_status_def andthen_Inr the_time_def storing_def compare_and_set_status_def run_as_def
        split: prod.splits sum.splits if_splits option.splits)
  obtain z s2 where z: "search_all ?e searching i spec run s1 = (z, s2)" by force
  have fails: "infra_failed ?e i s2 \<noteq> (Inr y, s')" by (auto simp: infra_failed_def andthen_Inr)
  from rest moved z fails have "z = Inr y \<and> s2 = s'"
    by (auto simp: guarded_def split: sum.splits stop.splits)
  then show ?thesis using search_all_settles [OF _ s1] z by simp
qed

section \<open>The cell\<close>

text \<open>Every strategy that has a key is there.\<close>

definition keys_resolve :: "runtime_store \<Rightarrow> bool" where
  "keys_resolve st \<longleftrightarrow> (\<forall>k \<in> ran (st_keys st). st_strategies st k \<noteq> None)"

interpretation resolved: store_rely "\<lambda>st. alone e \<longrightarrow> keys_resolve st" e i v axes
proof unfold_locales
  fix st ty b uid assume "alone e \<longrightarrow> keys_resolve st"
  then show "alone e \<longrightarrow> keys_resolve (snd (ensure_strategy i ty b uid st))"
    by (auto simp: keys_resolve_def ensure_strategy_def Let_def ran_def split: option.splits)
next
  fix st out s t now assume "alone e \<longrightarrow> keys_resolve st"
  then show "alone e \<longrightarrow> keys_resolve (snd (compare_and_set_status i s t out now st))"
    by (auto simp: keys_resolve_def compare_and_set_status_def append_event_def split: option.splits)
qed (auto simp: alone_def keys_resolve_def update_strategy_def save_checkpoint_def Let_def append_event_def save_counterexample_def
    split: option.splits)

lemma ensure_there:
  assumes "keys_resolve st"
  shows "\<exists>s st'. ensure_strategy i ty b uid st = (Inr s, st') \<and> keys_resolve st'"
proof (cases "st_keys st (i, ty)")
  case None
  then show ?thesis using assms by (auto simp: ensure_strategy_def Let_def keys_resolve_def ran_def)
next
  case (Some k)
  then obtain s where "st_strategies st k = Some s" using assms by (auto simp: keys_resolve_def ran_def)
  then show ?thesis using Some assms by (simp add: ensure_strategy_def of_option_def)
qed

lemma cell_strategies_there: "keys_resolve st \<Longrightarrow> \<exists>ss. cell_strategies x i b tys st = Some ss"
proof (induction tys arbitrary: st)
  case (Cons ty tys)
  obtain s st' where s: "ensure_strategy i ty b (bl_strategy_uid x ty) st = (Inr s, st')" "keys_resolve st'"
    using ensure_there [OF Cons.prems] by blast
  then show ?case using Cons.IH [OF s(2)] by auto
qed simp

lemma stability_counts:
  "stability x c cxs w = (Some (a, k), w') \<Longrightarrow> a = 3 * length cxs \<and> k \<le> a \<and> (\<forall>cx \<in> set cxs. \<exists>iid. cx_invariant cx = invariant_name iid)"
proof (induction cxs arbitrary: w a k w')
  case (Cons cx cxs)
  then obtain iid acts k1 w1 a2 k2 w2 where iid: "invariant_named (cx_invariant cx) = Some iid"
    and one: "repeated_replays x c acts iid 3 w = (Some k1, w1)" and rest: "stability x c cxs w1 = (Some (a2, k2), w2)"
    and sums: "a = a2 + 3" "k = k2 + k1"
    by (fastforce simp: chain_Some)
  have "invariant_name iid = cx_invariant cx" using iid unfolding invariant_named_def find_Some_iff by blast
  then have "\<exists>iid. cx_invariant cx = invariant_name iid" by metis
  then show ?case using Cons.IH [OF rest] repeated_replays_bound [OF one] sums by simp
qed simp

lemma opened_cell:
  assumes "open_cell x c b n seed = (Inr run, st)"
  shows "run_as (ar_id run) run st" "ar_status run = Ready" "ar_outcome run = None" "ar_sandbox_version run = bc_sandbox c"
    "ar_axes run = cell_axes c" "keys_resolve st"
  using assms
  by (auto simp: open_cell_def store_create_def empty_store_def Let_def append_event_def run_as_def counterexamples_def keys_resolve_def)

lemma cell_axes_named: "axes_or_none (cell_axes c) = replay_defect_axes c"
  by (simp add: cell_axes_def axes_or_none_def replay_defect_axes_def Let_def)

lemma all_invariants_all: "iid \<in> set all_invariants"
  by (cases iid) (simp_all add: all_invariants_def)

text \<open>The fact of a pass that returned.\<close>

lemma agent_fact_coherent:
  assumes "pass_settled i s" "st_runs (wk_store s) i = Some run"
    and "stability x c (counterexamples (wk_store s) i) w = (Some again, w')"
  shows "let f = agent_fact x c b n run (counterexamples (wk_store s) i) (snd (wk_world s)) again ss ds in
    raw_valid f \<and> (rc_outcome f = Confirmed_violation \<longleftrightarrow> rc_confirmed f \<noteq> {}) \<and> rc_attempts f = 3 * rc_confirmations f
    \<and> rc_failure f = NO_FAILURE"
proof -
  let ?cxs = "counterexamples (wk_store s) i"
  have again: "fst again = 3 * length ?cxs" "snd again \<le> fst again" "\<forall>cx \<in> set ?cxs. \<exists>iid. cx_invariant cx = invariant_name iid"
    using stability_counts [of x c ?cxs w "fst again" "snd again" w'] assms(3) by simp_all
  have some: "set (filter (\<lambda>iid. invariant_name iid \<in> cx_invariant ` set ?cxs) all_invariants) \<noteq> {} \<longleftrightarrow> ?cxs \<noteq> []"
  proof
    assume "?cxs \<noteq> []"
    then obtain cx where "cx \<in> set ?cxs" by (cases ?cxs) auto
    moreover then obtain iid where "invariant_name iid = cx_invariant cx" using again(3) by metis
    ultimately show "set (filter (\<lambda>iid. invariant_name iid \<in> cx_invariant ` set ?cxs) all_invariants) \<noteq> {}"
      using all_invariants_all [of iid] by auto
  qed auto
  from assms(1,2) consider
      "ar_outcome run = Some Confirmed_violation" "?cxs \<noteq> []" "length ?cxs \<le> checks_covered (snd (wk_world s))"
    | "ar_outcome run \<in> {Some Unconfirmed_candidate, Some No_violation_within_budget}" "?cxs = []"
    unfolding pass_settled_def by auto
  then show ?thesis
    using again some by cases (auto simp: agent_fact_def raw_fact_def raw_valid_def)
qed

end
