(* ===== verification/Eval_Demo.thy ===== *)
theory Eval_Demo
  imports Eval_Baseline_Facts Worker_Demo
begin

text \<open>
  A case with a planted defect: its ground truth buys three uses and consumes four, every replay of it on
  a working network confirms the violation, and its cells under a search and under an agent out of time.
\<close>

section \<open>The case\<close>

definition truth_json :: "json list" where
  "truth_json =
     [JObj [(''action_type'', JStr ''CREATE_USER''), (''arguments'', JObj [(''initial_balance'', JInt 100)])],
      JObj [(''action_type'', JStr ''ACTIVATE_MEMBERSHIP''), (''arguments'', JObj [(''paid_amount'', JInt 30), (''quantity'', JInt 3)])],
      JObj [(''action_type'', JStr ''CONSUME_ENTITLEMENT''), (''target_id'', JStr ''entitlement-1''), (''arguments'', JObj [(''quantity'', JInt 4)])]]"

definition truth_case :: "budget \<Rightarrow> benchmark_case" where
  "truth_case b = \<lparr>bc_id = ''case'', bc_benchmark = ''1'', bc_visibility = DEVELOPMENT, bc_scenario = MEMBERSHIP_ENTITLEMENT, bc_tags = [],
     bc_budget = b, bc_rule_version = ''1'', bc_scenario_version = ''1'', bc_sandbox = ''fixed'', bc_axes = {ENTITLEMENT_OVERCONSUMPTION},
     bc_oracle = ''1'', bc_spec = over_spec, bc_expected = EXPECT_VULNERABLE, bc_invariants = {ENTITLEMENT_NON_NEGATIVE},
     bc_reason = '''', bc_replays = [True, True, True], bc_actions = truth_json\<rparr>"

definition truth_trace :: "sim_action list" where
  "truth_trace =
     [build_action CREATE_USER None None [(''initial_balance'', JInt 100)],
      build_action ACTIVATE_MEMBERSHIP None None [(''paid_amount'', JInt 30), (''quantity'', JInt 3)],
      build_action CONSUME_ENTITLEMENT (Some ''entitlement-1'') None [(''quantity'', JInt 4)]]"

lemma truth_names:
  "action_named ''CREATE_USER'' = Some CREATE_USER" "action_named ''ACTIVATE_MEMBERSHIP'' = Some ACTIVATE_MEMBERSHIP"
  "action_named ''CONSUME_ENTITLEMENT'' = Some CONSUME_ENTITLEMENT"
  by (simp_all add: action_named_def)

lemma truth_parsed: "parse_ground_truth_actions (truth_case b) = Some truth_trace"
  by (simp add: parse_ground_truth_actions_def truth_case_def truth_json_def truth_action_def truth_names truth_trace_def build_action_def)

lemma truth_axes: "replay_defect_axes (truth_case b) = Some [''ENTITLEMENT_OVERCONSUMPTION'']"
  by (simp add: replay_defect_axes_def truth_case_def axis_list_def ordered_axes_def)

lemma truth_case_valid: "case_valid (truth_case b)" "declares_axes (truth_case b)"
  by (simp_all add: case_valid_def truth_case_def truth_json_def axis_list_def ordered_axes_def unreachable_axes_def declares_axes_def)

section \<open>Its replay\<close>

lemma report_complete: "evaluate spec snaps receipts events = Some report \<Longrightarrow> \<exists>f. finding report iid = Some f"
  by (cases iid) (auto simp: evaluate_def finding_def dest!: check_names more_check_names split: option.splits)

definition truth_log :: "event_row list" where
  "truth_log =
     [demo_event 1 ''USER'' ''user-1'' USER_CREATED [(''user_id'', JStr ''user-1'')] ''replay-0'',
      demo_event 2 ''MEMBERSHIP'' ''membership-1'' MEMBERSHIP_ACTIVATED
        [(''membership_id'', JStr ''membership-1''), (''user_id'', JStr ''user-1'')] ''replay-1'',
      demo_event 3 ''ENTITLEMENT'' ''entitlement-1'' ENTITLEMENT_GRANTED
        [(''entitlement_id'', JStr ''entitlement-1''), (''quantity'', JInt 3)] ''replay-1'']"

definition truth_receipts :: "receipt_row list" where
  "truth_receipts =
     [demo_receipt ''replay-0'' CREATE_USER [100] [(''user_id'', JStr ''user-1''), (''balance'', JStr (amount_text 100))],
      demo_receipt ''replay-1'' ACTIVATE_MEMBERSHIP [30] [(''membership_id'', JStr ''membership-1''),
        (''entitlement_id'', JStr ''entitlement-1''), (''quantity'', JInt 3)]]"

definition truth_first :: run_space where
  "truth_first = overdone (demo_space MEMBERSHIP_ENTITLEMENT (take 1 truth_log) (take 1 truth_receipts) [demo_user 100 0 INACTIVE 0] [])"

definition truth_second :: run_space where
  "truth_second = overdone ((demo_space MEMBERSHIP_ENTITLEMENT truth_log truth_receipts [demo_user 70 0 ACTIVE 1] [])
     \<lparr>rs_memberships := [demo_membership MActive 0], rs_entitlements := [demo_entitlement 0 0 GRANTED 0]\<rparr>)"

lemmas truth_simps = truth_log_def truth_receipts_def demo_membership_def demo_entitlement_def available_quantity_def overdone_def
  over_command_def eval_simps

lemma truth_transact_1:
  "transact D demo_amb (over_command CREATE_USER None [(''initial_balance'', JInt 100)] ''replay-0'')
     (overdone (empty_run ''run'' MEMBERSHIP_ENTITLEMENT FIXED None)) = Some (truth_receipts ! 0, truth_first)"
  by (simp add: truth_first_def truth_simps create_user_def)

lemma truth_transact_2:
  "transact D demo_amb (over_command ACTIVATE_MEMBERSHIP None [(''paid_amount'', JInt 30), (''quantity'', JInt 3)] ''replay-1'')
     truth_first = Some (truth_receipts ! 1, truth_second)"
  by (simp add: truth_first_def truth_second_def truth_simps activate_membership_def)

lemma truth_transact_3:
  "\<exists>r run. transact D demo_amb (over_command CONSUME_ENTITLEMENT (Some ''entitlement-1'') [(''quantity'', JInt 4)] ''replay-2'')
     truth_second = Some (r, run) \<and> rs_entitlements run = [demo_entitlement 4 0 CONSUMED 1]
     \<and> rs_id run = ''run'' \<and> (\<forall>e \<in> set (rs_events run). ev_type e \<notin> {POINTS_GRANTED, POINTS_REVOKED})"
  by (simp add: truth_second_def truth_simps consume_entitlement_def)

lemma digit_two: "digit_char (Suc (Suc 0)) = CHR ''2''"
  using digit_chars by (simp add: eval_nat_numeral)

lemma truth_commands:
  "replay_command t 0 (build_action CREATE_USER None None [(''initial_balance'', JInt 100)])
    = over_command CREATE_USER None [(''initial_balance'', JInt 100)] ''replay-0''"
  "replay_command t (Suc 0) (build_action ACTIVATE_MEMBERSHIP None None [(''paid_amount'', JInt 30), (''quantity'', JInt 3)])
    = over_command ACTIVATE_MEMBERSHIP None [(''paid_amount'', JInt 30), (''quantity'', JInt 3)] ''replay-1''"
  "al_names t ''entitlement-1'' = Some ''entitlement-1'' \<Longrightarrow>
    replay_command t (Suc (Suc 0)) (build_action CONSUME_ENTITLEMENT (Some ''entitlement-1'') None [(''quantity'', JInt 4)])
    = over_command CONSUME_ENTITLEMENT (Some ''entitlement-1'') [(''quantity'', JInt 4)] ''replay-2''"
  by (simp_all add: replay_command_def replay_key_def build_action_def over_command_def resolve_def py_dict_def string_of_nat_less_10 digit_chars digit_two)

lemma truth_aliases:
  "al_names (note_result (note_result no_aliases (receipt_json ''run'' (truth_receipts ! 0))) (receipt_json ''run'' (truth_receipts ! 1)))
    ''entitlement-1'' = Some ''entitlement-1''"
  by (simp add: note_result_def receipt_json_def truth_receipts_def demo_receipt_def note_id_def id_prefix_def
      no_aliases_def string_of_nat_less_10 digit_chars)

lemma truth_commands_fine:
  "valid_command (over_command CREATE_USER None args ''replay-0'')" "valid_command (over_command ACTIVATE_MEMBERSHIP None args ''replay-1'')"
  "valid_command (over_command CONSUME_ENTITLEMENT (Some ''entitlement-1'') args ''replay-2'')"
  by (simp_all add: over_command_def valid_command_def)

text \<open>Whatever the replay is for, and whatever was served before.\<close>

lemma truth_replay:
  "\<exists>r run' n'. replay D (\<lambda>_ _. Some ''1'') over_spec truth_trace target FIXED (Some [ENTITLEMENT_OVERCONSUMPTION]) (calm run0 n)
      = (Some r, calm run' n') \<and> (target = ENTITLEMENT_NON_NEGATIVE \<longrightarrow> rp_classification r = CONFIRMED_VIOLATION)"
proof -
  let ?s0 = "overdone (empty_run ''run'' MEMBERSHIP_ENTITLEMENT FIXED None)"
  obtain r3 run where step3: "transact D demo_amb (over_command CONSUME_ENTITLEMENT (Some ''entitlement-1'') [(''quantity'', JInt 4)] ''replay-2'')
      truth_second = Some (r3, run)"
    and run: "rs_entitlements run = [demo_entitlement 4 0 CONSUMED 1]" "rs_id run = ''run''"
      "\<forall>e \<in> set (rs_events run). ev_type e \<notin> {POINTS_GRANTED, POINTS_REVOKED}"
    using truth_transact_3 by blast
  have "?s0 = empty_run ''run'' MEMBERSHIP_ENTITLEMENT FIXED (Some [ENTITLEMENT_OVERCONSUMPTION])"
    by (simp add: overdone_def empty_run_def)
  then have "run_ok ?s0" by (simp add: empty_run_ok)
  then have "run_ok run" using truth_transact_1 truth_transact_2 step3 transact_ok by blast
  then have rows: "wf_rows run" using wf_books_facts(2) by (simp add: run_ok_def)
  let ?rs = "[receipt_json ''run'' (truth_receipts ! 0), receipt_json ''run'' (truth_receipts ! 1), receipt_json ''run'' r3]"
  let ?snaps = "[snapshot D demo_amb ?s0, snapshot D demo_amb truth_first, snapshot D demo_amb truth_second]"
  have acts: "replay_actions D ''run'' no_aliases 0 truth_trace [snapshot D demo_amb ?s0] [] (calm ?s0 k)
    = (Some (?snaps @ [snapshot D demo_amb run], ?rs), calm run (k + 6))" for k
    unfolding truth_trace_def
    by (simp add: calm_step truth_commands truth_aliases [unfolded One_nat_def] truth_commands_fine over_commands_fine truth_transact_1
        truth_transact_2 step3 give_def eval_nat_numeral del: replay_actions.simps(2))
  let ?es = "map (event_json ''run'') (epoch_events run)"
  note over_spec_valid
  moreover have "\<forall>r \<in> set ?rs. hashable (jget ''status'' r)" by (simp add: receipt_json_def hashable_def)
  moreover have "\<forall>e \<in> set ?es. points_event e \<noteq> Inl Uncaught"
    using run(3) by (simp add: epoch_events_def no_points_event)
  ultimately obtain report where report: "evaluate over_spec (?snaps @ [snapshot D demo_amb run]) ?rs ?es = Some report"
    using evaluate_total [OF _ rows] by blast
  obtain f where f: "finding report target = Some f" using report_complete [OF report] by blast
  have "verdict (finding report ENTITLEMENT_NON_NEGATIVE) = Some (VIOLATED, [JStr ''entitlement-1''])"
    unfolding evaluate_finding(3) [OF report] entitlement_verdict
    by (simp add: run(1) verdict_on_def demo_entitlement_def available_quantity_def)
  then have "target = ENTITLEMENT_NON_NEGATIVE \<longrightarrow> fd_status f = VIOLATED" using f by (auto simp: verdict_def)
  then show ?thesis
    using acts report f
    by (simp add: replay_def over_spec_def over_created chain_def lift_reply_def or_raise_def give_def snapshot_fields
        calm_events run(2) epoch_events_objects item_def judge_replay_def classify_replay_def Let_def) blast
qed

lemma truth_opened: "run_ok (overdone (empty_run ''run'' MEMBERSHIP_ENTITLEMENT FIXED None))"
proof -
  have "overdone (empty_run ''run'' MEMBERSHIP_ENTITLEMENT FIXED None)
      = empty_run ''run'' MEMBERSHIP_ENTITLEMENT FIXED (Some [ENTITLEMENT_OVERCONSUMPTION])"
    by (simp add: overdone_def empty_run_def)
  then show ?thesis by (simp add: empty_run_ok)
qed

lemma empty_replay:
  "\<exists>r run' n'. replay D (\<lambda>_ _. Some ''1'') over_spec [] target FIXED (Some [ENTITLEMENT_OVERCONSUMPTION]) (calm run0 n)
      = (Some r, calm run' n')"
proof -
  let ?s0 = "overdone (empty_run ''run'' MEMBERSHIP_ENTITLEMENT FIXED None)"
  have rows: "wf_rows ?s0" using truth_opened wf_books_facts(2) by (simp add: run_ok_def)
  have quiet: "rs_id ?s0 = ''run''" "epoch_events ?s0 = []" by (simp_all add: overdone_def empty_run_def epoch_events_def)
  obtain report where report: "evaluate over_spec [snapshot D demo_amb ?s0] [] [] = Some report"
    using evaluate_total [OF over_spec_valid rows, of "[]" "[]" "[]"] by auto
  obtain f where "finding report target = Some f" using report_complete [OF report] by blast
  then show ?thesis
    using report quiet
    by (simp add: replay_def over_spec_def over_created chain_def lift_reply_def or_raise_def give_def snapshot_fields
        calm_events event_list_def item_def judge_replay_def Let_def) blast
qed

section \<open>Its cells\<close>

definition truth_setting :: "string bench_setting" where
  "truth_setting = \<lparr>bl_digest = demo_digest, bl_known = (\<lambda>_ _. Some ''1''), bl_hash = (\<lambda>_. ''h''), bl_draws = (\<lambda>_ _ _. 0),
     bl_agents = quiet_surroundings (sandbox_gateway demo_digest (\<lambda>_ _. Some ''1'')) 10, bl_stamp = \<lparr>sp_uid = ''a'', sp_now = 0\<rparr>,
     bl_uid = ''f'', bl_strategy_uid = strategy_text, bl_elapsed = 1,
     bl_scanner = \<lparr>sc_wide = (\<lambda>c. [c]), sc_digest = (\<lambda>s. s), sc_dump = (\<lambda>_. JNull)\<rparr>, bl_payloads = (\<lambda>_. []),
     bl_diagnostic = (\<lambda>_. None)\<rparr>"

lemma case_replay_truth:
  "case_replay truth_setting (truth_case b) acts iid
    = replay demo_digest (\<lambda>_ _. Some ''1'') over_spec acts iid FIXED (Some [ENTITLEMENT_OVERCONSUMPTION])"
  by (rule ext) (simp add: case_replay_def truth_setting_def truth_axes over_gateway, simp add: truth_case_def over_gateway)

text \<open>On a working network replays that answer are followed by replays that answer.\<close>

lemma calm_repeated:
  assumes "\<And>run0 n. \<exists>r run' n'. case_replay x c acts iid (calm run0 n) = (Some r, calm run' n')"
  shows "\<exists>k run' n'. repeated_replays x c acts iid m (calm run0 n) = (Some k, calm run' n')"
proof (induction m arbitrary: run0 n)
  case (Suc m)
  obtain r run1 n1 where r: "case_replay x c acts iid (calm run0 n) = (Some r, calm run1 n1)" using assms by blast
  obtain k run2 n2 where "repeated_replays x c acts iid m (calm run1 n1) = (Some k, calm run2 n2)" using Suc by blast
  then show ?case using r by (simp add: chain_def give_def) blast
qed (simp add: give_def, blast)

lemma calm_checks:
  assumes "\<And>iid run0 n. \<exists>r run' n'. case_replay x c acts iid (calm run0 n) = (Some r, calm run' n')"
  shows "\<exists>t' run' n'. check_invariants x c acts iids t (calm run0 n) = (Some t', calm run' n')"
proof (induction iids arbitrary: t run0 n)
  case (Cons iid iids)
  obtain r run1 n1 where r: "case_replay x c acts iid (calm run0 n) = (Some r, calm run1 n1)" using assms by blast
  obtain k run2 n2 where k: "repeated_replays x c acts iid 2 (calm run1 n1) = (Some k, calm run2 n2)"
    using calm_repeated [OF assms] by blast
  show ?case
  proof (cases "rp_classification r = CONFIRMED_VIOLATION")
    case True
    then show ?thesis using r k Cons.IH by (simp add: chain_def Let_def del: repeated_replays.simps)
  next
    case False
    then show ?thesis using r Cons.IH by (simp add: chain_def Let_def)
  qed
qed (simp add: give_def, blast)

definition shallow_budget :: budget where
  "shallow_budget = \<lparr>bg_steps = 0, bg_tokens = 0, bg_cost = 0, bg_time = 1\<rparr>"

lemma shallow_search: "\<exists>r. searched truth_setting (truth_case shallow_budget) BFS_SEARCH seed = Some r \<and> sh_trace r = []"
  by (simp add: searched_def truth_case_def shallow_budget_def make_budget_def breadth_first_search_def Let_def)

lemma shallow_cell:
  "\<exists>f w'. execute_baseline truth_setting (truth_case shallow_budget) BFS_SEARCH 1 7 (calm run0 n) = (Some f, w')"
proof -
  let ?c = "truth_case shallow_budget"
  obtain r where r: "searched truth_setting ?c BFS_SEARCH 7 = Some r" "sh_trace r = []" using shallow_search by blast
  have "\<exists>r run' n'. case_replay truth_setting ?c [] iid (calm run1 m) = (Some r, calm run' n')" for iid run1 m
    unfolding case_replay_truth by (rule empty_replay)
  then obtain t run' n' where t: "check_invariants truth_setting ?c [] (replayed_invariants (bc_scenario ?c)) no_tally (calm run0 n) = (Some t, calm run' n')"
    using calm_checks by blast
  then have "raw_valid (search_fact truth_setting ?c BFS_SEARCH 1 [] t)" by (rule tally_facts(2))
  then show ?thesis
    using r t by (simp add: execute_baseline_def search_baseline_def chain_def or_raise_def give_def checked_fact_def)
qed

text \<open>An agent that is out of time before its first strategy.\<close>

lemma late_cell:
  "\<exists>run st s. open_cell truth_setting (truth_case demo_budget) MULTI_STRATEGY 1 7 = (Inr run, st)
    \<and> run_attack (cell_surroundings truth_setting MULTI_STRATEGY) (searching_strategies MULTI_STRATEGY) (ar_id run) over_spec
        \<lparr>wk_store = st, wk_world = (w, []), wk_tick = 0\<rparr> = (Inr (), s)
    \<and> fst (wk_world s) = w \<and> counterexamples (wk_store s) (ar_id run) = []
    \<and> cell_diagnostics truth_setting (ar_id run) (wk_store s) = Some []"
proof -
  let ?e = "cell_surroundings truth_setting MULTI_STRATEGY"
  have e: "wr_now ?e k = 10" "wr_fault ?e p k = False" for k p
    by (simp_all add: cell_surroundings_def truth_setting_def Let_def)
  have c: "bc_budget (truth_case demo_budget) = demo_budget" by (simp add: truth_case_def)
  obtain run st where o: "open_cell truth_setting (truth_case demo_budget) MULTI_STRATEGY 1 7 = (Inr run, st)"
    by (auto simp: open_cell_def store_create_def empty_store_def Let_def)
  have run: "ar_budget run = demo_budget" "ar_created run = 0" "events_of st (ar_id run) = [\<lparr>rv_cursor = 1, rv_run = ar_id run, rv_type = ''RUN_CREATED'',
      rv_data = JObj [(''status'', JStr (status_text Ready))], rv_created = 0\<rparr>]"
    using o c by (auto simp: open_cell_def store_create_def empty_store_def Let_def truth_setting_def append_event_def events_of_def)
  note r = opened_cell [OF o]
  show ?thesis
    using o run r(1,2) e
    by (simp add: run_as_def run_attack_def admit_def andthen_def reading_def storing_def get_run_def of_option_def pure_def or_escape_def
        remaining_budget_def searching_strategies_def strategies_def no_usage_def min_viable_steps_def demo_budget_def set_status_def the_time_def
        compare_and_set_status_def transition_allowed_def terminal_statuses_def guarded_def search_all_def strategy_turn_def
        counterexamples_def append_event_def events_of_def cell_diagnostics_def events_after_def last_diagnostics_def first_pass_def)
qed

section \<open>Recorded findings\<close>

text \<open>The snapshots of the one recorded finding, read as the oracle reads them.\<close>

lemma recorded_texts: "''100.00'' = fixed_text 2 10000" "''101.00'' = fixed_text 2 10100"
  by (simp_all add: fixed_text_def padded_def string_of_nat.simps digit_chars)

lemma recorded_amounts: "oracle_decimal (JStr ''100.00'') = Some 100" "oracle_decimal (JStr ''101.00'') = Some 101"
  unfolding recorded_texts by (simp_all add: oracle_decimal_def parse_fixed_text)

definition recorded_snapshots :: "json list" where
  "recorded_snapshots = [JObj [(''state_hash'', JStr ''before''), (''state'', recorded_state)],
     JObj [(''state_hash'', JStr ''after''), (''state'', recorded_state)]]"

definition recorded_order :: json where
  "recorded_order = JObj [(''id'', JStr ''o''), (''paid_amount'', JStr ''100.00''), (''refunded_amount'', JStr ''101.00''),
     (''points_granted'', JInt 999), (''status'', JStr ''PAID'')]"

lemma recorded_items:
  "last_items recorded_snapshots ''orders'' = Some [recorded_order]"
  "last_items recorded_snapshots ''users'' = Some [JObj [(''id'', JStr ''u''), (''points_balance'', JInt 999)]]"
  "last_items recorded_snapshots ''coupons'' = Some []" "last_items recorded_snapshots ''memberships'' = Some []"
  "last_items recorded_snapshots ''entitlements'' = Some []"
  by (simp_all add: recorded_snapshots_def last_items_def state_of_def items_of_def recorded_state_def recorded_order_def)

lemma recorded_fields:
  "oracle_decimal (jget ''paid_amount'' recorded_order) = Some 100" "oracle_decimal (jget ''refunded_amount'' recorded_order) = Some 101"
  "jget_default ''points_granted'' (JInt 0) recorded_order = JInt 999" "jget_default ''points_revoked'' (JInt 0) recorded_order = JInt 0"
  by (simp_all add: recorded_order_def recorded_amounts)

lemma recorded_refund:
  "\<exists>f. refund_limit_check refund_points_spec recorded_snapshots [] [] = Some f \<and> fd_status f = VIOLATED"
  by (simp add: refund_limit_check_def recorded_items judge_refund_limit_def recorded_fields conclude_def finding_of_def)

lemma recorded_points: "points_conservation refund_points_spec recorded_snapshots [] [] \<noteq> None"
  by (simp add: points_conservation_def recorded_items recorded_fields conclude_def refund_points_spec_def judge_balance_def oracle_integer_def
      split: judgement.splits)

lemma recorded_report: "\<exists>report. evaluate refund_points_spec recorded_snapshots [] [] = Some report"
proof -
  have "coupon_consumption refund_points_spec recorded_snapshots [] [] \<noteq> None"
    "entitlement_non_negative refund_points_spec recorded_snapshots [] [] \<noteq> None"
    "entitlement_refund refund_points_spec recorded_snapshots [] [] \<noteq> None"
    by (simp_all add: coupon_consumption_def entitlement_non_negative_def entitlement_refund_def recorded_items insufficient_def not_applicable_def
        conclude_def Let_def refund_points_spec_def)
  then show ?thesis
    using recorded_refund recorded_points net_paid_Some [of refund_points_spec recorded_snapshots "[]" "[]"]
      terminal_monotonicity_Some [of refund_points_spec recorded_snapshots "[]" "[]"] idempotency_Some [of "[]" refund_points_spec recorded_snapshots "[]"]
    by (auto simp: evaluate_def)
qed

lemma recorded_violated: "map still_violated historical_cases = [Some True]"
proof -
  obtain report where report: "evaluate refund_points_spec recorded_snapshots [] [] = Some report" using recorded_report by blast
  from evaluate_finding(2) [OF report] recorded_refund
  obtain f where "finding report REFUND_NOT_EXCEED_PAID = Some f" "fd_status f = VIOLATED" by auto
  then show ?thesis using report by (simp add: historical_cases_def still_violated_def recorded_snapshots_def)
qed

end
