(* ===== verification/Eval_Baseline_Properties.thy ===== *)
theory Eval_Baseline_Properties
  imports Eval_Demo
begin

text \<open>
  What the executors of a benchmark report: facts that are coherent and whose confirmed payment and
  entitlement invariants trace back to an axis the case declares; a pass that returns always becomes a
  fact; ground truth that is verified has its defect. And what the scan of the texts a model was shown
  cannot find.
\<close>

section \<open>Facts\<close>

lemma checked_fact_Some: "checked_fact f = Some g \<longleftrightarrow> raw_valid f \<and> g = f"
  by (auto simp: checked_fact_def)

lemma search_fact_sound:
  assumes "search_baseline x c b n seed w = (Some f, w')"
  shows "raw_valid f \<and> (rc_outcome f = Confirmed_violation \<longleftrightarrow> rc_confirmed f \<noteq> {}) \<and> rc_attempts f = 3 * rc_confirmations f
    \<and> (\<forall>iid \<in> rc_confirmed f. declares_axes c \<longrightarrow> planted c iid) \<and> cell_of f = (bc_id c, n) \<and> rc_baseline f = b"
proof -
  obtain acts w1 t where t: "check_invariants x c acts (replayed_invariants (bc_scenario c)) no_tally w1 = (Some t, w')"
    and f: "f = search_fact x c b n acts t"
  proof -
    have "chain (or_raise (searched x c b seed)) (\<lambda>r.
        chain (check_invariants x c (sh_trace r) (replayed_invariants (bc_scenario c)) no_tally) (\<lambda>t.
        or_raise (checked_fact (search_fact x c b n (sh_trace r) t)))) w = (Some f, w')"
      using assms by (simp add: search_baseline_def split: if_splits)
    then show thesis unfolding chain_Some client_Some checked_fact_Some by (elim exE conjE) (simp only: that)
  qed
  show ?thesis
    using tally_facts(1) [OF t] tally_facts(2) [OF t, of b n] f by (auto simp: search_fact_def raw_fact_def cell_of_def tallied_def)
qed

lemma cell_evidence:
  assumes "open_cell x c b n seed = (Inr run, st)" "declares_axes c"
    and "run_attack (cell_surroundings x b) searching (ar_id run) spec \<lparr>wk_store = st, wk_world = w, wk_tick = k\<rparr> = (y, s)"
    and "cx \<in> set (counterexamples (wk_store s) (ar_id run))" "cx_invariant cx = invariant_name iid"
  shows "planted c iid"
proof -
  let ?e = "cell_surroundings x b"
  note run = opened_cell [OF assms(1)]
  have "evidence_ok ?e (ar_id run) (bc_sandbox c) (cell_axes c) st"
    using run by (simp add: evidence_ok_def run_as_def)
  moreover have "others_honest ?e (ar_id run)" using cell_alone [of x b] by (simp add: others_honest_def alone_def)
  ultimately have "evidence_ok ?e (ar_id run) (bc_sandbox c) (cell_axes c) (wk_store s)"
    using pass_evidence [of ?e "ar_id run" _ _ "\<lparr>wk_store = st, wk_world = w, wk_tick = k\<rparr>" searching spec] assms(3) by simp
  then have "evidenced ?e (bc_sandbox c) (cell_axes c) cx" using assms(4) by (simp add: evidence_ok_def)
  then obtain spec' acts target v rp v' f where
    r: "wr_replay ?e spec' acts target (bc_sandbox c) (replay_defect_axes c) v = (Some rp, v')"
    and f: "f \<in> set (rp_report rp)" "fd_status f = VIOLATED" "cx_invariant cx = invariant_name (fd_invariant f)"
    unfolding evidenced_def cell_axes_named by blast
  have "planted c (fd_invariant f)" by (rule finding_planted [OF assms(2) cell_replays(1) [OF r] f(1,2)])
  moreover have "fd_invariant f = iid" using f(3) assms(5) by (metis invariant_named_name option.inject)
  ultimately show ?thesis by simp
qed

lemma agent_fact_sound:
  assumes "agent_baseline x c b n seed w = (Some f, w')"
  shows "raw_valid f \<and> (rc_outcome f = Confirmed_violation \<longleftrightarrow> rc_confirmed f \<noteq> {}) \<and> rc_attempts f = 3 * rc_confirmations f
    \<and> (\<forall>iid \<in> rc_confirmed f. declares_axes c \<longrightarrow> planted c iid) \<and> cell_of f = (bc_id c, n) \<and> rc_baseline f = b"
proof -
  let ?e = "cell_surroundings x b"
  obtain run st y s where opened: "open_cell x c b n seed = (Inr run, st)"
    and pass: "run_attack ?e (searching_strategies b) (ar_id run) (bc_spec c) \<lparr>wk_store = st, wk_world = (w, []), wk_tick = 0\<rparr> = (y, s)"
    and rest: "(case y of Inl _ \<Rightarrow> give (failed_pass x c b n (ar_id run)) (fst (wk_world s))
              | Inr _ \<Rightarrow> measure_pass x c b n (ar_id run) (wk_store s) (snd (wk_world s)) (fst (wk_world s))) = (Some f, w')"
    using assms by (auto simp: agent_baseline_def split: if_splits prod.splits sum.splits)
  show ?thesis
  proof (cases y)
    case (Inl z)
    then have "f = failed_pass x c b n (ar_id run)" using rest by simp
    then show ?thesis by (simp add: failed_pass_def raw_fact_def raw_valid_def cell_of_def)
  next
    case (Inr u)
    note r = opened_cell [OF opened]
    have settled: "pass_settled (ar_id run) s"
      by (rule pass_settles [OF pass [unfolded Inr]]) (use r in simp_all)
    obtain run' again w1 ss ds where run': "st_runs (wk_store s) (ar_id run) = Some run'"
      and again: "stability x c (counterexamples (wk_store s) (ar_id run)) (fst (wk_world s)) = (Some again, w1)"
      and f: "f = agent_fact x c b n run' (counterexamples (wk_store s) (ar_id run)) (snd (wk_world s)) again ss ds"
      using rest Inr by (auto simp: measure_pass_def get_run_def of_option_def chain_Some checked_fact_def Let_def split: sum.splits option.splits if_splits intro: that)
    have "declares_axes c \<longrightarrow> planted c iid" if "iid \<in> rc_confirmed f" for iid
    proof -
      have "invariant_name iid \<in> cx_invariant ` set (counterexamples (wk_store s) (ar_id run))"
        using that f by (simp add: agent_fact_def)
      then obtain cx where "cx \<in> set (counterexamples (wk_store s) (ar_id run))" "cx_invariant cx = invariant_name iid" by force
      then show ?thesis using cell_evidence [OF opened _ pass] by blast
    qed
    then show ?thesis
      using agent_fact_coherent [OF settled run' again, of b n ss ds] f by (simp add: Let_def cell_of_def) (simp add: agent_fact_def raw_fact_def)
  qed
qed

text \<open>C37: whichever executor answers, random, breadth-first, one agent or three, its fact is coherent (confirmed
  exactly if an invariant is, three stability replays for every confirmation, no counts that contradict
  each other), and a payment or entitlement invariant is confirmed only for a case that declares the
  axis behind it: on a case without axes on the fixed sandbox it never is.\<close>

theorem cell_facts_sound:
  assumes "execute_baseline x c b n seed w = (Some f, w')" "bc_axes c \<noteq> {} \<or> bc_sandbox c = ''fixed''"
  shows "raw_valid f \<and> cell_of f = (bc_id c, n) \<and> rc_baseline f = b
    \<and> (rc_outcome f = Confirmed_violation \<longleftrightarrow> rc_confirmed f \<noteq> {}) \<and> rc_attempts f = 3 * rc_confirmations f
    \<and> ({NET_PAID_NON_NEGATIVE, REFUND_NOT_EXCEED_PAID} \<inter> rc_confirmed f \<noteq> {} \<longrightarrow> REFUND_AGAINST_ORIGINAL \<in> bc_axes c)
    \<and> (ENTITLEMENT_NON_NEGATIVE \<in> rc_confirmed f \<longrightarrow> ENTITLEMENT_OVERCONSUMPTION \<in> bc_axes c)"
proof -
  have "declares_axes c" using assms(2) by (simp add: declares_axes_def)
  then have "\<forall>iid \<in> rc_confirmed f. planted c iid" "raw_valid f" "cell_of f = (bc_id c, n)" "rc_baseline f = b"
    "rc_outcome f = Confirmed_violation \<longleftrightarrow> rc_confirmed f \<noteq> {}" "rc_attempts f = 3 * rc_confirmations f"
    using search_fact_sound [of x c b n seed w f w'] agent_fact_sound [of x c b n seed w f w'] assms(1)
    by (auto simp: execute_baseline_def split: if_splits)
  then show ?thesis unfolding planted_def by auto
qed

theorem cell_facts_sound_witness:
  "\<exists>f w'. execute_baseline truth_setting (truth_case shallow_budget) BFS_SEARCH 1 7 (calm over_first 0) = (Some f, w')
    \<and> raw_valid f \<and> cell_of f = (''case'', 1) \<and> (rc_outcome f = Confirmed_violation \<longleftrightarrow> rc_confirmed f \<noteq> {})"
proof -
  obtain f w' where f: "execute_baseline truth_setting (truth_case shallow_budget) BFS_SEARCH 1 7 (calm over_first 0) = (Some f, w')"
    using shallow_cell by blast
  have "bc_axes (truth_case shallow_budget) \<noteq> {} \<or> bc_sandbox (truth_case shallow_budget) = ''fixed''" "bc_id (truth_case shallow_budget) = ''case''"
    by (simp_all add: truth_case_def)
  then show ?thesis using cell_facts_sound [OF f] f by auto
qed

section \<open>A pass that returns\<close>

text \<open>C38: an agent cell whose pass returns is never lost: the run has an outcome of its own, the counts of its
  counterexamples never exceed those of the traced oracle checks, every strategy has its record, so
  that, unless the models were shown a marker, the stability replays fail or a diagnostic cannot be
  read, the executor answers with a fact that is no failure.\<close>

theorem returned_pass_is_a_fact:
  assumes "b \<in> {SINGLE_AGENT, MULTI_STRATEGY}" "open_cell x c b n seed = (Inr run, st)"
    and "run_attack (cell_surroundings x b) (searching_strategies b) (ar_id run) (bc_spec c) \<lparr>wk_store = st, wk_world = (w, []), wk_tick = 0\<rparr>
      = (Inr (), s)"
    and "scan_leakage (bl_scanner x) (map JStr (bl_payloads x s)) [c] = []"
    and "stability x c (counterexamples (wk_store s) (ar_id run)) (fst (wk_world s)) = (Some again, w')"
    and "cell_diagnostics x (ar_id run) (wk_store s) = Some ds"
  shows "\<exists>f. execute_baseline x c b n seed w = (Some f, w') \<and> rc_failure f = NO_FAILURE
    \<and> rc_outcome f \<in> {Confirmed_violation, Unconfirmed_candidate, No_violation_within_budget}"
proof -
  let ?e = "cell_surroundings x b"
  note r = opened_cell [OF assms(2)]
  have settled: "pass_settled (ar_id run) s" by (rule pass_settles [OF assms(3)]) (use r in simp_all)
  then obtain run' where run': "st_runs (wk_store s) (ar_id run) = Some run'"
    "ar_outcome run' \<in> {Some Confirmed_violation, Some Unconfirmed_candidate, Some No_violation_within_budget}"
    unfolding pass_settled_def by auto
  have "alone ?e \<longrightarrow> keys_resolve (wk_store (snd (run_attack ?e (searching_strategies b) (ar_id run) (bc_spec c)
      \<lparr>wk_store = st, wk_world = (w, []), wk_tick = 0\<rparr>)))"
    by (rule resolved.pass_keeps [where v = "ar_sandbox_version run" and axes = "ar_axes run"]) (use r in \<open>simp_all add: run_as_def\<close>)
  then have "keys_resolve (wk_store s)" using cell_alone assms(3) by auto
  then obtain ss where ss: "cell_strategies x (ar_id run) (bc_budget c) strategies (wk_store s) = Some ss"
    using cell_strategies_there by blast
  have fact: "agent_fact x c b n run' (counterexamples (wk_store s) (ar_id run)) (snd (wk_world s)) again ss ds = f
      \<Longrightarrow> raw_valid f \<and> rc_failure f = NO_FAILURE" for f
    using agent_fact_coherent [OF settled run'(1) assms(5), of b n ss ds] by (simp add: Let_def)
  then have "execute_baseline x c b n seed w
      = (Some (agent_fact x c b n run' (counterexamples (wk_store s) (ar_id run)) (snd (wk_world s)) again ss ds), w')"
    using assms ss run'(1)
    by (auto simp: execute_baseline_def agent_baseline_def measure_pass_def get_run_def Let_def chain_def or_raise_def give_def checked_fact_def)
  then show ?thesis using fact [OF refl] run'(2) by (auto simp: agent_fact_def raw_fact_def)
qed

theorem returned_pass_is_a_fact_witness:
  "\<exists>f w'. execute_baseline truth_setting (truth_case demo_budget) MULTI_STRATEGY 1 7 (calm over_first 0) = (Some f, w')
    \<and> rc_failure f = NO_FAILURE"
proof -
  let ?c = "truth_case demo_budget"
  obtain run st s where o: "open_cell truth_setting ?c MULTI_STRATEGY 1 7 = (Inr run, st)"
    and pass: "run_attack (cell_surroundings truth_setting MULTI_STRATEGY) (searching_strategies MULTI_STRATEGY) (ar_id run) over_spec
        \<lparr>wk_store = st, wk_world = (calm over_first 0, []), wk_tick = 0\<rparr> = (Inr (), s)"
    and s: "counterexamples (wk_store s) (ar_id run) = []" "cell_diagnostics truth_setting (ar_id run) (wk_store s) = Some []"
    using late_cell by blast
  have c: "bc_spec ?c = over_spec" by (simp add: truth_case_def)
  have "scan_leakage (bl_scanner truth_setting) (map JStr (bl_payloads truth_setting s)) [?c] = []"
    by (simp add: truth_setting_def scan_leakage_def)
  moreover have "stability truth_setting ?c (counterexamples (wk_store s) (ar_id run)) (fst (wk_world s)) = (Some (0, 0), fst (wk_world s))"
    by (simp add: s(1) give_def)
  ultimately show ?thesis using returned_pass_is_a_fact [OF _ o pass [folded c] _ _ s(2)] by blast
qed

section \<open>Ground truth\<close>

lemma truth_replays_all:
  "truth_replays x c acts iids w = (Some rs, w') \<Longrightarrow> length rs = length iids
    \<and> (\<forall>k < length iids. \<exists>v v'. case_replay x c acts (iids ! k) v = (Some (rs ! k), v'))"
proof (induction iids arbitrary: w rs)
  case (Cons iid iids)
  then obtain r w1 rs1 w2 where r: "case_replay x c acts iid w = (Some r, w1)" and rest: "truth_replays x c acts iids w1 = (Some rs1, w2)"
    and rs: "rs = r # rs1" "w2 = w'"
    by (auto simp: chain_Some)
  show ?case using Cons.IH [of w1 rs1] rest rs r by (auto simp: nth_Cons split: nat.splits)
qed simp

lemma confirming_bound: "confirming r \<le> 1" "confirming r = 1 \<longleftrightarrow> rp_classification r = CONFIRMED_VIOLATION"
  by (simp_all add: confirming_def)

lemma confirming_sum: "sum_list (map confirming rs) \<le> length rs"
  using sum_list_mono [of rs confirming "\<lambda>_. 1"] confirming_bound(1) by (simp add: sum_list_triv)

lemma all_confirming: "sum_list (map confirming rs) = length rs \<Longrightarrow> r \<in> set rs \<Longrightarrow> rp_classification r = CONFIRMED_VIOLATION"
proof (induction rs)
  case (Cons a rs)
  have "confirming a = 1" "sum_list (map confirming rs) = length rs"
    using Cons.prems(1) confirming_sum [of rs] confirming_bound(1) [of a] by simp_all
  then show ?case using Cons confirming_bound(2) by auto
qed simp

lemma expected_length: "length (expected_invariants c) = card (bc_invariants c)"
proof -
  have "distinct (expected_invariants c)" by (simp add: expected_invariants_def all_invariants_def)
  moreover have "set (expected_invariants c) = bc_invariants c" using all_invariants_all by (auto simp: expected_invariants_def)
  ultimately show ?thesis by (metis distinct_card)
qed

text \<open>C39: ground truth that is verified holds three times over and has its defect: every expected invariant
  was confirmed in three replays of fresh runs, and an expected payment or entitlement invariant has
  the axis behind it among those the case declares, so a case labelled with another defect, or with
  none, cannot be verified.\<close>

theorem verified_truth_has_defect:
  assumes "verify_ground_truth x c n w = (Some ev, w')" "bc_axes c \<noteq> {} \<or> bc_sandbox c = ''fixed''"
  shows "tv_successful ev = 3 * card (bc_invariants c) \<and> tv_attempted ev = tv_successful ev \<and> length (tv_runs ev) = tv_attempted ev
    \<and> ({NET_PAID_NON_NEGATIVE, REFUND_NOT_EXCEED_PAID} \<inter> bc_invariants c \<noteq> {} \<longrightarrow> REFUND_AGAINST_ORIGINAL \<in> bc_axes c)
    \<and> (ENTITLEMENT_NON_NEGATIVE \<in> bc_invariants c \<longrightarrow> ENTITLEMENT_OVERCONSUMPTION \<in> bc_axes c)"
proof -
  let ?iids = "concat (replicate 3 (expected_invariants c))"
  obtain acts rs where n: "n = 3" and rs: "truth_replays x c acts ?iids w = (Some rs, w')"
    and sums: "sum_list (map confirming rs) = 3 * card (bc_invariants c)"
    and ev: "ev = \<lparr>tv_case = bc_id c, tv_runs = map rp_run rs, tv_successful = 3 * card (bc_invariants c), tv_attempted = 3 * card (bc_invariants c)\<rparr>"
    using assms(1) by (auto simp: verify_ground_truth_def chain_Some Let_def split: if_splits)
  have len: "length ?iids = 3 * card (bc_invariants c)" by (simp add: length_concat sum_list_replicate expected_length)
  note all = truth_replays_all [OF rs]
  have "planted c iid" if "iid \<in> bc_invariants c" for iid
  proof -
    have "iid \<in> set ?iids" using that all_invariants_all by (simp add: expected_invariants_def)
    then obtain k where k: "k < length ?iids" "?iids ! k = iid" by (metis in_set_conv_nth)
    then obtain v v' where r: "case_replay x c acts iid v = (Some (rs ! k), v')" using all by metis
    have "rs ! k \<in> set rs" using all k(1) by simp
    then have "rp_classification (rs ! k) = CONFIRMED_VIOLATION" using all_confirming sums len all by metis
    then show ?thesis using case_replay_planted [OF _ r] assms(2) by (simp add: declares_axes_def)
  qed
  then show ?thesis using ev all len by (auto simp: planted_def)
qed

theorem verified_truth_has_defect_witness:
  "\<exists>ev w'. verify_ground_truth truth_setting (truth_case demo_budget) 3 (calm over_first 0) = (Some ev, w')
    \<and> tv_successful ev = 3 \<and> length (tv_runs ev) = 3 \<and> ENTITLEMENT_OVERCONSUMPTION \<in> bc_axes (truth_case demo_budget)"
proof -
  let ?c = "truth_case demo_budget" and ?iid = ENTITLEMENT_NON_NEGATIVE
  have once: "\<exists>r run' n'. case_replay truth_setting ?c truth_trace ?iid (calm run n) = (Some r, calm run' n') \<and> confirming r = 1" for run n
    unfolding case_replay_truth using truth_replay [where target = ?iid] confirming_bound(2) by blast
  obtain r1 run1 n1 where r1: "case_replay truth_setting ?c truth_trace ?iid (calm over_first 0) = (Some r1, calm run1 n1)" "confirming r1 = 1"
    using once by blast
  obtain r2 run2 n2 where r2: "case_replay truth_setting ?c truth_trace ?iid (calm run1 n1) = (Some r2, calm run2 n2)" "confirming r2 = 1"
    using once by blast
  obtain r3 run3 n3 where r3: "case_replay truth_setting ?c truth_trace ?iid (calm run2 n2) = (Some r3, calm run3 n3)" "confirming r3 = 1"
    using once by blast
  have c: "bc_expected ?c = EXPECT_VULNERABLE" "bc_invariants ?c = {?iid}" "expected_invariants ?c = [?iid]"
    by (simp_all add: truth_case_def expected_invariants_def all_invariants_def)
  then have "\<exists>ev w'. verify_ground_truth truth_setting ?c 3 (calm over_first 0) = (Some ev, w')"
    using r1 r2 r3 truth_parsed by (simp add: verify_ground_truth_def chain_def or_raise_def give_def Let_def eval_nat_numeral)
  then obtain ev w' where ev: "verify_ground_truth truth_setting ?c 3 (calm over_first 0) = (Some ev, w')" by blast
  moreover have "bc_axes ?c \<noteq> {} \<or> bc_sandbox ?c = ''fixed''" by (simp add: truth_case_def)
  ultimately show ?thesis using verified_truth_has_defect [OF ev] c(2) by auto
qed

section \<open>What the scan cannot find\<close>

lemma canonical_starts:
  "hd (canonical_json (JStr s)) = CHR 0x22" "hd (canonical_json (JObj m)) = CHR ''{''" "hd (canonical_json (JList vs)) = CHR ''[''"
  by (simp_all add: canonical_json_def json_quoted_def)

text \<open>What is hashed: the texts as they are quoted, and the hidden answers.\<close>

definition hashed_texts :: "string list \<Rightarrow> benchmark_case list \<Rightarrow> string set" where
  "hashed_texts texts cases = canonical_json ` (JStr ` set texts \<union> hidden_answers ` set cases \<union> (JList \<circ> bc_actions) ` set cases)"

lemma quoted_differs: "canonical_json (JStr s) \<noteq> canonical_json (hidden_answers c)" "canonical_json (JStr s) \<noteq> canonical_json (JList vs)"
proof -
  have "hd (canonical_json (JStr s)) \<noteq> hd (canonical_json (hidden_answers c))" "hd (canonical_json (JStr s)) \<noteq> hd (canonical_json (JList vs))"
    by (simp_all add: hidden_answers_def canonical_starts)
  then show "canonical_json (JStr s) \<noteq> canonical_json (hidden_answers c)" "canonical_json (JStr s) \<noteq> canonical_json (JList vs)"
    by metis+
qed

lemma text_is_no_answer:
  assumes "inj_on (sc_digest sc) (hashed_texts texts cases)" "s \<in> set texts"
  shows "sc_digest sc (canonical_json (JStr s)) \<notin> hidden_fingerprints sc cases"
proof -
  have same: "canonical_json (JStr s) = canonical_json v"
    if "sc_digest sc (canonical_json (JStr s)) = sc_digest sc (canonical_json v)" "v \<in> hidden_answers ` set cases \<union> (JList \<circ> bc_actions) ` set cases" for v
    using that assms(2) by (intro inj_onD [OF assms(1)]) (auto simp: hashed_texts_def)
  show ?thesis
  proof
    assume "sc_digest sc (canonical_json (JStr s)) \<in> hidden_fingerprints sc cases"
    then consider c where "c \<in> set cases" "sc_digest sc (canonical_json (JStr s)) = sc_digest sc (canonical_json (hidden_answers c))"
      | c where "c \<in> set cases" "sc_digest sc (canonical_json (JStr s)) = sc_digest sc (canonical_json (JList (bc_actions c)))"
      by (auto simp: hidden_fingerprints_def)
    then show False using same quoted_differs by cases fastforce+
  qed
qed

text \<open>C40: the scan of the texts that crossed the boundary to the models only ever finds markers: a text is quoted
  before it is hashed, so unless the digest collides, the comparison with the hidden answers
  never hits, whatever the texts are, the hidden answers themselves included. A cell whose model was
  shown the actions of the ground truth, spelled as they are hashed, passes unless a marker occurs.\<close>

theorem shown_answers_pass:
  assumes "inj_on (sc_digest sc) (hashed_texts texts cases)" "(n, hit) \<in> set (scan_leakage sc (map JStr texts) cases)"
  shows "n < length texts \<and> (\<exists>marker \<in> set leak_markers. hit = Some marker
    \<and> contains_text (codes marker) (casefold (sc_wide sc) (codes (canonical_json (JStr (texts ! n))))))"
  using assms(2) text_is_no_answer [OF assms(1)]
  by (auto simp: scan_leakage_def in_set_enumerate_eq split: if_splits)

lemma marker_shown: "(0, Some ''ground_truth'') \<in> set (scan_leakage (bl_scanner truth_setting) (map JStr [''ground_truth'']) [truth_case demo_budget])"
proof -
  have "contains_text (codes ''ground_truth'') (casefold (\<lambda>c. [c]) (codes (canonical_json (JStr ''ground_truth''))))"
    by code_simp
  moreover have "''ground_truth'' \<in> set leak_markers" by (simp add: leak_markers_def)
  ultimately show ?thesis by (auto simp: scan_leakage_def truth_setting_def)
qed

theorem shown_answers_pass_witness:
  "\<exists>marker \<in> set leak_markers. Some ''ground_truth'' = Some marker
    \<and> contains_text (codes marker) (casefold (\<lambda>c. [c]) (codes (canonical_json (JStr ''ground_truth''))))"
proof -
  have "inj_on (sc_digest (bl_scanner truth_setting)) (hashed_texts [''ground_truth''] [truth_case demo_budget])"
    by (simp add: truth_setting_def inj_on_def)
  from shown_answers_pass [OF this marker_shown] show ?thesis by (simp add: truth_setting_def)
qed

section \<open>Recorded findings, and metrics that may be shown\<close>

text \<open>The findings recorded of earlier releases are still found.\<close>

theorem recorded_findings_hold: "historical_pass_rate None = Some (Some 1)"
proof -
  have "historical_cases \<noteq> []" "length historical_cases = 1" by (simp_all add: historical_cases_def)
  then show ?thesis using recorded_violated by (simp add: historical_pass_rate_def)
qed

fun has_field :: "string set \<Rightarrow> json \<Rightarrow> bool" where
  "has_field ks (JObj m) \<longleftrightarrow> (\<exists>(k, v) \<in> set m. k \<in> ks \<or> has_field ks v)"
| "has_field ks (JList vs) \<longleftrightarrow> (\<exists>v \<in> set vs. has_field ks v)"
| "has_field ks v \<longleftrightarrow> False"

lemma without_private_clean: "\<not> has_field private_fields (without_private v)"
  by (induction v rule: without_private.induct) auto

lemma without_private_same: "\<not> has_field private_fields v \<Longrightarrow> without_private v = v"
proof (induction v rule: without_private.induct)
  case (1 m)
  have kept: "filter (\<lambda>(k, v). k \<notin> private_fields) m = m" using 1(2) by (auto simp: filter_id_conv)
  have "without_private v = v" if "(k, v) \<in> set m" for k v
    by (rule 1(1) [of "(k, v)" k v]) (use that 1(2) in auto)
  then have "map (\<lambda>(k, v). (k, without_private v)) m = m" by (intro map_idI) auto
  then show ?case using kept by simp
qed (auto intro: map_idI)

theorem public_summary_clean:
  "\<not> has_field private_fields (public_metric_summary m)
    \<and> (\<not> has_field private_fields (JObj m) \<longrightarrow> public_metric_summary m = JObj m)"
  using without_private_clean without_private_same by (simp only: public_metric_summary_def) blast

end
