(* ===== verification/Spec2Isabelle.thy ===== *)
theory Spec2Isabelle
  imports Sandbox_Properties Gate_Properties Search_Properties Oracle_Properties Worker_Properties Control_Properties Eval_Refund_Properties Eval_Baseline_Properties
begin

text \<open>
  RuleArena looks for defects in e-commerce rules. A commerce sandbox executes orders, refunds,
  points and memberships, with defects that can be switched on by axis; a reference simulator says
  what the rules allow; searches walk the simulator for suspicious traces; a replay runs a trace on
  the sandbox over HTTP and a deterministic oracle judges the evidence; what is confirmed is
  minimized. A second use of the sandbox is a refund agent whose writes go through a runtime gate.

  \<^bold>\<open>Theories and code.\<close>
  \<^item> \<open>Prelude\<close>, \<open>PyValues\<close>: results that are an error or a value, tables of keyed rows, the locale
    \<open>step_machine\<close> (an invariant and an order of progress along a sequence of steps), JSON values and
    the conversions of the Python library (\<^verbatim>\<open>str\<close>, \<^verbatim>\<open>repr\<close>, \<^verbatim>\<open>int\<close>, \<^verbatim>\<open>Decimal\<close>, quantizing to cents).
  \<^item> \<open>Contracts\<close>: \<^verbatim>\<open>packages/domain_contracts\<close> and \<^verbatim>\<open>packages/policy_schema\<close>.
  \<^item> \<open>Sandbox_State\<close>, \<open>Sandbox_Ops\<close>: \<^verbatim>\<open>services/commerce_sandbox\<close>, one record per table, one definition per
    method of \<^verbatim>\<open>SandboxService\<close>; \<open>execute\<close> is the transaction with its savepoint, its receipt and its
    lost acknowledgement. \<open>Sandbox_Http\<close>: \<^verbatim>\<open>app.py\<close> and the network between it and a client.
  \<^item> \<open>Sandbox_Books\<close> is the abstract specification, an inductive relation of moves of the business
    rows; \<open>Sandbox_Accounts\<close> proves what moves keep by rule induction, \<open>Sandbox_Refinement\<close> that every
    handler is a sequence of moves, \<open>Sandbox_Service\<close> the log and the receipts, \<open>Sandbox_Demo\<close> the runs
    (with the interpretation of \<open>step_machine\<close>), \<open>Sandbox_Properties\<close> the properties.
  \<^item> \<open>Sim_Action\<close>, \<open>Gate\<close> (\<^verbatim>\<open>packages/runtime_gate/gate.py\<close>), \<open>Gateway\<close> and \<open>Agent\<close>
    (\<^verbatim>\<open>packages/refund_agent\<close>). \<open>Write_Guard\<close> states what a guard must promise as the locale
    \<open>write_guard\<close> and interprets it on the runtime gate; \<open>Guarded_Writes\<close> holds the facts about served
    refunds, \<open>Agent_Demo\<close> concrete tickets, \<open>Gate_Properties\<close> the properties.
  \<^item> \<open>Sim_State\<close>, \<open>Sim_Ops\<close> (\<^verbatim>\<open>packages/reference_simulator\<close>), \<open>Sim_Facts\<close>, \<open>Sim_Safety\<close>,
    \<open>Sim_Properties\<close>; \<open>Search\<close> (\<^verbatim>\<open>search.py\<close>) and \<open>Search_Properties\<close>.
  \<^item> \<open>Oracle\<close> (\<^verbatim>\<open>packages/oracle/evaluator.py\<close>), \<open>Replay\<close> and \<open>Minimization\<close>
    (\<^verbatim>\<open>packages/attack_runtime\<close>), \<open>Oracle_Facts\<close>, \<open>Oracle_Demo\<close>, \<open>Oracle_Properties\<close>.
  \<^item> \<open>Runtime_Store\<close> (\<^verbatim>\<open>workflow.py\<close>: runs, strategies, checkpoints, events, and the store),
    \<open>Runtime_Machine\<close> (the transitions and the log of a run), \<open>Runtime_Agents\<close> (\<^verbatim>\<open>agents.py\<close>).
  \<^item> \<open>Worker_Base\<close> is the state the worker computes in, with what surrounds it; \<open>Worker_Values\<close>, \<open>Worker_Search\<close>
    and \<open>Worker_Run\<close> are \<^verbatim>\<open>worker.py\<close>: serialization and shares, the search of one strategy
    (\<^verbatim>\<open>_search_strategy\<close>), the pass (\<^verbatim>\<open>run\<close>). \<open>Worker_Keeps\<close> holds the locales \<open>search_rely\<close>, what every step of
    a search keeps of the store if every request keeps it, and \<open>store_rely\<close>, its extension to a whole pass; \<open>Worker_Facts\<close> interprets it on the invariant of the log and on the
    evidence of counterexamples. \<open>Worker_Durable\<close> is about checkpoints, \<open>Worker_Gateway\<close> puts the replay on
    the sandbox behind the worker, \<open>Worker_Budget\<close> bounds the shares, \<open>Worker_Demo\<close> holds the runs and
    \<open>Worker_Properties\<close> the properties.
  \<^item> \<open>Rule_Compiler\<close> (\<^verbatim>\<open>compiler.py\<close>: a scripted model proposes, the compiler checks, a store keeps the
    versions), \<open>Compiler_Facts\<close>, \<open>Compiler_Properties\<close>. \<open>Control_Api\<close> (\<^verbatim>\<open>services/control_api/api.py\<close>: rule
    versions, runs, the stream of events, the rate limit), \<open>Control_Properties\<close>.
  \<^item> \<^verbatim>\<open>packages/evaluation\<close>: \<open>Eval_Models\<close>, \<open>Eval_Metrics\<close> and \<open>Eval_Gate\<close> are \<^verbatim>\<open>models.py\<close>, \<^verbatim>\<open>metrics.py\<close>
    and \<^verbatim>\<open>gate.py\<close>; \<open>Eval_Runner\<close> is \<^verbatim>\<open>runner.py\<close> with the store in memory, the checks of \<^verbatim>\<open>loader.py\<close> and
    \<^verbatim>\<open>security.py\<close>; \<open>Eval_Refund\<close> has the models, metrics, store and gate of the refund suite and \<open>Eval_Cell\<close> its
    executor and runner (\<^verbatim>\<open>refund_runner.py\<close>) on the gateway of \<open>Gateway\<close> and the agent of \<open>Agent\<close>.
    \<open>Eval_Runs\<close> and \<open>Eval_Facts\<close> hold the lemmas, \<open>Eval_Properties\<close> and \<open>Eval_Refund_Properties\<close> the
    properties. \<open>Eval_Baselines\<close> has the executors of the cells (\<^verbatim>\<open>baselines.py\<close>: \<open>Search\<close> or the pass of
    \<open>Worker_Run\<close>, confirmed by \<open>Replay\<close> on the sandbox), \<^verbatim>\<open>ground_truth.py\<close>, \<^verbatim>\<open>historical_p0.py\<close> and the summary of
    \<^verbatim>\<open>security.py\<close>; \<open>Eval_Baseline_Facts\<close> holds what a pass leaves in the store of its cell, \<open>Eval_Demo\<close> the concrete
    cells, \<open>Eval_Baseline_Properties\<close> the properties.

  \<^bold>\<open>What is shown.\<close> Of the sandbox: what each injected defect is able to break and nothing else (refunds,
  points, coupons, entitlements), conservation of money, idempotent replay, durable receipts, the
  append-only log, refinement of the abstract moves. Of the gated agent: one refund per ticket on a
  network that loses but does not delay, and the run where a delayed request defeats it. Of the
  simulator: bounds, conservation, types, when an exception escapes. Of the searches: soundness,
  shortest traces, absence on exhaustion, termination. Of the oracle: its verdicts are conditions on
  the rows, it always reports, and a replay confirms only defects that were injected. Of
  minimization: what it keeps, that it ends, when its flag is right. Of the worker: its runs follow the
  machine whatever interferes and wherever they crash, a counterexample has the evidence of a replay and
  on the real gateway a defect behind it, candidates survive a crash, shares add up; and where evidence of
  the rule model is misread and a run gets stuck. Of the compiler: what it accepts passed its checks, and
  versions are only appended. Of the control API: confirmed versions stay, the limit of requests in a
  window, the order of the stream and its early end, repeated keys. Of the evaluation: the
  interval of a rate contains it, both release gates are decided by the stored facts, failed cells count
  for nothing, the order of cells cannot be observed, a killed run resumes to a complete one (under
  another seed as well), and the gated arm has no loss on a network that delays nothing; the facts of
  every executor are coherent and confirm payment and entitlement invariants only where the axis behind
  them is declared, a pass that returns always becomes a fact, verified ground truth has its defect, and
  the scan of texts never recognizes a hidden answer.

  \<^bold>\<open>Bounds.\<close> Amounts are rationals, which are whole cents in every reached state; Python's integers are
  unbounded. The loops of the searches and of minimization are recursive functions with measures: no
  fuel is used. Where an exception can escape, a missing value stands for it.

  \<^bold>\<open>Parameters.\<close> The digest of a snapshot, the hash of a simulator state, the random stream, the clock and
  fresh identifiers of a request, the character classes beyond ASCII, and whether and when a request
  or its reply is delivered are arguments of the definitions that use them. The worker runs in
  \<open>surroundings\<close>: the agents behind their language models, the replay gateway, injected faults, the
  clock, and at every await the requests that other parts of the runtime send to the store. The runner of a suite takes the executor of a
  cell, the clock and the fresh identifiers; the scanner of inputs takes the digest and the folding of case;
  the compiler takes the replies of its model; the executor of a cell takes the texts that crossed the
  boundary to the models and the reading of a diagnostic event. Floating-point numbers of the metrics are reals.

  \<^bold>\<open>Not modelled.\<close> The range of the NUMERIC columns and the 28 digits of decimal sums and quotients;
  messages, details and explanations; negative zero; the collation of the database; receipt times and
  elapsed times; authentication and body limits; the scale of decimals inside the simulator's hash;
  run creation that is served late; the quoting of keys in URLs. Of the attack runtime, the traces, the
  prompts, the HTTP adapter and the reading of schemas in the compiler, and the stores on PostgreSQL; of
  the control API, its wiring, its tables and the routes that only dump them; of the evaluation package,
  its files and command line, and its stores on PostgreSQL; observability,
  the migrations, the scripts and the frontend: these are input and output, declarations of tables, or
  calls of libraries.
\<close>

end
